(* ===== verification/Prelude.thy ===== *)
theory Prelude
  imports Main "HOL-Library.Word"
begin

text \<open>
  Shared vocabulary of the development: the machine types of the C code, the error codes of
  \<open>ssherr.h\<close> that the modelled functions return, reads and writes of a memory block, and the
  big-endian accessors \<open>PEEK_U*\<close> and \<open>POKE_U*\<close> of \<open>sshbuf.h\<close>.

  A C function that returns \<open>0\<close> or a negative error code and changes an object is a function
  from the object to a pair of a result (\<open>Inl\<close> an error, \<open>Inr\<close> what the function hands back)
  and the object after the call, so the state an error path leaves behind is part of the model.
\<close>

unbundle bit_operations_syntax

section \<open>Machine types\<close>

type_synonym u8 = "8 word"
type_synonym u16 = "16 word"
type_synonym u32 = "32 word"
type_synonym u64 = "64 word"
type_synonym size_t = "64 word"
type_synonym ptr = "64 word"

abbreviation NULL :: ptr where "NULL \<equiv> 0"

abbreviation SIZE_MAX :: size_t where "SIZE_MAX \<equiv> 0xffffffffffffffff"

section \<open>Error codes\<close>

text \<open>
  The codes of \<open>ssherr.h\<close> that the modelled code returns, under their names there.
  \<open>MEM_FAULT\<close> is not a code of the program: it is the model's value for a read or write outside
  the addressed block, which is undefined behaviour in C. The lemmas on the buffer code show that
  no operation on a well-formed buffer ever yields it.
\<close>

datatype ssherr =
    SSH_ERR_INTERNAL_ERROR
  | SSH_ERR_ALLOC_FAIL
  | SSH_ERR_MESSAGE_INCOMPLETE
  | SSH_ERR_INVALID_FORMAT
  | SSH_ERR_BIGNUM_IS_NEGATIVE
  | SSH_ERR_STRING_TOO_LARGE
  | SSH_ERR_BIGNUM_TOO_LARGE
  | SSH_ERR_NO_BUFFER_SPACE
  | SSH_ERR_INVALID_ARGUMENT
  | SSH_ERR_BUFFER_READ_ONLY
  | SSH_ERR_UNEXPECTED_TRAILING_DATA
  | MEM_FAULT

type_synonym 'a res = "ssherr + 'a"

named_theorems frame_simps \<open>what an operation leaves unchanged\<close>
named_theorems bound_simps \<open>unsigned readings of size arithmetic that cannot wrap\<close>

section \<open>Memory blocks\<close>

definition mem_read :: "u8 list \<Rightarrow> nat \<Rightarrow> nat \<Rightarrow> u8 list option" where
  "mem_read m p n = (if p + n \<le> length m then Some (take n (drop p m)) else None)"

definition mem_write :: "u8 list \<Rightarrow> nat \<Rightarrow> u8 list \<Rightarrow> u8 list option" where
  "mem_write m p bs =
     (if p + length bs \<le> length m
      then Some (take p m @ bs @ drop (p + length bs) m) else None)"

lemma mem_read_Some [simp]: "p + n \<le> length m \<Longrightarrow> mem_read m p n = Some (take n (drop p m))"
  by (simp add: mem_read_def)

lemma mem_write_Some:
  "p + length bs \<le> length m \<Longrightarrow>
   mem_write m p bs = Some (take p m @ bs @ drop (p + length bs) m)"
  by (simp add: mem_write_def)

lemma mem_write_length: "mem_write m p bs = Some m' \<Longrightarrow> length m' = length m"
  by (auto simp: mem_write_def split: if_splits)

lemma mem_write_below: "mem_write m p bs = Some m' \<Longrightarrow> take p m' = take p m"
  by (auto simp: mem_write_def split: if_splits)

lemma mem_read_write: "mem_write m p bs = Some m' \<Longrightarrow> mem_read m' p (length bs) = Some bs"
  by (auto simp: mem_write_def mem_read_def split: if_splits)

text \<open>\<open>recallocarray\<close> to \<open>n\<close> bytes: the old contents are kept and new bytes are zero.\<close>

definition mem_resize :: "u8 list \<Rightarrow> nat \<Rightarrow> u8 list" where
  "mem_resize m n = take n m @ replicate (n - length m) 0"

lemma length_mem_resize [simp]: "length (mem_resize m n) = n"
  by (simp add: mem_resize_def)

lemma take_mem_resize: "k \<le> length m \<Longrightarrow> k \<le> n \<Longrightarrow> take k (mem_resize m n) = take k m"
  by (simp add: mem_resize_def)

section \<open>Unsigned arithmetic that does not wrap\<close>

lemma unat_add_nowrap [bound_simps]:
  "unat (a::size_t) + unat b < 2 ^ 64 \<Longrightarrow> unat (a + b) = unat a + unat b"
  by (simp add: unat_word_ariths)

lemma unat_diff_nowrap [bound_simps]:
  "unat (b::size_t) \<le> unat a \<Longrightarrow> unat (a - b) = unat a - unat b"
  by (simp add: unat_sub word_le_nat_alt)

lemma unat_ucast_up_32 [simp]: "unat (ucast (x :: u32) :: size_t) = unat x"
  by transfer (simp add: take_bit_eq_mod)

lemma unat_less_32: "unat (x :: u32) < 4294967296"
  using unsigned_less [of x] by simp

section \<open>Big-endian integers (PEEK and POKE)\<close>

definition PEEK_U64 :: "u8 list \<Rightarrow> u64" where
  "PEEK_U64 p =
     push_bit 56 (ucast (p ! 0)) OR push_bit 48 (ucast (p ! 1)) OR
     push_bit 40 (ucast (p ! 2)) OR push_bit 32 (ucast (p ! 3)) OR
     push_bit 24 (ucast (p ! 4)) OR push_bit 16 (ucast (p ! 5)) OR
     push_bit 8 (ucast (p ! 6)) OR ucast (p ! 7)"

definition PEEK_U32 :: "u8 list \<Rightarrow> u32" where
  "PEEK_U32 p =
     push_bit 24 (ucast (p ! 0)) OR push_bit 16 (ucast (p ! 1)) OR
     push_bit 8 (ucast (p ! 2)) OR ucast (p ! 3)"

definition PEEK_U16 :: "u8 list \<Rightarrow> u16" where
  "PEEK_U16 p = push_bit 8 (ucast (p ! 0)) OR ucast (p ! 1)"

definition POKE_U64 :: "u64 \<Rightarrow> u8 list" where
  "POKE_U64 v =
     [ucast (drop_bit 56 v AND 0xff), ucast (drop_bit 48 v AND 0xff),
      ucast (drop_bit 40 v AND 0xff), ucast (drop_bit 32 v AND 0xff),
      ucast (drop_bit 24 v AND 0xff), ucast (drop_bit 16 v AND 0xff),
      ucast (drop_bit 8 v AND 0xff), ucast (v AND 0xff)]"

definition POKE_U32 :: "u32 \<Rightarrow> u8 list" where
  "POKE_U32 v =
     [ucast (drop_bit 24 v AND 0xff), ucast (drop_bit 16 v AND 0xff),
      ucast (drop_bit 8 v AND 0xff), ucast (v AND 0xff)]"

definition POKE_U16 :: "u16 \<Rightarrow> u8 list" where
  "POKE_U16 v = [ucast (drop_bit 8 v AND 0xff), ucast (v AND 0xff)]"

lemma length_POKE [simp]:
  "length (POKE_U64 v) = 8" "length (POKE_U32 w) = 4" "length (POKE_U16 x) = 2"
  by (simp_all add: POKE_U64_def POKE_U32_def POKE_U16_def)

lemma low_byte_eq_mask: "(0xff :: 'a::len word) = mask 8"
  by (simp add: mask_eq_exp_minus_1)

lemma PEEK_POKE_U16 [simp]: "PEEK_U16 (POKE_U16 v) = v"
proof (rule bit_word_eqI)
  fix n assume n: "n < LENGTH(16)"
  then consider "n < 8" | "8 \<le> n" by linarith
  then show "bit (PEEK_U16 (POKE_U16 v)) n \<longleftrightarrow> bit v n" using n
    by cases (auto simp: PEEK_U16_def POKE_U16_def bit_simps low_byte_eq_mask)
qed

lemma PEEK_POKE_U32 [simp]: "PEEK_U32 (POKE_U32 v) = v"
proof (rule bit_word_eqI)
  fix n assume n: "n < LENGTH(32)"
  then consider "n < 8" | "8 \<le> n" "n < 16" | "16 \<le> n" "n < 24" | "24 \<le> n" by linarith
  then show "bit (PEEK_U32 (POKE_U32 v)) n \<longleftrightarrow> bit v n" using n
    by cases (auto simp: PEEK_U32_def POKE_U32_def bit_simps low_byte_eq_mask)
qed

text \<open>A 64-bit integer is its two 32-bit halves, most significant first.\<close>

lemma POKE_U64_halves: "POKE_U64 v = POKE_U32 (ucast (drop_bit 32 v)) @ POKE_U32 (ucast v)"
  by (simp add: POKE_U64_def POKE_U32_def low_byte_eq_mask)
    (intro conjI bit_word_eqI; simp add: bit_simps; linarith)

lemma PEEK_U64_halves:
  assumes "length p = 4"
  shows "PEEK_U64 (p @ q) = push_bit 32 (ucast (PEEK_U32 p)) OR ucast (PEEK_U32 q)"
proof -
  have up: "(ucast (push_bit k (ucast (b :: u8) :: u32)) :: u64) = push_bit k (ucast b)"
    if "k + 8 \<le> 32" for k b
    using that by (intro bit_word_eqI) (auto simp: bit_simps dest: bit_imp_le_length)
  have or: "(ucast (a OR b :: u32) :: u64) = ucast a OR ucast b" for a b
    by (intro bit_word_eqI) (auto simp: bit_simps)
  have ub: "(ucast (ucast (b :: u8) :: u32) :: u64) = ucast b" for b
    by (intro bit_word_eqI) (auto simp: bit_simps dest: bit_imp_le_length)
  show ?thesis using assms
    by (simp add: PEEK_U64_def PEEK_U32_def or up ub nth_append push_bit_or or.assoc)
qed

lemma PEEK_POKE_U64 [simp]: "PEEK_U64 (POKE_U64 v) = v"
proof -
  have "push_bit 32 (ucast (ucast (drop_bit 32 v) :: u32)) OR ucast (ucast v :: u32) = v"
    by (intro bit_word_eqI) (auto simp: bit_simps)
  then show ?thesis by (simp add: POKE_U64_halves PEEK_U64_halves)
qed

end
