(* ===== verification/SshBuf.thy ===== *)
theory SshBuf
  imports Prelude
begin

text \<open>
  The byte buffer of \<open>sshbuf.c\<close>: the record of the struct with its sizes as 64-bit words, one
  definition per operation, the invariant (the code's own sanity check, and a memory block of the
  allocated length), and what every operation does to the unread contents.

  The memory the struct points to is the field \<open>b_mem\<close>, the block at \<open>b_cd\<close>; a position in it
  is an offset. \<open>calloc\<close> and \<open>recallocarray\<close> are libc's: they are the parameter \<open>alc\<close>, which
  gives the new block for a requested size or \<open>NULL\<close>.
\<close>

section \<open>The buffer and its constants\<close>

record sshbuf =
  b_d :: ptr
  b_cd :: ptr
  b_mem :: "u8 list"
  b_off :: size_t
  b_size :: size_t
  b_max_size :: size_t
  b_alloc :: size_t
  b_readonly :: bool
  b_refcount :: u32
  b_parent :: "ptr option"

abbreviation SSHBUF_SIZE_MAX :: size_t where "SSHBUF_SIZE_MAX \<equiv> 0x8000000"
abbreviation SSHBUF_REFS_MAX :: u32 where "SSHBUF_REFS_MAX \<equiv> 0x100000"
abbreviation SSHBUF_SIZE_INIT :: size_t where "SSHBUF_SIZE_INIT \<equiv> 256"
abbreviation SSHBUF_SIZE_INC :: size_t where "SSHBUF_SIZE_INC \<equiv> 256"
abbreviation SSHBUF_PACK_MIN :: size_t where "SSHBUF_PACK_MIN \<equiv> 8192"
abbreviation SIZEOF_SSHBUF :: size_t where "SIZEOF_SSHBUF \<equiv> 64"

definition ROUNDUP :: "size_t \<Rightarrow> size_t \<Rightarrow> size_t" where
  "ROUNDUP x y = ((x + (y - 1)) div y) * y"

section \<open>Operations\<close>

definition sshbuf_check_sanity :: "sshbuf \<Rightarrow> unit res" where
  "sshbuf_check_sanity buf =
     (if (\<not> b_readonly buf \<and> b_d buf \<noteq> b_cd buf) \<or>
         b_refcount buf < 1 \<or> b_refcount buf > SSHBUF_REFS_MAX \<or>
         b_cd buf = NULL \<or>
         b_max_size buf > SSHBUF_SIZE_MAX \<or>
         b_alloc buf > b_max_size buf \<or>
         b_size buf > b_alloc buf \<or>
         b_off buf > b_size buf
      then Inl SSH_ERR_INTERNAL_ERROR else Inr ())"

definition sshbuf_maybe_pack :: "sshbuf \<Rightarrow> bool \<Rightarrow> sshbuf" where
  "sshbuf_maybe_pack buf force =
     (if b_off buf = 0 \<or> b_readonly buf \<or> b_refcount buf > 1 then buf
      else if force \<or> (b_off buf \<ge> SSHBUF_PACK_MIN \<and> b_off buf \<ge> b_size buf div 2)
      then let n = unat (b_size buf - b_off buf);
               live = take n (drop (unat (b_off buf)) (b_mem buf))
           in buf\<lparr>b_mem := live @ drop n (b_mem buf),
                  b_size := b_size buf - b_off buf,
                  b_off := 0\<rparr>
      else buf)"

definition sshbuf_new :: "(size_t \<Rightarrow> ptr) \<Rightarrow> sshbuf option" where
  "sshbuf_new alc =
     (if alc SIZEOF_SSHBUF = NULL then None
      else let dp = alc SSHBUF_SIZE_INIT in
        if dp = NULL then None
        else Some \<lparr>b_d = dp, b_cd = dp, b_mem = replicate (unat SSHBUF_SIZE_INIT) 0,
                   b_off = 0, b_size = 0, b_max_size = SSHBUF_SIZE_MAX,
                   b_alloc = SSHBUF_SIZE_INIT, b_readonly = False,
                   b_refcount = 1, b_parent = None\<rparr>)"

definition sshbuf_from :: "(size_t \<Rightarrow> ptr) \<Rightarrow> ptr \<Rightarrow> u8 list \<Rightarrow> size_t \<Rightarrow> sshbuf option" where
  "sshbuf_from alc blob bytes len =
     (if blob = NULL \<or> len > SSHBUF_SIZE_MAX \<or> alc SIZEOF_SSHBUF = NULL then None
      else Some \<lparr>b_d = NULL, b_cd = blob, b_mem = bytes,
                 b_off = 0, b_size = len, b_max_size = len, b_alloc = len,
                 b_readonly = True, b_refcount = 1, b_parent = None\<rparr>)"

definition sshbuf_reset :: "(size_t \<Rightarrow> ptr) \<Rightarrow> sshbuf \<Rightarrow> sshbuf" where
  "sshbuf_reset alc buf =
     (if b_readonly buf \<or> b_refcount buf > 1 then buf\<lparr>b_off := b_size buf\<rparr>
      else if sshbuf_check_sanity buf \<noteq> Inr () then buf
      else let b1 = buf\<lparr>b_off := 0, b_size := 0\<rparr>;
               b2 = (if b_alloc b1 \<noteq> SSHBUF_SIZE_INIT
                     then let dp = alc SSHBUF_SIZE_INIT in
                       if dp \<noteq> NULL
                       then b1\<lparr>b_cd := dp, b_d := dp, b_alloc := SSHBUF_SIZE_INIT,
                               b_mem := mem_resize (b_mem b1) (unat SSHBUF_SIZE_INIT)\<rparr>
                       else b1
                     else b1)
           in b2\<lparr>b_mem := replicate (unat (b_alloc b2)) 0 @ drop (unat (b_alloc b2)) (b_mem b2)\<rparr>)"

definition sshbuf_set_max_size ::
    "(size_t \<Rightarrow> ptr) \<Rightarrow> sshbuf \<Rightarrow> size_t \<Rightarrow> unit res \<times> sshbuf" where
  "sshbuf_set_max_size alc buf max_size =
     (case sshbuf_check_sanity buf of
        Inl r \<Rightarrow> (Inl r, buf)
      | Inr _ \<Rightarrow>
        if max_size = b_max_size buf then (Inr (), buf)
        else if b_readonly buf \<or> b_refcount buf > 1 then (Inl SSH_ERR_BUFFER_READ_ONLY, buf)
        else if max_size > SSHBUF_SIZE_MAX then (Inl SSH_ERR_NO_BUFFER_SPACE, buf)
        else
          let b1 = sshbuf_maybe_pack buf (max_size < b_size buf);
              rlen0 = (if b_size b1 < SSHBUF_SIZE_INIT then SSHBUF_SIZE_INIT
                       else ROUNDUP (b_size b1) SSHBUF_SIZE_INC);
              rlen = (if rlen0 > max_size then max_size else rlen0);
              shrink = (max_size < b_alloc b1 \<and> max_size > b_size b1);
              dp = alc rlen
          in if shrink \<and> dp = NULL then (Inl SSH_ERR_ALLOC_FAIL, b1)
             else
               let b2 = (if shrink
                         then b1\<lparr>b_alloc := rlen, b_cd := dp, b_d := dp,
                                 b_mem := mem_resize (b_mem b1) (unat rlen)\<rparr>
                         else b1)
               in if max_size < b_alloc b2 then (Inl SSH_ERR_NO_BUFFER_SPACE, b2)
                  else (Inr (), b2\<lparr>b_max_size := max_size\<rparr>))"

definition sshbuf_len :: "sshbuf \<Rightarrow> size_t" where
  "sshbuf_len buf =
     (if sshbuf_check_sanity buf \<noteq> Inr () then 0 else b_size buf - b_off buf)"

definition sshbuf_avail :: "sshbuf \<Rightarrow> size_t" where
  "sshbuf_avail buf =
     (if sshbuf_check_sanity buf \<noteq> Inr () \<or> b_readonly buf \<or> b_refcount buf > 1 then 0
      else b_max_size buf - (b_size buf - b_off buf))"

text \<open>A pointer into the buffer is its offset from \<open>b_cd\<close>; \<open>None\<close> is the null pointer.\<close>

definition sshbuf_ptr :: "sshbuf \<Rightarrow> size_t option" where
  "sshbuf_ptr buf = (if sshbuf_check_sanity buf \<noteq> Inr () then None else Some (b_off buf))"

definition sshbuf_mutable_ptr :: "sshbuf \<Rightarrow> size_t option" where
  "sshbuf_mutable_ptr buf =
     (if sshbuf_check_sanity buf \<noteq> Inr () \<or> b_readonly buf \<or> b_refcount buf > 1 then None
      else Some (b_off buf))"

definition sshbuf_check_reserve :: "sshbuf \<Rightarrow> size_t \<Rightarrow> unit res" where
  "sshbuf_check_reserve buf len =
     (case sshbuf_check_sanity buf of
        Inl r \<Rightarrow> Inl r
      | Inr _ \<Rightarrow>
        if b_readonly buf \<or> b_refcount buf > 1 then Inl SSH_ERR_BUFFER_READ_ONLY
        else if len > b_max_size buf \<or> b_max_size buf - len < b_size buf - b_off buf
        then Inl SSH_ERR_NO_BUFFER_SPACE
        else Inr ())"

definition sshbuf_allocate ::
    "(size_t \<Rightarrow> ptr) \<Rightarrow> sshbuf \<Rightarrow> size_t \<Rightarrow> unit res \<times> sshbuf" where
  "sshbuf_allocate alc buf len =
     (case sshbuf_check_reserve buf len of
        Inl r \<Rightarrow> (Inl r, buf)
      | Inr _ \<Rightarrow>
        let b1 = sshbuf_maybe_pack buf (b_size buf + len > b_max_size buf) in
        if len + b_size b1 \<le> b_alloc b1 then (Inr (), b1)
        else
          let need = len + b_size b1 - b_alloc b1;
              rlen0 = ROUNDUP (b_alloc b1 + need) SSHBUF_SIZE_INC;
              rlen = (if rlen0 > b_max_size b1 then b_alloc b1 + need else rlen0);
              dp = alc rlen
          in if dp = NULL then (Inl SSH_ERR_ALLOC_FAIL, b1)
             else
               let b2 = b1\<lparr>b_alloc := rlen, b_cd := dp, b_d := dp,
                           b_mem := mem_resize (b_mem b1) (unat rlen)\<rparr>
               in (case sshbuf_check_reserve b2 len of
                     Inl r \<Rightarrow> (Inl r, b2)
                   | Inr _ \<Rightarrow> (Inr (), b2)))"

text \<open>On success \<open>sshbuf_reserve\<close> hands back the position of the new bytes.\<close>

definition sshbuf_reserve ::
    "(size_t \<Rightarrow> ptr) \<Rightarrow> sshbuf \<Rightarrow> size_t \<Rightarrow> size_t res \<times> sshbuf" where
  "sshbuf_reserve alc buf len =
     (case sshbuf_allocate alc buf len of
        (Inl r, b1) \<Rightarrow> (Inl r, b1)
      | (Inr _, b1) \<Rightarrow> (Inr (b_size b1), b1\<lparr>b_size := b_size b1 + len\<rparr>))"

definition sshbuf_consume :: "sshbuf \<Rightarrow> size_t \<Rightarrow> unit res \<times> sshbuf" where
  "sshbuf_consume buf len =
     (case sshbuf_check_sanity buf of
        Inl r \<Rightarrow> (Inl r, buf)
      | Inr _ \<Rightarrow>
        if len = 0 then (Inr (), buf)
        else if len > sshbuf_len buf then (Inl SSH_ERR_MESSAGE_INCOMPLETE, buf)
        else let b1 = buf\<lparr>b_off := b_off buf + len\<rparr> in
          (Inr (), if b_off b1 = b_size b1 then b1\<lparr>b_off := 0, b_size := 0\<rparr> else b1))"

definition sshbuf_consume_end :: "sshbuf \<Rightarrow> size_t \<Rightarrow> unit res \<times> sshbuf" where
  "sshbuf_consume_end buf len =
     (case sshbuf_check_sanity buf of
        Inl r \<Rightarrow> (Inl r, buf)
      | Inr _ \<Rightarrow>
        if len = 0 then (Inr (), buf)
        else if len > sshbuf_len buf then (Inl SSH_ERR_MESSAGE_INCOMPLETE, buf)
        else (Inr (), buf\<lparr>b_size := b_size buf - len\<rparr>))"

section \<open>Well-formed buffers and their contents\<close>

definition sshbuf_inv :: "sshbuf \<Rightarrow> bool" where
  "sshbuf_inv buf \<longleftrightarrow>
     sshbuf_check_sanity buf = Inr () \<and> length (b_mem buf) = unat (b_alloc buf)"

definition writable :: "sshbuf \<Rightarrow> bool" where
  "writable buf \<longleftrightarrow> \<not> b_readonly buf \<and> \<not> b_refcount buf > 1"

definition contents :: "sshbuf \<Rightarrow> u8 list" where
  "contents buf =
     take (unat (b_size buf) - unat (b_off buf)) (drop (unat (b_off buf)) (b_mem buf))"

lemma sane_iff:
  "sshbuf_check_sanity buf = Inr () \<longleftrightarrow>
     (b_readonly buf \<or> b_d buf = b_cd buf) \<and>
     b_refcount buf \<noteq> 0 \<and> b_refcount buf \<le> SSHBUF_REFS_MAX \<and> b_cd buf \<noteq> NULL \<and>
     b_max_size buf \<le> SSHBUF_SIZE_MAX \<and> b_alloc buf \<le> b_max_size buf \<and>
     b_size buf \<le> b_alloc buf \<and> b_off buf \<le> b_size buf"
  by (auto simp: sshbuf_check_sanity_def not_le not_less word_less_1)

lemma inv_iff:
  "sshbuf_inv buf \<longleftrightarrow>
     (b_readonly buf \<or> b_d buf = b_cd buf) \<and>
     b_refcount buf \<noteq> 0 \<and> b_refcount buf \<le> SSHBUF_REFS_MAX \<and> b_cd buf \<noteq> NULL \<and>
     unat (b_max_size buf) \<le> 134217728 \<and> unat (b_alloc buf) \<le> unat (b_max_size buf) \<and>
     unat (b_size buf) \<le> unat (b_alloc buf) \<and> unat (b_off buf) \<le> unat (b_size buf) \<and>
     length (b_mem buf) = unat (b_alloc buf)"
  by (simp add: sshbuf_inv_def sane_iff word_le_nat_alt conj_assoc)

lemma inv_sane [simp]: "sshbuf_inv buf \<Longrightarrow> sshbuf_check_sanity buf = Inr ()"
  by (simp add: sshbuf_inv_def)

lemma inv_bounds:
  assumes "sshbuf_inv buf"
  shows "unat (b_off buf) \<le> unat (b_size buf)" "unat (b_size buf) \<le> unat (b_alloc buf)"
    "unat (b_alloc buf) \<le> unat (b_max_size buf)" "unat (b_max_size buf) \<le> 134217728"
    "length (b_mem buf) = unat (b_alloc buf)"
  using assms by (simp_all add: inv_iff)

lemma length_contents [simp]:
  "sshbuf_inv buf \<Longrightarrow> length (contents buf) = unat (b_size buf) - unat (b_off buf)"
  by (auto simp: contents_def inv_iff)

lemma unat_sshbuf_len [simp]:
  "sshbuf_inv buf \<Longrightarrow> unat (sshbuf_len buf) = length (contents buf)"
  by (simp add: sshbuf_len_def inv_bounds unat_diff_nowrap)

lemma contents_bound: "sshbuf_inv buf \<Longrightarrow> length (contents buf) \<le> unat (b_max_size buf)"
  using inv_bounds[of buf] by simp

section \<open>What the operations do\<close>

subsection \<open>Packing and rounding\<close>

lemma unat_ROUNDUP:
  assumes "unat x + 255 < 2 ^ 64"
  shows "unat (ROUNDUP x SSHBUF_SIZE_INC) = ((unat x + 255) div 256) * 256"
proof -
  have a: "unat (x + 255) = unat x + 255" using assms by (simp add: unat_add_nowrap)
  have "((unat x + 255) div 256) * 256 < 2 ^ LENGTH(64)"
    using assms by (intro le_less_trans[OF div_times_less_eq_dividend]) simp
  then show ?thesis
    by (simp add: ROUNDUP_def unat_word_ariths(2) unat_div a)
qed

lemma ROUNDUP_ge:
  assumes "unat x + 255 < 2 ^ 64"
  shows "unat x \<le> unat (ROUNDUP x SSHBUF_SIZE_INC)"
  unfolding unat_ROUNDUP[OF assms] by linarith

lemma pack_frame [frame_simps]:
  "b_max_size (sshbuf_maybe_pack buf f) = b_max_size buf"
  "b_alloc (sshbuf_maybe_pack buf f) = b_alloc buf"
  "b_readonly (sshbuf_maybe_pack buf f) = b_readonly buf"
  "b_refcount (sshbuf_maybe_pack buf f) = b_refcount buf"
  "b_parent (sshbuf_maybe_pack buf f) = b_parent buf"
  "b_d (sshbuf_maybe_pack buf f) = b_d buf"
  "b_cd (sshbuf_maybe_pack buf f) = b_cd buf"
  by (simp_all add: sshbuf_maybe_pack_def Let_def)

lemma pack_inv: 
  assumes "sshbuf_inv buf"
  shows "sshbuf_inv (sshbuf_maybe_pack buf f)"
  using assms by (auto simp: inv_iff sshbuf_maybe_pack_def Let_def unat_diff_nowrap)

lemma pack_contents [simp]:
  assumes "sshbuf_inv buf"
  shows "contents (sshbuf_maybe_pack buf f) = contents buf"
  using inv_bounds[OF assms]
  by (auto simp: contents_def sshbuf_maybe_pack_def Let_def unat_diff_nowrap)

lemma pack_forced:
  "sshbuf_inv buf \<Longrightarrow> writable buf \<Longrightarrow> b_off (sshbuf_maybe_pack buf True) = 0"
  by (simp add: sshbuf_maybe_pack_def writable_def Let_def)

lemma pack_size_le:
  "sshbuf_inv buf \<Longrightarrow> unat (b_size (sshbuf_maybe_pack buf f)) \<le> unat (b_size buf)"
  by (simp add: sshbuf_maybe_pack_def Let_def inv_bounds unat_diff_nowrap)

subsection \<open>Reserving space\<close>

lemma check_reserve_iff:
  assumes "sshbuf_inv buf"
  shows "sshbuf_check_reserve buf len = 
    (if \<not> writable buf then Inl SSH_ERR_BUFFER_READ_ONLY
     else if length (contents buf) + unat len > unat (b_max_size buf)
     then Inl SSH_ERR_NO_BUFFER_SPACE else Inr ())"
proof -
  note b = inv_bounds[OF assms]
  have "(len > b_max_size buf \<or> b_max_size buf - len < b_size buf - b_off buf) \<longleftrightarrow>
        length (contents buf) + unat len > unat (b_max_size buf)"
    using assms b
    by (cases "unat len \<le> unat (b_max_size buf)")
      (auto simp: word_less_nat_alt unat_diff_nowrap)
  with assms show ?thesis by (auto simp: sshbuf_check_reserve_def writable_def)
qed

lemma check_reserve_ok:
  "sshbuf_inv buf \<Longrightarrow> sshbuf_check_reserve buf len = Inr () \<longleftrightarrow>
     writable buf \<and> length (contents buf) + unat len \<le> unat (b_max_size buf)"
  by (simp only: check_reserve_iff) auto

text \<open>After the packing step the new bytes fit below \<open>b_max_size\<close>, behind \<open>b_size\<close>.\<close>

lemma pack_makes_room:
  assumes inv: "sshbuf_inv buf" and w: "writable buf"
    and room: "length (contents buf) + unat len \<le> unat (b_max_size buf)"
  shows "unat (b_size (sshbuf_maybe_pack buf (b_size buf + len > b_max_size buf))) + unat len
           \<le> unat (b_max_size buf)" (is "unat (b_size ?b1) + _ \<le> _")
proof (cases "b_size buf + len > b_max_size buf")
  case True
  then have "b_off ?b1 = 0" using pack_forced[OF inv w] by simp
  moreover have "length (contents ?b1) = length (contents buf)" using inv by simp
  ultimately show ?thesis using room length_contents[OF pack_inv[OF inv]] by simp
next
  case False
  have "unat (b_size buf) + unat len < 2 ^ 64" using room inv_bounds[OF inv] by simp
  with False have "unat (b_size buf) + unat len \<le> unat (b_max_size buf)"
    by (simp add: word_less_nat_alt unat_add_nowrap)
  with pack_size_le[OF inv, of "b_size buf + len > b_max_size buf"] show ?thesis by linarith
qed

lemma realloc_inv:
  assumes "sshbuf_inv buf" "writable buf" "dp \<noteq> NULL"
    "unat (b_size buf) \<le> unat n" "unat n \<le> unat (b_max_size buf)"
  shows "sshbuf_inv (buf\<lparr>b_alloc := n, b_cd := dp, b_d := dp,
                         b_mem := mem_resize (b_mem buf) (unat n)\<rparr>)"
    and "contents (buf\<lparr>b_alloc := n, b_cd := dp, b_d := dp,
                        b_mem := mem_resize (b_mem buf) (unat n)\<rparr>) = contents buf"
proof -
  note b = inv_bounds[OF assms(1)]
  show "sshbuf_inv (buf\<lparr>b_alloc := n, b_cd := dp, b_d := dp,
                         b_mem := mem_resize (b_mem buf) (unat n)\<rparr>)"
    using assms b by (simp add: inv_iff)
  have "take (unat (b_size buf)) (mem_resize (b_mem buf) (unat n)) =
        take (unat (b_size buf)) (b_mem buf)"
    using assms b by (intro take_mem_resize) auto
  then show "contents (buf\<lparr>b_alloc := n, b_cd := dp, b_d := dp,
                        b_mem := mem_resize (b_mem buf) (unat n)\<rparr>) = contents buf"
    using b by (simp add: contents_def flip: drop_take)
qed

definition same_shape :: "sshbuf \<Rightarrow> sshbuf \<Rightarrow> bool" where
  "same_shape b b' \<longleftrightarrow> b_max_size b' = b_max_size b \<and> b_readonly b' = b_readonly b \<and>
     b_refcount b' = b_refcount b \<and> b_parent b' = b_parent b"

lemma same_shape_refl [simp]: "same_shape b b"
  by (simp add: same_shape_def)

lemma same_shape_trans: "same_shape a b \<Longrightarrow> same_shape b c \<Longrightarrow> same_shape a c"
  by (simp add: same_shape_def)

lemma same_shape_writable: "same_shape b b' \<Longrightarrow> writable b' = writable b"
  by (simp add: same_shape_def writable_def)

lemma alloc_len:
  assumes "sshbuf_inv b1" and "unat (b_size b1) + unat len \<le> unat (b_max_size b1)"
    and "\<not> len + b_size b1 \<le> b_alloc b1"
  defines "need \<equiv> len + b_size b1 - b_alloc b1"
  defines "rlen0 \<equiv> ROUNDUP (b_alloc b1 + need) SSHBUF_SIZE_INC"
  defines "rlen \<equiv> if rlen0 > b_max_size b1 then b_alloc b1 + need else rlen0"
  shows "unat (b_size b1) + unat len \<le> unat rlen" "unat rlen \<le> unat (b_max_size b1)"
proof -
  note b = inv_bounds[OF assms(1)]
  have an: "b_alloc b1 + need = len + b_size b1" by (simp add: need_def)
  have u: "unat (len + b_size b1) = unat len + unat (b_size b1)"
    using assms(2) b by (intro unat_add_nowrap) simp
  have r: "unat (len + b_size b1) \<le> unat rlen0"
    unfolding rlen0_def an using assms(2) b by (intro ROUNDUP_ge) (simp add: u)
  show "unat (b_size b1) + unat len \<le> unat rlen" "unat rlen \<le> unat (b_max_size b1)"
    using r assms(2) by (auto simp: rlen_def an u word_less_nat_alt)
qed

lemma allocate_result:
  assumes inv: "sshbuf_inv buf"
    and res: "sshbuf_allocate alc buf len = (r, buf')"
  shows "sshbuf_inv buf' \<and> contents buf' = contents buf \<and> same_shape buf buf' \<and>
    (case r of
       Inr _ \<Rightarrow> writable buf \<and> length (contents buf) + unat len \<le> unat (b_max_size buf) \<and>
                unat (b_size buf') + unat len \<le> unat (b_alloc buf')
     | Inl e \<Rightarrow> e = (if \<not> writable buf then SSH_ERR_BUFFER_READ_ONLY
                  else if length (contents buf) + unat len > unat (b_max_size buf)
                  then SSH_ERR_NO_BUFFER_SPACE else SSH_ERR_ALLOC_FAIL))"
proof (cases "sshbuf_check_reserve buf len")
  case (Inl e)
  with inv res show ?thesis
    by (auto simp: sshbuf_allocate_def check_reserve_iff split: if_splits)
next
  case (Inr u)
  then have w: "writable buf"
    and room: "length (contents buf) + unat len \<le> unat (b_max_size buf)"
    using inv by (simp_all add: check_reserve_ok)
  let ?b1 = "sshbuf_maybe_pack buf (b_size buf + len > b_max_size buf)"
  have i1: "sshbuf_inv ?b1" and c1: "contents ?b1 = contents buf"
    using inv by (simp_all add: pack_inv)
  have s1: "same_shape buf ?b1" by (simp add: same_shape_def frame_simps)
  have w1: "writable ?b1" using w s1 by (simp add: same_shape_writable)
  have fit: "unat (b_size ?b1) + unat len \<le> unat (b_max_size ?b1)"
    using pack_makes_room[OF inv w room] by (simp add: frame_simps)
  have u: "unat (len + b_size ?b1) = unat len + unat (b_size ?b1)"
    using fit inv_bounds[OF i1] by (intro unat_add_nowrap) simp
  show ?thesis
  proof (cases "len + b_size ?b1 \<le> b_alloc ?b1")
    case True
    with res Inr have "r = Inr ()" "buf' = ?b1" by (simp_all add: sshbuf_allocate_def Let_def)
    with True i1 c1 s1 w room u show ?thesis by (simp add: word_le_nat_alt)
  next
    case False
    let ?need = "len + b_size ?b1 - b_alloc ?b1"
    let ?rr = "ROUNDUP (b_alloc ?b1 + ?need) SSHBUF_SIZE_INC"
    let ?rlen = "if ?rr > b_max_size ?b1 then b_alloc ?b1 + ?need else ?rr"
    let ?b2 = "?b1\<lparr>b_alloc := ?rlen, b_cd := alc ?rlen, b_d := alc ?rlen,
                    b_mem := mem_resize (b_mem ?b1) (unat ?rlen)\<rparr>"
    note al = alloc_len[OF i1 fit False]
    show ?thesis
    proof (cases "alc ?rlen = NULL")
      case True
      have "r = Inl SSH_ERR_ALLOC_FAIL" "buf' = ?b1"
        using res Inr False True by (simp_all only: sshbuf_allocate_def Let_def sum.case if_False if_True prod.inject simp_thms)
      with i1 c1 s1 w room show ?thesis by simp
    next
      case nn: False
      have i2: "sshbuf_inv ?b2" and c2: "contents ?b2 = contents buf"
        using realloc_inv[OF i1 w1 nn _ al(2)] al(1) c1 by (auto simp del: unat_ROUNDUP)
      have s2: "same_shape buf ?b2" using s1 by (simp add: same_shape_def)
      have ok: "sshbuf_check_reserve ?b2 len = Inr ()"
        using i2 c2 w room s2 by (simp add: check_reserve_ok same_shape_writable) (simp add: same_shape_def)
      have "r = Inr ()" "buf' = ?b2"
        using res Inr False nn ok by (simp_all only: sshbuf_allocate_def Let_def sum.case if_False prod.inject simp_thms)
      with i2 c2 s2 w room al(1) show ?thesis by simp
    qed
  qed
qed

subsection \<open>Reserving and filling\<close>

lemma reserve_error:
  assumes "sshbuf_inv buf" and "sshbuf_reserve alc buf len = (Inl e, buf')"
  shows "sshbuf_inv buf' \<and> contents buf' = contents buf \<and> same_shape buf buf' \<and>
    e = (if \<not> writable buf then SSH_ERR_BUFFER_READ_ONLY
         else if length (contents buf) + unat len > unat (b_max_size buf)
         then SSH_ERR_NO_BUFFER_SPACE else SSH_ERR_ALLOC_FAIL)"
  using assms allocate_result[OF assms(1), of alc len]
  by (auto simp: sshbuf_reserve_def split: prod.splits sum.splits if_splits)

lemma reserve_write:
  assumes inv: "sshbuf_inv buf" and res: "sshbuf_reserve alc buf len = (Inr p, b1)"
    and len: "length bs = unat len"
  obtains m where "mem_write (b_mem b1) (unat p) bs = Some m"
    and "sshbuf_inv (b1\<lparr>b_mem := m\<rparr>)"
    and "contents (b1\<lparr>b_mem := m\<rparr>) = contents buf @ bs"
    and "same_shape buf (b1\<lparr>b_mem := m\<rparr>)" and "writable buf"
    and "length (contents buf) + unat len \<le> unat (b_max_size buf)"
proof -
  obtain b0 where al: "sshbuf_allocate alc buf len = (Inr (), b0)"
    and p: "p = b_size b0" and b1: "b1 = b0\<lparr>b_size := b_size b0 + len\<rparr>"
    using res by (auto simp: sshbuf_reserve_def split: prod.splits sum.splits)
  have i0: "sshbuf_inv b0" and c0: "contents b0 = contents buf" and s0: "same_shape buf b0"
    and w: "writable buf" and room: "length (contents buf) + unat len \<le> unat (b_max_size buf)"
    and fit: "unat (b_size b0) + unat len \<le> unat (b_alloc b0)"
    using allocate_result[OF inv al] by simp_all
  note b = inv_bounds[OF i0]
  have u: "unat (b_size b0 + len) = unat (b_size b0) + unat len"
    using fit b by (intro unat_add_nowrap) simp
  let ?m = "take (unat p) (b_mem b0) @ bs @ drop (unat p + length bs) (b_mem b0)"
  show thesis
  proof (rule that[of ?m])
    show "mem_write (b_mem b1) (unat p) bs = Some ?m"
      using fit b len by (simp add: b1 p mem_write_Some)
    show "sshbuf_inv (b1\<lparr>b_mem := ?m\<rparr>)"
      using i0 b fit len by (simp add: b1 p inv_iff u)
    show "contents (b1\<lparr>b_mem := ?m\<rparr>) = contents buf @ bs"
      unfolding c0[symmetric] using b fit len by (simp add: contents_def b1 p u drop_take)
    show "same_shape buf (b1\<lparr>b_mem := ?m\<rparr>)"
      using s0 by (simp add: same_shape_def b1)
  qed (use w room in auto)
qed

lemma reserve_succeeds_iff:
  assumes "sshbuf_inv buf" and "\<And>n. alc n \<noteq> NULL"
  shows "(\<exists>p b1. sshbuf_reserve alc buf len = (Inr p, b1)) \<longleftrightarrow>
     writable buf \<and> length (contents buf) + unat len \<le> unat (b_max_size buf)"
proof -
  obtain r b1 where al: "sshbuf_allocate alc buf len = (r, b1)" by fastforce
  have nf: "sshbuf_check_reserve b l \<noteq> Inl SSH_ERR_ALLOC_FAIL" for b l
    by (simp add: sshbuf_check_reserve_def sshbuf_check_sanity_def)
  have "r \<noteq> Inl SSH_ERR_ALLOC_FAIL"
    using al assms(2) nf
    by (simp add: sshbuf_allocate_def Let_def split: sum.splits if_splits) metis+
  with allocate_result[OF assms(1) al] al show ?thesis
    by (auto simp: sshbuf_reserve_def split: sum.splits if_splits)
qed

subsection \<open>Consuming\<close>

lemma consume_spec:
  assumes inv: "sshbuf_inv buf"
  shows "sshbuf_inv (snd (sshbuf_consume buf len)) \<and>
    same_shape buf (snd (sshbuf_consume buf len)) \<and>
    (if unat len \<le> length (contents buf)
     then fst (sshbuf_consume buf len) = Inr () \<and>
          contents (snd (sshbuf_consume buf len)) = drop (unat len) (contents buf)
     else fst (sshbuf_consume buf len) = Inl SSH_ERR_MESSAGE_INCOMPLETE \<and>
          snd (sshbuf_consume buf len) = buf)"
proof (cases "len = 0 \<or> len > sshbuf_len buf")
  case True
  with inv show ?thesis
    by (auto simp: sshbuf_consume_def word_less_nat_alt simp del: length_contents)
next
  case False
  note b = inv_bounds[OF inv]
  have le: "unat len \<le> unat (b_size buf) - unat (b_off buf)"
    using False inv by (simp add: word_less_nat_alt not_less)
  have u: "unat (b_off buf + len) = unat (b_off buf) + unat len"
    using le b by (intro unat_add_nowrap) simp
  let ?b1 = "buf\<lparr>b_off := b_off buf + len\<rparr>"
  have i1: "sshbuf_inv ?b1" using inv le b by (simp add: inv_iff u)
  have c1: "contents ?b1 = drop (unat len) (contents buf)"
    by (simp add: contents_def u drop_take) (simp add: add.commute)
  show ?thesis
  proof (cases "b_off buf + len = b_size buf")
    case True
    let ?b2 = "?b1\<lparr>b_off := 0, b_size := 0\<rparr>"
    have "length (contents ?b1) = 0"
      using True by (subst length_contents[OF i1]) simp
    then have "drop (unat len) (contents buf) = []" using c1 by simp
    moreover have "contents ?b2 = []" by (simp add: contents_def)
    moreover have "sshbuf_inv ?b2" using inv by (simp add: inv_iff)
    ultimately show ?thesis using True False inv le
      by (simp add: sshbuf_consume_def Let_def same_shape_def)
  next
    case nz: False
    with False inv le i1 c1 show ?thesis
      by (simp add: sshbuf_consume_def Let_def same_shape_def)
  qed
qed

lemma consume_end_spec:
  assumes inv: "sshbuf_inv buf"
  shows "sshbuf_inv (snd (sshbuf_consume_end buf len)) \<and>
    same_shape buf (snd (sshbuf_consume_end buf len)) \<and>
    (if unat len \<le> length (contents buf)
     then fst (sshbuf_consume_end buf len) = Inr () \<and>
          contents (snd (sshbuf_consume_end buf len)) =
            take (length (contents buf) - unat len) (contents buf)
     else fst (sshbuf_consume_end buf len) = Inl SSH_ERR_MESSAGE_INCOMPLETE \<and>
          snd (sshbuf_consume_end buf len) = buf)"
proof (cases "len = 0 \<or> len > sshbuf_len buf")
  case True
  with inv show ?thesis
    by (auto simp: sshbuf_consume_end_def word_less_nat_alt simp del: length_contents)
next
  case False
  note b = inv_bounds[OF inv]
  have le: "unat len \<le> unat (b_size buf) - unat (b_off buf)"
    using False inv by (simp add: word_less_nat_alt not_less)
  have u: "unat (b_size buf - len) = unat (b_size buf) - unat len"
    using le by (intro unat_diff_nowrap) simp
  have "sshbuf_inv (buf\<lparr>b_size := b_size buf - len\<rparr>)" using inv le b by (auto simp: inv_iff u)
  moreover have "contents (buf\<lparr>b_size := b_size buf - len\<rparr>) =
      take (length (contents buf) - unat len) (contents buf)"
    using inv le b by (simp add: contents_def u) (simp add: add.commute)
  ultimately show ?thesis using False inv le
    by (simp add: sshbuf_consume_end_def same_shape_def)
qed

subsection \<open>Creating, resetting and limiting\<close>

lemma new_spec:
  "sshbuf_new alc = Some buf \<Longrightarrow>
   sshbuf_inv buf \<and> contents buf = [] \<and> writable buf \<and> b_max_size buf = SSHBUF_SIZE_MAX"
  by (auto simp: sshbuf_new_def inv_iff contents_def writable_def Let_def split: if_splits)

lemma from_spec:
  "sshbuf_from alc blob bytes len = Some buf \<Longrightarrow> length bytes = unat len \<Longrightarrow>
   sshbuf_inv buf \<and> contents buf = bytes \<and> \<not> writable buf"
  by (auto simp: sshbuf_from_def inv_iff contents_def writable_def word_less_nat_alt not_less
        split: if_splits)

lemma reset_spec:
  assumes "sshbuf_inv buf"
  shows "contents (sshbuf_reset alc buf) = []"
    and "writable buf \<Longrightarrow> SSHBUF_SIZE_INIT \<le> b_max_size buf \<Longrightarrow> sshbuf_inv (sshbuf_reset alc buf)"
    and "\<not> writable buf \<Longrightarrow> sshbuf_inv (sshbuf_reset alc buf) \<and> b_mem (sshbuf_reset alc buf) = b_mem buf"
    and "b_max_size (sshbuf_reset alc buf) = b_max_size buf"
proof -
  show "contents (sshbuf_reset alc buf) = []"
    using assms by (auto simp: sshbuf_reset_def contents_def Let_def)
  show "sshbuf_inv (sshbuf_reset alc buf)"
    if "writable buf" "SSHBUF_SIZE_INIT \<le> b_max_size buf"
    using assms that
    by (auto simp: sshbuf_reset_def writable_def Let_def inv_iff word_le_nat_alt)
  show "sshbuf_inv (sshbuf_reset alc buf) \<and> b_mem (sshbuf_reset alc buf) = b_mem buf"
    if "\<not> writable buf"
    using assms that by (auto simp: sshbuf_reset_def writable_def inv_iff)
  show "b_max_size (sshbuf_reset alc buf) = b_max_size buf"
    by (simp add: sshbuf_reset_def Let_def)
qed

lemma set_max_size_spec:
  assumes inv: "sshbuf_inv buf" and res: "sshbuf_set_max_size alc buf n = (r, buf')"
  shows "sshbuf_inv buf' \<and> contents buf' = contents buf \<and> writable buf' = writable buf \<and>
    b_max_size buf' = (if r = Inr () then n else b_max_size buf)"
proof (cases "n = b_max_size buf \<or> \<not> writable buf \<or> n > SSHBUF_SIZE_MAX")
  case True
  with inv res show ?thesis
    by (auto simp: sshbuf_set_max_size_def writable_def split: if_splits)
next
  case False
  then have w: "writable buf" and n: "unat n \<le> 134217728" and ne: "n \<noteq> b_max_size buf"
    by (auto simp: word_less_nat_alt)
  let ?b1 = "sshbuf_maybe_pack buf (n < b_size buf)"
  let ?rr = "if b_size ?b1 < SSHBUF_SIZE_INIT then SSHBUF_SIZE_INIT
                else ROUNDUP (b_size ?b1) SSHBUF_SIZE_INC"
  let ?rlen = "if ?rr > n then n else ?rr"
  let ?shrink = "n < b_alloc ?b1 \<and> n > b_size ?b1"
  let ?b2 = "?b1\<lparr>b_alloc := ?rlen, b_cd := alc ?rlen, b_d := alc ?rlen,
                  b_mem := mem_resize (b_mem ?b1) (unat ?rlen)\<rparr>"
  have i1: "sshbuf_inv ?b1" and c1: "contents ?b1 = contents buf" using inv by (simp_all add: pack_inv)
  have w1: "writable ?b1" using w by (simp add: writable_def frame_simps)
  have m1: "b_max_size ?b1 = b_max_size buf" by (simp add: frame_simps)
  have r0: "unat (b_size ?b1) \<le> unat ?rr"
    using inv_bounds[OF i1] ROUNDUP_ge[of "b_size ?b1"] by (auto simp: word_less_nat_alt)
  have final: "sshbuf_inv (b\<lparr>b_max_size := n\<rparr>)"
    if "sshbuf_inv b" "\<not> n < b_alloc b" for b
    using that n by (simp add: inv_iff word_less_nat_alt)
  have fc: "contents (b\<lparr>b_max_size := n\<rparr>) = contents b" for b by (simp add: contents_def)
  show ?thesis
  proof (cases ?shrink)
    case True
    then have sn: "unat (b_size ?b1) < unat n" "unat n < unat (b_alloc ?b1)"
      by (simp_all only: word_less_nat_alt)
    have "unat ?rlen \<le> unat n" by (simp add: word_less_nat_alt)
    moreover have "unat (b_size ?b1) \<le> unat ?rlen" using r0 sn by simp
    ultimately have rl: "unat (b_size ?b1) \<le> unat ?rlen" "unat ?rlen \<le> unat (b_max_size ?b1)"
      "unat ?rlen \<le> unat n"
      using sn inv_bounds(3)[OF i1] by linarith+
    show ?thesis
    proof (cases "alc ?rlen = NULL")
      case nul: True
      have "r = Inl SSH_ERR_ALLOC_FAIL" "buf' = ?b1"
        using res False inv True nul
        by (simp_all add: sshbuf_set_max_size_def writable_def Let_def ne)
      with i1 c1 w w1 m1 show ?thesis by simp
    next
      case nn: False
      have i2: "sshbuf_inv ?b2" and c2: "contents ?b2 = contents buf"
        using realloc_inv[OF i1 w1 nn rl(1,2)] c1 by simp_all
      have "\<not> n < ?rlen" using rl(3) by (simp add: word_less_nat_alt)
      then have "r = Inr ()" "buf' = ?b2\<lparr>b_max_size := n\<rparr>"
        using res False inv True nn
        by (simp_all add: sshbuf_set_max_size_def writable_def Let_def ne)
      with final[OF i2] fc c2 w w1 \<open>\<not> n < ?rlen\<close> show ?thesis
        by (simp add: writable_def)
    qed
  next
    case ns: False
    show ?thesis
    proof (cases "n < b_alloc ?b1")
      case True
      with res False inv ns have "r = Inl SSH_ERR_NO_BUFFER_SPACE" "buf' = ?b1"
        by (simp_all add: sshbuf_set_max_size_def writable_def Let_def ne)
      with i1 c1 w w1 m1 show ?thesis by simp
    next
      case ge: False
      with res False inv ns have "r = Inr ()" "buf' = ?b1\<lparr>b_max_size := n\<rparr>"
        by (simp_all add: sshbuf_set_max_size_def writable_def Let_def ne)
      with final[OF i1 ge] fc c1 w w1 show ?thesis by (simp add: writable_def)
    qed
  qed
qed


subsection \<open>Shared buffers are frozen\<close>

text \<open>
  While a buffer has children (or is itself read-only) no operation moves, frees or writes its
  block, so a child's window on it stays what it was.
\<close>

lemma pack_frozen: "\<not> writable buf \<Longrightarrow> sshbuf_maybe_pack buf f = buf"
  by (auto simp: sshbuf_maybe_pack_def writable_def)

lemma reserve_frozen: "\<not> writable buf \<Longrightarrow> snd (sshbuf_reserve alc buf len) = buf"
  by (auto simp: sshbuf_reserve_def sshbuf_allocate_def sshbuf_check_reserve_def writable_def
      split: sum.splits if_splits)

lemma consume_mem [frame_simps]:
  "b_mem (snd (sshbuf_consume buf len)) = b_mem buf"
  "b_mem (snd (sshbuf_consume_end buf len)) = b_mem buf"
  by (simp_all add: sshbuf_consume_def sshbuf_consume_end_def Let_def split: sum.splits)

lemma set_max_size_frozen: "\<not> writable buf \<Longrightarrow> snd (sshbuf_set_max_size alc buf n) = buf"
  by (auto simp: sshbuf_set_max_size_def writable_def split: sum.splits)

end
