(* ===== verification/SshBufGetPut.thy ===== *)
theory SshBufGetPut
  imports SshBuf
begin

text \<open>
  The typed accessors of \<open>sshbuf-getput-basic.c\<close> over the buffer: integers in network order,
  length-prefixed strings, C strings, bignums, peeks and pokes at an offset. A pointer and a
  length the C code takes together are one byte list; a pointer it hands out into the buffer is
  the bytes it points to at that moment.
\<close>

section \<open>Reading and writing the block\<close>

definition read_at :: "sshbuf \<Rightarrow> size_t option \<Rightarrow> nat \<Rightarrow> u8 list res" where
  "read_at buf p n =
     (if n = 0 then Inr [] else
      case p of None \<Rightarrow> Inl MEM_FAULT
      | Some q \<Rightarrow> (case mem_read (b_mem buf) (unat q) n of
                    None \<Rightarrow> Inl MEM_FAULT | Some bs \<Rightarrow> Inr bs))"

definition write_at :: "sshbuf \<Rightarrow> size_t \<Rightarrow> u8 list \<Rightarrow> unit res \<times> sshbuf" where
  "write_at buf p bs =
     (case mem_write (b_mem buf) (unat p) bs of
        None \<Rightarrow> (Inl MEM_FAULT, buf)
      | Some m \<Rightarrow> (Inr (), buf\<lparr>b_mem := m\<rparr>))"

section \<open>Getters\<close>

definition sshbuf_get :: "sshbuf \<Rightarrow> size_t \<Rightarrow> u8 list res \<times> sshbuf" where
  "sshbuf_get buf len =
     (let p = sshbuf_ptr buf in
      case sshbuf_consume buf len of
        (Inl r, b) \<Rightarrow> (Inl r, b)
      | (Inr _, b) \<Rightarrow> (read_at b p (unat len), b))"

definition sshbuf_get_u64 :: "sshbuf \<Rightarrow> u64 res \<times> sshbuf" where
  "sshbuf_get_u64 buf =
     (let p = sshbuf_ptr buf in
      case sshbuf_consume buf 8 of
        (Inl r, b) \<Rightarrow> (Inl r, b)
      | (Inr _, b) \<Rightarrow> (map_sum id PEEK_U64 (read_at b p 8), b))"

definition sshbuf_get_u32 :: "sshbuf \<Rightarrow> u32 res \<times> sshbuf" where
  "sshbuf_get_u32 buf =
     (let p = sshbuf_ptr buf in
      case sshbuf_consume buf 4 of
        (Inl r, b) \<Rightarrow> (Inl r, b)
      | (Inr _, b) \<Rightarrow> (map_sum id PEEK_U32 (read_at b p 4), b))"

definition sshbuf_get_u16 :: "sshbuf \<Rightarrow> u16 res \<times> sshbuf" where
  "sshbuf_get_u16 buf =
     (let p = sshbuf_ptr buf in
      case sshbuf_consume buf 2 of
        (Inl r, b) \<Rightarrow> (Inl r, b)
      | (Inr _, b) \<Rightarrow> (map_sum id PEEK_U16 (read_at b p 2), b))"

definition sshbuf_get_u8 :: "sshbuf \<Rightarrow> u8 res \<times> sshbuf" where
  "sshbuf_get_u8 buf =
     (let p = sshbuf_ptr buf in
      case sshbuf_consume buf 1 of
        (Inl r, b) \<Rightarrow> (Inl r, b)
      | (Inr _, b) \<Rightarrow> (map_sum id hd (read_at b p 1), b))"

section \<open>Peeking at an offset\<close>

definition check_offset :: "sshbuf \<Rightarrow> bool \<Rightarrow> size_t \<Rightarrow> size_t \<Rightarrow> unit res" where
  "check_offset buf wr offset len =
     (if sshbuf_ptr buf = None then Inl SSH_ERR_INTERNAL_ERROR
      else if offset \<ge> SIZE_MAX - len then Inl SSH_ERR_INVALID_ARGUMENT
      else if offset + len > sshbuf_len buf
      then Inl (if wr then SSH_ERR_NO_BUFFER_SPACE else SSH_ERR_MESSAGE_INCOMPLETE)
      else Inr ())"

definition check_roffset :: "sshbuf \<Rightarrow> size_t \<Rightarrow> size_t \<Rightarrow> size_t res" where
  "check_roffset buf offset len =
     (case check_offset buf False offset len of
        Inl r \<Rightarrow> Inl r
      | Inr _ \<Rightarrow> (case sshbuf_ptr buf of None \<Rightarrow> Inl MEM_FAULT | Some p \<Rightarrow> Inr (p + offset)))"

definition sshbuf_peek_u64 :: "sshbuf \<Rightarrow> size_t \<Rightarrow> u64 res" where
  "sshbuf_peek_u64 buf offset =
     (case check_roffset buf offset 8 of
        Inl r \<Rightarrow> Inl r | Inr p \<Rightarrow> map_sum id PEEK_U64 (read_at buf (Some p) 8))"

definition sshbuf_peek_u32 :: "sshbuf \<Rightarrow> size_t \<Rightarrow> u32 res" where
  "sshbuf_peek_u32 buf offset =
     (case check_roffset buf offset 4 of
        Inl r \<Rightarrow> Inl r | Inr p \<Rightarrow> map_sum id PEEK_U32 (read_at buf (Some p) 4))"

definition sshbuf_peek_u16 :: "sshbuf \<Rightarrow> size_t \<Rightarrow> u16 res" where
  "sshbuf_peek_u16 buf offset =
     (case check_roffset buf offset 2 of
        Inl r \<Rightarrow> Inl r | Inr p \<Rightarrow> map_sum id PEEK_U16 (read_at buf (Some p) 2))"

definition sshbuf_peek_u8 :: "sshbuf \<Rightarrow> size_t \<Rightarrow> u8 res" where
  "sshbuf_peek_u8 buf offset =
     (case check_roffset buf offset 1 of
        Inl r \<Rightarrow> Inl r | Inr p \<Rightarrow> map_sum id hd (read_at buf (Some p) 1))"

section \<open>Strings\<close>

definition sshbuf_peek_string_direct :: "sshbuf \<Rightarrow> u8 list res" where
  "sshbuf_peek_string_direct buf =
     (let p = sshbuf_ptr buf in
      if sshbuf_len buf < 4 then Inl SSH_ERR_MESSAGE_INCOMPLETE
      else case read_at buf p 4 of
        Inl r \<Rightarrow> Inl r
      | Inr hdr \<Rightarrow>
        let len = (ucast (PEEK_U32 hdr) :: size_t) in
        if len > SSHBUF_SIZE_MAX - 4 then Inl SSH_ERR_STRING_TOO_LARGE
        else if sshbuf_len buf - 4 < len then Inl SSH_ERR_MESSAGE_INCOMPLETE
        else read_at buf (map_option (\<lambda>q. q + 4) p) (unat len))"

definition sshbuf_get_string_direct :: "sshbuf \<Rightarrow> u8 list res \<times> sshbuf" where
  "sshbuf_get_string_direct buf =
     (case sshbuf_peek_string_direct buf of
        Inl r \<Rightarrow> (Inl r, buf)
      | Inr val \<Rightarrow>
        (case sshbuf_consume buf (word_of_nat (length val) + 4) of
           (Inl _, b) \<Rightarrow> (Inl SSH_ERR_INTERNAL_ERROR, b)
         | (Inr _, b) \<Rightarrow> (Inr val, b)))"

definition sshbuf_skip_string :: "sshbuf \<Rightarrow> unit res \<times> sshbuf" where
  "sshbuf_skip_string buf =
     (case sshbuf_get_string_direct buf of (r, b) \<Rightarrow> (map_sum id (\<lambda>_. ()) r, b))"

definition sshbuf_get_string :: "(size_t \<Rightarrow> ptr) \<Rightarrow> sshbuf \<Rightarrow> u8 list res \<times> sshbuf" where
  "sshbuf_get_string alc buf =
     (case sshbuf_get_string_direct buf of
        (Inl r, b) \<Rightarrow> (Inl r, b)
      | (Inr val, b) \<Rightarrow>
        if alc (word_of_nat (length val) + 1) = NULL then (Inl SSH_ERR_ALLOC_FAIL, b)
        else (Inr val, b))"

text \<open>\<open>memchr (bytes, 0, len)\<close>: the position of the first zero byte.\<close>

definition memchr0 :: "u8 list \<Rightarrow> nat option" where
  "memchr0 bs = (if 0 \<in> set bs then Some (length (takeWhile (\<lambda>x. x \<noteq> 0) bs)) else None)"

definition sshbuf_get_cstring :: "(size_t \<Rightarrow> ptr) \<Rightarrow> sshbuf \<Rightarrow> u8 list res \<times> sshbuf" where
  "sshbuf_get_cstring alc buf =
     (case sshbuf_peek_string_direct buf of
        Inl r \<Rightarrow> (Inl r, buf)
      | Inr p \<Rightarrow>
        let len = length p in
        if len > 0 \<and> (case memchr0 p of None \<Rightarrow> False | Some z \<Rightarrow> z < len - 1)
        then (Inl SSH_ERR_INVALID_FORMAT, buf)
        else (case sshbuf_skip_string buf of
                (Inl _, b) \<Rightarrow> (Inl SSH_ERR_INTERNAL_ERROR, b)
              | (Inr _, b) \<Rightarrow>
                if alc (word_of_nat len + 1) = NULL then (Inl SSH_ERR_ALLOC_FAIL, b)
                else (Inr p, b)))"

definition sshbuf_get_stringb ::
    "(size_t \<Rightarrow> ptr) \<Rightarrow> sshbuf \<Rightarrow> sshbuf \<Rightarrow> unit res \<times> sshbuf \<times> sshbuf" where
  "sshbuf_get_stringb alc buf v =
     (case sshbuf_peek_string_direct buf of
        Inl r \<Rightarrow> (Inl r, buf, v)
      | Inr _ \<Rightarrow>
        (case sshbuf_get_u32 buf of
           (Inl r, b1) \<Rightarrow> (Inl r, b1, v)
         | (Inr len, b1) \<Rightarrow>
           (case sshbuf_reserve alc v (ucast len) of
              (Inl r, v1) \<Rightarrow> (Inl r, b1, v1)
            | (Inr p, v1) \<Rightarrow>
              (case sshbuf_get b1 (ucast len) of
                 (Inl r, b2) \<Rightarrow> (Inl r, b2, v1)
               | (Inr bytes, b2) \<Rightarrow>
                 (case write_at v1 p bytes of (r, v2) \<Rightarrow> (r, b2, v2))))))"

section \<open>Putters\<close>

definition reserve_poke ::
    "(size_t \<Rightarrow> ptr) \<Rightarrow> sshbuf \<Rightarrow> size_t \<Rightarrow> u8 list \<Rightarrow> unit res \<times> sshbuf" where
  "reserve_poke alc buf len bs =
     (case sshbuf_reserve alc buf len of
        (Inl r, b) \<Rightarrow> (Inl r, b)
      | (Inr p, b) \<Rightarrow> write_at b p bs)"

definition sshbuf_put :: "(size_t \<Rightarrow> ptr) \<Rightarrow> sshbuf \<Rightarrow> u8 list \<Rightarrow> unit res \<times> sshbuf" where
  "sshbuf_put alc buf v = reserve_poke alc buf (word_of_nat (length v)) v"

definition sshbuf_putb :: "(size_t \<Rightarrow> ptr) \<Rightarrow> sshbuf \<Rightarrow> sshbuf option \<Rightarrow> unit res \<times> sshbuf" where
  "sshbuf_putb alc buf v =
     (case v of None \<Rightarrow> (Inr (), buf)
      | Some vb \<Rightarrow>
        (case read_at vb (sshbuf_ptr vb) (unat (sshbuf_len vb)) of
           Inl r \<Rightarrow> (Inl r, buf)
         | Inr bs \<Rightarrow> sshbuf_put alc buf bs))"

text \<open>
  The formatted output is \<open>vsnprintf\<close>'s: the parameter \<open>out\<close> gives its bytes, \<open>None\<close> a negative
  return. The terminating zero is written too, so one byte more than the text is reserved.
\<close>

definition sshbuf_putfv ::
    "(size_t \<Rightarrow> ptr) \<Rightarrow> sshbuf \<Rightarrow> u8 list option \<Rightarrow> unit res \<times> sshbuf" where
  "sshbuf_putfv alc buf out =
     (case out of None \<Rightarrow> (Inl SSH_ERR_INVALID_ARGUMENT, buf)
      | Some s \<Rightarrow>
        let len = (word_of_nat (length s) :: size_t) in
        if len = 0 then (Inr (), buf)
        else (case sshbuf_reserve alc buf (len + 1) of
                (Inl r, b) \<Rightarrow> (Inl r, b)
              | (Inr p, b) \<Rightarrow>
                (case write_at b p (s @ [0]) of
                   (Inl r, b1) \<Rightarrow> (Inl r, b1)
                 | (Inr _, b1) \<Rightarrow> sshbuf_consume_end b1 1)))"

definition sshbuf_put_u64 :: "(size_t \<Rightarrow> ptr) \<Rightarrow> sshbuf \<Rightarrow> u64 \<Rightarrow> unit res \<times> sshbuf" where
  "sshbuf_put_u64 alc buf val = reserve_poke alc buf 8 (POKE_U64 val)"

definition sshbuf_put_u32 :: "(size_t \<Rightarrow> ptr) \<Rightarrow> sshbuf \<Rightarrow> u32 \<Rightarrow> unit res \<times> sshbuf" where
  "sshbuf_put_u32 alc buf val = reserve_poke alc buf 4 (POKE_U32 val)"

definition sshbuf_put_u16 :: "(size_t \<Rightarrow> ptr) \<Rightarrow> sshbuf \<Rightarrow> u16 \<Rightarrow> unit res \<times> sshbuf" where
  "sshbuf_put_u16 alc buf val = reserve_poke alc buf 2 (POKE_U16 val)"

definition sshbuf_put_u8 :: "(size_t \<Rightarrow> ptr) \<Rightarrow> sshbuf \<Rightarrow> u8 \<Rightarrow> unit res \<times> sshbuf" where
  "sshbuf_put_u8 alc buf val = reserve_poke alc buf 1 [val]"

definition sshbuf_put_string :: "(size_t \<Rightarrow> ptr) \<Rightarrow> sshbuf \<Rightarrow> u8 list \<Rightarrow> unit res \<times> sshbuf" where
  "sshbuf_put_string alc buf v =
     (let len = (word_of_nat (length v) :: size_t) in
      if len > SSHBUF_SIZE_MAX - 4 then (Inl SSH_ERR_NO_BUFFER_SPACE, buf)
      else (case sshbuf_reserve alc buf (len + 4) of
              (Inl r, b) \<Rightarrow> (Inl r, b)
            | (Inr d, b) \<Rightarrow>
              (case write_at b d (POKE_U32 (ucast len)) of
                 (Inl r, b1) \<Rightarrow> (Inl r, b1)
               | (Inr _, b1) \<Rightarrow>
                 if len \<noteq> 0 then write_at b1 (d + 4) v else (Inr (), b1))))"

definition sshbuf_put_cstring ::
    "(size_t \<Rightarrow> ptr) \<Rightarrow> sshbuf \<Rightarrow> u8 list option \<Rightarrow> unit res \<times> sshbuf" where
  "sshbuf_put_cstring alc buf v =
     sshbuf_put_string alc buf
       (case v of None \<Rightarrow> [] | Some s \<Rightarrow> takeWhile (\<lambda>x. x \<noteq> 0) s)"

definition sshbuf_put_stringb ::
    "(size_t \<Rightarrow> ptr) \<Rightarrow> sshbuf \<Rightarrow> sshbuf option \<Rightarrow> unit res \<times> sshbuf" where
  "sshbuf_put_stringb alc buf v =
     (case v of None \<Rightarrow> sshbuf_put_string alc buf []
      | Some vb \<Rightarrow>
        (case read_at vb (sshbuf_ptr vb) (unat (sshbuf_len vb)) of
           Inl r \<Rightarrow> (Inl r, buf)
         | Inr bs \<Rightarrow> sshbuf_put_string alc buf bs))"

section \<open>Poking at an offset\<close>

definition check_woffset :: "sshbuf \<Rightarrow> size_t \<Rightarrow> size_t \<Rightarrow> size_t res" where
  "check_woffset buf offset len =
     (case check_offset buf True offset len of
        Inl r \<Rightarrow> Inl r
      | Inr _ \<Rightarrow> (case sshbuf_mutable_ptr buf of
                    None \<Rightarrow> Inl SSH_ERR_BUFFER_READ_ONLY | Some p \<Rightarrow> Inr (p + offset)))"

definition sshbuf_poke :: "sshbuf \<Rightarrow> size_t \<Rightarrow> u8 list \<Rightarrow> unit res \<times> sshbuf" where
  "sshbuf_poke buf offset v =
     (case check_woffset buf offset (word_of_nat (length v)) of
        Inl r \<Rightarrow> (Inl r, buf) | Inr p \<Rightarrow> write_at buf p v)"

definition sshbuf_poke_u64 :: "sshbuf \<Rightarrow> size_t \<Rightarrow> u64 \<Rightarrow> unit res \<times> sshbuf" where
  "sshbuf_poke_u64 buf offset val =
     (case check_woffset buf offset 8 of
        Inl r \<Rightarrow> (Inl r, buf) | Inr p \<Rightarrow> write_at buf p (POKE_U64 val))"

definition sshbuf_poke_u32 :: "sshbuf \<Rightarrow> size_t \<Rightarrow> u32 \<Rightarrow> unit res \<times> sshbuf" where
  "sshbuf_poke_u32 buf offset val =
     (case check_woffset buf offset 4 of
        Inl r \<Rightarrow> (Inl r, buf) | Inr p \<Rightarrow> write_at buf p (POKE_U32 val))"

definition sshbuf_poke_u16 :: "sshbuf \<Rightarrow> size_t \<Rightarrow> u16 \<Rightarrow> unit res \<times> sshbuf" where
  "sshbuf_poke_u16 buf offset val =
     (case check_woffset buf offset 2 of
        Inl r \<Rightarrow> (Inl r, buf) | Inr p \<Rightarrow> write_at buf p (POKE_U16 val))"

definition sshbuf_poke_u8 :: "sshbuf \<Rightarrow> size_t \<Rightarrow> u8 \<Rightarrow> unit res \<times> sshbuf" where
  "sshbuf_poke_u8 buf offset val =
     (case check_woffset buf offset 1 of
        Inl r \<Rightarrow> (Inl r, buf) | Inr p \<Rightarrow> write_at buf p [val])"

section \<open>Bignums\<close>

definition sshbuf_put_bignum2_bytes ::
    "(size_t \<Rightarrow> ptr) \<Rightarrow> sshbuf \<Rightarrow> u8 list \<Rightarrow> unit res \<times> sshbuf" where
  "sshbuf_put_bignum2_bytes alc buf v =
     (if (word_of_nat (length v) :: size_t) > SSHBUF_SIZE_MAX - 5
      then (Inl SSH_ERR_NO_BUFFER_SPACE, buf)
      else
        let s = dropWhile (\<lambda>x. x = 0) v;
            len = (word_of_nat (length s) :: size_t);
            prep = (if len > 0 \<and> hd s AND 0x80 \<noteq> 0 then 1 else 0 :: size_t)
        in (case sshbuf_reserve alc buf (len + 4 + prep) of
              (Inl r, b) \<Rightarrow> (Inl r, b)
            | (Inr d, b) \<Rightarrow>
              (case write_at b d (POKE_U32 (ucast (len + prep))) of
                 (Inl r, b1) \<Rightarrow> (Inl r, b1)
               | (Inr _, b1) \<Rightarrow>
                 (case (if prep \<noteq> 0 then write_at b1 (d + 4) [0] else (Inr (), b1)) of
                    (Inl r, b2) \<Rightarrow> (Inl r, b2)
                  | (Inr _, b2) \<Rightarrow>
                    if len \<noteq> 0 then write_at b2 (d + 4 + prep) s else (Inr (), b2)))))"

abbreviation SSHBUF_MAX_BIGNUM :: nat where "SSHBUF_MAX_BIGNUM \<equiv> 2048"

definition sshbuf_get_bignum2_bytes_direct :: "sshbuf \<Rightarrow> u8 list res \<times> sshbuf" where
  "sshbuf_get_bignum2_bytes_direct buf =
     (case sshbuf_peek_string_direct buf of
        Inl r \<Rightarrow> (Inl r, buf)
      | Inr d \<Rightarrow>
        let len = length d in
        if len \<noteq> 0 \<and> hd d AND 0x80 \<noteq> 0 then (Inl SSH_ERR_BIGNUM_IS_NEGATIVE, buf)
        else if len > SSHBUF_MAX_BIGNUM + 1 \<or> (len = SSHBUF_MAX_BIGNUM + 1 \<and> hd d \<noteq> 0)
        then (Inl SSH_ERR_BIGNUM_TOO_LARGE, buf)
        else (case sshbuf_consume buf (word_of_nat len + 4) of
                (Inl _, b) \<Rightarrow> (Inl SSH_ERR_INTERNAL_ERROR, b)
              | (Inr _, b) \<Rightarrow> (Inr (dropWhile (\<lambda>x. x = 0) d), b)))"

end
