(* ===== verification/SshBufWire.thy ===== *)
theory SshBufWire
  imports SshBufGetPut
begin

text \<open>
  What the accessors of \<open>sshbuf-getput-basic.c\<close> do to the contents of a well-formed buffer: a put
  appends the encoding of its value or leaves the contents alone, a get removes exactly one
  encoding from the front or leaves them alone, a peek or poke touches only the addressed bytes.
  The interface \<open>wire_codec\<close> states what a matching put and get promise each other; the pairs of
  the file are its interpretations.
\<close>

section \<open>What a successful or failed put leaves\<close>

definition put_post :: "sshbuf \<Rightarrow> u8 list \<Rightarrow> unit res \<Rightarrow> sshbuf \<Rightarrow> bool" where
  "put_post buf bs r buf' \<longleftrightarrow>
     sshbuf_inv buf' \<and> same_shape buf buf' \<and>
     (case r of
        Inr _ \<Rightarrow> writable buf \<and> contents buf' = contents buf @ bs
      | Inl e \<Rightarrow> contents buf' = contents buf \<and>
          e \<in> {SSH_ERR_BUFFER_READ_ONLY, SSH_ERR_NO_BUFFER_SPACE, SSH_ERR_ALLOC_FAIL})"

lemma put_post_room:
  "put_post buf bs (Inr u) buf' \<Longrightarrow> length (contents buf) + length bs \<le> unat (b_max_size buf)"
  using contents_bound[of buf'] by (auto simp: put_post_def same_shape_def simp del: length_contents)

lemma put_post_unit: "put_post buf [] (Inl e) buf' \<Longrightarrow> sshbuf_inv buf'"
  by (simp add: put_post_def)

lemma unat_of_length:
  "length bs < 2 ^ 64 \<Longrightarrow> unat (word_of_nat (length bs) :: size_t) = length bs"
  by (simp add: unat_of_nat take_bit_eq_mod)

lemma write_at_two:
  assumes "mem_write (b_mem b) (unat p) (xs @ ys) = Some m"
    and "unat (p + n) = unat p + length xs"
  shows "(case write_at b p xs of (Inl r, b1) \<Rightarrow> (Inl r, b1)
          | (Inr _, b1) \<Rightarrow> write_at b1 (p + n) ys) = (Inr (), b\<lparr>b_mem := m\<rparr>)"
  using assms by (auto simp: write_at_def mem_write_def add.commute add.left_commute split: if_splits)

lemma reserve_then_post:
  assumes inv: "sshbuf_inv buf" and len: "length bs = unat len"
    and ok: "\<And>p b m. sshbuf_reserve alc buf len = (Inr p, b) \<Longrightarrow>
        mem_write (b_mem b) (unat p) bs = Some m \<Longrightarrow> unat p + length bs < 2 ^ 64 \<Longrightarrow>
        k p b = (Inr (), b\<lparr>b_mem := m\<rparr>)"
    and res: "(case sshbuf_reserve alc buf len of
                 (Inl r, b) \<Rightarrow> (Inl r, b) | (Inr p, b) \<Rightarrow> k p b) = (r, buf')"
  shows "put_post buf bs r buf'"
proof (cases "sshbuf_reserve alc buf len")
  case (Pair r0 b)
  show ?thesis
  proof (cases r0)
    case (Inl e)
    with res Pair reserve_error[OF inv, of alc len e b] show ?thesis
      by (auto simp: put_post_def)
  next
    case (Inr p)
    with Pair have rv: "sshbuf_reserve alc buf len = (Inr p, b)" by simp
    obtain m where m: "mem_write (b_mem b) (unat p) bs = Some m"
      and post: "sshbuf_inv (b\<lparr>b_mem := m\<rparr>)" "contents (b\<lparr>b_mem := m\<rparr>) = contents buf @ bs"
        "same_shape buf (b\<lparr>b_mem := m\<rparr>)" "writable buf"
      using reserve_write[OF inv rv len] by metis
    have "length m \<le> 134217728" using inv_bounds[OF post(1)] by simp
    moreover have "unat p + length bs \<le> length m"
      using m mem_write_length[OF m] by (simp add: mem_write_def split: if_splits)
    ultimately have "k p b = (Inr (), b\<lparr>b_mem := m\<rparr>)" using ok[OF rv m] by simp
    with res Pair Inr post show ?thesis by (auto simp: put_post_def)
  qed
qed

lemma reserve_poke_post:
  assumes "sshbuf_inv buf" "length bs = unat len" "reserve_poke alc buf len bs = (r, buf')"
  shows "put_post buf bs r buf'"
  using assms(1,2) _ assms(3)[unfolded reserve_poke_def]
  by (rule reserve_then_post) (simp add: write_at_def)

lemma put_int_post:
  assumes "sshbuf_inv buf"
  shows "sshbuf_put_u64 alc buf x8 = (r, b) \<Longrightarrow> put_post buf (POKE_U64 x8) r b"
    and "sshbuf_put_u32 alc buf x4 = (r, b) \<Longrightarrow> put_post buf (POKE_U32 x4) r b"
    and "sshbuf_put_u16 alc buf x2 = (r, b) \<Longrightarrow> put_post buf (POKE_U16 x2) r b"
    and "sshbuf_put_u8 alc buf x1 = (r, b) \<Longrightarrow> put_post buf [x1] r b"
  using assms
  by (auto simp: sshbuf_put_u64_def sshbuf_put_u32_def sshbuf_put_u16_def sshbuf_put_u8_def
      elim!: reserve_poke_post[rotated 2])

lemma put_bytes_post:
  assumes "sshbuf_inv buf" "length v < 2 ^ 64" "sshbuf_put alc buf v = (r, b)"
  shows "put_post buf v r b"
  using assms(1) _ assms(3)[unfolded sshbuf_put_def]
  by (rule reserve_poke_post) (simp only: unat_of_length[OF assms(2)])

definition enc_string :: "u8 list \<Rightarrow> u8 list" where
  "enc_string v = POKE_U32 (word_of_nat (length v)) @ v"

lemma length_enc_string [simp]: "length (enc_string v) = 4 + length v"
  by (simp add: enc_string_def)

lemma put_string_post:
  assumes inv: "sshbuf_inv buf" and v: "length v < 2 ^ 64"
    and res: "sshbuf_put_string alc buf v = (r, b)"
  shows "put_post buf (enc_string v) r b"
proof -
  let ?len = "word_of_nat (length v) :: size_t"
  have u: "unat ?len = length v" using v by (rule unat_of_length)
  show ?thesis
  proof (cases "?len > SSHBUF_SIZE_MAX - 4")
    case True
    with res inv show ?thesis by (auto simp: sshbuf_put_string_def put_post_def Let_def)
  next
    case False
    then have lv: "length v \<le> 134217724" using u by (simp add: word_less_nat_alt)
    have l4: "length (enc_string v) = unat (?len + 4)"
      using lv u by (simp add: unat_add_nowrap)
    have uc: "(ucast ?len :: u32) = word_of_nat (length v)"
      using lv by (simp add: word_unat_eq_iff unsigned_ucast_eq unat_of_nat take_bit_eq_mod)
    have res': "(case sshbuf_reserve alc buf (?len + 4) of (Inl r, b) \<Rightarrow> (Inl r, b)
        | (Inr d, b) \<Rightarrow> (case write_at b d (POKE_U32 (ucast ?len)) of (Inl r, b1) \<Rightarrow> (Inl r, b1)
            | (Inr _, b1) \<Rightarrow> if ?len \<noteq> 0 then write_at b1 (d + 4) v else (Inr (), b1))) = (r, b)"
      using res False by (simp add: sshbuf_put_string_def Let_def)
    show ?thesis
    proof (rule reserve_then_post[OF inv l4 _ res'])
      fix d :: size_t and b' :: sshbuf and m
      assume m: "mem_write (b_mem b') (unat d) (enc_string v) = Some m"
        and bd: "unat d + length (enc_string v) < 2 ^ 64"
      have d4: "unat (d + 4) = unat d + 4" using bd by (subst unat_add_nowrap) simp_all
      have "(if ?len \<noteq> 0 then write_at b1 (d + 4) v else (Inr (), b1)) = write_at b1 (d + 4) v"
        if "length (b_mem b1) = length (b_mem b')" for b1
        using m that u d4
        by (cases "v = []") (auto simp: write_at_def mem_write_def split: if_splits)
      then show "(case write_at b' d (POKE_U32 (ucast ?len)) of (Inl r, b1) \<Rightarrow> (Inl r, b1)
            | (Inr _, b1) \<Rightarrow> if ?len \<noteq> 0 then write_at b1 (d + 4) v else (Inr (), b1))
            = (Inr (), b'\<lparr>b_mem := m\<rparr>)"
        using write_at_two[OF m[unfolded enc_string_def], of 4] d4
        by (auto simp: uc write_at_def mem_write_length split: option.splits sum.splits prod.splits)
    qed
  qed
qed

section \<open>What the getters read\<close>

lemma read_at_contents:
  assumes "sshbuf_inv buf" "b_mem b = b_mem buf" "n \<le> length (contents buf)"
  shows "read_at b (sshbuf_ptr buf) n = Inr (take n (contents buf))"
proof -
  have "unat (b_off buf) + n \<le> length (b_mem buf)"
    using assms inv_bounds[OF assms(1)] by simp
  moreover have "n \<le> unat (b_size buf) - unat (b_off buf)" using assms by simp
  ultimately show ?thesis using assms(1,2)
    by (auto simp: read_at_def sshbuf_ptr_def contents_def min_def)
qed

lemma consume_cases:
  assumes "sshbuf_inv buf"
  obtains (short) "length (contents buf) < unat len"
      "sshbuf_consume buf len = (Inl SSH_ERR_MESSAGE_INCOMPLETE, buf)"
  | (ok) b where "unat len \<le> length (contents buf)" "sshbuf_consume buf len = (Inr (), b)"
      "sshbuf_inv b" "same_shape buf b" "contents b = drop (unat len) (contents buf)"
      "b_mem b = b_mem buf"
proof -
  obtain r b where c: "sshbuf_consume buf len = (r, b)" by fastforce
  have m: "b_mem b = b_mem buf" using consume_mem(1)[of buf len] by (simp add: c)
  note s = consume_spec[OF assms, of len, unfolded c fst_conv snd_conv]
  show thesis
  proof (cases "unat len \<le> length (contents buf)")
    case True
    have "r = Inr ()" "sshbuf_inv b" "same_shape buf b" "contents b = drop (unat len) (contents buf)"
      using s True by simp_all
    with c m True show thesis by (intro ok[of b]) auto
  next
    case False
    have "r = Inl SSH_ERR_MESSAGE_INCOMPLETE" "b = buf" using s False by simp_all
    with c False show thesis by (intro short) auto
  qed
qed

text \<open>The common shape of the fixed-size getters: \<open>n\<close> bytes in front, or nothing happens.\<close>

definition get_post :: "sshbuf \<Rightarrow> nat \<Rightarrow> (u8 list \<Rightarrow> 'a) \<Rightarrow> 'a res \<Rightarrow> sshbuf \<Rightarrow> bool" where
  "get_post buf n dec r buf' \<longleftrightarrow>
     (if length (contents buf) < n
      then r = Inl SSH_ERR_MESSAGE_INCOMPLETE \<and> buf' = buf
      else r = Inr (dec (take n (contents buf))) \<and> sshbuf_inv buf' \<and> same_shape buf buf' \<and>
           contents buf' = drop n (contents buf))"

lemma get_int_post:
  assumes "sshbuf_inv buf"
  shows "sshbuf_get_u64 buf = (r8, b8) \<Longrightarrow> get_post buf 8 PEEK_U64 r8 b8"
    and "sshbuf_get_u32 buf = (r4, b4) \<Longrightarrow> get_post buf 4 PEEK_U32 r4 b4"
    and "sshbuf_get_u16 buf = (r2, b2) \<Longrightarrow> get_post buf 2 PEEK_U16 r2 b2"
    and "sshbuf_get_u8 buf = (r1, b1) \<Longrightarrow> get_post buf 1 hd r1 b1"
    and "sshbuf_get buf len = (r, b) \<Longrightarrow> get_post buf (unat len) id r b"
  subgoal using assms by (cases rule: consume_cases[of buf 8])
    (auto simp: sshbuf_get_u64_def get_post_def read_at_contents[OF assms] simp del: length_contents)
  subgoal using assms by (cases rule: consume_cases[of buf 4])
    (auto simp: sshbuf_get_u32_def get_post_def read_at_contents[OF assms] simp del: length_contents)
  subgoal using assms by (cases rule: consume_cases[of buf 2])
    (auto simp: sshbuf_get_u16_def get_post_def read_at_contents[OF assms] simp del: length_contents)
  subgoal using assms by (cases rule: consume_cases[of buf 1])
    (auto simp: sshbuf_get_u8_def get_post_def read_at_contents[OF assms] simp del: length_contents)
  subgoal using assms by (cases rule: consume_cases[of buf len])
    (auto simp: sshbuf_get_def get_post_def read_at_contents[OF assms] simp del: length_contents)
  done

text \<open>The wire format of a string, on the bytes alone.\<close>

definition parse_string :: "u8 list \<Rightarrow> u8 list res" where
  "parse_string bs =
     (if length bs < 4 then Inl SSH_ERR_MESSAGE_INCOMPLETE
      else let len = unat (PEEK_U32 (take 4 bs)) in
        if len > 134217724 then Inl SSH_ERR_STRING_TOO_LARGE
        else if length bs - 4 < len then Inl SSH_ERR_MESSAGE_INCOMPLETE
        else Inr (take len (drop 4 bs)))"

lemma peek_string_spec:
  assumes inv: "sshbuf_inv buf"
  shows "sshbuf_peek_string_direct buf = parse_string (contents buf)"
proof (cases "length (contents buf) < 4")
  case True
  then show ?thesis using inv
    by (simp add: sshbuf_peek_string_direct_def parse_string_def word_less_nat_alt del: length_contents)
next
  case False
  let ?n = "PEEK_U32 (take 4 (contents buf))"
  note b = inv_bounds[OF inv]
  have hdr: "read_at buf (sshbuf_ptr buf) 4 = Inr (take 4 (contents buf))"
    using inv False by (intro read_at_contents) auto
  have p: "sshbuf_ptr buf = Some (b_off buf)" using inv by (simp add: sshbuf_ptr_def)
  have u4: "unat (b_off buf + 4) = unat (b_off buf) + 4"
    using b by (subst unat_add_nowrap) simp_all
  have body: "read_at buf (Some (b_off buf + 4)) k = Inr (take k (drop 4 (contents buf)))"
    if "k \<le> length (contents buf) - 4" for k
  proof -
    have "unat (b_off buf) + 4 + k \<le> length (b_mem buf)" using that False inv b by auto
    moreover have "k \<le> unat (b_size buf) - unat (b_off buf) - 4" using that inv by simp
    ultimately show ?thesis
      by (auto simp: read_at_def u4 contents_def drop_take min_def add.commute)
  qed
  have l4: "\<not> sshbuf_len buf < 4" using False inv by (simp add: word_less_nat_alt del: length_contents)
  have d4: "unat (sshbuf_len buf - 4) = length (contents buf) - 4"
    using False inv by (simp add: unat_diff_nowrap del: length_contents)
  show ?thesis using l4 hdr body[of "unat ?n"] False
    by (auto simp: sshbuf_peek_string_direct_def parse_string_def Let_def p word_less_nat_alt d4
        not_less simp del: length_contents)
qed

lemma parse_string_Inr:
  "parse_string bs = Inr v \<Longrightarrow>
   4 + length v \<le> length bs \<and> length v \<le> 134217724 \<and>
   unat (PEEK_U32 (take 4 bs)) = length v \<and> v = take (length v) (drop 4 bs)"
  by (auto simp: parse_string_def Let_def min_def split: if_splits)

lemma parse_enc_string [simp]:
  "length v \<le> 134217724 \<Longrightarrow> parse_string (enc_string v @ rest) = Inr v"
  by (simp add: parse_string_def enc_string_def unat_of_nat take_bit_eq_mod)

lemma get_string_direct_spec:
  assumes inv: "sshbuf_inv buf" and res: "sshbuf_get_string_direct buf = (r, b')"
  shows "case parse_string (contents buf) of
      Inl e \<Rightarrow> r = Inl e \<and> b' = buf
    | Inr v \<Rightarrow> r = Inr v \<and> sshbuf_inv b' \<and> same_shape buf b' \<and>
               contents b' = drop (4 + length v) (contents buf)"
proof (cases "parse_string (contents buf)")
  case (Inl e)
  with inv res have "r = Inl e" "b' = buf"
    by (simp_all add: sshbuf_get_string_direct_def peek_string_spec)
  with Inl show ?thesis by simp
next
  case (Inr v)
  let ?n = "word_of_nat (length v) + 4 :: size_t"
  have v: "4 + length v \<le> length (contents buf)" "length v \<le> 134217724"
    using parse_string_Inr[OF Inr] by simp_all
  have "unat (word_of_nat (length v) :: size_t) = length v" using v by (intro unat_of_length) simp
  then have n: "unat ?n = 4 + length v" using v by (subst unat_add_nowrap) simp_all
  from inv show ?thesis
  proof (cases rule: consume_cases[of buf ?n])
    case short
    with v n show ?thesis by simp
  next
    case (ok b)
    with res Inr inv have "r = Inr v" "b' = b"
      by (simp_all add: sshbuf_get_string_direct_def peek_string_spec)
    with ok n Inr show ?thesis by simp
  qed
qed

lemma skip_string_spec:
  assumes "sshbuf_inv buf" "sshbuf_skip_string buf = (r, b')"
  shows "case parse_string (contents buf) of
      Inl e \<Rightarrow> r = Inl e \<and> b' = buf
    | Inr v \<Rightarrow> r = Inr () \<and> sshbuf_inv b' \<and> same_shape buf b' \<and>
               contents b' = drop (4 + length v) (contents buf)"
  using assms get_string_direct_spec[OF assms(1)]
  by (fastforce simp: sshbuf_skip_string_def split: prod.splits sum.splits)

text \<open>A C string on the wire: no zero byte before the last position.\<close>

definition cstring_ok :: "u8 list \<Rightarrow> bool" where
  "cstring_ok v \<longleftrightarrow> 0 \<notin> set (butlast v)"

lemma memchr0_butlast:
  "(case memchr0 v of None \<Rightarrow> False | Some z \<Rightarrow> z < length v - 1) \<longleftrightarrow> 0 \<in> set (butlast v)"
proof (induction v)
  case (Cons x xs)
  then show ?case by (cases xs) (auto simp: memchr0_def split: option.splits if_splits)
qed (simp add: memchr0_def)

lemma get_cstring_spec:
  assumes inv: "sshbuf_inv buf" and res: "sshbuf_get_cstring alc buf = (r, b')"
  shows "case parse_string (contents buf) of
      Inl e \<Rightarrow> r = Inl e \<and> b' = buf
    | Inr v \<Rightarrow>
        if \<not> cstring_ok v then r = Inl SSH_ERR_INVALID_FORMAT \<and> b' = buf
        else sshbuf_inv b' \<and> same_shape buf b' \<and>
             contents b' = drop (4 + length v) (contents buf) \<and>
             (r = Inr v \<or> r = Inl SSH_ERR_ALLOC_FAIL \<and> alc (word_of_nat (length v) + 1) = NULL)"
proof (cases "parse_string (contents buf)")
  case (Inl e)
  with inv res have "r = Inl e" "b' = buf"
    by (simp_all add: sshbuf_get_cstring_def peek_string_spec)
  with Inl show ?thesis by simp
next
  case (Inr v)
  obtain r1 b1 where sk: "sshbuf_skip_string buf = (r1, b1)" by fastforce
  have bad: "(length v > 0 \<and> (case memchr0 v of None \<Rightarrow> False | Some z \<Rightarrow> z < length v - 1))
      = (\<not> cstring_ok v)"
    using memchr0_butlast[of v] by (cases v) (auto simp: cstring_ok_def)
  have r: "(r, b') = (if \<not> cstring_ok v then (Inl SSH_ERR_INVALID_FORMAT, buf)
      else case (r1, b1) of (Inl _, b) \<Rightarrow> (Inl SSH_ERR_INTERNAL_ERROR, b)
           | (Inr _, b) \<Rightarrow> if alc (word_of_nat (length v) + 1) = NULL
                then (Inl SSH_ERR_ALLOC_FAIL, b) else (Inr v, b))"
    using res Inr inv unfolding sshbuf_get_cstring_def Let_def sk
    by (simp only: peek_string_spec sum.case bad)
  from skip_string_spec[OF inv sk] Inr
  have s: "r1 = Inr ()" "sshbuf_inv b1" "same_shape buf b1"
    "contents b1 = drop (4 + length v) (contents buf)" by simp_all
  show ?thesis using r s Inr by (simp split: if_splits)
qed

lemma get_string_spec:
  assumes inv: "sshbuf_inv buf" and res: "sshbuf_get_string alc buf = (r, b')"
  shows "case parse_string (contents buf) of
      Inl e \<Rightarrow> r = Inl e \<and> b' = buf
    | Inr v \<Rightarrow> sshbuf_inv b' \<and> same_shape buf b' \<and>
             contents b' = drop (4 + length v) (contents buf) \<and>
             (r = Inr v \<or> r = Inl SSH_ERR_ALLOC_FAIL \<and> alc (word_of_nat (length v) + 1) = NULL)"
proof -
  obtain r1 b1 where d: "sshbuf_get_string_direct buf = (r1, b1)" by fastforce
  show ?thesis
  proof (cases "parse_string (contents buf)")
    case (Inl e)
    with get_string_direct_spec[OF inv d] res have "r = Inl e" "b' = buf"
      by (simp_all add: sshbuf_get_string_def d)
    with Inl show ?thesis by simp
  next
    case (Inr v)
    with get_string_direct_spec[OF inv d] res show ?thesis
      by (auto simp: sshbuf_get_string_def d split: if_splits)
  qed
qed

section \<open>Peeking and poking at an offset\<close>

lemma check_offset_spec:
  assumes inv: "sshbuf_inv buf" and len: "unat len < 2 ^ 63"
  shows "check_offset buf wr off len = Inr () \<longleftrightarrow> unat off + unat len \<le> length (contents buf)"
proof -
  have lb: "length (contents buf) \<le> 134217728"
    using contents_bound[OF inv] inv_bounds(4)[OF inv] by linarith
  have sm: "unat (SIZE_MAX - len) = 18446744073709551615 - unat len"
    using len by (subst unat_diff_nowrap) simp_all
  have u: "unat (off + len) = unat off + unat len" if "unat off < 18446744073709551615 - unat len"
    using that by (intro unat_add_nowrap) simp
  show ?thesis using inv lb sm u
    by (auto simp: check_offset_def sshbuf_ptr_def word_le_nat_alt word_less_nat_alt not_le
        simp del: length_contents)
qed

lemma unat_off_plus:
  assumes "sshbuf_inv buf" "unat off + n \<le> length (contents buf)"
  shows "unat (b_off buf + off) = unat (b_off buf) + unat off"
  using assms inv_bounds[OF assms(1)] by (intro unat_add_nowrap) simp

lemma read_at_offset:
  assumes inv: "sshbuf_inv buf" and n: "unat off + n \<le> length (contents buf)"
  shows "read_at buf (Some (b_off buf + off)) n = Inr (take n (drop (unat off) (contents buf)))"
proof -
  have "unat (b_off buf) + unat off + n \<le> length (b_mem buf)"
    using assms inv_bounds[OF inv] by simp
  moreover have "n \<le> unat (b_size buf) - unat (b_off buf) - unat off" using assms by simp
  ultimately show ?thesis
    by (auto simp: read_at_def unat_off_plus[OF assms] contents_def drop_take min_def)
      (simp_all add: add.commute)
qed

lemma peek_spec:
  assumes inv: "sshbuf_inv buf"
  shows "unat off + 4 \<le> length (contents buf) \<Longrightarrow>
      sshbuf_peek_u32 buf off = Inr (PEEK_U32 (take 4 (drop (unat off) (contents buf))))"
    and "unat off + 1 \<le> length (contents buf) \<Longrightarrow>
      sshbuf_peek_u8 buf off = Inr (contents buf ! unat off)"
    and "length (contents buf) < unat off + 4 \<Longrightarrow> isl (sshbuf_peek_u32 buf off)"
    and "length (contents buf) < unat off + 1 \<Longrightarrow> isl (sshbuf_peek_u8 buf off)"
proof -
  have ptr: "sshbuf_ptr buf = Some (b_off buf)" using inv by (simp add: sshbuf_ptr_def)
  show "sshbuf_peek_u32 buf off = Inr (PEEK_U32 (take 4 (drop (unat off) (contents buf))))"
    if "unat off + 4 \<le> length (contents buf)"
    using that inv check_offset_spec[OF inv, of 4 False off] read_at_offset[OF inv that]
    by (simp add: sshbuf_peek_u32_def check_roffset_def ptr del: length_contents)
  show "sshbuf_peek_u8 buf off = Inr (contents buf ! unat off)"
    if "unat off + 1 \<le> length (contents buf)"
    using that inv check_offset_spec[OF inv, of 1 False off] read_at_offset[OF inv that]
    by (simp add: sshbuf_peek_u8_def check_roffset_def ptr hd_drop_conv_nth take_Suc del: length_contents)
  show "isl (sshbuf_peek_u32 buf off)" if "length (contents buf) < unat off + 4"
    using that check_offset_spec[OF inv, of 4 False off]
    by (auto simp: sshbuf_peek_u32_def check_roffset_def split: sum.splits)
  show "isl (sshbuf_peek_u8 buf off)" if "length (contents buf) < unat off + 1"
    using that check_offset_spec[OF inv, of 1 False off]
    by (auto simp: sshbuf_peek_u8_def check_roffset_def split: sum.splits)
qed

lemma write_at_offset:
  assumes inv: "sshbuf_inv buf" and n: "unat off + length v \<le> length (contents buf)"
  obtains m where "write_at buf (b_off buf + off) v = (Inr (), buf\<lparr>b_mem := m\<rparr>)"
    and "sshbuf_inv (buf\<lparr>b_mem := m\<rparr>)"
    and "contents (buf\<lparr>b_mem := m\<rparr>) =
      take (unat off) (contents buf) @ v @ drop (unat off + length v) (contents buf)"
proof -
  note b = inv_bounds[OF inv]
  let ?p = "unat (b_off buf) + unat off"
  let ?m = "take ?p (b_mem buf) @ v @ drop (?p + length v) (b_mem buf)"
  have n': "unat off + length v \<le> unat (b_size buf) - unat (b_off buf)" using n inv by simp
  have w: "write_at buf (b_off buf + off) v = (Inr (), buf\<lparr>b_mem := ?m\<rparr>)"
    using n' b by (simp add: write_at_def unat_off_plus[OF inv n] mem_write_Some)
  have i: "sshbuf_inv (buf\<lparr>b_mem := ?m\<rparr>)" using inv b n' by (auto simp: inv_iff)
  have "contents (buf\<lparr>b_mem := ?m\<rparr>) =
      take (unat off) (contents buf) @ v @ drop (unat off + length v) (contents buf)"
  proof (rule nth_equalityI)
    show "length (contents (buf\<lparr>b_mem := ?m\<rparr>)) = length (take (unat off) (contents buf) @ v @
        drop (unat off + length v) (contents buf))"
      using i inv n' by simp
  next
    fix k assume "k < length (contents (buf\<lparr>b_mem := ?m\<rparr>))"
    then have k: "k < unat (b_size buf) - unat (b_off buf)" using i by simp
    then show "contents (buf\<lparr>b_mem := ?m\<rparr>) ! k = (take (unat off) (contents buf) @ v @
        drop (unat off + length v) (contents buf)) ! k"
      using n' b by (auto simp: contents_def nth_append)
  qed
  with w i show thesis by (rule that)
qed

lemma poke_spec:
  assumes inv: "sshbuf_inv buf" and v: "length v < 2 ^ 63"
  shows "if unat off + length v \<le> length (contents buf) \<and> writable buf
    then \<exists>b'. sshbuf_poke buf off v = (Inr (), b') \<and> sshbuf_inv b' \<and> same_shape buf b' \<and>
      contents b' = take (unat off) (contents buf) @ v @ drop (unat off + length v) (contents buf)
    else isl (fst (sshbuf_poke buf off v)) \<and> snd (sshbuf_poke buf off v) = buf"
proof -
  have u: "unat (word_of_nat (length v) :: size_t) = length v" using v by (intro unat_of_length) simp
  have co: "check_offset buf True off (word_of_nat (length v)) = Inr () \<longleftrightarrow>
      unat off + length v \<le> length (contents buf)"
    using check_offset_spec[OF inv, of "word_of_nat (length v)" True off] v by (simp add: u)
  show ?thesis
  proof (cases "unat off + length v \<le> length (contents buf) \<and> writable buf")
    case True
    then have "sshbuf_poke buf off v = write_at buf (b_off buf + off) v"
      using co inv by (simp add: sshbuf_poke_def check_woffset_def sshbuf_mutable_ptr_def writable_def)
    with write_at_offset[OF inv conjunct1[OF True]] obtain m where
      "sshbuf_poke buf off v = (Inr (), buf\<lparr>b_mem := m\<rparr>)" "sshbuf_inv (buf\<lparr>b_mem := m\<rparr>)"
      "contents (buf\<lparr>b_mem := m\<rparr>) =
         take (unat off) (contents buf) @ v @ drop (unat off + length v) (contents buf)"
      by metis
    moreover have "same_shape buf (buf\<lparr>b_mem := m\<rparr>)" by (simp add: same_shape_def)
    ultimately show ?thesis using True by auto
  next
    case False
    then show ?thesis using co inv
      by (auto simp: sshbuf_poke_def check_woffset_def sshbuf_mutable_ptr_def writable_def
          split: sum.splits)
  qed
qed

lemma putfv_post:
  assumes inv: "sshbuf_inv buf" and s: "length s < 2 ^ 31" "s \<noteq> []"
    and res: "sshbuf_putfv alc buf (Some s) = (r, b)"
  shows "put_post buf s r b"
proof -
  have u: "unat (word_of_nat (length s) :: size_t) = length s" using s(1) by (intro unat_of_length) simp
  have u1: "unat (word_of_nat (length s) + 1 :: size_t) = length (s @ [0])"
    using s by (subst unat_add_nowrap) (simp_all add: u)
  have ne: "(word_of_nat (length s) :: size_t) \<noteq> 0" using u s(2) by (metis length_0_conv unat_0)
  show ?thesis
  proof (cases "sshbuf_reserve alc buf (word_of_nat (length s) + 1)")
    case (Pair r0 b0)
    show ?thesis
    proof (cases r0)
      case (Inl e)
      with reserve_error[OF inv, of alc "word_of_nat (length s) + 1" e b0] Pair res ne show ?thesis
        by (auto simp: sshbuf_putfv_def put_post_def Let_def)
    next
      case (Inr p)
      with Pair have rv: "sshbuf_reserve alc buf (word_of_nat (length s) + 1) = (Inr p, b0)" by simp
      obtain m where m: "mem_write (b_mem b0) (unat p) (s @ [0]) = Some m"
        and post: "sshbuf_inv (b0\<lparr>b_mem := m\<rparr>)" "contents (b0\<lparr>b_mem := m\<rparr>) = contents buf @ (s @ [0])"
          "same_shape buf (b0\<lparr>b_mem := m\<rparr>)" "writable buf"
        using reserve_write[OF inv rv u1[symmetric]] by metis
      have "sshbuf_consume_end (b0\<lparr>b_mem := m\<rparr>) 1 = (r, b)"
        using res rv m ne by (simp add: sshbuf_putfv_def write_at_def Let_def)
      with consume_end_spec[OF post(1), of 1] post show ?thesis
        by (auto simp: put_post_def simp del: length_contents intro: same_shape_trans)
    qed
  qed
qed


section \<open>Bignums\<close>

definition enc_bignum2 :: "u8 list \<Rightarrow> u8 list" where
  "enc_bignum2 v =
     (let s = dropWhile (\<lambda>x. x = 0) v in
      enc_string (if s \<noteq> [] \<and> hd s AND 0x80 \<noteq> 0 then 0 # s else s))"

lemma write_at_three:
  assumes m: "mem_write (b_mem b) (unat p) (xs @ ys @ zs) = Some m"
    and "unat (p + i) = unat p + length xs" "unat (p + j) = unat p + length xs + length ys"
  shows "\<exists>m1 m2. write_at b p xs = (Inr (), b\<lparr>b_mem := m1\<rparr>) \<and> 
    write_at (b\<lparr>b_mem := m1\<rparr>) (p + i) ys = (Inr (), b\<lparr>b_mem := m2\<rparr>) \<and>
    write_at (b\<lparr>b_mem := m2\<rparr>) (p + j) zs = (Inr (), b\<lparr>b_mem := m\<rparr>)"
  using assms
  by (intro exI[of _ "take (unat p) (b_mem b) @ xs @ drop (unat p + length xs) (b_mem b)"]
        exI[of _ "take (unat p) (b_mem b) @ xs @ ys @
          drop (unat p + length xs + length ys) (b_mem b)"])
    (auto simp: write_at_def mem_write_def ac_simps split: if_splits)

lemma write_at_nil: "unat p \<le> length (b_mem b) \<Longrightarrow> write_at b p [] = (Inr (), b)"
  by (simp add: write_at_def mem_write_def)

lemma write_at_length: "write_at b p xs = (r, b1) \<Longrightarrow> length (b_mem b1) = length (b_mem b)"
  by (auto simp: write_at_def mem_write_length split: option.splits)

lemma put_bignum2_post:
  assumes inv: "sshbuf_inv buf" and v: "length v < 2 ^ 64"
    and res: "sshbuf_put_bignum2_bytes alc buf v = (r, b)"
  shows "put_post buf (enc_bignum2 v) r b"
proof (cases "(word_of_nat (length v) :: size_t) > SSHBUF_SIZE_MAX - 5")
  case True
  with res inv show ?thesis by (auto simp: sshbuf_put_bignum2_bytes_def put_post_def)
next
  case False
  define s where "s = dropWhile (\<lambda>x. x = 0) v"
  define len where "len = (word_of_nat (length s) :: size_t)"
  define pad where "pad = (if s \<noteq> [] \<and> hd s AND 0x80 \<noteq> 0 then [0] else [] :: u8 list)"
  define prep where "prep = (word_of_nat (length pad) :: size_t)"
  have lv: "length v \<le> 134217723"
    using False unat_of_length[OF v] by (simp add: word_less_nat_alt)
  have ls: "length s \<le> 134217723"
    using lv length_dropWhile_le[of "\<lambda>x. x = 0" v] by (simp add: s_def)
  have lp: "length pad \<le> 1" by (simp add: pad_def)
  have u: "unat len = length s" using ls by (simp add: len_def unat_of_length)
  have up: "unat prep = length pad" using lp by (simp add: prep_def unat_of_length)
  have l0: "len > 0 \<longleftrightarrow> s \<noteq> []" using u by (simp add: word_less_nat_alt)
  have prep: "prep = (if len > 0 \<and> hd s AND 0x80 \<noteq> 0 then 1 else 0)"
    by (simp add: prep_def pad_def l0)
  have enc: "enc_bignum2 v = POKE_U32 (ucast (len + prep)) @ pad @ s"
  proof -
    have "unat (len + prep) = length (pad @ s)" using ls lp u up by (subst unat_add_nowrap) simp_all
    moreover have "(ucast w :: u32) = word_of_nat (unat w)" for w :: size_t
      by (simp add: word_unat_eq_iff unsigned_ucast_eq unat_of_nat take_bit_eq_mod)
    ultimately have "(ucast (len + prep) :: u32) = word_of_nat (length (pad @ s))" by metis
    then show ?thesis by (simp add: enc_bignum2_def Let_def enc_string_def pad_def flip: s_def)
  qed
  have a1: "unat (len + 4) = length s + 4" using ls u by (subst unat_add_nowrap) simp_all
  have tot: "length (enc_bignum2 v) = unat (len + 4 + prep)"
    using ls lp a1 up enc by (subst unat_add_nowrap) simp_all
  let ?k = "\<lambda>d b. (case write_at b d (POKE_U32 (ucast (len + prep))) of
                 (Inl r, b1) \<Rightarrow> (Inl r, b1)
               | (Inr _, b1) \<Rightarrow>
                 (case (if prep \<noteq> 0 then write_at b1 (d + 4) [0] else (Inr (), b1)) of
                    (Inl r, b2) \<Rightarrow> (Inl r, b2)
                  | (Inr _, b2) \<Rightarrow>
                    if len \<noteq> 0 then write_at b2 (d + 4 + prep) s else (Inr (), b2)))"
  have res': "(case sshbuf_reserve alc buf (len + 4 + prep) of
      (Inl r, b) \<Rightarrow> (Inl r, b) | (Inr d, b) \<Rightarrow> ?k d b) = (r, b)"
    using res False unfolding sshbuf_put_bignum2_bytes_def Let_def s_def[symmetric] len_def[symmetric]
      prep[symmetric] by simp
  show ?thesis
  proof (rule reserve_then_post[OF inv tot _ res'])
    fix d :: size_t and b' :: sshbuf and m
    assume m: "mem_write (b_mem b') (unat d) (enc_bignum2 v) = Some m"
      and bd: "unat d + length (enc_bignum2 v) < 2 ^ 64"
    have d4: "unat (d + 4) = unat d + 4" using bd enc by (subst unat_add_nowrap) simp_all
    have d4p: "unat (d + (4 + prep)) = unat d + 4 + length pad"
      using bd enc up d4 by (subst add.assoc[symmetric], subst unat_add_nowrap) simp_all
    have fit: "unat d + 4 + length pad + length s \<le> length (b_mem b')"
      using m enc by (simp add: mem_write_def split: if_splits)
    obtain m1 m2 where w: "write_at b' d (POKE_U32 (ucast (len + prep))) = (Inr (), b'\<lparr>b_mem := m1\<rparr>)"
      "write_at (b'\<lparr>b_mem := m1\<rparr>) (d + 4) pad = (Inr (), b'\<lparr>b_mem := m2\<rparr>)"
      "write_at (b'\<lparr>b_mem := m2\<rparr>) (d + (4 + prep)) s = (Inr (), b'\<lparr>b_mem := m\<rparr>)"
      using write_at_three[OF m[unfolded enc], of 4 "4 + prep"] d4 d4p by auto
    have lm: "length m1 = length (b_mem b')" "length m2 = length (b_mem b')"
      using w(1,2)[THEN write_at_length] by simp_all
    have p0: "(if prep \<noteq> 0 then write_at (b'\<lparr>b_mem := m1\<rparr>) (d + 4) [0]
        else (Inr (), b'\<lparr>b_mem := m1\<rparr>)) = (Inr (), b'\<lparr>b_mem := m2\<rparr>)"
      using w(2) lm fit d4 by (cases "pad = []") (auto simp: prep_def pad_def write_at_nil split: if_splits)
    have s0: "(if len \<noteq> 0 then write_at (b'\<lparr>b_mem := m2\<rparr>) (d + 4 + prep) s
        else (Inr (), b'\<lparr>b_mem := m2\<rparr>)) = (Inr (), b'\<lparr>b_mem := m\<rparr>)"
      using w(3) lm fit d4p by (cases "s = []") (auto simp: len_def write_at_nil add.assoc l0[unfolded len_def word_neq_0_conv[symmetric]])
    show "?k d b' = (Inr (), b'\<lparr>b_mem := m\<rparr>)"
      by (simp only: w(1) prod.case sum.case p0 s0)
  qed
qed

lemma get_bignum2_spec:
  assumes inv: "sshbuf_inv buf" and res: "sshbuf_get_bignum2_bytes_direct buf = (r, b')"
  shows "case parse_string (contents buf) of
      Inl e \<Rightarrow> r = Inl e \<and> b' = buf
    | Inr d \<Rightarrow>
        if d \<noteq> [] \<and> hd d AND 0x80 \<noteq> 0 then r = Inl SSH_ERR_BIGNUM_IS_NEGATIVE \<and> b' = buf
        else if length d > 2049 \<or> length d = 2049 \<and> hd d \<noteq> 0
        then r = Inl SSH_ERR_BIGNUM_TOO_LARGE \<and> b' = buf
        else r = Inr (dropWhile (\<lambda>x. x = 0) d) \<and> sshbuf_inv b' \<and> same_shape buf b' \<and>
             contents b' = drop (4 + length d) (contents buf)"
proof (cases "parse_string (contents buf)")
  case (Inl e)
  with inv res have "r = Inl e" "b' = buf"
    by (simp_all add: sshbuf_get_bignum2_bytes_direct_def peek_string_spec)
  with Inl show ?thesis by simp
next
  case (Inr d)
  obtain r1 b1 where g: "sshbuf_get_string_direct buf = (r1, b1)" by fastforce
  note gs = get_string_direct_spec[OF inv g, unfolded Inr sum.case]
  have c: "sshbuf_consume buf (word_of_nat (length d) + 4) = (Inr (), b1)"
    using g gs Inr inv
    by (auto simp: sshbuf_get_string_direct_def peek_string_spec split: prod.splits sum.splits)
  show ?thesis using res Inr inv c gs
    by (auto simp: sshbuf_get_bignum2_bytes_direct_def peek_string_spec Let_def split: if_splits)
qed

section \<open>Buffer to buffer\<close>

lemma read_whole:
  assumes "sshbuf_inv vb"
  shows "read_at vb (sshbuf_ptr vb) (unat (sshbuf_len vb)) = Inr (contents vb)"
  using read_at_contents[OF assms refl, of "length (contents vb)"] assms by simp

lemma contents_fits: "sshbuf_inv vb \<Longrightarrow> length (contents vb) < 2 ^ 64"
  using inv_bounds[of vb] by simp

lemma putb_post:
  assumes "sshbuf_inv buf" "sshbuf_inv vb" "sshbuf_putb alc buf (Some vb) = (r, b)"
  shows "put_post buf (contents vb) r b"
  using assms(3) put_bytes_post[OF assms(1) contents_fits[OF assms(2)]]
  by (simp add: sshbuf_putb_def read_whole[OF assms(2)])

lemma put_stringb_post:
  assumes "sshbuf_inv buf" "sshbuf_inv vb" "sshbuf_put_stringb alc buf (Some vb) = (r, b)"
  shows "put_post buf (enc_string (contents vb)) r b"
  using assms(3) put_string_post[OF assms(1) contents_fits[OF assms(2)]]
  by (simp add: sshbuf_put_stringb_def read_whole[OF assms(2)])

lemma put_cstring_post:
  assumes "sshbuf_inv buf" "length s < 2 ^ 64" "sshbuf_put_cstring alc buf (Some s) = (r, b)"
  shows "put_post buf (enc_string (takeWhile (\<lambda>x. x \<noteq> 0) s)) r b"
  using assms(3) put_string_post[OF assms(1), of "takeWhile (\<lambda>x. x \<noteq> 0) s" alc r b]
    order.strict_trans1[OF length_takeWhile_le assms(2)]
  by (simp add: sshbuf_put_cstring_def)

text \<open>
  Moving a string between buffers: on success the string is consumed from \<open>buf\<close> and appended,
  without its length, to \<open>v\<close>. When \<open>v\<close> has no room the length word of \<open>buf\<close> is already gone.
\<close>

lemma get_stringb_spec:
  assumes inv: "sshbuf_inv buf" and iv: "sshbuf_inv v"
    and str: "parse_string (contents buf) = Inr s"
    and res: "sshbuf_get_stringb alc buf v = (r, buf', v')"
  shows "sshbuf_inv buf' \<and> sshbuf_inv v' \<and>
    (case r of
       Inr _ \<Rightarrow> contents buf' = drop (4 + length s) (contents buf) \<and> contents v' = contents v @ s
     | Inl e \<Rightarrow> contents buf' = drop 4 (contents buf) \<and> contents v' = contents v \<and>
         e \<in> {SSH_ERR_BUFFER_READ_ONLY, SSH_ERR_NO_BUFFER_SPACE, SSH_ERR_ALLOC_FAIL})"
proof -
  note ps = parse_string_Inr[OF str]
  obtain r1 b1 where g: "sshbuf_get_u32 buf = (r1, b1)" by fastforce
  have r1: "r1 = Inr (PEEK_U32 (take 4 (contents buf)))" and i1: "sshbuf_inv b1"
    and c1: "contents b1 = drop 4 (contents buf)"
    using get_int_post(2)[OF inv g] ps by (simp_all add: get_post_def del: length_contents)
  let ?n = "PEEK_U32 (take 4 (contents buf))"
  have n: "unat (ucast ?n :: size_t) = length s" using ps by simp
  obtain r2 v1 where rv: "sshbuf_reserve alc v (ucast ?n) = (r2, v1)" by fastforce
  show ?thesis
  proof (cases r2)
    case (Inl e)
    with res rv g r1 str inv have "r = Inl e" "buf' = b1" "v' = v1"
      by (simp_all add: sshbuf_get_stringb_def peek_string_spec)
    with reserve_error[OF iv rv[unfolded Inl]] i1 c1 show ?thesis by simp
  next
    case (Inr p)
    obtain m where m: "mem_write (b_mem v1) (unat p) s = Some m"
      and post: "sshbuf_inv (v1\<lparr>b_mem := m\<rparr>)" "contents (v1\<lparr>b_mem := m\<rparr>) = contents v @ s"
      using reserve_write[OF iv rv[unfolded Inr] n[symmetric]] by metis
    obtain r3 b2 where g3: "sshbuf_get b1 (ucast ?n) = (r3, b2)" by fastforce
    have r3: "r3 = Inr s" "sshbuf_inv b2" "contents b2 = drop (4 + length s) (contents buf)"
      using get_int_post(5)[OF i1 g3] ps c1 n
      by (auto simp: get_post_def add.commute simp del: length_contents)
    have "r = Inr ()" "buf' = b2" "v' = v1\<lparr>b_mem := m\<rparr>"
      using res rv g r1 str inv Inr g3 r3 m
      by (simp_all add: sshbuf_get_stringb_def peek_string_spec write_at_def)
    with r3 post show ?thesis by simp
  qed
qed

section \<open>The codec interface\<close>

text \<open>
  A put and a get that belong together. \<open>valid\<close> says which values the pair can carry, \<open>enc\<close> what
  they look like on the wire.
\<close>

locale wire_codec =
  fixes valid :: "'v \<Rightarrow> bool"
    and enc :: "'v \<Rightarrow> u8 list"
    and put :: "sshbuf \<Rightarrow> 'v \<Rightarrow> unit res \<times> sshbuf"
    and get :: "sshbuf \<Rightarrow> 'v res \<times> sshbuf"
  assumes put_law: "sshbuf_inv buf \<Longrightarrow> valid v \<Longrightarrow> put buf v = (r, b) \<Longrightarrow> put_post buf (enc v) r b"
    and get_law: "sshbuf_inv buf \<Longrightarrow> valid v \<Longrightarrow> contents buf = enc v @ rest \<Longrightarrow>
      \<exists>b. get buf = (Inr v, b) \<and> sshbuf_inv b \<and> same_shape buf b \<and> contents b = rest"
begin

lemma round_trip:
  assumes inv: "sshbuf_inv buf" and v: "valid v" and e: "contents buf = []"
    and ok: "put buf v = (Inr u, b)"
  obtains b' where "get b = (Inr v, b')" "sshbuf_inv b'" "contents b' = []" "same_shape buf b'"
proof -
  have pp: "put_post buf (enc v) (Inr u) b" using put_law[OF inv v ok] .
  then have b: "sshbuf_inv b" "contents b = enc v @ []" "same_shape buf b"
    by (simp_all add: put_post_def e)
  from get_law[OF b(1) v b(2)] obtain b' where
    "get b = (Inr v, b')" "sshbuf_inv b'" "same_shape b b'" "contents b' = []" by blast
  with that same_shape_trans[OF b(3)] show thesis by blast
qed

text \<open>Values come out in the order they went in, behind whatever was there before.\<close>

fun put_all :: "sshbuf \<Rightarrow> 'v list \<Rightarrow> unit res \<times> sshbuf" where
  "put_all buf [] = (Inr (), buf)"
| "put_all buf (v # vs) =
     (case put buf v of (Inl r, b) \<Rightarrow> (Inl r, b) | (Inr _, b) \<Rightarrow> put_all b vs)"

fun get_n :: "nat \<Rightarrow> sshbuf \<Rightarrow> 'v list res \<times> sshbuf" where
  "get_n 0 buf = (Inr [], buf)"
| "get_n (Suc n) buf =
     (case get buf of
        (Inl r, b) \<Rightarrow> (Inl r, b)
      | (Inr v, b) \<Rightarrow> (case get_n n b of (r, b') \<Rightarrow> (map_sum id (\<lambda>vs. v # vs) r, b')))"

lemma put_all_contents:
  "sshbuf_inv buf \<Longrightarrow> \<forall>v\<in>set vs. valid v \<Longrightarrow> put_all buf vs = (Inr u, b) \<Longrightarrow>
   sshbuf_inv b \<and> same_shape buf b \<and> contents b = contents buf @ concat (map enc vs)"
proof (induction vs arbitrary: buf)
  case (Cons v vs)
  obtain u' b1 where p: "put buf v = (Inr u', b1)" and rest: "put_all b1 vs = (Inr u, b)"
    using Cons.prems(3) by (auto split: prod.splits sum.splits)
  have "put_post buf (enc v) (Inr u') b1" using Cons.prems p by (intro put_law) auto
  then have b1: "sshbuf_inv b1" "same_shape buf b1" "contents b1 = contents buf @ enc v"
    by (simp_all add: put_post_def)
  with Cons.IH[OF b1(1) _ rest] Cons.prems(2) show ?case
    by (auto intro: same_shape_trans)
qed simp

lemma get_n_contents:
  "sshbuf_inv buf \<Longrightarrow> \<forall>v\<in>set vs. valid v \<Longrightarrow> contents buf = concat (map enc vs) @ rest \<Longrightarrow>
   \<exists>b. get_n (length vs) buf = (Inr vs, b) \<and> sshbuf_inv b \<and> contents b = rest"
proof (induction vs arbitrary: buf)
  case (Cons v vs)
  then have "contents buf = enc v @ (concat (map enc vs) @ rest)" by simp
  then obtain b1 where "get buf = (Inr v, b1)" "sshbuf_inv b1"
    "contents b1 = concat (map enc vs) @ rest"
    using get_law[OF Cons.prems(1), of v] Cons.prems(2) by auto
  with Cons.IH[of b1] Cons.prems(2) show ?case by auto
qed simp

lemma fifo:
  assumes "sshbuf_inv buf" "contents buf = []" "\<forall>v\<in>set vs. valid v" "put_all buf vs = (Inr u, b)"
  shows "\<exists>b'. get_n (length vs) b = (Inr vs, b') \<and> sshbuf_inv b' \<and> contents b' = []"
  using put_all_contents[OF assms(1,3,4)] get_n_contents[of b vs "[]"] assms by simp

end

text \<open>The pairs of the file.\<close>

lemma ex_result: "fst p = x \<Longrightarrow> P (snd p) \<Longrightarrow> \<exists>b. p = (x, b) \<and> P b"
  by (cases p) auto

lemma get_post_cont:
  assumes "get_post buf n dec r b" "contents buf = e @ rest" "length e = n"
  shows "r = Inr (dec e) \<and> sshbuf_inv b \<and> same_shape buf b \<and> contents b = rest"
  using assms by (simp add: get_post_def)

interpretation cod_u8: wire_codec "\<lambda>_. True" "\<lambda>v. [v]" "sshbuf_put_u8 alc" sshbuf_get_u8
proof
  show "\<exists>b. sshbuf_get_u8 buf = (Inr v, b) \<and> sshbuf_inv b \<and> same_shape buf b \<and> contents b = rest"
    if "sshbuf_inv buf" "contents buf = [v] @ rest" for buf v rest
    by (rule ex_result) (use get_post_cont[OF get_int_post(4)[OF that(1) surjective_pairing] that(2)] in auto)
qed (rule put_int_post(4))

interpretation cod_u16: wire_codec "\<lambda>_. True" POKE_U16 "sshbuf_put_u16 alc" sshbuf_get_u16
proof
  show "\<exists>b. sshbuf_get_u16 buf = (Inr v, b) \<and> sshbuf_inv b \<and> same_shape buf b \<and> contents b = rest"
    if "sshbuf_inv buf" "contents buf = POKE_U16 v @ rest" for buf v rest
    by (rule ex_result) (use get_post_cont[OF get_int_post(3)[OF that(1) surjective_pairing] that(2)] in auto)
qed (rule put_int_post(3))

interpretation cod_u32: wire_codec "\<lambda>_. True" POKE_U32 "sshbuf_put_u32 alc" sshbuf_get_u32
proof
  show "\<exists>b. sshbuf_get_u32 buf = (Inr v, b) \<and> sshbuf_inv b \<and> same_shape buf b \<and> contents b = rest"
    if "sshbuf_inv buf" "contents buf = POKE_U32 v @ rest" for buf v rest
    by (rule ex_result) (use get_post_cont[OF get_int_post(2)[OF that(1) surjective_pairing] that(2)] in auto)
qed (rule put_int_post(2))

interpretation cod_u64: wire_codec "\<lambda>_. True" POKE_U64 "sshbuf_put_u64 alc" sshbuf_get_u64
proof
  show "\<exists>b. sshbuf_get_u64 buf = (Inr v, b) \<and> sshbuf_inv b \<and> same_shape buf b \<and> contents b = rest"
    if "sshbuf_inv buf" "contents buf = POKE_U64 v @ rest" for buf v rest
    by (rule ex_result) (use get_post_cont[OF get_int_post(1)[OF that(1) surjective_pairing] that(2)] in auto)
qed (rule put_int_post(1))

interpretation cod_string: wire_codec "\<lambda>v. length v \<le> 134217724" enc_string
  "sshbuf_put_string alc" sshbuf_get_string_direct
proof
  show "put_post buf (enc_string v) r b"
    if "sshbuf_inv buf" "length v \<le> 134217724" "sshbuf_put_string alc buf v = (r, b)" for buf v r b
    using put_string_post[OF that(1) _ that(3)] that(2) by simp
  show "\<exists>b. sshbuf_get_string_direct buf = (Inr v, b) \<and> sshbuf_inv b \<and> same_shape buf b \<and> contents b = rest"
    if "sshbuf_inv buf" "length v \<le> 134217724" "contents buf = enc_string v @ rest" for buf v rest
    by (rule ex_result) (use get_string_direct_spec[OF that(1) surjective_pairing] that(2,3) in auto)
qed

interpretation cod_cstring: wire_codec "\<lambda>v. 0 \<notin> set v \<and> length v \<le> 134217724" enc_string
  "\<lambda>buf v. sshbuf_put_cstring alc buf (Some v)" "sshbuf_get_cstring (\<lambda>_. 1)"
proof
  show "put_post buf (enc_string v) r b"
    if "sshbuf_inv buf" "0 \<notin> set v \<and> length v \<le> 134217724"
      "sshbuf_put_cstring alc buf (Some v) = (r, b)" for buf v r b
    using put_cstring_post[OF that(1) _ that(3)] that(2) takeWhile_eq_all_conv[of "\<lambda>x. x \<noteq> 0" v]
    by fastforce
  show "\<exists>b. sshbuf_get_cstring (\<lambda>_. 1) buf = (Inr v, b) \<and> sshbuf_inv b \<and> same_shape buf b \<and> contents b = rest"
    if "sshbuf_inv buf" "0 \<notin> set v \<and> length v \<le> 134217724" "contents buf = enc_string v @ rest" for buf v rest
  proof -
    have "cstring_ok v" using that(2) by (auto simp: cstring_ok_def dest: in_set_butlastD)
    moreover have "parse_string (contents buf) = Inr v" using that(2,3) by simp
    ultimately show ?thesis
      by (intro ex_result) (use get_cstring_spec[OF that(1) surjective_pairing, of "\<lambda>_. 1"] that(3) in auto)
  qed
qed

interpretation cod_bignum2: wire_codec "\<lambda>v. (v = [] \<or> hd v \<noteq> 0) \<and> length v \<le> 2048" enc_bignum2
  "sshbuf_put_bignum2_bytes alc" sshbuf_get_bignum2_bytes_direct
proof
  show "put_post buf (enc_bignum2 v) r b"
    if "sshbuf_inv buf" "(v = [] \<or> hd v \<noteq> 0) \<and> length v \<le> 2048"
      "sshbuf_put_bignum2_bytes alc buf v = (r, b)" for buf v r b
    using put_bignum2_post[OF that(1) _ that(3)] that(2) by simp
  show "\<exists>b. sshbuf_get_bignum2_bytes_direct buf = (Inr v, b) \<and> sshbuf_inv b \<and> same_shape buf b \<and> contents b = rest"
    if "sshbuf_inv buf" "(v = [] \<or> hd v \<noteq> 0) \<and> length v \<le> 2048"
      "contents buf = enc_bignum2 v @ rest" for buf v rest
  proof -
    define s where "s = (if v \<noteq> [] \<and> hd v AND 0x80 \<noteq> 0 then 0 # v else v)"
    have dv: "dropWhile (\<lambda>x. x = 0) v = v" using that(2) by (cases v) auto
    have e: "enc_bignum2 v = enc_string s" by (simp add: enc_bignum2_def Let_def dv s_def)
    have ls: "length s \<le> 134217724" using that(2) by (simp add: s_def)
    have "parse_string (contents buf) = Inr s" using ls that(3) by (simp add: e)
    then show ?thesis
      by (intro ex_result) (use get_bignum2_spec[OF that(1) surjective_pairing] that(2,3) in
          \<open>auto simp: s_def e dv split: if_splits\<close>)
  qed
qed

end
