(* ===== verification/Match.thy ===== *)
theory Match
  imports Prelude
begin

text \<open>
  Wildcard patterns, pattern lists and proposal lists of \<open>match.c\<close> (and \<open>lowercase\<close> of
  \<open>misc.c\<close>). C strings are \<open>string\<close>s without the terminating zero. The loops of the code that
  advance a pointer are recursions on the rest of the string.
\<close>

lemma length_dropWhile_Cons: "dropWhile P xs = y # ys \<Longrightarrow> length ys < length xs"
  using length_dropWhile_le[of P xs] by simp

section \<open>Wildcards\<close>

text \<open>
  \<open>match_pattern\<close> with its two inner loops: over the positions of the known next character, and
  over every position.
\<close>

function match_pattern :: "string \<Rightarrow> string \<Rightarrow> bool"
  and match_at_known :: "string \<Rightarrow> string \<Rightarrow> bool"
  and match_anywhere :: "string \<Rightarrow> string \<Rightarrow> bool" where
  "match_pattern s pattern =
     (case pattern of
        [] \<Rightarrow> s = []
      | c # ps \<Rightarrow>
        if c = CHR ''*'' then
          (case dropWhile (\<lambda>x. x = CHR ''*'') ps of
             [] \<Rightarrow> True
           | d # ds \<Rightarrow>
             if d \<noteq> CHR ''?'' \<and> d \<noteq> CHR ''*'' then match_at_known s (d # ds)
             else match_anywhere s (d # ds))
        else
          (case s of
             [] \<Rightarrow> False
           | x # xs \<Rightarrow> if c \<noteq> CHR ''?'' \<and> c \<noteq> x then False else match_pattern xs ps))"
| "match_at_known s pattern =
     (case s of
        [] \<Rightarrow> False
      | x # xs \<Rightarrow>
        if pattern \<noteq> [] \<and> x = hd pattern \<and> match_pattern xs (tl pattern) then True
        else match_at_known xs pattern)"
| "match_anywhere s pattern =
     (case s of
        [] \<Rightarrow> False
      | x # xs \<Rightarrow> if match_pattern s pattern then True else match_anywhere xs pattern)"
  by pat_completeness auto
termination
  by (relation "measures [\<lambda>a. case a of Inl (s, p) \<Rightarrow> length p
        | Inr (Inl (s, p)) \<Rightarrow> length p | Inr (Inr (s, p)) \<Rightarrow> length p,
      \<lambda>a. case a of Inl (s, p) \<Rightarrow> length s
        | Inr (Inl (s, p)) \<Rightarrow> length s | Inr (Inr (s, p)) \<Rightarrow> length s,
      \<lambda>a. case a of Inl _ \<Rightarrow> 0 | _ \<Rightarrow> (1::nat)]")
    (auto dest!: length_dropWhile_Cons)

declare match_pattern.simps [simp del] match_at_known.simps [simp del]
  match_anywhere.simps [simp del]

subsection \<open>The meaning of a pattern\<close>

text \<open>\<open>?\<close> stands for one character, \<open>*\<close> for any number, anything else for itself.\<close>

fun glob :: "string \<Rightarrow> string \<Rightarrow> bool" where
  "glob [] s = (s = [])"
| "glob (c # ps) s =
     (if c = CHR ''*'' then \<exists>k\<le>length s. glob ps (drop k s)
      else case s of [] \<Rightarrow> False | x # xs \<Rightarrow> (c = CHR ''?'' \<or> c = x) \<and> glob ps xs)"

lemma ex_le_Suc_drop:
  "(\<exists>k\<le>Suc n. P (drop k (x # xs))) \<longleftrightarrow> P (x # xs) \<or> (\<exists>k\<le>n. P (drop k xs))"
  by (metis Suc_le_mono drop0 drop_Suc_Cons le0 not0_implies_Suc)

lemma glob_star_Nil: "glob (CHR ''*'' # ps) [] = glob ps []"
  by auto

lemma glob_star_Cons: "glob (CHR ''*'' # ps) (x # xs) \<longleftrightarrow> glob ps (x # xs) \<or> glob (CHR ''*'' # ps) xs"
  using ex_le_Suc_drop[of "length xs" "glob ps" x xs] by simp

lemma glob_star_star: "glob (CHR ''*'' # CHR ''*'' # ps) s = glob (CHR ''*'' # ps) s"
  by (induction s) (auto simp only: glob_star_Nil glob_star_Cons)

lemma glob_skip_stars:
  "glob (CHR ''*'' # ps) s = glob (CHR ''*'' # dropWhile (\<lambda>x. x = CHR ''*'') ps) s"
  by (induction ps) (simp_all add: glob_star_star del: glob.simps(2))

lemma glob_star_all: "glob [CHR ''*''] s"
  by auto

lemma match_glob:
  "match_pattern s p = glob p s"
  "p = d # ds \<Longrightarrow> d \<noteq> CHR ''?'' \<Longrightarrow> d \<noteq> CHR ''*'' \<Longrightarrow>
   match_at_known s p = glob (CHR ''*'' # p) s"
  "p = CHR ''?'' # ds \<Longrightarrow> match_anywhere s p = glob (CHR ''*'' # p) s"
proof (induction s p and s p and s p arbitrary: d ds and d ds and ds
    rule: match_pattern_match_at_known_match_anywhere.induct)
  case (1 s p)
  show ?case
  proof (cases p)
    case (Cons c ps)
    show ?thesis
    proof (cases "c = CHR ''*''")
      case star: True
      show ?thesis
      proof (cases "dropWhile (\<lambda>x. x = CHR ''*'') ps")
        case Nil
        then have "glob p s" using glob_skip_stars[of ps s] glob_star_all Cons star by (simp only:)
        then show ?thesis using Nil Cons star
          by (subst match_pattern.simps) (simp del: glob.simps dropWhile_eq_Nil_conv)
      next
        case D: (Cons d ds)
        have ns: "d \<noteq> CHR ''*''"
          using hd_dropWhile[of "\<lambda>x. x = CHR ''*''" ps] D by auto
        show ?thesis using Cons star D ns 1(1)[OF Cons star D] 1(2)[OF Cons star D]
            glob_skip_stars[of ps s]
          by (subst match_pattern.simps) (auto simp del: glob.simps)
      qed
    next
      case False
      then show ?thesis using Cons 1(3)[OF Cons False]
        by (subst match_pattern.simps) (auto split: list.splits)
    qed
  qed (subst match_pattern.simps, simp)
next
  case (2 s p)
  show ?case
  proof (cases s)
    case Nil
    with 2 show ?thesis by (subst match_at_known.simps) simp
  next
    case (Cons x xs)
    with 2 show ?thesis
      by (subst match_at_known.simps) (auto simp: glob_star_Cons simp del: glob.simps, auto)
  qed
next
  case (3 s p)
  show ?case
  proof (cases s)
    case Nil
    with 3 show ?thesis by (subst match_anywhere.simps) simp
  next
    case (Cons x xs)
    with 3(1)[OF Cons] 3(2)[OF Cons] 3(3) show ?thesis
      by (subst match_anywhere.simps) (auto simp: glob_star_Cons simp del: glob.simps)
  qed
qed

section \<open>Pattern lists\<close>

definition tolower :: "char \<Rightarrow> char" where
  "tolower c = (let n = (of_char c :: nat) in if 65 \<le> n \<and> n \<le> 90 then char_of (n + 32) else c)"

definition isupper :: "char \<Rightarrow> bool" where
  "isupper c = (let n = (of_char c :: nat) in 65 \<le> n \<and> n \<le> 90)"

definition lowercase :: "string \<Rightarrow> string" where
  "lowercase s = map tolower s"

text \<open>\<open>sub\<close> holds 1024 characters, so a subpattern is read until a comma or 1023 characters.\<close>

definition sub_len :: nat where "sub_len = 1024"

text \<open>One subpattern: whether it is negated, its characters, and what follows its comma.\<close>

definition next_subpattern :: "string \<Rightarrow> bool \<times> string \<times> string" where
  "next_subpattern pattern =
     (let negated = (pattern \<noteq> [] \<and> hd pattern = CHR ''!'');
          p1 = (if negated then tl pattern else pattern);
          raw = takeWhile (\<lambda>c. c \<noteq> CHR '','') (take (sub_len - 1) p1);
          p2 = drop (length raw) p1
      in (negated, raw, if p2 \<noteq> [] \<and> hd p2 = CHR '','' then tl p2 else p2))"

lemma next_subpattern_shorter:
  assumes "pattern \<noteq> []" "next_subpattern pattern = (neg, raw, rest)"
  shows "length rest < length pattern"
proof (cases pattern)
  case (Cons c cs)
  show ?thesis
  proof (cases "c = CHR ''!''")
    case True
    with Cons assms(2) show ?thesis by (auto simp: next_subpattern_def Let_def)
  next
    case False
    with Cons assms(2) show ?thesis
      by (cases "c = CHR '',''") (auto simp: next_subpattern_def Let_def sub_len_def)
  qed
qed (use assms in simp)

function match_pattern_list_from :: "string \<Rightarrow> string \<Rightarrow> bool \<Rightarrow> int \<Rightarrow> int" where
  "match_pattern_list_from str pattern dolower got_positive =
     (if pattern = [] then got_positive
      else (case next_subpattern pattern of (negated, raw, rest) \<Rightarrow>
        if length raw \<ge> sub_len - 1 then 0
        else if match_pattern str (map (\<lambda>c. if dolower \<and> isupper c then tolower c else c) raw)
        then (if negated then -1 else match_pattern_list_from str rest dolower 1)
        else match_pattern_list_from str rest dolower got_positive))"
  by pat_completeness auto
termination
  by (relation "measure (\<lambda>(str, pattern, dolower, got). length pattern)")
    (auto dest: next_subpattern_shorter[OF _ sym] next_subpattern_shorter)

declare match_pattern_list_from.simps [simp del]

definition match_pattern_list :: "string \<Rightarrow> string \<Rightarrow> bool \<Rightarrow> int" where
  "match_pattern_list str pattern dolower = match_pattern_list_from str pattern dolower 0"

definition match_usergroup_pattern_list :: "string \<Rightarrow> string \<Rightarrow> int" where
  "match_usergroup_pattern_list str pattern = match_pattern_list str pattern False"

definition match_hostname :: "string \<Rightarrow> string \<Rightarrow> int" where
  "match_hostname host pattern = match_pattern_list (lowercase host) pattern True"

subsection \<open>The entries of a list, and their meaning\<close>

text \<open>
  The entries of a pattern list: whether each is negated, and its text. A comma at the very end
  opens no further entry.
\<close>

function pattern_entries :: "string \<Rightarrow> (bool \<times> string) list" where
  "pattern_entries pattern =
     (if pattern = [] then []
      else
        let negated = (hd pattern = CHR ''!'');
            p1 = (if negated then tl pattern else pattern)
        in (negated, takeWhile (\<lambda>c. c \<noteq> CHR '','') p1) #
           pattern_entries (tl (dropWhile (\<lambda>c. c \<noteq> CHR '','') p1)))"
  by pat_completeness auto
termination
  by (relation "measure length")
    (auto simp: Let_def neq_Nil_conv less_Suc_eq_le intro!: le_trans[OF diff_le_self length_dropWhile_le])

declare pattern_entries.simps [simp del]

definition entry_matches :: "string \<Rightarrow> bool \<Rightarrow> string \<Rightarrow> bool" where
  "entry_matches str dolower e \<longleftrightarrow>
     glob (map (\<lambda>c. if dolower \<and> isupper c then tolower c else c) e) str"

lemma takeWhile_take_short:
  "length (takeWhile P xs) < n \<Longrightarrow> takeWhile P (take n xs) = takeWhile P xs"
  by (induction n arbitrary: xs) (auto simp: take_Suc split: list.splits, case_tac xs, auto)

lemma next_subpattern_entry:
  assumes "pattern \<noteq> []" "pattern_entries pattern = (n, e) # es" "length e < sub_len - 1"
  shows "\<exists>rest. next_subpattern pattern = (n, e, rest) \<and> pattern_entries rest = es"
proof -
  define p1 where "p1 = (if hd pattern = CHR ''!'' then tl pattern else pattern)"
  have n: "n = (hd pattern = CHR ''!'')" and e: "e = takeWhile (\<lambda>c. c \<noteq> CHR '','') p1"
    and es: "es = pattern_entries (tl (dropWhile (\<lambda>c. c \<noteq> CHR '','') p1))"
    using assms(1) assms(2)[unfolded pattern_entries.simps[of pattern] Let_def]
    by (auto simp: p1_def)
  let ?dw = "dropWhile (\<lambda>c. c \<noteq> CHR '','') p1"
  have raw: "takeWhile (\<lambda>c. c \<noteq> CHR '','') (take (sub_len - 1) p1) = e"
    using assms(3) takeWhile_take_short[of "\<lambda>c. c \<noteq> CHR '',''" p1 "sub_len - 1"] by (simp add: e)
  have d: "drop (length e) p1 = ?dw" by (simp add: e dropWhile_eq_drop)
  have t: "(if ?dw \<noteq> [] \<and> hd ?dw = CHR '','' then tl ?dw else ?dw) = tl ?dw"
    using hd_dropWhile[of "\<lambda>c. c \<noteq> CHR '',''" p1]
    by (cases ?dw) (simp_all del: dropWhile_eq_Nil_conv)
  have p1: "p1 = (if n then tl pattern else pattern)"
    and n': "n = (pattern \<noteq> [] \<and> hd pattern = CHR ''!'')"
    using assms(1) by (simp_all add: p1_def n)
  have "next_subpattern pattern = (n, e, tl ?dw)"
    unfolding next_subpattern_def Let_def n'[symmetric] p1[symmetric] raw d t ..
  with es show ?thesis by simp
qed

lemma match_pattern_list_from_spec:
  "\<forall>(n, e)\<in>set (pattern_entries pattern). length e < sub_len - 1 \<Longrightarrow>
   match_pattern_list_from str pattern dolower got =
     (if \<exists>e. (True, e) \<in> set (pattern_entries pattern) \<and> entry_matches str dolower e then -1
      else if \<exists>e. (False, e) \<in> set (pattern_entries pattern) \<and> entry_matches str dolower e then 1
      else got)"
proof (induction str pattern dolower got rule: match_pattern_list_from.induct)
  case (1 str pattern dolower got)
  show ?case
  proof (cases "pattern = []")
    case False
    then obtain n e es where ents: "pattern_entries pattern = (n, e) # es"
      by (subst (asm) pattern_entries.simps) (auto simp: Let_def)
    have le: "length e < sub_len - 1" using "1.prems" by (simp add: ents)
    obtain rest where ns: "next_subpattern pattern = (n, e, rest)" and re: "pattern_entries rest = es"
      using next_subpattern_entry[OF False ents le] by blast
    have sh: "\<forall>(n, e)\<in>set (pattern_entries rest). length e < sub_len - 1"
      using "1.prems" by (simp add: ents re)
    let ?m = "match_pattern str (map (\<lambda>c. if dolower \<and> isupper c then tolower c else c) e)"
    have m: "?m = entry_matches str dolower e" by (simp add: entry_matches_def match_glob(1))
    note step = match_pattern_list_from.simps[of str pattern dolower got]
    show ?thesis
    proof (cases ?m)
      case True
      show ?thesis
        using 1(1)[OF False ns[symmetric] refl _ True] sh True le ns False m step
        by (cases n) (auto simp: ents re not_le)
    next
      case nm: False
      show ?thesis
        using 1(2)[OF False ns[symmetric] refl _ nm] sh nm le ns False m step
        by (auto simp: ents re not_le)
    qed
  qed (simp add: match_pattern_list_from.simps pattern_entries.simps)
qed

lemma match_pattern_list_spec:
  assumes "\<forall>(n, e)\<in>set (pattern_entries pattern). length e < sub_len - 1"
  shows "match_pattern_list str pattern dolower =
     (if \<exists>e. (True, e) \<in> set (pattern_entries pattern) \<and> entry_matches str dolower e then -1
      else if \<exists>e. (False, e) \<in> set (pattern_entries pattern) \<and> entry_matches str dolower e then 1
      else 0)"
  using match_pattern_list_from_spec[OF assms] by (simp add: match_pattern_list_def)

section \<open>Proposal lists\<close>

lemma length_tl_dropWhile:
  assumes "dropWhile P s = x # xs"
  shows "length (tl (dropWhile P s)) < length s"
  using length_dropWhile_le[of P s] assms by simp

text \<open>The tokens \<open>strsep (&s, ",")\<close> hands out one after the other, empty ones included.\<close>

function strsep_tokens :: "string \<Rightarrow> string list" where
  "strsep_tokens s =
     (let t = takeWhile (\<lambda>c. c \<noteq> CHR '','') s; r = dropWhile (\<lambda>c. c \<noteq> CHR '','') s
      in t # (if r = [] then [] else strsep_tokens (tl r)))"
  by pat_completeness auto
termination
proof (relation "measure length")
  fix s :: string and t r
  assume r: "r = dropWhile (\<lambda>c. c \<noteq> CHR '','') s" and "r \<noteq> []"
  then obtain x xs where "r = x # xs" by (cases r) blast+
  with length_tl_dropWhile[of "\<lambda>c. c \<noteq> CHR '','' " s x xs] r
  have "length (tl r) < length s" by metis
  then show "(tl r, s) \<in> measure length" by (simp only: in_measure)
qed simp

declare strsep_tokens.simps [simp del]

definition MAX_PROP :: nat where "MAX_PROP = 40"

text \<open>
  The client's loop of \<open>match_list\<close>: \<open>off\<close> is where the current item starts, the second result
  is what \<open>*next\<close> receives.
\<close>

fun match_list_loop :: "string list \<Rightarrow> string list \<Rightarrow> nat \<Rightarrow> nat \<Rightarrow> string option \<times> nat" where
  "match_list_loop sproposals [] off clen = (None, clen)"
| "match_list_loop sproposals (p # ps) off clen =
     (if p = [] then (None, clen)
      else if p \<in> set sproposals
      then (Some p, if ps = [] then clen else off + length p + 1)
      else match_list_loop sproposals ps (off + length p + 1) clen)"

definition server_proposals :: "string \<Rightarrow> string list" where
  "server_proposals server = take MAX_PROP (takeWhile (\<lambda>p. p \<noteq> []) (strsep_tokens server))"

definition match_list :: "string \<Rightarrow> string \<Rightarrow> string option \<times> nat" where
  "match_list client server =
     match_list_loop (server_proposals server) (strsep_tokens client) 0 (length client)"

text \<open>
  \<open>filter_list\<close> rebuilds the list from the kept items; \<open>alloc_ok\<close> says whether its two
  allocations succeed.
\<close>

fun filter_list_loop :: "string list \<Rightarrow> string \<Rightarrow> bool \<Rightarrow> string \<Rightarrow> string" where
  "filter_list_loop [] filt denylist fix_prop = fix_prop"
| "filter_list_loop (cp # cps) filt denylist fix_prop =
     (let r = match_pattern_list cp filt False in
      if (denylist \<and> r \<noteq> 1) \<or> (\<not> denylist \<and> r = 1)
      then filter_list_loop cps filt denylist
             ((if fix_prop \<noteq> [] then fix_prop @ '','' else fix_prop) @ cp)
      else filter_list_loop cps filt denylist fix_prop)"

definition filter_list :: "bool \<Rightarrow> string \<Rightarrow> string \<Rightarrow> bool \<Rightarrow> string option" where
  "filter_list alloc_ok proposal filt denylist =
     (if \<not> alloc_ok then None
      else Some (filter_list_loop (strsep_tokens proposal) filt denylist []))"

definition match_filter_denylist :: "bool \<Rightarrow> string \<Rightarrow> string \<Rightarrow> string option" where
  "match_filter_denylist alloc_ok proposal filt = filter_list alloc_ok proposal filt True"

definition match_filter_allowlist :: "bool \<Rightarrow> string \<Rightarrow> string \<Rightarrow> string option" where
  "match_filter_allowlist alloc_ok proposal filt = filter_list alloc_ok proposal filt False"

subsection \<open>Negotiation\<close>

fun comma_join :: "string list \<Rightarrow> string" where
  "comma_join [] = []"
| "comma_join [t] = t"
| "comma_join (t # ts) = t @ '','' @ comma_join ts"

lemma comma_join_Cons: "ts \<noteq> [] \<Longrightarrow> comma_join (t # ts) = t @ '','' @ comma_join ts"
  by (cases ts) auto

lemma strsep_tokens_ne: "strsep_tokens s \<noteq> []"
  by (subst strsep_tokens.simps) (simp add: Let_def)

lemma strsep_tokens_no_comma: "t \<in> set (strsep_tokens s) \<Longrightarrow> CHR '','' \<notin> set t"
proof (induction s rule: strsep_tokens.induct)
  case (1 s)
  then show ?case
    by (subst (asm) strsep_tokens.simps)
      (auto simp: Let_def simp del: dropWhile_eq_Nil_conv dest: set_takeWhileD split: if_splits)
qed

lemma comma_join_tokens: "comma_join (strsep_tokens s) = s"
proof (induction s rule: strsep_tokens.induct)
  case (1 s)
  let ?t = "takeWhile (\<lambda>c. c \<noteq> CHR '','') s" and ?r = "dropWhile (\<lambda>c. c \<noteq> CHR '','') s"
  show ?case
  proof (cases ?r)
    case Nil
    then have "?t = s" by (metis append_Nil2 takeWhile_dropWhile_id)
    then show ?thesis using Nil by (subst strsep_tokens.simps) (simp add: Let_def)
  next
    case (Cons c rs)
    then have c: "c = CHR '',''" using hd_dropWhile[of "\<lambda>c. c \<noteq> CHR '',''" s] by simp
    have "comma_join (strsep_tokens (tl ?r)) = tl ?r" using 1[OF refl refl] Cons by simp
    then have "comma_join (strsep_tokens s) = ?t @ '','' @ tl ?r"
      using Cons strsep_tokens_ne[of "tl ?r"]
      by (subst strsep_tokens.simps) (simp add: Let_def comma_join_Cons)
    also have "\<dots> = ?t @ ?r" using Cons c by simp
    finally show ?thesis by simp
  qed
qed

lemma tokens_comma_join:
  "ts \<noteq> [] \<Longrightarrow> \<forall>t\<in>set ts. CHR '','' \<notin> set t \<Longrightarrow> strsep_tokens (comma_join ts) = ts"
proof (induction ts rule: comma_join.induct)
  case (2 t)
  then have "takeWhile (\<lambda>c. c \<noteq> CHR '','') t = t" "dropWhile (\<lambda>c. c \<noteq> CHR '','') t = []"
    by (auto simp: takeWhile_eq_all_conv)
  then show ?case by (simp add: strsep_tokens.simps)
next
  case (3 t u us)
  then have t: "\<forall>c\<in>set t. c \<noteq> CHR '',''" by auto
  have "takeWhile (\<lambda>c. c \<noteq> CHR '','') (t @ '','' @ s) = t"
    "dropWhile (\<lambda>c. c \<noteq> CHR '','') (t @ '','' @ s) = '','' @ s" for s
    using t by (simp_all add: takeWhile_append2 dropWhile_append2)
  then show ?case using 3 by (subst strsep_tokens.simps) (simp add: Let_def)
qed simp

lemma match_list_loop_Some:
  assumes "match_list_loop sp ts off clen = (Some p, n)"
  obtains as bs where "ts = as @ p # bs" "p \<in> set sp" "p \<noteq> []"
    "\<forall>a\<in>set as. a \<noteq> [] \<and> a \<notin> set sp"
    "n = (if bs = [] then clen else off + (\<Sum>a\<leftarrow>as @ [p]. length a + 1))"
  using assms
proof (induction ts arbitrary: off thesis)
  case (Cons t ts)
  show ?case
  proof (cases "t \<in> set sp")
    case True
    with Cons.prems Cons.prems(1)[of "[]" ts] show ?thesis by (auto split: if_splits)
  next
    case False
    with Cons.prems(2) have "t \<noteq> []" "match_list_loop sp ts (off + length t + 1) clen = (Some p, n)"
      by (auto split: if_splits)
    with Cons.IH[of "off + length t + 1"] obtain as bs where
      "ts = as @ p # bs" "p \<in> set sp" "p \<noteq> []" "\<forall>a\<in>set as. a \<noteq> [] \<and> a \<notin> set sp"
      "n = (if bs = [] then clen else off + length t + 1 + (\<Sum>a\<leftarrow>as @ [p]. length a + 1))"
      by metis
    with False \<open>t \<noteq> []\<close> Cons.prems(1)[of "t # as" bs] show ?thesis by auto
  qed
qed simp

lemma match_list_loop_None:
  "match_list_loop sp ts off clen = (None, n) \<Longrightarrow>
   n = clen \<and> set (takeWhile (\<lambda>t. t \<noteq> []) ts) \<inter> set sp = {}"
  by (induction ts arbitrary: off) (auto split: if_splits)

text \<open>Where the search stopped: behind the comma after the choice.\<close>

lemma length_comma_join:
  "ts \<noteq> [] \<Longrightarrow> length (comma_join ts) + 1 = (\<Sum>t\<leftarrow>ts. length t + 1)"
  by (induction ts rule: comma_join.induct) auto

lemma comma_join_append:
  "as \<noteq> [] \<Longrightarrow> bs \<noteq> [] \<Longrightarrow> comma_join (as @ bs) = comma_join as @ '','' @ comma_join bs"
  by (induction as rule: comma_join.induct) (auto simp: comma_join_Cons)

lemma drop_comma_join:
  assumes "as \<noteq> []" "bs \<noteq> []"
  shows "drop (\<Sum>t\<leftarrow>as. length t + 1) (comma_join (as @ bs)) = comma_join bs"
  using length_comma_join[OF assms(1), symmetric] by (simp add: comma_join_append[OF assms])

subsection \<open>Filters\<close>

lemma filter_list_loop_spec:
  "\<forall>t\<in>set ts. t \<noteq> [] \<Longrightarrow>
   filter_list_loop ts filt denylist acc =
     (let kept = filter (\<lambda>t. (match_pattern_list t filt False = 1) \<noteq> denylist) ts
      in if acc = [] then comma_join kept else if kept = [] then acc else acc @ '','' @ comma_join kept)"
proof (induction ts arbitrary: acc)
  case (Cons t ts)
  show ?case
  proof (cases "(match_pattern_list t filt False = 1) \<noteq> denylist")
    case True
    with Cons show ?thesis
      by (cases "filter (\<lambda>t. (match_pattern_list t filt False = 1) \<noteq> denylist) ts")
        (auto simp: Let_def)
  next
    case False
    with Cons show ?thesis by (auto simp: Let_def)
  qed
qed (simp add: Let_def)

lemma length_comma_join_filter: "length (comma_join (filter P ts)) \<le> length (comma_join ts)"
proof (induction ts)
  case (Cons t ts)
  show ?case
  proof (cases "ts = []")
    case False
    with Cons show ?thesis
      by (cases "filter P ts = []") (auto simp: comma_join_Cons)
  qed simp
qed simp

end
