(* ===== verification/Channel.thy ===== *)
theory Channel
  imports SshBufWire Match
begin

text \<open>
  The channel layer's data (\<open>channels.h\<close>, the structures at the top of \<open>channels.c\<close>) and its
  table operations: allocation, lookup, closing of descriptors, release, the permission sets and
  the per-type timeouts.

  A \<open>Channel *\<close> is the index of the channel's slot in \<open>sc->channels\<close>: \<open>c->self\<close> is that index
  from allocation to release, so the slot names a live channel. A reference that outlives its
  channel is then visible in the model as an index whose slot is free or taken again.
  The output of a step is the list of its effects on the outside, in order: packets handed to the
  transport, descriptors closed or shut down. \<open>fatal\<close> and \<open>ssh_packet_disconnect\<close> end the
  process: they are the outcomes \<open>Fatal\<close> and \<open>Disconnect\<close>.
\<close>

section \<open>Outcomes\<close>

datatype 'a run = Fatal | Disconnect | Done 'a

fun andThen :: "'a run \<Rightarrow> ('a \<Rightarrow> 'b run) \<Rightarrow> 'b run" where
  "andThen Fatal k = Fatal"
| "andThen Disconnect k = Disconnect"
| "andThen (Done x) k = k x"

lemma andThen_Done: "andThen m k = Done y \<longleftrightarrow> (\<exists>x. m = Done x \<and> k x = Done y)"
  by (cases m) auto

lemma andThen_assoc: "andThen (andThen m k) l = andThen m (\<lambda>x. andThen (k x) l)"
  by (cases m) auto

text \<open>\<open>keeps P m\<close>: a state the computation ends in satisfies \<open>P\<close>.\<close>

definition keeps :: "('s \<Rightarrow> bool) \<Rightarrow> ('a \<times> 's) run \<Rightarrow> bool" where
  "keeps P m \<longleftrightarrow> (\<forall>x s. m = Done (x, s) \<longrightarrow> P s)"

lemma keepsD: "keeps P m \<Longrightarrow> m = Done (x, s) \<Longrightarrow> P s"
  by (simp add: keeps_def)

lemma keeps_Done: "P s \<Longrightarrow> keeps P (Done (x, s))"
  by (simp add: keeps_def)

lemma keeps_exit: "keeps P Fatal" "keeps P Disconnect"
  by (simp_all add: keeps_def)

lemma keeps_if: "(b \<Longrightarrow> keeps P m) \<Longrightarrow> (\<not> b \<Longrightarrow> keeps P n) \<Longrightarrow> keeps P (if b then m else n)"
  by simp

lemma keeps_option:
  "(x = None \<Longrightarrow> keeps P m) \<Longrightarrow> (\<And>y. x = Some y \<Longrightarrow> keeps P (f y)) \<Longrightarrow>
   keeps P (case x of None \<Rightarrow> m | Some y \<Rightarrow> f y)"
  by (cases x) auto

lemma keeps_prod: "(\<And>a b. x = (a, b) \<Longrightarrow> keeps P (f a b)) \<Longrightarrow> keeps P (case x of (a, b) \<Rightarrow> f a b)"
  by (cases x) auto

lemma keeps_sum:
  "(\<And>a. x = Inl a \<Longrightarrow> keeps P (f a)) \<Longrightarrow> (\<And>b. x = Inr b \<Longrightarrow> keeps P (g b)) \<Longrightarrow>
   keeps P (case x of Inl a \<Rightarrow> f a | Inr b \<Rightarrow> g b)"
  by (cases x) auto

lemma keeps_andThen:
  "keeps Q m \<Longrightarrow> (\<And>x s. Q s \<Longrightarrow> keeps P (k (x, s))) \<Longrightarrow> keeps P (andThen m k)"
  by (cases m) (auto simp: keeps_def)

lemma keeps_then:
  "(\<And>s. m = Done s \<Longrightarrow> keeps P (k s)) \<Longrightarrow> keeps P (andThen m k)"
  by (cases m) (auto simp: keeps_def)

lemmas keeps_intros = keeps_exit keeps_if keeps_option keeps_prod keeps_sum

section \<open>Data\<close>

datatype chan_type =
    SSH_CHANNEL_X11_LISTENER
  | SSH_CHANNEL_PORT_LISTENER
  | SSH_CHANNEL_OPENING
  | SSH_CHANNEL_OPEN
  | SSH_CHANNEL_CLOSED
  | SSH_CHANNEL_AUTH_SOCKET
  | SSH_CHANNEL_X11_OPEN
  | SSH_CHANNEL_LARVAL
  | SSH_CHANNEL_RPORT_LISTENER
  | SSH_CHANNEL_CONNECTING
  | SSH_CHANNEL_DYNAMIC
  | SSH_CHANNEL_ZOMBIE
  | SSH_CHANNEL_MUX_LISTENER
  | SSH_CHANNEL_MUX_CLIENT
  | SSH_CHANNEL_ABANDONED
  | SSH_CHANNEL_UNIX_LISTENER
  | SSH_CHANNEL_RUNIX_LISTENER
  | SSH_CHANNEL_MUX_PROXY
  | SSH_CHANNEL_RDYNAMIC_OPEN
  | SSH_CHANNEL_RDYNAMIC_FINISH

datatype istate =
    CHAN_INPUT_OPEN
  | CHAN_INPUT_WAIT_DRAIN
  | CHAN_INPUT_WAIT_OCLOSE
  | CHAN_INPUT_CLOSED

datatype ostate =
    CHAN_OUTPUT_OPEN
  | CHAN_OUTPUT_WAIT_DRAIN
  | CHAN_OUTPUT_WAIT_IEOF
  | CHAN_OUTPUT_CLOSED

datatype extusage = CHAN_EXTENDED_IGNORE | CHAN_EXTENDED_READ | CHAN_EXTENDED_WRITE

abbreviation CHAN_CLOSE_SENT :: u32 where "CHAN_CLOSE_SENT \<equiv> 0x01"
abbreviation CHAN_CLOSE_RCVD :: u32 where "CHAN_CLOSE_RCVD \<equiv> 0x02"
abbreviation CHAN_EOF_SENT :: u32 where "CHAN_EOF_SENT \<equiv> 0x04"
abbreviation CHAN_EOF_RCVD :: u32 where "CHAN_EOF_RCVD \<equiv> 0x08"
abbreviation CHAN_LOCAL :: u32 where "CHAN_LOCAL \<equiv> 0x10"

abbreviation SSH_CHAN_IO_RFD :: u32 where "SSH_CHAN_IO_RFD \<equiv> 0x01"
abbreviation SSH_CHAN_IO_WFD :: u32 where "SSH_CHAN_IO_WFD \<equiv> 0x02"
abbreviation SSH_CHAN_IO_EFD_R :: u32 where "SSH_CHAN_IO_EFD_R \<equiv> 0x04"
abbreviation SSH_CHAN_IO_EFD_W :: u32 where "SSH_CHAN_IO_EFD_W \<equiv> 0x08"
abbreviation SSH_CHAN_IO_EFD :: u32 where "SSH_CHAN_IO_EFD \<equiv> SSH_CHAN_IO_EFD_R OR SSH_CHAN_IO_EFD_W"
abbreviation SSH_CHAN_IO_SOCK_R :: u32 where "SSH_CHAN_IO_SOCK_R \<equiv> 0x10"
abbreviation SSH_CHAN_IO_SOCK_W :: u32 where "SSH_CHAN_IO_SOCK_W \<equiv> 0x20"
abbreviation SSH_CHAN_IO_SOCK :: u32 where
  "SSH_CHAN_IO_SOCK \<equiv> SSH_CHAN_IO_SOCK_R OR SSH_CHAN_IO_SOCK_W"

abbreviation CHAN_TCP_PACKET_DEFAULT :: u32 where "CHAN_TCP_PACKET_DEFAULT \<equiv> 32768"
abbreviation CHAN_TCP_WINDOW_DEFAULT :: u32 where "CHAN_TCP_WINDOW_DEFAULT \<equiv> 2097152"
abbreviation CHAN_INPUT_MAX :: size_t where "CHAN_INPUT_MAX \<equiv> 16777216"
abbreviation CHAN_RBUF :: size_t where "CHAN_RBUF \<equiv> 16384"
abbreviation CHANNELS_MAX_CHANNELS :: nat where "CHANNELS_MAX_CHANNELS \<equiv> 16384"
abbreviation PORT_STREAMLOCAL :: int where "PORT_STREAMLOCAL \<equiv> -2"

text \<open>Function pointers are opaque numbers: what they call is not part of the channel layer.\<close>

type_synonym callback = nat

text \<open>What \<open>getaddrinfo\<close> returns, entry by entry; the address itself is opaque.\<close>

datatype ai_fam = AF_UNIX | AF_INET | AF_INET6 | AF_OTHER

record addrinfo =
  ai_family :: ai_fam
  ai_addr :: string
  ai_port :: int

record channel_connect =
  cc_host :: "string option"
  cc_port :: int
  cc_ai :: "addrinfo list"

record channel =
  c_type :: chan_type
  c_self :: nat
  c_remote_id :: u32
  c_have_remote_id :: bool
  c_istate :: istate
  c_ostate :: ostate
  c_flags :: u32
  c_rfd :: int
  c_wfd :: int
  c_efd :: int
  c_sock :: int
  c_io_want :: u32
  c_io_ready :: u32
  c_pfds :: "int list"
  c_ctl_chan :: int
  c_isatty :: bool
  c_force_drain :: bool
  c_notbefore :: int
  c_delayed :: bool
  c_restore_block :: u32
  c_restore_flags :: "int list"
  c_input :: sshbuf
  c_output :: sshbuf
  c_extended :: sshbuf
  c_path :: "string option"
  c_listening_port :: int
  c_listening_addr :: "string option"
  c_host_port :: int
  c_remote_name :: string
  c_remote_window :: u32
  c_remote_maxpacket :: u32
  c_local_window :: u32
  c_local_window_max :: u32
  c_local_consumed :: u32
  c_local_maxpacket :: u32
  c_extended_usage :: extusage
  c_ctype :: string
  c_xctype :: "string option"
  c_open_confirm :: "callback option"
  c_detach_user :: "callback option"
  c_detach_close :: bool
  c_status_confirms :: "(callback \<times> callback option) list"
  c_input_filter :: "callback option"
  c_output_filter :: "callback option"
  c_filter_ctx :: "nat option"
  c_filter_cleanup :: "callback option"
  c_datagram :: bool
  c_connect_ctx :: channel_connect
  c_mux_ctx :: "nat option"
  c_mux_pause :: bool
  c_mux_downstream_id :: u32
  c_lastused :: int
  c_inactive_deadline :: u32
  c_single_connection :: bool
  c_mux_rcb :: "callback option"


record permission =
  p_host_to_connect :: "string option"
  p_port_to_connect :: int
  p_listen_host :: "string option"
  p_listen_path :: "string option"
  p_listen_port :: int
  p_downstream :: "nat option"

text \<open>The counts \<open>num_permitted_*\<close> are the lengths of the two lists.\<close>

record permission_set =
  ps_permitted_user :: "permission list"
  ps_permitted_admin :: "permission list"
  ps_all_permitted :: bool

datatype field = PUT_U8 u8 | PUT_U32 u32 | PUT_CSTRING string | PUT_STRING "u8 list" | PUT_RAW "u8 list"

text \<open>
  A packet is its message number and what \<open>sshpkt_put_*\<close> appended to it, in order, between
  \<open>sshpkt_start\<close> and \<open>sshpkt_send\<close>.
\<close>

datatype packet = Packet nat "field list"

text \<open>
  What the program does to the outside, in order. \<open>Run_child\<close> is a forked child: the command it runs
  (none is the user's shell), the kind of subsystem, and whether it has a terminal.
\<close>

datatype eff =
    Send packet
  | Send_debug string
  | Close_fd int
  | Shutdown_wr int
  | Shutdown_rd int
  | Restore_flags int int
  | Abandon callback nat
  | Filter_cleanup callback nat
  | Detach callback nat bool
  | Open_confirm callback nat bool
  | Status_confirm callback nat nat
  | Run_child "string option" nat bool

record ssh =
  s_channels :: "channel option list"
  s_local_perms :: permission_set
  s_remote_perms :: permission_set
  s_timeouts :: "(string \<times> u32) list"
  s_IPv4or6 :: int
  s_compat :: u32
  s_effects :: "eff list"

text \<open>
  What the layer calls and does not define: the allocator, whether the transport accepts a packet
  (\<open>sshpkt_start\<close> to \<open>sshpkt_send\<close> all returning 0), the clock, and the descriptor flags
  (\<open>isatty\<close> and \<open>fcntl(fd, F_GETFL)\<close>, \<open>-1\<close> its failure), the terminals in canonical mode without
  echo (\<open>tcgetattr\<close>), the random words \<open>arc4random\<close> returns, and the filters other parts of the
  program register on a channel: an input filter takes the bytes read and may stop (\<open>None\<close> for its
  \<open>-1\<close>), an output filter names the bytes to write (\<open>None\<close> for its \<open>NULL\<close>).
\<close>

record env =
  e_alc :: "size_t \<Rightarrow> ptr"
  e_pkt_ok :: "packet \<Rightarrow> bool"
  e_monotime :: int
  e_isatty :: "int \<Rightarrow> bool"
  e_getfl :: "int \<Rightarrow> int"
  e_nonblocking :: "int \<Rightarrow> bool"
  e_hidden_tty :: "int \<Rightarrow> bool"
  e_arc4random :: "nat \<Rightarrow> u32"
  e_in_filter :: "callback \<Rightarrow> u8 list \<Rightarrow> channel \<times> eff list \<Rightarrow> (channel \<times> eff list) option"
  e_out_filter :: "callback \<Rightarrow> channel \<times> eff list \<Rightarrow> u8 list option \<times> (channel \<times> eff list)"

definition emit :: "eff \<Rightarrow> ssh \<Rightarrow> ssh" where
  "emit x ssh = ssh\<lparr>s_effects := s_effects ssh @ [x]\<rparr>"

text \<open>The \<open>sshpkt_start ... sshpkt_send\<close> chain whose failure is \<open>fatal\<close>.\<close>

definition send_pkt :: "env \<Rightarrow> packet \<Rightarrow> 'a \<times> eff list \<Rightarrow> ('a \<times> eff list) run" where
  "send_pkt e p st = (if e_pkt_ok e p then Done (fst st, snd st @ [Send p]) else Fatal)"

abbreviation SSH2_MSG_IGNORE :: nat where "SSH2_MSG_IGNORE \<equiv> 2"

text \<open>A packet the peer ignores: its size and that many random bytes, four to a random word.\<close>

definition sshpkt_msg_ignore :: "env \<Rightarrow> u32 \<Rightarrow> packet" where
  "sshpkt_msg_ignore e nbytes = Packet SSH2_MSG_IGNORE
     (PUT_U32 nbytes # map (\<lambda>i. PUT_U8 (ucast (drop_bit (8 * (i mod 4)) (e_arc4random e (i div 4)))))
        [0..<unat nbytes])"

abbreviation SSH2_MSG_GLOBAL_REQUEST :: nat where "SSH2_MSG_GLOBAL_REQUEST \<equiv> 80"
abbreviation SSH2_MSG_CHANNEL_OPEN :: nat where "SSH2_MSG_CHANNEL_OPEN \<equiv> 90"
abbreviation SSH2_MSG_CHANNEL_OPEN_CONFIRMATION :: nat where
  "SSH2_MSG_CHANNEL_OPEN_CONFIRMATION \<equiv> 91"
abbreviation SSH2_MSG_CHANNEL_OPEN_FAILURE :: nat where "SSH2_MSG_CHANNEL_OPEN_FAILURE \<equiv> 92"
abbreviation SSH2_MSG_CHANNEL_WINDOW_ADJUST :: nat where "SSH2_MSG_CHANNEL_WINDOW_ADJUST \<equiv> 93"
abbreviation SSH2_MSG_CHANNEL_DATA :: nat where "SSH2_MSG_CHANNEL_DATA \<equiv> 94"
abbreviation SSH2_MSG_CHANNEL_EXTENDED_DATA :: nat where "SSH2_MSG_CHANNEL_EXTENDED_DATA \<equiv> 95"
abbreviation SSH2_MSG_CHANNEL_EOF :: nat where "SSH2_MSG_CHANNEL_EOF \<equiv> 96"
abbreviation SSH2_MSG_CHANNEL_CLOSE :: nat where "SSH2_MSG_CHANNEL_CLOSE \<equiv> 97"
abbreviation SSH2_MSG_CHANNEL_REQUEST :: nat where "SSH2_MSG_CHANNEL_REQUEST \<equiv> 98"
abbreviation SSH2_MSG_CHANNEL_SUCCESS :: nat where "SSH2_MSG_CHANNEL_SUCCESS \<equiv> 99"
abbreviation SSH2_MSG_CHANNEL_FAILURE :: nat where "SSH2_MSG_CHANNEL_FAILURE \<equiv> 100"
abbreviation SSH2_EXTENDED_DATA_STDERR :: u32 where "SSH2_EXTENDED_DATA_STDERR \<equiv> 1"

abbreviation SSH_BUG_EXTEOF :: u32 where "SSH_BUG_EXTEOF \<equiv> 0x00200000"
abbreviation SSH_OLD_FORWARD_ADDR :: u32 where "SSH_OLD_FORWARD_ADDR \<equiv> 0x01000000"
abbreviation SSH_NEW_OPENSSH :: u32 where "SSH_NEW_OPENSSH \<equiv> 0x04000000"
abbreviation SSH_BUG_DYNAMIC_RPORT :: u32 where "SSH_BUG_DYNAMIC_RPORT \<equiv> 0x08000000"

section \<open>The channel table\<close>

definition empty_set_perms :: permission_set where
  "empty_set_perms = \<lparr>ps_permitted_user = [], ps_permitted_admin = [], ps_all_permitted = False\<rparr>"

definition channel_init_channels :: "u32 \<Rightarrow> ssh" where
  "channel_init_channels compat_bits =
     \<lparr>s_channels = replicate 10 None, s_local_perms = empty_set_perms,
      s_remote_perms = empty_set_perms, s_timeouts = [], s_IPv4or6 = 0,
      s_compat = compat_bits, s_effects = []\<rparr>"

definition channel_by_id :: "ssh \<Rightarrow> int \<Rightarrow> channel option" where
  "channel_by_id ssh chid =
     (if chid < 0 \<or> nat chid \<ge> length (s_channels ssh) then None else s_channels ssh ! nat chid)"

definition channel_by_remote_id :: "ssh \<Rightarrow> u32 \<Rightarrow> channel option" where
  "channel_by_remote_id ssh remote_id =
     (case List.find (\<lambda>x. case x of None \<Rightarrow> False
                       | Some c \<Rightarrow> c_have_remote_id c \<and> c_remote_id c = remote_id)
             (s_channels ssh) of
        None \<Rightarrow> None | Some x \<Rightarrow> x)"

definition channel_lookup :: "ssh \<Rightarrow> int \<Rightarrow> channel option" where
  "channel_lookup ssh chid =
     (case channel_by_id ssh chid of
        None \<Rightarrow> None
      | Some c \<Rightarrow>
        if c_type c \<in> {SSH_CHANNEL_X11_OPEN, SSH_CHANNEL_LARVAL, SSH_CHANNEL_CONNECTING,
             SSH_CHANNEL_DYNAMIC, SSH_CHANNEL_RDYNAMIC_OPEN, SSH_CHANNEL_RDYNAMIC_FINISH,
             SSH_CHANNEL_OPENING, SSH_CHANNEL_OPEN, SSH_CHANNEL_ABANDONED,
             SSH_CHANNEL_MUX_PROXY}
        then Some c else None)"

definition channel_add_timeout :: "ssh \<Rightarrow> string \<Rightarrow> u32 \<Rightarrow> ssh" where
  "channel_add_timeout ssh type_pattern timeout_secs =
     ssh\<lparr>s_timeouts := s_timeouts ssh @ [(type_pattern, timeout_secs)]\<rparr>"

definition channel_clear_timeouts :: "ssh \<Rightarrow> ssh" where
  "channel_clear_timeouts ssh = ssh\<lparr>s_timeouts := []\<rparr>"

definition lookup_timeout :: "ssh \<Rightarrow> string \<Rightarrow> u32" where
  "lookup_timeout ssh type =
     (case List.find (\<lambda>(pat, secs). match_pattern type pat) (s_timeouts ssh) of
        Some (pat, secs) \<Rightarrow> secs | None \<Rightarrow> 0)"

definition set_slot :: "nat \<Rightarrow> channel option \<Rightarrow> ssh \<Rightarrow> ssh" where
  "set_slot i x ssh = ssh\<lparr>s_channels := (s_channels ssh)[i := x]\<rparr>"

definition channel_set_xtype :: "ssh \<Rightarrow> int \<Rightarrow> string \<Rightarrow> ssh run" where
  "channel_set_xtype ssh chid xctype =
     (case channel_by_id ssh chid of
        None \<Rightarrow> Fatal
      | Some c \<Rightarrow>
        Done (set_slot (nat chid)
          (Some (c\<lparr>c_xctype := Some xctype, c_inactive_deadline := lookup_timeout ssh xctype\<rparr>)) ssh))"

datatype nonblock = CHANNEL_NONBLOCK_LEAVE | CHANNEL_NONBLOCK_SET | CHANNEL_NONBLOCK_STDIO

text \<open>
  Under \<open>CHANNEL_NONBLOCK_STDIO\<close> a descriptor that is no terminal and was blocking has its flags
  saved in slot \<open>k\<close>, with bit \<open>m\<close> of the mask set, to be restored when it is closed.
\<close>

definition save_flags :: "env \<Rightarrow> nat \<Rightarrow> u32 \<Rightarrow> int \<Rightarrow> channel \<Rightarrow> channel" where
  "save_flags e k m fd c =
     (if fd \<noteq> -1 \<and> \<not> e_isatty e fd \<and> e_getfl e fd \<noteq> -1 \<and> \<not> e_nonblocking e (e_getfl e fd)
      then c\<lparr>c_restore_flags := (c_restore_flags c)[k := e_getfl e fd],
             c_restore_block := c_restore_block c OR m\<rparr>
      else c)"

definition channel_register_fds ::
    "env \<Rightarrow> channel \<Rightarrow> int \<Rightarrow> int \<Rightarrow> int \<Rightarrow> extusage \<Rightarrow> nonblock \<Rightarrow> bool \<Rightarrow> channel" where
  "channel_register_fds e c rfd wfd efd extusage nonblock is_tty =
     (let c1 = c\<lparr>c_rfd := rfd, c_wfd := wfd, c_sock := (if rfd = wfd then rfd else -1),
                 c_efd := efd, c_extended_usage := extusage, c_isatty := is_tty,
                 c_restore_block := 0\<rparr>
      in if nonblock = CHANNEL_NONBLOCK_STDIO
         then save_flags e 2 0x04 efd (save_flags e 1 0x02 wfd (save_flags e 0 0x01 rfd c1))
         else c1)"

text \<open>
  The slot of a new channel: the first free one, else the end of the table, which grows by ten.
  The test before growing is strict, so the table may pass the limit once.
\<close>

definition free_slot :: "channel option list \<Rightarrow> nat" where
  "free_slot cs = length (takeWhile (\<lambda>x. x \<noteq> None) cs)"

definition blank_channel :: "sshbuf \<Rightarrow> sshbuf \<Rightarrow> sshbuf \<Rightarrow> channel" where
  "blank_channel inp outp ext =
     \<lparr>c_type = SSH_CHANNEL_ZOMBIE, c_self = 0, c_remote_id = 0, c_have_remote_id = False,
      c_istate = CHAN_INPUT_OPEN, c_ostate = CHAN_OUTPUT_OPEN, c_flags = 0,
      c_rfd = 0, c_wfd = 0, c_efd = 0, c_sock = 0, c_io_want = 0, c_io_ready = 0,
      c_pfds = [0, 0, 0, 0], c_ctl_chan = 0, c_isatty = False, c_force_drain = False,
      c_notbefore = 0, c_delayed = False, c_restore_block = 0, c_restore_flags = [0, 0, 0],
      c_input = inp, c_output = outp, c_extended = ext, c_path = None, c_listening_port = 0,
      c_listening_addr = None, c_host_port = 0, c_remote_name = [], c_remote_window = 0,
      c_remote_maxpacket = 0, c_local_window = 0, c_local_window_max = 0, c_local_consumed = 0,
      c_local_maxpacket = 0, c_extended_usage = CHAN_EXTENDED_IGNORE, c_ctype = [],
      c_xctype = None, c_open_confirm = None, c_detach_user = None, c_detach_close = False,
      c_status_confirms = [], c_input_filter = None, c_output_filter = None, c_filter_ctx = None,
      c_filter_cleanup = None, c_datagram = False,
      c_connect_ctx = \<lparr>cc_host = None, cc_port = 0, cc_ai = []\<rparr>, c_mux_ctx = None, c_mux_pause = False,
      c_mux_downstream_id = 0, c_lastused = 0, c_inactive_deadline = 0, c_single_connection = False,
      c_mux_rcb = None\<rparr>"

text \<open>
  The new channel's index is the result; the channel is in its slot. \<open>blank_channel\<close> is the zeroed
  structure: its type and index are set before anyone sees it. The close-on-exec and non-blocking
  flags the code sets on the descriptors are outside the model.
\<close>

definition channel_new ::
    "env \<Rightarrow> ssh \<Rightarrow> string \<Rightarrow> chan_type \<Rightarrow> int \<Rightarrow> int \<Rightarrow> int \<Rightarrow> u32 \<Rightarrow> u32 \<Rightarrow> extusage \<Rightarrow> string \<Rightarrow>
     nonblock \<Rightarrow> (nat \<times> ssh) run" where
  "channel_new e ssh ctype type rfd wfd efd window maxpack extusage remote_name nonblock =
     (let cs = s_channels ssh; found = free_slot cs in
      if found \<ge> length cs \<and> length cs > CHANNELS_MAX_CHANNELS then Fatal
      else
        let cs1 = (if found \<ge> length cs then cs @ replicate 10 None else cs) in
        case (sshbuf_new (e_alc e), sshbuf_new (e_alc e), sshbuf_new (e_alc e)) of
          (Some inp, Some outp, Some ext) \<Rightarrow>
            (case sshbuf_set_max_size (e_alc e) inp CHAN_INPUT_MAX of
               (Inl r, _) \<Rightarrow> Fatal
             | (Inr _, inp1) \<Rightarrow>
               let c = channel_register_fds e (blank_channel inp1 outp ext) rfd wfd efd extusage
                         nonblock False;
                   c1 = c\<lparr>c_self := found, c_type := type, c_ctype := ctype,
                          c_local_window := window, c_local_window_max := window,
                          c_local_maxpacket := maxpack, c_remote_name := remote_name,
                          c_ctl_chan := -1, c_delayed := True,
                          c_inactive_deadline := lookup_timeout ssh ctype\<rparr>
               in Done (found, ssh\<lparr>s_channels := cs1[found := Some c1]\<rparr>))
        | _ \<Rightarrow> Fatal)"

section \<open>Closing descriptors\<close>

text \<open>
  \<open>channel_close_fd\<close> takes the address of one of the channel's descriptor fields; \<open>fd\<close> is that
  field's value. Every field that holds the descriptor is cleared, so it is closed once.
\<close>

definition channel_close_fd :: "channel \<times> eff list \<Rightarrow> int \<Rightarrow> channel \<times> eff list" where
  "channel_close_fd st fd =
     (let c = fst st in
      if fd = -1 then st
      else
        let restore = (if fd = c_rfd c \<and> c_restore_block c AND 0x01 \<noteq> 0
                       then [Restore_flags fd (c_restore_flags c ! 0)]
                       else if fd = c_wfd c \<and> c_restore_block c AND 0x02 \<noteq> 0
                       then [Restore_flags fd (c_restore_flags c ! 1)]
                       else if fd = c_efd c \<and> c_restore_block c AND 0x04 \<noteq> 0
                       then [Restore_flags fd (c_restore_flags c ! 2)]
                       else []);
            c1 = (if fd = c_rfd c
                  then c\<lparr>c_io_want := c_io_want c AND NOT SSH_CHAN_IO_RFD,
                         c_io_ready := c_io_ready c AND NOT SSH_CHAN_IO_RFD,
                         c_rfd := -1, c_pfds := (c_pfds c)[0 := -1]\<rparr> else c);
            c2 = (if fd = c_wfd c1
                  then c1\<lparr>c_io_want := c_io_want c1 AND NOT SSH_CHAN_IO_WFD,
                          c_io_ready := c_io_ready c1 AND NOT SSH_CHAN_IO_WFD,
                          c_wfd := -1, c_pfds := (c_pfds c1)[1 := -1]\<rparr> else c1);
            c3 = (if fd = c_efd c2
                  then c2\<lparr>c_io_want := c_io_want c2 AND NOT SSH_CHAN_IO_EFD,
                          c_io_ready := c_io_ready c2 AND NOT SSH_CHAN_IO_EFD,
                          c_efd := -1, c_pfds := (c_pfds c2)[2 := -1]\<rparr> else c2);
            c4 = (if fd = c_sock c3
                  then c3\<lparr>c_io_want := c_io_want c3 AND NOT SSH_CHAN_IO_SOCK,
                          c_io_ready := c_io_ready c3 AND NOT SSH_CHAN_IO_SOCK,
                          c_sock := -1, c_pfds := (c_pfds c3)[3 := -1]\<rparr> else c3)
        in (c4, snd st @ restore @ [Close_fd fd]))"

definition channel_close_fds :: "channel \<times> eff list \<Rightarrow> channel \<times> eff list" where
  "channel_close_fds st =
     (let c = fst st; sock = c_sock c; rfd = c_rfd c; wfd = c_wfd c; efd = c_efd c;
          s1 = channel_close_fd st sock;
          s2 = (if rfd \<noteq> sock then channel_close_fd s1 (c_rfd (fst s1)) else s1);
          s3 = (if wfd \<noteq> sock \<and> wfd \<noteq> rfd then channel_close_fd s2 (c_wfd (fst s2)) else s2);
          s4 = (if efd \<noteq> sock \<and> efd \<noteq> rfd \<and> efd \<noteq> wfd
                then channel_close_fd s3 (c_efd (fst s3)) else s3)
      in s4)"

subsection \<open>Every descriptor of a channel is closed exactly once\<close>

lemma close_fd_frame [frame_simps]:
  "c_self (fst (channel_close_fd st fd)) = c_self (fst st)"
  "c_type (fst (channel_close_fd st fd)) = c_type (fst st)"
  "c_istate (fst (channel_close_fd st fd)) = c_istate (fst st)"
  "c_ostate (fst (channel_close_fd st fd)) = c_ostate (fst st)"
  "c_flags (fst (channel_close_fd st fd)) = c_flags (fst st)"
  "c_mux_ctx (fst (channel_close_fd st fd)) = c_mux_ctx (fst st)"
  "c_input (fst (channel_close_fd st fd)) = c_input (fst st)"
  "c_output (fst (channel_close_fd st fd)) = c_output (fst st)"
  "c_extended (fst (channel_close_fd st fd)) = c_extended (fst st)"
  "c_have_remote_id (fst (channel_close_fd st fd)) = c_have_remote_id (fst st)"
  "c_remote_id (fst (channel_close_fd st fd)) = c_remote_id (fst st)"
  "c_extended_usage (fst (channel_close_fd st fd)) = c_extended_usage (fst st)"
  by (simp_all add: channel_close_fd_def Let_def)

lemma close_fd_fds:
  "c_rfd (fst (channel_close_fd st fd)) = (if c_rfd (fst st) = fd then -1 else c_rfd (fst st))"
  "c_wfd (fst (channel_close_fd st fd)) = (if c_wfd (fst st) = fd then -1 else c_wfd (fst st))"
  "c_efd (fst (channel_close_fd st fd)) = (if c_efd (fst st) = fd then -1 else c_efd (fst st))"
  "c_sock (fst (channel_close_fd st fd)) = (if c_sock (fst st) = fd then -1 else c_sock (fst st))"
  by (simp_all add: channel_close_fd_def Let_def)

fun closed_by :: "eff list \<Rightarrow> int list" where
  "closed_by [] = []"
| "closed_by (Close_fd fd # xs) = fd # closed_by xs"
| "closed_by (_ # xs) = closed_by xs"

lemma closed_by_append [simp]: "closed_by (xs @ ys) = closed_by xs @ closed_by ys"
  by (induction xs rule: closed_by.induct) auto

lemma close_fd_closed:
  "closed_by (snd (channel_close_fd st fd)) = closed_by (snd st) @ (if fd = -1 then [] else [fd])"
  by (simp add: channel_close_fd_def Let_def)

definition open_fds :: "channel \<Rightarrow> int set" where
  "open_fds c = {c_rfd c, c_wfd c, c_efd c, c_sock c} - {-1}"




definition close_if :: "bool \<Rightarrow> int \<Rightarrow> channel \<times> eff list \<Rightarrow> channel \<times> eff list" where
  "close_if b fd st = (if b then channel_close_fd st fd else st)"

lemma close_if_fds:
  "c_rfd (fst (close_if b fd st)) = (if b \<and> c_rfd (fst st) = fd then -1 else c_rfd (fst st))"
  "c_wfd (fst (close_if b fd st)) = (if b \<and> c_wfd (fst st) = fd then -1 else c_wfd (fst st))"
  "c_efd (fst (close_if b fd st)) = (if b \<and> c_efd (fst st) = fd then -1 else c_efd (fst st))"
  "c_sock (fst (close_if b fd st)) = (if b \<and> c_sock (fst st) = fd then -1 else c_sock (fst st))"
  "closed_by (snd (close_if b fd st)) = closed_by (snd st) @ (if b \<and> fd \<noteq> -1 then [fd] else [])"
  by (simp_all add: close_if_def close_fd_fds close_fd_closed)

lemma close_fds_steps:
  assumes "sock = c_sock c" "rfd = c_rfd c" "wfd = c_wfd c" "efd = c_efd c"
  shows "channel_close_fds (c, fx) =
     close_if (efd \<noteq> sock \<and> efd \<noteq> rfd \<and> efd \<noteq> wfd) efd
       (close_if (wfd \<noteq> sock \<and> wfd \<noteq> rfd) wfd
         (close_if (rfd \<noteq> sock) rfd (close_if True sock (c, fx))))"
proof -
  define s1 where "s1 = channel_close_fd (c, fx) sock"
  define s2 where "s2 = close_if (rfd \<noteq> sock) rfd s1"
  define s3 where "s3 = close_if (wfd \<noteq> sock \<and> wfd \<noteq> rfd) wfd s2"
  have 1: "rfd \<noteq> sock \<Longrightarrow> c_rfd (fst s1) = rfd" by (simp add: s1_def close_fd_fds assms)
  have 2: "wfd \<noteq> sock \<and> wfd \<noteq> rfd \<Longrightarrow> c_wfd (fst s2) = wfd"
    by (simp add: s2_def s1_def close_fd_fds close_if_fds assms)
  have 3: "efd \<noteq> sock \<and> efd \<noteq> rfd \<and> efd \<noteq> wfd \<Longrightarrow> c_efd (fst s3) = efd"
    by (simp add: s3_def s2_def s1_def close_fd_fds close_if_fds assms)
  have a: "(if rfd \<noteq> sock then channel_close_fd s1 (c_rfd (fst s1)) else s1) = s2"
    unfolding s2_def close_if_def using 1 by simp
  have b: "(if wfd \<noteq> sock \<and> wfd \<noteq> rfd then channel_close_fd s2 (c_wfd (fst s2)) else s2) = s3"
    unfolding s3_def close_if_def using 2 by simp
  have c: "(if efd \<noteq> sock \<and> efd \<noteq> rfd \<and> efd \<noteq> wfd then channel_close_fd s3 (c_efd (fst s3)) else s3) =
      close_if (efd \<noteq> sock \<and> efd \<noteq> rfd \<and> efd \<noteq> wfd) efd s3"
    unfolding close_if_def using 3 by simp
  have "channel_close_fds (c, fx) = close_if (efd \<noteq> sock \<and> efd \<noteq> rfd \<and> efd \<noteq> wfd) efd s3"
    unfolding channel_close_fds_def Let_def fst_conv assms[symmetric] s1_def[symmetric] a b c ..
  then show ?thesis by (simp only: s3_def s2_def s1_def close_if_def if_True)
qed

lemma close_fds_once:
  "\<exists>ds. closed_by (snd (channel_close_fds (c, fx))) = closed_by fx @ ds \<and> distinct ds \<and>
        set ds = open_fds c"
  unfolding close_fds_steps[OF refl refl refl refl] close_if_fds append_assoc snd_conv
  by (intro exI conjI, rule refl) (auto simp: open_fds_def)

lemma close_fds_open_fds: "open_fds (fst (channel_close_fds (c, fx))) = {}"
  unfolding close_fds_steps[OF refl refl refl refl] open_fds_def close_if_fds fst_conv by auto

end
