(* ===== verification/ChanTable.thy ===== *)
theory ChanTable
  imports Channel
begin

text \<open>
  Operations on the whole table: the permission sets, the release of a channel with the references
  other channels and permissions keep to it, the loops over all channels, and the registration
  calls. The invariant says that a channel sits in the slot its \<open>self\<close> names and that no
  reference to a multiplexing client dangles.
\<close>

section \<open>Permission sets\<close>

datatype fwd_who = FORWARD_ADM | FORWARD_USER
datatype fwd_where = FORWARD_REMOTE | FORWARD_LOCAL

definition fwd_perm_clear :: permission where
  "fwd_perm_clear =
     \<lparr>p_host_to_connect = None, p_port_to_connect = 0, p_listen_host = None,
      p_listen_path = None, p_listen_port = 0, p_downstream = None\<rparr>"

fun permission_set_get :: "ssh \<Rightarrow> fwd_where \<Rightarrow> permission_set" where
  "permission_set_get ssh FORWARD_LOCAL = s_local_perms ssh"
| "permission_set_get ssh FORWARD_REMOTE = s_remote_perms ssh"

fun permission_set_put :: "ssh \<Rightarrow> fwd_where \<Rightarrow> permission_set \<Rightarrow> ssh" where
  "permission_set_put ssh FORWARD_LOCAL ps = ssh\<lparr>s_local_perms := ps\<rparr>"
| "permission_set_put ssh FORWARD_REMOTE ps = ssh\<lparr>s_remote_perms := ps\<rparr>"

fun permission_set_get_array :: "permission_set \<Rightarrow> fwd_who \<Rightarrow> permission list" where
  "permission_set_get_array ps FORWARD_USER = ps_permitted_user ps"
| "permission_set_get_array ps FORWARD_ADM = ps_permitted_admin ps"

fun permission_set_put_array ::
    "permission_set \<Rightarrow> fwd_who \<Rightarrow> permission list \<Rightarrow> permission_set" where
  "permission_set_put_array ps FORWARD_USER xs = ps\<lparr>ps_permitted_user := xs\<rparr>"
| "permission_set_put_array ps FORWARD_ADM xs = ps\<lparr>ps_permitted_admin := xs\<rparr>"

definition permission_set_add ::
    "ssh \<Rightarrow> fwd_who \<Rightarrow> fwd_where \<Rightarrow> string option \<Rightarrow> int \<Rightarrow> string option \<Rightarrow> string option \<Rightarrow> int \<Rightarrow>
     nat option \<Rightarrow> (nat \<times> ssh) run" where
  "permission_set_add ssh who whr host_to_connect port_to_connect listen_host listen_path
      listen_port downstream =
     (let ps = permission_set_get ssh whr; xs = permission_set_get_array ps who in
      if length xs \<ge> 2147483647 then Fatal
      else Done (length xs,
        permission_set_put ssh whr (permission_set_put_array ps who
          (xs @ [\<lparr>p_host_to_connect = host_to_connect, p_port_to_connect = port_to_connect,
                  p_listen_host = listen_host, p_listen_path = listen_path,
                  p_listen_port = listen_port, p_downstream = downstream\<rparr>]))))"

definition channel_rfwd_bind_host :: "string option \<Rightarrow> string" where
  "channel_rfwd_bind_host listen_host =
     (case listen_host of
        None \<Rightarrow> ''localhost''
      | Some h \<Rightarrow> if h = [] \<or> h = ''*'' then [] else h)"

text \<open>The values of C's \<open>int\<close> and \<open>u_short\<close> that reach \<open>sshpkt_put_u32\<close> are converted.\<close>

fun mux_remove_loop :: "env \<Rightarrow> nat \<Rightarrow> permission list \<Rightarrow> (permission list \<times> eff list) run" where
  "mux_remove_loop e c [] = Done ([], [])"
| "mux_remove_loop e c (perm # ps) =
     (if p_downstream perm \<noteq> Some c
      then andThen (mux_remove_loop e c ps) (\<lambda>(qs, fx). Done (perm # qs, fx))
      else
        let p = Packet SSH2_MSG_GLOBAL_REQUEST
                  [PUT_CSTRING ''cancel-tcpip-forward'', PUT_U8 0,
                   PUT_CSTRING (channel_rfwd_bind_host (p_listen_host perm)),
                   PUT_U32 (word_of_int (p_listen_port perm))]
        in if \<not> e_pkt_ok e p then Fatal
           else andThen (mux_remove_loop e c ps)
                  (\<lambda>(qs, fx). Done (fwd_perm_clear # qs, Send p # fx)))"

definition mux_remove_remote_forwardings :: "env \<Rightarrow> ssh \<Rightarrow> nat \<Rightarrow> ssh run" where
  "mux_remove_remote_forwardings e ssh c =
     andThen (mux_remove_loop e c (ps_permitted_user (s_local_perms ssh)))
       (\<lambda>(ps, fx). Done (ssh\<lparr>s_local_perms := (s_local_perms ssh)\<lparr>ps_permitted_user := ps\<rparr>,
                             s_effects := s_effects ssh @ fx\<rparr>))"

section \<open>Releasing a channel\<close>

text \<open>Proxies of a leaving multiplexing client are cut off and set up for closing.\<close>

definition detach_proxy :: "nat \<Rightarrow> channel \<Rightarrow> channel" where
  "detach_proxy ci other =
     (if c_type other = SSH_CHANNEL_MUX_PROXY \<and> c_mux_ctx other = Some ci
      then other\<lparr>c_mux_ctx := None, c_type := SSH_CHANNEL_OPEN,
                 c_istate := CHAN_INPUT_CLOSED, c_ostate := CHAN_OUTPUT_CLOSED\<rparr>
      else other)"

definition channel_free :: "env \<Rightarrow> ssh \<Rightarrow> nat \<Rightarrow> ssh run" where
  "channel_free e ssh ci =
     (case s_channels ssh ! ci of
        None \<Rightarrow> Fatal
      | Some c \<Rightarrow>
        let ssh1 = (if c_type c = SSH_CHANNEL_MUX_CLIENT
                    then ssh\<lparr>s_channels := map (map_option (detach_proxy ci)) (s_channels ssh)\<rparr>
                    else ssh)
        in andThen (if c_type c = SSH_CHANNEL_MUX_CLIENT
                    then mux_remove_remote_forwardings e ssh1 ci else Done ssh1)
             (\<lambda>ssh2.
               let (c', fx) = channel_close_fds (c, []);
                   abandoned = List.map_filter (\<lambda>(cb, ab). map_option (\<lambda>f. Abandon f ci) ab)
                                 (c_status_confirms c);
                   cleanup = (case (c_filter_cleanup c, c_filter_ctx c) of
                                (Some f, Some ctx) \<Rightarrow> [Filter_cleanup f ci] | _ \<Rightarrow> [])
               in Done (ssh2\<lparr>s_channels := (s_channels ssh2)[ci := None],
                             s_effects := s_effects ssh2 @ fx @ abandoned @ cleanup\<rparr>)))"

text \<open>Loops over the table: \<open>for_slots f is\<close> runs \<open>f\<close> at each index of \<open>is\<close> whose slot is taken.\<close>

fun for_slots :: "(nat \<Rightarrow> channel \<Rightarrow> ssh \<Rightarrow> ssh run) \<Rightarrow> nat list \<Rightarrow> ssh \<Rightarrow> ssh run" where
  "for_slots f [] ssh = Done ssh"
| "for_slots f (i # is) ssh =
     andThen (case s_channels ssh ! i of None \<Rightarrow> Done ssh | Some c \<Rightarrow> f i c ssh) (for_slots f is)"

definition slots :: "ssh \<Rightarrow> nat list" where
  "slots ssh = [0..<length (s_channels ssh)]"

definition channel_free_all :: "env \<Rightarrow> ssh \<Rightarrow> ssh run" where
  "channel_free_all e ssh =
     andThen (for_slots (\<lambda>i c s. channel_free e s i) (slots ssh) ssh)
       (\<lambda>s. Done (s\<lparr>s_channels := []\<rparr>))"

text \<open>A per-channel operation applied to the channel of a slot.\<close>

definition on_channel ::
    "(channel \<times> eff list \<Rightarrow> (channel \<times> eff list) run) \<Rightarrow> nat \<Rightarrow> ssh \<Rightarrow> ssh run" where
  "on_channel op i ssh =
     (case s_channels ssh ! i of
        None \<Rightarrow> Fatal
      | Some c \<Rightarrow> andThen (op (c, []))
          (\<lambda>(c', fx). Done (ssh\<lparr>s_channels := (s_channels ssh)[i := Some c'],
                                s_effects := s_effects ssh @ fx\<rparr>)))"

definition channel_close_all :: "ssh \<Rightarrow> ssh run" where
  "channel_close_all ssh =
     for_slots (\<lambda>i c. on_channel (\<lambda>st. Done (channel_close_fds st)) i) (slots ssh) ssh"

definition is_listener :: "chan_type \<Rightarrow> bool" where
  "is_listener t \<longleftrightarrow> t \<in> {SSH_CHANNEL_AUTH_SOCKET, SSH_CHANNEL_PORT_LISTENER,
     SSH_CHANNEL_RPORT_LISTENER, SSH_CHANNEL_X11_LISTENER, SSH_CHANNEL_UNIX_LISTENER,
     SSH_CHANNEL_RUNIX_LISTENER}"

definition channel_stop_listening :: "env \<Rightarrow> ssh \<Rightarrow> ssh run" where
  "channel_stop_listening e ssh =
     for_slots (\<lambda>i c s.
         if is_listener (c_type c)
         then andThen (on_channel (\<lambda>st. Done (channel_close_fd st (c_sock c))) i s)
                (\<lambda>s1. channel_free e s1 i)
         else Done s)
       (slots ssh) ssh"

section \<open>Queries over all channels\<close>

definition channel_not_very_much_buffered_data :: "size_t \<Rightarrow> ssh \<Rightarrow> bool" where
  "channel_not_very_much_buffered_data maxsize ssh =
     list_all (\<lambda>x. case x of None \<Rightarrow> True
         | Some c \<Rightarrow> c_type c \<noteq> SSH_CHANNEL_OPEN \<or> \<not> sshbuf_len (c_output c) > maxsize)
       (s_channels ssh)"

fun counts_as_open :: "chan_type \<Rightarrow> bool" where
  "counts_as_open SSH_CHANNEL_OPENING = True"
| "counts_as_open SSH_CHANNEL_OPEN = True"
| "counts_as_open SSH_CHANNEL_RDYNAMIC_FINISH = True"
| "counts_as_open SSH_CHANNEL_X11_OPEN = True"
| "counts_as_open SSH_CHANNEL_MUX_CLIENT = True"
| "counts_as_open SSH_CHANNEL_MUX_PROXY = True"
| "counts_as_open _ = False"

definition channel_still_open :: "ssh \<Rightarrow> bool" where
  "channel_still_open ssh =
     list_ex (\<lambda>x. case x of None \<Rightarrow> False | Some c \<Rightarrow> counts_as_open (c_type c)) (s_channels ssh)"

definition channel_find_open :: "ssh \<Rightarrow> int" where
  "channel_find_open ssh =
     (case List.find (\<lambda>i. case s_channels ssh ! i of None \<Rightarrow> False
           | Some c \<Rightarrow> c_have_remote_id c \<and>
               c_type c \<in> {SSH_CHANNEL_LARVAL, SSH_CHANNEL_AUTH_SOCKET, SSH_CHANNEL_OPEN,
                 SSH_CHANNEL_X11_OPEN})
         (slots ssh) of
        Some i \<Rightarrow> int i | None \<Rightarrow> -1)"

section \<open>Opening and registration\<close>

definition open_preamble :: "channel \<Rightarrow> string \<Rightarrow> field list" where
  "open_preamble c type =
     [PUT_CSTRING type, PUT_U32 (word_of_nat (c_self c)), PUT_U32 (c_local_window c),
      PUT_U32 (c_local_maxpacket c)]"

definition channel_send_open :: "env \<Rightarrow> ssh \<Rightarrow> int \<Rightarrow> ssh run" where
  "channel_send_open e ssh chid =
     (case channel_lookup ssh chid of
        None \<Rightarrow> Done ssh
      | Some c \<Rightarrow>
        let p = Packet SSH2_MSG_CHANNEL_OPEN (open_preamble c (c_ctype c))
        in if e_pkt_ok e p then Done (emit (Send p) ssh) else Fatal)"

text \<open>The request is started, not sent: the result is what the packet holds so far.\<close>

definition channel_request_start :: "ssh \<Rightarrow> int \<Rightarrow> string \<Rightarrow> bool \<Rightarrow> packet option run" where
  "channel_request_start ssh chid service wantconfirm =
     (case channel_lookup ssh chid of
        None \<Rightarrow> Done None
      | Some c \<Rightarrow>
        if \<not> c_have_remote_id c then Fatal
        else Done (Some (Packet SSH2_MSG_CHANNEL_REQUEST
               [PUT_U32 (c_remote_id c), PUT_CSTRING service, PUT_U8 (if wantconfirm then 1 else 0)])))"

definition channel_register_status_confirm ::
    "ssh \<Rightarrow> int \<Rightarrow> callback \<Rightarrow> callback option \<Rightarrow> ssh run" where
  "channel_register_status_confirm ssh chid cb abandon_cb =
     (case channel_lookup ssh chid of
        None \<Rightarrow> Fatal
      | Some c \<Rightarrow> Done (set_slot (nat chid)
          (Some (c\<lparr>c_status_confirms := c_status_confirms c @ [(cb, abandon_cb)]\<rparr>)) ssh))"

definition channel_register_open_confirm :: "ssh \<Rightarrow> int \<Rightarrow> callback option \<Rightarrow> ssh" where
  "channel_register_open_confirm ssh chid fn =
     (case channel_lookup ssh chid of
        None \<Rightarrow> ssh
      | Some c \<Rightarrow> set_slot (nat chid) (Some (c\<lparr>c_open_confirm := fn\<rparr>)) ssh)"

definition channel_register_cleanup :: "ssh \<Rightarrow> int \<Rightarrow> callback option \<Rightarrow> bool \<Rightarrow> ssh" where
  "channel_register_cleanup ssh chid fn do_close =
     (case channel_by_id ssh chid of
        None \<Rightarrow> ssh
      | Some c \<Rightarrow> set_slot (nat chid)
          (Some (c\<lparr>c_detach_user := fn, c_detach_close := do_close\<rparr>)) ssh)"

definition channel_cancel_cleanup :: "ssh \<Rightarrow> int \<Rightarrow> ssh" where
  "channel_cancel_cleanup ssh chid =
     (case channel_by_id ssh chid of
        None \<Rightarrow> ssh
      | Some c \<Rightarrow> set_slot (nat chid)
          (Some (c\<lparr>c_detach_user := None, c_detach_close := False\<rparr>)) ssh)"

definition channel_register_filter ::
    "ssh \<Rightarrow> int \<Rightarrow> callback option \<Rightarrow> callback option \<Rightarrow> callback option \<Rightarrow> nat option \<Rightarrow> ssh" where
  "channel_register_filter ssh chid ifn ofn cfn ctx =
     (case channel_lookup ssh chid of
        None \<Rightarrow> ssh
      | Some c \<Rightarrow> set_slot (nat chid)
          (Some (c\<lparr>c_input_filter := ifn, c_output_filter := ofn, c_filter_ctx := ctx,
                   c_filter_cleanup := cfn\<rparr>)) ssh)"

definition channel_set_fds ::
    "env \<Rightarrow> ssh \<Rightarrow> int \<Rightarrow> int \<Rightarrow> int \<Rightarrow> int \<Rightarrow> extusage \<Rightarrow> nonblock \<Rightarrow> bool \<Rightarrow> u32 \<Rightarrow> ssh run" where
  "channel_set_fds e ssh chid rfd wfd efd extusage nonblock is_tty window_max =
     (case channel_lookup ssh chid of
        None \<Rightarrow> Fatal
      | Some c \<Rightarrow>
        if c_type c \<noteq> SSH_CHANNEL_LARVAL \<or> \<not> c_have_remote_id c then Fatal
        else
          let c1 = (channel_register_fds e c rfd wfd efd extusage nonblock is_tty)
                     \<lparr>c_type := SSH_CHANNEL_OPEN, c_lastused := e_monotime e,
                      c_local_window := window_max, c_local_window_max := window_max\<rparr>;
              p = Packet SSH2_MSG_CHANNEL_WINDOW_ADJUST
                    [PUT_U32 (c_remote_id c1), PUT_U32 (c_local_window c1)]
          in if e_pkt_ok e p then Done (emit (Send p) (set_slot (nat chid) (Some c1) ssh)) else Fatal)"

section \<open>Invariants of the table\<close>

definition chan :: "ssh \<Rightarrow> nat \<Rightarrow> channel option" where
  "chan ssh i = (if i < length (s_channels ssh) then s_channels ssh ! i else None)"

definition bufs_ok :: "channel \<Rightarrow> bool" where
  "bufs_ok c \<longleftrightarrow> (\<forall>b\<in>{c_input c, c_output c, c_extended c}. sshbuf_inv b \<and> writable b \<and>
     SSHBUF_SIZE_INIT \<le> b_max_size b)"

definition table_ok :: "ssh \<Rightarrow> bool" where
  "table_ok ssh \<longleftrightarrow> (\<forall>i c. chan ssh i = Some c \<longrightarrow> c_self c = i \<and> bufs_ok c)"

definition live_mux_client :: "ssh \<Rightarrow> nat \<Rightarrow> bool" where
  "live_mux_client ssh d \<longleftrightarrow> (\<exists>c. chan ssh d = Some c \<and> c_type c = SSH_CHANNEL_MUX_CLIENT)"

definition refs_ok :: "ssh \<Rightarrow> bool" where
  "refs_ok ssh \<longleftrightarrow>
     (\<forall>i c d. chan ssh i = Some c \<longrightarrow> c_type c = SSH_CHANNEL_MUX_PROXY \<longrightarrow> c_mux_ctx c = Some d \<longrightarrow>
        live_mux_client ssh d) \<and>
     (\<forall>p d. p \<in> set (ps_permitted_user (s_local_perms ssh)) \<longrightarrow> p_downstream p = Some d \<longrightarrow>
        live_mux_client ssh d)"

lemma free_slot_le: "free_slot cs \<le> length cs"
  by (simp add: free_slot_def length_takeWhile_le)

lemma free_slot_None: "free_slot cs < length cs \<Longrightarrow> cs ! free_slot cs = None"
  unfolding free_slot_def using nth_length_takeWhile by force

lemma free_slot_least: "i < free_slot cs \<Longrightarrow> \<exists>c. cs ! i = Some c"
  unfolding free_slot_def
  using nth_mem[of i "takeWhile (\<lambda>x. x \<noteq> None) cs"] takeWhile_nth[of i "\<lambda>x. x \<noteq> None" cs]
  by (metis not_None_eq set_takeWhileD)

lemma register_fds_frame [frame_simps]:
  "c_istate (channel_register_fds e c rfd wfd efd eu nb tty) = c_istate c"
  "c_ostate (channel_register_fds e c rfd wfd efd eu nb tty) = c_ostate c"
  "c_flags (channel_register_fds e c rfd wfd efd eu nb tty) = c_flags c"
  "c_input (channel_register_fds e c rfd wfd efd eu nb tty) = c_input c"
  "c_output (channel_register_fds e c rfd wfd efd eu nb tty) = c_output c"
  "c_extended (channel_register_fds e c rfd wfd efd eu nb tty) = c_extended c"
  "c_mux_ctx (channel_register_fds e c rfd wfd efd eu nb tty) = c_mux_ctx c"
  "c_have_remote_id (channel_register_fds e c rfd wfd efd eu nb tty) = c_have_remote_id c"
  "c_rfd (channel_register_fds e c rfd wfd efd eu nb tty) = rfd"
  "c_wfd (channel_register_fds e c rfd wfd efd eu nb tty) = wfd"
  "c_efd (channel_register_fds e c rfd wfd efd eu nb tty) = efd"
  "c_sock (channel_register_fds e c rfd wfd efd eu nb tty) = (if rfd = wfd then rfd else -1)"
  by (simp_all add: channel_register_fds_def save_flags_def Let_def)

definition fresh_channel :: "nat \<Rightarrow> string \<Rightarrow> chan_type \<Rightarrow> u32 \<Rightarrow> u32 \<Rightarrow> channel \<Rightarrow> bool" where
  "fresh_channel i ctype type window maxpack c \<longleftrightarrow>
     c_self c = i \<and> c_type c = type \<and> c_ctype c = ctype \<and> c_istate c = CHAN_INPUT_OPEN \<and>
     c_ostate c = CHAN_OUTPUT_OPEN \<and> c_flags c = 0 \<and> \<not> c_have_remote_id c \<and> c_mux_ctx c = None \<and>
     c_local_window c = window \<and> c_local_window_max c = window \<and> c_local_maxpacket c = maxpack \<and>
     c_local_consumed c = 0 \<and> bufs_ok c \<and>
     contents (c_input c) = [] \<and> contents (c_output c) = [] \<and> contents (c_extended c) = []"

lemma channel_new_result:
  assumes "channel_new e ssh ctype type rfd wfd efd window maxpack eu name nb = Done (i, ssh')"
  obtains c where "i = free_slot (s_channels ssh)" "chan ssh i = None"
    "fresh_channel i ctype type window maxpack c"
    "ssh' = ssh\<lparr>s_channels := ((if i < length (s_channels ssh) then s_channels ssh
                 else s_channels ssh @ replicate 10 None))[i := Some c]\<rparr>"
    "c_inactive_deadline c = lookup_timeout ssh ctype" "c_delayed c"
    "c_rfd c = rfd" "c_wfd c = wfd" "c_efd c = efd"
proof -
  let ?cs = "s_channels ssh"
  obtain b where b: "sshbuf_new (e_alc e) = Some b"
    using assms by (auto simp: channel_new_def Let_def split: if_splits option.splits)
  obtain r b1 where b1: "sshbuf_set_max_size (e_alc e) b CHAN_INPUT_MAX = (r, b1)" by fastforce
  have r: "r = Inr ()" using assms by (auto simp: channel_new_def Let_def b b1 split: if_splits sum.splits)
  note nb = new_spec[OF b]
  have ib: "sshbuf_inv b1 \<and> contents b1 = [] \<and> writable b1 \<and> b_max_size b1 = CHAN_INPUT_MAX"
    using set_max_size_spec[OF _ b1] nb r by auto
  define c where "c = (channel_register_fds e (blank_channel b1 b b) rfd wfd efd eu nb False)
    \<lparr>c_self := free_slot ?cs, c_type := type, c_ctype := ctype,
                          c_local_window := window, c_local_window_max := window,
                          c_local_maxpacket := maxpack, c_remote_name := name,
                          c_ctl_chan := -1, c_delayed := True,
                          c_inactive_deadline := lookup_timeout ssh ctype\<rparr>"
  have i: "i = free_slot ?cs" and ssh': "ssh' = ssh\<lparr>s_channels :=
      ((if i < length ?cs then ?cs else ?cs @ replicate 10 None))[i := Some c]\<rparr>"
    using assms by (auto simp: channel_new_def Let_def b b1 r c_def not_le split: if_splits)
  have "chan ssh i = None" using free_slot_None[of ?cs] by (simp add: chan_def i)
  moreover have "fresh_channel i ctype type window maxpack c"
    unfolding fresh_channel_def c_def bufs_ok_def using nb ib
    by (simp add: i frame_simps blank_channel_def channel_register_fds_def save_flags_def Let_def)
  moreover have "c_inactive_deadline c = lookup_timeout ssh ctype" "c_delayed c"
    "c_rfd c = rfd" "c_wfd c = wfd" "c_efd c = efd"
    unfolding c_def by (simp_all add: frame_simps)
  ultimately show ?thesis using that[of c] i ssh' by blast
qed

lemma channel_new_chan:
  assumes "channel_new e ssh ctype type rfd wfd efd window maxpack eu name nb = Done (i, ssh')"
  shows "\<exists>c. fresh_channel i ctype type window maxpack c \<and> chan ssh i = None \<and>
    (\<forall>j. chan ssh' j = (if j = i then Some c else chan ssh j)) \<and>
    s_local_perms ssh' = s_local_perms ssh \<and> s_remote_perms ssh' = s_remote_perms ssh \<and>
    s_effects ssh' = s_effects ssh"
proof -
  from assms obtain c where c: "i = free_slot (s_channels ssh)" "chan ssh i = None"
    "fresh_channel i ctype type window maxpack c"
    "ssh' = ssh\<lparr>s_channels := ((if i < length (s_channels ssh) then s_channels ssh
                 else s_channels ssh @ replicate 10 None))[i := Some c]\<rparr>"
    by (rule channel_new_result)
  have "chan ssh' j = (if j = i then Some c else chan ssh j)" for j
    using free_slot_le[of "s_channels ssh"]
    by (auto simp: chan_def c(4) nth_append nth_list_update c(1))
  with c show ?thesis by auto
qed

lemma chan_nth: "chan ssh i = Some c \<Longrightarrow> s_channels ssh ! i = Some c \<and> i < length (s_channels ssh)"
  by (auto simp: chan_def split: if_splits)

lemma chan_emit [simp]: "chan (emit x ssh) = chan ssh" "s_compat (emit x ssh) = s_compat ssh"
  by (simp_all add: chan_def emit_def fun_eq_iff)

lemma live_mux_client_cong:
  "chan ssh' d = chan ssh d \<Longrightarrow> live_mux_client ssh' d = live_mux_client ssh d"
  by (simp add: live_mux_client_def)

lemma channel_new_table_ok:
  assumes "table_ok ssh"
    "channel_new e ssh ctype type rfd wfd efd window maxpack eu name nb = Done (i, ssh')"
  shows "table_ok ssh'"
proof -
  from channel_new_chan[OF assms(2)] obtain c where c: "fresh_channel i ctype type window maxpack c"
    "\<And>j. chan ssh' j = (if j = i then Some c else chan ssh j)" by auto
  have "c_self c = i" "bufs_ok c" using c(1) by (simp_all add: fresh_channel_def)
  then show ?thesis using assms(1) by (simp add: table_ok_def c(2))
qed

lemma channel_new_refs_ok:
  assumes "refs_ok ssh"
    "channel_new e ssh ctype type rfd wfd efd window maxpack eu name nb = Done (i, ssh')"
  shows "refs_ok ssh'"
proof -
  from channel_new_chan[OF assms(2)] obtain c where c: "fresh_channel i ctype type window maxpack c"
    "chan ssh i = None" "\<And>j. chan ssh' j = (if j = i then Some c else chan ssh j)"
    "s_local_perms ssh' = s_local_perms ssh" by auto
  have live: "live_mux_client ssh' d" if "live_mux_client ssh d" for d
    using that c(2) by (auto simp: live_mux_client_def c(3))
  have "c_mux_ctx c = None" using c(1) by (simp add: fresh_channel_def)
  then show ?thesis using assms(1) live
    by (auto simp: refs_ok_def c(3,4) split: if_splits)
qed

subsection \<open>Release\<close>

lemma mux_remove_loop_result:
  "mux_remove_loop e i ps = Done (qs, fx) \<Longrightarrow>
   qs = map (\<lambda>p. if p_downstream p = Some i then fwd_perm_clear else p) ps"
  by (induction ps arbitrary: qs fx) (auto simp: andThen_Done Let_def split: if_splits)

lemma chan_set_slot: "chan (set_slot i x ssh) j = (if i < length (s_channels ssh) \<and> j = i then x else chan ssh j)"
  by (auto simp: chan_def set_slot_def)

lemma set_slot_perms [simp]:
  "s_local_perms (set_slot i x ssh) = s_local_perms ssh"
  "s_effects (set_slot i x ssh) = s_effects ssh"
  "s_compat (set_slot i x ssh) = s_compat ssh"
  "length (s_channels (set_slot i x ssh)) = length (s_channels ssh)"
  by (simp_all add: set_slot_def)

lemma channel_free_chan:
  assumes res: "channel_free e ssh i = Done ssh'" and c: "chan ssh i = Some c"
  shows "chan ssh' j = (if j = i then None
           else if c_type c = SSH_CHANNEL_MUX_CLIENT then map_option (detach_proxy i) (chan ssh j)
           else chan ssh j)"
    and "ps_permitted_user (s_local_perms ssh') =
           (if c_type c = SSH_CHANNEL_MUX_CLIENT
            then map (\<lambda>p. if p_downstream p = Some i then fwd_perm_clear else p)
                   (ps_permitted_user (s_local_perms ssh))
            else ps_permitted_user (s_local_perms ssh))"
    and "s_remote_perms ssh' = s_remote_perms ssh"
    and "length (s_channels ssh') = length (s_channels ssh)"
proof -
  have ci: "s_channels ssh ! i = Some c" "i < length (s_channels ssh)"
    using c by (auto simp: chan_def split: if_splits)
  have "chan ssh' j = (if j = i then None
           else if c_type c = SSH_CHANNEL_MUX_CLIENT then map_option (detach_proxy i) (chan ssh j)
           else chan ssh j) \<and> ps_permitted_user (s_local_perms ssh') =
           (if c_type c = SSH_CHANNEL_MUX_CLIENT
            then map (\<lambda>p. if p_downstream p = Some i then fwd_perm_clear else p)
                   (ps_permitted_user (s_local_perms ssh))
            else ps_permitted_user (s_local_perms ssh)) \<and> s_remote_perms ssh' = s_remote_perms ssh \<and>
            length (s_channels ssh') = length (s_channels ssh)"
  proof (cases "c_type c = SSH_CHANNEL_MUX_CLIENT")
    case True
    with res ci show ?thesis
      by (auto simp: channel_free_def mux_remove_remote_forwardings_def andThen_Done chan_def
          split_beta dest: mux_remove_loop_result)
  next
    case False
    with res ci show ?thesis by (auto simp: channel_free_def chan_def split_beta)
  qed
  then show "chan ssh' j = (if j = i then None
           else if c_type c = SSH_CHANNEL_MUX_CLIENT then map_option (detach_proxy i) (chan ssh j)
           else chan ssh j)"
    "ps_permitted_user (s_local_perms ssh') =
           (if c_type c = SSH_CHANNEL_MUX_CLIENT
            then map (\<lambda>p. if p_downstream p = Some i then fwd_perm_clear else p)
                   (ps_permitted_user (s_local_perms ssh))
            else ps_permitted_user (s_local_perms ssh))"
    "s_remote_perms ssh' = s_remote_perms ssh"
    "length (s_channels ssh') = length (s_channels ssh)" by blast+
qed

lemma channel_free_table_ok:
  assumes "table_ok ssh" "channel_free e ssh i = Done ssh'" "chan ssh i = Some c"
  shows "table_ok ssh'"
  using assms(1) unfolding table_ok_def channel_free_chan(1)[OF assms(2,3)]
  by (auto simp: detach_proxy_def bufs_ok_def split: if_splits)

lemma channel_free_refs_ok:
  assumes refs: "refs_ok ssh" and res: "channel_free e ssh i = Done ssh'" and c: "chan ssh i = Some c"
  shows "refs_ok ssh'"
proof -
  note ch = channel_free_chan(1)[OF res c] and pm = channel_free_chan(2)[OF res c]
  have live: "live_mux_client ssh' d" if "live_mux_client ssh d" "d \<noteq> i" for d
  proof -
    from that(1) obtain x where "chan ssh d = Some x" "c_type x = SSH_CHANNEL_MUX_CLIENT"
      by (auto simp: live_mux_client_def)
    moreover from this(2) have "detach_proxy i x = x" by (simp add: detach_proxy_def)
    ultimately show ?thesis using that(2) by (simp add: live_mux_client_def ch)
  qed
  show ?thesis
  proof (cases "c_type c = SSH_CHANNEL_MUX_CLIENT")
    case True
    have "live_mux_client ssh' d"
      if "chan ssh' j = Some x" "c_type x = SSH_CHANNEL_MUX_PROXY" "c_mux_ctx x = Some d" for j x d
    proof -
      from that(1) True obtain y where "j \<noteq> i" "chan ssh j = Some y" "x = detach_proxy i y"
        by (auto simp: ch split: if_splits)
      with that(2,3) have "y = x" "d \<noteq> i" by (auto simp: detach_proxy_def split: if_splits)
      with refs that \<open>chan ssh j = Some y\<close> live show ?thesis by (auto simp: refs_ok_def)
    qed
    moreover have "live_mux_client ssh' d"
      if "p \<in> set (ps_permitted_user (s_local_perms ssh'))" "p_downstream p = Some d" for p d
      using that True refs live by (auto simp: pm refs_ok_def fwd_perm_clear_def split: if_splits)
    ultimately show ?thesis by (simp add: refs_ok_def)
  next
    case False
    then have "\<not> live_mux_client ssh i" using c by (simp add: live_mux_client_def)
    with refs live have "live_mux_client ssh' d" if "live_mux_client ssh d" for d using that by metis
    with refs False show ?thesis by (auto simp: refs_ok_def ch pm split: if_splits)
  qed
qed

end
