(* ===== verification/Nchan.thy ===== *)
theory Nchan
  imports ChanTable
begin

text \<open>
  The close protocol of \<open>nchan.c\<close>: each channel has a receive half \<open>istate\<close> and a transmit half
  \<open>ostate\<close>, and events move them from open over draining to closed, sending EOF and CLOSE on the
  way. The events are the definitions \<open>chan_*\<close>; \<open>chan_step\<close> is the relation they span, and the
  lemmas are its invariants: a half never reopens, EOF and CLOSE are each sent at most once and in
  that order, and a channel is released only when both ends have said CLOSE.
\<close>

section \<open>Actions\<close>

type_synonym chan_st = "channel \<times> eff list"

definition chan_set_istate :: "istate \<Rightarrow> chan_st \<Rightarrow> chan_st" where
  "chan_set_istate s st = (fst st\<lparr>c_istate := s\<rparr>, snd st)"

definition chan_set_ostate :: "ostate \<Rightarrow> chan_st \<Rightarrow> chan_st" where
  "chan_set_ostate s st = (fst st\<lparr>c_ostate := s\<rparr>, snd st)"

definition set_flag :: "u32 \<Rightarrow> chan_st \<Rightarrow> chan_st" where
  "set_flag m st = (fst st\<lparr>c_flags := c_flags (fst st) OR m\<rparr>, snd st)"

definition efd_input_active :: "channel \<Rightarrow> bool" where
  "efd_input_active c \<longleftrightarrow> c_extended_usage c = CHAN_EXTENDED_READ \<and>
     (c_efd c \<noteq> -1 \<or> sshbuf_len (c_extended c) > 0)"

definition efd_output_active :: "channel \<Rightarrow> bool" where
  "efd_output_active c \<longleftrightarrow> c_extended_usage c = CHAN_EXTENDED_WRITE \<and> c_efd c \<noteq> -1 \<and>
     (c_flags c AND (CHAN_EOF_RCVD OR CHAN_CLOSE_RCVD) = 0 \<or> sshbuf_len (c_extended c) > 0)"

definition chan_shutdown_write :: "env \<Rightarrow> chan_st \<Rightarrow> chan_st" where
  "chan_shutdown_write e st =
     (let c = (fst st)\<lparr>c_output := sshbuf_reset (e_alc e) (c_output (fst st))\<rparr> in
      if c_type c = SSH_CHANNEL_LARVAL then (c, snd st)
      else if c_sock c \<noteq> -1 then (c, snd st @ [Shutdown_wr (c_sock c)])
      else channel_close_fd (c, snd st) (c_wfd c))"

definition chan_shutdown_read :: "chan_st \<Rightarrow> chan_st" where
  "chan_shutdown_read st =
     (let c = fst st in
      if c_type c = SSH_CHANNEL_LARVAL then st
      else if c_sock c \<noteq> -1 then (c, snd st @ [Shutdown_rd (c_sock c)])
      else channel_close_fd st (c_rfd c))"

definition chan_shutdown_extended_read :: "chan_st \<Rightarrow> chan_st" where
  "chan_shutdown_extended_read st =
     (let c = fst st in
      if c_type c = SSH_CHANNEL_LARVAL \<or> c_efd c = -1 then st
      else if c_extended_usage c \<noteq> CHAN_EXTENDED_READ \<and> c_extended_usage c \<noteq> CHAN_EXTENDED_IGNORE
      then st
      else channel_close_fd st (c_efd c))"

definition chan_send_eof2 :: "env \<Rightarrow> chan_st \<Rightarrow> chan_st run" where
  "chan_send_eof2 e st =
     (let c = fst st in
      if c_istate c = CHAN_INPUT_WAIT_DRAIN then
        if \<not> c_have_remote_id c then Fatal
        else andThen (send_pkt e (Packet SSH2_MSG_CHANNEL_EOF [PUT_U32 (c_remote_id c)]) st)
               (\<lambda>st1. Done (set_flag CHAN_EOF_SENT st1))
      else Done st)"

definition chan_send_close2 :: "env \<Rightarrow> chan_st \<Rightarrow> chan_st run" where
  "chan_send_close2 e st =
     (let c = fst st in
      if c_ostate c \<noteq> CHAN_OUTPUT_CLOSED \<or> c_istate c \<noteq> CHAN_INPUT_CLOSED then Done st
      else if c_flags c AND CHAN_CLOSE_SENT \<noteq> 0 then Done st
      else if \<not> c_have_remote_id c then Fatal
      else andThen (send_pkt e (Packet SSH2_MSG_CHANNEL_CLOSE [PUT_U32 (c_remote_id c)]) st)
             (\<lambda>st1. Done (set_flag CHAN_CLOSE_SENT st1)))"

definition chan_send_eow2 :: "env \<Rightarrow> u32 \<Rightarrow> chan_st \<Rightarrow> chan_st run" where
  "chan_send_eow2 e compat_bits st =
     (let c = fst st in
      if c_ostate c = CHAN_OUTPUT_CLOSED then Done st
      else if compat_bits AND SSH_NEW_OPENSSH = 0 then Done st
      else if \<not> c_have_remote_id c then Fatal
      else send_pkt e (Packet SSH2_MSG_CHANNEL_REQUEST
             [PUT_U32 (c_remote_id c), PUT_CSTRING ''eow@openssh.com'', PUT_U8 0]) st)"

section \<open>Events\<close>

definition chan_read_failed :: "chan_st \<Rightarrow> chan_st" where
  "chan_read_failed st =
     (if c_istate (fst st) = CHAN_INPUT_OPEN
      then chan_set_istate CHAN_INPUT_WAIT_DRAIN (chan_shutdown_read st)
      else st)"

definition chan_ibuf_empty :: "env \<Rightarrow> chan_st \<Rightarrow> chan_st run" where
  "chan_ibuf_empty e st =
     (let c = fst st in
      if sshbuf_len (c_input c) \<noteq> 0 then Done st
      else if c_istate c = CHAN_INPUT_WAIT_DRAIN then
        andThen (if c_flags c AND (CHAN_CLOSE_SENT OR CHAN_LOCAL) = 0
                 then chan_send_eof2 e st else Done st)
          (\<lambda>st1. Done (chan_set_istate CHAN_INPUT_CLOSED st1))
      else Done st)"

definition chan_obuf_empty :: "env \<Rightarrow> chan_st \<Rightarrow> chan_st" where
  "chan_obuf_empty e st =
     (let c = fst st in
      if sshbuf_len (c_output c) \<noteq> 0 then st
      else if c_ostate c = CHAN_OUTPUT_WAIT_DRAIN
      then chan_set_ostate CHAN_OUTPUT_CLOSED (chan_shutdown_write e st)
      else st)"

definition chan_rcvd_eow :: "chan_st \<Rightarrow> chan_st" where
  "chan_rcvd_eow st =
     (if c_istate (fst st) = CHAN_INPUT_OPEN
      then chan_set_istate CHAN_INPUT_CLOSED (chan_shutdown_read st)
      else st)"

definition chan_rcvd_ieof :: "env \<Rightarrow> chan_st \<Rightarrow> chan_st" where
  "chan_rcvd_ieof e st =
     (let st1 = set_flag CHAN_EOF_RCVD st;
          st2 = (if c_ostate (fst st1) = CHAN_OUTPUT_OPEN
                 then chan_set_ostate CHAN_OUTPUT_WAIT_DRAIN st1 else st1)
      in if c_ostate (fst st2) = CHAN_OUTPUT_WAIT_DRAIN \<and> sshbuf_len (c_output (fst st2)) = 0 \<and>
            \<not> efd_output_active (fst st2)
         then chan_obuf_empty e st2 else st2)"

definition chan_rcvd_oclose :: "env \<Rightarrow> chan_st \<Rightarrow> chan_st run" where
  "chan_rcvd_oclose e st =
     (let st1 = (if c_flags (fst st) AND CHAN_LOCAL = 0 then set_flag CHAN_CLOSE_RCVD st else st) in
      if c_type (fst st1) = SSH_CHANNEL_LARVAL
      then Done (chan_set_istate CHAN_INPUT_CLOSED (chan_set_ostate CHAN_OUTPUT_CLOSED st1))
      else
        let st2 = (if c_ostate (fst st1) = CHAN_OUTPUT_OPEN
                   then chan_set_ostate CHAN_OUTPUT_WAIT_DRAIN st1 else st1)
        in case c_istate (fst st2) of
             CHAN_INPUT_OPEN \<Rightarrow>
               Done (chan_set_istate CHAN_INPUT_CLOSED
                       (chan_shutdown_extended_read (chan_shutdown_read st2)))
           | CHAN_INPUT_WAIT_DRAIN \<Rightarrow>
               andThen (if c_flags (fst st2) AND CHAN_LOCAL = 0 then chan_send_eof2 e st2 else Done st2)
                 (\<lambda>st3. Done (chan_set_istate CHAN_INPUT_CLOSED (chan_shutdown_extended_read st3)))
           | _ \<Rightarrow> Done st2)"

definition chan_write_failed :: "env \<Rightarrow> u32 \<Rightarrow> chan_st \<Rightarrow> chan_st run" where
  "chan_write_failed e compat_bits st =
     (if c_ostate (fst st) = CHAN_OUTPUT_OPEN \<or> c_ostate (fst st) = CHAN_OUTPUT_WAIT_DRAIN then
        let st1 = chan_shutdown_write e st in
        andThen (if c_ctype (fst st1) = ''session'' then chan_send_eow2 e compat_bits st1 else Done st1)
          (\<lambda>st2. Done (chan_set_ostate CHAN_OUTPUT_CLOSED st2))
      else Done st)"

definition chan_mark_dead :: "chan_st \<Rightarrow> chan_st" where
  "chan_mark_dead st = ((fst st)\<lparr>c_type := SSH_CHANNEL_ZOMBIE\<rparr>, snd st)"

definition chan_is_dead :: "env \<Rightarrow> u32 \<Rightarrow> bool \<Rightarrow> chan_st \<Rightarrow> (bool \<times> chan_st) run" where
  "chan_is_dead e compat_bits do_send st =
     (let c = fst st in
      if c_type c = SSH_CHANNEL_ZOMBIE then Done (True, st)
      else if c_istate c \<noteq> CHAN_INPUT_CLOSED \<or> c_ostate c \<noteq> CHAN_OUTPUT_CLOSED then Done (False, st)
      else if compat_bits AND SSH_BUG_EXTEOF \<noteq> 0 \<and> c_extended_usage c = CHAN_EXTENDED_WRITE \<and>
              c_efd c \<noteq> -1 \<and> sshbuf_len (c_extended c) > 0 then Done (False, st)
      else if c_flags c AND CHAN_LOCAL \<noteq> 0 then Done (True, st)
      else if c_flags c AND CHAN_CLOSE_SENT = 0 \<and> \<not> do_send \<and> c_flags c AND CHAN_CLOSE_RCVD \<noteq> 0
      then Done (True, st)
      else
        andThen (if c_flags c AND CHAN_CLOSE_SENT = 0 \<and> do_send then chan_send_close2 e st else Done st)
          (\<lambda>st1. Done (c_flags (fst st1) AND CHAN_CLOSE_SENT \<noteq> 0 \<and>
                       c_flags (fst st1) AND CHAN_CLOSE_RCVD \<noteq> 0, st1)))"

text \<open>\<open>channel_force_close\<close> of \<open>channels.c\<close> drives both halves shut from whatever state they are in.\<close>

definition channel_force_close :: "env \<Rightarrow> u32 \<Rightarrow> bool \<Rightarrow> chan_st \<Rightarrow> chan_st run" where
  "channel_force_close e compat_bits abandon st =
     (let st1 = (if c_istate (fst st) = CHAN_INPUT_OPEN then chan_read_failed st else st) in
      andThen (if c_istate (fst st1) = CHAN_INPUT_WAIT_DRAIN
               then chan_ibuf_empty e
                      ((fst st1)\<lparr>c_input := sshbuf_reset (e_alc e) (c_input (fst st1))\<rparr>, snd st1)
               else Done st1)
        (\<lambda>st2.
          andThen (if c_ostate (fst st2) = CHAN_OUTPUT_OPEN \<or> c_ostate (fst st2) = CHAN_OUTPUT_WAIT_DRAIN
                   then chan_write_failed e compat_bits
                          ((fst st2)\<lparr>c_output := sshbuf_reset (e_alc e) (c_output (fst st2))\<rparr>, snd st2)
                   else Done st2)
            (\<lambda>st3.
              let st4 = (case c_detach_user (fst st3) of
                           None \<Rightarrow> st3
                         | Some cb \<Rightarrow> (fst st3, snd st3 @ [Detach cb (c_self (fst st3)) True]));
                  st5 = (if c_efd (fst st4) \<noteq> -1 then channel_close_fd st4 (c_efd (fst st4)) else st4);
                  c5 = fst st5
              in Done (c5\<lparr>c_type := (if abandon then SSH_CHANNEL_ABANDONED else c_type c5),
                           c_inactive_deadline := 0, c_lastused := 0\<rparr>, snd st5))))"

section \<open>The step relation\<close>

datatype chan_event =
    Read_failed | Ibuf_empty | Obuf_empty | Rcvd_eow | Rcvd_ieof | Rcvd_oclose | Write_failed
  | Is_dead bool | Mark_dead | Force_drain | Force_close bool

text \<open>\<open>Force_drain\<close> is what \<open>channel_input_ieof\<close> does under \<open>force_drain\<close>.\<close>

definition chan_force_drain :: "env \<Rightarrow> chan_st \<Rightarrow> chan_st run" where
  "chan_force_drain e st =
     (if c_force_drain (fst st) \<and> c_istate (fst st) = CHAN_INPUT_OPEN then
        let st1 = chan_set_istate CHAN_INPUT_WAIT_DRAIN st in
        if sshbuf_len (c_input (fst st1)) = 0 then chan_ibuf_empty e st1 else Done st1
      else Done st)"

fun apply_event :: "env \<Rightarrow> u32 \<Rightarrow> chan_event \<Rightarrow> chan_st \<Rightarrow> chan_st run" where
  "apply_event e cm Read_failed st = Done (chan_read_failed st)"
| "apply_event e cm Ibuf_empty st = chan_ibuf_empty e st"
| "apply_event e cm Obuf_empty st = Done (chan_obuf_empty e st)"
| "apply_event e cm Rcvd_eow st = Done (chan_rcvd_eow st)"
| "apply_event e cm Rcvd_ieof st = Done (chan_rcvd_ieof e st)"
| "apply_event e cm Rcvd_oclose st = chan_rcvd_oclose e st"
| "apply_event e cm Write_failed st = chan_write_failed e cm st"
| "apply_event e cm (Is_dead do_send) st =
     andThen (chan_is_dead e cm do_send st) (\<lambda>(b, st1). Done st1)"
| "apply_event e cm Mark_dead st = Done (chan_mark_dead st)"
| "apply_event e cm Force_drain st = chan_force_drain e st"
| "apply_event e cm (Force_close abandon) st = channel_force_close e cm abandon st"

fun irank :: "istate \<Rightarrow> nat" where
  "irank CHAN_INPUT_OPEN = 0"
| "irank CHAN_INPUT_WAIT_DRAIN = 1"
| "irank CHAN_INPUT_WAIT_OCLOSE = 2"
| "irank CHAN_INPUT_CLOSED = 3"

fun orank :: "ostate \<Rightarrow> nat" where
  "orank CHAN_OUTPUT_OPEN = 0"
| "orank CHAN_OUTPUT_WAIT_DRAIN = 1"
| "orank CHAN_OUTPUT_WAIT_IEOF = 2"
| "orank CHAN_OUTPUT_CLOSED = 3"

text \<open>The EOF and CLOSE messages among the effects, in the order they were sent.\<close>

fun close_msgs :: "eff list \<Rightarrow> nat list" where
  "close_msgs [] = []"
| "close_msgs (Send (Packet n fs) # xs) =
     (if n = SSH2_MSG_CHANNEL_EOF \<or> n = SSH2_MSG_CHANNEL_CLOSE then n # close_msgs xs
      else close_msgs xs)"
| "close_msgs (_ # xs) = close_msgs xs"

lemma close_msgs_append [simp]: "close_msgs (xs @ ys) = close_msgs xs @ close_msgs ys"
  by (induction xs rule: close_msgs.induct) auto

definition said :: "u32 \<Rightarrow> nat list" where
  "said fl = (if fl AND CHAN_EOF_SENT \<noteq> 0 then [SSH2_MSG_CHANNEL_EOF] else []) @
             (if fl AND CHAN_CLOSE_SENT \<noteq> 0 then [SSH2_MSG_CHANNEL_CLOSE] else [])"

definition close_inv :: "chan_st \<Rightarrow> bool" where
  "close_inv st \<longleftrightarrow>
     close_msgs (snd st) = said (c_flags (fst st)) \<and>
     c_istate (fst st) \<noteq> CHAN_INPUT_WAIT_OCLOSE \<and> c_ostate (fst st) \<noteq> CHAN_OUTPUT_WAIT_IEOF \<and>
     (c_flags (fst st) AND CHAN_EOF_SENT \<noteq> 0 \<longrightarrow> c_istate (fst st) = CHAN_INPUT_CLOSED) \<and>
     (c_flags (fst st) AND CHAN_CLOSE_SENT \<noteq> 0 \<longrightarrow>
        c_istate (fst st) = CHAN_INPUT_CLOSED \<and> c_ostate (fst st) = CHAN_OUTPUT_CLOSED)"

lemmas flag_simps = bit.conj_disj_distrib2 or_eq_0_iff

lemma close_fd_msgs [simp]: "close_msgs (snd (channel_close_fd st fd)) = close_msgs (snd st)"
  by (simp add: channel_close_fd_def Let_def)

lemma shutdown_frame [simp]:
  "c_istate (fst (chan_shutdown_write e st)) = c_istate (fst st)"
  "c_ostate (fst (chan_shutdown_write e st)) = c_ostate (fst st)"
  "c_flags (fst (chan_shutdown_write e st)) = c_flags (fst st)"
  "close_msgs (snd (chan_shutdown_write e st)) = close_msgs (snd st)"
  "c_istate (fst (chan_shutdown_read st)) = c_istate (fst st)"
  "c_ostate (fst (chan_shutdown_read st)) = c_ostate (fst st)"
  "c_flags (fst (chan_shutdown_read st)) = c_flags (fst st)"
  "close_msgs (snd (chan_shutdown_read st)) = close_msgs (snd st)"
  "c_istate (fst (chan_shutdown_extended_read st)) = c_istate (fst st)"
  "c_ostate (fst (chan_shutdown_extended_read st)) = c_ostate (fst st)"
  "c_flags (fst (chan_shutdown_extended_read st)) = c_flags (fst st)"
  "close_msgs (snd (chan_shutdown_extended_read st)) = close_msgs (snd st)"
  by (simp_all add: chan_shutdown_write_def chan_shutdown_read_def chan_shutdown_extended_read_def
      Let_def frame_simps)

lemma set_frame [simp]:
  "c_istate (fst (chan_set_istate s st)) = s"
  "c_ostate (fst (chan_set_istate s st)) = c_ostate (fst st)"
  "c_flags (fst (chan_set_istate s st)) = c_flags (fst st)"
  "snd (chan_set_istate s st) = snd st"
  "c_istate (fst (chan_set_ostate t st)) = c_istate (fst st)"
  "c_ostate (fst (chan_set_ostate t st)) = t"
  "c_flags (fst (chan_set_ostate t st)) = c_flags (fst st)"
  "snd (chan_set_ostate t st) = snd st"
  "c_istate (fst (set_flag m st)) = c_istate (fst st)"
  "c_ostate (fst (set_flag m st)) = c_ostate (fst st)"
  "c_flags (fst (set_flag m st)) = c_flags (fst st) OR m"
  "snd (set_flag m st) = snd st"
  by (simp_all add: chan_set_istate_def chan_set_ostate_def set_flag_def)

text \<open>The three messages: what they need, and what they leave.\<close>

lemma send_eof2_result:
  assumes "chan_send_eof2 e st = Done st'"
  shows "c_istate (fst st') = c_istate (fst st) \<and> c_ostate (fst st') = c_ostate (fst st) \<and>
    (if c_istate (fst st) = CHAN_INPUT_WAIT_DRAIN
     then c_flags (fst st') = c_flags (fst st) OR CHAN_EOF_SENT \<and>
          close_msgs (snd st') = close_msgs (snd st) @ [SSH2_MSG_CHANNEL_EOF]
     else st' = st)"
  using assms by (auto simp: chan_send_eof2_def send_pkt_def Let_def andThen_Done split: if_splits)

lemma send_close2_result:
  assumes "chan_send_close2 e st = Done st'"
  shows "c_istate (fst st') = c_istate (fst st) \<and> c_ostate (fst st') = c_ostate (fst st) \<and>
    (if c_istate (fst st) = CHAN_INPUT_CLOSED \<and> c_ostate (fst st) = CHAN_OUTPUT_CLOSED \<and>
        c_flags (fst st) AND CHAN_CLOSE_SENT = 0
     then c_flags (fst st') = c_flags (fst st) OR CHAN_CLOSE_SENT \<and>
          close_msgs (snd st') = close_msgs (snd st) @ [SSH2_MSG_CHANNEL_CLOSE]
     else st' = st)"
  using assms by (auto simp: chan_send_close2_def send_pkt_def Let_def andThen_Done split: if_splits)

lemma send_eow2_result:
  assumes "chan_send_eow2 e cm st = Done st'"
  shows "fst st' = fst st \<and> close_msgs (snd st') = close_msgs (snd st)"
  using assms by (auto simp: chan_send_eow2_def send_pkt_def Let_def andThen_Done split: if_splits)

definition advances :: "chan_st \<Rightarrow> chan_st \<Rightarrow> bool" where
  "advances st st' \<longleftrightarrow> (close_inv st \<longrightarrow> close_inv st') \<and>
     irank (c_istate (fst st)) \<le> irank (c_istate (fst st')) \<and>
     orank (c_ostate (fst st)) \<le> orank (c_ostate (fst st'))"

lemma advances_refl [simp]: "advances st st"
  by (simp add: advances_def)

lemma advances_trans: "advances a b \<Longrightarrow> advances b c \<Longrightarrow> advances a c"
  by (auto simp: advances_def)

lemma read_failed_advances: "advances st (chan_read_failed st)"
  by (auto simp: advances_def close_inv_def chan_read_failed_def)

lemma ibuf_empty_advances: "chan_ibuf_empty e st = Done st' \<Longrightarrow> advances st st'"
  by (cases "c_istate (fst st)")
    (auto simp: advances_def close_inv_def chan_ibuf_empty_def Let_def andThen_Done said_def flag_simps
      split: if_splits dest!: send_eof2_result)

lemma obuf_empty_advances: "advances st (chan_obuf_empty e st)"
  by (auto simp: advances_def close_inv_def chan_obuf_empty_def Let_def)

lemma rcvd_eow_advances: "advances st (chan_rcvd_eow st)"
  by (auto simp: advances_def close_inv_def chan_rcvd_eow_def)

lemma set_flag_advances:
  "m \<in> {CHAN_EOF_RCVD, CHAN_CLOSE_RCVD} \<Longrightarrow> advances st (set_flag m st)"
  by (auto simp: advances_def close_inv_def said_def flag_simps)

lemma drain_ostate_advances:
  "c_ostate (fst st) = CHAN_OUTPUT_OPEN \<Longrightarrow> advances st (chan_set_ostate CHAN_OUTPUT_WAIT_DRAIN st)"
  by (auto simp: advances_def close_inv_def)

lemma frame_advances:
  assumes "c_istate (fst st') = c_istate (fst st)" "c_ostate (fst st') = c_ostate (fst st)"
    "c_flags (fst st') = c_flags (fst st)" "close_msgs (snd st') = close_msgs (snd st)"
  shows "advances st st'"
  using assms by (simp add: advances_def close_inv_def)

lemma maybe_drain_ostate_advances:
  "advances st (if c_ostate (fst st) = CHAN_OUTPUT_OPEN
     then chan_set_ostate CHAN_OUTPUT_WAIT_DRAIN st else st)"
  by (simp add: drain_ostate_advances)

lemma rcvd_ieof_advances: "advances st (chan_rcvd_ieof e st)"
proof -
  let ?st2 = "if c_ostate (fst (set_flag CHAN_EOF_RCVD st)) = CHAN_OUTPUT_OPEN
     then chan_set_ostate CHAN_OUTPUT_WAIT_DRAIN (set_flag CHAN_EOF_RCVD st)
     else set_flag CHAN_EOF_RCVD st"
  have "advances st ?st2"
    by (rule advances_trans[OF set_flag_advances maybe_drain_ostate_advances]) simp
  then have "advances st (if b then chan_obuf_empty e ?st2 else ?st2)" for b
    using advances_trans[OF _ obuf_empty_advances] by auto
  then show ?thesis unfolding chan_rcvd_ieof_def Let_def by blast
qed

lemma close_istate_advances:
  "c_istate (fst st) \<noteq> CHAN_INPUT_WAIT_OCLOSE \<Longrightarrow> advances st (chan_set_istate CHAN_INPUT_CLOSED st)"
  by (cases "c_istate (fst st)") (auto simp: advances_def close_inv_def)

lemma close_ostate_advances: "advances st (chan_set_ostate CHAN_OUTPUT_CLOSED st)"
  by (cases "c_ostate (fst st)") (auto simp: advances_def close_inv_def)

lemma rcvd_oclose_rest_advances:
  assumes "(case c_istate (fst st2) of
             CHAN_INPUT_OPEN \<Rightarrow>
               Done (chan_set_istate CHAN_INPUT_CLOSED
                       (chan_shutdown_extended_read (chan_shutdown_read st2)))
           | CHAN_INPUT_WAIT_DRAIN \<Rightarrow>
               andThen (if c_flags (fst st2) AND CHAN_LOCAL = 0 then chan_send_eof2 e st2 else Done st2)
                 (\<lambda>st3. Done (chan_set_istate CHAN_INPUT_CLOSED (chan_shutdown_extended_read st3)))
           | _ \<Rightarrow> Done st2) = Done st'"
  shows "advances st2 st'"
  using assms
  by (cases "c_istate (fst st2)")
    (auto simp: advances_def close_inv_def andThen_Done said_def flag_simps
      split: if_splits dest!: send_eof2_result)

lemma rcvd_oclose_advances:
  assumes "chan_rcvd_oclose e st = Done st'"
  shows "advances st st'"
proof -
  define st1 where "st1 = (if c_flags (fst st) AND CHAN_LOCAL = 0 then set_flag CHAN_CLOSE_RCVD st else st)"
  have 1: "advances st st1" by (simp add: st1_def set_flag_advances)
  show ?thesis
  proof (cases "c_type (fst st1) = SSH_CHANNEL_LARVAL")
    case True
    then have st': "st' = chan_set_istate CHAN_INPUT_CLOSED (chan_set_ostate CHAN_OUTPUT_CLOSED st1)"
      using assms by (simp add: chan_rcvd_oclose_def Let_def flip: st1_def)
    have "advances st1 st'" unfolding st'
      by (cases "c_istate (fst st1)"; cases "c_ostate (fst st1)") (auto simp: advances_def close_inv_def)
    then show ?thesis by (rule advances_trans[OF 1])
  next
    case False
    define st2 where "st2 = (if c_ostate (fst st1) = CHAN_OUTPUT_OPEN
                   then chan_set_ostate CHAN_OUTPUT_WAIT_DRAIN st1 else st1)"
    have "advances st2 st'"
      using assms False
      by (intro rcvd_oclose_rest_advances[of _ e])
        (simp add: chan_rcvd_oclose_def Let_def flip: st1_def st2_def)
    moreover have "advances st1 st2" unfolding st2_def by (rule maybe_drain_ostate_advances)
    ultimately show ?thesis using advances_trans 1 by blast
  qed
qed

lemma write_failed_advances:
  assumes "chan_write_failed e cm st = Done st'"
  shows "advances st st'"
proof (cases "c_ostate (fst st) = CHAN_OUTPUT_OPEN \<or> c_ostate (fst st) = CHAN_OUTPUT_WAIT_DRAIN")
  case True
  let ?st1 = "chan_shutdown_write e st"
  from assms True obtain st2 where st2: "(if c_ctype (fst ?st1) = ''session''
      then chan_send_eow2 e cm ?st1 else Done ?st1) = Done st2"
    and st': "st' = chan_set_ostate CHAN_OUTPUT_CLOSED st2"
    unfolding chan_write_failed_def Let_def if_P[OF True] andThen_Done run.inject by metis
  have "advances st ?st1" by (rule frame_advances) simp_all
  moreover have "advances ?st1 st2"
    by (rule frame_advances) (use st2 in \<open>auto split: if_splits dest: send_eow2_result\<close>)
  moreover have "advances st2 st'" unfolding st' by (rule close_ostate_advances)
  ultimately show ?thesis using advances_trans by blast
qed (use assms in \<open>simp add: chan_write_failed_def\<close>)

lemma mark_dead_advances: "advances st (chan_mark_dead st)"
  by (auto simp: advances_def close_inv_def chan_mark_dead_def)

lemma is_dead_advances:
  assumes "chan_is_dead e cm do_send st = Done (b, st')"
  shows "advances st st'"
proof -
  have "st' = st \<or> chan_send_close2 e st = Done st'"
    using assms by (auto simp: chan_is_dead_def Let_def andThen_Done split: if_splits)
  moreover have "advances st st'" if "chan_send_close2 e st = Done st'"
    using send_close2_result[OF that]
    by (auto simp: advances_def close_inv_def said_def flag_simps split: if_splits)
  ultimately show ?thesis by auto
qed

lemma force_drain_advances:
  assumes "chan_force_drain e st = Done st'"
  shows "advances st st'"
proof -
  let ?st1 = "chan_set_istate CHAN_INPUT_WAIT_DRAIN st"
  have "advances st ?st1" if "c_istate (fst st) = CHAN_INPUT_OPEN"
    using that by (auto simp: advances_def close_inv_def)
  moreover have "st' = st \<or> c_istate (fst st) = CHAN_INPUT_OPEN \<and>
      (st' = ?st1 \<or> chan_ibuf_empty e ?st1 = Done st')"
    using assms by (auto simp: chan_force_drain_def Let_def split: if_splits)
  ultimately show ?thesis using ibuf_empty_advances[of e ?st1 st'] advances_trans[of st ?st1 st']
    by auto
qed

lemma force_closeE:
  assumes "channel_force_close e cm abandon st = Done st'"
  obtains st1 st2 st3 where
    "st1 = (if c_istate (fst st) = CHAN_INPUT_OPEN then chan_read_failed st else st)"
    "(if c_istate (fst st1) = CHAN_INPUT_WAIT_DRAIN
      then chan_ibuf_empty e
             ((fst st1)\<lparr>c_input := sshbuf_reset (e_alc e) (c_input (fst st1))\<rparr>, snd st1)
      else Done st1) = Done st2"
    "(if c_ostate (fst st2) = CHAN_OUTPUT_OPEN \<or> c_ostate (fst st2) = CHAN_OUTPUT_WAIT_DRAIN
      then chan_write_failed e cm
             ((fst st2)\<lparr>c_output := sshbuf_reset (e_alc e) (c_output (fst st2))\<rparr>, snd st2)
      else Done st2) = Done st3"
    "c_istate (fst st') = c_istate (fst st3)" "c_ostate (fst st') = c_ostate (fst st3)"
    "c_flags (fst st') = c_flags (fst st3)" "close_msgs (snd st') = close_msgs (snd st3)"
    "c_efd (fst st') = -1" "c_inactive_deadline (fst st') = 0"
    "c_type (fst st') = (if abandon then SSH_CHANNEL_ABANDONED else c_type (fst st3))"
proof -
  define st1 where "st1 = (if c_istate (fst st) = CHAN_INPUT_OPEN then chan_read_failed st else st)"
  obtain st2 where 2: "(if c_istate (fst st1) = CHAN_INPUT_WAIT_DRAIN
      then chan_ibuf_empty e
             ((fst st1)\<lparr>c_input := sshbuf_reset (e_alc e) (c_input (fst st1))\<rparr>, snd st1)
      else Done st1) = Done st2"
    using assms unfolding channel_force_close_def Let_def st1_def[symmetric] andThen_Done by blast
  obtain st3 where 3: "(if c_ostate (fst st2) = CHAN_OUTPUT_OPEN \<or> c_ostate (fst st2) = CHAN_OUTPUT_WAIT_DRAIN
      then chan_write_failed e cm
             ((fst st2)\<lparr>c_output := sshbuf_reset (e_alc e) (c_output (fst st2))\<rparr>, snd st2)
      else Done st2) = Done st3"
    using assms unfolding channel_force_close_def Let_def st1_def[symmetric] 2 andThen.simps andThen_Done
    by blast
  have "st' = (let st4 = (case c_detach_user (fst st3) of
                     None \<Rightarrow> st3
                   | Some cb \<Rightarrow> (fst st3, snd st3 @ [Detach cb (c_self (fst st3)) True]));
            st5 = (if c_efd (fst st4) \<noteq> -1 then channel_close_fd st4 (c_efd (fst st4)) else st4);
            c5 = fst st5
        in (c5\<lparr>c_type := (if abandon then SSH_CHANNEL_ABANDONED else c_type c5),
               c_inactive_deadline := 0, c_lastused := 0\<rparr>, snd st5))"
    using assms unfolding channel_force_close_def Let_def st1_def[symmetric] 2 3 andThen.simps
    by simp
  then have "c_istate (fst st') = c_istate (fst st3)" "c_ostate (fst st') = c_ostate (fst st3)"
    "c_flags (fst st') = c_flags (fst st3)" "close_msgs (snd st') = close_msgs (snd st3)"
    "c_efd (fst st') = -1" "c_inactive_deadline (fst st') = 0"
    "c_type (fst st') = (if abandon then SSH_CHANNEL_ABANDONED else c_type (fst st3))"
    by (simp_all add: Let_def frame_simps close_fd_fds split: option.splits)
  then show ?thesis using that[OF st1_def 2 3] by blast
qed

lemma force_close_advances:
  assumes "channel_force_close e cm abandon st = Done st'"
  shows "advances st st'"
  using assms
proof (cases rule: force_closeE)
  case (1 st1 st2 st3)
  have "advances st st1" unfolding 1(1) by (simp add: read_failed_advances)
  moreover have "advances st1 st2"
  proof (cases "c_istate (fst st1) = CHAN_INPUT_WAIT_DRAIN")
    case True
    then have "advances ((fst st1)\<lparr>c_input := sshbuf_reset (e_alc e) (c_input (fst st1))\<rparr>, snd st1) st2"
      using 1(2) by (simp add: ibuf_empty_advances)
    then show ?thesis by (rule advances_trans[rotated]) (rule frame_advances, simp_all)
  qed (use 1(2) in simp)
  moreover have "advances st2 st3"
  proof (cases "c_ostate (fst st2) = CHAN_OUTPUT_OPEN \<or> c_ostate (fst st2) = CHAN_OUTPUT_WAIT_DRAIN")
    case True
    then have "advances ((fst st2)\<lparr>c_output := sshbuf_reset (e_alc e) (c_output (fst st2))\<rparr>, snd st2) st3"
      using 1(3) by (simp add: write_failed_advances)
    then show ?thesis by (rule advances_trans[rotated]) (rule frame_advances, simp_all)
  qed (use 1(3) in simp)
  moreover have "advances st3 st'" using 1(4-7) by (intro frame_advances) simp_all
  ultimately show ?thesis using advances_trans by blast
qed

text \<open>Between events the I/O handlers move bytes through the three buffers.\<close>

inductive chan_step :: "env \<Rightarrow> u32 \<Rightarrow> chan_st \<Rightarrow> chan_st \<Rightarrow> bool" for e cm where
  event: "apply_event e cm ev st = Done st' \<Longrightarrow> chan_step e cm st st'"
| io: "chan_step e cm (c, fx) (c\<lparr>c_input := i, c_output := j, c_extended := k\<rparr>, fx)"

inductive_cases chan_stepE: "chan_step e cm st st'"

lemma event_advances: "apply_event e cm ev st = Done st' \<Longrightarrow> advances st st'"
  by (cases ev)
    (auto simp: andThen_Done read_failed_advances obuf_empty_advances rcvd_eow_advances
      rcvd_ieof_advances mark_dead_advances
      intro: ibuf_empty_advances rcvd_oclose_advances write_failed_advances is_dead_advances
        force_drain_advances force_close_advances)

lemma step_advances: "chan_step e cm st st' \<Longrightarrow> advances st st'"
  by (erule chan_stepE) (auto intro: event_advances frame_advances)

lemma steps_advance: "(chan_step e cm)\<^sup>*\<^sup>* st st' \<Longrightarrow> advances st st'"
  by (induction rule: rtranclp_induct) (auto dest: step_advances advances_trans)

lemma fresh_close_inv: "fresh_channel i ct ty w m c \<Longrightarrow> close_inv (c, [])"
  by (simp add: fresh_channel_def close_inv_def said_def)

section \<open>Teardown completes\<close>

lemma empty_len: "sshbuf_inv b \<Longrightarrow> contents b = [] \<Longrightarrow> sshbuf_len b = 0"
  using unat_sshbuf_len[of b] by (simp add: word_unat_eq_iff del: unat_sshbuf_len length_contents)

lemma reset_len:
  assumes "sshbuf_inv b" "writable b" "SSHBUF_SIZE_INIT \<le> b_max_size b"
  shows "sshbuf_len (sshbuf_reset alc b) = 0"
  using reset_spec[OF assms(1), of alc] assms by (intro empty_len) auto

lemma is_dead_iff:
  assumes res: "chan_is_dead e cm True st = Done (b, st')"
    and t: "c_type (fst st) \<noteq> SSH_CHANNEL_ZOMBIE" "c_flags (fst st) AND CHAN_LOCAL = 0"
    and cm: "cm AND SSH_BUG_EXTEOF = 0"
  shows "b \<longleftrightarrow> c_istate (fst st) = CHAN_INPUT_CLOSED \<and> c_ostate (fst st) = CHAN_OUTPUT_CLOSED \<and>
           c_flags (fst st) AND CHAN_CLOSE_RCVD \<noteq> 0"
    and "b \<Longrightarrow> c_flags (fst st') AND CHAN_CLOSE_SENT \<noteq> 0"
proof -
  show "b \<longleftrightarrow> c_istate (fst st) = CHAN_INPUT_CLOSED \<and> c_ostate (fst st) = CHAN_OUTPUT_CLOSED \<and>
           c_flags (fst st) AND CHAN_CLOSE_RCVD \<noteq> 0"
    using res t cm
    by (auto simp: chan_is_dead_def Let_def andThen_Done flag_simps split: if_splits
        dest!: send_close2_result)
  show "c_flags (fst st') AND CHAN_CLOSE_SENT \<noteq> 0" if b
    using res t cm that
    by (auto simp: chan_is_dead_def Let_def andThen_Done flag_simps split: if_splits
        dest!: send_close2_result)
qed

lemma is_dead_no_send_iff:
  assumes res: "chan_is_dead e cm False st = Done (b, st')"
    and t: "c_type (fst st) \<noteq> SSH_CHANNEL_ZOMBIE" "c_flags (fst st) AND CHAN_LOCAL = 0"
    and cm: "cm AND SSH_BUG_EXTEOF = 0"
  shows "st' = st" "b \<longleftrightarrow> c_istate (fst st) = CHAN_INPUT_CLOSED \<and> c_ostate (fst st) = CHAN_OUTPUT_CLOSED \<and>
           c_flags (fst st) AND CHAN_CLOSE_RCVD \<noteq> 0"
  using res t cm
  by (auto simp: chan_is_dead_def Let_def andThen_Done flag_simps split: if_splits)

lemma shutdown_keeps [simp]:
  "c_type (fst (chan_shutdown_write e st)) = c_type (fst st)"
  "c_type (fst (chan_shutdown_read st)) = c_type (fst st)"
  "c_type (fst (chan_shutdown_extended_read st)) = c_type (fst st)"
  "c_have_remote_id (fst (chan_shutdown_write e st)) = c_have_remote_id (fst st)"
  "c_have_remote_id (fst (chan_shutdown_read st)) = c_have_remote_id (fst st)"
  "c_have_remote_id (fst (chan_shutdown_extended_read st)) = c_have_remote_id (fst st)"
  "c_output (fst (chan_shutdown_read st)) = c_output (fst st)"
  "c_output (fst (chan_shutdown_extended_read st)) = c_output (fst st)"
  by (simp_all add: chan_shutdown_write_def chan_shutdown_read_def chan_shutdown_extended_read_def
      Let_def frame_simps)

lemma set_keeps [simp]:
  "c_type (fst (chan_set_istate s st)) = c_type (fst st)"
  "c_type (fst (chan_set_ostate t st)) = c_type (fst st)"
  "c_type (fst (set_flag m st)) = c_type (fst st)"
  "c_have_remote_id (fst (chan_set_istate s st)) = c_have_remote_id (fst st)"
  "c_have_remote_id (fst (chan_set_ostate t st)) = c_have_remote_id (fst st)"
  "c_have_remote_id (fst (set_flag m st)) = c_have_remote_id (fst st)"
  "c_output (fst (chan_set_istate s st)) = c_output (fst st)"
  "c_output (fst (chan_set_ostate t st)) = c_output (fst st)"
  "c_output (fst (set_flag m st)) = c_output (fst st)"
  by (simp_all add: chan_set_istate_def chan_set_ostate_def set_flag_def)

lemma send_eof2_ok:
  assumes "c_have_remote_id (fst st)" "\<And>p. e_pkt_ok e p"
  shows "\<exists>st'. chan_send_eof2 e st = Done st' \<and> c_type (fst st') = c_type (fst st) \<and>
    c_have_remote_id (fst st') \<and> c_output (fst st') = c_output (fst st) \<and>
    c_ostate (fst st') = c_ostate (fst st) \<and>
    (\<forall>m. m \<in> {CHAN_CLOSE_SENT, CHAN_CLOSE_RCVD, CHAN_LOCAL} \<longrightarrow>
       c_flags (fst st') AND m = c_flags (fst st) AND m)"
  using assms
  by (cases st, cases "c_istate (fst st) = CHAN_INPUT_WAIT_DRAIN")
    (auto simp: chan_send_eof2_def send_pkt_def Let_def set_flag_def flag_simps)

text \<open>After the peer's CLOSE the receive half is shut and the transmit half at least drains.\<close>

lemma rcvd_oclose_state:
  assumes inv: "close_inv st" and rid: "c_have_remote_id (fst st)" and ok: "\<And>p. e_pkt_ok e p"
    and t: "c_type (fst st) \<noteq> SSH_CHANNEL_LARVAL" and l: "c_flags (fst st) AND CHAN_LOCAL = 0"
  shows "\<exists>st'. chan_rcvd_oclose e st = Done st' \<and> c_istate (fst st') = CHAN_INPUT_CLOSED \<and>
    c_ostate (fst st') \<in> {CHAN_OUTPUT_WAIT_DRAIN, CHAN_OUTPUT_CLOSED} \<and>
    c_flags (fst st') AND CHAN_CLOSE_RCVD \<noteq> 0 \<and> c_flags (fst st') AND CHAN_LOCAL = 0 \<and>
    c_have_remote_id (fst st') \<and> c_type (fst st') = c_type (fst st) \<and>
    c_output (fst st') = c_output (fst st)"
proof -
  define st1 where "st1 = set_flag CHAN_CLOSE_RCVD st"
  define st2 where "st2 = (if c_ostate (fst st1) = CHAN_OUTPUT_OPEN
                   then chan_set_ostate CHAN_OUTPUT_WAIT_DRAIN st1 else st1)"
  have f2: "c_flags (fst st2) = c_flags (fst st) OR CHAN_CLOSE_RCVD"
    "c_istate (fst st2) = c_istate (fst st)" "c_type (fst st2) = c_type (fst st)"
    "c_have_remote_id (fst st2)" "c_output (fst st2) = c_output (fst st)"
    using rid by (simp_all add: st2_def st1_def)
  have o2: "c_ostate (fst st2) \<in> {CHAN_OUTPUT_WAIT_DRAIN, CHAN_OUTPUT_CLOSED}"
    using inv by (cases "c_ostate (fst st)") (auto simp: st2_def st1_def close_inv_def)
  have i2: "c_istate (fst st2) \<noteq> CHAN_INPUT_WAIT_OCLOSE" using inv by (simp add: f2 close_inv_def)
  have eq: "chan_rcvd_oclose e st = (case c_istate (fst st2) of
             CHAN_INPUT_OPEN \<Rightarrow>
               Done (chan_set_istate CHAN_INPUT_CLOSED
                       (chan_shutdown_extended_read (chan_shutdown_read st2)))
           | CHAN_INPUT_WAIT_DRAIN \<Rightarrow>
               andThen (if c_flags (fst st2) AND CHAN_LOCAL = 0 then chan_send_eof2 e st2 else Done st2)
                 (\<lambda>st3. Done (chan_set_istate CHAN_INPUT_CLOSED (chan_shutdown_extended_read st3)))
           | _ \<Rightarrow> Done st2)"
  proof -
    have s1: "(if c_flags (fst st) AND CHAN_LOCAL = 0 then set_flag CHAN_CLOSE_RCVD st else st) = st1"
      using l by (simp add: st1_def)
    have "c_type (fst st1) \<noteq> SSH_CHANNEL_LARVAL" using t by (simp add: st1_def)
    then show ?thesis unfolding chan_rcvd_oclose_def Let_def s1 st2_def[symmetric]
      by (simp only: if_False)
  qed
  obtain st3 where "chan_send_eof2 e st2 = Done st3" "c_type (fst st3) = c_type (fst st2)"
    "c_have_remote_id (fst st3)" "c_output (fst st3) = c_output (fst st2)"
    "c_ostate (fst st3) = c_ostate (fst st2)"
    "\<forall>m. m \<in> {CHAN_CLOSE_SENT, CHAN_CLOSE_RCVD, CHAN_LOCAL} \<longrightarrow>
       c_flags (fst st3) AND m = c_flags (fst st2) AND m"
    using send_eof2_ok[of st2 e] f2(4) ok by metis
  then show ?thesis using i2 o2 f2 l unfolding eq
    by (cases "c_istate (fst st2)") (auto simp: flag_simps)
qed

lemma obuf_empty_closes:
  assumes "sshbuf_len (c_output (fst st)) = 0"
    "c_ostate (fst st) \<in> {CHAN_OUTPUT_WAIT_DRAIN, CHAN_OUTPUT_CLOSED}"
  shows "c_ostate (fst (chan_obuf_empty e st)) = CHAN_OUTPUT_CLOSED"
    "c_istate (fst (chan_obuf_empty e st)) = c_istate (fst st)"
    "c_flags (fst (chan_obuf_empty e st)) = c_flags (fst st)"
    "c_type (fst (chan_obuf_empty e st)) = c_type (fst st)"
    "c_have_remote_id (fst (chan_obuf_empty e st)) = c_have_remote_id (fst st)"
  using assms by (auto simp: chan_obuf_empty_def Let_def)

lemma is_dead_ok:
  assumes "c_have_remote_id (fst st)" "\<And>p. e_pkt_ok e p"
  shows "\<exists>b st'. chan_is_dead e cm True st = Done (b, st')"
  using assms by (auto simp: chan_is_dead_def chan_send_close2_def send_pkt_def Let_def)

lemma close_handshake:
  assumes "close_inv st" "c_have_remote_id (fst st)" "\<And>p. e_pkt_ok e p"
    and t: "c_type (fst st) \<noteq> SSH_CHANNEL_LARVAL" "c_type (fst st) \<noteq> SSH_CHANNEL_ZOMBIE"
    and l: "c_flags (fst st) AND CHAN_LOCAL = 0"
    and cm: "cm AND SSH_BUG_EXTEOF = 0" and out: "sshbuf_len (c_output (fst st)) = 0"
  shows "\<exists>st1 st2. chan_rcvd_oclose e st = Done st1 \<and>
    chan_is_dead e cm True (chan_obuf_empty e st1) = Done (True, st2) \<and>
    c_flags (fst st2) AND CHAN_CLOSE_SENT \<noteq> 0"
proof -
  obtain st1 where 1: "chan_rcvd_oclose e st = Done st1" "c_istate (fst st1) = CHAN_INPUT_CLOSED"
    "c_ostate (fst st1) \<in> {CHAN_OUTPUT_WAIT_DRAIN, CHAN_OUTPUT_CLOSED}"
    "c_flags (fst st1) AND CHAN_CLOSE_RCVD \<noteq> 0" "c_flags (fst st1) AND CHAN_LOCAL = 0"
    "c_have_remote_id (fst st1)" "c_type (fst st1) = c_type (fst st)"
    "c_output (fst st1) = c_output (fst st)"
    using rcvd_oclose_state[OF assms(1-3) t(1) l] by blast
  have o: "sshbuf_len (c_output (fst st1)) = 0" using 1(8) out by simp
  note ob = obuf_empty_closes[OF o 1(3)]
  obtain b st2 where d: "chan_is_dead e cm True (chan_obuf_empty e st1) = Done (b, st2)"
    using is_dead_ok[of "chan_obuf_empty e st1" e cm] ob(5) 1(6) assms(3) by auto
  have "b" using is_dead_iff(1)[OF d _ _ cm] ob 1 t by simp
  moreover from this have "c_flags (fst st2) AND CHAN_CLOSE_SENT \<noteq> 0"
    using is_dead_iff(2)[OF d _ _ cm] ob 1 t by simp
  ultimately show ?thesis using d 1(1) by (intro exI[of _ st1] exI[of _ st2]) simp
qed

lemma ibuf_empty_closes:
  assumes "chan_ibuf_empty e st = Done st'" "sshbuf_len (c_input (fst st)) = 0"
    "c_istate (fst st) = CHAN_INPUT_WAIT_DRAIN"
  shows "c_istate (fst st') = CHAN_INPUT_CLOSED"
  using assms by (auto simp: chan_ibuf_empty_def Let_def andThen_Done)

lemma write_failed_closes:
  assumes "chan_write_failed e cm st = Done st'"
    "c_ostate (fst st) = CHAN_OUTPUT_OPEN \<or> c_ostate (fst st) = CHAN_OUTPUT_WAIT_DRAIN"
  shows "c_ostate (fst st') = CHAN_OUTPUT_CLOSED"
  using assms unfolding chan_write_failed_def Let_def if_P[OF assms(2)] andThen_Done run.inject
  by auto

lemma read_failed_keeps [simp]:
  "c_input (fst (chan_read_failed st)) = c_input (fst st)"
  "c_ostate (fst (chan_read_failed st)) = c_ostate (fst st)"
  by (simp_all add: chan_read_failed_def chan_shutdown_read_def chan_set_istate_def Let_def frame_simps)

lemma ibuf_empty_ostate:
  "chan_ibuf_empty e st = Done st' \<Longrightarrow> c_ostate (fst st') = c_ostate (fst st)"
  by (auto simp: chan_ibuf_empty_def Let_def andThen_Done split: if_splits dest!: send_eof2_result)

lemma write_failed_istate:
  "chan_write_failed e cm st = Done st' \<Longrightarrow> c_istate (fst st') = c_istate (fst st)"
  unfolding chan_write_failed_def Let_def
  using send_eow2_result[of e cm "chan_shutdown_write e st"]
  by (cases "chan_send_eow2 e cm (chan_shutdown_write e st)") (auto split: if_splits)

text \<open>A forced close leaves both halves shut, whatever they were.\<close>

lemma force_close_closes:
  assumes res: "channel_force_close e cm abandon st = Done st'" and inv: "close_inv st"
    and bufs: "bufs_ok (fst st)"
  shows "c_istate (fst st') = CHAN_INPUT_CLOSED \<and> c_ostate (fst st') = CHAN_OUTPUT_CLOSED \<and>
    c_efd (fst st') = -1 \<and> c_inactive_deadline (fst st') = 0"
  using res
proof (cases rule: force_closeE)
  case (1 st1 st2 st3)
  have in1: "c_input (fst st1) = c_input (fst st)" "c_ostate (fst st1) = c_ostate (fst st)"
    unfolding 1(1) by simp_all
  have i1: "c_istate (fst st1) = CHAN_INPUT_WAIT_DRAIN \<or> c_istate (fst st1) = CHAN_INPUT_CLOSED"
    unfolding 1(1) using inv
    by (cases "c_istate (fst st)") (simp_all add: close_inv_def chan_read_failed_def)
  have len: "sshbuf_len (sshbuf_reset (e_alc e) (c_input (fst st1))) = 0"
    using bufs unfolding in1 by (intro reset_len) (auto simp: bufs_ok_def)
  have i2: "c_istate (fst st2) = CHAN_INPUT_CLOSED" "c_ostate (fst st2) = c_ostate (fst st)"
    using 1(2) i1 in1 len by (auto split: if_splits dest: ibuf_empty_closes ibuf_empty_ostate)
  have i3: "c_istate (fst st3) = CHAN_INPUT_CLOSED"
    using 1(3) i2 by (auto split: if_splits dest: write_failed_istate)
  have o3: "c_ostate (fst st3) = CHAN_OUTPUT_CLOSED"
  proof (cases "c_ostate (fst st) = CHAN_OUTPUT_CLOSED")
    case True
    then show ?thesis using 1(3) i2 by simp
  next
    case False
    with inv have "c_ostate (fst st2) = CHAN_OUTPUT_OPEN \<or> c_ostate (fst st2) = CHAN_OUTPUT_WAIT_DRAIN"
      unfolding i2 by (cases "c_ostate (fst st)") (simp_all add: close_inv_def)
    with 1(3) show ?thesis by (auto intro: write_failed_closes)
  qed
  show ?thesis using 1 i3 o3 by simp
qed

end
