(* ===== verification/ChanMux.thy ===== *)
theory ChanMux
  imports Nchan
begin

text \<open>
  The multiplexing proxy of \<open>channels.c\<close>: messages of a multiplexing client on their way to the
  server get channel numbers of this process in place of the client's, messages of the server get
  the client's number back, and a proxy channel is released when both sides have sent CLOSE.
  The incoming packet is the buffer \<open>pkt\<close>, read with the \<open>sshbuf_get_*\<close> that \<open>sshpkt_get_*\<close> wrap.
\<close>

section \<open>Strings and chained puts\<close>

definition cstr :: "u8 list \<Rightarrow> string" where
  "cstr bs = map (\<lambda>b. char_of (unat b)) (takeWhile (\<lambda>x. x \<noteq> 0) bs)"

definition bytes_of :: "string \<Rightarrow> u8 list" where
  "bytes_of s = map (\<lambda>c. word_of_nat (of_char c)) s"

text \<open>A chain of puts, each run when the ones before returned 0.\<close>

fun puts :: "(sshbuf \<Rightarrow> unit res \<times> sshbuf) list \<Rightarrow> sshbuf \<Rightarrow> unit res \<times> sshbuf" where
  "puts [] b = (Inr (), b)"
| "puts (f # fs) b = (case f b of (Inl r, b1) \<Rightarrow> (Inl r, b1) | (Inr _, b1) \<Rightarrow> puts fs b1)"

section \<open>From the server to the client\<close>

definition proxied_types :: "nat set" where
  "proxied_types = {SSH2_MSG_CHANNEL_CLOSE, SSH2_MSG_CHANNEL_DATA, SSH2_MSG_CHANNEL_EOF,
     SSH2_MSG_CHANNEL_EXTENDED_DATA, SSH2_MSG_CHANNEL_OPEN_CONFIRMATION,
     SSH2_MSG_CHANNEL_OPEN_FAILURE, SSH2_MSG_CHANNEL_WINDOW_ADJUST, SSH2_MSG_CHANNEL_SUCCESS,
     SSH2_MSG_CHANNEL_FAILURE, SSH2_MSG_CHANNEL_REQUEST}"

text \<open>The message as the client sees it, appended to the client's output buffer.\<close>

definition forward_upstream :: "env \<Rightarrow> u32 \<Rightarrow> nat \<Rightarrow> sshbuf \<Rightarrow> sshbuf \<Rightarrow> sshbuf" where
  "forward_upstream e downstream_id type pkt out =
     (case sshbuf_new (e_alc e) of
        None \<Rightarrow> out
      | Some b \<Rightarrow>
        if sshbuf_ptr pkt = None then out
        else case puts [\<lambda>x. sshbuf_put_u8 (e_alc e) x 0,
                        \<lambda>x. sshbuf_put_u8 (e_alc e) x (word_of_nat type),
                        \<lambda>x. sshbuf_put_u32 (e_alc e) x downstream_id,
                        \<lambda>x. sshbuf_put (e_alc e) x (contents pkt)] b of
               (Inl r, b1) \<Rightarrow> out
             | (Inr _, b1) \<Rightarrow> snd (sshbuf_put_stringb (e_alc e) out (Some b1)))"

text \<open>
  The first result says whether the message was the proxy's. A proxy whose client's slot is free
  would write through a dangling pointer; that is the outcome \<open>Fatal\<close> here.
\<close>

definition channel_proxy_upstream :: "env \<Rightarrow> ssh \<Rightarrow> nat \<Rightarrow> nat \<Rightarrow> sshbuf \<Rightarrow> (bool \<times> ssh) run" where
  "channel_proxy_upstream e ssh i type pkt =
     (case s_channels ssh ! i of
        None \<Rightarrow> Done (False, ssh)
      | Some c \<Rightarrow>
        (case c_mux_ctx c of
           None \<Rightarrow> Done (False, ssh)
         | Some d \<Rightarrow>
           if c_type c \<noteq> SSH_CHANNEL_MUX_PROXY \<or> type \<notin> proxied_types then Done (False, ssh)
           else
             (case chan ssh d of
                None \<Rightarrow> Fatal
              | Some ds \<Rightarrow>
                let ssh1 = set_slot d (Some (ds\<lparr>c_output :=
                      forward_upstream e (c_mux_downstream_id c) type pkt (c_output ds)\<rparr>)) ssh
                in if type = SSH2_MSG_CHANNEL_OPEN_CONFIRMATION then
                     Done (True, if length (contents pkt) > 4
                       then set_slot i (Some (c\<lparr>c_remote_id := PEEK_U32 (take 4 (contents pkt)),
                                               c_have_remote_id := True\<rparr>)) ssh1
                       else ssh1)
                   else if type = SSH2_MSG_CHANNEL_CLOSE then
                     (if c_flags c AND CHAN_CLOSE_SENT \<noteq> 0
                      then andThen (channel_free e ssh1 i) (\<lambda>ssh2. Done (True, ssh2))
                      else Done (True, set_slot i (Some (c\<lparr>c_flags := c_flags c OR CHAN_CLOSE_RCVD\<rparr>)) ssh1))
                   else Done (True, ssh1))))"

section \<open>From the client to the server\<close>

text \<open>
  A proxy channel for the message \<open>original\<close> of the client in slot \<open>d\<close>: \<open>first\<close> puts what precedes
  the channel number, and \<open>original\<close> holds what follows it.
\<close>

definition proxy_new ::
    "env \<Rightarrow> ssh \<Rightarrow> nat \<Rightarrow> string \<Rightarrow> u32 \<Rightarrow> u32 option \<Rightarrow> (sshbuf \<Rightarrow> unit res \<times> sshbuf) \<Rightarrow> sshbuf \<Rightarrow>
     sshbuf \<Rightarrow> (u8 list option \<times> ssh) run" where
  "proxy_new e ssh d name downstream_id remote_id first modified original =
     andThen (channel_new e ssh ''mux-proxy'' SSH_CHANNEL_MUX_PROXY (-1) (-1) (-1) 0 0
                CHAN_EXTENDED_IGNORE name CHANNEL_NONBLOCK_SET)
       (\<lambda>(i, ssh1). case s_channels ssh1 ! i of
          None \<Rightarrow> Fatal
        | Some c \<Rightarrow>
          let c1 = c\<lparr>c_mux_ctx := Some d, c_mux_downstream_id := downstream_id\<rparr>;
              c2 = (case remote_id of None \<Rightarrow> c1
                    | Some rid \<Rightarrow> c1\<lparr>c_remote_id := rid, c_have_remote_id := True\<rparr>);
              ssh2 = set_slot i (Some c2) ssh1
          in case puts [first, \<lambda>x. sshbuf_put_u32 (e_alc e) x (word_of_nat (c_self c2)),
                        \<lambda>x. sshbuf_putb (e_alc e) x (Some original)] modified of
               (Inl r, _) \<Rightarrow> andThen (channel_free e ssh2 i) (\<lambda>ssh3. Done (None, ssh3))
             | (Inr _, m) \<Rightarrow> Done (Some (contents m), ssh2))"

text \<open>
  The four messages that are looked at; the rest goes through as it is. \<open>down_send\<close> is the tail of
  the function: what it sends, and its result.
\<close>

definition down_send :: "env \<Rightarrow> nat \<Rightarrow> u8 list \<Rightarrow> ssh \<Rightarrow> (int \<times> ssh) run" where
  "down_send e type bs ssh =
     (let p = Packet type [PUT_RAW bs] in
      if e_pkt_ok e p then Done (0, emit (Send p) ssh) else Done (-1, ssh))"

definition down_made :: "env \<Rightarrow> nat \<Rightarrow> u8 list option \<times> ssh \<Rightarrow> (int \<times> ssh) run" where
  "down_made e type = (\<lambda>(m, ssh). case m of None \<Rightarrow> Done (-1, ssh) | Some bs \<Rightarrow> down_send e type bs ssh)"

definition down_open :: "env \<Rightarrow> ssh \<Rightarrow> nat \<Rightarrow> sshbuf option \<Rightarrow> (int \<times> ssh) run" where
  "down_open e ssh d from =
     (case (from, sshbuf_new (e_alc e)) of
        (Some original, Some modified) \<Rightarrow>
          (case sshbuf_get_cstring (e_alc e) original of
             (Inl r, _) \<Rightarrow> Done (-1, ssh)
           | (Inr ctype, o1) \<Rightarrow>
             (case sshbuf_get_u32 o1 of
                (Inl r, _) \<Rightarrow> Done (-1, ssh)
              | (Inr cid, o2) \<Rightarrow>
                andThen (proxy_new e ssh d (cstr ctype) cid None
                           (\<lambda>x. sshbuf_put_cstring (e_alc e) x (Some ctype)) modified o2)
                  (down_made e SSH2_MSG_CHANNEL_OPEN)))
      | _ \<Rightarrow> Done (-1, ssh))"

definition down_confirm :: "env \<Rightarrow> ssh \<Rightarrow> nat \<Rightarrow> sshbuf option \<Rightarrow> (int \<times> ssh) run" where
  "down_confirm e ssh d from =
     (case (from, sshbuf_new (e_alc e)) of
        (Some original, Some modified) \<Rightarrow>
          (case sshbuf_get_u32 original of
             (Inl r, _) \<Rightarrow> Done (-1, ssh)
           | (Inr remote_id, o1) \<Rightarrow>
             (case sshbuf_get_u32 o1 of
                (Inl r, _) \<Rightarrow> Done (-1, ssh)
              | (Inr cid, o2) \<Rightarrow>
                andThen (proxy_new e ssh d ''mux-down-connect'' cid (Some remote_id)
                           (\<lambda>x. sshbuf_put_u32 (e_alc e) x remote_id) modified o2)
                  (down_made e SSH2_MSG_CHANNEL_OPEN_CONFIRMATION)))
      | _ \<Rightarrow> Done (-1, ssh))"

definition down_global :: "env \<Rightarrow> ssh \<Rightarrow> nat \<Rightarrow> sshbuf option \<Rightarrow> u8 list \<Rightarrow> (int \<times> ssh) run" where
  "down_global e ssh d from body =
     (case from of
        None \<Rightarrow> Done (-1, ssh)
      | Some original \<Rightarrow>
        (case sshbuf_get_cstring (e_alc e) original of
           (Inl r, _) \<Rightarrow> Done (-1, ssh)
         | (Inr ctype, o1) \<Rightarrow>
           if cstr ctype \<noteq> ''tcpip-forward'' then Done (-1, ssh)
           else
             (case sshbuf_get_u8 o1 of
                (Inl r, _) \<Rightarrow> Done (-1, ssh)
              | (Inr _, o2) \<Rightarrow>
                (case sshbuf_get_cstring (e_alc e) o2 of
                   (Inl r, _) \<Rightarrow> Done (-1, ssh)
                 | (Inr listen_host, o3) \<Rightarrow>
                   (case sshbuf_get_u32 o3 of
                      (Inl r, _) \<Rightarrow> Done (-1, ssh)
                    | (Inr listen_port, o4) \<Rightarrow>
                      if listen_port > 65535 then Done (-1, ssh)
                      else andThen (permission_set_add ssh FORWARD_USER FORWARD_LOCAL
                               (Some ''<mux>'') (-1) (Some (cstr listen_host)) None
                               (uint listen_port) (Some d))
                             (\<lambda>r. down_send e SSH2_MSG_GLOBAL_REQUEST body (snd r)))))))"

definition down_close :: "env \<Rightarrow> ssh \<Rightarrow> u8 list \<Rightarrow> (int \<times> ssh) run" where
  "down_close e ssh body =
     (if length body < 4 then down_send e SSH2_MSG_CHANNEL_CLOSE body ssh
      else
        (case channel_by_remote_id ssh (PEEK_U32 (take 4 body)) of
           None \<Rightarrow> down_send e SSH2_MSG_CHANNEL_CLOSE body ssh
         | Some c \<Rightarrow>
           if c_flags c AND CHAN_CLOSE_RCVD \<noteq> 0
           then andThen (channel_free e ssh (c_self c)) (down_send e SSH2_MSG_CHANNEL_CLOSE body)
           else down_send e SSH2_MSG_CHANNEL_CLOSE body (set_slot (c_self c)
                  (Some (c\<lparr>c_flags := c_flags c OR CHAN_CLOSE_SENT\<rparr>)) ssh)))"

definition channel_proxy_downstream :: "env \<Rightarrow> ssh \<Rightarrow> nat \<Rightarrow> (int \<times> ssh) run" where
  "channel_proxy_downstream e ssh d =
     (case s_channels ssh ! d of
        None \<Rightarrow> Fatal
      | Some ds \<Rightarrow>
        (case sshbuf_get_string_direct (c_input ds) of
           (Inl r, inp) \<Rightarrow> Done (-1, set_slot d (Some (ds\<lparr>c_input := inp\<rparr>)) ssh)
         | (Inr cp, inp) \<Rightarrow>
           let ssh0 = set_slot d (Some (ds\<lparr>c_input := inp\<rparr>)) ssh in
           if length cp < 2 then Done (-1, ssh0)
           else
             let type = unat (cp ! 1); body = drop 2 cp;
                 from = sshbuf_from (e_alc e) (b_cd (c_input ds)) body (word_of_nat (length body))
             in if type = SSH2_MSG_CHANNEL_OPEN then down_open e ssh0 d from
                else if type = SSH2_MSG_CHANNEL_OPEN_CONFIRMATION then down_confirm e ssh0 d from
                else if type = SSH2_MSG_GLOBAL_REQUEST then down_global e ssh0 d from body
                else if type = SSH2_MSG_CHANNEL_CLOSE then down_close e ssh0 body
                else down_send e type body ssh0))"

section \<open>What a chain of puts appends\<close>

definition puts_like :: "(sshbuf \<Rightarrow> unit res \<times> sshbuf) \<Rightarrow> u8 list \<Rightarrow> bool" where
  "puts_like f bs \<longleftrightarrow> (\<forall>b r b'. sshbuf_inv b \<longrightarrow> f b = (r, b') \<longrightarrow> put_post b bs r b')"

lemma puts_append:
  assumes "list_all2 puts_like fs bss" "sshbuf_inv b" "puts fs b = (Inr u, b')"
  shows "sshbuf_inv b' \<and> contents b' = contents b @ concat bss"
  using assms
proof (induction fs bss arbitrary: b rule: list_all2_induct)
  case (Cons f fs bs bss)
  obtain r b1 where f: "f b = (r, b1)" by fastforce
  have post: "put_post b bs r b1" using Cons.hyps(1) Cons.prems(1) f by (auto simp: puts_like_def)
  from Cons.prems(2) f obtain u where r: "r = Inr u" and rest: "puts fs b1 = (Inr (), b')"
    by (cases r) auto
  from post r have "sshbuf_inv b1" "contents b1 = contents b @ bs" by (auto simp: put_post_def)
  with Cons.IH rest show ?case by simp
qed simp

lemma puts_like_rules:
  "puts_like (\<lambda>x. sshbuf_put_u8 alc x v) [v]"
  "puts_like (\<lambda>x. sshbuf_put_u32 alc x w) (POKE_U32 w)"
  "length bs < 2 ^ 64 \<Longrightarrow> puts_like (\<lambda>x. sshbuf_put alc x bs) bs"
  "length bs < 2 ^ 64 \<Longrightarrow>
     puts_like (\<lambda>x. sshbuf_put_cstring alc x (Some bs)) (enc_string (takeWhile (\<lambda>x. x \<noteq> 0) bs))"
  "sshbuf_inv v2 \<Longrightarrow> puts_like (\<lambda>x. sshbuf_putb alc x (Some v2)) (contents v2)"
  unfolding puts_like_def
  by (simp_all add: put_int_post(2,4) put_bytes_post put_cstring_post putb_post)

lemma forward_upstream_spec:
  assumes "sshbuf_inv out" "sshbuf_inv pkt"
  shows "sshbuf_inv (forward_upstream e cid type pkt out) \<and>
    same_shape out (forward_upstream e cid type pkt out) \<and>
    contents (forward_upstream e cid type pkt out) \<in>
      {contents out,
       contents out @ enc_string ([0, word_of_nat type] @ POKE_U32 cid @ contents pkt)}"
proof (cases "sshbuf_new (e_alc e)")
  case None
  with assms show ?thesis by (simp add: forward_upstream_def)
next
  case (Some b)
  let ?fs = "[\<lambda>x. sshbuf_put_u8 (e_alc e) x 0, \<lambda>x. sshbuf_put_u8 (e_alc e) x (word_of_nat type),
              \<lambda>x. sshbuf_put_u32 (e_alc e) x cid, \<lambda>x. sshbuf_put (e_alc e) x (contents pkt)]"
  obtain r b1 where p: "puts ?fs b = (r, b1)" by fastforce
  show ?thesis
  proof (cases "sshbuf_ptr pkt = None \<or> isl r")
    case True
    with Some p assms show ?thesis
      by (auto simp: forward_upstream_def simp del: puts.simps split: sum.splits)
  next
    case False
    then obtain u where r: "r = Inr u" by (cases r) auto
    have "list_all2 puts_like ?fs [[0], [word_of_nat type], POKE_U32 cid, contents pkt]"
      using contents_fits[OF assms(2)] by (simp add: puts_like_rules)
    from puts_append[OF this _ p[unfolded r]] new_spec[OF Some]
    have b1: "sshbuf_inv b1" "contents b1 = [0, word_of_nat type] @ POKE_U32 cid @ contents pkt" by auto
    obtain r2 out2 where o: "sshbuf_put_stringb (e_alc e) out (Some b1) = (r2, out2)" by fastforce
    have "forward_upstream e cid type pkt out = out2"
      using Some False p r o by (auto simp: forward_upstream_def simp del: puts.simps)
    with put_stringb_post[OF assms(1) b1(1) o] show ?thesis
      by (cases r2) (simp_all add: put_post_def b1(2))
  qed
qed

section \<open>References stay live\<close>

lemma refs_ok_cong:
  assumes "\<And>j. map_option (\<lambda>c. (c_type c, c_mux_ctx c)) (chan ssh' j) =
      map_option (\<lambda>c. (c_type c, c_mux_ctx c)) (chan ssh j)"
    and "ps_permitted_user (s_local_perms ssh') = ps_permitted_user (s_local_perms ssh)"
    and "refs_ok ssh"
  shows "refs_ok ssh'"
proof -
  have live: "live_mux_client ssh' d = live_mux_client ssh d" for d
    using assms(1)[of d] by (cases "chan ssh d"; cases "chan ssh' d") (auto simp: live_mux_client_def)
  have "live_mux_client ssh d"
    if "chan ssh' j = Some c" "c_type c = SSH_CHANNEL_MUX_PROXY" "c_mux_ctx c = Some d" for j c d
  proof -
    from assms(1)[of j] that obtain c0 where "chan ssh j = Some c0" "c_type c0 = SSH_CHANNEL_MUX_PROXY"
      "c_mux_ctx c0 = Some d" by (cases "chan ssh j") auto
    with assms(3) show ?thesis by (auto simp: refs_ok_def)
  qed
  with assms(2,3) show ?thesis by (auto simp: refs_ok_def live)
qed

lemma refs_ok_set_slot:
  assumes "refs_ok ssh" "chan ssh i = Some c" "c_type c' = c_type c" "c_mux_ctx c' = c_mux_ctx c"
  shows "refs_ok (set_slot i (Some c') ssh)"
  using assms(2-) by (intro refs_ok_cong[OF _ _ assms(1)]) (auto simp: chan_set_slot)

lemma refs_ok_emit [simp]: "refs_ok (emit x ssh) = refs_ok ssh"
  unfolding refs_ok_def live_mux_client_def chan_emit by (simp add: emit_def)

lemma proxy_upstream_refs_ok:
  assumes refs: "refs_ok ssh" and res: "channel_proxy_upstream e ssh i type pkt = Done (b, ssh')"
    and i: "chan ssh i = Some c"
  shows "refs_ok ssh'"
proof (cases "c_mux_ctx c = None \<or> c_type c \<noteq> SSH_CHANNEL_MUX_PROXY \<or> type \<notin> proxied_types")
  case True
  with res refs chan_nth[OF i] show ?thesis
    by (auto simp: channel_proxy_upstream_def split: option.splits if_splits)
next
  case False
  then obtain d where d: "c_mux_ctx c = Some d" by auto
  have "live_mux_client ssh d" using refs False i d unfolding refs_ok_def by metis
  then obtain ds where ds: "chan ssh d = Some ds" "c_type ds = SSH_CHANNEL_MUX_CLIENT"
    by (auto simp: live_mux_client_def)
  define ssh1 where "ssh1 = set_slot d (Some (ds\<lparr>c_output :=
      forward_upstream e (c_mux_downstream_id c) type pkt (c_output ds)\<rparr>)) ssh"
  have r1: "refs_ok ssh1" unfolding ssh1_def by (rule refs_ok_set_slot[OF refs ds(1)]) simp_all
  have "i \<noteq> d" using False ds i by auto
  then have i1: "chan ssh1 i = Some c" by (simp add: ssh1_def chan_set_slot i)
  have "(if type = SSH2_MSG_CHANNEL_OPEN_CONFIRMATION then
           Done (True, if length (contents pkt) > 4
             then set_slot i (Some (c\<lparr>c_remote_id := PEEK_U32 (take 4 (contents pkt)),
                                     c_have_remote_id := True\<rparr>)) ssh1
             else ssh1)
         else if type = SSH2_MSG_CHANNEL_CLOSE then
           (if c_flags c AND CHAN_CLOSE_SENT \<noteq> 0
            then andThen (channel_free e ssh1 i) (\<lambda>ssh2. Done (True, ssh2))
            else Done (True, set_slot i (Some (c\<lparr>c_flags := c_flags c OR CHAN_CLOSE_RCVD\<rparr>)) ssh1))
         else Done (True, ssh1)) = Done (b, ssh')"
    using res chan_nth[OF i] d ds(1) False
    unfolding channel_proxy_upstream_def Let_def ssh1_def by simp
  then have "ssh' = ssh1 \<or> channel_free e ssh1 i = Done ssh' \<or>
      ssh' = set_slot i (Some (c\<lparr>c_remote_id := PEEK_U32 (take 4 (contents pkt)),
                               c_have_remote_id := True\<rparr>)) ssh1 \<or>
      ssh' = set_slot i (Some (c\<lparr>c_flags := c_flags c OR CHAN_CLOSE_RCVD\<rparr>)) ssh1"
    by (auto simp: andThen_Done split: if_splits)
  then show ?thesis
    using r1 channel_free_refs_ok[OF r1 _ i1] by (auto intro!: refs_ok_set_slot[OF r1 i1])
qed

lemma proxy_new_refs_ok:
  assumes refs: "refs_ok ssh" and d: "live_mux_client ssh d"
    and res: "proxy_new e ssh d name cid rid first m orig = Done (r, ssh')"
  shows "refs_ok ssh'"
proof -
  from res obtain i ssh1 c where
    n: "channel_new e ssh ''mux-proxy'' SSH_CHANNEL_MUX_PROXY (-1) (-1) (-1) 0 0
                CHAN_EXTENDED_IGNORE name CHANNEL_NONBLOCK_SET = Done (i, ssh1)"
    and c: "s_channels ssh1 ! i = Some c"
    by (auto simp: proxy_new_def andThen_Done split: option.splits)
  from channel_new_chan[OF n] obtain ca where ca: "fresh_channel i ''mux-proxy'' SSH_CHANNEL_MUX_PROXY 0 0 ca"
    "chan ssh i = None" "\<And>j. chan ssh1 j = (if j = i then Some ca else chan ssh j)"
    "s_local_perms ssh1 = s_local_perms ssh" by auto
  have "ca = c" using chan_nth[of ssh1 i ca] ca(3) c by simp
  note ch = ca[unfolded this]
  have i: "i < length (s_channels ssh1)" using chan_nth[of ssh1 i c] ch(3) by simp
  have di: "d \<noteq> i" using d ch(2) by (auto simp: live_mux_client_def)
  have refs2: "refs_ok (set_slot i (Some c2) ssh1)"
    if "c_type c2 = SSH_CHANNEL_MUX_PROXY" "c_mux_ctx c2 = Some d" for c2
  proof -
    have live: "live_mux_client (set_slot i (Some c2) ssh1) x" if "live_mux_client ssh x" for x
      using that ch(2) by (auto simp: live_mux_client_def chan_set_slot ch(3) i)
    show ?thesis unfolding refs_ok_def
    proof (intro conjI allI impI)
      fix j x y assume "chan (set_slot i (Some c2) ssh1) j = Some x"
        "c_type x = SSH_CHANNEL_MUX_PROXY" "c_mux_ctx x = Some y"
      with refs d that(2) show "live_mux_client (set_slot i (Some c2) ssh1) y"
        by (intro live) (auto simp: chan_set_slot ch(3) i refs_ok_def split: if_splits)
    next
      fix p y assume "p \<in> set (ps_permitted_user (s_local_perms (set_slot i (Some c2) ssh1)))"
        "p_downstream p = Some y"
      with refs show "live_mux_client (set_slot i (Some c2) ssh1) y"
        by (intro live) (auto simp: ch(4) refs_ok_def)
    qed
  qed
  define c2 where "c2 = (case rid of None \<Rightarrow> c\<lparr>c_mux_ctx := Some d, c_mux_downstream_id := cid\<rparr>
                    | Some rid \<Rightarrow> c\<lparr>c_mux_ctx := Some d, c_mux_downstream_id := cid\<rparr>
                        \<lparr>c_remote_id := rid, c_have_remote_id := True\<rparr>)"
  have c2: "c_type c2 = SSH_CHANNEL_MUX_PROXY" "c_mux_ctx c2 = Some d"
    using ch(1) by (auto simp: c2_def fresh_channel_def split: option.splits)
  have at: "chan (set_slot i (Some c2) ssh1) i = Some c2" by (simp add: chan_set_slot i)
  have "ssh' = set_slot i (Some c2) ssh1 \<or> channel_free e (set_slot i (Some c2) ssh1) i = Done ssh'"
    using res n c unfolding proxy_new_def Let_def
    by (simp add: andThen_Done c2_def[symmetric] del: puts.simps split: prod.splits sum.splits)
  then show ?thesis using refs2[OF c2] channel_free_refs_ok[OF refs2[OF c2] _ at] by blast
qed

lemma live_set_slot:
  "live_mux_client ssh d \<Longrightarrow> chan ssh i = Some c \<Longrightarrow> c_type c' = c_type c \<Longrightarrow>
   live_mux_client (set_slot i (Some c') ssh) d"
  by (auto simp: live_mux_client_def chan_set_slot)

lemma live_emit [simp]: "live_mux_client (emit x ssh) d = live_mux_client ssh d"
  by (simp add: live_mux_client_def)

lemma add_downstream_refs_ok:
  assumes "refs_ok ssh" "live_mux_client ssh d"
    "permission_set_add ssh FORWARD_USER FORWARD_LOCAL h p lh lp lport (Some d) = Done (n, ssh')"
  shows "refs_ok ssh'"
proof -
  have "chan ssh' = chan ssh"
    and "set (ps_permitted_user (s_local_perms ssh')) = set (ps_permitted_user (s_local_perms ssh)) \<union>
      {\<lparr>p_host_to_connect = h, p_port_to_connect = p, p_listen_host = lh, p_listen_path = lp,
        p_listen_port = lport, p_downstream = Some d\<rparr>}"
    using assms(3) by (auto simp: permission_set_add_def Let_def chan_def fun_eq_iff split: if_splits)
  with assms(1,2) show ?thesis by (auto simp: refs_ok_def live_mux_client_def)
qed

definition self_ok :: "ssh \<Rightarrow> bool" where
  "self_ok ssh \<longleftrightarrow> (\<forall>i c. chan ssh i = Some c \<longrightarrow> c_self c = i)"

lemma table_self: "table_ok ssh \<Longrightarrow> self_ok ssh"
  by (simp add: table_ok_def self_ok_def)

lemma by_remote_id_slot:
  assumes "self_ok ssh" "channel_by_remote_id ssh rid = Some c"
  shows "chan ssh (c_self c) = Some c \<and> c_remote_id c = rid \<and> c_have_remote_id c"
proof -
  from assms(2) obtain i where i: "i < length (s_channels ssh)" "s_channels ssh ! i = Some c"
    "c_have_remote_id c \<and> c_remote_id c = rid"
    by (auto simp: channel_by_remote_id_def find_Some_iff split: option.splits)
  then have "chan ssh i = Some c" by (simp add: chan_def)
  with i assms(1) show ?thesis by (auto simp: self_ok_def)
qed

lemma down_send_refs: "refs_ok s \<Longrightarrow> keeps refs_ok (down_send e ty bs s)"
  by (simp add: keeps_def down_send_def Let_def)

lemma down_made_refs:
  assumes "refs_ok ssh" "live_mux_client ssh d"
  shows "keeps refs_ok (andThen (proxy_new e ssh d name cid rid first m orig) (down_made e ty))"
proof (rule keeps_andThen[where Q = refs_ok])
  show "keeps refs_ok (proxy_new e ssh d name cid rid first m orig)"
    using proxy_new_refs_ok[OF assms] by (auto simp: keeps_def)
  show "keeps refs_ok (down_made e ty (x, s))" if "refs_ok s" for x s
    using that down_send_refs by (auto simp: down_made_def keeps_def split: option.splits)
qed

lemma down_open_refs:
  "refs_ok ssh \<Longrightarrow> live_mux_client ssh d \<Longrightarrow> keeps refs_ok (down_open e ssh d from)"
  unfolding down_open_def
  by (intro keeps_option keeps_prod keeps_sum keeps_Done down_made_refs | assumption | simp only: prod.case)+

lemma down_confirm_refs:
  "refs_ok ssh \<Longrightarrow> live_mux_client ssh d \<Longrightarrow> keeps refs_ok (down_confirm e ssh d from)"
  unfolding down_confirm_def
  by (intro keeps_option keeps_prod keeps_sum keeps_Done down_made_refs | assumption | simp only: prod.case)+

lemma add_then_send_refs:
  assumes "refs_ok ssh" "live_mux_client ssh d"
  shows "keeps refs_ok (andThen (permission_set_add ssh FORWARD_USER FORWARD_LOCAL h p lh lp lport (Some d))
    (\<lambda>r. down_send e ty body (snd r)))"
proof (rule keeps_then, rule down_send_refs)
  fix r assume "permission_set_add ssh FORWARD_USER FORWARD_LOCAL h p lh lp lport (Some d) = Done r"
  then show "refs_ok (snd r)" by (cases r) (auto intro: add_downstream_refs_ok[OF assms])
qed

lemma down_global_refs:
  "refs_ok ssh \<Longrightarrow> live_mux_client ssh d \<Longrightarrow> keeps refs_ok (down_global e ssh d from body)"
  unfolding down_global_def
  by (intro keeps_option keeps_prod keeps_sum keeps_Done keeps_if add_then_send_refs | assumption)+

lemma down_close_refs:
  assumes "refs_ok ssh" "self_ok ssh"
  shows "keeps refs_ok (down_close e ssh body)"
proof (cases "length body < 4 \<or> channel_by_remote_id ssh (PEEK_U32 (take 4 body)) = None")
  case True
  then show ?thesis using assms down_send_refs by (auto simp: down_close_def split: option.splits)
next
  case False
  then obtain c where c: "channel_by_remote_id ssh (PEEK_U32 (take 4 body)) = Some c" by auto
  note slot = by_remote_id_slot[OF assms(2) c, THEN conjunct1]
  have "keeps refs_ok (andThen (channel_free e ssh (c_self c)) (down_send e SSH2_MSG_CHANNEL_CLOSE body))"
    by (rule keeps_then, rule down_send_refs, rule channel_free_refs_ok[OF assms(1) _ slot])
  moreover have "refs_ok (set_slot (c_self c) (Some (c\<lparr>c_flags := m\<rparr>)) ssh)" for m
    by (rule refs_ok_set_slot[OF assms(1) slot]) simp_all
  ultimately show ?thesis using False c down_send_refs by (simp add: down_close_def)
qed

lemma proxy_downstream_refs_ok:
  assumes tab: "table_ok ssh" and refs: "refs_ok ssh" and d: "live_mux_client ssh d"
    and res: "channel_proxy_downstream e ssh d = Done (r, ssh')"
  shows "refs_ok ssh'"
proof -
  obtain ds where ds: "chan ssh d = Some ds" using d by (auto simp: live_mux_client_def)
  obtain g inp where g: "sshbuf_get_string_direct (c_input ds) = (g, inp)" by fastforce
  define ssh0 where "ssh0 = set_slot d (Some (ds\<lparr>c_input := inp\<rparr>)) ssh"
  have r0: "refs_ok ssh0" unfolding ssh0_def by (rule refs_ok_set_slot[OF refs ds(1)]) simp_all
  have d0: "live_mux_client ssh0 d" unfolding ssh0_def by (rule live_set_slot[OF d ds(1)]) simp
  have self: "self_ok ssh0"
    using tab ds(1) by (auto simp: ssh0_def chan_set_slot table_ok_def self_ok_def)
  have "keeps refs_ok (channel_proxy_downstream e ssh d)"
    unfolding channel_proxy_downstream_def chan_nth[OF ds, THEN conjunct1] option.case g prod.case
      Let_def ssh0_def[symmetric]
    by (intro keeps_sum keeps_if keeps_Done r0 down_open_refs down_confirm_refs down_global_refs
        down_close_refs down_send_refs d0 self)
  then show ?thesis using res by (rule keepsD)
qed

section \<open>The numbers are translated\<close>

text \<open>
  An OPEN of the client for its channel \<open>cid\<close> reaches the server as an OPEN for a new proxy channel,
  and a message for the proxy comes back to the client under \<open>cid\<close>.
\<close>

lemma proxy_new_sends:
  assumes res: "proxy_new e ssh d name cid rid first m orig = Done (Some bs, ssh')"
    and f: "puts_like first fb" and m: "sshbuf_inv m" "contents m = []" and o: "sshbuf_inv orig"
  shows "\<exists>i c. chan ssh i = None \<and> chan ssh' i = Some c \<and> c_type c = SSH_CHANNEL_MUX_PROXY \<and>
    c_mux_ctx c = Some d \<and> c_mux_downstream_id c = cid \<and> c_self c = i \<and> c_flags c = 0 \<and>
    bs = fb @ POKE_U32 (word_of_nat i) @ contents orig \<and> s_effects ssh' = s_effects ssh \<and>
    (\<forall>j. j \<noteq> i \<longrightarrow> chan ssh' j = chan ssh j)"
proof -
  from res obtain i ssh1 c where
    n: "channel_new e ssh ''mux-proxy'' SSH_CHANNEL_MUX_PROXY (-1) (-1) (-1) 0 0
                CHAN_EXTENDED_IGNORE name CHANNEL_NONBLOCK_SET = Done (i, ssh1)"
    and c: "s_channels ssh1 ! i = Some c"
    by (auto simp: proxy_new_def andThen_Done split: option.splits)
  from channel_new_chan[OF n] obtain ca where ca: "fresh_channel i ''mux-proxy'' SSH_CHANNEL_MUX_PROXY 0 0 ca"
    "chan ssh i = None" "\<And>j. chan ssh1 j = (if j = i then Some ca else chan ssh j)"
    "s_effects ssh1 = s_effects ssh" by auto
  have "ca = c" using chan_nth[of ssh1 i ca] ca(3) c by simp
  note ch = ca[unfolded this]
  have i: "i < length (s_channels ssh1)" using chan_nth[of ssh1 i c] ch(3) by simp
  define c2 where "c2 = (case rid of None \<Rightarrow> c\<lparr>c_mux_ctx := Some d, c_mux_downstream_id := cid\<rparr>
                    | Some rid \<Rightarrow> c\<lparr>c_mux_ctx := Some d, c_mux_downstream_id := cid\<rparr>
                        \<lparr>c_remote_id := rid, c_have_remote_id := True\<rparr>)"
  have c2: "c_type c2 = SSH_CHANNEL_MUX_PROXY" "c_mux_ctx c2 = Some d" "c_mux_downstream_id c2 = cid"
    "c_self c2 = i" "c_flags c2 = 0"
    using ch(1) by (auto simp: c2_def fresh_channel_def split: option.splits)
  let ?fs = "[first, \<lambda>x. sshbuf_put_u32 (e_alc e) x (word_of_nat (c_self c2)),
                        \<lambda>x. sshbuf_putb (e_alc e) x (Some orig)]"
  from res n c obtain m1 where m1: "puts ?fs m = (Inr (), m1)" "bs = contents m1"
    "ssh' = set_slot i (Some c2) ssh1"
    unfolding proxy_new_def Let_def
    by (auto simp: andThen_Done c2_def[symmetric] simp del: puts.simps split: prod.splits sum.splits)
  have "list_all2 puts_like ?fs [fb, POKE_U32 (word_of_nat i), contents orig]"
    using f o by (simp add: puts_like_rules c2(4))
  from puts_append[OF this m(1) m1(1)] have "bs = fb @ POKE_U32 (word_of_nat i) @ contents orig"
    by (simp add: m1(2) m(2))
  with c2 ch i show ?thesis
    by (intro exI[of _ i] exI[of _ c2]) (simp add: m1(3) chan_set_slot)
qed


lemma get_u32_prefix:
  assumes "sshbuf_inv b" "contents b = POKE_U32 w @ rest"
  shows "\<exists>b'. sshbuf_get_u32 b = (Inr w, b') \<and> sshbuf_inv b' \<and> contents b' = rest"
proof -
  obtain r b' where g: "sshbuf_get_u32 b = (r, b')" by fastforce
  from get_post_cont[OF get_int_post(2)[OF assms(1) g] assms(2)] show ?thesis
    using g by auto
qed

lemma down_open_sends:
  assumes inv: "sshbuf_inv orig" and body: "contents orig = enc_string ctype @ POKE_U32 cid @ rest"
    and nz: "0 \<notin> set ctype" and len: "length ctype < 134217724"
    and res: "down_open e ssh d (Some orig) = Done (0, ssh')"
  shows "\<exists>i c. chan ssh i = None \<and> chan ssh' i = Some c \<and> c_type c = SSH_CHANNEL_MUX_PROXY \<and>
    c_mux_ctx c = Some d \<and> c_mux_downstream_id c = cid \<and>
    s_effects ssh' = s_effects ssh @ [Send (Packet SSH2_MSG_CHANNEL_OPEN
      [PUT_RAW (enc_string ctype @ POKE_U32 (word_of_nat i) @ rest)])]"
proof -
  from res obtain m where m: "sshbuf_new (e_alc e) = Some m"
    by (auto simp: down_open_def split: option.splits)
  obtain r1 o1 where g1: "sshbuf_get_cstring (e_alc e) orig = (r1, o1)" by fastforce
  have ps: "parse_string (contents orig) = Inr ctype"
    unfolding body using parse_enc_string len by simp
  have ok: "cstring_ok ctype" using nz by (auto simp: cstring_ok_def dest: in_set_butlastD)
  have o1: "sshbuf_inv o1" "contents o1 = POKE_U32 cid @ rest"
    using get_cstring_spec[OF inv g1] ps ok body by auto
  have r1: "r1 = Inr ctype"
    using get_cstring_spec[OF inv g1] ps ok res m g1 by (auto simp: down_open_def)
  obtain o2 where o2: "sshbuf_get_u32 o1 = (Inr cid, o2)" "sshbuf_inv o2" "contents o2 = rest"
    using get_u32_prefix[OF o1] by blast
  from res m g1 r1 o2(1) obtain bs ssh2 where
    n: "proxy_new e ssh d (cstr ctype) cid None (\<lambda>x. sshbuf_put_cstring (e_alc e) x (Some ctype)) m o2 =
      Done (Some bs, ssh2)" and s: "down_send e SSH2_MSG_CHANNEL_OPEN bs ssh2 = Done (0, ssh')"
    by (auto simp: down_open_def down_made_def andThen_Done split: option.splits)
  have tw: "takeWhile (\<lambda>x. x \<noteq> 0) ctype = ctype" using nz by (auto simp: takeWhile_eq_all_conv)
  have f: "puts_like (\<lambda>x. sshbuf_put_cstring (e_alc e) x (Some ctype)) (enc_string ctype)"
    using puts_like_rules(4)[of ctype "e_alc e"] len tw by simp
  from proxy_new_sends[OF n f _ _ o2(2)] new_spec[OF m] obtain i c where
    "chan ssh i = None" "chan ssh2 i = Some c" "c_type c = SSH_CHANNEL_MUX_PROXY"
    "c_mux_ctx c = Some d" "c_mux_downstream_id c = cid"
    "bs = enc_string ctype @ POKE_U32 (word_of_nat i) @ contents o2" "s_effects ssh2 = s_effects ssh"
    by auto
  moreover have "s_effects ssh' = s_effects ssh2 @ [Send (Packet SSH2_MSG_CHANNEL_OPEN [PUT_RAW bs])]"
    "chan ssh' = chan ssh2"
    using s by (auto simp: down_send_def Let_def split: if_splits) (simp add: emit_def)
  ultimately show ?thesis by (intro exI[of _ i] exI[of _ c]) (simp add: o2(3))
qed

lemma proxy_upstream_result:
  assumes c: "chan ssh i = Some c" "c_type c = SSH_CHANNEL_MUX_PROXY" "c_mux_ctx c = Some d"
    and ds: "chan ssh d = Some ds" "i \<noteq> d" and ty: "type \<in> proxied_types"
    and res: "channel_proxy_upstream e ssh i type pkt = Done (b, ssh')"
  shows "b \<and> chan ssh' d = Some (ds\<lparr>c_output :=
      forward_upstream e (c_mux_downstream_id c) type pkt (c_output ds)\<rparr>) \<and>
    (type = SSH2_MSG_CHANNEL_CLOSE \<longrightarrow>
       chan ssh' i = (if c_flags c AND CHAN_CLOSE_SENT \<noteq> 0 then None
                      else Some (c\<lparr>c_flags := c_flags c OR CHAN_CLOSE_RCVD\<rparr>))) \<and>
    (type \<noteq> SSH2_MSG_CHANNEL_CLOSE \<longrightarrow> (\<exists>c'. chan ssh' i = Some c' \<and> c_flags c' = c_flags c \<and>
       c_type c' = c_type c \<and> c_mux_ctx c' = c_mux_ctx c))"
proof -
  define ssh1 where "ssh1 = set_slot d (Some (ds\<lparr>c_output :=
      forward_upstream e (c_mux_downstream_id c) type pkt (c_output ds)\<rparr>)) ssh"
  note ci = chan_nth[OF c(1)] and di = chan_nth[OF ds(1)]
  have i1: "chan ssh1 i = Some c" using c(1) ds(2) by (simp add: ssh1_def chan_set_slot)
  have d1: "chan ssh1 d = Some (ds\<lparr>c_output :=
      forward_upstream e (c_mux_downstream_id c) type pkt (c_output ds)\<rparr>)"
    using di by (simp add: ssh1_def chan_set_slot)
  have len: "length (s_channels ssh1) = length (s_channels ssh)" by (simp add: ssh1_def)
  have "(if type = SSH2_MSG_CHANNEL_OPEN_CONFIRMATION then
           Done (True, if length (contents pkt) > 4
             then set_slot i (Some (c\<lparr>c_remote_id := PEEK_U32 (take 4 (contents pkt)),
                                     c_have_remote_id := True\<rparr>)) ssh1
             else ssh1)
         else if type = SSH2_MSG_CHANNEL_CLOSE then
           (if c_flags c AND CHAN_CLOSE_SENT \<noteq> 0
            then andThen (channel_free e ssh1 i) (\<lambda>ssh2. Done (True, ssh2))
            else Done (True, set_slot i (Some (c\<lparr>c_flags := c_flags c OR CHAN_CLOSE_RCVD\<rparr>)) ssh1))
         else Done (True, ssh1)) = Done (b, ssh')"
    using res ci c ds(1) ty
    unfolding channel_proxy_upstream_def Let_def ssh1_def by simp
  then consider "type = SSH2_MSG_CHANNEL_CLOSE" "c_flags c AND CHAN_CLOSE_SENT \<noteq> 0"
      "channel_free e ssh1 i = Done ssh'" "b"
    | "type = SSH2_MSG_CHANNEL_CLOSE" "c_flags c AND CHAN_CLOSE_SENT = 0" "b"
      "ssh' = set_slot i (Some (c\<lparr>c_flags := c_flags c OR CHAN_CLOSE_RCVD\<rparr>)) ssh1"
    | "type \<noteq> SSH2_MSG_CHANNEL_CLOSE" "b" "ssh' = ssh1"
    | "type \<noteq> SSH2_MSG_CHANNEL_CLOSE" "b"
      "ssh' = set_slot i (Some (c\<lparr>c_remote_id := PEEK_U32 (take 4 (contents pkt)),
                                  c_have_remote_id := True\<rparr>)) ssh1"
    by (auto simp: andThen_Done split: if_splits)
  then show ?thesis
  proof cases
    case 1
    then show ?thesis using channel_free_chan(1)[OF 1(3) i1] c(2) d1 ds(2) by simp
  next
    case 2
    then show ?thesis using i1 d1 ci len ds(2) by (simp add: chan_set_slot)
  next
    case 3
    then show ?thesis using i1 d1 by simp
  next
    case 4
    then show ?thesis using i1 d1 ci len ds(2) by (simp add: chan_set_slot)
  qed
qed

section \<open>A client that is marked dead first\<close>

text \<open>
  A failing callback or write marks the multiplexing client dead (\<open>channel_post_mux_client_read\<close>,
  \<open>channel_post_mux_client_write\<close>); its type is then ZOMBIE, so the release skips the loop that cuts
  its proxies off, and they keep a pointer to a free slot.
\<close>

lemma dead_client_dangles:
  assumes client: "chan ssh d = Some ds" "c_type ds = SSH_CHANNEL_MUX_CLIENT"
    and proxy: "chan ssh i = Some c" "c_type c = SSH_CHANNEL_MUX_PROXY" "c_mux_ctx c = Some d"
    and dead: "on_channel (\<lambda>st. Done (chan_mark_dead st)) d ssh = Done ssh1"
    and free: "channel_free e ssh1 d = Done ssh2"
  shows "chan ssh2 d = None \<and> chan ssh2 i = Some c"
proof -
  have ne: "i \<noteq> d" using client proxy by auto
  have s1: "s_channels ssh1 = (s_channels ssh)[d := Some (ds\<lparr>c_type := SSH_CHANNEL_ZOMBIE\<rparr>)]"
    using dead chan_nth[OF client(1)] by (auto simp: on_channel_def chan_mark_dead_def)
  have ch: "chan ssh1 j = (if j = d then Some (ds\<lparr>c_type := SSH_CHANNEL_ZOMBIE\<rparr>) else chan ssh j)" for j
    using chan_nth[OF client(1)] by (auto simp: chan_def s1)
  then have "chan ssh1 d = Some (ds\<lparr>c_type := SSH_CHANNEL_ZOMBIE\<rparr>)" by simp
  from channel_free_chan(1)[OF free this] show ?thesis using ne proxy(1) by (simp add: ch)
qed

end
