(* ===== verification/ChanIn.thy ===== *)
theory ChanIn
  imports ChanMux
begin

text \<open>
  The handlers of the channel messages of the connection protocol. Each takes the packet behind its
  type byte; the packet buffer is dropped when the handler returns, so only the state comes back. A
  handler's \<open>return 0\<close> is \<open>Done\<close>; none of them returns anything else.
\<close>

section \<open>Reading the packet\<close>

definition sshpkt_get_end :: "sshbuf \<Rightarrow> unit res" where
  "sshpkt_get_end pkt =
     (if sshbuf_len pkt > 0 then Inl SSH_ERR_UNEXPECTED_TRAILING_DATA else Inr ())"

definition channel_parse_id :: "sshbuf \<Rightarrow> (int \<times> sshbuf) run" where
  "channel_parse_id pkt =
     (case sshbuf_get_u32 pkt of
        (Inl r, _) \<Rightarrow> Disconnect
      | (Inr chid, p1) \<Rightarrow> if chid > 0x7fffffff then Disconnect else Done (uint chid, p1))"

definition channel_from_packet_id :: "ssh \<Rightarrow> sshbuf \<Rightarrow> (nat \<times> channel \<times> sshbuf) run" where
  "channel_from_packet_id ssh pkt =
     andThen (channel_parse_id pkt)
       (\<lambda>(chid, p1). case channel_lookup ssh chid of
          None \<Rightarrow> Disconnect
        | Some c \<Rightarrow> Done (nat chid, c, p1))"

text \<open>
  \<open>unless_proxied\<close> is the opening of each handler: a message for a proxy is passed on, and the
  handler proper runs on the other messages.
\<close>

definition unless_proxied ::
    "env \<Rightarrow> ssh \<Rightarrow> nat \<Rightarrow> nat \<Rightarrow> sshbuf \<Rightarrow> (ssh \<Rightarrow> ssh run) \<Rightarrow> ssh run" where
  "unless_proxied e ssh i type pkt k =
     andThen (channel_proxy_upstream e ssh i type pkt)
       (\<lambda>(handled, ssh1). if handled then Done ssh1 else k ssh1)"

section \<open>Data\<close>

text \<open>The channel after \<open>data\<close> has arrived; \<open>None\<close> where a failing append is fatal.\<close>

definition take_data :: "env \<Rightarrow> channel \<Rightarrow> u8 list \<Rightarrow> channel option" where
  "take_data e c data =
     (let data_len = word_of_nat (length data) :: size_t;
          win_len = (if c_datagram c then data_len + 4 else data_len)
      in if c_ostate c \<noteq> CHAN_OUTPUT_OPEN
         then Some (c\<lparr>c_local_window := c_local_window c - ucast win_len,
                      c_local_consumed := c_local_consumed c + ucast win_len\<rparr>)
         else if win_len > ucast (c_local_maxpacket c) then Some c
         else if win_len > ucast (c_local_window c) then Some c
         else
           (case (if c_datagram c then sshbuf_put_string (e_alc e) (c_output c) data
                  else sshbuf_put (e_alc e) (c_output c) data) of
              (Inl r, _) \<Rightarrow> None
            | (Inr _, out) \<Rightarrow> Some (c\<lparr>c_local_window := c_local_window c - ucast win_len,
                                       c_output := out\<rparr>)))"

definition channel_input_data :: "env \<Rightarrow> ssh \<Rightarrow> sshbuf \<Rightarrow> ssh run" where
  "channel_input_data e ssh pkt =
     andThen (channel_from_packet_id ssh pkt) (\<lambda>(i, c, p1).
       unless_proxied e ssh i SSH2_MSG_CHANNEL_DATA p1 (\<lambda>ssh1.
         if c_type c \<notin> {SSH_CHANNEL_OPEN, SSH_CHANNEL_RDYNAMIC_OPEN, SSH_CHANNEL_RDYNAMIC_FINISH,
              SSH_CHANNEL_X11_OPEN} then Done ssh1
         else
           (case sshbuf_get_string_direct p1 of
              (Inl r, _) \<Rightarrow> Fatal
            | (Inr data, p2) \<Rightarrow>
              if sshpkt_get_end p2 \<noteq> Inr () then Fatal
              else (case take_data e c data of
                      None \<Rightarrow> Fatal
                    | Some c1 \<Rightarrow> Done (set_slot i (Some c1) ssh1)))))"

text \<open>Here a failing append is only logged: the window shrinks all the same.\<close>

definition take_ext_data :: "env \<Rightarrow> channel \<Rightarrow> u8 list \<Rightarrow> channel" where
  "take_ext_data e c data =
     (let data_len = word_of_nat (length data) :: size_t in
      if data_len > ucast (c_local_window c) then c
      else c\<lparr>c_extended := snd (sshbuf_put (e_alc e) (c_extended c) data),
             c_local_window := c_local_window c - ucast data_len\<rparr>)"

definition channel_input_extended_data :: "env \<Rightarrow> ssh \<Rightarrow> sshbuf \<Rightarrow> ssh run" where
  "channel_input_extended_data e ssh pkt =
     andThen (channel_from_packet_id ssh pkt) (\<lambda>(i, c, p1).
       unless_proxied e ssh i SSH2_MSG_CHANNEL_EXTENDED_DATA p1 (\<lambda>ssh1.
         if c_type c \<noteq> SSH_CHANNEL_OPEN then Done ssh1
         else if c_flags c AND CHAN_EOF_RCVD \<noteq> 0 \<and> s_compat ssh AND SSH_BUG_EXTEOF = 0 then Disconnect
         else
           (case sshbuf_get_u32 p1 of
              (Inl r, _) \<Rightarrow> Disconnect
            | (Inr tcode, p2) \<Rightarrow>
              if c_efd c = -1 \<or> c_extended_usage c \<noteq> CHAN_EXTENDED_WRITE \<or>
                 tcode \<noteq> SSH2_EXTENDED_DATA_STDERR then Done ssh1
              else
                (case sshbuf_get_string_direct p2 of
                   (Inl r, _) \<Rightarrow> Disconnect
                 | (Inr data, p3) \<Rightarrow>
                   if sshpkt_get_end p3 \<noteq> Inr () then Disconnect
                   else Done (set_slot i (Some (take_ext_data e c data)) ssh1)))))"

section \<open>End of file and close\<close>

text \<open>What \<open>channel_input_ieof\<close> does to the channel: the event, then the forced drain.\<close>

definition take_ieof :: "env \<Rightarrow> chan_st \<Rightarrow> chan_st run" where
  "take_ieof e st = chan_force_drain e (chan_rcvd_ieof e st)"

definition channel_input_ieof :: "env \<Rightarrow> ssh \<Rightarrow> sshbuf \<Rightarrow> ssh run" where
  "channel_input_ieof e ssh pkt =
     andThen (channel_from_packet_id ssh pkt) (\<lambda>(i, c, p1).
       if sshpkt_get_end p1 \<noteq> Inr () then Disconnect
       else unless_proxied e ssh i SSH2_MSG_CHANNEL_EOF p1 (on_channel (take_ieof e) i))"

definition channel_input_oclose :: "env \<Rightarrow> ssh \<Rightarrow> sshbuf \<Rightarrow> ssh run" where
  "channel_input_oclose e ssh pkt =
     andThen (channel_from_packet_id ssh pkt) (\<lambda>(i, c, p1).
       unless_proxied e ssh i SSH2_MSG_CHANNEL_CLOSE p1 (\<lambda>ssh1.
         if sshpkt_get_end p1 \<noteq> Inr () then Disconnect
         else on_channel (chan_rcvd_oclose e) i ssh1))"

section \<open>Opening\<close>

definition confirm_cb :: "channel \<Rightarrow> bool \<Rightarrow> ssh \<Rightarrow> ssh" where
  "confirm_cb c ok ssh =
     (case c_open_confirm c of None \<Rightarrow> ssh | Some cb \<Rightarrow> emit (Open_confirm cb (c_self c) ok) ssh)"

definition channel_input_open_confirmation :: "env \<Rightarrow> ssh \<Rightarrow> sshbuf \<Rightarrow> ssh run" where
  "channel_input_open_confirmation e ssh pkt =
     andThen (channel_from_packet_id ssh pkt) (\<lambda>(i, c, p1).
       unless_proxied e ssh i SSH2_MSG_CHANNEL_OPEN_CONFIRMATION p1 (\<lambda>ssh1.
         if c_type c \<noteq> SSH_CHANNEL_OPENING then Disconnect
         else
           (case sshbuf_get_u32 p1 of
              (Inl r, _) \<Rightarrow> Disconnect
            | (Inr remote_id, p2) \<Rightarrow>
              (case sshbuf_get_u32 p2 of
                 (Inl r, _) \<Rightarrow> Disconnect
               | (Inr remote_window, p3) \<Rightarrow>
                 (case sshbuf_get_u32 p3 of
                    (Inl r, _) \<Rightarrow> Disconnect
                  | (Inr remote_maxpacket, p4) \<Rightarrow>
                    if sshpkt_get_end p4 \<noteq> Inr () then Disconnect
                    else Done (confirm_cb c True (set_slot i (Some (c\<lparr>c_remote_id := remote_id,
                           c_have_remote_id := True, c_remote_window := remote_window,
                           c_remote_maxpacket := remote_maxpacket, c_type := SSH_CHANNEL_OPEN,
                           c_lastused := e_monotime e\<rparr>)) ssh1)))))))"

definition channel_input_open_failure :: "env \<Rightarrow> ssh \<Rightarrow> sshbuf \<Rightarrow> ssh run" where
  "channel_input_open_failure e ssh pkt =
     andThen (channel_from_packet_id ssh pkt) (\<lambda>(i, c, p1).
       unless_proxied e ssh i SSH2_MSG_CHANNEL_OPEN_FAILURE p1 (\<lambda>ssh1.
         if c_type c \<noteq> SSH_CHANNEL_OPENING then Disconnect
         else
           (case sshbuf_get_u32 p1 of
              (Inl r, _) \<Rightarrow> Disconnect
            | (Inr reason, p2) \<Rightarrow>
              (case sshbuf_get_cstring (e_alc e) p2 of
                 (Inl r, _) \<Rightarrow> Disconnect
               | (Inr msg, p3) \<Rightarrow>
                 (case sshbuf_get_string_direct p3 of
                    (Inl r, _) \<Rightarrow> Disconnect
                  | (Inr lang, p4) \<Rightarrow>
                    if sshpkt_get_end p4 \<noteq> Inr () then Disconnect
                    else on_channel (\<lambda>st. Done (chan_mark_dead st)) i (confirm_cb c False ssh1))))))"

section \<open>Windows and replies\<close>

definition channel_input_window_adjust :: "env \<Rightarrow> ssh \<Rightarrow> sshbuf \<Rightarrow> ssh run" where
  "channel_input_window_adjust e ssh pkt =
     andThen (channel_parse_id pkt) (\<lambda>(chid, p1).
       case channel_lookup ssh chid of
         None \<Rightarrow> Done ssh
       | Some c \<Rightarrow>
         unless_proxied e ssh (nat chid) SSH2_MSG_CHANNEL_WINDOW_ADJUST p1 (\<lambda>ssh1.
           (case sshbuf_get_u32 p1 of
              (Inl r, _) \<Rightarrow> Disconnect
            | (Inr adjust, p2) \<Rightarrow>
              if sshpkt_get_end p2 \<noteq> Inr () then Disconnect
              else let new_rwin = c_remote_window c + adjust in
                if new_rwin < c_remote_window c then Fatal
                else Done (set_slot (nat chid) (Some (c\<lparr>c_remote_window := new_rwin\<rparr>)) ssh1))))"

text \<open>Replies to requests are matched first in, first out with the registered callbacks.\<close>

definition channel_input_status_confirm :: "env \<Rightarrow> nat \<Rightarrow> ssh \<Rightarrow> sshbuf \<Rightarrow> ssh run" where
  "channel_input_status_confirm e type ssh pkt =
     andThen (channel_parse_id pkt) (\<lambda>(chid, p1).
       case channel_lookup ssh chid of
         None \<Rightarrow> Done ssh
       | Some c \<Rightarrow>
         unless_proxied e ssh (nat chid) type p1 (\<lambda>ssh1.
           if sshpkt_get_end p1 \<noteq> Inr () then Disconnect
           else (case c_status_confirms c of
                   [] \<Rightarrow> Done ssh1
                 | cc # ccs \<Rightarrow>
                   Done (set_slot (nat chid) (Some (c\<lparr>c_status_confirms := ccs\<rparr>))
                           (emit (Status_confirm (fst cc) (c_self c) type) ssh1)))))"

end
