(* ===== verification/ChanOut.thy ===== *)
theory ChanOut
  imports ChanIn
begin

text \<open>
  The other direction: bytes from the descriptors into the channel's buffers, from there into data
  packets within the window and packet size the peer granted, bytes of the peer out to the
  descriptors, the window the peer gets back, and the loop that runs the handlers and releases dead
  channels. \<open>read\<close> and \<open>write\<close> are parameters: the result of the one call a handler makes.
\<close>

section \<open>Data packets\<close>

definition channel_output_poll_input_open :: "env \<Rightarrow> chan_st \<Rightarrow> chan_st run" where
  "channel_output_poll_input_open e st =
     (let c = fst st; len = sshbuf_len (c_input c) in
      if len = 0 then
        (if c_istate c = CHAN_INPUT_WAIT_DRAIN
         then (if efd_input_active c then Done st else chan_ibuf_empty e st)
         else Done st)
      else if \<not> c_have_remote_id c then Fatal
      else if c_datagram c then
        (case sshbuf_get_string_direct (c_input c) of
           (Inl r, _) \<Rightarrow> Fatal
         | (Inr pkt, inp) \<Rightarrow>
           let plen = word_of_nat (length pkt) :: size_t; c1 = c\<lparr>c_input := inp\<rparr> in
           if plen > ucast (c_remote_window c) \<or> plen > ucast (c_remote_maxpacket c)
           then Done (c1, snd st)
           else andThen (send_pkt e (Packet SSH2_MSG_CHANNEL_DATA
                           [PUT_U32 (c_remote_id c), PUT_STRING pkt]) (c1, snd st))
                  (\<lambda>st1. Done ((fst st1)\<lparr>c_remote_window := c_remote_window c - ucast plen\<rparr>, snd st1)))
      else
        let len1 = (if len > ucast (c_remote_window c) then ucast (c_remote_window c) else len);
            len2 = (if len1 > ucast (c_remote_maxpacket c) then ucast (c_remote_maxpacket c) else len1)
        in if len2 = 0 then Done st
           else andThen (send_pkt e (Packet SSH2_MSG_CHANNEL_DATA
                  [PUT_U32 (c_remote_id c), PUT_STRING (take (unat len2) (contents (c_input c)))]) st)
             (\<lambda>st1. case sshbuf_consume (c_input c) len2 of
                 (Inl r, _) \<Rightarrow> Fatal
               | (Inr _, inp) \<Rightarrow> Done ((fst st1)\<lparr>c_input := inp,
                    c_remote_window := c_remote_window c - ucast len2\<rparr>, snd st1)))"

definition channel_output_poll_extended_read :: "env \<Rightarrow> chan_st \<Rightarrow> chan_st run" where
  "channel_output_poll_extended_read e st =
     (let c = fst st; len = sshbuf_len (c_extended c) in
      if len = 0 then Done st
      else
        let len1 = (if len > ucast (c_remote_window c) then ucast (c_remote_window c) else len);
            len2 = (if len1 > ucast (c_remote_maxpacket c) then ucast (c_remote_maxpacket c) else len1)
        in if len2 = 0 then Done st
           else if \<not> c_have_remote_id c then Fatal
           else andThen (send_pkt e (Packet SSH2_MSG_CHANNEL_EXTENDED_DATA
                  [PUT_U32 (c_remote_id c), PUT_U32 SSH2_EXTENDED_DATA_STDERR,
                   PUT_STRING (take (unat len2) (contents (c_extended c)))]) st)
             (\<lambda>st1. case sshbuf_consume (c_extended c) len2 of
                 (Inl r, _) \<Rightarrow> Fatal
               | (Inr _, ext) \<Rightarrow> Done ((fst st1)\<lparr>c_extended := ext,
                    c_remote_window := c_remote_window c - ucast len2\<rparr>, snd st1)))"

text \<open>One channel's turn in \<open>channel_output_poll\<close>.\<close>

definition output_poll_one :: "env \<Rightarrow> chan_st \<Rightarrow> chan_st run" where
  "output_poll_one e st =
     (let c = fst st in
      if c_type c \<noteq> SSH_CHANNEL_OPEN then Done st
      else if c_flags c AND (CHAN_CLOSE_SENT OR CHAN_CLOSE_RCVD) \<noteq> 0 then Done st
      else andThen (if c_istate c = CHAN_INPUT_OPEN \<or> c_istate c = CHAN_INPUT_WAIT_DRAIN
                    then channel_output_poll_input_open e st else Done st)
        (\<lambda>st1. if c_flags (fst st1) AND CHAN_EOF_SENT = 0 \<and>
                 c_extended_usage (fst st1) = CHAN_EXTENDED_READ
              then channel_output_poll_extended_read e st1 else Done st1))"

definition channel_output_poll :: "env \<Rightarrow> ssh \<Rightarrow> ssh run" where
  "channel_output_poll e ssh = for_slots (\<lambda>i c. on_channel (output_poll_one e) i) (slots ssh) ssh"

section \<open>What a channel waits for\<close>

definition channel_pre_listener :: "channel \<Rightarrow> channel" where
  "channel_pre_listener c = c\<lparr>c_io_want := SSH_CHAN_IO_SOCK_R\<rparr>"

definition channel_pre_connecting :: "channel \<Rightarrow> channel" where
  "channel_pre_connecting c = c\<lparr>c_io_want := SSH_CHAN_IO_SOCK_W\<rparr>"

definition want :: "u32 \<Rightarrow> chan_st \<Rightarrow> chan_st" where
  "want m st = ((fst st)\<lparr>c_io_want := c_io_want (fst st) OR m\<rparr>, snd st)"

definition channel_pre_open :: "env \<Rightarrow> chan_st \<Rightarrow> chan_st" where
  "channel_pre_open e st0 =
     (let st = ((fst st0)\<lparr>c_io_want := 0\<rparr>, snd st0); c = fst st;
          st1 = (if c_istate c = CHAN_INPUT_OPEN \<and> c_remote_window c > 0 \<and>
                    sshbuf_len (c_input c) < ucast (c_remote_window c) \<and>
                    sshbuf_check_reserve (c_input c) CHAN_RBUF = Inr ()
                 then want SSH_CHAN_IO_RFD st else st);
          st2 = (if c_ostate c = CHAN_OUTPUT_OPEN \<or> c_ostate c = CHAN_OUTPUT_WAIT_DRAIN then
                   if sshbuf_len (c_output c) > 0 then want SSH_CHAN_IO_WFD st1
                   else if c_ostate c = CHAN_OUTPUT_WAIT_DRAIN then
                     (if efd_output_active c then st1 else chan_obuf_empty e st1)
                   else st1
                 else st1);
          c2 = fst st2
      in if c_efd c2 \<noteq> -1 \<and> \<not> (c_istate c2 = CHAN_INPUT_CLOSED \<and> c_ostate c2 = CHAN_OUTPUT_CLOSED)
         then if c_extended_usage c2 = CHAN_EXTENDED_WRITE \<and> sshbuf_len (c_extended c2) > 0
              then want SSH_CHAN_IO_EFD_W st2
              else if c_flags c2 AND CHAN_EOF_SENT = 0 \<and>
                      (c_extended_usage c2 = CHAN_EXTENDED_READ \<or>
                       c_extended_usage c2 = CHAN_EXTENDED_IGNORE) \<and>
                      sshbuf_len (c_extended c2) < ucast (c_remote_window c2)
              then want SSH_CHAN_IO_EFD_R st2
              else st2
         else st2)"

definition channel_pre_mux_client :: "env \<Rightarrow> chan_st \<Rightarrow> chan_st run" where
  "channel_pre_mux_client e st0 =
     (let st = ((fst st0)\<lparr>c_io_want := 0\<rparr>, snd st0); c = fst st;
          st1 = (if c_istate c = CHAN_INPUT_OPEN \<and> \<not> c_mux_pause c \<and>
                    sshbuf_check_reserve (c_input c) CHAN_RBUF = Inr ()
                 then want SSH_CHAN_IO_RFD st else st)
      in andThen (if c_istate c = CHAN_INPUT_WAIT_DRAIN
                  then andThen (chan_ibuf_empty e
                         ((fst st1)\<lparr>c_input := sshbuf_reset (e_alc e) (c_input (fst st1))\<rparr>, snd st1))
                         (chan_rcvd_oclose e)
                  else Done st1)
           (\<lambda>st2. let c2 = fst st2 in
              Done (if c_ostate c2 = CHAN_OUTPUT_OPEN \<or> c_ostate c2 = CHAN_OUTPUT_WAIT_DRAIN then
                      if sshbuf_len (c_output c2) > 0 then want SSH_CHAN_IO_WFD st2
                      else if c_ostate c2 = CHAN_OUTPUT_WAIT_DRAIN then chan_obuf_empty e st2
                      else st2
                    else st2)))"

section \<open>Descriptors\<close>

text \<open>
  \<open>Got bs\<close> are the bytes a \<open>read\<close> returned (at most as many as asked for, none at end of file),
  \<open>Wrote n\<close> is how many a \<open>write\<close> took; \<open>Again\<close> is EAGAIN or EWOULDBLOCK, \<open>Intr\<close> EINTR and \<open>Err\<close>
  any other failure.
\<close>

datatype io_res = Got "u8 list" | Wrote nat | Again | Intr | Err

abbreviation CHANNEL_MAX_READ :: size_t where "CHANNEL_MAX_READ \<equiv> 32768"

definition read_force :: "channel \<Rightarrow> bool" where
  "read_force c \<longleftrightarrow> c_isatty c \<and> c_detach_close c \<and> c_istate c \<noteq> CHAN_INPUT_CLOSED"

definition read_fail :: "chan_st \<Rightarrow> chan_st" where
  "read_fail st = (if c_type (fst st) \<noteq> SSH_CHANNEL_OPEN then chan_mark_dead st else chan_read_failed st)"

definition write_fail :: "env \<Rightarrow> u32 \<Rightarrow> chan_st \<Rightarrow> chan_st run" where
  "write_fail e compat_bits st =
     (if c_type (fst st) \<noteq> SSH_CHANNEL_OPEN then Done (chan_mark_dead st)
      else chan_write_failed e compat_bits st)"

text \<open>
  How many bytes a simple channel may read: \<open>None\<close> when it must not read now. An open channel never
  has more input buffered than the peer's window, so what it reads can be sent.
\<close>

definition read_limit :: "channel \<Rightarrow> size_t option" where
  "read_limit c =
     (let have = sshbuf_len (c_input c); avail = sshbuf_avail (c_input c); rwin = ucast (c_remote_window c) in
      if c_type c = SSH_CHANNEL_OPEN then
        if have \<ge> rwin then None
        else let m = (if CHANNEL_MAX_READ > rwin - have then rwin - have else CHANNEL_MAX_READ)
             in Some (if m > avail then avail else m)
      else Some (if CHANNEL_MAX_READ > avail then avail else CHANNEL_MAX_READ))"

text \<open>
  \<open>sshbuf_read\<close> of \<open>sshbuf-misc.c\<close>: room for \<open>maxlen\<close> bytes is reserved, the bytes read go there and
  the rest of the room is given back. Nothing read is end of file, which is an error here.
\<close>

definition sshbuf_read ::
    "(size_t \<Rightarrow> ptr) \<Rightarrow> sshbuf \<Rightarrow> size_t \<Rightarrow> (size_t \<Rightarrow> io_res) \<Rightarrow> io_res \<times> sshbuf" where
  "sshbuf_read alc buf maxlen rd =
     (case sshbuf_reserve alc buf maxlen of
        (Inl r, b1) \<Rightarrow> (Err, b1)
      | (Inr d, b1) \<Rightarrow>
        let bs = (case rd maxlen of Got bs \<Rightarrow> bs | _ \<Rightarrow> []);
            b2 = snd (write_at b1 d bs);
            adjust = maxlen - word_of_nat (length bs);
            (r, b3) = (if adjust \<noteq> 0 then sshbuf_consume_end b2 adjust else (Inr (), b2))
        in if r \<noteq> Inr () then (Err, b3)
           else (case rd maxlen of
                   Got bs \<Rightarrow> if bs = [] then (Err, b3) else (Got bs, b3)
                 | x \<Rightarrow> (x, b3)))"

text \<open>
  \<open>channel_handle_rfd\<close>: \<open>rd n\<close> is the result of reading up to \<open>n\<close> bytes. The simple case reads into
  the buffer directly; otherwise the input filter gets the bytes, or a datagram is framed as a
  string.
\<close>

definition rfd_simple :: "env \<Rightarrow> (size_t \<Rightarrow> io_res) \<Rightarrow> bool \<Rightarrow> chan_st \<Rightarrow> chan_st run" where
  "rfd_simple e rd force st =
     (let c = fst st in
      case read_limit c of
        None \<Rightarrow> Done st
      | Some maxlen \<Rightarrow>
        let (res, inp) = sshbuf_read (e_alc e) (c_input c) maxlen rd;
            st1 = (c\<lparr>c_input := inp\<rparr>, snd st)
        in (case res of
              Got bs \<Rightarrow> Done ((fst st1)\<lparr>c_lastused := e_monotime e\<rparr>, snd st1)
            | Intr \<Rightarrow> Done st1
            | Again \<Rightarrow> if force then Done (read_fail st1) else Done st1
            | _ \<Rightarrow> Done (read_fail st1)))"

definition rfd_bytes :: "env \<Rightarrow> u8 list \<Rightarrow> chan_st \<Rightarrow> chan_st run" where
  "rfd_bytes e bs st =
     (let c = fst st; st1 = (c\<lparr>c_lastused := e_monotime e\<rparr>, snd st) in
      case c_input_filter c of
        Some cb \<Rightarrow> (case e_in_filter e cb bs st1 of
            None \<Rightarrow> Done (chan_read_failed st1) | Some st2 \<Rightarrow> Done st2)
      | None \<Rightarrow> (case sshbuf_put_string (e_alc e) (c_input c) bs of
            (Inl r, _) \<Rightarrow> Fatal
          | (Inr _, inp) \<Rightarrow> Done ((fst st1)\<lparr>c_input := inp\<rparr>, snd st1)))"

definition channel_handle_rfd :: "env \<Rightarrow> (size_t \<Rightarrow> io_res) \<Rightarrow> chan_st \<Rightarrow> chan_st run" where
  "channel_handle_rfd e rd st =
     (let c = fst st; force = read_force c in
      if \<not> force \<and> c_io_ready c AND SSH_CHAN_IO_RFD = 0 then Done st
      else if sshbuf_avail (c_input c) = 0 then Done st
      else if c_input_filter c = None \<and> \<not> c_datagram c then rfd_simple e rd force st
      else
        (case rd CHAN_RBUF of
           Got bs \<Rightarrow> if bs = [] then Done (read_fail st) else rfd_bytes e bs st
         | Intr \<Rightarrow> Done st
         | Again \<Rightarrow> if force then Done (read_fail st) else Done st
         | _ \<Rightarrow> Done (read_fail st)))"

text \<open>
  \<open>channel_handle_wfd\<close>: \<open>wr bs\<close> is the result of writing \<open>bs\<close>. What is written comes from the
  output filter, from the next datagram, or is all that is buffered; a write to a terminal that
  hides what is typed is followed by a packet of the size its echo would have had.
\<close>

definition wfd_data :: "env \<Rightarrow> u32 \<Rightarrow> chan_st \<Rightarrow> (u8 list option \<times> chan_st) run" where
  "wfd_data e compat_bits st =
     (let c = fst st in
      case c_output_filter c of
        Some cb \<Rightarrow> (case e_out_filter e cb st of
            (None, st1) \<Rightarrow> andThen (write_fail e compat_bits st1) (\<lambda>st2. Done (None, st2))
          | (Some bs, st1) \<Rightarrow> Done (Some bs, st1))
      | None \<Rightarrow>
        if c_datagram c
        then (case sshbuf_get_string (e_alc e) (c_output c) of
                (Inl r, _) \<Rightarrow> Fatal
              | (Inr data, out) \<Rightarrow> Done (Some data, (c\<lparr>c_output := out\<rparr>, snd st)))
        else Done (Some (contents (c_output c)), st))"

definition wfd_consumed :: "size_t \<Rightarrow> chan_st \<Rightarrow> chan_st" where
  "wfd_consumed olen st =
     ((fst st)\<lparr>c_local_consumed := c_local_consumed (fst st) + ucast (olen - sshbuf_len (c_output (fst st)))\<rparr>,
      snd st)"

definition wfd_stream :: "env \<Rightarrow> size_t \<Rightarrow> u8 list \<Rightarrow> nat \<Rightarrow> chan_st \<Rightarrow> chan_st run" where
  "wfd_stream e olen buf n st =
     (let c = (fst st)\<lparr>c_lastused := e_monotime e\<rparr>; st1 = (c, snd st) in
      andThen (if c_isatty c \<and> buf \<noteq> [] \<and> hd buf \<noteq> 13 \<and> e_hidden_tty e (c_wfd c)
               then send_pkt e (sshpkt_msg_ignore e (4 + word_of_nat n)) st1 else Done st1)
        (\<lambda>st2. case sshbuf_consume (c_output c) (word_of_nat n) of
            (Inl r, _) \<Rightarrow> Fatal
          | (Inr _, out) \<Rightarrow> Done (wfd_consumed olen (c\<lparr>c_output := out\<rparr>, snd st2))))"

definition channel_handle_wfd :: "env \<Rightarrow> u32 \<Rightarrow> (u8 list \<Rightarrow> io_res) \<Rightarrow> chan_st \<Rightarrow> chan_st run" where
  "channel_handle_wfd e compat_bits wr st =
     (let c = fst st; olen = sshbuf_len (c_output c) in
      if c_io_ready c AND SSH_CHAN_IO_WFD = 0 then Done st
      else if olen = 0 then Done st
      else andThen (wfd_data e compat_bits st) (\<lambda>(data, st1).
        case data of
          None \<Rightarrow> Done st1
        | Some buf \<Rightarrow>
          (case wr buf of
             Wrote n \<Rightarrow>
               if n = 0 then write_fail e compat_bits st1
               else if c_datagram (fst st1) then Done (wfd_consumed olen st1)
               else wfd_stream e olen buf n st1
           | Again \<Rightarrow> Done st1
           | Intr \<Rightarrow> Done st1
           | _ \<Rightarrow> write_fail e compat_bits st1)))"

definition channel_handle_efd_write :: "env \<Rightarrow> (u8 list \<Rightarrow> io_res) \<Rightarrow> chan_st \<Rightarrow> chan_st run" where
  "channel_handle_efd_write e wr st =
     (let c = fst st in
      if c_io_ready c AND SSH_CHAN_IO_EFD_W = 0 then Done st
      else if sshbuf_len (c_extended c) = 0 then Done st
      else
        (case wr (contents (c_extended c)) of
           Wrote n \<Rightarrow>
             if n = 0 then Done (channel_close_fd st (c_efd c))
             else (case sshbuf_consume (c_extended c) (word_of_nat n) of
                     (Inl r, _) \<Rightarrow> Fatal
                   | (Inr _, ext) \<Rightarrow> Done (c\<lparr>c_extended := ext,
                       c_local_consumed := c_local_consumed c + word_of_nat n,
                       c_lastused := e_monotime e\<rparr>, snd st))
         | Again \<Rightarrow> Done st
         | Intr \<Rightarrow> Done st
         | _ \<Rightarrow> Done (channel_close_fd st (c_efd c))))"

definition channel_handle_efd_read :: "env \<Rightarrow> (size_t \<Rightarrow> io_res) \<Rightarrow> chan_st \<Rightarrow> chan_st run" where
  "channel_handle_efd_read e rd st =
     (let c = fst st; force = read_force c in
      if \<not> force \<and> c_io_ready c AND SSH_CHAN_IO_EFD_R = 0 then Done st
      else
        (case rd CHAN_RBUF of
           Got bs \<Rightarrow>
             if bs = [] then Done (channel_close_fd st (c_efd c))
             else let c1 = c\<lparr>c_lastused := e_monotime e\<rparr> in
               if c_extended_usage c = CHAN_EXTENDED_IGNORE then Done (c1, snd st)
               else (case sshbuf_put (e_alc e) (c_extended c) bs of
                       (Inl r, _) \<Rightarrow> Fatal
                     | (Inr _, ext) \<Rightarrow> Done (c1\<lparr>c_extended := ext\<rparr>, snd st))
         | Intr \<Rightarrow> Done st
         | Again \<Rightarrow> if force then Done (channel_close_fd st (c_efd c)) else Done st
         | _ \<Rightarrow> Done (channel_close_fd st (c_efd c))))"

definition channel_handle_efd ::
    "env \<Rightarrow> (size_t \<Rightarrow> io_res) \<Rightarrow> (u8 list \<Rightarrow> io_res) \<Rightarrow> chan_st \<Rightarrow> chan_st run" where
  "channel_handle_efd e rd wr st =
     (let c = fst st in
      if c_efd c = -1 then Done st
      else if c_extended_usage c = CHAN_EXTENDED_WRITE then channel_handle_efd_write e wr st
      else channel_handle_efd_read e rd st)"

definition channel_check_window :: "env \<Rightarrow> chan_st \<Rightarrow> chan_st run" where
  "channel_check_window e st =
     (let c = fst st in
      if c_type c = SSH_CHANNEL_OPEN \<and> c_flags c AND (CHAN_CLOSE_SENT OR CHAN_CLOSE_RCVD) = 0 \<and>
         (c_local_window_max c - c_local_window c > c_local_maxpacket c * 3 \<or>
          c_local_window c < c_local_window_max c div 2) \<and>
         c_local_consumed c > 0
      then if \<not> c_have_remote_id c then Fatal
           else andThen (send_pkt e (Packet SSH2_MSG_CHANNEL_WINDOW_ADJUST
                  [PUT_U32 (c_remote_id c), PUT_U32 (c_local_consumed c)]) st)
             (\<lambda>st1. Done ((fst st1)\<lparr>c_local_window := c_local_window c + c_local_consumed c,
                                    c_local_consumed := 0\<rparr>, snd st1))
      else Done st)"

text \<open>One \<open>read\<close> and one \<open>write\<close> result for the main descriptors, one each for the extended one.\<close>

definition channel_post_open ::
    "env \<Rightarrow> u32 \<Rightarrow> (size_t \<Rightarrow> io_res) \<Rightarrow> (u8 list \<Rightarrow> io_res) \<Rightarrow> (size_t \<Rightarrow> io_res) \<Rightarrow>
     (u8 list \<Rightarrow> io_res) \<Rightarrow> chan_st \<Rightarrow> chan_st run" where
  "channel_post_open e compat_bits rd wr erd ewr st =
     andThen (channel_handle_rfd e rd st) (\<lambda>st1.
     andThen (channel_handle_wfd e compat_bits wr st1) (\<lambda>st2.
     andThen (channel_handle_efd e erd ewr st2) (channel_check_window e)))"

section \<open>Release of dead channels\<close>

text \<open>
  The user's \<open>detach_user\<close> is another part of the program (\<open>session.c\<close>, \<open>mux.c\<close>): it is the
  parameter \<open>user\<close>, which may change the table and usually cancels its own registration.
\<close>

definition channel_garbage_collect ::
    "env \<Rightarrow> (callback \<Rightarrow> nat \<Rightarrow> ssh \<Rightarrow> ssh) \<Rightarrow> nat \<Rightarrow> ssh \<Rightarrow> ssh run" where
  "channel_garbage_collect e user i ssh =
     (let collect = (\<lambda>ssh1. case s_channels ssh1 ! i of
            None \<Rightarrow> Fatal
          | Some c \<Rightarrow> andThen (chan_is_dead e (s_compat ssh1) True (c, []))
              (\<lambda>(dead, st). let ssh2 = ssh1\<lparr>s_channels := (s_channels ssh1)[i := Some (fst st)],
                                            s_effects := s_effects ssh1 @ snd st\<rparr>
                 in if dead then channel_free e ssh2 i else Done ssh2))
      in case s_channels ssh ! i of
           None \<Rightarrow> Done ssh
         | Some c \<Rightarrow>
           (case c_detach_user c of
              None \<Rightarrow> collect ssh
            | Some cb \<Rightarrow> andThen (chan_is_dead e (s_compat ssh) (c_detach_close c) (c, []))
                (\<lambda>(dead, st). let ssh1 = ssh\<lparr>s_channels := (s_channels ssh)[i := Some (fst st)],
                                             s_effects := s_effects ssh @ snd st\<rparr>
                   in if \<not> dead then Done ssh1
                      else let ssh2 = user cb i (emit (Detach cb i False) ssh1)
                           in case s_channels ssh2 ! i of
                                None \<Rightarrow> Fatal
                              | Some c2 \<Rightarrow> if c_detach_user c2 \<noteq> None then Done ssh2 else collect ssh2)))"

text \<open>
  One channel's turn in \<open>channel_handler\<close>, before (\<open>pre\<close>) or after the wait; \<open>ftab\<close> is the handler
  table, \<open>None\<close> where it has no entry. The deadlines handed to \<open>poll\<close> are not modelled.
\<close>

definition handler_one ::
    "env \<Rightarrow> (callback \<Rightarrow> nat \<Rightarrow> ssh \<Rightarrow> ssh) \<Rightarrow> (chan_type \<Rightarrow> (nat \<Rightarrow> ssh \<Rightarrow> ssh run) option) \<Rightarrow>
     bool \<Rightarrow> bool \<Rightarrow> nat \<Rightarrow> channel \<Rightarrow> ssh \<Rightarrow> ssh run" where
  "handler_one e user ftab rekeying pre i c ssh =
     (if rekeying \<and> c_type c \<noteq> SSH_CHANNEL_OPEN then Done ssh
      else if c_delayed c \<and> \<not> pre then Done ssh
      else
        let ssh1 = (if c_delayed c then set_slot i (Some (c\<lparr>c_delayed := False\<rparr>)) ssh else ssh) in
        andThen (case ftab (c_type c) of
                   None \<Rightarrow> Done ssh1
                 | Some f \<Rightarrow>
                   if pre \<and> c_type c = SSH_CHANNEL_OPEN \<and> c_inactive_deadline c \<noteq> 0 \<and> c_lastused c \<noteq> 0 \<and>
                      e_monotime e \<ge> c_lastused c + uint (c_inactive_deadline c)
                   then on_channel (channel_force_close e (s_compat ssh) True) i ssh1
                   else if c_notbefore c \<le> e_monotime e then f i ssh1
                   else Done ssh1)
          (channel_garbage_collect e user i))"

definition channel_handler ::
    "env \<Rightarrow> (callback \<Rightarrow> nat \<Rightarrow> ssh \<Rightarrow> ssh) \<Rightarrow> (chan_type \<Rightarrow> (nat \<Rightarrow> ssh \<Rightarrow> ssh run) option) \<Rightarrow>
     bool \<Rightarrow> bool \<Rightarrow> ssh \<Rightarrow> ssh run" where
  "channel_handler e user ftab rekeying pre ssh =
     for_slots (handler_one e user ftab rekeying pre) (slots ssh) ssh"

end
