(* ===== verification/ChanPass.thy ===== *)
theory ChanPass
  imports ChanTable
begin

text \<open>
  The loops of \<open>channels.c\<close> that apply one operation to every channel, as an interface: what the
  operation keeps of a channel, and what it establishes for it, holds for the whole table after the
  loop.
\<close>

definition all_chans :: "(channel \<Rightarrow> bool) \<Rightarrow> ssh \<Rightarrow> bool" where
  "all_chans P ssh \<longleftrightarrow> (\<forall>i c. chan ssh i = Some c \<longrightarrow> P c)"

lemma all_chansD: "all_chans P ssh \<Longrightarrow> chan ssh i = Some c \<Longrightarrow> P c"
  by (simp add: all_chans_def)

lemma on_channelE:
  assumes "on_channel op i ssh = Done ssh'"
  obtains c c' fx where "s_channels ssh ! i = Some c" "op (c, []) = Done (c', fx)"
    "ssh' = ssh\<lparr>s_channels := (s_channels ssh)[i := Some c'], s_effects := s_effects ssh @ fx\<rparr>"
  using assms by (auto simp: on_channel_def andThen_Done split: option.splits)

lemma chan_updated:
  "chan (ssh\<lparr>s_channels := (s_channels ssh)[i := x], s_effects := fx\<rparr>) j =
     (if i = j \<and> i < length (s_channels ssh) then x else chan ssh j)"
  by (auto simp: chan_def)

lemma slot_chan: "s_channels ssh ! i = Some c \<Longrightarrow> i < length (s_channels ssh) \<Longrightarrow> chan ssh i = Some c"
  by (simp add: chan_def)

locale channel_pass =
  fixes op :: "channel \<times> eff list \<Rightarrow> (channel \<times> eff list) run" and P :: "channel \<Rightarrow> bool"
  assumes keeps_op: "op (c, []) = Done (c', fx) \<Longrightarrow> P c \<Longrightarrow> P c'"
begin

lemma on_slot: "on_channel op i ssh = Done ssh' \<Longrightarrow> all_chans P ssh \<Longrightarrow> all_chans P ssh'"
  by (erule on_channelE, clarsimp simp: all_chans_def chan_updated split: if_splits)
    (blast intro: keeps_op slot_chan)

lemma pass:
  "for_slots (\<lambda>i c. on_channel op i) is ssh = Done ssh' \<Longrightarrow> all_chans P ssh \<Longrightarrow> all_chans P ssh'"
proof (induction "is" arbitrary: ssh)
  case (Cons i "is")
  then show ?case by (auto simp: andThen_Done split: option.splits dest: on_slot)
qed simp

end

text \<open>An operation that also establishes \<open>Q\<close>: after a sweep over the table, \<open>Q\<close> holds everywhere.\<close>

locale channel_sweep = channel_pass +
  fixes Q :: "channel \<Rightarrow> bool"
  assumes establishes: "op (c, []) = Done (c', fx) \<Longrightarrow> P c \<Longrightarrow> Q c'"
begin

lemma on_slot_other:
  "on_channel op i ssh = Done ssh' \<Longrightarrow> length (s_channels ssh') = length (s_channels ssh) \<and>
     (\<forall>j. j \<noteq> i \<longrightarrow> chan ssh' j = chan ssh j)"
  by (erule on_channelE) (auto simp: chan_updated)

lemma on_slot_establishes:
  "on_channel op i ssh = Done ssh' \<Longrightarrow> all_chans P ssh \<Longrightarrow> chan ssh' i = Some c \<Longrightarrow> Q c"
  by (erule on_channelE, clarsimp simp: all_chans_def chan_updated split: if_splits)
    (blast intro: establishes slot_chan, simp add: chan_def)

lemma sweep_others:
  "for_slots (\<lambda>i c. on_channel op i) is ssh = Done ssh' \<Longrightarrow> j \<notin> set is \<Longrightarrow>
     length (s_channels ssh') = length (s_channels ssh) \<and> chan ssh' j = chan ssh j"
  by (induction "is" arbitrary: ssh)
    (auto simp: andThen_Done split: option.splits dest!: on_slot_other)

lemma sweep_slots:
  "for_slots (\<lambda>i c. on_channel op i) is ssh = Done ssh' \<Longrightarrow> all_chans P ssh \<Longrightarrow> distinct is \<Longrightarrow>
     i \<in> set is \<Longrightarrow> i < length (s_channels ssh) \<Longrightarrow> chan ssh' i = Some c \<Longrightarrow> Q c"
proof (induction "is" arbitrary: ssh)
  case (Cons k ks)
  from Cons.prems(1) obtain s1 where
    s1: "s_channels ssh ! k = None \<and> s1 = ssh \<or> s_channels ssh ! k \<noteq> None \<and> on_channel op k ssh = Done s1"
    and rest: "for_slots (\<lambda>i c. on_channel op i) ks s1 = Done ssh'"
    by (auto simp: andThen_Done split: option.splits)
  have all: "all_chans P s1" and len: "length (s_channels s1) = length (s_channels ssh)"
    using s1 Cons.prems(2) on_slot on_slot_other by auto
  show ?case
  proof (cases "k = i")
    case True
    with Cons.prems(3) have "chan ssh' i = chan s1 i" using sweep_others[OF rest] by simp
    with s1 True Cons.prems(2,6) show ?thesis
      using on_slot_establishes[of i ssh s1 c] by (auto simp: chan_def split: if_splits)
  next
    case False
    with Cons.IH[OF rest all] Cons.prems len show ?thesis by auto
  qed
qed simp

lemma sweep:
  "for_slots (\<lambda>i c. on_channel op i) (slots ssh) ssh = Done ssh' \<Longrightarrow> all_chans P ssh \<Longrightarrow> all_chans Q ssh'"
proof -
  assume r: "for_slots (\<lambda>i c. on_channel op i) (slots ssh) ssh = Done ssh'" and p: "all_chans P ssh"
  have len: "length (s_channels ssh') = length (s_channels ssh)"
    using sweep_others[OF r, of "length (s_channels ssh)"] by (simp add: slots_def)
  show "all_chans Q ssh'"
    unfolding all_chans_def
  proof (intro allI impI)
    fix i c assume c: "chan ssh' i = Some c"
    then have "i < length (s_channels ssh)" using len by (auto simp: chan_def split: if_splits)
    with sweep_slots[OF r p, of i c] c show "Q c" by (simp add: slots_def)
  qed
qed

end

interpretation close_all: channel_sweep "\<lambda>st. Done (channel_close_fds st)" "\<lambda>c. True" "\<lambda>c. open_fds c = {}"
  by unfold_locales (auto dest!: arg_cong[where f = fst] simp: close_fds_open_fds)

lemma close_all_leaves_no_fd:
  "channel_close_all ssh = Done ssh' \<Longrightarrow> all_chans (\<lambda>c. open_fds c = {}) ssh'"
  unfolding channel_close_all_def by (rule close_all.sweep) (simp_all add: all_chans_def)

end
