(* ===== verification/ChanWindow.thy ===== *)
theory ChanWindow
  imports ChanOut ChanPass
begin

text \<open>
  Flow control. The window a channel grants bounds what it ever holds for its descriptors, across
  the input of data, the writes to the descriptors and the window adjustments; and what a channel
  sends stays within the window and packet size the peer granted and is, byte for byte, the front of
  its input buffer.
\<close>

section \<open>Reading into a buffer\<close>

lemma reserve_write_short:
  assumes inv: "sshbuf_inv buf" and res: "sshbuf_reserve alc buf len = (Inr p, b1)"
    and len: "length bs \<le> unat len"
  shows "\<exists>junk. sshbuf_inv (snd (write_at b1 p bs)) \<and> length junk = unat len - length bs \<and>
    contents (snd (write_at b1 p bs)) = contents buf @ bs @ junk \<and>
    same_shape buf (snd (write_at b1 p bs))"
proof -
  have "length (replicate (unat len) (0::u8)) = unat len" by simp
  from reserve_write[OF inv res this] obtain m where
    "mem_write (b_mem b1) (unat p) (replicate (unat len) 0) = Some m" by blast
  then have fit: "unat p + unat len \<le> length (b_mem b1)" by (auto simp: mem_write_def split: if_splits)
  define junk where "junk = take (unat len - length bs) (drop (unat p + length bs) (b_mem b1))"
  have lj: "length junk = unat len - length bs" using fit len by (simp add: junk_def)
  have "drop (unat p + length bs) (b_mem b1) = junk @ drop (unat p + unat len) (b_mem b1)"
    using append_take_drop_id[of "unat len - length bs" "drop (unat p + length bs) (b_mem b1)"] len
    unfolding junk_def by (simp only: drop_drop) (simp add: add.commute)
  then have same: "mem_write (b_mem b1) (unat p) bs = mem_write (b_mem b1) (unat p) (bs @ junk)"
    using fit len lj by (simp add: mem_write_def)
  have lb: "length (bs @ junk) = unat len" using lj len by simp
  from reserve_write[OF inv res lb] obtain m2 where
    "mem_write (b_mem b1) (unat p) (bs @ junk) = Some m2" "sshbuf_inv (b1\<lparr>b_mem := m2\<rparr>)"
    "contents (b1\<lparr>b_mem := m2\<rparr>) = contents buf @ bs @ junk" "same_shape buf (b1\<lparr>b_mem := m2\<rparr>)" by blast
  with same lj show ?thesis by (intro exI[of _ junk]) (simp add: write_at_def)
qed

lemma unat_less_64: "unat (x :: size_t) < 18446744073709551616"
  using unsigned_less [of x] by simp

lemma sshbuf_read_result:
  assumes inv: "sshbuf_inv buf" and rd: "\<And>bs. rd maxlen = Got bs \<Longrightarrow> length bs \<le> unat maxlen"
    and res: "sshbuf_read alc buf maxlen rd = (r, b')"
  shows "sshbuf_inv b' \<and> same_shape buf b' \<and>
    (case r of Got bs \<Rightarrow> rd maxlen = Got bs \<and> bs \<noteq> [] \<and> contents b' = contents buf @ bs
     | _ \<Rightarrow> contents b' = contents buf) \<and>
    r = (case fst (sshbuf_reserve alc buf maxlen) of Inl _ \<Rightarrow> Err
         | Inr _ \<Rightarrow> (case rd maxlen of Got bs \<Rightarrow> if bs = [] then Err else Got bs | x \<Rightarrow> x))"
proof (cases "sshbuf_reserve alc buf maxlen")
  case (Pair r0 b1)
  show ?thesis
  proof (cases r0)
    case (Inl e)
    with Pair res reserve_error[OF inv, of alc maxlen e b1] show ?thesis
      by (auto simp: sshbuf_read_def)
  next
    case (Inr d)
    define bs where "bs = (case rd maxlen of Got bs \<Rightarrow> bs | _ \<Rightarrow> [])"
    define b2 where "b2 = snd (write_at b1 d bs)"
    define adjust where "adjust = maxlen - word_of_nat (length bs)"
    obtain r3 b3 where c: "(if adjust \<noteq> 0 then sshbuf_consume_end b2 adjust else (Inr (), b2)) = (r3, b3)"
      by fastforce
    have lb: "length bs \<le> unat maxlen" using rd by (auto simp: bs_def split: io_res.splits)
    have ub: "unat (word_of_nat (length bs) :: size_t) = length bs"
      using lb unat_less_64[of maxlen] by (intro unat_of_length) simp
    have ua: "unat adjust = unat maxlen - length bs"
      unfolding adjust_def using lb ub by (subst unat_diff_nowrap) (simp_all add: ub)
    obtain junk where b2: "sshbuf_inv b2" "length junk = unat maxlen - length bs"
      "contents b2 = contents buf @ bs @ junk" "same_shape buf b2"
      using reserve_write_short[OF inv Pair[unfolded Inr] lb] unfolding b2_def by blast
    have b3: "r3 = Inr () \<and> sshbuf_inv b3 \<and> same_shape buf b3 \<and> contents b3 = contents buf @ bs"
    proof (cases "adjust = 0")
      case True
      then have "junk = []" using b2(2) ua by simp
      with True c b2 show ?thesis by auto
    next
      case False
      have "unat adjust \<le> length (contents b2)" using b2 ua by (simp del: length_contents)
      then show ?thesis
        using consume_end_spec[OF b2(1), of adjust] c False b2(2-4) ua same_shape_trans[OF b2(4)]
        by (simp del: length_contents)
    qed
    have "sshbuf_read alc buf maxlen rd = (case rd maxlen of
        Got bs \<Rightarrow> if bs = [] then (Err, b3) else (Got bs, b3) | x \<Rightarrow> (x, b3))"
      using b3 c unfolding sshbuf_read_def Pair Inr prod.case sum.case Let_def bs_def[symmetric]
        b2_def[symmetric] adjust_def[symmetric] by simp
    with res b3 show ?thesis by (auto simp: bs_def Pair Inr split: io_res.splits if_splits)
  qed
qed

lemma sshbuf_read_spec:
  assumes "sshbuf_inv buf" "\<And>bs. rd maxlen = Got bs \<Longrightarrow> length bs \<le> unat maxlen"
    and "sshbuf_read alc buf maxlen rd = (r, b')"
  shows "sshbuf_inv b' \<and> same_shape buf b' \<and>
    (case r of Got bs \<Rightarrow> rd maxlen = Got bs \<and> bs \<noteq> [] \<and> contents b' = contents buf @ bs
     | _ \<Rightarrow> contents b' = contents buf)"
  using sshbuf_read_result[OF assms] by blast

section \<open>The window we grant\<close>

text \<open>
  What the peer may still send, what has been consumed and not yet given back, and what is held in
  the buffers never exceed the window the channel was set up with.
\<close>

definition held :: "channel \<Rightarrow> nat" where
  "held c = length (contents (c_output c)) +
     (if c_extended_usage c = CHAN_EXTENDED_WRITE then length (contents (c_extended c)) else 0)"

definition window_inv :: "channel \<Rightarrow> bool" where
  "window_inv c \<longleftrightarrow> bufs_ok c \<and>
     unat (c_local_window c) + unat (c_local_consumed c) + held c \<le> unat (c_local_window_max c)"

lemma unat_ucast_down_32: "unat (x :: size_t) < 2 ^ 32 \<Longrightarrow> unat (ucast x :: u32) = unat x"
  by (simp add: unsigned_ucast_eq take_bit_eq_mod unat_mod_distrib)

text \<open>The bytes a message adds to the output buffer: a datagram keeps its length.\<close>

definition framed :: "channel \<Rightarrow> u8 list \<Rightarrow> u8 list" where
  "framed c data = (if c_datagram c then enc_string data else data)"

definition win_len :: "channel \<Rightarrow> u8 list \<Rightarrow> size_t" where
  "win_len c data = (if c_datagram c then word_of_nat (length data) + 4 else word_of_nat (length data))"

lemma unat_win_len: "length data < 2 ^ 32 \<Longrightarrow> unat (win_len c data) = length (framed c data)"
proof -
  assume l: "length data < 2 ^ 32"
  have u: "unat (word_of_nat (length data) :: size_t) = length data" using l by (intro unat_of_length) simp
  show ?thesis using l by (auto simp: win_len_def framed_def u unat_add_nowrap)
qed

lemma take_data_unfold:
  "take_data e c data =
    (if c_ostate c \<noteq> CHAN_OUTPUT_OPEN
     then Some (c\<lparr>c_local_window := c_local_window c - ucast (win_len c data),
                  c_local_consumed := c_local_consumed c + ucast (win_len c data)\<rparr>)
     else if win_len c data > ucast (c_local_maxpacket c) then Some c
     else if win_len c data > ucast (c_local_window c) then Some c
     else (case (if c_datagram c then sshbuf_put_string (e_alc e) (c_output c) data
                 else sshbuf_put (e_alc e) (c_output c) data) of
             (Inl r, _) \<Rightarrow> None
           | (Inr _, out) \<Rightarrow> Some (c\<lparr>c_local_window := c_local_window c - ucast (win_len c data),
                                      c_output := out\<rparr>)))"
  unfolding take_data_def Let_def win_len_def ..

lemma put_framed_post:
  assumes "sshbuf_inv (c_output c)" "length data < 2 ^ 32"
    "(if c_datagram c then sshbuf_put_string alc (c_output c) data
      else sshbuf_put alc (c_output c) data) = (r, out)"
  shows "put_post (c_output c) (framed c data) r out"
  using assms put_string_post[OF assms(1), of data alc r out] put_bytes_post[OF assms(1), of data alc r out]
  by (simp add: framed_def split: if_splits)

lemma bufs_ok_output:
  "bufs_ok c \<Longrightarrow> put_post (c_output c) bs r out \<Longrightarrow> bufs_ok (c\<lparr>c_output := out\<rparr>)"
  by (auto simp: bufs_ok_def put_post_def same_shape_writable) (auto simp: same_shape_def)

lemma bufs_ok_cong:
  "c_input c' = c_input c \<Longrightarrow> c_output c' = c_output c \<Longrightarrow> c_extended c' = c_extended c \<Longrightarrow>
   bufs_ok c' = bufs_ok c"
  by (simp add: bufs_ok_def)

lemma take_data_open:
  assumes inv: "window_inv c" and data: "length data < 2 ^ 32" and o: "c_ostate c = CHAN_OUTPUT_OPEN"
    and res: "take_data e c data = Some c'"
  shows "window_inv c' \<and>
    (if length (framed c data) \<le> unat (c_local_maxpacket c) \<and>
        length (framed c data) \<le> unat (c_local_window c)
     then contents (c_output c') = contents (c_output c) @ framed c data \<and>
          unat (c_local_window c') + length (framed c data) = unat (c_local_window c)
     else c' = c)"
proof -
  let ?w = "win_len c data"
  note uw = unat_win_len[OF data, of c]
  have b: "bufs_ok c" using inv by (simp add: window_inv_def)
  have big: "(?w > ucast (c_local_maxpacket c)) = (length (framed c data) > unat (c_local_maxpacket c))"
    "(?w > ucast (c_local_window c)) = (length (framed c data) > unat (c_local_window c))"
    by (simp_all add: word_less_nat_alt uw unat_ucast_up_32)
  show ?thesis
  proof (cases "length (framed c data) \<le> unat (c_local_maxpacket c) \<and>
        length (framed c data) \<le> unat (c_local_window c)")
    case False
    with res o big inv show ?thesis by (auto simp: take_data_unfold)
  next
    case True
    obtain r out where p: "(if c_datagram c then sshbuf_put_string (e_alc e) (c_output c) data
        else sshbuf_put (e_alc e) (c_output c) data) = (r, out)" by fastforce
    have post: "put_post (c_output c) (framed c data) r out"
      using b data p by (intro put_framed_post) (auto simp: bufs_ok_def)
    obtain u where r: "r = Inr u" and c': "c' = c\<lparr>c_local_window := c_local_window c - ucast ?w, c_output := out\<rparr>"
      using res o big True p by (cases r) (auto simp: take_data_unfold)
    have u32: "unat (ucast ?w :: u32) = length (framed c data)"
      using True uw unat_less_32[of "c_local_window c"] by (subst unat_ucast_down_32) simp_all
    have lw: "unat (c_local_window c - ucast ?w) = unat (c_local_window c) - length (framed c data)"
      using True u32 by (simp add: unat_sub word_le_nat_alt)
    have out: "contents out = contents (c_output c) @ framed c data" using post r by (simp add: put_post_def)
    have "bufs_ok c'" using bufs_ok_output[OF b post] by (simp add: bufs_ok_def c')
    then show ?thesis using True inv out lw
      by (auto simp: window_inv_def held_def c' simp del: length_contents split: if_splits)
  qed
qed


text \<open>Operations that leave the accounts alone and hold no more than before.\<close>

definition calmer :: "channel \<Rightarrow> channel \<Rightarrow> bool" where
  "calmer c c' \<longleftrightarrow> (bufs_ok c \<longrightarrow> bufs_ok c' \<and> held c' \<le> held c) \<and>
     c_local_window c' = c_local_window c \<and> c_local_consumed c' = c_local_consumed c \<and>
     c_local_window_max c' = c_local_window_max c \<and> c_local_maxpacket c' = c_local_maxpacket c \<and>
     c_output_filter c' = c_output_filter c"

lemma calmer_window: "calmer c c' \<Longrightarrow> window_inv c \<Longrightarrow> window_inv c'"
  by (auto simp: calmer_def window_inv_def)

lemma calmer_refl [simp]: "calmer c c"
  by (simp add: calmer_def)

lemma calmer_trans: "calmer a b \<Longrightarrow> calmer b c \<Longrightarrow> calmer a c"
  by (auto simp: calmer_def)

lemma calmer_same:
  "c_input c' = c_input c \<Longrightarrow> c_output c' = c_output c \<Longrightarrow> c_extended c' = c_extended c \<Longrightarrow>
   c_extended_usage c' = c_extended_usage c \<Longrightarrow> c_local_window c' = c_local_window c \<Longrightarrow>
   c_local_consumed c' = c_local_consumed c \<Longrightarrow> c_local_window_max c' = c_local_window_max c \<Longrightarrow>
   c_local_maxpacket c' = c_local_maxpacket c \<Longrightarrow> c_output_filter c' = c_output_filter c \<Longrightarrow>
   calmer c c'"
  by (simp add: calmer_def bufs_ok_def held_def)

lemma calmer_close_fd [simp]: "calmer (fst st) (fst (channel_close_fd st fd))"
  by (rule calmer_same) (simp_all add: channel_close_fd_def Let_def)

lemma calmer_set [simp]:
  "calmer (fst st) (fst (chan_set_istate s st))" "calmer (fst st) (fst (chan_set_ostate t st))"
  "calmer (fst st) (fst (chan_mark_dead st))"
  by (rule calmer_same; simp add: chan_set_istate_def chan_set_ostate_def chan_mark_dead_def)+

lemma calmer_output:
  "sshbuf_inv out \<Longrightarrow> same_shape (c_output c) out \<Longrightarrow> length (contents out) \<le> length (contents (c_output c)) \<Longrightarrow>
   calmer c (c\<lparr>c_output := out\<rparr>)"
  by (auto simp: calmer_def bufs_ok_def held_def same_shape_writable simp del: length_contents)
     (auto simp: same_shape_def)

lemma calmer_reset_output: "calmer c (c\<lparr>c_output := sshbuf_reset alc (c_output c)\<rparr>)"
proof (cases "bufs_ok c")
  case True
  then have "sshbuf_inv (c_output c)" "writable (c_output c)" "SSHBUF_SIZE_INIT \<le> b_max_size (c_output c)"
    by (auto simp: bufs_ok_def)
  with reset_spec[OF this(1), of alc]
  have "sshbuf_inv (sshbuf_reset alc (c_output c))" "contents (sshbuf_reset alc (c_output c)) = []"
    "b_max_size (sshbuf_reset alc (c_output c)) = b_max_size (c_output c)" by auto
  moreover have "writable (sshbuf_reset alc (c_output c))" using \<open>writable (c_output c)\<close>
    by (auto simp: sshbuf_reset_def writable_def Let_def)
  ultimately show ?thesis using True
    by (auto simp: calmer_def bufs_ok_def held_def simp del: length_contents)
qed (auto simp: calmer_def)

lemma calmer_shutdown_write [simp]: "calmer (fst st) (fst (chan_shutdown_write e st))"
proof -
  let ?st = "((fst st)\<lparr>c_output := sshbuf_reset (e_alc e) (c_output (fst st))\<rparr>, snd st)"
  have "calmer (fst ?st) (fst (chan_shutdown_write e st))"
    using calmer_close_fd[of ?st] by (simp add: chan_shutdown_write_def Let_def)
  with calmer_reset_output[of "fst st" "e_alc e"] show ?thesis by (auto intro: calmer_trans)
qed

lemma calmer_shutdown_read [simp]: "calmer (fst st) (fst (chan_shutdown_read st))"
  by (simp add: chan_shutdown_read_def Let_def)

lemma calmer_read_failed [simp]: "calmer (fst st) (fst (chan_read_failed st))"
  by (auto simp: chan_read_failed_def intro: calmer_trans[OF calmer_shutdown_read calmer_set(1)])

lemma calmer_read_fail [simp]: "calmer (fst st) (fst (read_fail st))"
  by (simp add: read_fail_def)

lemma calmer_write_failed:
  assumes "chan_write_failed e cm st = Done st'" shows "calmer (fst st) (fst st')"
proof -
  let ?st = "chan_shutdown_write e st"
  have "st' = st \<or> (\<exists>st2. fst st2 = fst ?st \<and> st' = chan_set_ostate CHAN_OUTPUT_CLOSED st2)"
    using assms by (auto simp: chan_write_failed_def Let_def andThen_Done split: if_splits
        dest!: send_eow2_result)
  then show ?thesis using calmer_shutdown_write[of st e] calmer_set(2)
    by (metis calmer_refl calmer_trans)
qed

lemma calmer_write_fail: "write_fail e cm st = Done st' \<Longrightarrow> calmer (fst st) (fst st')"
  by (auto simp: write_fail_def calmer_write_failed split: if_splits)

text \<open>What the handlers of the descriptors do to the accounts.\<close>

definition read_ok :: "(size_t \<Rightarrow> io_res) \<Rightarrow> bool" where
  "read_ok rd \<longleftrightarrow> (\<forall>n bs. rd n = Got bs \<longrightarrow> length bs \<le> unat n)"

definition write_ok :: "(u8 list \<Rightarrow> io_res) \<Rightarrow> bool" where
  "write_ok wr \<longleftrightarrow> (\<forall>bs n. wr bs = Wrote n \<longrightarrow> n \<le> length bs)"

lemma calmer_input:
  "sshbuf_inv inp \<Longrightarrow> same_shape (c_input c) inp \<Longrightarrow> calmer c (c\<lparr>c_input := inp\<rparr>)"
  by (auto simp: calmer_def bufs_ok_def held_def same_shape_writable) (auto simp: same_shape_def)

lemma calmer_lastused: "calmer a b \<Longrightarrow> calmer a (b\<lparr>c_lastused := t\<rparr>)"
  by (erule calmer_trans) (rule calmer_same; simp)

lemma calmer_frame: "calmer c c' \<Longrightarrow> bufs_ok c \<Longrightarrow> bufs_ok c'"
  by (simp add: calmer_def)

lemma rfd_simple_calmer:
  assumes rd: "read_ok rd" and bufs: "bufs_ok (fst st)" and res: "rfd_simple e rd force st = Done st'"
  shows "calmer (fst st) (fst st')"
proof -
  have inv: "sshbuf_inv (c_input (fst st))" using bufs by (simp add: bufs_ok_def)
  have sp: "calmer (fst st) ((fst st)\<lparr>c_input := snd (sshbuf_read (e_alc e) (c_input (fst st)) m rd)\<rparr>)" for m
  proof (rule calmer_input)
    have "\<And>bs. rd m = Got bs \<Longrightarrow> length bs \<le> unat m" using rd by (simp add: read_ok_def)
    from sshbuf_read_spec[OF inv this, where alc = "e_alc e"]
    show "sshbuf_inv (snd (sshbuf_read (e_alc e) (c_input (fst st)) m rd))"
      "same_shape (c_input (fst st)) (snd (sshbuf_read (e_alc e) (c_input (fst st)) m rd))"
      by (metis prod.collapse)+
  qed
  have "st' = st \<or> (\<exists>m. let c1 = (fst st)\<lparr>c_input := snd (sshbuf_read (e_alc e) (c_input (fst st)) m rd)\<rparr> in
      fst st' = c1\<lparr>c_lastused := e_monotime e\<rparr> \<or> st' = (c1, snd st) \<or> st' = read_fail (c1, snd st))"
    using res unfolding rfd_simple_def Let_def case_prod_unfold
    by (auto split: if_split_asm option.split_asm io_res.split_asm)
  then show ?thesis
    using sp calmer_lastused[OF sp] calmer_trans[OF sp calmer_read_fail[of "(c, snd st)" for c, simplified]]
    by (auto simp: Let_def)
qed

lemma rfd_calmer:
  assumes rd: "read_ok rd" and bufs: "bufs_ok (fst st)" and nf: "c_input_filter (fst st) = None"
    and res: "channel_handle_rfd e rd st = Done st'"
  shows "calmer (fst st) (fst st')"
proof -
  have lt: "length bs < 2 ^ 32" if "rd CHAN_RBUF = Got bs" for bs
    using rd that by (fastforce simp: read_ok_def)
  have bytes: "calmer (fst st) (fst st')" if "rfd_bytes e bs st = Done st'" "length bs < 2 ^ 32" for bs
  proof -
    let ?c1 = "(fst st)\<lparr>c_lastused := e_monotime e\<rparr>"
    obtain r inp where p: "sshbuf_put_string (e_alc e) (c_input (fst st)) bs = (r, inp)" by fastforce
    with that nf have c': "fst st' = ?c1\<lparr>c_input := inp\<rparr>"
      by (cases r) (auto simp: rfd_bytes_def Let_def)
    have "sshbuf_inv inp \<and> same_shape (c_input ?c1) inp"
      using put_string_post[of "c_input (fst st)" bs "e_alc e" r inp] bufs that(2) p
      by (auto simp: put_post_def bufs_ok_def)
    with c' calmer_trans[OF calmer_lastused[OF calmer_refl] calmer_input] show ?thesis by simp
  qed
  have "st' = st \<or> st' = read_fail st \<or> rfd_simple e rd (read_force (fst st)) st = Done st' \<or>
      (\<exists>bs. rd CHAN_RBUF = Got bs \<and> rfd_bytes e bs st = Done st')"
    using res unfolding channel_handle_rfd_def Let_def
    by (auto split: if_split_asm io_res.split_asm)
  with lt bytes show ?thesis using rfd_simple_calmer[OF rd bufs, of e _ st'] by (elim disjE) auto
qed

text \<open>Bytes written out of a buffer move from what is held to what is to be given back.\<close>

lemma window_charge:
  assumes inv: "window_inv c" and b: "bufs_ok c'" and k: "held c' + unat (n :: u32) \<le> held c"
    and c': "c_local_window c' = c_local_window c" "c_local_consumed c' = c_local_consumed c + n"
      "c_local_window_max c' = c_local_window_max c"
  shows "window_inv c'"
proof -
  have s: "unat (c_local_window c) + unat (c_local_consumed c) + held c \<le> unat (c_local_window_max c)"
    using inv by (simp add: window_inv_def)
  have "unat (c_local_consumed c + n) = unat (c_local_consumed c) + unat n"
    using s k unat_less_32[of "c_local_window_max c"] by (subst unat_plus_if') simp
  with s k b c' show ?thesis by (simp add: window_inv_def)
qed

lemma calmer_ext:
  "sshbuf_inv ext \<Longrightarrow> same_shape (c_extended c) ext \<Longrightarrow>
   c_extended_usage c = CHAN_EXTENDED_WRITE \<longrightarrow> length (contents ext) \<le> length (contents (c_extended c)) \<Longrightarrow>
   calmer c (c\<lparr>c_extended := ext\<rparr>)"
  by (auto simp: calmer_def bufs_ok_def held_def same_shape_writable simp del: length_contents)
     (auto simp: same_shape_def)

lemma bufs_ok_parts:
  "bufs_ok c \<Longrightarrow> sshbuf_inv (c_input c) \<and> sshbuf_inv (c_output c) \<and> sshbuf_inv (c_extended c)"
  by (simp add: bufs_ok_def)

lemma window_after_write:
  assumes inv: "window_inv c" and out: "sshbuf_inv out" "same_shape (c_output c) out"
    "length (contents out) \<le> length (contents (c_output c))"
    and c': "c' = c\<lparr>c_lastused := t, c_output := out,
       c_local_consumed := c_local_consumed c + ucast (sshbuf_len (c_output c) - sshbuf_len out)\<rparr>"
  shows "window_inv c'"
proof (rule window_charge[OF inv])
  have b: "bufs_ok c" using inv by (simp add: window_inv_def)
  have "bufs_ok (c\<lparr>c_output := out\<rparr>)" using calmer_frame[OF calmer_output[OF out] b] .
  then show "bufs_ok c'" by (simp add: bufs_ok_def c')
  have "length (contents (c_output c)) < 2 ^ 32"
    using inv unat_less_32[of "c_local_window_max c"] by (auto simp: window_inv_def held_def simp del: length_contents)
  then have "unat (ucast (sshbuf_len (c_output c) - sshbuf_len out) :: u32) =
      length (contents (c_output c)) - length (contents out)"
    using b out by (subst unat_ucast_down_32) (simp_all add: unat_diff_nowrap bufs_ok_parts del: length_contents)
  then show "held c' + unat (ucast (sshbuf_len (c_output c) - sshbuf_len out) :: u32) \<le> held c"
    using out(3) by (simp add: held_def c' del: length_contents)
qed (simp_all add: c')

lemma wfd_data_calmer:
  assumes inv: "window_inv (fst st)" and nf: "c_output_filter (fst st) = None"
    and res: "wfd_data e cm st = Done (data, st1)"
  obtains buf out where "data = Some buf" "fst st1 = (fst st)\<lparr>c_output := out\<rparr>" "sshbuf_inv out"
    "same_shape (c_output (fst st)) out" "length (contents out) \<le> length (contents (c_output (fst st)))"
proof -
  let ?c = "fst st"
  have o: "sshbuf_inv (c_output ?c)" using inv by (simp add: window_inv_def bufs_ok_parts)
  show ?thesis
  proof (cases "c_datagram ?c")
    case True
    obtain r out where g: "sshbuf_get_string (e_alc e) (c_output ?c) = (r, out)" by fastforce
    from res nf True g obtain d where r: "r = Inr d" "data = Some d" "fst st1 = ?c\<lparr>c_output := out\<rparr>"
      by (cases r) (auto simp: wfd_data_def Let_def)
    from get_string_spec[OF o g] r(1)
    have "sshbuf_inv out" "same_shape (c_output ?c) out" "length (contents out) \<le> length (contents (c_output ?c))"
      by (auto split: sum.splits simp del: length_contents)
    with r show ?thesis by (intro that)
  next
    case False
    with res nf have "data = Some (contents (c_output ?c))" "st1 = st" by (auto simp: wfd_data_def Let_def)
    with o show ?thesis by (intro that[of "contents (c_output ?c)" "c_output ?c"]) auto
  qed
qed

lemma consumed_window:
  assumes inv: "window_inv c" and out: "sshbuf_inv out" "same_shape (c_output c) out"
    "length (contents out) \<le> length (contents (c_output c))"
    and st: "fst st = c\<lparr>c_lastused := t, c_output := out\<rparr>" and olen: "olen = sshbuf_len (c_output c)"
  shows "window_inv (fst (wfd_consumed olen st))"
  by (rule window_after_write[OF inv out]) (simp add: wfd_consumed_def st olen)

lemma wfd_window:
  assumes inv: "window_inv (fst st)" and nf: "c_output_filter (fst st) = None"
    and res: "channel_handle_wfd e cm wr st = Done st'"
  shows "window_inv (fst st')"
proof (cases "c_io_ready (fst st) AND SSH_CHAN_IO_WFD = 0 \<or> sshbuf_len (c_output (fst st)) = 0")
  case True
  with res inv show ?thesis by (auto simp: channel_handle_wfd_def Let_def cong: if_cong)
next
  case ready: False
  let ?c = "fst st" and ?olen = "sshbuf_len (c_output (fst st))"
  from res ready obtain data st1 where d: "wfd_data e cm st = Done (data, st1)"
    by (auto simp: channel_handle_wfd_def Let_def andThen_Done)
  obtain buf out where r: "data = Some buf" "fst st1 = ?c\<lparr>c_output := out\<rparr>" and out: "sshbuf_inv out"
    "same_shape (c_output ?c) out" "length (contents out) \<le> length (contents (c_output ?c))"
    by (rule wfd_data_calmer[OF inv nf d])
  have w1: "window_inv (fst st1)" using calmer_window[OF calmer_output[OF out] inv] r(2) by simp
  have wf: "window_inv (fst st')" if "write_fail e cm st1 = Done st'"
    using calmer_window[OF calmer_write_fail[OF that] w1] .
  have con: "window_inv (fst (wfd_consumed ?olen st1))"
    by (rule consumed_window[OF inv out, where t = "c_lastused ?c"]) (simp_all add: r)
  have str: "window_inv (fst st')" if "wfd_stream e ?olen buf n st1 = Done st'" for n
  proof -
    obtain rc out2 where g: "sshbuf_consume out (word_of_nat n) = (rc, out2)" by fastforce
    with that r(2) obtain es where st': "st' = wfd_consumed ?olen
        (?c\<lparr>c_lastused := e_monotime e, c_output := out2\<rparr>, es)"
      by (cases rc) (auto simp: wfd_stream_def Let_def andThen_Done wfd_consumed_def)
    have o2: "sshbuf_inv out2" "same_shape (c_output ?c) out2"
      "length (contents out2) \<le> length (contents (c_output ?c))"
      using consume_spec[OF out(1), of "word_of_nat n"] g out(2,3) same_shape_trans[OF out(2)]
      by (auto split: if_splits simp del: length_contents)
    show ?thesis unfolding st' by (rule consumed_window[OF inv o2]) simp_all
  qed
  from res ready d r(1) w1 show ?thesis
    by (auto simp: channel_handle_wfd_def Let_def andThen_Done wf con str
        split: if_split_asm io_res.split_asm)
qed

lemma efd_write_window:
  assumes inv: "window_inv (fst st)" and wr: "write_ok wr" and use: "c_extended_usage (fst st) = CHAN_EXTENDED_WRITE"
    and res: "channel_handle_efd_write e wr st = Done st'"
  shows "window_inv (fst st')"
proof (cases "c_io_ready (fst st) AND SSH_CHAN_IO_EFD_W = 0 \<or> sshbuf_len (c_extended (fst st)) = 0")
  case True
  with res inv show ?thesis by (auto simp: channel_handle_efd_write_def Let_def cong: if_cong)
next
  case ready: False
  let ?c = "fst st"
  have b: "bufs_ok ?c" using inv by (simp add: window_inv_def)
  note x = bufs_ok_parts[OF b, THEN conjunct2, THEN conjunct2]
  have cl: "window_inv (fst (channel_close_fd st fd))" for fd
    using calmer_window[OF calmer_close_fd inv] .
  show ?thesis
  proof (cases "wr (contents (c_extended ?c))")
    case (Wrote n)
    show ?thesis
    proof (cases "n = 0")
      case True
      with res ready Wrote cl show ?thesis by (auto simp: channel_handle_efd_write_def Let_def)
    next
      case nz: False
      have n: "n \<le> length (contents (c_extended ?c))" using wr Wrote by (simp add: write_ok_def)
      have l32: "length (contents (c_extended ?c)) < 2 ^ 32"
        using inv use unat_less_32[of "c_local_window_max ?c"]
        by (auto simp: window_inv_def held_def simp del: length_contents)
      have u: "unat (word_of_nat n :: size_t) = n" "unat (word_of_nat n :: u32) = n"
        using n l32 by (simp_all add: unsigned_of_nat take_bit_nat_eq_self del: length_contents)
      obtain r ext where g: "sshbuf_consume (c_extended ?c) (word_of_nat n) = (r, ext)" by fastforce
      from res ready nz Wrote g have c': "fst st' = ?c\<lparr>c_extended := ext,
          c_local_consumed := c_local_consumed ?c + word_of_nat n, c_lastused := e_monotime e\<rparr>"
        by (cases r) (auto simp: channel_handle_efd_write_def Let_def)
      have ext: "sshbuf_inv ext" "same_shape (c_extended ?c) ext"
        "length (contents ext) = length (contents (c_extended ?c)) - n"
        using consume_spec[OF x, of "word_of_nat n"] g n u
        by (auto split: if_splits simp del: length_contents)
      have "bufs_ok (?c\<lparr>c_extended := ext\<rparr>)"
        using calmer_frame[OF calmer_ext[OF ext(1,2)] b] ext(3) by (simp del: length_contents)
      then have "bufs_ok (fst st')" by (simp add: c' bufs_ok_def)
      then show ?thesis
        by (rule window_charge[OF inv]) (use c' u n ext use in \<open>simp_all add: held_def del: length_contents\<close>)
    qed
  qed (use res ready inv cl in \<open>auto simp: channel_handle_efd_write_def Let_def\<close>)
qed

lemma efd_read_calmer:
  assumes rd: "read_ok rd" and b: "bufs_ok (fst st)" and use: "c_extended_usage (fst st) \<noteq> CHAN_EXTENDED_WRITE"
    and res: "channel_handle_efd_read e rd st = Done st'"
  shows "calmer (fst st) (fst st')"
proof (cases "rd CHAN_RBUF")
  case (Got bs)
  let ?c = "fst st"
  have lt: "length bs < 2 ^ 32" using rd Got by (fastforce simp: read_ok_def)
  obtain r ext where p: "sshbuf_put (e_alc e) (c_extended ?c) bs = (r, ext)" by fastforce
  let ?c1 = "?c\<lparr>c_lastused := e_monotime e\<rparr>"
  have c1: "calmer ?c ?c1" by (rule calmer_lastused) simp
  have "calmer ?c1 (?c1\<lparr>c_extended := ext\<rparr>)"
    using put_bytes_post[of "c_extended ?c" bs "e_alc e" r ext] b lt p use
    by (intro calmer_ext) (auto simp: bufs_ok_parts put_post_def)
  from calmer_trans[OF c1 this] c1 show ?thesis using res Got p
    by (cases r; auto simp: channel_handle_efd_read_def Let_def split: if_split_asm)
qed (use res in \<open>auto simp: channel_handle_efd_read_def Let_def split: if_split_asm\<close>)

lemma check_window_keeps:
  assumes inv: "window_inv (fst st)" and res: "channel_check_window e st = Done st'"
  shows "window_inv (fst st')"
proof -
  let ?c = "fst st"
  have s: "unat (c_local_window ?c) + unat (c_local_consumed ?c) + held ?c \<le> unat (c_local_window_max ?c)"
    using inv by (simp add: window_inv_def)
  have "unat (c_local_window ?c + c_local_consumed ?c) = unat (c_local_window ?c) + unat (c_local_consumed ?c)"
    using s unat_less_32[of "c_local_window_max ?c"] by (subst unat_plus_if') simp
  with s inv res show ?thesis
    by (auto simp: channel_check_window_def send_pkt_def Let_def andThen_Done window_inv_def bufs_ok_def held_def
        split: if_split_asm)
qed

text \<open>One turn of an open channel.\<close>

lemma post_open_window:
  assumes inv: "window_inv (fst st)" and nf: "c_input_filter (fst st) = None" "c_output_filter (fst st) = None"
    and rd: "read_ok rd" "read_ok erd" and wr: "write_ok ewr"
    and res: "channel_post_open e cm rd wr erd ewr st = Done st'"
  shows "window_inv (fst st')"
proof -
  from res obtain s1 s2 s3 where h: "channel_handle_rfd e rd st = Done s1"
    "channel_handle_wfd e cm wr s1 = Done s2" "channel_handle_efd e erd ewr s2 = Done s3"
    "channel_check_window e s3 = Done st'" by (auto simp: channel_post_open_def andThen_Done)
  have "bufs_ok (fst st)" using inv by (simp add: window_inv_def)
  note c1 = rfd_calmer[OF rd(1) this nf(1) h(1)]
  from calmer_window[OF c1 inv] have "window_inv (fst s1)" .
  moreover have "c_output_filter (fst s1) = None" using c1 nf(2) by (simp add: calmer_def)
  ultimately have s2: "window_inv (fst s2)" using wfd_window[OF _ _ h(2)] by blast
  then have b2: "bufs_ok (fst s2)" by (simp add: window_inv_def)
  have "window_inv (fst s3)"
    using h(3) s2 efd_write_window[OF s2 wr] calmer_window[OF efd_read_calmer[OF rd(2) b2] s2]
    by (auto simp: channel_handle_efd_def Let_def split: if_split_asm)
  from check_window_keeps[OF this h(4)] show ?thesis .
qed

text \<open>Messages of the peer.\<close>

lemma take_ext_data_window:
  assumes inv: "window_inv c" and data: "length data < 2 ^ 32" and use: "c_extended_usage c = CHAN_EXTENDED_WRITE"
  shows "window_inv (take_ext_data e c data)"
    and "contents (c_extended (take_ext_data e c data)) = contents (c_extended c) \<or>
      contents (c_extended (take_ext_data e c data)) = contents (c_extended c) @ data \<and>
      length data \<le> unat (c_local_window c)"
proof -
  have b: "bufs_ok c" using inv by (simp add: window_inv_def)
  obtain r ext where p: "sshbuf_put (e_alc e) (c_extended c) data = (r, ext)" by fastforce
  have post: "put_post (c_extended c) data r ext"
    using put_bytes_post[of "c_extended c" data "e_alc e" r ext] b data p by (simp add: bufs_ok_parts)
  have u: "unat (word_of_nat (length data) :: size_t) = length data" using data by (intro unat_of_length) simp
  have big: "(word_of_nat (length data) > (ucast (c_local_window c) :: size_t)) = (length data > unat (c_local_window c))"
    by (simp add: word_less_nat_alt u)
  have ext: "sshbuf_inv ext" "same_shape (c_extended c) ext" "contents ext = contents (c_extended c) @ data \<or>
      contents ext = contents (c_extended c)"
    using post by (cases r; simp add: put_post_def)+
  show "contents (c_extended (take_ext_data e c data)) = contents (c_extended c) \<or>
      contents (c_extended (take_ext_data e c data)) = contents (c_extended c) @ data \<and>
      length data \<le> unat (c_local_window c)"
    using ext big p by (auto simp: take_ext_data_def Let_def)
  show "window_inv (take_ext_data e c data)"
  proof (cases "length data > unat (c_local_window c)")
    case True
    with big inv show ?thesis by (simp add: take_ext_data_def Let_def)
  next
    case False
    have "unat (ucast (word_of_nat (length data) :: size_t) :: u32) = length data"
      using data u by (subst unat_ucast_down_32) simp_all
    then have lw: "unat (c_local_window c - ucast (word_of_nat (length data) :: size_t)) =
        unat (c_local_window c) - length data" using False by (simp add: unat_sub word_le_nat_alt)
    have "bufs_ok (c\<lparr>c_extended := ext\<rparr>)"
      using b ext by (auto simp: bufs_ok_def same_shape_writable) (auto simp: same_shape_def)
    moreover have "take_ext_data e c data = c\<lparr>c_extended := ext,
        c_local_window := c_local_window c - ucast (word_of_nat (length data) :: size_t)\<rparr>"
      using False big p by (simp add: take_ext_data_def Let_def)
    ultimately show ?thesis using inv lw ext(3) use False
      by (auto simp: window_inv_def held_def bufs_ok_def simp del: length_contents)
  qed
qed

text \<open>Data for a side that is closed is accounted as consumed at once, if the peer kept to its window.\<close>

lemma take_data_closed:
  assumes inv: "window_inv c" and data: "length data < 2 ^ 32" and o: "c_ostate c \<noteq> CHAN_OUTPUT_OPEN"
    and fits: "length (framed c data) \<le> unat (c_local_window c)"
  shows "\<exists>c'. take_data e c data = Some c' \<and> window_inv c' \<and> contents (c_output c') = contents (c_output c)"
proof -
  let ?w = "ucast (win_len c data) :: u32"
  have u: "unat ?w = length (framed c data)"
    using unat_win_len[OF data, of c] fits unat_less_32[of "c_local_window c"]
    by (subst unat_ucast_down_32) simp_all
  have lw: "unat (c_local_window c - ?w) = unat (c_local_window c) - length (framed c data)"
    using u fits by (simp add: unat_sub word_le_nat_alt)
  have s: "unat (c_local_window c) + unat (c_local_consumed c) + held c \<le> unat (c_local_window_max c)"
    using inv by (simp add: window_inv_def)
  have lc: "unat (c_local_consumed c + ?w) = unat (c_local_consumed c) + length (framed c data)"
    using s u fits unat_less_32[of "c_local_window_max c"] by (subst unat_plus_if') simp
  show ?thesis using o inv s lw lc fits
    by (auto simp: take_data_unfold window_inv_def held_def bufs_ok_def simp del: length_contents)
qed


section \<open>The window we were granted\<close>

text \<open>The payloads of the data messages in a list of effects, in order, and their total size.\<close>

fun data_sent :: "nat \<Rightarrow> eff list \<Rightarrow> u8 list list" where
  "data_sent t [] = []"
| "data_sent t (Send (Packet m fs) # es) =
     (if m = t then (case last fs of PUT_STRING bs \<Rightarrow> [bs] | _ \<Rightarrow> []) else []) @ data_sent t es"
| "data_sent t (_ # es) = data_sent t es"

lemma data_sent_append [simp]: "data_sent t (xs @ ys) = data_sent t xs @ data_sent t ys"
  by (induction t xs rule: data_sent.induct) auto

lemma min_word:
  "unat (if a > ucast b then ucast b else a :: size_t) = min (unat a) (unat (b :: u32))"
  by (auto simp: word_less_nat_alt)

lemma poll_simple:
  assumes inv: "sshbuf_inv (c_input (fst st))" and dg: "\<not> c_datagram (fst st)"
    and ne: "contents (c_input (fst st)) \<noteq> []"
    and res: "channel_output_poll_input_open e st = Done st'"
  shows "\<exists>n.
      data_sent SSH2_MSG_CHANNEL_DATA (snd st') = data_sent SSH2_MSG_CHANNEL_DATA (snd st) @
        (if n = 0 then [] else [take n (contents (c_input (fst st)))]) \<and>
      sshbuf_inv (c_input (fst st')) \<and> same_shape (c_input (fst st)) (c_input (fst st')) \<and>
      contents (c_input (fst st')) = drop n (contents (c_input (fst st))) \<and>
      unat (c_remote_window (fst st')) + n = unat (c_remote_window (fst st)) \<and>
      fst st' = (fst st)\<lparr>c_input := c_input (fst st'), c_remote_window := c_remote_window (fst st')\<rparr> \<and>
      data_sent SSH2_MSG_CHANNEL_EXTENDED_DATA (snd st') = data_sent SSH2_MSG_CHANNEL_EXTENDED_DATA (snd st) \<and>
      n = min (length (contents (c_input (fst st))))
            (min (unat (c_remote_window (fst st))) (unat (c_remote_maxpacket (fst st))))"
proof -
  let ?c = "fst st"
  define len2 :: size_t where "len2 = (let len = sshbuf_len (c_input ?c);
      len1 = (if len > ucast (c_remote_window ?c) then ucast (c_remote_window ?c) else len)
    in (if len1 > ucast (c_remote_maxpacket ?c) then ucast (c_remote_maxpacket ?c) else len1))"
  have n: "unat len2 = min (length (contents (c_input ?c)))
      (min (unat (c_remote_window ?c)) (unat (c_remote_maxpacket ?c)))"
    using inv by (simp add: len2_def Let_def min_word min.assoc del: length_contents)
  have ne': "sshbuf_len (c_input ?c) \<noteq> 0"
    using ne inv by (metis length_0_conv unat_0 unat_sshbuf_len)
  from res dg ne' have id: "c_have_remote_id ?c"
    by (auto simp: channel_output_poll_input_open_def Let_def split: if_split_asm)
  have eq: "channel_output_poll_input_open e st = (if len2 = 0 then Done st
      else andThen (send_pkt e (Packet SSH2_MSG_CHANNEL_DATA
             [PUT_U32 (c_remote_id ?c), PUT_STRING (take (unat len2) (contents (c_input ?c)))]) st)
        (\<lambda>st1. case sshbuf_consume (c_input ?c) len2 of
            (Inl r, _) \<Rightarrow> Fatal
          | (Inr _, inp) \<Rightarrow> Done ((fst st1)\<lparr>c_input := inp,
               c_remote_window := c_remote_window ?c - ucast len2\<rparr>, snd st1)))"
    using dg ne' id unfolding channel_output_poll_input_open_def len2_def Let_def
    by (simp only: if_False if_True simp_thms)
  show ?thesis
  proof (cases "len2 = 0")
    case True
    with eq res n inv show ?thesis by (intro exI[of _ 0]) simp
  next
    case False
    have nz: "unat len2 \<noteq> 0" using False by (simp add: unat_eq_zero)
    obtain r inp where g: "sshbuf_consume (c_input ?c) len2 = (r, inp)" by fastforce
    have ok: "r = Inr ()" "sshbuf_inv inp" "same_shape (c_input ?c) inp"
      "contents inp = drop (unat len2) (contents (c_input ?c))"
      using consume_spec[OF inv, of len2] g n by (auto split: if_splits simp del: length_contents)
    have u: "unat (ucast len2 :: u32) = unat len2"
      using n unat_less_32[of "c_remote_window ?c"] by (intro unat_ucast_down_32) simp
    then have w: "unat (c_remote_window ?c - ucast len2) = unat (c_remote_window ?c) - unat len2"
      using n by (simp add: unat_sub word_le_nat_alt)
    from res eq False ok g have "fst st' = ?c\<lparr>c_input := inp, c_remote_window := c_remote_window ?c - ucast len2\<rparr>"
      "snd st' = snd st @ [Send (Packet SSH2_MSG_CHANNEL_DATA
             [PUT_U32 (c_remote_id ?c), PUT_STRING (take (unat len2) (contents (c_input ?c)))])]"
      by (auto simp: send_pkt_def andThen_Done split: if_split_asm)
    then show ?thesis using ok w n nz by (intro exI[of _ "unat len2"]) (simp del: length_contents)
  qed
qed

lemma poll_datagram:
  assumes inv: "sshbuf_inv (c_input (fst st))" and dg: "c_datagram (fst st)"
    and ne: "contents (c_input (fst st)) \<noteq> []"
    and res: "channel_output_poll_input_open e st = Done st'"
  shows "\<exists>pkt. parse_string (contents (c_input (fst st))) = Inr pkt \<and>
      contents (c_input (fst st')) = drop (4 + length pkt) (contents (c_input (fst st))) \<and>
      fst st' = (fst st)\<lparr>c_input := c_input (fst st'), c_remote_window := c_remote_window (fst st')\<rparr> \<and>
      data_sent SSH2_MSG_CHANNEL_EXTENDED_DATA (snd st') = data_sent SSH2_MSG_CHANNEL_EXTENDED_DATA (snd st) \<and>
      sshbuf_inv (c_input (fst st')) \<and> same_shape (c_input (fst st)) (c_input (fst st')) \<and>
      (if length pkt \<le> min (unat (c_remote_window (fst st))) (unat (c_remote_maxpacket (fst st)))
       then data_sent SSH2_MSG_CHANNEL_DATA (snd st') = data_sent SSH2_MSG_CHANNEL_DATA (snd st) @ [pkt] \<and>
            unat (c_remote_window (fst st')) + length pkt = unat (c_remote_window (fst st))
       else snd st' = snd st \<and> c_remote_window (fst st') = c_remote_window (fst st))"
proof -
  let ?c = "fst st"
  have ne': "sshbuf_len (c_input ?c) \<noteq> 0"
    using ne inv by (metis length_0_conv unat_0 unat_sshbuf_len)
  obtain r inp where g: "sshbuf_get_string_direct (c_input ?c) = (r, inp)" by fastforce
  from res dg ne' g obtain pkt where r: "r = Inr pkt" and id: "c_have_remote_id ?c"
    by (cases r) (auto simp: channel_output_poll_input_open_def Let_def split: if_split_asm)
  from get_string_direct_spec[OF inv g] r have ps: "parse_string (contents (c_input ?c)) = Inr pkt"
    and out: "contents inp = drop (4 + length pkt) (contents (c_input ?c))" "sshbuf_inv inp"
      "same_shape (c_input ?c) inp" by (auto split: sum.splits)
  let ?plen = "word_of_nat (length pkt) :: size_t"
  have lp: "length pkt \<le> 134217724" using parse_string_Inr[OF ps] by simp
  have u: "unat ?plen = length pkt" using lp by (intro unat_of_length) simp
  have u32: "unat (ucast ?plen :: u32) = length pkt" using lp u by (subst unat_ucast_down_32) simp_all
  have big: "(?plen > ucast (c_remote_window ?c) \<or> ?plen > ucast (c_remote_maxpacket ?c)) =
      (\<not> length pkt \<le> min (unat (c_remote_window ?c)) (unat (c_remote_maxpacket ?c)))"
    by (auto simp: word_less_nat_alt u)
  show ?thesis
  proof (cases "length pkt \<le> min (unat (c_remote_window ?c)) (unat (c_remote_maxpacket ?c))")
    case False
    with res dg ne' id g r big have "st' = (?c\<lparr>c_input := inp\<rparr>, snd st)"
      by (simp add: channel_output_poll_input_open_def Let_def)
    with False ps out show ?thesis by (intro exI[of _ pkt]) simp
  next
    case True
    with res dg ne' id g r big have
      "fst st' = ?c\<lparr>c_input := inp, c_remote_window := c_remote_window ?c - ucast ?plen\<rparr>"
      "snd st' = snd st @ [Send (Packet SSH2_MSG_CHANNEL_DATA [PUT_U32 (c_remote_id ?c), PUT_STRING pkt])]"
      by (auto simp: channel_output_poll_input_open_def Let_def send_pkt_def andThen_Done split: if_split_asm)
    moreover have "unat (c_remote_window ?c - ucast ?plen) = unat (c_remote_window ?c) - length pkt"
      using True u32 by (simp add: unat_sub word_le_nat_alt)
    ultimately show ?thesis using True ps out by (intro exI[of _ pkt]) simp
  qed
qed

text \<open>What an open channel reads can always be sent: its input never outgrows the peer's window.\<close>

lemma rfd_within_window:
  assumes inv: "bufs_ok (fst st)" and rd: "read_ok rd" and dg: "\<not> c_datagram (fst st)"
    and nf: "c_input_filter (fst st) = None" and t: "c_type (fst st) = SSH_CHANNEL_OPEN"
    and le: "length (contents (c_input (fst st))) \<le> unat (c_remote_window (fst st))"
    and res: "channel_handle_rfd e rd st = Done st'"
  shows "length (contents (c_input (fst st'))) \<le> unat (c_remote_window (fst st'))"
proof -
  let ?c = "fst st"
  have i: "sshbuf_inv (c_input ?c)" using inv by (simp add: bufs_ok_def)
  have lim: "unat m \<le> unat (c_remote_window ?c) - length (contents (c_input ?c))" if "read_limit ?c = Some m" for m
  proof -
    have d: "unat (ucast (c_remote_window ?c) - sshbuf_len (c_input ?c)) =
        unat (c_remote_window ?c) - length (contents (c_input ?c))"
      using le i by (subst unat_diff_nowrap) (simp_all del: length_contents)
    have "m \<le> ucast (c_remote_window ?c) - sshbuf_len (c_input ?c)"
      using that t by (auto simp: read_limit_def Let_def split: if_split_asm)
    with d show ?thesis by (simp add: word_le_nat_alt)
  qed
  have rf: "c_input (fst (read_fail (c, es))) = c_input c \<and> c_remote_window (fst (read_fail (c, es))) = c_remote_window c"
    if "c_type c = SSH_CHANNEL_OPEN" for c es
    using that by (auto simp: read_fail_def chan_read_failed_def chan_shutdown_read_def channel_close_fd_def
        chan_set_istate_def Let_def)
  have "st' = st \<or> (\<exists>m inp r. read_limit ?c = Some m \<and> sshbuf_read (e_alc e) (c_input ?c) m rd = (r, inp) \<and>
      c_input (fst st') = inp \<and> c_remote_window (fst st') = c_remote_window ?c)"
    using res dg nf t unfolding channel_handle_rfd_def rfd_simple_def Let_def
    by (auto simp: rf split: if_split_asm option.split_asm io_res.split_asm prod.split_asm)
  then show ?thesis
  proof
    assume "\<exists>m inp r. read_limit ?c = Some m \<and> sshbuf_read (e_alc e) (c_input ?c) m rd = (r, inp) \<and>
      c_input (fst st') = inp \<and> c_remote_window (fst st') = c_remote_window ?c"
    then obtain m inp r where m: "read_limit ?c = Some m" "sshbuf_read (e_alc e) (c_input ?c) m rd = (r, inp)"
      "c_input (fst st') = inp" "c_remote_window (fst st') = c_remote_window ?c" by blast
    have "\<And>bs. rd m = Got bs \<Longrightarrow> length bs \<le> unat m" using rd by (simp add: read_ok_def)
    from sshbuf_read_spec[OF i this m(2)] lim[OF m(1)] le m show ?thesis
      using \<open>\<And>bs. rd m = Got bs \<Longrightarrow> length bs \<le> unat m\<close>
      by (fastforce simp del: length_contents split: io_res.splits)
  qed (use le in simp)
qed


lemma poll_extended:
  assumes inv: "sshbuf_inv (c_extended (fst st))" and res: "channel_output_poll_extended_read e st = Done st'"
  shows "\<exists>n. n = min (length (contents (c_extended (fst st))))
            (min (unat (c_remote_window (fst st))) (unat (c_remote_maxpacket (fst st)))) \<and>
      data_sent SSH2_MSG_CHANNEL_EXTENDED_DATA (snd st') = data_sent SSH2_MSG_CHANNEL_EXTENDED_DATA (snd st) @
        (if n = 0 then [] else [take n (contents (c_extended (fst st)))]) \<and>
      data_sent SSH2_MSG_CHANNEL_DATA (snd st') = data_sent SSH2_MSG_CHANNEL_DATA (snd st) \<and>
      unat (c_remote_window (fst st')) + n = unat (c_remote_window (fst st)) \<and>
      (\<exists>ext. sshbuf_inv ext \<and> same_shape (c_extended (fst st)) ext \<and>
        contents ext = drop n (contents (c_extended (fst st))) \<and>
        fst st' = (fst st)\<lparr>c_extended := ext, c_remote_window := c_remote_window (fst st')\<rparr>)"
proof -
  let ?c = "fst st"
  define len2 :: size_t where "len2 = (let len = sshbuf_len (c_extended ?c);
      len1 = (if len > ucast (c_remote_window ?c) then ucast (c_remote_window ?c) else len)
    in (if len1 > ucast (c_remote_maxpacket ?c) then ucast (c_remote_maxpacket ?c) else len1))"
  have n: "unat len2 = min (length (contents (c_extended ?c)))
      (min (unat (c_remote_window ?c)) (unat (c_remote_maxpacket ?c)))"
    using inv by (simp add: len2_def Let_def min_word min.assoc del: length_contents)
  have z: "len2 = 0" if "sshbuf_len (c_extended ?c) = 0" using that by (simp add: len2_def Let_def)
  have eq: "channel_output_poll_extended_read e st =
     (if sshbuf_len (c_extended ?c) = 0 then Done st
      else if len2 = 0 then Done st else if \<not> c_have_remote_id ?c then Fatal
      else andThen (send_pkt e (Packet SSH2_MSG_CHANNEL_EXTENDED_DATA
             [PUT_U32 (c_remote_id ?c), PUT_U32 SSH2_EXTENDED_DATA_STDERR,
              PUT_STRING (take (unat len2) (contents (c_extended ?c)))]) st)
        (\<lambda>st1. case sshbuf_consume (c_extended ?c) len2 of
            (Inl r, _) \<Rightarrow> Fatal
          | (Inr _, ext) \<Rightarrow> Done ((fst st1)\<lparr>c_extended := ext,
               c_remote_window := c_remote_window ?c - ucast len2\<rparr>, snd st1)))"
    unfolding channel_output_poll_extended_read_def len2_def Let_def ..
  show ?thesis
  proof (cases "len2 = 0")
    case True
    with eq res have "st' = st" by (simp split: if_split_asm)
    with True n inv show ?thesis
      by (intro exI[of _ 0] conjI exI[of _ "c_extended ?c"]) (simp_all del: length_contents)
  next
    case False
    have nz: "unat len2 \<noteq> 0" using False by (simp add: unat_eq_zero)
    obtain r ext where g: "sshbuf_consume (c_extended ?c) len2 = (r, ext)" by fastforce
    have ok: "r = Inr ()" "sshbuf_inv ext" "same_shape (c_extended ?c) ext"
      "contents ext = drop (unat len2) (contents (c_extended ?c))"
      using consume_spec[OF inv, of len2] g n by (auto split: if_splits simp del: length_contents)
    have u: "unat (ucast len2 :: u32) = unat len2"
      using n unat_less_32[of "c_remote_window ?c"] by (intro unat_ucast_down_32) simp
    then have w: "unat (c_remote_window ?c - ucast len2) = unat (c_remote_window ?c) - unat len2"
      using n by (simp add: unat_sub word_le_nat_alt)
    have "sshbuf_len (c_extended ?c) \<noteq> 0" using z False by blast
    with res eq False ok g have
      "fst st' = ?c\<lparr>c_extended := ext, c_remote_window := c_remote_window ?c - ucast len2\<rparr>"
      "snd st' = snd st @ [Send (Packet SSH2_MSG_CHANNEL_EXTENDED_DATA
             [PUT_U32 (c_remote_id ?c), PUT_U32 SSH2_EXTENDED_DATA_STDERR,
              PUT_STRING (take (unat len2) (contents (c_extended ?c)))])]"
      by (auto simp: send_pkt_def andThen_Done split: if_split_asm)
    then show ?thesis using ok w n nz
      by (intro exI[of _ "unat len2"] conjI exI[of _ ext]) (simp_all del: length_contents)
  qed
qed

lemma send_eof2_frame:
  assumes "chan_send_eof2 e st = Done st'"
  shows "fst st' = (fst st)\<lparr>c_flags := c_flags (fst st')\<rparr>"
    and "t \<noteq> SSH2_MSG_CHANNEL_EOF \<Longrightarrow> data_sent t (snd st') = data_sent t (snd st)"
  using assms by (auto simp: chan_send_eof2_def send_pkt_def set_flag_def Let_def andThen_Done
      split: if_split_asm)

lemma ibuf_empty_frame:
  assumes "chan_ibuf_empty e st = Done st'"
  shows "fst st' = (fst st)\<lparr>c_flags := c_flags (fst st'), c_istate := c_istate (fst st')\<rparr>"
    and "t \<noteq> SSH2_MSG_CHANNEL_EOF \<Longrightarrow> data_sent t (snd st') = data_sent t (snd st)"
proof -
  from assms consider "st' = st"
    | st1 where "st1 = st \<or> chan_send_eof2 e st = Done st1" "st' = chan_set_istate CHAN_INPUT_CLOSED st1"
    by (auto simp: chan_ibuf_empty_def Let_def andThen_Done split: if_split_asm)
  note c = this
  show "fst st' = (fst st)\<lparr>c_flags := c_flags (fst st'), c_istate := c_istate (fst st')\<rparr>"
    using c
  proof cases
    case 2
    have "fst st1 = (fst st)\<lparr>c_flags := c_flags (fst st1)\<rparr>" using 2(1) send_eof2_frame(1)[of e st st1] by auto
    then show ?thesis using 2(2) by (cases "fst st") (simp add: chan_set_istate_def)
  qed simp
  show "t \<noteq> SSH2_MSG_CHANNEL_EOF \<Longrightarrow> data_sent t (snd st') = data_sent t (snd st)"
    using c send_eof2_frame(2)[of e st _ t] by cases auto
qed

text \<open>What a poll of an open channel does to everything but the buffer it sends from.\<close>

lemma calmer_sent:
  assumes c': "c' = c\<lparr>c_input := inp, c_remote_window := w\<rparr>" and "sshbuf_inv inp" "same_shape (c_input c) inp"
  shows "calmer c c' \<and> c_extended c' = c_extended c \<and> c_remote_maxpacket c' = c_remote_maxpacket c"
proof -
  let ?c1 = "c\<lparr>c_input := inp\<rparr>"
  have "calmer ?c1 (?c1\<lparr>c_remote_window := w\<rparr>)" by (rule calmer_same) simp_all
  with calmer_input[OF assms(2,3)] have "calmer c (?c1\<lparr>c_remote_window := w\<rparr>)" by (rule calmer_trans)
  then show ?thesis by (simp add: c')
qed

lemma poll_input_frame:
  assumes inv: "bufs_ok (fst st)" and res: "channel_output_poll_input_open e st = Done st'"
  shows "calmer (fst st) (fst st') \<and> c_extended (fst st') = c_extended (fst st) \<and>
    c_remote_maxpacket (fst st') = c_remote_maxpacket (fst st) \<and>
    data_sent SSH2_MSG_CHANNEL_EXTENDED_DATA (snd st') = data_sent SSH2_MSG_CHANNEL_EXTENDED_DATA (snd st)"
proof (cases "contents (c_input (fst st)) = []")
  case True
  then have "sshbuf_len (c_input (fst st)) = 0" using inv by (simp add: empty_len bufs_ok_def)
  with res have "st' = st \<or> chan_ibuf_empty e st = Done st'"
    by (auto simp: channel_output_poll_input_open_def Let_def split: if_split_asm)
  then show ?thesis
  proof
    assume ie: "chan_ibuf_empty e st = Done st'"
    note f = ibuf_empty_frame(1)[OF ie]
    have "calmer (fst st) ((fst st)\<lparr>c_flags := c_flags (fst st'), c_istate := c_istate (fst st')\<rparr>)"
      by (rule calmer_same) simp_all
    then show ?thesis using ibuf_empty_frame(2)[OF ie, of SSH2_MSG_CHANNEL_EXTENDED_DATA]
      by (subst (1 2 3) f) simp
  qed simp
next
  case False
  have i: "sshbuf_inv (c_input (fst st))" using inv by (simp add: bufs_ok_def)
  show ?thesis
  proof (cases "c_datagram (fst st)")
    case True
    from poll_datagram[OF i True False res] show ?thesis
      using calmer_sent by blast
  next
    case dg: False
    from poll_simple[OF i dg False res] show ?thesis
      using calmer_sent by blast
  qed
qed

lemma output_poll_calmer:
  assumes inv: "bufs_ok (fst st)" and res: "output_poll_one e st = Done st'"
  shows "calmer (fst st) (fst st')"
proof -
  let ?P = "c_istate (fst st) = CHAN_INPUT_OPEN \<or> c_istate (fst st) = CHAN_INPUT_WAIT_DRAIN"
  let ?Q = "\<lambda>st1. c_flags (fst st1) AND CHAN_EOF_SENT = 0 \<and> c_extended_usage (fst st1) = CHAN_EXTENDED_READ"
  have "st' = st \<or> (\<exists>st1. (if ?P then channel_output_poll_input_open e st else Done st) = Done st1 \<and>
      (if ?Q st1 then channel_output_poll_extended_read e st1 else Done st1) = Done st')"
  proof (cases "c_type (fst st) = SSH_CHANNEL_OPEN \<and> c_flags (fst st) AND (CHAN_CLOSE_SENT OR CHAN_CLOSE_RCVD) = 0")
    case True
    with res have "andThen (if ?P then channel_output_poll_input_open e st else Done st)
        (\<lambda>st1. if ?Q st1 then channel_output_poll_extended_read e st1 else Done st1) = Done st'"
      unfolding output_poll_one_def Let_def by (simp only: if_False simp_thms)
    then show ?thesis by (simp only: andThen_Done) blast
  next
    case False
    with res have "st' = st" unfolding output_poll_one_def Let_def
      by (cases "c_type (fst st) = SSH_CHANNEL_OPEN") (simp_all cong: if_cong)
    then show ?thesis ..
  qed
  then consider "st' = st" | st1 where
      "(st1 = st \<or> channel_output_poll_input_open e st = Done st1)"
      "st' = st1 \<or> c_extended_usage (fst st1) = CHAN_EXTENDED_READ \<and>
         channel_output_poll_extended_read e st1 = Done st'"
    by (metis run.inject)
  then show ?thesis
  proof cases
    case 2
    have c1: "calmer (fst st) (fst st1)" using 2(1) poll_input_frame[OF inv, of e st1] by auto
    have x: "sshbuf_inv (c_extended (fst st1))" using calmer_frame[OF c1 inv] by (simp add: bufs_ok_def)
    have "calmer (fst st1) (fst st')"
      if u: "c_extended_usage (fst st1) = CHAN_EXTENDED_READ" and p: "channel_output_poll_extended_read e st1 = Done st'"
    proof -
      from poll_extended[OF x p] obtain ext where ext: "sshbuf_inv ext" "same_shape (c_extended (fst st1)) ext"
        "fst st' = (fst st1)\<lparr>c_extended := ext, c_remote_window := c_remote_window (fst st')\<rparr>" by blast
      let ?c1 = "(fst st1)\<lparr>c_extended := ext\<rparr>"
      have "calmer ?c1 (?c1\<lparr>c_remote_window := c_remote_window (fst st')\<rparr>)" by (rule calmer_same) simp_all
      with calmer_ext[OF ext(1,2)] u show ?thesis by (subst ext(3)) (auto intro: calmer_trans)
    qed
    with 2(2) c1 show ?thesis by (auto intro: calmer_trans)
  qed simp
qed

interpretation poll_window: channel_pass "output_poll_one e" window_inv for e
  by unfold_locales
    (metis calmer_window fst_conv output_poll_calmer window_inv_def)

lemma output_poll_keeps_windows:
  "channel_output_poll e ssh = Done ssh' \<Longrightarrow> all_chans window_inv ssh \<Longrightarrow> all_chans window_inv ssh'"
  unfolding channel_output_poll_def by (rule poll_window.pass)

end
