(* ===== verification/ChanPerm.thy ===== *)
theory ChanPerm
  imports ChanTable
begin

text \<open>
  Which forwards are allowed: the matching of a request against the permission lists
  (\<open>permitted_user\<close> and \<open>permitted_admin\<close> of each direction), the calls that change the lists, and
  the bind address of a listener under \<open>GatewayPorts\<close>. These decide what a gateway lets its
  clients reach, so the lemmas state them as equivalences.
\<close>

section \<open>Requests\<close>

record Forward =
  f_listen_host :: "string option"
  f_listen_port :: int
  f_listen_path :: "string option"
  f_connect_host :: "string option"
  f_connect_port :: int
  f_connect_path :: "string option"
  f_allocated_port :: int

record ForwardOptions =
  gateway_ports :: int
  streamlocal_bind_unlink :: bool

abbreviation FWD_PERMIT_ANY_PORT :: int where "FWD_PERMIT_ANY_PORT \<equiv> 0"
abbreviation FWD_PERMIT_ANY_HOST :: string where "FWD_PERMIT_ANY_HOST \<equiv> ''*''"

section \<open>Matching\<close>

definition remote_open_match :: "permission \<Rightarrow> Forward \<Rightarrow> bool" where
  "remote_open_match allowed_open fwd =
     (if f_listen_path fwd \<noteq> None then True
      else case (f_listen_host fwd, p_listen_host allowed_open) of
             (Some lhost, Some pat) \<Rightarrow>
               if p_listen_port allowed_open \<noteq> FWD_PERMIT_ANY_PORT \<and>
                  p_listen_port allowed_open \<noteq> f_listen_port fwd then False
               else match_pattern (lowercase lhost) pat
           | _ \<Rightarrow> False)"

definition check_rfwd_permission :: "ssh \<Rightarrow> Forward \<Rightarrow> bool" where
  "check_rfwd_permission ssh fwd =
     (let ps = s_remote_perms ssh;
          permit = (if ps_all_permitted ps then True
                    else list_ex (\<lambda>p. remote_open_match p fwd) (ps_permitted_user ps));
          permit_adm = (if length (ps_permitted_admin ps) > 0
                        then list_ex (\<lambda>p. remote_open_match p fwd) (ps_permitted_admin ps)
                        else True)
      in permit \<and> permit_adm)"

definition open_match :: "permission \<Rightarrow> string \<Rightarrow> int \<Rightarrow> bool" where
  "open_match allowed_open requestedhost requestedport =
     (case p_host_to_connect allowed_open of
        None \<Rightarrow> False
      | Some h \<Rightarrow>
        if p_port_to_connect allowed_open \<noteq> FWD_PERMIT_ANY_PORT \<and>
           p_port_to_connect allowed_open \<noteq> requestedport then False
        else if h \<noteq> FWD_PERMIT_ANY_HOST \<and> h \<noteq> requestedhost then False
        else True)"

definition open_listen_match_tcpip ::
    "permission \<Rightarrow> string option \<Rightarrow> int \<Rightarrow> bool \<Rightarrow> bool" where
  "open_listen_match_tcpip allowed_open requestedhost requestedport translate =
     (if p_host_to_connect allowed_open = None then False
      else if p_listen_port allowed_open \<noteq> requestedport then False
      else if \<not> translate \<and> p_listen_host allowed_open = None \<and> requestedhost = None then True
      else
        let allowed_host = (if translate
              then Some (channel_rfwd_bind_host (p_listen_host allowed_open))
              else p_listen_host allowed_open)
        in if allowed_host = None \<or> requestedhost = None \<or> allowed_host \<noteq> requestedhost
           then False else True)"

definition open_listen_match_streamlocal :: "permission \<Rightarrow> string \<Rightarrow> bool" where
  "open_listen_match_streamlocal allowed_open requestedpath =
     (if p_host_to_connect allowed_open = None then False
      else if p_listen_port allowed_open \<noteq> PORT_STREAMLOCAL then False
      else p_listen_path allowed_open = Some requestedpath)"

text \<open>The test \<open>channel_connect_to_port\<close> and \<open>channel_connect_to_path\<close> begin with.\<close>

definition connect_permitted :: "ssh \<Rightarrow> string \<Rightarrow> int \<Rightarrow> bool" where
  "connect_permitted ssh host port =
     (let ps = s_local_perms ssh;
          permit = (if ps_all_permitted ps then True
                    else list_ex (\<lambda>p. open_match p host port) (ps_permitted_user ps));
          permit_adm = (if length (ps_permitted_admin ps) > 0
                        then list_ex (\<lambda>p. open_match p host port) (ps_permitted_admin ps)
                        else True)
      in permit \<and> permit_adm)"

section \<open>Changing the lists\<close>

definition channel_permit_all :: "ssh \<Rightarrow> fwd_where \<Rightarrow> ssh" where
  "channel_permit_all ssh whr =
     (let ps = permission_set_get ssh whr in
      if length (ps_permitted_user ps) = 0
      then permission_set_put ssh whr (ps\<lparr>ps_all_permitted := True\<rparr>) else ssh)"

definition channel_add_permission :: "ssh \<Rightarrow> fwd_who \<Rightarrow> fwd_where \<Rightarrow> string \<Rightarrow> int \<Rightarrow> ssh run" where
  "channel_add_permission ssh who whr host port =
     (let local = (whr = FORWARD_LOCAL) in
      andThen (permission_set_add ssh who whr
                 (if local then Some host else None) (if local then port else 0)
                 (if local then None else Some host) None (if local then 0 else port) None)
        (\<lambda>(n, ssh1). Done (permission_set_put ssh1 whr
                       ((permission_set_get ssh1 whr)\<lparr>ps_all_permitted := False\<rparr>))))"

definition channel_clear_permission :: "ssh \<Rightarrow> fwd_who \<Rightarrow> fwd_where \<Rightarrow> ssh" where
  "channel_clear_permission ssh who whr =
     permission_set_put ssh whr (permission_set_put_array (permission_set_get ssh whr) who [])"

definition channel_disable_admin :: "ssh \<Rightarrow> fwd_where \<Rightarrow> ssh run" where
  "channel_disable_admin ssh whr =
     andThen (permission_set_add (channel_clear_permission ssh FORWARD_ADM whr) FORWARD_ADM whr
                None 0 None None 0 None)
       (\<lambda>(n, ssh1). Done ssh1)"

definition channel_update_permission :: "ssh \<Rightarrow> int \<Rightarrow> int \<Rightarrow> ssh" where
  "channel_update_permission ssh idx newport =
     (let ps = s_local_perms ssh; us = ps_permitted_user ps in
      if idx < 0 \<or> nat idx \<ge> length us then ssh
      else if newport \<le> 0
      then ssh\<lparr>s_local_perms := ps\<lparr>ps_permitted_user := us[nat idx := fwd_perm_clear]\<rparr>\<rparr>
      else ssh\<lparr>s_local_perms := ps\<lparr>ps_permitted_user :=
             us[nat idx := (us ! nat idx)\<lparr>p_listen_port :=
                  (if s_compat ssh AND SSH_BUG_DYNAMIC_RPORT \<noteq> 0 then 0 else newport)\<rparr>]\<rparr>\<rparr>)"

text \<open>
  Port names. \<open>strtoll\<close> and \<open>strtonum\<close> in base ten: blanks, a sign, digits to the end of the string;
  the service database is the parameter \<open>getservbyname\<close>, which gives the port in host order.
\<close>

definition is_digit :: "char \<Rightarrow> bool" where "is_digit c \<longleftrightarrow> c \<in> set ''0123456789''"

definition is_space :: "char \<Rightarrow> bool" where
  "is_space c \<longleftrightarrow> of_char c \<in> {9, 10, 11, 12, 13, 32::nat}"

definition digits_val :: "string \<Rightarrow> int" where
  "digits_val ds = foldl (\<lambda>n d. 10 * n + (of_char d - 48)) 0 ds"

definition strtoll10 :: "string \<Rightarrow> (int \<times> string) option" where
  "strtoll10 s =
     (let s1 = dropWhile is_space s;
          neg = (s1 \<noteq> [] \<and> hd s1 = CHR ''-'');
          s2 = (if s1 \<noteq> [] \<and> (hd s1 = CHR ''-'' \<or> hd s1 = CHR ''+'') then tl s1 else s1);
          ds = takeWhile is_digit s2
      in if ds = [] then None
         else Some (if neg then - digits_val ds else digits_val ds, dropWhile is_digit s2))"

definition strtonum :: "string \<Rightarrow> int \<Rightarrow> int \<Rightarrow> int option" where
  "strtonum numstr minval maxval =
     (if minval > maxval then None
      else case strtoll10 numstr of
        None \<Rightarrow> None
      | Some (ll, ep) \<Rightarrow>
        if ep \<noteq> [] then None
        else if ll < minval then None
        else if ll > maxval then None
        else Some ll)"

definition a2port :: "(string \<Rightarrow> int option) \<Rightarrow> string \<Rightarrow> int" where
  "a2port getservbyname s =
     (case strtonum s 0 65535 of
        Some port \<Rightarrow> port
      | None \<Rightarrow> (case getservbyname s of Some p \<Rightarrow> p | None \<Rightarrow> -1))"

definition permitopen_port :: "(string \<Rightarrow> int option) \<Rightarrow> string \<Rightarrow> int" where
  "permitopen_port getservbyname p =
     (if p = ''*'' then FWD_PERMIT_ANY_PORT
      else let port = a2port getservbyname p in if port > 0 then port else -1)"

section \<open>The bind address of a listener\<close>

text \<open>
  The result is the address (\<open>None\<close> the null pointer), the wildcard flag, and whether the peer is
  told that its address was overridden.
\<close>

definition channel_fwd_bind_addr ::
    "u32 \<Rightarrow> string option \<Rightarrow> bool \<Rightarrow> ForwardOptions \<Rightarrow> string option \<times> bool \<times> bool" where
  "channel_fwd_bind_addr compat_bits listen_addr is_client fwd_opts =
     (case listen_addr of
        None \<Rightarrow> (None, gateway_ports fwd_opts \<noteq> 0, False)
      | Some la \<Rightarrow>
        if gateway_ports fwd_opts \<noteq> 0 \<or> is_client then
          if (compat_bits AND SSH_OLD_FORWARD_ADDR \<noteq> 0 \<and> la = ''0.0.0.0'' \<and> \<not> is_client) \<or>
             la = [] \<or> la = ''*'' \<or> (\<not> is_client \<and> gateway_ports fwd_opts = 1)
          then (None, True, la \<noteq> [] \<and> la \<noteq> ''0.0.0.0'' \<and> la \<noteq> ''*'')
          else if la \<noteq> ''localhost'' \<or> la = ''127.0.0.1'' \<or> la = ''::1''
          then (Some la, False, False)
          else (None, False, False)
        else if la = ''127.0.0.1'' \<or> la = ''::1''
        then (Some la, False, False)
        else (None, False, False))"

section \<open>What the decisions amount to\<close>

lemma open_match_iff:
  "open_match p host port \<longleftrightarrow>
     (\<exists>h. p_host_to_connect p = Some h \<and> h \<in> {FWD_PERMIT_ANY_HOST, host}) \<and>
     p_port_to_connect p \<in> {FWD_PERMIT_ANY_PORT, port}"
  by (auto simp: open_match_def split: option.splits)

lemma connect_permitted_iff:
  "connect_permitted ssh host port \<longleftrightarrow>
     (ps_all_permitted (s_local_perms ssh) \<or>
        (\<exists>p\<in>set (ps_permitted_user (s_local_perms ssh)). open_match p host port)) \<and>
     (ps_permitted_admin (s_local_perms ssh) = [] \<or>
        (\<exists>p\<in>set (ps_permitted_admin (s_local_perms ssh)). open_match p host port))"
  by (auto simp: connect_permitted_def Let_def list_ex_iff)

lemma check_rfwd_iff:
  "check_rfwd_permission ssh fwd \<longleftrightarrow>
     (ps_all_permitted (s_remote_perms ssh) \<or>
        (\<exists>p\<in>set (ps_permitted_user (s_remote_perms ssh)). remote_open_match p fwd)) \<and>
     (ps_permitted_admin (s_remote_perms ssh) = [] \<or>
        (\<exists>p\<in>set (ps_permitted_admin (s_remote_perms ssh)). remote_open_match p fwd))"
  by (auto simp: check_rfwd_permission_def Let_def list_ex_iff)

lemma permission_put_get [simp]:
  "permission_set_get (permission_set_put ssh w ps) w' = (if w' = w then ps else permission_set_get ssh w')"
  by (cases w; cases w') simp_all

lemma put_array_get [simp]:
  "permission_set_get_array (permission_set_put_array ps a xs) b =
     (if b = a then xs else permission_set_get_array ps b)"
  by (cases a; cases b) simp_all

lemma put_array_all [simp]: "ps_all_permitted (permission_set_put_array ps a xs) = ps_all_permitted ps"
  by (cases a) simp_all

lemma get_array_all [simp]:
  "permission_set_get_array (ps\<lparr>ps_all_permitted := b\<rparr>) a = permission_set_get_array ps a"
  by (cases a) simp_all

lemma permission_set_add_result:
  assumes "permission_set_add ssh who whr h p lh lp lport ds = Done (n, ssh')"
  shows "n = length (permission_set_get_array (permission_set_get ssh whr) who)"
    and "permission_set_get_array (permission_set_get ssh' w) a =
      (if w = whr \<and> a = who
       then permission_set_get_array (permission_set_get ssh whr) who @
         [\<lparr>p_host_to_connect = h, p_port_to_connect = p, p_listen_host = lh, p_listen_path = lp,
           p_listen_port = lport, p_downstream = ds\<rparr>]
       else permission_set_get_array (permission_set_get ssh w) a)"
    and "ps_all_permitted (permission_set_get ssh' w) = ps_all_permitted (permission_set_get ssh w)"
    and "s_channels ssh' = s_channels ssh" "s_effects ssh' = s_effects ssh" "s_compat ssh' = s_compat ssh"
  using assms by (auto simp: permission_set_add_def Let_def split: if_splits; cases whr; simp)+

lemma add_permission_result:
  assumes "channel_add_permission ssh who whr host port = Done ssh'"
  shows "permission_set_get_array (permission_set_get ssh' w) a =
      (if w = whr \<and> a = who
       then permission_set_get_array (permission_set_get ssh whr) who @
         [if whr = FORWARD_LOCAL
          then \<lparr>p_host_to_connect = Some host, p_port_to_connect = port, p_listen_host = None,
                p_listen_path = None, p_listen_port = 0, p_downstream = None\<rparr>
          else \<lparr>p_host_to_connect = None, p_port_to_connect = 0, p_listen_host = Some host,
                p_listen_path = None, p_listen_port = port, p_downstream = None\<rparr>]
       else permission_set_get_array (permission_set_get ssh w) a)"
    and "ps_all_permitted (permission_set_get ssh' w) =
      (if w = whr then False else ps_all_permitted (permission_set_get ssh w))"
proof -
  let ?local = "whr = FORWARD_LOCAL"
  from assms obtain n ssh1 where n: "permission_set_add ssh who whr
      (if ?local then Some host else None) (if ?local then port else 0)
      (if ?local then None else Some host) None (if ?local then 0 else port) None = Done (n, ssh1)"
    and ssh': "ssh' = permission_set_put ssh1 whr
      ((permission_set_get ssh1 whr)\<lparr>ps_all_permitted := False\<rparr>)"
    unfolding channel_add_permission_def Let_def andThen_Done by auto
  show "permission_set_get_array (permission_set_get ssh' w) a =
      (if w = whr \<and> a = who
       then permission_set_get_array (permission_set_get ssh whr) who @
         [if whr = FORWARD_LOCAL
          then \<lparr>p_host_to_connect = Some host, p_port_to_connect = port, p_listen_host = None,
                p_listen_path = None, p_listen_port = 0, p_downstream = None\<rparr>
          else \<lparr>p_host_to_connect = None, p_port_to_connect = 0, p_listen_host = Some host,
                p_listen_path = None, p_listen_port = port, p_downstream = None\<rparr>]
       else permission_set_get_array (permission_set_get ssh w) a)"
    using permission_set_add_result(2)[OF n, of whr a] permission_set_add_result(2)[OF n, of w a]
    by (cases whr; cases w; cases "a = who") (simp_all add: ssh')
  show "ps_all_permitted (permission_set_get ssh' w) =
      (if w = whr then False else ps_all_permitted (permission_set_get ssh w))"
    using permission_set_add_result(3)[OF n, of w] by (simp add: ssh')
qed

lemma disable_admin_result:
  assumes "channel_disable_admin ssh whr = Done ssh'"
  shows "ps_permitted_admin (permission_set_get ssh' whr) = [fwd_perm_clear]"
    and "w \<noteq> whr \<Longrightarrow> permission_set_get ssh' w = permission_set_get ssh w"
proof -
  from assms obtain n where n: "permission_set_add (channel_clear_permission ssh FORWARD_ADM whr)
      FORWARD_ADM whr None 0 None None 0 None = Done (n, ssh')"
    by (auto simp: channel_disable_admin_def andThen_Done)
  show "ps_permitted_admin (permission_set_get ssh' whr) = [fwd_perm_clear]"
    using permission_set_add_result(2)[OF n, of whr FORWARD_ADM]
    by (simp add: channel_clear_permission_def fwd_perm_clear_def)
  show "w \<noteq> whr \<Longrightarrow> permission_set_get ssh' w = permission_set_get ssh w"
    using n by (auto simp: permission_set_add_def Let_def channel_clear_permission_def split: if_splits)
qed

lemma disable_admin_ok: "\<exists>ssh'. channel_disable_admin ssh whr = Done ssh'"
  by (cases whr)
    (simp_all add: channel_disable_admin_def permission_set_add_def channel_clear_permission_def Let_def)

lemma disabled_local:
  "channel_disable_admin ssh FORWARD_LOCAL = Done ssh' \<Longrightarrow> \<not> connect_permitted ssh' host port"
  using disable_admin_result(1)[of ssh FORWARD_LOCAL ssh']
  by (simp add: connect_permitted_iff open_match_def fwd_perm_clear_def)

lemma disabled_remote:
  "channel_disable_admin ssh FORWARD_REMOTE = Done ssh' \<Longrightarrow>
   check_rfwd_permission ssh' fwd \<longleftrightarrow> f_listen_path fwd \<noteq> None \<and>
     (ps_all_permitted (s_remote_perms ssh') \<or> ps_permitted_user (s_remote_perms ssh') \<noteq> [])"
  using disable_admin_result(1)[of ssh FORWARD_REMOTE ssh']
  by (cases "ps_permitted_user (s_remote_perms ssh')")
    (auto simp: check_rfwd_iff remote_open_match_def fwd_perm_clear_def split: option.splits)

text \<open>A server without \<open>GatewayPorts\<close> binds to loopback addresses only.\<close>

lemma bind_addr_no_gateway:
  assumes "gateway_ports opts = 0"
  shows "channel_fwd_bind_addr cm la False opts \<in>
    {(None, False, False), (Some ''127.0.0.1'', False, False), (Some ''::1'', False, False)}"
  using assms by (auto simp: channel_fwd_bind_addr_def split: option.splits)

lemma bind_addr_gateway_yes:
  assumes "gateway_ports opts = 1"
  shows "\<exists>d. channel_fwd_bind_addr cm la False opts = (None, True, d)"
  using assms by (auto simp: channel_fwd_bind_addr_def split: option.splits)

lemma bind_addr_clientspecified:
  assumes "gateway_ports opts = 2" "cm AND SSH_OLD_FORWARD_ADDR = 0"
  shows "channel_fwd_bind_addr cm la False opts =
    (case la of
       None \<Rightarrow> (None, True, False)
     | Some a \<Rightarrow> if a \<in> {[], ''*''} then (None, True, False)
                 else if a = ''localhost'' then (None, False, False)
                 else (Some a, False, False))"
  using assms by (auto simp: channel_fwd_bind_addr_def split: option.splits)

end
