(* ===== verification/ChanFwd.thy ===== *)
theory ChanFwd
  imports ChanPerm
begin

text \<open>
  Forwarding: non-blocking connects, the channels a permitted open request gets, the listeners and
  their cancellation, and the client's requests for remote forwards with the permission each of
  them records. The resolver and the sockets are the parameter \<open>net\<close>: what \<open>getaddrinfo\<close> returns
  and which of the calls on an entry or a socket succeed.
\<close>

section \<open>The network\<close>

record net =
  n_getaddrinfo :: "string option \<Rightarrow> int \<Rightarrow> bool \<Rightarrow> addrinfo list option"
  n_getnameinfo :: "addrinfo \<Rightarrow> bool"
  n_socket :: "addrinfo \<Rightarrow> int"
  n_set_nonblock :: "int \<Rightarrow> bool"
  n_connect :: "int \<Rightarrow> addrinfo \<Rightarrow> bool"
  n_bind :: "int \<Rightarrow> addrinfo \<Rightarrow> bool"
  n_listen :: "int \<Rightarrow> bool"
  n_local_port :: "int \<Rightarrow> int"
  n_unix_listener :: "string \<Rightarrow> bool \<Rightarrow> int"

text \<open>\<open>n_connect\<close> is true when \<open>connect\<close> returns 0 or is in progress.\<close>

abbreviation NI_MAXHOST :: nat where "NI_MAXHOST \<equiv> 1025"
abbreviation SUN_PATH_SIZE :: nat where "SUN_PATH_SIZE \<equiv> 108"

section \<open>Connecting\<close>

text \<open>The socket, the entries left for a retry, and the sockets closed on the way.\<close>

fun connect_next :: "net \<Rightarrow> addrinfo list \<Rightarrow> (int \<times> addrinfo list \<times> eff list) run" where
  "connect_next nt [] = Done (-1, [], [])"
| "connect_next nt (ai # ais) =
     (if ai_family ai = AF_OTHER \<or> (ai_family ai \<noteq> AF_UNIX \<and> \<not> n_getnameinfo nt ai)
      then connect_next nt ais
      else let sock = n_socket nt ai in
        if sock = -1 then connect_next nt ais
        else if \<not> n_set_nonblock nt sock then Fatal
        else if \<not> n_connect nt sock ai
        then andThen (connect_next nt ais) (\<lambda>(s, rest, fx). Done (s, rest, Close_fd sock # fx))
        else Done (sock, ais, []))"

text \<open>
  \<open>connect_to_helper\<close>: the socket and the connect context, or the failure code for the peer where
  the code sets one. A path longer than \<open>sun_path\<close> is refused; a path is the single entry of its own
  address list, cut to fit with its terminator.
\<close>

datatype connect_res = Connected int channel_connect "eff list" | Connect_failed "eff list"

definition connect_to_helper :: "env \<Rightarrow> net \<Rightarrow> string \<Rightarrow> int \<Rightarrow> connect_res run" where
  "connect_to_helper e nt name port =
     (let aitop = (if port = PORT_STREAMLOCAL
            then if length name > SUN_PATH_SIZE then None
                 else Some [\<lparr>ai_family = AF_UNIX, ai_addr = take (SUN_PATH_SIZE - 1) name, ai_port = 0\<rparr>]
            else n_getaddrinfo nt (Some name) port False)
      in case aitop of
           None \<Rightarrow> Done (Connect_failed [])
         | Some ais \<Rightarrow>
           andThen (connect_next nt ais)
             (\<lambda>(sock, rest, fx).
                if sock = -1 then Done (Connect_failed fx)
                else Done (Connected sock \<lparr>cc_host = Some name, cc_port = port, cc_ai = rest\<rparr> fx)))"

text \<open>The part \<open>connect_to\<close> and \<open>channel_connect_to_port\<close> share: a CONNECTING channel, or none.\<close>

definition connect_to ::
    "env \<Rightarrow> net \<Rightarrow> ssh \<Rightarrow> string \<Rightarrow> int \<Rightarrow> string \<Rightarrow> string \<Rightarrow> (nat option \<times> ssh) run" where
  "connect_to e nt ssh host port ctype rname =
     andThen (connect_to_helper e nt host port)
       (\<lambda>res. case res of
          Connect_failed fx \<Rightarrow> Done (None, ssh\<lparr>s_effects := s_effects ssh @ fx\<rparr>)
        | Connected sock cctx fx \<Rightarrow>
          andThen (channel_new e (ssh\<lparr>s_effects := s_effects ssh @ fx\<rparr>) ctype SSH_CHANNEL_CONNECTING
                     sock sock (-1) CHAN_TCP_WINDOW_DEFAULT CHAN_TCP_PACKET_DEFAULT
                     CHAN_EXTENDED_IGNORE rname CHANNEL_NONBLOCK_SET)
            (\<lambda>(i, ssh1).
               case s_channels ssh1 ! i of
                 None \<Rightarrow> Fatal
               | Some c \<Rightarrow> Done (Some i, set_slot i (Some (c\<lparr>c_host_port := port, c_path := Some host,
                                                    c_connect_ctx := cctx\<rparr>)) ssh1)))"

datatype open_failure = SSH2_OPEN_ADMINISTRATIVELY_PROHIBITED | SSH2_OPEN_CONNECT_FAILED

text \<open>
  The server's side of a direct-tcpip request. On failure the reason is set when the request was
  prohibited and when the name does not resolve; a connect that fails leaves the caller's default.
\<close>

definition channel_connect_to_port ::
    "env \<Rightarrow> net \<Rightarrow> ssh \<Rightarrow> string \<Rightarrow> int \<Rightarrow> string \<Rightarrow> string \<Rightarrow>
     (nat option \<times> open_failure option \<times> ssh) run" where
  "channel_connect_to_port e nt ssh host port ctype rname =
     (if \<not> connect_permitted ssh host port
      then Done (None, Some SSH2_OPEN_ADMINISTRATIVELY_PROHIBITED, ssh)
      else andThen (connect_to e nt ssh host port ctype rname)
        (\<lambda>(r, ssh1). Done (r,
            if r = None \<and> port \<noteq> PORT_STREAMLOCAL \<and> n_getaddrinfo nt (Some host) port False = None
            then Some SSH2_OPEN_CONNECT_FAILED else None, ssh1)))"

definition channel_connect_to_path ::
    "env \<Rightarrow> net \<Rightarrow> ssh \<Rightarrow> string \<Rightarrow> string \<Rightarrow> string \<Rightarrow> (nat option \<times> ssh) run" where
  "channel_connect_to_path e nt ssh path ctype rname =
     (if \<not> connect_permitted ssh path PORT_STREAMLOCAL then Done (None, ssh)
      else connect_to e nt ssh path PORT_STREAMLOCAL ctype rname)"

text \<open>
  A channel that parses a SOCKS header before it has a descriptor. The confirmation the code starts
  here is never sent: the caller starts the packet over.
\<close>

definition rdynamic_connect_prepare ::
    "env \<Rightarrow> ssh \<Rightarrow> string \<Rightarrow> string \<Rightarrow> (nat option \<times> ssh) run" where
  "rdynamic_connect_prepare e ssh ctype rname =
     andThen (channel_new e ssh ctype SSH_CHANNEL_RDYNAMIC_OPEN (-1) (-1) (-1)
                CHAN_TCP_WINDOW_DEFAULT CHAN_TCP_PACKET_DEFAULT CHAN_EXTENDED_IGNORE rname
                CHANNEL_NONBLOCK_SET)
       (\<lambda>(i, ssh1). case s_channels ssh1 ! i of
            None \<Rightarrow> Fatal
          | Some c \<Rightarrow> Done (Some i, set_slot i (Some (c\<lparr>c_host_port := 0, c_path := None\<rparr>)) ssh1))"

definition rdynamic_connect_finish ::
    "env \<Rightarrow> net \<Rightarrow> ssh \<Rightarrow> channel \<Rightarrow> (int \<times> channel \<times> eff list) run" where
  "rdynamic_connect_finish e nt ssh c =
     (case c_path c of
        None \<Rightarrow> Fatal
      | Some path \<Rightarrow>
        let adm = ps_permitted_admin (s_local_perms ssh);
            permit_adm = (if length adm > 0 then list_ex (\<lambda>p. open_match p path (c_host_port c)) adm
                          else True)
        in if \<not> permit_adm then Done (-1, c, [])
           else andThen (connect_to_helper e nt path (c_host_port c))
             (\<lambda>res. case res of
                Connect_failed fx \<Rightarrow> Done (-1, c, fx)
              | Connected sock cctx fx \<Rightarrow>
                Done (sock, channel_register_fds e
                        (c\<lparr>c_type := SSH_CHANNEL_RDYNAMIC_FINISH, c_connect_ctx := cctx\<rparr>)
                        sock sock (-1) CHAN_EXTENDED_IGNORE CHANNEL_NONBLOCK_SET False, fx)))"

text \<open>The client's side of a forwarded-tcpip open: the first entry that matches decides.\<close>

definition channel_connect_by_listen_address ::
    "env \<Rightarrow> net \<Rightarrow> ssh \<Rightarrow> string option \<Rightarrow> int \<Rightarrow> string \<Rightarrow> string \<Rightarrow> (nat option \<times> ssh) run" where
  "channel_connect_by_listen_address e nt ssh listen_host listen_port ctype rname =
     (case List.find (\<lambda>p. open_listen_match_tcpip p listen_host listen_port True)
             (ps_permitted_user (s_local_perms ssh)) of
        None \<Rightarrow> Done (None, ssh)
      | Some perm \<Rightarrow>
        (case p_downstream perm of
           Some d \<Rightarrow> Done (Some d, ssh)
         | None \<Rightarrow>
           if p_port_to_connect perm = 0 then rdynamic_connect_prepare e ssh ctype rname
           else connect_to e nt ssh (the (p_host_to_connect perm)) (p_port_to_connect perm) ctype rname))"

definition channel_connect_by_listen_path ::
    "env \<Rightarrow> net \<Rightarrow> ssh \<Rightarrow> string \<Rightarrow> string \<Rightarrow> string \<Rightarrow> (nat option \<times> ssh) run" where
  "channel_connect_by_listen_path e nt ssh path ctype rname =
     (case List.find (\<lambda>p. open_listen_match_streamlocal p path)
             (ps_permitted_user (s_local_perms ssh)) of
        None \<Rightarrow> Done (None, ssh)
      | Some perm \<Rightarrow>
        connect_to e nt ssh (the (p_host_to_connect perm)) (p_port_to_connect perm) ctype rname)"

section \<open>Listeners\<close>

text \<open>
  The body of the loop over the addresses to listen on; the first result says whether it made a
  channel. \<open>alloc\<close> is \<open>*allocated_listen_port\<close>, \<open>None\<close> where the caller passes no pointer; an entry
  whose port is filled in is bound with that port.
\<close>

definition listen_one ::
    "env \<Rightarrow> net \<Rightarrow> chan_type \<Rightarrow> Forward \<Rightarrow> string \<Rightarrow> string option \<Rightarrow> addrinfo \<Rightarrow> int option \<Rightarrow>
     ssh \<Rightarrow> (bool \<times> int option \<times> ssh) run" where
  "listen_one e nt type fwd host addr ai alloc ssh =
     (if ai_family ai \<noteq> AF_INET \<and> ai_family ai \<noteq> AF_INET6 then Done (False, alloc, ssh)
      else
        let ai1 = (case alloc of
                     Some p \<Rightarrow> if type = SSH_CHANNEL_RPORT_LISTENER \<and> f_listen_port fwd = 0 \<and> p > 0
                               then ai\<lparr>ai_port := p\<rparr> else ai
                   | None \<Rightarrow> ai);
            sock = n_socket nt ai1
        in if \<not> n_getnameinfo nt ai1 \<or> sock = -1 then Done (False, alloc, ssh)
           else if \<not> n_bind nt sock ai1 \<or> \<not> n_listen nt sock
           then Done (False, alloc, emit (Close_fd sock) ssh)
           else
             let alloc1 = (case alloc of
                             Some p \<Rightarrow> if type = SSH_CHANNEL_RPORT_LISTENER \<and> f_listen_port fwd = 0 \<and> p = 0
                                       then Some (n_local_port nt sock) else alloc
                           | None \<Rightarrow> None);
                 lport = (case alloc1 of
                            Some p \<Rightarrow> if f_listen_port fwd = 0 \<and> s_compat ssh AND SSH_BUG_DYNAMIC_RPORT = 0
                                      then p else f_listen_port fwd
                          | None \<Rightarrow> f_listen_port fwd)
             in andThen (channel_new e ssh ''port-listener'' type sock sock (-1)
                           CHAN_TCP_WINDOW_DEFAULT CHAN_TCP_PACKET_DEFAULT CHAN_EXTENDED_IGNORE
                           ''port listener'' CHANNEL_NONBLOCK_SET)
                  (\<lambda>(i, ssh1). case s_channels ssh1 ! i of
                     None \<Rightarrow> Fatal
                   | Some c \<Rightarrow> Done (True, alloc1,
                       set_slot i (Some (c\<lparr>c_path := Some host, c_host_port := f_connect_port fwd,
                         c_listening_addr := addr, c_listening_port := lport\<rparr>)) ssh1)))"

fun listen_loop ::
    "env \<Rightarrow> net \<Rightarrow> chan_type \<Rightarrow> Forward \<Rightarrow> string \<Rightarrow> string option \<Rightarrow> addrinfo list \<Rightarrow> int option \<Rightarrow>
     bool \<Rightarrow> ssh \<Rightarrow> (bool \<times> int option \<times> ssh) run" where
  "listen_loop e nt type fwd host addr [] alloc success ssh = Done (success, alloc, ssh)"
| "listen_loop e nt type fwd host addr (ai # ais) alloc success ssh =
     andThen (listen_one e nt type fwd host addr ai alloc ssh)
       (\<lambda>(ok, alloc1, ssh1). listen_loop e nt type fwd host addr ais alloc1 (success \<or> ok) ssh1)"

text \<open>\<open>want_port\<close> says whether the caller wants the allocated port back.\<close>

definition channel_setup_fwd_listener_tcpip ::
    "env \<Rightarrow> net \<Rightarrow> ssh \<Rightarrow> chan_type \<Rightarrow> Forward \<Rightarrow> bool \<Rightarrow> ForwardOptions \<Rightarrow>
     (bool \<times> int option \<times> ssh) run" where
  "channel_setup_fwd_listener_tcpip e nt ssh type fwd want_port fwd_opts =
     (let is_client = (type = SSH_CHANNEL_PORT_LISTENER);
          host = (if is_client \<and> f_connect_path fwd \<noteq> None then f_connect_path fwd
                  else if type = SSH_CHANNEL_RPORT_LISTENER then f_listen_host fwd
                  else f_connect_host fwd)
      in case host of
           None \<Rightarrow> Done (False, None, ssh)
         | Some h \<Rightarrow>
           if \<not> (is_client \<and> f_connect_path fwd \<noteq> None) \<and> length h \<ge> NI_MAXHOST
           then Done (False, None, ssh)
           else
             let (addr, wildcard, told) =
                   channel_fwd_bind_addr (s_compat ssh) (f_listen_host fwd) is_client fwd_opts;
                 ssh1 = (if told then emit (Send_debug ''listen address overridden'') ssh else ssh)
             in case n_getaddrinfo nt addr (f_listen_port fwd) wildcard of
                  None \<Rightarrow> if addr = None then Disconnect else Done (False, None, ssh1)
                | Some ais \<Rightarrow> listen_loop e nt type fwd h addr ais (if want_port then Some 0 else None)
                                False ssh1)"

definition channel_setup_fwd_listener_streamlocal ::
    "env \<Rightarrow> net \<Rightarrow> ssh \<Rightarrow> chan_type \<Rightarrow> Forward \<Rightarrow> ForwardOptions \<Rightarrow> (bool \<times> ssh) run" where
  "channel_setup_fwd_listener_streamlocal e nt ssh type fwd fwd_opts =
     (let target =
        (if type = SSH_CHANNEL_UNIX_LISTENER then
           (case f_connect_path fwd of
              Some p \<Rightarrow> if length p > SUN_PATH_SIZE then None else Some (Some p, PORT_STREAMLOCAL)
            | None \<Rightarrow>
              (case f_connect_host fwd of
                 None \<Rightarrow> None
               | Some h \<Rightarrow> if length h \<ge> NI_MAXHOST then None else Some (Some h, f_connect_port fwd)))
         else if type = SSH_CHANNEL_RUNIX_LISTENER then Some (f_listen_path fwd, PORT_STREAMLOCAL)
         else None)
      in case (target, f_listen_path fwd) of
           (Some (path, port), Some lpath) \<Rightarrow>
             if length lpath > SUN_PATH_SIZE then Done (False, ssh)
             else let sock = n_unix_listener nt lpath (streamlocal_bind_unlink fwd_opts) in
               if sock < 0 then Done (False, ssh)
               else andThen (channel_new e ssh ''unix-listener'' type sock sock (-1)
                          CHAN_TCP_WINDOW_DEFAULT CHAN_TCP_PACKET_DEFAULT CHAN_EXTENDED_IGNORE
                          ''unix listener'' CHANNEL_NONBLOCK_SET)
                 (\<lambda>(i, ssh1). case s_channels ssh1 ! i of
                    None \<Rightarrow> Fatal
                  | Some c \<Rightarrow> Done (True, set_slot i (Some (c\<lparr>c_path := path, c_host_port := port,
                        c_listening_port := PORT_STREAMLOCAL, c_listening_addr := Some lpath\<rparr>)) ssh1))
         | _ \<Rightarrow> Done (False, ssh))"

definition channel_setup_local_fwd_listener ::
    "env \<Rightarrow> net \<Rightarrow> ssh \<Rightarrow> Forward \<Rightarrow> ForwardOptions \<Rightarrow> (bool \<times> ssh) run" where
  "channel_setup_local_fwd_listener e nt ssh fwd fwd_opts =
     (if f_listen_path fwd \<noteq> None
      then channel_setup_fwd_listener_streamlocal e nt ssh SSH_CHANNEL_UNIX_LISTENER fwd fwd_opts
      else andThen (channel_setup_fwd_listener_tcpip e nt ssh SSH_CHANNEL_PORT_LISTENER fwd False fwd_opts)
             (\<lambda>(ok, port, ssh1). Done (ok, ssh1)))"

definition channel_setup_remote_fwd_listener ::
    "env \<Rightarrow> net \<Rightarrow> ssh \<Rightarrow> Forward \<Rightarrow> bool \<Rightarrow> ForwardOptions \<Rightarrow> (bool \<times> int option \<times> ssh) run" where
  "channel_setup_remote_fwd_listener e nt ssh fwd want_port fwd_opts =
     (if \<not> check_rfwd_permission ssh fwd
      then Done (False, None, emit (Send_debug ''port forwarding refused'') ssh)
      else if f_listen_path fwd \<noteq> None
      then andThen (channel_setup_fwd_listener_streamlocal e nt ssh SSH_CHANNEL_RUNIX_LISTENER fwd fwd_opts)
             (\<lambda>(ok, ssh1). Done (ok, None, ssh1))
      else channel_setup_fwd_listener_tcpip e nt ssh SSH_CHANNEL_RPORT_LISTENER fwd want_port fwd_opts)"

section \<open>Cancelling listeners\<close>

text \<open>
  A null host or path that the code hands to \<open>strcmp\<close> ends the process.

  All four cancel loops free the channels a test selects and say whether there was one.
\<close>

fun cancel_loop ::
    "env \<Rightarrow> (channel \<Rightarrow> bool) \<Rightarrow> nat list \<Rightarrow> bool \<Rightarrow> ssh \<Rightarrow> (bool \<times> ssh) run" where
  "cancel_loop e sel [] found ssh = Done (found, ssh)"
| "cancel_loop e sel (i # is) found ssh =
     (case s_channels ssh ! i of
        None \<Rightarrow> cancel_loop e sel is found ssh
      | Some c \<Rightarrow>
        if sel c then andThen (channel_free e ssh i) (\<lambda>ssh1. cancel_loop e sel is True ssh1)
        else cancel_loop e sel is found ssh)"

definition rport_sel :: "string \<Rightarrow> int \<Rightarrow> channel \<Rightarrow> bool" where
  "rport_sel host port c \<longleftrightarrow> c_type c = SSH_CHANNEL_RPORT_LISTENER \<and> c_path c = Some host \<and>
     c_listening_port c = port"

definition channel_cancel_rport_listener_tcpip ::
    "env \<Rightarrow> ssh \<Rightarrow> string \<Rightarrow> int \<Rightarrow> (bool \<times> ssh) run" where
  "channel_cancel_rport_listener_tcpip e ssh host port =
     cancel_loop e (rport_sel host port) (slots ssh) False ssh"

definition runix_sel :: "string \<Rightarrow> channel \<Rightarrow> bool" where
  "runix_sel path c \<longleftrightarrow> c_type c = SSH_CHANNEL_RUNIX_LISTENER \<and> c_path c = Some path"

definition channel_cancel_rport_listener_streamlocal :: "env \<Rightarrow> ssh \<Rightarrow> string \<Rightarrow> (bool \<times> ssh) run" where
  "channel_cancel_rport_listener_streamlocal e ssh path =
     cancel_loop e (runix_sel path) (slots ssh) False ssh"

definition channel_cancel_rport_listener :: "env \<Rightarrow> ssh \<Rightarrow> Forward \<Rightarrow> (bool \<times> ssh) run" where
  "channel_cancel_rport_listener e ssh fwd =
     (case f_listen_path fwd of
        Some path \<Rightarrow> channel_cancel_rport_listener_streamlocal e ssh path
      | None \<Rightarrow>
        (case f_listen_host fwd of
           None \<Rightarrow> Fatal
         | Some host \<Rightarrow> channel_cancel_rport_listener_tcpip e ssh host (f_listen_port fwd)))"

abbreviation CHANNEL_CANCEL_PORT_STATIC :: int where "CHANNEL_CANCEL_PORT_STATIC \<equiv> -1"

definition lport_sel :: "string option \<Rightarrow> int \<Rightarrow> int \<Rightarrow> channel \<Rightarrow> bool" where
  "lport_sel addr lport cport c \<longleftrightarrow>
     (if c_type c \<noteq> SSH_CHANNEL_PORT_LISTENER then False
      else if c_listening_port c \<noteq> lport then False
      else if (if cport = CHANNEL_CANCEL_PORT_STATIC then c_host_port c = 0 else c_host_port c \<noteq> cport)
      then False
      else if (c_listening_addr c = None \<and> addr \<noteq> None) \<or> (c_listening_addr c \<noteq> None \<and> addr = None)
      then False
      else addr = None \<or> c_listening_addr c = addr)"

definition channel_cancel_lport_listener_tcpip ::
    "env \<Rightarrow> ssh \<Rightarrow> string option \<Rightarrow> int \<Rightarrow> int \<Rightarrow> ForwardOptions \<Rightarrow> (bool \<times> ssh) run" where
  "channel_cancel_lport_listener_tcpip e ssh lhost lport cport fwd_opts =
     (let (addr, wildcard, told) = channel_fwd_bind_addr (s_compat ssh) lhost True fwd_opts;
          ssh1 = (if told then emit (Send_debug ''listen address overridden'') ssh else ssh)
      in cancel_loop e (lport_sel addr lport cport) (slots ssh) False ssh1)"

definition lunix_sel :: "string \<Rightarrow> channel \<Rightarrow> bool" where
  "lunix_sel path c \<longleftrightarrow> c_type c = SSH_CHANNEL_UNIX_LISTENER \<and> c_listening_addr c = Some path"

definition channel_cancel_lport_listener_streamlocal ::
    "env \<Rightarrow> ssh \<Rightarrow> string option \<Rightarrow> (bool \<times> ssh) run" where
  "channel_cancel_lport_listener_streamlocal e ssh path =
     (case path of
        None \<Rightarrow> Done (False, ssh)
      | Some p \<Rightarrow> cancel_loop e (lunix_sel p) (slots ssh) False ssh)"

definition channel_cancel_lport_listener ::
    "env \<Rightarrow> ssh \<Rightarrow> Forward \<Rightarrow> int \<Rightarrow> ForwardOptions \<Rightarrow> (bool \<times> ssh) run" where
  "channel_cancel_lport_listener e ssh fwd cport fwd_opts =
     (if f_listen_path fwd \<noteq> None
      then channel_cancel_lport_listener_streamlocal e ssh (f_listen_path fwd)
      else channel_cancel_lport_listener_tcpip e ssh (f_listen_host fwd) (f_listen_port fwd) cport fwd_opts)"

section \<open>Remote forwards, the client's side\<close>

text \<open>\<open>write_wait_ok\<close> is \<open>ssh_packet_write_wait\<close> returning 0.\<close>

definition channel_request_remote_forwarding ::
    "env \<Rightarrow> bool \<Rightarrow> ssh \<Rightarrow> Forward \<Rightarrow> (nat \<times> ssh) run" where
  "channel_request_remote_forwarding e write_wait_ok ssh fwd =
     (let p = (case f_listen_path fwd of
                 Some path \<Rightarrow> Packet SSH2_MSG_GLOBAL_REQUEST
                   [PUT_CSTRING ''streamlocal-forward@openssh.com'', PUT_U8 1, PUT_CSTRING path]
               | None \<Rightarrow> Packet SSH2_MSG_GLOBAL_REQUEST
                   [PUT_CSTRING ''tcpip-forward'', PUT_U8 1,
                    PUT_CSTRING (channel_rfwd_bind_host (f_listen_host fwd)),
                    PUT_U32 (word_of_int (f_listen_port fwd))])
      in if \<not> e_pkt_ok e p \<or> \<not> write_wait_ok then Fatal
         else
           let (host_to_connect, port_to_connect) =
                 (if f_connect_path fwd \<noteq> None then (f_connect_path fwd, PORT_STREAMLOCAL)
                  else (f_connect_host fwd, f_connect_port fwd));
               (listen_host, listen_path, listen_port) =
                 (if f_listen_path fwd \<noteq> None then (None, f_listen_path fwd, PORT_STREAMLOCAL)
                  else (f_listen_host fwd, None, f_listen_port fwd))
           in permission_set_add (emit (Send p) ssh) FORWARD_USER FORWARD_LOCAL
                host_to_connect port_to_connect listen_host listen_path listen_port None)"

text \<open>The index of the first entry a test selects.\<close>

definition first_idx :: "('a \<Rightarrow> bool) \<Rightarrow> 'a list \<Rightarrow> nat option" where
  "first_idx P xs = List.find (\<lambda>i. P (xs ! i)) [0..<length xs]"

definition clear_user_perm :: "nat \<Rightarrow> ssh \<Rightarrow> ssh" where
  "clear_user_perm i ssh =
     ssh\<lparr>s_local_perms := (s_local_perms ssh)\<lparr>ps_permitted_user :=
           (ps_permitted_user (s_local_perms ssh))[i := fwd_perm_clear]\<rparr>\<rparr>"

definition channel_request_rforward_cancel_tcpip ::
    "env \<Rightarrow> ssh \<Rightarrow> string option \<Rightarrow> int \<Rightarrow> (int \<times> ssh) run" where
  "channel_request_rforward_cancel_tcpip e ssh host port =
     (case first_idx (\<lambda>p. open_listen_match_tcpip p host port False)
             (ps_permitted_user (s_local_perms ssh)) of
        None \<Rightarrow> Done (-1, ssh)
      | Some i \<Rightarrow>
        let p = Packet SSH2_MSG_GLOBAL_REQUEST
              [PUT_CSTRING ''cancel-tcpip-forward'', PUT_U8 0,
               PUT_CSTRING (channel_rfwd_bind_host host), PUT_U32 (word_of_int port)]
        in if \<not> e_pkt_ok e p then Fatal else Done (0, clear_user_perm i (emit (Send p) ssh)))"

definition channel_request_rforward_cancel_streamlocal ::
    "env \<Rightarrow> ssh \<Rightarrow> string \<Rightarrow> (int \<times> ssh) run" where
  "channel_request_rforward_cancel_streamlocal e ssh path =
     (case first_idx (\<lambda>p. open_listen_match_streamlocal p path)
             (ps_permitted_user (s_local_perms ssh)) of
        None \<Rightarrow> Done (-1, ssh)
      | Some i \<Rightarrow>
        let p = Packet SSH2_MSG_GLOBAL_REQUEST
              [PUT_CSTRING ''cancel-streamlocal-forward@openssh.com'', PUT_U8 0, PUT_CSTRING path]
        in if \<not> e_pkt_ok e p then Fatal else Done (0, clear_user_perm i (emit (Send p) ssh)))"

definition channel_request_rforward_cancel :: "env \<Rightarrow> ssh \<Rightarrow> Forward \<Rightarrow> (int \<times> ssh) run" where
  "channel_request_rforward_cancel e ssh fwd =
     (case f_listen_path fwd of
        Some path \<Rightarrow> channel_request_rforward_cancel_streamlocal e ssh path
      | None \<Rightarrow> channel_request_rforward_cancel_tcpip e ssh (f_listen_host fwd)
          (if f_listen_port fwd \<noteq> 0 then f_listen_port fwd else f_allocated_port fwd))"

section \<open>Connections\<close>

lemma new_then_set:
  assumes "channel_new e ssh ctype type rfd wfd efd window maxpack eu name nb = Done (i, ssh1)"
    and "(case s_channels ssh1 ! i of None \<Rightarrow> Fatal | Some c \<Rightarrow> k c) = Done r"
  shows "\<exists>c. fresh_channel i ctype type window maxpack c \<and> k c = Done r \<and> chan ssh i = None \<and>
    chan ssh1 i = Some c"
proof -
  from channel_new_chan[OF assms(1)] obtain c where "fresh_channel i ctype type window maxpack c"
    "chan ssh i = None" "chan ssh1 i = Some c" by auto
  with assms(2) chan_nth[of ssh1 i c] show ?thesis by auto
qed

lemma connect_to_result:
  assumes "connect_to e nt ssh host port ctype rname = Done (r, ssh')"
  shows "case r of
      None \<Rightarrow> s_channels ssh' = s_channels ssh
    | Some i \<Rightarrow> chan ssh i = None \<and>
        (\<exists>c. (\<forall>j. chan ssh' j = (if j = i then Some c else chan ssh j)) \<and> c_self c = i \<and>
           c_type c = SSH_CHANNEL_CONNECTING \<and> c_path c = Some host \<and> c_host_port c = port)"
proof -
  from assms obtain res where res: "connect_to_helper e nt host port = Done res"
    by (auto simp: connect_to_def andThen_Done)
  show ?thesis
  proof (cases res)
    case (Connect_failed fx)
    with assms res show ?thesis by (auto simp: connect_to_def)
  next
    case (Connected sock cctx fx)
    let ?ssh0 = "ssh\<lparr>s_effects := s_effects ssh @ fx\<rparr>"
    from assms res Connected obtain i ssh1 where
      n: "channel_new e ?ssh0 ctype SSH_CHANNEL_CONNECTING sock sock (-1) CHAN_TCP_WINDOW_DEFAULT
          CHAN_TCP_PACKET_DEFAULT CHAN_EXTENDED_IGNORE rname CHANNEL_NONBLOCK_SET = Done (i, ssh1)"
      and k: "(case s_channels ssh1 ! i of None \<Rightarrow> Fatal
               | Some c \<Rightarrow> Done (Some i, set_slot i (Some (c\<lparr>c_host_port := port, c_path := Some host,
                                                    c_connect_ctx := cctx\<rparr>)) ssh1)) = Done (r, ssh')"
      by (auto simp: connect_to_def andThen_Done)
    from new_then_set[OF n k] obtain c where c: "fresh_channel i ctype SSH_CHANNEL_CONNECTING
        CHAN_TCP_WINDOW_DEFAULT CHAN_TCP_PACKET_DEFAULT c" "chan ?ssh0 i = None" "chan ssh1 i = Some c"
      "r = Some i" "ssh' = set_slot i (Some (c\<lparr>c_host_port := port, c_path := Some host,
                                                    c_connect_ctx := cctx\<rparr>)) ssh1" by auto
    have ch: "chan ?ssh0 = chan ssh" by (simp add: chan_def fun_eq_iff)
    have old: "chan ssh1 j = chan ssh j" if "j \<noteq> i" for j
      using channel_new_chan[OF n] that by (auto simp: ch)
    have "chan ssh' j = (if j = i then Some (c\<lparr>c_host_port := port, c_path := Some host,
        c_connect_ctx := cctx\<rparr>) else chan ssh j)" for j
      using chan_nth[OF c(3)] old by (simp add: c(5) chan_set_slot)
    then show ?thesis using c(1,2,4)
      by (auto simp: ch fresh_channel_def intro!: exI[of _ "c\<lparr>c_host_port := port, c_path := Some host,
        c_connect_ctx := cctx\<rparr>"])
  qed
qed

section \<open>Cancellation\<close>

lemma channel_free_plain:
  assumes "chan ssh i = Some c" "c_type c \<noteq> SSH_CHANNEL_MUX_CLIENT"
  shows "\<exists>ssh'. channel_free e ssh i = Done ssh'"
  using chan_nth[OF assms(1)] assms(2) by (simp add: channel_free_def split_beta)

lemma cancel_loop_result:
  assumes "\<And>c. sel c \<Longrightarrow> c_type c \<noteq> SSH_CHANNEL_MUX_CLIENT"
    and "set js \<subseteq> {..<length (s_channels ssh)}" "distinct js"
  shows "\<exists>ssh'. cancel_loop e sel js found ssh =
      Done (found \<or> (\<exists>i\<in>set js. \<exists>c. chan ssh i = Some c \<and> sel c), ssh') \<and>
    (\<forall>j. chan ssh' j = (if j \<in> set js \<and> (\<exists>c. chan ssh j = Some c \<and> sel c) then None
                        else chan ssh j))"
  using assms(2,3)
proof (induction js arbitrary: found ssh)
  case (Cons i js)
  show ?case
  proof (cases "\<exists>c. chan ssh i = Some c \<and> sel c")
    case True
    then obtain c where c: "chan ssh i = Some c" "sel c" by blast
    obtain ssh1 where f: "channel_free e ssh i = Done ssh1"
      using channel_free_plain[OF c(1) assms(1)[OF c(2)]] by blast
    have ch: "chan ssh1 j = (if j = i then None else chan ssh j)" for j
      using channel_free_chan(1)[OF f c(1)] assms(1)[OF c(2)] by simp
    have "set js \<subseteq> {..<length (s_channels ssh1)}"
      using Cons.prems channel_free_chan(4)[OF f c(1)] by auto
    from Cons.IH[OF this, of True] Cons.prems(2) obtain ssh' where
      "cancel_loop e sel js True ssh1 = Done (True, ssh')"
      "\<And>j. chan ssh' j = (if j \<in> set js \<and> (\<exists>c. chan ssh1 j = Some c \<and> sel c) then None
                        else chan ssh1 j)" by auto
    moreover have "i \<notin> set js" using Cons.prems by simp
    ultimately show ?thesis using c chan_nth[OF c(1)] f by (auto simp: ch)
  next
    case False
    from Cons.IH[of ssh found] Cons.prems obtain ssh' where
      "cancel_loop e sel js found ssh =
        Done (found \<or> (\<exists>i\<in>set js. \<exists>c. chan ssh i = Some c \<and> sel c), ssh')"
      "\<And>j. chan ssh' j = (if j \<in> set js \<and> (\<exists>c. chan ssh j = Some c \<and> sel c) then None
                        else chan ssh j)" by auto
    moreover have "cancel_loop e sel (i # js) found ssh = cancel_loop e sel js found ssh"
      using False Cons.prems by (auto simp: chan_def split: option.splits)
    ultimately show ?thesis using False by (intro exI[of _ ssh']) auto
  qed
qed simp

lemma cancel_all:
  assumes "\<And>c. sel c \<Longrightarrow> c_type c \<noteq> SSH_CHANNEL_MUX_CLIENT"
  shows "\<exists>ssh'. cancel_loop e sel (slots ssh) False ssh =
      Done (\<exists>i c. chan ssh i = Some c \<and> sel c, ssh') \<and>
    (\<forall>j. chan ssh' j = (case chan ssh j of Some c \<Rightarrow> if sel c then None else Some c | None \<Rightarrow> None))"
proof -
  have in_slots: "i \<in> set (slots ssh)" if "chan ssh i = Some c" for i c
    using chan_nth[OF that] by (simp add: slots_def)
  obtain ssh' where "cancel_loop e sel (slots ssh) False ssh =
      Done (\<exists>i\<in>set (slots ssh). \<exists>c. chan ssh i = Some c \<and> sel c, ssh')"
    and ch: "\<And>j. chan ssh' j = (if j \<in> set (slots ssh) \<and> (\<exists>c. chan ssh j = Some c \<and> sel c) then None
                        else chan ssh j)"
    using cancel_loop_result[where sel = sel and js = "slots ssh" and ssh = ssh and e = e and found = False,
        OF assms] by (auto simp: slots_def atLeast0LessThan)
  moreover have "(\<exists>i\<in>set (slots ssh). \<exists>c. chan ssh i = Some c \<and> sel c) \<longleftrightarrow>
      (\<exists>i c. chan ssh i = Some c \<and> sel c)" using in_slots by blast
  ultimately show ?thesis using in_slots
    by (intro exI[of _ ssh']) (auto simp: split: option.split)
qed

lemma listener_sel_types:
  "rport_sel h p c \<Longrightarrow> c_type c \<noteq> SSH_CHANNEL_MUX_CLIENT"
  "runix_sel q c \<Longrightarrow> c_type c \<noteq> SSH_CHANNEL_MUX_CLIENT"
  "lport_sel a l cp c \<Longrightarrow> c_type c \<noteq> SSH_CHANNEL_MUX_CLIENT"
  "lunix_sel q c \<Longrightarrow> c_type c \<noteq> SSH_CHANNEL_MUX_CLIENT"
  by (auto simp: rport_sel_def runix_sel_def lport_sel_def lunix_sel_def split: if_splits)


section \<open>Where listeners listen\<close>

text \<open>
  What one pass over the addresses adds: \<open>added\<close> relates the tables before and after by a property of
  the new channels, everything else staying as it was.
\<close>

definition added :: "(channel \<Rightarrow> bool) \<Rightarrow> ssh \<Rightarrow> ssh \<Rightarrow> bool" where
  "added P ssh ssh' \<longleftrightarrow>
     (\<forall>j c. chan ssh j = Some c \<longrightarrow> chan ssh' j = Some c) \<and>
     (\<forall>j c. chan ssh j = None \<longrightarrow> chan ssh' j = Some c \<longrightarrow> P c) \<and>
     s_compat ssh' = s_compat ssh"

lemma added_refl: "added P ssh ssh" by (simp add: added_def)

lemma added_trans: "added P a b \<Longrightarrow> added P b c \<Longrightarrow> added P a c"
  unfolding added_def by (metis not_None_eq option.inject)

lemma added_mono: "added P a b \<Longrightarrow> (\<And>c. P c \<Longrightarrow> Q c) \<Longrightarrow> added Q a b"
  by (auto simp: added_def)

lemma added_emit: "added P (emit x ssh) ssh' = added P ssh ssh'"
  by (simp add: added_def)

lemma new_compat:
  "channel_new e ssh ctype type rfd wfd efd window maxpack eu name nb = Done (i, ssh1) \<Longrightarrow>
   s_compat ssh1 = s_compat ssh"
  by (erule channel_new_result) simp

lemma new_set_added:
  assumes n: "channel_new e ssh ctype type rfd wfd efd window maxpack eu name nb = Done (i, ssh1)"
    and c: "chan ssh1 i = Some c" and P: "P c'"
  shows "added P ssh (set_slot i (Some c') ssh1)"
proof -
  from channel_new_chan[OF n] have "chan ssh i = None" "\<And>j. j \<noteq> i \<Longrightarrow> chan ssh1 j = chan ssh j" by auto
  then show ?thesis using P chan_nth[OF c] new_compat[OF n]
    by (auto simp: added_def chan_set_slot)
qed

text \<open>What one address contributes: nothing, or one channel with a free slot and this address.\<close>

lemma listen_oneE:
  assumes "listen_one e nt type fwd host addr ai alloc ssh = Done (ok, alloc', ssh')"
  obtains (skip) "\<not> ok" "alloc' = alloc" "chan ssh' = chan ssh" "s_compat ssh' = s_compat ssh"
  | (made) i c lport where "ok" "chan ssh i = None" "chan ssh' i = Some c"
      "c_type c = type" "c_path c = Some host" "c_listening_addr c = addr"
      "c_host_port c = f_connect_port fwd" "c_listening_port c = lport"
      "\<And>j. j \<noteq> i \<Longrightarrow> chan ssh' j = chan ssh j" "s_compat ssh' = s_compat ssh"
      "lport = (case alloc' of
                  Some p \<Rightarrow> if f_listen_port fwd = 0 \<and> s_compat ssh AND SSH_BUG_DYNAMIC_RPORT = 0
                            then p else f_listen_port fwd
                | None \<Rightarrow> f_listen_port fwd)"
      "alloc' = alloc \<or> (\<exists>s. alloc = Some 0 \<and> alloc' = Some (n_local_port nt s))"
      "alloc = Some 0 \<Longrightarrow> type = SSH_CHANNEL_RPORT_LISTENER \<Longrightarrow> f_listen_port fwd = 0 \<Longrightarrow>
       \<exists>s. alloc' = Some (n_local_port nt s)"
proof -
  define ai1 where "ai1 = (case alloc of
                     Some p \<Rightarrow> if type = SSH_CHANNEL_RPORT_LISTENER \<and> f_listen_port fwd = 0 \<and> p > 0
                               then ai\<lparr>ai_port := p\<rparr> else ai
                   | None \<Rightarrow> ai)"
  define sock where "sock = n_socket nt ai1"
  define alloc1 where "alloc1 = (case alloc of
                             Some p \<Rightarrow> if type = SSH_CHANNEL_RPORT_LISTENER \<and> f_listen_port fwd = 0 \<and> p = 0
                                       then Some (n_local_port nt sock) else alloc
                           | None \<Rightarrow> None)"
  define lport where "lport = (case alloc1 of
                            Some p \<Rightarrow> if f_listen_port fwd = 0 \<and> s_compat ssh AND SSH_BUG_DYNAMIC_RPORT = 0
                                      then p else f_listen_port fwd
                          | None \<Rightarrow> f_listen_port fwd)"
  consider "ok = False \<and> alloc' = alloc \<and> chan ssh' = chan ssh \<and> s_compat ssh' = s_compat ssh"
    | i ssh1 where
      "channel_new e ssh ''port-listener'' type sock sock (-1)
         CHAN_TCP_WINDOW_DEFAULT CHAN_TCP_PACKET_DEFAULT CHAN_EXTENDED_IGNORE
         ''port listener'' CHANNEL_NONBLOCK_SET = Done (i, ssh1)"
      "(case s_channels ssh1 ! i of
          None \<Rightarrow> Fatal
        | Some c \<Rightarrow> Done (True, alloc1,
            set_slot i (Some (c\<lparr>c_path := Some host, c_host_port := f_connect_port fwd,
              c_listening_addr := addr, c_listening_port := lport\<rparr>)) ssh1)) = Done (ok, alloc', ssh')"
    using assms
    unfolding listen_one_def Let_def ai1_def[symmetric] sock_def[symmetric] alloc1_def[symmetric]
      lport_def[symmetric]
    by (auto simp: andThen_Done split: if_splits)
  then show thesis
  proof cases
    case 1
    then show thesis by (intro skip) simp_all
  next
    case (2 i ssh1)
    from new_then_set[OF 2] obtain c where c: "fresh_channel i ''port-listener'' type
        CHAN_TCP_WINDOW_DEFAULT CHAN_TCP_PACKET_DEFAULT c" "ok" "alloc' = alloc1" "chan ssh i = None"
      "chan ssh1 i = Some c" "ssh' = set_slot i (Some (c\<lparr>c_path := Some host,
         c_host_port := f_connect_port fwd, c_listening_addr := addr, c_listening_port := lport\<rparr>)) ssh1"
      by auto
    have old: "chan ssh1 j = chan ssh j" if "j \<noteq> i" for j using channel_new_chan[OF 2(1)] that by auto
    have t: "c_type c = type" using c(1) by (simp add: fresh_channel_def)
    have cm: "s_compat ssh' = s_compat ssh"
      using new_compat[OF 2(1)] by (simp add: c(6) set_slot_def)
    show thesis
    proof (rule made[of i "c\<lparr>c_path := Some host, c_host_port := f_connect_port fwd,
        c_listening_addr := addr, c_listening_port := lport\<rparr>" lport])
      show "alloc' = alloc \<or> (\<exists>s. alloc = Some 0 \<and> alloc' = Some (n_local_port nt s))"
        unfolding c(3) alloc1_def by (auto split: option.splits)
      show "\<exists>s. alloc' = Some (n_local_port nt s)" if "alloc = Some 0"
        "type = SSH_CHANNEL_RPORT_LISTENER" "f_listen_port fwd = 0"
        using that unfolding c(3) alloc1_def by auto
      show "lport = (case alloc' of
                  Some p \<Rightarrow> if f_listen_port fwd = 0 \<and> s_compat ssh AND SSH_BUG_DYNAMIC_RPORT = 0
                            then p else f_listen_port fwd
                | None \<Rightarrow> f_listen_port fwd)" by (simp add: lport_def c(3))
    qed (use c(2,4) chan_nth[OF c(5)] old t cm in \<open>simp_all add: c(6) chan_set_slot\<close>)
  qed
qed

lemma listen_loop_added:
  assumes "listen_loop e nt type fwd host addr ais alloc success ssh = Done (ok, port, ssh')"
  shows "added (\<lambda>c. c_type c = type \<and> c_path c = Some host \<and> c_listening_addr c = addr \<and>
    c_host_port c = f_connect_port fwd) ssh ssh'"
  using assms
proof (induction ais arbitrary: alloc success ssh)
  case (Cons ai ais)
  then obtain ok1 alloc1 ssh1 where one: "listen_one e nt type fwd host addr ai alloc ssh = Done (ok1, alloc1, ssh1)"
    and rest: "listen_loop e nt type fwd host addr ais alloc1 (success \<or> ok1) ssh1 = Done (ok, port, ssh')"
    by (auto simp: andThen_Done)
  from one have "added (\<lambda>c. c_type c = type \<and> c_path c = Some host \<and> c_listening_addr c = addr \<and>
      c_host_port c = f_connect_port fwd) ssh ssh1"
  proof (cases rule: listen_oneE)
    case skip
    then show ?thesis by (simp add: added_def)
  next
    case (made i c lport)
    then show ?thesis unfolding added_def by (metis not_None_eq option.inject)
  qed
  then show ?case using Cons.IH[OF rest] by (rule added_trans)
qed (simp add: added_refl)

text \<open>Success is a listener that was not there before.\<close>

lemma listen_loop_success:
  assumes "listen_loop e nt type fwd host addr ais alloc success ssh = Done (ok, port, ssh')"
  shows "ok \<longleftrightarrow> success \<or> (\<exists>j c. chan ssh j = None \<and> chan ssh' j = Some c)"
  using assms
proof (induction ais arbitrary: alloc success ssh)
  case (Cons ai ais)
  then obtain ok1 alloc1 ssh1 where one: "listen_one e nt type fwd host addr ai alloc ssh = Done (ok1, alloc1, ssh1)"
    and rest: "listen_loop e nt type fwd host addr ais alloc1 (success \<or> ok1) ssh1 = Done (ok, port, ssh')"
    by (auto simp: andThen_Done)
  from one show ?case
  proof (cases rule: listen_oneE)
    case skip
    then show ?thesis using Cons.IH[OF rest] by simp
  next
    case (made i c lport)
    then have "chan ssh' i = Some c" using listen_loop_added[OF rest] by (auto simp: added_def)
    then show ?thesis using Cons.IH[OF rest] made by auto
  qed
qed auto

text \<open>With port 0 requested, all the listeners share the port that is reported back.\<close>

lemma listen_loop_same_port:
  assumes "listen_loop e nt SSH_CHANNEL_RPORT_LISTENER fwd host addr ais (Some a) success ssh =
      Done (ok, Some q, ssh')"
    and "f_listen_port fwd = 0" "s_compat ssh AND SSH_BUG_DYNAMIC_RPORT = 0" "\<And>s. n_local_port nt s > 0"
    and "a \<ge> 0"
  shows "(a > 0 \<longrightarrow> q = a) \<and> added (\<lambda>c. c_listening_port c = q \<and> q > 0) ssh ssh'"
  using assms(1,3,5)
proof (induction ais arbitrary: a success ssh)
  case (Cons ai ais)
  then obtain ok1 alloc1 ssh1 where
    one: "listen_one e nt SSH_CHANNEL_RPORT_LISTENER fwd host addr ai (Some a) ssh = Done (ok1, alloc1, ssh1)"
    and rest: "listen_loop e nt SSH_CHANNEL_RPORT_LISTENER fwd host addr ais alloc1 (success \<or> ok1) ssh1 =
      Done (ok, Some q, ssh')"
    by (auto simp: andThen_Done)
  from one show ?case
  proof (cases rule: listen_oneE)
    case skip
    then show ?thesis using Cons.IH[of a "success \<or> ok1" ssh1] rest Cons.prems
      by (auto simp: added_def)
  next
    case (made i c lport)
    obtain p where p: "alloc1 = Some p" "p > 0" "a > 0 \<longrightarrow> p = a"
      using made(12,13) assms(2,4) Cons.prems(3) by (cases "a = 0") auto
    have cm: "s_compat ssh1 AND SSH_BUG_DYNAMIC_RPORT = 0" using made(10) Cons.prems(2) by simp
    have q: "q = p" "added (\<lambda>c. c_listening_port c = q \<and> q > 0) ssh1 ssh'"
      using Cons.IH[of p "success \<or> ok1" ssh1] rest cm p by auto
    have "c_listening_port c = p" using made(8,11) p assms(2) Cons.prems(2) by simp
    then have "added (\<lambda>c. c_listening_port c = q \<and> q > 0) ssh ssh1"
      using made(2,3,9,10) p q(1) unfolding added_def by (metis not_None_eq option.inject)
    then show ?thesis using q p added_trans by blast
  qed
qed (simp add: added_refl)

lemma setup_tcpip_added:
  assumes "channel_setup_fwd_listener_tcpip e nt ssh type fwd want_port opts = Done (ok, port, ssh')"
  shows "added (\<lambda>c. c_type c = type \<and> c_listening_addr c =
      fst (channel_fwd_bind_addr (s_compat ssh) (f_listen_host fwd) (type = SSH_CHANNEL_PORT_LISTENER) opts))
      ssh ssh'"
    and "ok \<longleftrightarrow> (\<exists>j c. chan ssh j = None \<and> chan ssh' j = Some c)"
proof -
  obtain addr wc told where b: "channel_fwd_bind_addr (s_compat ssh) (f_listen_host fwd)
      (type = SSH_CHANNEL_PORT_LISTENER) opts = (addr, wc, told)" by (metis prod_cases3)
  consider "\<not> ok" "chan ssh' = chan ssh" "s_compat ssh' = s_compat ssh"
    | h ais al where "listen_loop e nt type fwd h addr ais al False
        (if told then emit (Send_debug ''listen address overridden'') ssh else ssh) = Done (ok, port, ssh')"
    using assms unfolding channel_setup_fwd_listener_tcpip_def Let_def b
    by (auto split: if_splits option.splits)
  then have "added (\<lambda>c. c_type c = type \<and> c_listening_addr c = addr) ssh ssh' \<and>
      (ok \<longleftrightarrow> (\<exists>j c. chan ssh j = None \<and> chan ssh' j = Some c))"
  proof cases
    case 1
    then show ?thesis by (auto simp: added_def)
  next
    case (2 h ais al)
    have ch: "chan (if told then emit (Send_debug ''listen address overridden'') ssh else ssh) = chan ssh"
      by simp
    show ?thesis
      using listen_loop_added[OF 2] listen_loop_success[OF 2] unfolding ch
      by (auto simp: added_def split: if_splits)
  qed
  then show "added (\<lambda>c. c_type c = type \<and> c_listening_addr c =
      fst (channel_fwd_bind_addr (s_compat ssh) (f_listen_host fwd) (type = SSH_CHANNEL_PORT_LISTENER) opts))
      ssh ssh'" "ok \<longleftrightarrow> (\<exists>j c. chan ssh j = None \<and> chan ssh' j = Some c)"
    by (simp_all add: b)
qed

lemma listen_one_net:
  "listen_one e (nt\<lparr>n_getaddrinfo := g\<rparr>) type fwd host addr ai alloc ssh =
   listen_one e nt type fwd host addr ai alloc ssh"
proof -
  have "n_getnameinfo (nt\<lparr>n_getaddrinfo := g\<rparr>) = n_getnameinfo nt"
    "n_socket (nt\<lparr>n_getaddrinfo := g\<rparr>) = n_socket nt" "n_bind (nt\<lparr>n_getaddrinfo := g\<rparr>) = n_bind nt"
    "n_listen (nt\<lparr>n_getaddrinfo := g\<rparr>) = n_listen nt"
    "n_local_port (nt\<lparr>n_getaddrinfo := g\<rparr>) = n_local_port nt" by simp_all
  then show ?thesis unfolding listen_one_def by (simp only:)
qed

lemma listen_loop_net:
  "listen_loop e (nt\<lparr>n_getaddrinfo := g\<rparr>) type fwd host addr ais alloc success ssh =
   listen_loop e nt type fwd host addr ais alloc success ssh"
  by (induction ais arbitrary: alloc success ssh)
    (simp_all only: listen_loop.simps listen_one_net case_prod_unfold)

text \<open>The resolver, asked for wildcard addresses, could answer anything: it is not asked.\<close>

definition no_wildcard :: "net \<Rightarrow> net" where
  "no_wildcard nt = nt\<lparr>n_getaddrinfo := (\<lambda>host port wildcard.
      if wildcard then None else n_getaddrinfo nt host port wildcard)\<rparr>"

lemma setup_no_wildcard:
  assumes "fst (snd (channel_fwd_bind_addr (s_compat ssh) (f_listen_host fwd)
      (type = SSH_CHANNEL_PORT_LISTENER) opts)) = False"
  shows "channel_setup_fwd_listener_tcpip e (no_wildcard nt) ssh type fwd want_port opts =
         channel_setup_fwd_listener_tcpip e nt ssh type fwd want_port opts"
proof -
  obtain addr told where b: "channel_fwd_bind_addr (s_compat ssh) (f_listen_host fwd)
      (type = SSH_CHANNEL_PORT_LISTENER) opts = (addr, False, told)"
    using assms by (metis prod.collapse)
  have g: "n_getaddrinfo (no_wildcard nt) a p False = n_getaddrinfo nt a p False" for a p
    by (simp add: no_wildcard_def)
  have l: "listen_loop e (no_wildcard nt) t f h a ais al s x = listen_loop e nt t f h a ais al s x"
    for t f h a ais al s x by (simp add: no_wildcard_def listen_loop_net)
  show ?thesis unfolding channel_setup_fwd_listener_tcpip_def Let_def b prod.case g l ..
qed

lemma setup_remote_no_gateway:
  assumes res: "channel_setup_remote_fwd_listener e nt ssh fwd want_port opts = Done (ok, port, ssh')"
    and gw: "gateway_ports opts = 0" and tcp: "f_listen_path fwd = None"
  shows "added (\<lambda>c. c_type c = SSH_CHANNEL_RPORT_LISTENER \<and>
      c_listening_addr c \<in> {None, Some ''127.0.0.1'', Some ''::1''}) ssh ssh'"
    and "channel_setup_remote_fwd_listener e (no_wildcard nt) ssh fwd want_port opts =
      channel_setup_remote_fwd_listener e nt ssh fwd want_port opts"
proof -
  have b: "fst (channel_fwd_bind_addr (s_compat ssh) (f_listen_host fwd) False opts) \<in>
      {None, Some ''127.0.0.1'', Some ''::1''}"
    and w: "fst (snd (channel_fwd_bind_addr (s_compat ssh) (f_listen_host fwd) False opts)) = False"
    using bind_addr_no_gateway[OF gw, of "s_compat ssh" "f_listen_host fwd"] by auto
  show "added (\<lambda>c. c_type c = SSH_CHANNEL_RPORT_LISTENER \<and>
      c_listening_addr c \<in> {None, Some ''127.0.0.1'', Some ''::1''}) ssh ssh'"
  proof (cases "check_rfwd_permission ssh fwd")
    case True
    with res tcp have "channel_setup_fwd_listener_tcpip e nt ssh SSH_CHANNEL_RPORT_LISTENER fwd
        want_port opts = Done (ok, port, ssh')"
      by (simp add: channel_setup_remote_fwd_listener_def)
    from setup_tcpip_added(1)[OF this] show ?thesis
      by (rule added_mono) (use b in simp)
  next
    case False
    with res show ?thesis by (auto simp: channel_setup_remote_fwd_listener_def added_def)
  qed
  show "channel_setup_remote_fwd_listener e (no_wildcard nt) ssh fwd want_port opts =
      channel_setup_remote_fwd_listener e nt ssh fwd want_port opts"
    using setup_no_wildcard[of ssh fwd SSH_CHANNEL_RPORT_LISTENER opts e nt want_port] w tcp
    by (simp add: channel_setup_remote_fwd_listener_def)
qed

lemma setup_remote_denied:
  assumes "channel_setup_remote_fwd_listener e nt ssh fwd want_port opts = Done (ok, port, ssh')"
    and "\<not> check_rfwd_permission ssh fwd"
  shows "\<not> ok \<and> chan ssh' = chan ssh"
  using assms by (auto simp: channel_setup_remote_fwd_listener_def)

section \<open>Remote forwards: request, use, cancel\<close>

lemma first_idx_Some:
  "first_idx P xs = Some i \<Longrightarrow> i < length xs \<and> P (xs ! i)"
  by (auto simp: first_idx_def find_Some_iff)

lemma first_idx_None: "first_idx P xs = None \<longleftrightarrow> (\<forall>x\<in>set xs. \<not> P x)"
  by (auto simp: first_idx_def find_None_iff all_set_conv_all_nth atLeast0LessThan)

lemma cleared_never_matches:
  "\<not> open_listen_match_tcpip fwd_perm_clear h p t"
  "\<not> open_listen_match_streamlocal fwd_perm_clear q"
  "\<not> open_match fwd_perm_clear hh pp"
  by (simp_all add: open_listen_match_tcpip_def open_listen_match_streamlocal_def open_match_def
      fwd_perm_clear_def)

lemma request_then_connect:
  assumes req: "channel_request_remote_forwarding e True ssh fwd = Done (idx, ssh1)"
    and tcp: "f_listen_path fwd = None" "f_connect_path fwd = None" "f_connect_host fwd = Some target"
    and port: "f_connect_port fwd \<noteq> 0"
    and new: "\<forall>p\<in>set (ps_permitted_user (s_local_perms ssh)).
      \<not> open_listen_match_tcpip p (Some (channel_rfwd_bind_host (f_listen_host fwd))) (f_listen_port fwd) True"
  shows "channel_connect_by_listen_address e nt ssh1
      (Some (channel_rfwd_bind_host (f_listen_host fwd))) (f_listen_port fwd) ctype rname =
    connect_to e nt ssh1 target (f_connect_port fwd) ctype rname"
proof -
  let ?h = "Some (channel_rfwd_bind_host (f_listen_host fwd))"
  let ?perm = "\<lparr>p_host_to_connect = Some target, p_port_to_connect = f_connect_port fwd,
     p_listen_host = f_listen_host fwd, p_listen_path = None, p_listen_port = f_listen_port fwd,
     p_downstream = None\<rparr>"
  have u: "ps_permitted_user (s_local_perms ssh1) = ps_permitted_user (s_local_perms ssh) @ [?perm]"
    using req tcp by (auto simp: channel_request_remote_forwarding_def Let_def permission_set_add_def
        emit_def split: if_splits)
  have m: "open_listen_match_tcpip ?perm ?h (f_listen_port fwd) True"
    by (simp add: open_listen_match_tcpip_def)
  have "List.find (\<lambda>p. open_listen_match_tcpip p ?h (f_listen_port fwd) True)
      (xs @ [?perm]) = Some ?perm"
    if "\<forall>p\<in>set xs. \<not> open_listen_match_tcpip p ?h (f_listen_port fwd) True" for xs
    using that m by (induction xs) auto
  with new u port show ?thesis by (simp add: channel_connect_by_listen_address_def)
qed

text \<open>Whoever connects by listen address was asked for: the entry is in the list.\<close>

lemma connect_by_listen_safe:
  assumes "channel_connect_by_listen_address e nt ssh lh lp ctype rname = Done (Some i, ssh')"
  shows "\<exists>p\<in>set (ps_permitted_user (s_local_perms ssh)). open_listen_match_tcpip p lh lp True"
  using assms by (auto simp: channel_connect_by_listen_address_def find_Some_iff split: option.splits)

lemma cancel_clears:
  assumes res: "channel_request_rforward_cancel_tcpip e ssh host port = Done (r, ssh')"
  shows "if r = 0
    then \<exists>i < length (ps_permitted_user (s_local_perms ssh)).
      open_listen_match_tcpip (ps_permitted_user (s_local_perms ssh) ! i) host port False \<and>
      ps_permitted_user (s_local_perms ssh') =
        (ps_permitted_user (s_local_perms ssh))[i := fwd_perm_clear] \<and>
      s_effects ssh' = s_effects ssh @ [Send (Packet SSH2_MSG_GLOBAL_REQUEST
        [PUT_CSTRING ''cancel-tcpip-forward'', PUT_U8 0, PUT_CSTRING (channel_rfwd_bind_host host),
         PUT_U32 (word_of_int port)])]
    else r = -1 \<and> ssh' = ssh \<and>
      (\<forall>p\<in>set (ps_permitted_user (s_local_perms ssh)). \<not> open_listen_match_tcpip p host port False)"
proof (cases "first_idx (\<lambda>p. open_listen_match_tcpip p host port False)
             (ps_permitted_user (s_local_perms ssh))")
  case None
  with res show ?thesis using first_idx_None[THEN iffD1, OF None]
    by (simp add: channel_request_rforward_cancel_tcpip_def)
next
  case (Some i)
  with res first_idx_Some[OF Some] show ?thesis
    by (auto simp: channel_request_rforward_cancel_tcpip_def Let_def clear_user_perm_def emit_def
        split: if_splits intro!: exI[of _ i])
qed

lemma request_adds:
  assumes "channel_request_remote_forwarding e True ssh fwd = Done (idx, ssh1)"
    and "f_listen_path fwd = None" "f_connect_path fwd = None" "f_connect_host fwd = Some target"
  shows "ps_permitted_user (s_local_perms ssh1) = ps_permitted_user (s_local_perms ssh) @
    [\<lparr>p_host_to_connect = f_connect_host fwd, p_port_to_connect = f_connect_port fwd,
      p_listen_host = f_listen_host fwd, p_listen_path = None, p_listen_port = f_listen_port fwd,
      p_downstream = None\<rparr>]"
  using assms by (auto simp: channel_request_remote_forwarding_def Let_def permission_set_add_def emit_def
      permission_set_get_array.simps split: if_splits)

lemma untranslated_match:
  "open_listen_match_tcpip p h port False \<Longrightarrow>
   open_listen_match_tcpip p (Some (channel_rfwd_bind_host h)) port True"
  by (auto simp: open_listen_match_tcpip_def Let_def split: if_splits)

lemma only_match_cancelled:
  assumes u: "ps_permitted_user (s_local_perms ssh1) = us @
      [\<lparr>p_host_to_connect = f_connect_host fwd, p_port_to_connect = f_connect_port fwd,
        p_listen_host = f_listen_host fwd, p_listen_path = None, p_listen_port = f_listen_port fwd,
        p_downstream = None\<rparr>]" (is "_ = us @ [?p]")
    and target: "f_connect_host fwd = Some target"
    and new: "\<forall>p\<in>set us.
      \<not> open_listen_match_tcpip p (Some (channel_rfwd_bind_host (f_listen_host fwd))) (f_listen_port fwd) True"
    and cancel: "channel_request_rforward_cancel_tcpip e ssh1 (f_listen_host fwd) (f_listen_port fwd) = Done (r, ssh2)"
  shows "r = 0 \<and> length (s_effects ssh2) = Suc (length (s_effects ssh1)) \<and>
    List.find (\<lambda>p. open_listen_match_tcpip p (Some (channel_rfwd_bind_host (f_listen_host fwd)))
      (f_listen_port fwd) True) (ps_permitted_user (s_local_perms ssh2)) = None"
proof -
  have m: "open_listen_match_tcpip ?p (f_listen_host fwd) (f_listen_port fwd) False"
    using target by (simp add: open_listen_match_tcpip_def)
  have "r = 0" using cancel_clears[OF cancel] m u by (auto split: if_splits)
  with cancel_clears[OF cancel] obtain i where i: "i < length (us @ [?p])"
      "open_listen_match_tcpip ((us @ [?p]) ! i) (f_listen_host fwd) (f_listen_port fwd) False"
      "ps_permitted_user (s_local_perms ssh2) = (us @ [?p])[i := fwd_perm_clear]"
      "length (s_effects ssh2) = Suc (length (s_effects ssh1))" by (auto simp: u)
  have "i = length us"
  proof (rule ccontr)
    assume "i \<noteq> length us"
    with i(1) have "i < length us" by simp
    with i(2) have "open_listen_match_tcpip (us ! i) (f_listen_host fwd) (f_listen_port fwd) False"
      by (simp add: nth_append)
    with \<open>i < length us\<close> new untranslated_match show False by (meson nth_mem)
  qed
  with i new \<open>r = 0\<close> show ?thesis by (auto simp: find_None_iff cleared_never_matches)
qed

end
