(* ===== verification/Demo.thy ===== *)
theory Demo
  imports ChanWindow ChanFwd
begin

text \<open>
  Concrete inputs the witnesses of the properties evaluate the model on: an environment in which
  every allocation and every packet succeeds, a filled buffer, an open channel on one socket and a
  table of channels.
\<close>

definition demo_env :: env where
  "demo_env = \<lparr>e_alc = (\<lambda>_. 4096), e_pkt_ok = (\<lambda>_. True), e_monotime = 100, e_isatty = (\<lambda>_. False),
     e_getfl = (\<lambda>_. 0), e_nonblocking = (\<lambda>_. False), e_hidden_tty = (\<lambda>_. False),
     e_arc4random = (\<lambda>_. 0), e_in_filter = (\<lambda>_ _ _. None), e_out_filter = (\<lambda>_ st. (None, st))\<rparr>"

lemma demo_env_simps [simp]:
  "e_alc demo_env = (\<lambda>_. 4096)" "e_pkt_ok demo_env p" "e_monotime demo_env = 100"
  "e_isatty demo_env fd = False"
  by (simp_all add: demo_env_def)

definition demo_buf :: "u8 list \<Rightarrow> sshbuf" where
  "demo_buf bs = \<lparr>b_d = 4096, b_cd = 4096, b_mem = bs, b_off = 0, b_size = word_of_nat (length bs),
     b_max_size = SSHBUF_SIZE_MAX, b_alloc = word_of_nat (length bs), b_readonly = False,
     b_refcount = 1, b_parent = None\<rparr>"

lemma demo_buf_ok [simp]:
  assumes "length bs \<le> 1000"
  shows "sshbuf_inv (demo_buf bs)" "contents (demo_buf bs) = bs" "writable (demo_buf bs)"
    "b_max_size (demo_buf bs) = SSHBUF_SIZE_MAX"
proof -
  have u: "unat (word_of_nat (length bs) :: size_t) = length bs" using assms by (intro unat_of_length) simp
  show "sshbuf_inv (demo_buf bs)" "contents (demo_buf bs) = bs" "writable (demo_buf bs)"
    "b_max_size (demo_buf bs) = SSHBUF_SIZE_MAX"
    using assms by (simp_all add: demo_buf_def inv_iff contents_def writable_def u word_le_nat_alt)
qed

lemma demo_buf_len [simp]: "length bs \<le> 1000 \<Longrightarrow> sshbuf_len (demo_buf bs) = word_of_nat (length bs)"
  by (simp add: demo_buf_def sshbuf_len_def inv_sane[OF demo_buf_ok(1), unfolded demo_buf_def])

lemma demo_reserve:
  "\<exists>d b. sshbuf_reserve (\<lambda>_. 4096) (demo_buf []) 1000 = (Inr d, b)"
  "\<exists>d b. sshbuf_reserve (\<lambda>_. 4096) (demo_buf []) 3 = (Inr d, b)"
  by (simp_all add: demo_buf_def sshbuf_reserve_def sshbuf_allocate_def sshbuf_check_sanity_def
      sshbuf_check_reserve_def sshbuf_maybe_pack_def ROUNDUP_def Let_def)

lemma demo_put: "\<exists>out. sshbuf_put (\<lambda>_. 4096) (demo_buf []) [1, 2, 3] = (Inr (), out)"
proof -
  obtain d b where r: "sshbuf_reserve (\<lambda>_. 4096) (demo_buf []) 3 = (Inr d, b)" using demo_reserve(2) by blast
  have "sshbuf_inv (demo_buf [])" "length [1, 2, 3 :: u8] = unat (3 :: size_t)" by simp_all
  from reserve_write[OF this(1) r this(2)] obtain m where "mem_write (b_mem b) (unat d) [1, 2, 3] = Some m" by blast
  with r show ?thesis by (simp add: sshbuf_put_def reserve_poke_def write_at_def)
qed

definition demo_new :: channel where
  "demo_new = (blank_channel (demo_buf []) (demo_buf []) (demo_buf []))
     \<lparr>c_type := SSH_CHANNEL_OPENING, c_ctype := ''direct-tcpip'', c_rfd := 7, c_wfd := 7, c_efd := -1,
      c_sock := 7, c_local_window := 2097152, c_local_window_max := 2097152, c_local_maxpacket := 32768\<rparr>"

definition demo_open :: channel where
  "demo_open = demo_new\<lparr>c_type := SSH_CHANNEL_OPEN, c_remote_id := 5, c_have_remote_id := True,
     c_remote_window := 1000, c_remote_maxpacket := 100\<rparr>"

definition demo_table :: "channel list \<Rightarrow> ssh" where
  "demo_table cs = (channel_init_channels 0)\<lparr>s_channels := map Some cs @ [None, None]\<rparr>"

lemmas demo_simps = demo_open_def demo_new_def blank_channel_def

lemma demo_bufs_ok [simp]: "bufs_ok demo_new" "bufs_ok demo_open"
  by (simp_all add: bufs_ok_def demo_simps)

lemma demo_fresh: "fresh_channel 0 ''direct-tcpip'' SSH_CHANNEL_OPENING 2097152 32768 demo_new"
  by (simp add: fresh_channel_def) (simp add: demo_simps)

lemma demo_take_data: "\<exists>c'. take_data demo_env demo_open [1, 2, 3] = Some c'"
  using demo_put by (auto simp: take_data_unfold demo_simps win_len_def)

text \<open>A resolver with one address of each family, and sockets that always work.\<close>

definition demo_net :: net where
  "demo_net = \<lparr>n_getaddrinfo = (\<lambda>host port wildcard. Some
       [\<lparr>ai_family = AF_INET6, ai_addr = ''::1'', ai_port = port\<rparr>,
        \<lparr>ai_family = AF_INET, ai_addr = ''127.0.0.1'', ai_port = port\<rparr>]),
     n_getnameinfo = (\<lambda>_. True), n_socket = (\<lambda>_. 9), n_set_nonblock = (\<lambda>_. True),
     n_connect = (\<lambda>_ _. True), n_bind = (\<lambda>_ _. True), n_listen = (\<lambda>_. True),
     n_local_port = (\<lambda>_. 40000), n_unix_listener = (\<lambda>_ _. 9)\<rparr>"

lemma demo_set_max:
  "\<exists>b b1. sshbuf_new (\<lambda>_. 4096) = Some b \<and> sshbuf_set_max_size (\<lambda>_. 4096) b CHAN_INPUT_MAX = (Inr (), b1)"
  by (simp add: sshbuf_new_def sshbuf_set_max_size_def sshbuf_check_sanity_def sshbuf_maybe_pack_def)

lemma demo_channel_new:
  assumes "length (s_channels ssh) \<le> CHANNELS_MAX_CHANNELS"
  shows "\<exists>i ssh'. channel_new demo_env ssh ctype type rfd wfd efd window maxpack eu name nb = Done (i, ssh')"
proof -
  obtain b b1 where "sshbuf_new (\<lambda>_. 4096) = Some b" "sshbuf_set_max_size (\<lambda>_. 4096) b CHAN_INPUT_MAX = (Inr (), b1)"
    using demo_set_max by blast
  then show ?thesis using assms by (simp add: channel_new_def Let_def)
qed

lemma demo_connect_to:
  assumes "length (s_channels ssh) \<le> CHANNELS_MAX_CHANNELS" "port \<noteq> PORT_STREAMLOCAL"
  shows "\<exists>i ssh'. connect_to demo_env demo_net ssh host port ctype rname = Done (Some i, ssh')"
proof -
  have h: "\<exists>cctx. connect_to_helper demo_env demo_net host port = Done (Connected 9 cctx [])"
    using assms(2) by (simp add: connect_to_helper_def demo_net_def andThen_Done)
  then obtain cctx where h: "connect_to_helper demo_env demo_net host port = Done (Connected 9 cctx [])" ..
  have "length (s_channels (ssh\<lparr>s_effects := s_effects ssh @ []\<rparr>)) \<le> CHANNELS_MAX_CHANNELS" using assms(1) by simp
  from demo_channel_new[OF this] obtain i s1 where
    n: "channel_new demo_env (ssh\<lparr>s_effects := s_effects ssh @ []\<rparr>) ctype SSH_CHANNEL_CONNECTING
       9 9 (-1) CHAN_TCP_WINDOW_DEFAULT CHAN_TCP_PACKET_DEFAULT CHAN_EXTENDED_IGNORE rname
       CHANNEL_NONBLOCK_SET = Done (i, s1)" by blast
  from channel_new_chan[OF n] have "chan s1 i \<noteq> None" by auto
  then have "s_channels s1 ! i \<noteq> None" by (auto simp: chan_def split: if_splits)
  with h n show ?thesis by (auto simp: connect_to_def)
qed

end
