(* ===== verification/CloseProps.thy ===== *)
theory CloseProps
  imports Demo
begin

text \<open>Properties of the life of a channel: the messages that close it, and what closing achieves.\<close>

section \<open>The close protocol\<close>

text \<open>
  C16: From the moment a channel is confirmed open, whatever events it goes through in whatever
  order, it sends EOF at most once and CLOSE at most once, EOF first; after EOF its input is closed
  and after CLOSE both its directions are.
\<close>

theorem close_protocol:
  assumes "fresh_channel i ctype type window maxpack c"
    and "(chan_step e cm)\<^sup>*\<^sup>* (c\<lparr>c_type := SSH_CHANNEL_OPEN, c_remote_id := rid, c_have_remote_id := True,
           c_remote_window := w, c_remote_maxpacket := mp\<rparr>, []) st"
  shows "close_msgs (snd st) \<in> {[], [SSH2_MSG_CHANNEL_EOF], [SSH2_MSG_CHANNEL_CLOSE],
      [SSH2_MSG_CHANNEL_EOF, SSH2_MSG_CHANNEL_CLOSE]} \<and>
    (SSH2_MSG_CHANNEL_EOF \<in> set (close_msgs (snd st)) \<longrightarrow> c_istate (fst st) = CHAN_INPUT_CLOSED) \<and>
    (SSH2_MSG_CHANNEL_CLOSE \<in> set (close_msgs (snd st)) \<longrightarrow>
       c_istate (fst st) = CHAN_INPUT_CLOSED \<and> c_ostate (fst st) = CHAN_OUTPUT_CLOSED)"
proof -
  have "close_inv (c\<lparr>c_type := SSH_CHANNEL_OPEN, c_remote_id := rid, c_have_remote_id := True,
           c_remote_window := w, c_remote_maxpacket := mp\<rparr>, [])"
    using assms(1) by (simp add: fresh_channel_def close_inv_def said_def)
  with steps_advance[OF assms(2)] have "close_inv st" by (simp add: advances_def)
  then show ?thesis by (auto simp: close_inv_def said_def split: if_splits)
qed

definition demo_closing :: chan_st where
  "demo_closing = (demo_open\<lparr>c_istate := CHAN_INPUT_CLOSED, c_flags := CHAN_EOF_SENT\<rparr>,
     [Shutdown_rd 7, Send (Packet SSH2_MSG_CHANNEL_EOF [PUT_U32 5])])"

lemma demo_closing_step: "(chan_step demo_env 0)\<^sup>*\<^sup>* (demo_open, []) demo_closing"
proof -
  let ?st = "(demo_open\<lparr>c_istate := CHAN_INPUT_WAIT_DRAIN\<rparr>, [Shutdown_rd 7])"
  have "apply_event demo_env 0 Read_failed (demo_open, []) = Done ?st"
    by (simp add: chan_read_failed_def chan_shutdown_read_def chan_set_istate_def demo_simps)
  moreover have "apply_event demo_env 0 Ibuf_empty ?st = Done demo_closing"
    by (simp add: chan_ibuf_empty_def chan_send_eof2_def chan_set_istate_def send_pkt_def set_flag_def
        andThen_Done demo_closing_def demo_simps Let_def)
  ultimately show ?thesis
    by (meson chan_step.intros converse_rtranclp_into_rtranclp rtranclp.rtrancl_refl)
qed

theorem close_protocol_witness:
  "close_msgs (snd demo_closing) = [SSH2_MSG_CHANNEL_EOF] \<and> c_istate (fst demo_closing) = CHAN_INPUT_CLOSED"
proof -
  have "(chan_step demo_env 0)\<^sup>*\<^sup>* (demo_new\<lparr>c_type := SSH_CHANNEL_OPEN, c_remote_id := 5, c_have_remote_id := True,
           c_remote_window := 1000, c_remote_maxpacket := 100\<rparr>, []) demo_closing"
    using demo_closing_step by (simp add: demo_open_def)
  from close_protocol[OF demo_fresh this] show ?thesis by (simp add: demo_closing_def)
qed

text \<open>
  No sequence of events takes a direction of a channel back to an earlier state: a closed input
  or output stays closed.
\<close>

theorem never_reopens:
  assumes "(chan_step e cm)\<^sup>*\<^sup>* st st'"
  shows "irank (c_istate (fst st)) \<le> irank (c_istate (fst st')) \<and>
    orank (c_ostate (fst st)) \<le> orank (c_ostate (fst st')) \<and>
    (c_istate (fst st) = CHAN_INPUT_CLOSED \<longrightarrow> c_istate (fst st') = CHAN_INPUT_CLOSED) \<and>
    (c_ostate (fst st) = CHAN_OUTPUT_CLOSED \<longrightarrow> c_ostate (fst st') = CHAN_OUTPUT_CLOSED)"
proof -
  have "irank (c_istate (fst st)) \<le> irank (c_istate (fst st'))" "orank (c_ostate (fst st)) \<le> orank (c_ostate (fst st'))"
    using steps_advance[OF assms] by (simp_all add: advances_def)
  then show ?thesis by (cases "c_istate (fst st')"; cases "c_ostate (fst st')"; auto)
qed

theorem never_reopens_witness:
  "irank (c_istate (fst (demo_open, [] :: eff list))) \<le> irank (c_istate (fst demo_closing))"
  using never_reopens[OF demo_closing_step] by simp

text \<open>
  An open channel whose output has been written answers the peer's CLOSE: one call each of the
  handlers for the CLOSE, the empty output and the garbage collection, none of which fails, and the
  channel is dead and has sent its own CLOSE.
\<close>

theorem close_is_answered:
  assumes "close_inv st" "c_have_remote_id (fst st)" "\<And>p. e_pkt_ok e p"
    and "c_type (fst st) = SSH_CHANNEL_OPEN" "c_flags (fst st) AND CHAN_LOCAL = 0"
    and "cm AND SSH_BUG_EXTEOF = 0" "sshbuf_len (c_output (fst st)) = 0"
  shows "\<exists>st1 st2. chan_rcvd_oclose e st = Done st1 \<and>
    chan_is_dead e cm True (chan_obuf_empty e st1) = Done (True, st2) \<and>
    c_flags (fst st2) AND CHAN_CLOSE_SENT \<noteq> 0"
  using close_handshake[OF assms(1-3) _ _ assms(5-7)] assms(4) by simp

theorem close_is_answered_witness:
  "\<exists>st1 st2. chan_rcvd_oclose demo_env demo_closing = Done st1 \<and>
    chan_is_dead demo_env 0 True (chan_obuf_empty demo_env st1) = Done (True, st2) \<and>
    c_flags (fst st2) AND CHAN_CLOSE_SENT \<noteq> 0"
  by (rule close_is_answered)
    (simp_all add: close_inv_def said_def demo_closing_def demo_simps)

text \<open>
  Garbage collection never releases a channel before the protocol is done: a channel that is
  not marked dead, asked with the permission to send, is found dead exactly when both directions are
  closed and the peer's CLOSE has arrived, and its own CLOSE has been sent by then.
\<close>

theorem dead_only_after_close:
  assumes "chan_is_dead e cm True st = Done (b, st')"
    and "c_type (fst st) \<noteq> SSH_CHANNEL_ZOMBIE" "c_flags (fst st) AND CHAN_LOCAL = 0"
    and "cm AND SSH_BUG_EXTEOF = 0"
  shows "(b \<longleftrightarrow> c_istate (fst st) = CHAN_INPUT_CLOSED \<and> c_ostate (fst st) = CHAN_OUTPUT_CLOSED \<and>
            c_flags (fst st) AND CHAN_CLOSE_RCVD \<noteq> 0) \<and>
         (b \<longrightarrow> c_flags (fst st') AND CHAN_CLOSE_SENT \<noteq> 0)"
  using is_dead_iff[OF assms] by blast

theorem dead_only_after_close_witness:
  "\<exists>b st'. chan_is_dead demo_env 0 True demo_closing = Done (b, st') \<and> \<not> b"
proof -
  have "chan_is_dead demo_env 0 True demo_closing = Done (False, demo_closing)"
    by (subst chan_is_dead_def) (simp add: demo_closing_def demo_simps Let_def)
  then obtain b st' where r: "chan_is_dead demo_env 0 True demo_closing = Done (b, st')" by blast
  have "c_ostate (fst demo_closing) = CHAN_OUTPUT_OPEN" "c_type (fst demo_closing) = SSH_CHANNEL_OPEN"
    "c_flags (fst demo_closing) = CHAN_EOF_SENT" by (simp_all add: demo_closing_def demo_simps)
  with dead_only_after_close[OF r] have "\<not> b" by simp
  with r show ?thesis by blast
qed

text \<open>
  A forced close (the inactivity timeout, an administrator) closes both directions and the
  extended descriptor and disarms the timeout, whatever the state it finds.
\<close>

theorem force_close_is_final:
  assumes "channel_force_close e cm abandon st = Done st'" "close_inv st" "bufs_ok (fst st)"
  shows "c_istate (fst st') = CHAN_INPUT_CLOSED \<and> c_ostate (fst st') = CHAN_OUTPUT_CLOSED \<and>
    c_efd (fst st') = -1 \<and> c_inactive_deadline (fst st') = 0 \<and>
    (abandon \<longrightarrow> c_type (fst st') = SSH_CHANNEL_ABANDONED)"
proof -
  have "abandon \<Longrightarrow> c_type (fst st') = SSH_CHANNEL_ABANDONED"
    using assms(1) by (auto simp: channel_force_close_def andThen_Done Let_def)
  with force_close_closes[OF assms] show ?thesis by simp
qed

theorem force_close_is_final_witness:
  "\<exists>st'. channel_force_close demo_env 0 True (demo_open, []) = Done st' \<and>
     c_istate (fst st') = CHAN_INPUT_CLOSED \<and> c_type (fst st') = SSH_CHANNEL_ABANDONED"
proof -
  have l: "sshbuf_len (sshbuf_reset alc (demo_buf [])) = 0" for alc
    by (rule reset_len) simp_all
  have "\<exists>st'. channel_force_close demo_env 0 True (demo_open, []) = Done st'"
    by (simp add: channel_force_close_def chan_read_failed_def chan_shutdown_read_def chan_set_istate_def
        chan_ibuf_empty_def chan_send_eof2_def send_pkt_def set_flag_def andThen_Done chan_write_failed_def
        chan_shutdown_write_def chan_set_ostate_def demo_simps l Let_def)
  then obtain st' where r: "channel_force_close demo_env 0 True (demo_open, []) = Done st'" ..
  from force_close_is_final[OF r] r show ?thesis
    by (simp add: close_inv_def said_def) (simp add: demo_simps)
qed

end
