(* ===== verification/HostPort.thy ===== *)
theory HostPort
  imports ChanPerm
begin

text \<open>
  The \<open>host:port\<close> strings of \<open>PermitOpen\<close>, \<open>PermitListen\<close> and of the key options, split by
  \<open>hpdelim2\<close>, \<open>hpdelim\<close> and \<open>cleanhostname\<close> of \<open>misc.c\<close>, and the quoted values and directives of
  \<open>auth-options.c\<close> that carry them. C strings are lists without a NUL.
\<close>

section \<open>Splitting\<close>

text \<open>
  \<open>hpdelim2\<close>: \<open>None\<close> for the null pointer; otherwise the field, where \<open>*cp\<close> points afterwards
  (\<open>None\<close> when it is set to null) and the delimiter found.
\<close>

definition hp_finish :: "string \<Rightarrow> string \<Rightarrow> (string \<times> string option \<times> char option) option" where
  "hp_finish field rest =
     (case rest of
        [] \<Rightarrow> Some (field, None, None)
      | d # r \<Rightarrow> if d = CHR '':'' \<or> d = CHR ''/'' then Some (field, Some r, Some d) else None)"

definition hpdelim2 :: "string \<Rightarrow> (string \<times> string option \<times> char option) option" where
  "hpdelim2 cp =
     (if cp \<noteq> [] \<and> hd cp = CHR ''['' then
        if CHR '']'' \<notin> set cp then None
        else let n = length (takeWhile (\<lambda>c. c \<noteq> CHR '']'') cp) + 1 in hp_finish (take n cp) (drop n cp)
      else
        let field = takeWhile (\<lambda>c. c \<noteq> CHR '':'' \<and> c \<noteq> CHR ''/'') cp
        in hp_finish field (drop (length field) cp))"

definition hpdelim :: "string \<Rightarrow> (string \<times> string option) option" where
  "hpdelim cp =
     (case hpdelim2 cp of
        None \<Rightarrow> None
      | Some (r, rest, delim) \<Rightarrow> if delim = Some CHR ''/'' then None else Some (r, rest))"

definition cleanhostname :: "string \<Rightarrow> string" where
  "cleanhostname host =
     (if host \<noteq> [] \<and> hd host = CHR ''['' \<and> last host = CHR '']'' then tl (butlast host) else host)"

section \<open>Directives of key options\<close>

text \<open>\<open>opt_dequote\<close>: the value between the quotes and what follows, or the error.\<close>

fun dequote_body :: "string \<Rightarrow> (string \<times> string) option" where
  "dequote_body [] = None"
| "dequote_body (c # s) =
     (if c = CHR 0x22 then Some ([], s)
      else if c = CHR 0x5C \<and> s \<noteq> [] \<and> hd s = CHR 0x22
      then map_option (\<lambda>(r, rest). (CHR 0x22 # r, rest)) (dequote_body (tl s))
      else map_option (\<lambda>(r, rest). (c # r, rest)) (dequote_body s))"

definition opt_dequote :: "string \<Rightarrow> string + string \<times> string" where
  "opt_dequote sp =
     (if sp = [] \<or> hd sp \<noteq> CHR 0x22 then Inl ''missing start quote''
      else case dequote_body (tl sp) of
             None \<Rightarrow> Inl ''missing end quote''
           | Some p \<Rightarrow> Inr p)"

abbreviation SSH_AUTHOPT_PERMIT_MAX :: nat where "SSH_AUTHOPT_PERMIT_MAX \<equiv> 4096"
abbreviation NI_MAXHOST_AUTH :: nat where "NI_MAXHOST_AUTH \<equiv> 1025"

text \<open>
  \<open>handle_permit\<close>: one \<open>permitopen\<close> or \<open>permitlisten\<close> directive; the list with the entry recorded
  and what follows the value, or the error. Memory does not run out here.
\<close>

definition permit_value_ok :: "(string \<Rightarrow> int option) \<Rightarrow> string \<Rightarrow> string + unit" where
  "permit_value_ok getservbyname opt =
     (case hpdelim2 opt of
        None \<Rightarrow> Inl ''invalid permission hostname''
      | Some (host, cp, delim) \<Rightarrow>
        if length host \<ge> NI_MAXHOST_AUTH then Inl ''invalid permission hostname''
        else (case cp of
                None \<Rightarrow> Inl ''invalid permission port''
              | Some p \<Rightarrow> if p \<noteq> ''*'' \<and> a2port getservbyname p \<le> 0 then Inl ''invalid permission port''
                          else Inr ()))"

definition handle_permit ::
    "(string \<Rightarrow> int option) \<Rightarrow> string \<Rightarrow> bool \<Rightarrow> string list \<Rightarrow> string + string list \<times> string" where
  "handle_permit getservbyname opts allow_bare_port permits =
     (if length permits > SSH_AUTHOPT_PERMIT_MAX then Inl ''too many permission directives''
      else case opt_dequote opts of
             Inl err \<Rightarrow> Inl err
           | Inr (opt, rest) \<Rightarrow>
             let opt1 = (if allow_bare_port \<and> CHR '':'' \<notin> set opt then ''*:'' @ opt else opt)
             in case permit_value_ok getservbyname opt1 of
                  Inl err \<Rightarrow> Inl err
                | Inr _ \<Rightarrow> Inr (permits @ [opt1], rest))"

section \<open>What the splitting gives back\<close>

lemma hpdelim2_plain:
  assumes "CHR '':'' \<notin> set host" "CHR ''/'' \<notin> set host" "host = [] \<or> hd host \<noteq> CHR ''[''"
  shows "hpdelim2 (host @ CHR '':'' # rest) = Some (host, Some rest, Some CHR '':'')"
proof -
  have h: "takeWhile (\<lambda>c. c \<noteq> CHR '':'' \<and> c \<noteq> CHR ''/'') (host @ CHR '':'' # rest) = host"
    using assms by (subst takeWhile_append2) auto
  have "\<not> (host @ CHR '':'' # rest \<noteq> [] \<and> hd (host @ CHR '':'' # rest) = CHR ''['')"
    using assms(3) by (cases host) auto
  then show ?thesis using h by (simp add: hpdelim2_def hp_finish_def Let_def)
qed

lemma hpdelim2_bracketed:
  assumes "CHR '']'' \<notin> set host"
  shows "hpdelim2 (CHR ''['' # host @ CHR '']'' # CHR '':'' # rest) =
      Some (CHR ''['' # host @ '']'', Some rest, Some CHR '':'')"
proof -
  let ?s = "CHR ''['' # host @ CHR '']'' # CHR '':'' # rest"
  have "takeWhile (\<lambda>c. c \<noteq> CHR '']'') ?s = CHR ''['' # host"
    using assms by (simp, subst takeWhile_append2) auto
  then show ?thesis by (simp add: hpdelim2_def hp_finish_def Let_def)
qed

lemma cleanhostname_bracketed: "cleanhostname (CHR ''['' # host @ '']'') = host"
  by (simp add: cleanhostname_def butlast_append)

lemma cleanhostname_plain: "host = [] \<or> hd host \<noteq> CHR ''['' \<Longrightarrow> cleanhostname host = host"
  by (auto simp: cleanhostname_def)

fun quoted :: "string \<Rightarrow> string" where
  "quoted [] = [CHR 0x22]"
| "quoted (c # s) = (if c = CHR 0x22 then CHR 0x5C # CHR 0x22 # quoted s else c # quoted s)"

text \<open>A value written with its quotes escaped is read back, if it does not end in a backslash run.\<close>

lemma dequote_quoted:
  "CHR 0x5C \<notin> set s \<Longrightarrow> dequote_body (quoted s @ rest) = Some (s, rest)"
  by (induction s) (auto simp: hd_append)

lemma permit_value_port:
  assumes "permit_value_ok gs opt = Inr ()"
  obtains host p d where "hpdelim2 opt = Some (host, Some p, d)" "permitopen_port gs p \<ge> 0"
  using assms
  by (auto simp: permit_value_ok_def permitopen_port_def Let_def split: option.splits if_splits prod.splits)

end
