(* ===== verification/FwdPolicy.thy ===== *)
theory FwdPolicy
  imports HostPort
begin

text \<open>
  How the server turns its configuration and the options of the key into the permission lists of
  the channel layer: \<open>process_permitopen\<close> of \<open>servconf.c\<close>, \<open>set_fwdpermit_from_authopts\<close> and the
  start of \<open>do_authenticated\<close> of \<open>session.c\<close>. \<open>fwd_setup\<close> is the order the server runs them in.
\<close>

section \<open>Configuration\<close>

record server_options =
  o_allow_tcp_forwarding :: u32
  o_disable_forwarding :: bool
  o_permitted_opens :: "string list"
  o_permitted_listens :: "string list"

record fwd_authopts =
  a_permit_port_forwarding_flag :: bool
  a_permitopen :: "string list"
  a_permitlisten :: "string list"

definition bit_of :: "fwd_where \<Rightarrow> u32" where
  "bit_of whr = (case whr of FORWARD_REMOTE \<Rightarrow> 1 | FORWARD_LOCAL \<Rightarrow> 2)"

definition allows :: "server_options \<Rightarrow> fwd_where \<Rightarrow> bool" where
  "allows opts whr \<longleftrightarrow> o_allow_tcp_forwarding opts AND bit_of whr \<noteq> 0"

text \<open>
  One \<open>host:port\<close> entry, split by \<open>hpdelim\<close> or, for the key's \<open>permitopen\<close>, by \<open>hpdelim2\<close>;
  \<open>None\<close> is a fatal error.
\<close>

definition split2 :: "string \<Rightarrow> (string \<times> string option) option" where
  "split2 s = map_option (\<lambda>(h, rest, d). (h, rest)) (hpdelim2 s)"

definition permit_entry ::
    "(string \<Rightarrow> int option) \<Rightarrow> (string \<Rightarrow> (string \<times> string option) option) \<Rightarrow> string \<Rightarrow> (string \<times> int) option" where
  "permit_entry getservbyname splitf s =
     (case splitf s of
        None \<Rightarrow> None
      | Some (host, arg) \<Rightarrow>
        (case arg of
           None \<Rightarrow> None
         | Some p \<Rightarrow> let port = permitopen_port getservbyname p in
             if port < 0 then None else Some (cleanhostname host, port)))"

fun add_entries ::
    "(string \<Rightarrow> (string \<times> int) option) \<Rightarrow> fwd_who \<Rightarrow> fwd_where \<Rightarrow> string list \<Rightarrow> ssh \<Rightarrow> ssh run" where
  "add_entries entry who whr [] ssh = Done ssh"
| "add_entries entry who whr (s # ss) ssh =
     (case entry s of
        None \<Rightarrow> Fatal
      | Some (host, port) \<Rightarrow>
        andThen (channel_add_permission ssh who whr host port) (add_entries entry who whr ss))"

definition process_permitopen_list ::
    "(string \<Rightarrow> int option) \<Rightarrow> ssh \<Rightarrow> fwd_where \<Rightarrow> string list \<Rightarrow> ssh run" where
  "process_permitopen_list getservbyname ssh whr opens =
     (let ssh1 = channel_clear_permission ssh FORWARD_ADM whr in
      if length opens = 0 then Done ssh1
      else if length opens = 1 \<and> opens ! 0 = ''any'' then Done ssh1
      else if length opens = 1 \<and> opens ! 0 = ''none'' then channel_disable_admin ssh1 whr
      else add_entries (permit_entry getservbyname hpdelim) FORWARD_ADM whr opens ssh1)"

definition process_permitopen :: "(string \<Rightarrow> int option) \<Rightarrow> ssh \<Rightarrow> server_options \<Rightarrow> ssh run" where
  "process_permitopen getservbyname ssh opts =
     andThen (process_permitopen_list getservbyname ssh FORWARD_LOCAL (o_permitted_opens opts))
       (\<lambda>ssh1. process_permitopen_list getservbyname ssh1 FORWARD_REMOTE (o_permitted_listens opts))"

definition set_fwdpermit_from_authopts ::
    "(string \<Rightarrow> int option) \<Rightarrow> server_options \<Rightarrow> ssh \<Rightarrow> fwd_authopts \<Rightarrow> ssh run" where
  "set_fwdpermit_from_authopts getservbyname opts ssh auth_opts =
     andThen (if allows opts FORWARD_LOCAL
              then add_entries (permit_entry getservbyname split2) FORWARD_USER FORWARD_LOCAL
                     (a_permitopen auth_opts) (channel_clear_permission ssh FORWARD_USER FORWARD_LOCAL)
              else Done ssh)
       (\<lambda>ssh1. if allows opts FORWARD_REMOTE
              then add_entries (permit_entry getservbyname hpdelim) FORWARD_USER FORWARD_REMOTE
                     (a_permitlisten auth_opts) (channel_clear_permission ssh1 FORWARD_USER FORWARD_REMOTE)
              else Done ssh1)"

definition enable_or_disable :: "server_options \<Rightarrow> fwd_where \<Rightarrow> ssh \<Rightarrow> ssh run" where
  "enable_or_disable opts whr ssh =
     (if allows opts whr then Done (channel_permit_all ssh whr) else channel_disable_admin ssh whr)"

text \<open>The part of \<open>do_authenticated\<close> before the session runs.\<close>

definition do_authenticated_fwd ::
    "(string \<Rightarrow> int option) \<Rightarrow> server_options \<Rightarrow> ssh \<Rightarrow> fwd_authopts \<Rightarrow> ssh run" where
  "do_authenticated_fwd getservbyname opts ssh auth_opts =
     andThen (set_fwdpermit_from_authopts getservbyname opts ssh auth_opts)
       (\<lambda>ssh1.
         if \<not> a_permit_port_forwarding_flag auth_opts \<or> o_disable_forwarding opts
         then andThen (channel_disable_admin ssh1 FORWARD_LOCAL)
                (\<lambda>ssh2. channel_disable_admin ssh2 FORWARD_REMOTE)
         else andThen (enable_or_disable opts FORWARD_LOCAL ssh1) (enable_or_disable opts FORWARD_REMOTE))"

definition fwd_setup ::
    "(string \<Rightarrow> int option) \<Rightarrow> server_options \<Rightarrow> fwd_authopts \<Rightarrow> ssh \<Rightarrow> ssh run" where
  "fwd_setup getservbyname opts auth_opts ssh =
     andThen (process_permitopen getservbyname ssh opts)
       (\<lambda>ssh1. do_authenticated_fwd getservbyname opts ssh1 auth_opts)"

section \<open>What the configuration means\<close>

text \<open>A destination is allowed by an entry that names it, or names any host or any port.\<close>

definition entry_allows :: "string \<times> int \<Rightarrow> string \<Rightarrow> int \<Rightarrow> bool" where
  "entry_allows en host port \<longleftrightarrow>
     fst en \<in> {FWD_PERMIT_ANY_HOST, host} \<and> snd en \<in> {FWD_PERMIT_ANY_PORT, port}"

definition list_allows :: "(string \<Rightarrow> (string \<times> int) option) \<Rightarrow> string list \<Rightarrow> string \<Rightarrow> int \<Rightarrow> bool" where
  "list_allows entry ss host port \<longleftrightarrow> (\<exists>s\<in>set ss. \<exists>en. entry s = Some en \<and> entry_allows en host port)"

text \<open>A listen request: the entry's host is a pattern for the name in lower case.\<close>

definition listen_entry_allows :: "string \<times> int \<Rightarrow> string \<Rightarrow> int \<Rightarrow> bool" where
  "listen_entry_allows en host port \<longleftrightarrow>
     snd en \<in> {FWD_PERMIT_ANY_PORT, port} \<and> glob (fst en) (lowercase host)"

definition listens_allow :: "(string \<Rightarrow> int option) \<Rightarrow> string list \<Rightarrow> string \<Rightarrow> int \<Rightarrow> bool" where
  "listens_allow gs ss host port \<longleftrightarrow>
     (\<exists>s\<in>set ss. \<exists>en. permit_entry gs hpdelim s = Some en \<and> listen_entry_allows en host port)"

text \<open>The server's list: nothing said or \<open>any\<close> allows all, \<open>none\<close> nothing.\<close>

definition config_allows :: "(string \<Rightarrow> int option) \<Rightarrow> string list \<Rightarrow> string \<Rightarrow> int \<Rightarrow> bool" where
  "config_allows gs opens host port \<longleftrightarrow>
     opens = [] \<or> opens = [''any''] \<or>
     (opens \<noteq> [''none''] \<and> list_allows (permit_entry gs hpdelim) opens host port)"

definition local_perm :: "string \<times> int \<Rightarrow> permission" where
  "local_perm en = \<lparr>p_host_to_connect = Some (fst en), p_port_to_connect = snd en, p_listen_host = None,
     p_listen_path = None, p_listen_port = 0, p_downstream = None\<rparr>"

definition remote_perm :: "string \<times> int \<Rightarrow> permission" where
  "remote_perm en = \<lparr>p_host_to_connect = None, p_port_to_connect = 0, p_listen_host = Some (fst en),
     p_listen_path = None, p_listen_port = snd en, p_downstream = None\<rparr>"

definition perm_of :: "fwd_where \<Rightarrow> string \<times> int \<Rightarrow> permission" where
  "perm_of whr = (case whr of FORWARD_LOCAL \<Rightarrow> local_perm | FORWARD_REMOTE \<Rightarrow> remote_perm)"

lemma open_match_local: "open_match (local_perm en) host port = entry_allows en host port"
  by (auto simp: open_match_iff local_perm_def entry_allows_def)

lemma remote_open_match_listen:
  "f_listen_path fwd = None \<Longrightarrow> f_listen_host fwd = Some host \<Longrightarrow>
   remote_open_match (remote_perm en) fwd = listen_entry_allows en host (f_listen_port fwd)"
  by (auto simp: remote_perm_def remote_open_match_def listen_entry_allows_def match_glob(1))

abbreviation perms :: "ssh \<Rightarrow> fwd_where \<Rightarrow> fwd_who \<Rightarrow> permission list" where
  "perms ssh whr who \<equiv> permission_set_get_array (permission_set_get ssh whr) who"

abbreviation all_ok :: "ssh \<Rightarrow> fwd_where \<Rightarrow> bool" where
  "all_ok ssh whr \<equiv> ps_all_permitted (permission_set_get ssh whr)"

lemma add_entries_Cons:
  assumes "add_entries entry who whr (s # ss) ssh = Done ssh'"
  shows "\<exists>host port s1. entry s = Some (host, port) \<and>
    channel_add_permission ssh who whr host port = Done s1 \<and> add_entries entry who whr ss s1 = Done ssh'"
  using assms by (auto simp: andThen_Done split: option.splits)

lemma add_entries_result:
  assumes "add_entries entry who whr ss ssh = Done ssh'"
  shows "\<exists>ens. map entry ss = map Some ens \<and>
      perms ssh' whr who = perms ssh whr who @ map (perm_of whr) ens"
    and "\<And>w a. w \<noteq> whr \<or> a \<noteq> who \<Longrightarrow> perms ssh' w a = perms ssh w a"
    and "\<And>w. all_ok ssh' w = (all_ok ssh w \<and> (w \<noteq> whr \<or> ss = []))"
  using assms
proof (induction ss arbitrary: ssh)
  case Nil
  { case 1 then show ?case by (intro exI[of _ "[]"]) simp }
  { case 2 then show ?case by simp }
  { case 3 then show ?case by simp }
next
  case (Cons s ss)
  { case 1
    from add_entries_Cons[OF 1] obtain host port s1 where s1: "entry s = Some (host, port)"
      "channel_add_permission ssh who whr host port = Done s1" "add_entries entry who whr ss s1 = Done ssh'"
      by blast
    from Cons(1)[OF s1(3)] obtain ens where ens: "map entry ss = map Some ens"
      "perms ssh' whr who = perms s1 whr who @ map (perm_of whr) ens" by blast
    have "perms s1 whr who = perms ssh whr who @ [perm_of whr (host, port)]"
      using add_permission_result(1)[OF s1(2), of whr who]
      by (cases whr) (simp_all add: perm_of_def local_perm_def remote_perm_def)
    with ens s1(1) show ?case by (intro exI[of _ "(host, port) # ens"]) simp }
  { case 2
    from add_entries_Cons[OF 2(2)] obtain host port s1 where s1: "channel_add_permission ssh who whr host port = Done s1"
      "add_entries entry who whr ss s1 = Done ssh'" by blast
    from Cons(2)[OF 2(1) s1(2)] add_permission_result(1)[OF s1(1), of w a] 2(1) show ?case by auto }
  { case 3
    from add_entries_Cons[OF 3] obtain host port s1 where s1: "channel_add_permission ssh who whr host port = Done s1"
      "add_entries entry who whr ss s1 = Done ssh'" by blast
    from Cons(3)[OF s1(2), of w] add_permission_result(2)[OF s1(1), of w] show ?case by auto }
qed


definition same_perms :: "fwd_where \<Rightarrow> ssh \<Rightarrow> ssh \<Rightarrow> bool" where
  "same_perms w ssh ssh' \<longleftrightarrow> (\<forall>a. perms ssh' w a = perms ssh w a) \<and> all_ok ssh' w = all_ok ssh w"

declare permission_set_get_array.simps [simp del]

lemma clear_perms:
  "perms (channel_clear_permission ssh who whr) w a = (if w = whr \<and> a = who then [] else perms ssh w a)"
  "all_ok (channel_clear_permission ssh who whr) w = all_ok ssh w"
  by (simp_all add: channel_clear_permission_def)

lemma disable_perms:
  assumes "channel_disable_admin ssh whr = Done ssh'"
  shows "perms ssh' whr FORWARD_ADM = [fwd_perm_clear]" "w \<noteq> whr \<Longrightarrow> same_perms w ssh ssh'"
    "perms ssh' whr FORWARD_USER = perms ssh whr FORWARD_USER"
proof -
  from assms obtain n where n: "permission_set_add (channel_clear_permission ssh FORWARD_ADM whr)
      FORWARD_ADM whr None 0 None None 0 None = Done (n, ssh')"
    by (auto simp: channel_disable_admin_def andThen_Done)
  show "perms ssh' whr FORWARD_ADM = [fwd_perm_clear]" "perms ssh' whr FORWARD_USER = perms ssh whr FORWARD_USER"
    using permission_set_add_result(2)[OF n, of whr] by (simp_all add: clear_perms fwd_perm_clear_def)
  show "w \<noteq> whr \<Longrightarrow> same_perms w ssh ssh'"
    using disable_admin_result(2)[OF assms] by (simp add: same_perms_def)
qed

text \<open>
  Whether a request is granted: the user's list, unless all is permitted, and the administrator's,
  if there is one; \<open>M\<close> tells which entries match the request.
\<close>

definition granted :: "ssh \<Rightarrow> fwd_where \<Rightarrow> (permission \<Rightarrow> bool) \<Rightarrow> bool" where
  "granted ssh whr M \<longleftrightarrow>
     (all_ok ssh whr \<or> (\<exists>p\<in>set (perms ssh whr FORWARD_USER). M p)) \<and>
     (perms ssh whr FORWARD_ADM = [] \<or> (\<exists>p\<in>set (perms ssh whr FORWARD_ADM). M p))"

lemma connect_granted: "connect_permitted ssh host port = granted ssh FORWARD_LOCAL (\<lambda>p. open_match p host port)"
  by (simp add: connect_permitted_iff granted_def permission_set_get_array.simps)

lemma rfwd_granted: "check_rfwd_permission ssh fwd = granted ssh FORWARD_REMOTE (\<lambda>p. remote_open_match p fwd)"
  by (simp add: check_rfwd_iff granted_def permission_set_get_array.simps)

lemma granted_same: "same_perms whr ssh ssh' \<Longrightarrow> granted ssh' whr M = granted ssh whr M"
  by (simp add: granted_def same_perms_def)

definition listed :: "(string \<Rightarrow> (string \<times> int) option) \<Rightarrow> fwd_where \<Rightarrow> string list \<Rightarrow> (permission \<Rightarrow> bool) \<Rightarrow> bool" where
  "listed entry whr ss M \<longleftrightarrow> (\<exists>s\<in>set ss. \<exists>en. entry s = Some en \<and> M (perm_of whr en))"

lemma listed_entries:
  assumes "map entry ss = map Some ens"
  shows "(\<exists>p\<in>set (map (perm_of whr) ens). M p) = listed entry whr ss M"
proof -
  have "Some ` set ens = entry ` set ss" using arg_cong[OF assms, of set] by simp
  then have "\<And>en. en \<in> set ens \<longleftrightarrow> (\<exists>s\<in>set ss. entry s = Some en)" by (metis imageE imageI option.inject)
  then show ?thesis unfolding listed_def by (simp del: split_paired_Ex split_paired_All) blast
qed

lemma permitopen_list_result:
  assumes res: "process_permitopen_list gs ssh whr opens = Done ssh'" and M: "\<not> M fwd_perm_clear"
  shows "(perms ssh' whr FORWARD_ADM = [] \<or> (\<exists>p\<in>set (perms ssh' whr FORWARD_ADM). M p)) \<longleftrightarrow>
      opens = [] \<or> opens = [''any''] \<or>
      (opens \<noteq> [''none''] \<and> listed (permit_entry gs hpdelim) whr opens M)"
    and "w \<noteq> whr \<Longrightarrow> same_perms w ssh ssh'"
proof -
  have one: "length opens = 1 \<and> opens ! 0 = x \<longleftrightarrow> opens = [x]" for x
    by (cases opens) auto
  let ?ssh1 = "channel_clear_permission ssh FORWARD_ADM whr"
  from res consider "opens = [] \<or> opens = [''any'']" "ssh' = ?ssh1"
    | "opens = [''none'']" "channel_disable_admin ?ssh1 whr = Done ssh'"
    | "opens \<notin> {[], [''any''], [''none'']}"
      "add_entries (permit_entry gs hpdelim) FORWARD_ADM whr opens ?ssh1 = Done ssh'"
    unfolding process_permitopen_list_def Let_def one by (auto split: if_split_asm)
  note c = this
  show "(perms ssh' whr FORWARD_ADM = [] \<or> (\<exists>p\<in>set (perms ssh' whr FORWARD_ADM). M p)) \<longleftrightarrow>
      opens = [] \<or> opens = [''any''] \<or>
      (opens \<noteq> [''none''] \<and> listed (permit_entry gs hpdelim) whr opens M)"
    using c
  proof cases
    case 3
    from add_entries_result(1)[OF 3(2)] obtain ens where
      ens: "map (permit_entry gs hpdelim) opens = map Some ens"
      "perms ssh' whr FORWARD_ADM = map (perm_of whr) ens" by (auto simp: clear_perms)
    moreover have "ens \<noteq> []" using ens(1) 3(1) by auto
    ultimately show ?thesis using 3(1) listed_entries[OF ens(1), of whr M] by simp
  qed (auto simp: clear_perms disable_perms M)
  show "w \<noteq> whr \<Longrightarrow> same_perms w ssh ssh'"
    using c
  proof cases
    case 2
    then show "w \<noteq> whr \<Longrightarrow> same_perms w ssh ssh'"
      using disable_perms(2)[OF 2(2)] by (simp add: same_perms_def clear_perms)
  next
    case 3
    then show "w \<noteq> whr \<Longrightarrow> same_perms w ssh ssh'"
      using add_entries_result(2,3)[OF 3(2)] by (simp add: same_perms_def clear_perms)
  qed (simp_all add: same_perms_def clear_perms)
qed


lemma process_permitopen_result:
  assumes "process_permitopen gs ssh opts = Done ssh'" and M: "\<not> M fwd_perm_clear"
  shows "(perms ssh' whr FORWARD_ADM = [] \<or> (\<exists>p\<in>set (perms ssh' whr FORWARD_ADM). M p)) \<longleftrightarrow>
    (let opens = (case whr of FORWARD_LOCAL \<Rightarrow> o_permitted_opens opts | FORWARD_REMOTE \<Rightarrow> o_permitted_listens opts)
     in opens = [] \<or> opens = [''any''] \<or>
        (opens \<noteq> [''none''] \<and> listed (permit_entry gs hpdelim) whr opens M))"
proof -
  from assms(1) obtain s1 where
    s1: "process_permitopen_list gs ssh FORWARD_LOCAL (o_permitted_opens opts) = Done s1"
      "process_permitopen_list gs s1 FORWARD_REMOTE (o_permitted_listens opts) = Done ssh'"
    by (auto simp: process_permitopen_def andThen_Done)
  show ?thesis
  proof (cases whr)
    case FORWARD_LOCAL
    with permitopen_list_result(1)[where M = M, OF s1(1) M] permitopen_list_result(2)[where M = M, OF s1(2) M, of FORWARD_LOCAL]
    show ?thesis by (simp add: same_perms_def Let_def)
  next
    case FORWARD_REMOTE
    with permitopen_list_result(1)[where M = M, OF s1(2) M] show ?thesis by (simp add: Let_def)
  qed
qed

text \<open>The key's list of one direction, then the switch of that direction.\<close>

definition key_step ::
    "(string \<Rightarrow> (string \<times> int) option) \<Rightarrow> server_options \<Rightarrow> fwd_where \<Rightarrow> string list \<Rightarrow> ssh \<Rightarrow> ssh run" where
  "key_step entry opts whr ss ssh =
     (if allows opts whr
      then add_entries entry FORWARD_USER whr ss (channel_clear_permission ssh FORWARD_USER whr)
      else Done ssh)"

lemma key_step_result:
  assumes "key_step entry opts whr ss ssh = Done ssh'"
  shows "perms ssh' w FORWARD_ADM = perms ssh w FORWARD_ADM" "w \<noteq> whr \<Longrightarrow> same_perms w ssh ssh'"
    and "allows opts whr \<Longrightarrow> \<exists>ens. map entry ss = map Some ens \<and>
      perms ssh' whr FORWARD_USER = map (perm_of whr) ens"
    and "allows opts whr \<Longrightarrow> ss \<noteq> [] \<Longrightarrow> \<not> all_ok ssh' whr"
proof -
  have r: "add_entries entry FORWARD_USER whr ss (channel_clear_permission ssh FORWARD_USER whr) = Done ssh'"
    if "allows opts whr" using assms that by (simp add: key_step_def)
  have n: "ssh' = ssh" if "\<not> allows opts whr" using assms that by (simp add: key_step_def)
  show "perms ssh' w FORWARD_ADM = perms ssh w FORWARD_ADM"
    using add_entries_result(2)[OF r, of w FORWARD_ADM] n by (cases "allows opts whr") (simp_all add: clear_perms)
  show "w \<noteq> whr \<Longrightarrow> same_perms w ssh ssh'"
    using add_entries_result(2,3)[OF r, of w] n
    by (cases "allows opts whr") (simp_all add: clear_perms same_perms_def)
  show "allows opts whr \<Longrightarrow> \<exists>ens. map entry ss = map Some ens \<and>
      perms ssh' whr FORWARD_USER = map (perm_of whr) ens"
    using add_entries_result(1)[OF r] by (simp add: clear_perms)
  show "allows opts whr \<Longrightarrow> ss \<noteq> [] \<Longrightarrow> \<not> all_ok ssh' whr"
    using add_entries_result(3)[OF r, of whr] by simp
qed

lemma permit_all_perms:
  "perms (channel_permit_all ssh whr) w a = perms ssh w a"
  "all_ok (channel_permit_all ssh whr) w = (all_ok ssh w \<or> (w = whr \<and> perms ssh whr FORWARD_USER = []))"
  by (auto simp: channel_permit_all_def Let_def permission_set_get_array.simps)

lemma disabled_granted:
  "perms ssh whr FORWARD_ADM = [fwd_perm_clear] \<Longrightarrow> \<not> M fwd_perm_clear \<Longrightarrow> \<not> granted ssh whr M"
  by (simp add: granted_def)

text \<open>A direction that is switched on grants what both lists allow.\<close>

lemma switch_others: "enable_or_disable opts whr s1 = Done s2 \<Longrightarrow> w \<noteq> whr \<Longrightarrow> same_perms w s1 s2"
  using disable_perms(2)[of s1 whr s2 w]
  by (auto simp: enable_or_disable_def same_perms_def permit_all_perms split: if_split_asm)

lemma direction_granted:
  assumes key: "key_step entry opts whr ss ssh = Done s1" and between: "same_perms whr s1 s1'"
    and sw: "enable_or_disable opts whr s1' = Done s2" and M: "\<not> M fwd_perm_clear"
  shows "granted s2 whr M \<longleftrightarrow> allows opts whr \<and> (ss = [] \<or> listed entry whr ss M) \<and>
    (perms ssh whr FORWARD_ADM = [] \<or> (\<exists>p\<in>set (perms ssh whr FORWARD_ADM). M p))"
proof (cases "allows opts whr")
  case True
  with sw have s2: "s2 = channel_permit_all s1' whr" by (simp add: enable_or_disable_def)
  from key_step_result(3)[OF key True] obtain ens where
    ens: "map entry ss = map Some ens" "perms s1 whr FORWARD_USER = map (perm_of whr) ens" by blast
  have "ens = [] \<longleftrightarrow> ss = []" using ens(1) by (metis map_is_Nil_conv)
  then show ?thesis
    using True key_step_result(1,4)[OF key] listed_entries[OF ens(1), of whr M] between
    by (auto simp: granted_def s2 permit_all_perms ens(2) same_perms_def)
next
  case False
  with sw have "channel_disable_admin s1' whr = Done s2" by (simp add: enable_or_disable_def)
  with False disabled_granted[where M = M, OF disable_perms(1) M] show ?thesis by blast
qed

lemma set_fwdpermit_steps:
  "set_fwdpermit_from_authopts gs opts ssh aopts =
     andThen (key_step (permit_entry gs split2) opts FORWARD_LOCAL (a_permitopen aopts) ssh)
       (key_step (permit_entry gs hpdelim) opts FORWARD_REMOTE (a_permitlisten aopts))"
  unfolding set_fwdpermit_from_authopts_def key_step_def ..

definition key_list :: "(string \<Rightarrow> int option) \<Rightarrow> fwd_authopts \<Rightarrow> fwd_where \<Rightarrow> (permission \<Rightarrow> bool) \<Rightarrow> bool" where
  "key_list gs aopts whr M = (case whr of
     FORWARD_LOCAL \<Rightarrow> a_permitopen aopts = [] \<or> listed (permit_entry gs split2) whr (a_permitopen aopts) M
   | FORWARD_REMOTE \<Rightarrow> a_permitlisten aopts = [] \<or> listed (permit_entry gs hpdelim) whr (a_permitlisten aopts) M)"

lemma do_authenticated_granted:
  assumes res: "do_authenticated_fwd gs opts ssh aopts = Done ssh'" and M: "\<not> M fwd_perm_clear"
  shows "granted ssh' whr M \<longleftrightarrow> a_permit_port_forwarding_flag aopts \<and> \<not> o_disable_forwarding opts \<and>
    allows opts whr \<and> key_list gs aopts whr M \<and>
    (perms ssh whr FORWARD_ADM = [] \<or> (\<exists>p\<in>set (perms ssh whr FORWARD_ADM). M p))"
proof -
  from res obtain sl s1 where
    sl: "key_step (permit_entry gs split2) opts FORWARD_LOCAL (a_permitopen aopts) ssh = Done sl"
    and s1: "key_step (permit_entry gs hpdelim) opts FORWARD_REMOTE (a_permitlisten aopts) sl = Done s1"
    and rest: "(if \<not> a_permit_port_forwarding_flag aopts \<or> o_disable_forwarding opts
         then andThen (channel_disable_admin s1 FORWARD_LOCAL)
                (\<lambda>ssh2. channel_disable_admin ssh2 FORWARD_REMOTE)
         else andThen (enable_or_disable opts FORWARD_LOCAL s1) (enable_or_disable opts FORWARD_REMOTE)) = Done ssh'"
    unfolding do_authenticated_fwd_def set_fwdpermit_steps andThen_Done by blast
  show ?thesis
  proof (cases "\<not> a_permit_port_forwarding_flag aopts \<or> o_disable_forwarding opts")
    case True
    with rest obtain s2 where s2: "channel_disable_admin s1 FORWARD_LOCAL = Done s2"
      "channel_disable_admin s2 FORWARD_REMOTE = Done ssh'" by (auto simp: andThen_Done)
    have "perms ssh' whr FORWARD_ADM = [fwd_perm_clear]"
      using disable_perms(1)[OF s2(1)] disable_perms(1)[OF s2(2)] disable_perms(2)[OF s2(2), of FORWARD_LOCAL]
      by (cases whr) (simp_all add: same_perms_def)
    with True disabled_granted[of ssh' whr M] M show ?thesis by blast
  next
    case False
    with rest obtain s2 where s2: "enable_or_disable opts FORWARD_LOCAL s1 = Done s2"
      "enable_or_disable opts FORWARD_REMOTE s2 = Done ssh'" by (auto simp: andThen_Done)
    show ?thesis
    proof (cases whr)
      case FORWARD_LOCAL
      have "same_perms whr sl s1" "same_perms whr s2 ssh'"
        using key_step_result(2)[OF s1, of whr] switch_others[OF s2(2), of whr] FORWARD_LOCAL by simp_all
      with direction_granted[where M = M, OF sl[folded FORWARD_LOCAL] _ s2(1)[folded FORWARD_LOCAL] M] False FORWARD_LOCAL
      show ?thesis by (simp add: granted_same key_list_def)
    next
      case FORWARD_REMOTE
      have "same_perms whr s1 s2" using switch_others[OF s2(1), of whr] FORWARD_REMOTE by simp
      with direction_granted[where M = M, OF s1[folded FORWARD_REMOTE] _ s2(2)[folded FORWARD_REMOTE] M] False FORWARD_REMOTE
        key_step_result(1)[OF sl, of whr]
      show ?thesis by (simp add: key_list_def)
    qed
  qed
qed

lemma fwd_setup_granted:
  assumes res: "fwd_setup gs opts aopts ssh = Done ssh'" and M: "\<not> M fwd_perm_clear"
  shows "granted ssh' whr M \<longleftrightarrow> a_permit_port_forwarding_flag aopts \<and> \<not> o_disable_forwarding opts \<and>
    allows opts whr \<and> key_list gs aopts whr M \<and>
    (let opens = (case whr of FORWARD_LOCAL \<Rightarrow> o_permitted_opens opts | FORWARD_REMOTE \<Rightarrow> o_permitted_listens opts)
     in opens = [] \<or> opens = [''any''] \<or>
        (opens \<noteq> [''none''] \<and> listed (permit_entry gs hpdelim) whr opens M))"
proof -
  from res obtain s1 where s1: "process_permitopen gs ssh opts = Done s1"
    "do_authenticated_fwd gs opts s1 aopts = Done ssh'" by (auto simp: fwd_setup_def andThen_Done)
  from do_authenticated_granted[where M = M and whr = whr, OF s1(2) M] process_permitopen_result[where M = M and whr = whr, OF s1(1) M]
  show ?thesis by simp
qed


section \<open>When the setup succeeds\<close>

lemma add_permission_ok:
  assumes "length (perms ssh whr who) < 2147483647"
  shows "\<exists>ssh'. channel_add_permission ssh who whr host port = Done ssh' \<and>
    length (perms ssh' whr who) = length (perms ssh whr who) + 1"
proof -
  have "\<exists>ssh'. channel_add_permission ssh who whr host port = Done ssh'"
    using assms by (simp add: channel_add_permission_def permission_set_add_def Let_def)
  then obtain ssh' where r: "channel_add_permission ssh who whr host port = Done ssh'" ..
  with add_permission_result(1)[OF r, of whr who] show ?thesis by simp
qed

lemma add_entries_ok:
  "(\<forall>s\<in>set ss. entry s \<noteq> None) \<Longrightarrow> length (perms ssh whr who) + length ss \<le> 2147483647 \<Longrightarrow>
   \<exists>ssh'. add_entries entry who whr ss ssh = Done ssh'"
proof (induction ss arbitrary: ssh)
  case (Cons s ss)
  then obtain host port where e: "entry s = Some (host, port)" by auto
  from Cons.prems(2) have "length (perms ssh whr who) < 2147483647" by simp
  from add_permission_ok[OF this, of host port] obtain s1 where
    s1: "channel_add_permission ssh who whr host port = Done s1"
    "length (perms s1 whr who) = length (perms ssh whr who) + 1" by blast
  with Cons.IH[of s1] Cons.prems e show ?case by simp
qed simp

definition config_ok :: "(string \<Rightarrow> int option) \<Rightarrow> string list \<Rightarrow> bool" where
  "config_ok gs opens \<longleftrightarrow> length opens \<le> 2147483647 \<and>
     (opens \<in> {[], [''any''], [''none'']} \<or> (\<forall>s\<in>set opens. permit_entry gs hpdelim s \<noteq> None))"

lemma permitopen_list_ok:
  assumes "config_ok gs opens" shows "\<exists>ssh'. process_permitopen_list gs ssh whr opens = Done ssh'"
proof -
  let ?ssh1 = "channel_clear_permission ssh FORWARD_ADM whr"
  have one: "length opens = 1 \<and> opens ! 0 = x \<longleftrightarrow> opens = [x]" for x by (cases opens) auto
  show ?thesis
  proof (cases "opens \<in> {[], [''any''], [''none'']}")
    case True
    with disable_admin_ok[of ?ssh1 whr] show ?thesis by (auto simp: process_permitopen_list_def Let_def)
  next
    case False
    with assms have "\<exists>ssh'. add_entries (permit_entry gs hpdelim) FORWARD_ADM whr opens ?ssh1 = Done ssh'"
      by (intro add_entries_ok) (auto simp: config_ok_def clear_perms)
    with False show ?thesis unfolding process_permitopen_list_def Let_def one by simp
  qed
qed

lemma key_step_ok:
  "(\<forall>s\<in>set ss. entry s \<noteq> None) \<Longrightarrow> length ss \<le> 2147483647 \<Longrightarrow> \<exists>ssh'. key_step entry opts whr ss ssh = Done ssh'"
  unfolding key_step_def by (auto intro!: add_entries_ok simp: clear_perms)

lemma switch_ok: "\<exists>ssh'. enable_or_disable opts whr ssh = Done ssh'"
  using disable_admin_ok[of ssh whr] by (simp add: enable_or_disable_def)

lemma fwd_setup_ok:
  assumes conf: "config_ok gs (o_permitted_opens opts)" "config_ok gs (o_permitted_listens opts)"
    and key: "\<forall>s\<in>set (a_permitopen aopts). permit_entry gs split2 s \<noteq> None"
      "\<forall>s\<in>set (a_permitlisten aopts). permit_entry gs hpdelim s \<noteq> None"
      "length (a_permitopen aopts) \<le> 2147483647" "length (a_permitlisten aopts) \<le> 2147483647"
  shows "\<exists>ssh'. fwd_setup gs opts aopts ssh = Done ssh'"
proof -
  obtain s1 where s1: "process_permitopen_list gs ssh FORWARD_LOCAL (o_permitted_opens opts) = Done s1"
    using permitopen_list_ok[OF conf(1)] by blast
  obtain s2 where s2: "process_permitopen_list gs s1 FORWARD_REMOTE (o_permitted_listens opts) = Done s2"
    using permitopen_list_ok[OF conf(2)] by blast
  obtain s3 where s3: "key_step (permit_entry gs split2) opts FORWARD_LOCAL (a_permitopen aopts) s2 = Done s3"
    using key_step_ok[OF key(1,3)] by blast
  obtain s4 where s4: "key_step (permit_entry gs hpdelim) opts FORWARD_REMOTE (a_permitlisten aopts) s3 = Done s4"
    using key_step_ok[OF key(2,4)] by blast
  have "\<exists>ssh'. andThen (enable_or_disable opts FORWARD_LOCAL s4) (enable_or_disable opts FORWARD_REMOTE) = Done ssh'"
    using switch_ok by (metis andThen_Done)
  moreover have "\<exists>ssh'. andThen (channel_disable_admin s4 FORWARD_LOCAL)
      (\<lambda>s. channel_disable_admin s FORWARD_REMOTE) = Done ssh'"
    using disable_admin_ok by (metis andThen_Done)
  ultimately show ?thesis
    by (simp add: fwd_setup_def process_permitopen_def do_authenticated_fwd_def set_fwdpermit_steps s1 s2 s3 s4)
qed

text \<open>What \<open>handle_permit\<close> accepts, the setup can split again.\<close>

lemma permit_value_entry:
  assumes "permit_value_ok gs opt = Inr ()" shows "permit_entry gs split2 opt \<noteq> None"
  by (rule permit_value_port[OF assms]) (simp add: permit_entry_def split2_def Let_def)

lemma handle_permit_entries:
  assumes "handle_permit gs o1 bare permits = Inr (permits', rest)"
  shows "length permits' \<le> 4098 - 1 \<and> (\<exists>v. permits' = permits @ [v] \<and> permit_entry gs split2 v \<noteq> None)"
  using assms permit_value_entry
  by (auto simp: handle_permit_def Let_def split: sum.splits if_splits prod.splits)

end
