(* ===== verification/PermProps.thy ===== *)
theory PermProps
  imports Demo FwdPolicy
begin

text \<open>Properties of forwarding: what the configuration grants, and what a grant leads to.\<close>

section \<open>Policy\<close>

text \<open>
  C1: What a server's configuration and the options of the key amount to for outgoing connections:
  after the setup, a destination may be connected to exactly if port forwarding is on in the
  key and the server, the key names the destination (or nothing), and \<open>PermitOpen\<close> allows it.
\<close>

theorem local_forwarding_policy:
  assumes "fwd_setup gs opts aopts ssh = Done ssh'"
  shows "connect_permitted ssh' host port \<longleftrightarrow>
    a_permit_port_forwarding_flag aopts \<and> \<not> o_disable_forwarding opts \<and> allows opts FORWARD_LOCAL \<and>
    (a_permitopen aopts = [] \<or> list_allows (permit_entry gs split2) (a_permitopen aopts) host port) \<and>
    config_allows gs (o_permitted_opens opts) host port"
proof -
  let ?M = "\<lambda>p. open_match p host port"
  have M: "\<not> ?M fwd_perm_clear" by (simp add: open_match_iff fwd_perm_clear_def)
  have "listed entry FORWARD_LOCAL ss ?M = list_allows entry ss host port" for entry ss
    by (simp add: listed_def list_allows_def perm_of_def open_match_local)
  with fwd_setup_granted[where M = ?M, OF assms M, of FORWARD_LOCAL] show ?thesis
    by (simp add: connect_granted key_list_def config_allows_def Let_def)
qed

definition demo_opts :: server_options where
  "demo_opts = \<lparr>o_allow_tcp_forwarding = 3, o_disable_forwarding = False,
     o_permitted_opens = [''db:5432'', ''[::1]:*''], o_permitted_listens = [''127.0.0.*:8080'']\<rparr>"

definition demo_aopts :: fwd_authopts where
  "demo_aopts = \<lparr>a_permit_port_forwarding_flag = True, a_permitopen = [], a_permitlisten = []\<rparr>"

lemma demo_entries:
  "permit_entry (\<lambda>_. None) hpdelim ''db:5432'' = Some (''db'', 5432)"
  "permit_entry (\<lambda>_. None) hpdelim ''[::1]:*'' = Some (''::1'', 0)"
  "permit_entry (\<lambda>_. None) hpdelim ''127.0.0.*:8080'' = Some (''127.0.0.*'', 8080)"
  by code_simp+

lemma demo_setup_ok: "\<exists>ssh'. fwd_setup (\<lambda>_. None) demo_opts demo_aopts (channel_init_channels 0) = Done ssh'"
  by (rule fwd_setup_ok) (simp_all add: config_ok_def demo_opts_def demo_aopts_def demo_entries)

theorem local_forwarding_policy_witness:
  "\<exists>ssh'. fwd_setup (\<lambda>_. None) demo_opts demo_aopts (channel_init_channels 0) = Done ssh' \<and>
     connect_permitted ssh' ''db'' 5432 \<and> connect_permitted ssh' ''::1'' 9 \<and> \<not> connect_permitted ssh' ''db'' 22"
proof -
  obtain ssh' where s: "fwd_setup (\<lambda>_. None) demo_opts demo_aopts (channel_init_channels 0) = Done ssh'"
    using demo_setup_ok by blast
  note p = local_forwarding_policy[OF s]
  from s p[of "''db''" 5432] p[of "''::1''" 9] p[of "''db''" 22] show ?thesis
    by (auto simp: demo_opts_def demo_aopts_def allows_def bit_of_def config_allows_def list_allows_def
        demo_entries entry_allows_def)
qed

text \<open>
  C2: The same for remote forwards: a listener on a TCP port may be requested exactly if the switches
  are on and both the key and \<open>PermitListen\<close> have, if they name any, an entry for the port whose
  host pattern, a glob, matches the listen host in lower case.
\<close>

theorem remote_forwarding_policy:
  assumes "fwd_setup gs opts aopts ssh = Done ssh'"
    and "f_listen_path fwd = None" "f_listen_host fwd = Some host"
  shows "check_rfwd_permission ssh' fwd \<longleftrightarrow>
    a_permit_port_forwarding_flag aopts \<and> \<not> o_disable_forwarding opts \<and> allows opts FORWARD_REMOTE \<and>
    (a_permitlisten aopts = [] \<or> listens_allow gs (a_permitlisten aopts) host (f_listen_port fwd)) \<and>
    (o_permitted_listens opts \<in> {[], [''any'']} \<or>
     o_permitted_listens opts \<noteq> [''none''] \<and> listens_allow gs (o_permitted_listens opts) host (f_listen_port fwd))"
proof -
  let ?M = "\<lambda>p. remote_open_match p fwd"
  have M: "\<not> ?M fwd_perm_clear" using assms(2,3) by (simp add: remote_open_match_def fwd_perm_clear_def)
  have "listed (permit_entry gs hpdelim) FORWARD_REMOTE ss ?M = listens_allow gs ss host (f_listen_port fwd)" for ss
    by (simp add: listed_def listens_allow_def perm_of_def remote_open_match_listen[OF assms(2,3)])
  with fwd_setup_granted[where M = ?M, OF assms(1) M, of FORWARD_REMOTE] show ?thesis
    by (simp add: rfwd_granted key_list_def Let_def disj_assoc)
qed

definition demo_fwd :: "string \<Rightarrow> int \<Rightarrow> Forward" where
  "demo_fwd host port = \<lparr>f_listen_host = Some host, f_listen_port = port, f_listen_path = None,
     f_connect_host = Some ''localhost'', f_connect_port = 80, f_connect_path = None, f_allocated_port = 0\<rparr>"

theorem remote_forwarding_policy_witness:
  "\<exists>ssh'. fwd_setup (\<lambda>_. None) demo_opts demo_aopts (channel_init_channels 0) = Done ssh' \<and>
     check_rfwd_permission ssh' (demo_fwd ''127.0.0.9'' 8080) \<and>
     \<not> check_rfwd_permission ssh' (demo_fwd ''10.0.0.1'' 8080)"
proof -
  obtain ssh' where s: "fwd_setup (\<lambda>_. None) demo_opts demo_aopts (channel_init_channels 0) = Done ssh'"
    using demo_setup_ok by blast
  have g: "glob ''127.0.0.*'' (lowercase ''127.0.0.9'')" "\<not> glob ''127.0.0.*'' (lowercase ''10.0.0.1'')"
    unfolding match_glob(1)[symmetric] by code_simp+
  note p = remote_forwarding_policy[OF s, of "demo_fwd h 8080" h for h]
  from s p[of "''127.0.0.9''"] p[of "''10.0.0.1''"] g show ?thesis
    by (simp add: demo_opts_def demo_aopts_def allows_def bit_of_def demo_entries demo_fwd_def
        listens_allow_def listen_entry_allows_def)
qed


text \<open>
  With lists the server's configuration parser and \<open>handle_permit\<close> accepted, the setup succeeds:
  no fatal error is left in it, as its comments claim, provided the key's \<open>permitlisten\<close> entries use a
  colon before the port.
\<close>

theorem validated_setup_succeeds:
  assumes "config_ok gs (o_permitted_opens opts)" "config_ok gs (o_permitted_listens opts)"
    and "\<forall>v\<in>set (a_permitopen aopts). permit_value_ok gs v = Inr ()"
    and "\<forall>v\<in>set (a_permitlisten aopts). permit_value_ok gs v = Inr () \<and> (\<forall>h r. hpdelim2 v \<noteq> Some (h, r, Some CHR ''/''))"
    and "length (a_permitopen aopts) \<le> 4097" "length (a_permitlisten aopts) \<le> 4097"
  shows "\<exists>ssh'. fwd_setup gs opts aopts ssh = Done ssh'"
proof (rule fwd_setup_ok[OF assms(1,2)])
  show "\<forall>s\<in>set (a_permitopen aopts). permit_entry gs split2 s \<noteq> None"
    using assms(3) permit_value_entry by blast
  show "\<forall>s\<in>set (a_permitlisten aopts). permit_entry gs hpdelim s \<noteq> None"
  proof
    fix s assume "s \<in> set (a_permitlisten aopts)"
    with assms(4) have ok: "permit_value_ok gs s = Inr ()" and nd: "\<And>h r. hpdelim2 s \<noteq> Some (h, r, Some CHR ''/'')"
      by auto
    from permit_value_port[OF ok] obtain h q d where "hpdelim2 s = Some (h, Some q, d)" "permitopen_port gs q \<ge> 0"
      by blast
    with nd show "permit_entry gs hpdelim s \<noteq> None" by (auto simp: permit_entry_def hpdelim_def Let_def)
  qed
qed (use assms(5,6) in simp_all)

theorem validated_setup_succeeds_witness:
  "\<exists>ssh'. fwd_setup (\<lambda>_. None) demo_opts \<lparr>a_permit_port_forwarding_flag = True, a_permitopen = [''db:1''],
     a_permitlisten = [''*:2'']\<rparr> (channel_init_channels 0) = Done ssh'"
proof (rule validated_setup_succeeds)
  have "permit_value_ok (\<lambda>_. None) ''db:1'' = Inr ()" "permit_value_ok (\<lambda>_. None) ''*:2'' = Inr ()"
    "hpdelim2 ''*:2'' = Some (''*'', Some ''2'', Some CHR '':'')" by code_simp+
  then show "\<forall>v\<in>set (a_permitopen \<lparr>a_permit_port_forwarding_flag = True, a_permitopen = [''db:1''],
       a_permitlisten = [''*:2'']\<rparr>). permit_value_ok (\<lambda>_. None) v = Inr ()"
    "\<forall>v\<in>set (a_permitlisten \<lparr>a_permit_port_forwarding_flag = True, a_permitopen = [''db:1''],
       a_permitlisten = [''*:2'']\<rparr>). permit_value_ok (\<lambda>_. None) v = Inr () \<and>
       (\<forall>h r. hpdelim2 v \<noteq> Some (h, r, Some CHR ''/''))" by simp_all
qed (simp_all add: config_ok_def demo_opts_def demo_entries)

text \<open>
  C39: The proviso is needed. \<open>handle_permit\<close> accepts a \<open>permitlisten\<close> whose host is bracketed and
  whose port follows a slash, which the setup then splits with the stricter \<open>hpdelim\<close>: the session of
  a user with such a key ends in the fatal error that "shouldn't fail".
\<close>

theorem slash_permitlisten_is_fatal:
  assumes "allows opts FORWARD_REMOTE" "a_permitopen aopts = []" "a_permitlisten aopts = [''[::1]/80'']"
  shows "handle_permit (\<lambda>_. None) (CHR 0x22 # ''[::1]/80'' @ [CHR 0x22]) True [] = Inr (a_permitlisten aopts, []) \<and>
    set_fwdpermit_from_authopts gs opts ssh aopts = Fatal"
proof -
  have "handle_permit (\<lambda>_. None) (CHR 0x22 # ''[::1]/80'' @ [CHR 0x22]) True [] = Inr ([''[::1]/80''], [])"
    by code_simp
  moreover have "hpdelim ''[::1]/80'' = None" by code_simp
  ultimately show ?thesis using assms by (simp add: set_fwdpermit_from_authopts_def permit_entry_def)
qed

theorem slash_permitlisten_is_fatal_witness:
  "set_fwdpermit_from_authopts (\<lambda>_. None) demo_opts (channel_init_channels 0)
     \<lparr>a_permit_port_forwarding_flag = True, a_permitopen = [], a_permitlisten = [''[::1]/80'']\<rparr> = Fatal"
  by (rule slash_permitlisten_is_fatal[THEN conjunct2])
    (simp_all add: allows_def bit_of_def demo_opts_def)

section \<open>Connecting and listening\<close>

text \<open>
  C23: No connection leaves the server for a destination its policy excludes: a direct-tcpip request
  either finds the destination permitted and puts one new connecting channel for exactly that
  destination in the table, or changes no channel; a prohibited one changes nothing at all.
\<close>

theorem connect_only_permitted:
  assumes "channel_connect_to_port e nt ssh host port ctype rname = Done (r, why, ssh')"
  shows "(\<not> connect_permitted ssh host port \<longrightarrow>
      r = None \<and> why = Some SSH2_OPEN_ADMINISTRATIVELY_PROHIBITED \<and> ssh' = ssh) \<and>
    (case r of
       None \<Rightarrow> s_channels ssh' = s_channels ssh
     | Some i \<Rightarrow> connect_permitted ssh host port \<and> chan ssh i = None \<and>
         (\<exists>c. (\<forall>j. chan ssh' j = (if j = i then Some c else chan ssh j)) \<and> c_self c = i \<and>
            c_type c = SSH_CHANNEL_CONNECTING \<and> c_path c = Some host \<and> c_host_port c = port))"
proof (cases "connect_permitted ssh host port")
  case True
  with assms have "connect_to e nt ssh host port ctype rname = Done (r, ssh')"
    by (auto simp: channel_connect_to_port_def andThen_Done)
  from connect_to_result[OF this] True show ?thesis by (cases r) simp_all
next
  case False
  with assms show ?thesis by (auto simp: channel_connect_to_port_def)
qed

definition demo_perm_ssh :: ssh where
  "demo_perm_ssh = (demo_table [demo_open])\<lparr>s_local_perms := \<lparr>ps_permitted_user = [],
     ps_permitted_admin = [local_perm (''db'', 5432)], ps_all_permitted = True\<rparr>\<rparr>"

theorem connect_only_permitted_witness:
  "(\<exists>i ssh'. channel_connect_to_port demo_env demo_net demo_perm_ssh ''db'' 5432 ''direct-tcpip'' ''x'' =
       Done (Some i, None, ssh') \<and> chan demo_perm_ssh i = None) \<and>
   channel_connect_to_port demo_env demo_net demo_perm_ssh ''db'' 22 ''direct-tcpip'' ''x'' =
     Done (None, Some SSH2_OPEN_ADMINISTRATIVELY_PROHIBITED, demo_perm_ssh)"
proof
  have p: "connect_permitted demo_perm_ssh ''db'' 5432" "\<not> connect_permitted demo_perm_ssh ''db'' 22"
    by (simp_all add: connect_permitted_iff demo_perm_ssh_def open_match_local entry_allows_def)
  have "length (s_channels demo_perm_ssh) \<le> CHANNELS_MAX_CHANNELS"
    by (simp add: demo_perm_ssh_def demo_table_def)
  from demo_connect_to[where host = "''db''" and port = 5432 and ctype = "''direct-tcpip''" and rname = "''x''",
      OF this]
  obtain i ssh' where
    "connect_to demo_env demo_net demo_perm_ssh ''db'' 5432 ''direct-tcpip'' ''x'' = Done (Some i, ssh')" by auto
  with p(1) have r: "channel_connect_to_port demo_env demo_net demo_perm_ssh ''db'' 5432 ''direct-tcpip'' ''x'' =
      Done (Some i, None, ssh')" by (simp add: channel_connect_to_port_def)
  with connect_only_permitted[OF r] show "\<exists>i ssh'. channel_connect_to_port demo_env demo_net demo_perm_ssh
      ''db'' 5432 ''direct-tcpip'' ''x'' = Done (Some i, None, ssh') \<and> chan demo_perm_ssh i = None" by auto
  show "channel_connect_to_port demo_env demo_net demo_perm_ssh ''db'' 22 ''direct-tcpip'' ''x'' =
     Done (None, Some SSH2_OPEN_ADMINISTRATIVELY_PROHIBITED, demo_perm_ssh)"
    using p(2) by (simp add: channel_connect_to_port_def)
qed

text \<open>
  C35: Without \<open>GatewayPorts\<close> a remote forward listens on loopback only: every channel the request
  adds is a listener on the default or an explicit loopback address, no channel is changed, the
  resolver is never asked for the wildcard address, and a request the lists refuse adds nothing.
\<close>

theorem no_gateway_listens_on_loopback:
  assumes "channel_setup_remote_fwd_listener e nt ssh fwd want_port opts = Done (ok, port, ssh')"
    and "gateway_ports opts = 0" "f_listen_path fwd = None"
  shows "(\<forall>j c. chan ssh j = Some c \<longrightarrow> chan ssh' j = Some c) \<and>
    (\<forall>j c. chan ssh j = None \<longrightarrow> chan ssh' j = Some c \<longrightarrow> c_type c = SSH_CHANNEL_RPORT_LISTENER \<and>
       c_listening_addr c \<in> {None, Some ''127.0.0.1'', Some ''::1''}) \<and>
    channel_setup_remote_fwd_listener e (no_wildcard nt) ssh fwd want_port opts =
      channel_setup_remote_fwd_listener e nt ssh fwd want_port opts \<and>
    (\<not> check_rfwd_permission ssh fwd \<longrightarrow> \<not> ok \<and> chan ssh' = chan ssh)"
  using setup_remote_no_gateway[OF assms] setup_remote_denied[OF assms(1)]
  by (simp add: added_def)

definition demo_no_gateway :: ForwardOptions where
  "demo_no_gateway = \<lparr>gateway_ports = 0, streamlocal_bind_unlink = False\<rparr>"

theorem no_gateway_listens_on_loopback_witness:
  "\<exists>ok port ssh'. channel_setup_remote_fwd_listener demo_env demo_net (demo_table [demo_open])
      (demo_fwd ''0.0.0.0'' 0) True demo_no_gateway = Done (ok, port, ssh') \<and> \<not> ok \<and> chan ssh' 0 = Some demo_open"
proof -
  let ?ssh = "demo_table [demo_open]"
  have p: "\<not> check_rfwd_permission ?ssh (demo_fwd ''0.0.0.0'' 0)"
    by (simp add: check_rfwd_iff demo_table_def channel_init_channels_def empty_set_perms_def)
  then obtain ssh' where r: "channel_setup_remote_fwd_listener demo_env demo_net ?ssh
      (demo_fwd ''0.0.0.0'' 0) True demo_no_gateway = Done (False, None, ssh')"
    by (simp add: channel_setup_remote_fwd_listener_def)
  have "chan ?ssh 0 = Some demo_open" by (simp add: chan_def demo_table_def)
  with no_gateway_listens_on_loopback[OF r] p r show ?thesis
    by (intro exI[of _ False] exI[of _ None] exI[of _ ssh']) (simp add: demo_no_gateway_def demo_fwd_def)
qed

text \<open>
  What \<open>GatewayPorts\<close> means for a server: \<open>no\<close> keeps explicit loopback addresses and drops any
  other, \<open>yes\<close> binds the wildcard whatever is asked, \<open>clientspecified\<close> binds what the client asks,
  with the empty string and the star as the wildcard and \<open>localhost\<close> for every loopback family.
\<close>

theorem gateway_ports_bind_addr:
  "channel_fwd_bind_addr cm la False \<lparr>gateway_ports = 0, streamlocal_bind_unlink = u\<rparr> =
     ((case la of Some a \<Rightarrow> if a \<in> {''127.0.0.1'', ''::1''} then Some a else None | None \<Rightarrow> None), False, False) \<and>
   fst (channel_fwd_bind_addr cm la False \<lparr>gateway_ports = 1, streamlocal_bind_unlink = u\<rparr>) = None \<and>
   fst (snd (channel_fwd_bind_addr cm la False \<lparr>gateway_ports = 1, streamlocal_bind_unlink = u\<rparr>)) \<and>
   channel_fwd_bind_addr 0 la False \<lparr>gateway_ports = 2, streamlocal_bind_unlink = u\<rparr> =
     (case la of
        None \<Rightarrow> (None, True, False)
      | Some a \<Rightarrow> if a \<in> {[], ''*''} then (None, True, False)
                  else if a = ''localhost'' then (None, False, False) else (Some a, False, False))"
  by (auto simp: channel_fwd_bind_addr_def split: option.splits)

text \<open>
  A remote forward that asks for any port gets one port for all address families: every
  listener the request adds records the port that is reported back.
\<close>

theorem allocated_port_is_shared:
  assumes "channel_setup_fwd_listener_tcpip e nt ssh SSH_CHANNEL_RPORT_LISTENER fwd True opts = Done (ok, Some q, ssh')"
    and "f_listen_port fwd = 0" "s_compat ssh AND SSH_BUG_DYNAMIC_RPORT = 0" "\<And>s. n_local_port nt s > 0"
  shows "(\<forall>j c. chan ssh j = None \<longrightarrow> chan ssh' j = Some c \<longrightarrow> c_listening_port c = q \<and> q > 0) \<and>
    (ok \<longleftrightarrow> (\<exists>j c. chan ssh j = None \<and> chan ssh' j = Some c))"
proof -
  obtain addr wildcard told where b: "channel_fwd_bind_addr (s_compat ssh) (f_listen_host fwd) False opts =
      (addr, wildcard, told)" by (metis prod_cases3)
  let ?ssh1 = "if told then emit (Send_debug ''listen address overridden'') ssh else ssh"
  from assms(1) b obtain h ais where
    "listen_loop e nt SSH_CHANNEL_RPORT_LISTENER fwd h addr ais (Some 0) False ?ssh1 = Done (ok, Some q, ssh')"
    by (auto simp: channel_setup_fwd_listener_tcpip_def Let_def split: option.splits if_split_asm)
  from listen_loop_same_port[OF this assms(2) _ assms(4)] assms(3)
  have "added (\<lambda>c. c_listening_port c = q \<and> q > 0) ?ssh1 ssh'" by (simp split: if_split_asm)
  then show ?thesis using setup_tcpip_added(2)[OF assms(1)] by (auto simp: added_def split: if_split_asm)
qed

definition demo_one_net :: net where
  "demo_one_net = demo_net\<lparr>n_getaddrinfo := (\<lambda>host port wildcard.
     Some [\<lparr>ai_family = AF_INET, ai_addr = ''127.0.0.1'', ai_port = port\<rparr>])\<rparr>"

theorem allocated_port_is_shared_witness:
  "\<exists>j c ssh'. channel_setup_fwd_listener_tcpip demo_env demo_one_net (demo_table [demo_open])
      SSH_CHANNEL_RPORT_LISTENER (demo_fwd ''localhost'' 0) True demo_no_gateway = Done (True, Some 40000, ssh') \<and>
     chan ssh' j = Some c \<and> c_listening_port c = 40000"
proof -
  let ?ssh = "demo_table [demo_open]"
  have "length (s_channels ?ssh) \<le> CHANNELS_MAX_CHANNELS" by (simp add: demo_table_def)
  from demo_channel_new[OF this] obtain i ssh1 where
    n: "channel_new demo_env ?ssh ''port-listener'' SSH_CHANNEL_RPORT_LISTENER 9 9 (-1) CHAN_TCP_WINDOW_DEFAULT
       CHAN_TCP_PACKET_DEFAULT CHAN_EXTENDED_IGNORE ''port listener'' CHANNEL_NONBLOCK_SET = Done (i, ssh1)" by blast
  from channel_new_chan[OF n] have "chan ssh1 i \<noteq> None" by auto
  then have i: "s_channels ssh1 ! i \<noteq> None" by (auto simp: chan_def split: if_splits)
  have b: "channel_fwd_bind_addr (s_compat ?ssh) (Some ''localhost'') False demo_no_gateway = (None, False, False)"
    by (simp add: channel_fwd_bind_addr_def demo_no_gateway_def)
  obtain ssh' where r: "channel_setup_fwd_listener_tcpip demo_env demo_one_net ?ssh SSH_CHANNEL_RPORT_LISTENER
      (demo_fwd ''localhost'' 0) True demo_no_gateway = Done (True, Some 40000, ssh')"
    using n i b
    by (auto simp: channel_setup_fwd_listener_tcpip_def demo_fwd_def demo_one_net_def demo_net_def listen_one_def
        demo_table_def channel_init_channels_def)
  have "f_listen_port (demo_fwd ''localhost'' 0) = 0" "s_compat ?ssh AND SSH_BUG_DYNAMIC_RPORT = 0"
    "\<And>s. n_local_port demo_one_net s > 0"
    by (simp_all add: demo_fwd_def demo_table_def channel_init_channels_def demo_one_net_def demo_net_def)
  from allocated_port_is_shared[OF r this] r show ?thesis by auto
qed

section \<open>Cancelling\<close>

text \<open>
  Cancelling a remote forward frees exactly the listeners for that host and port, whatever
  holes the table has, never fails, and reports whether there was one.
\<close>

theorem cancel_frees_the_listeners:
  "\<exists>ssh'. channel_cancel_rport_listener_tcpip e ssh host port =
      Done (\<exists>i c. chan ssh i = Some c \<and> rport_sel host port c, ssh') \<and>
    (\<forall>j. chan ssh' j = (case chan ssh j of Some c \<Rightarrow> if rport_sel host port c then None else Some c | None \<Rightarrow> None))"
  unfolding channel_cancel_rport_listener_tcpip_def
  by (rule cancel_all) (rule listener_sel_types)


definition demo_rfwd :: Forward where
  "demo_rfwd = (demo_fwd ''localhost'' 8080)\<lparr>f_connect_host := Some ''web''\<rparr>"


text \<open>
  What disabling the administrator's side does: of the TCP and the streamlocal requests a direction
  can make, local ones are all refused, but a remote request for a socket path still passes where
  the user's list is open or has an entry.
\<close>

theorem disabling_spares_streamlocal:
  assumes "channel_disable_admin ssh whr = Done ssh'"
  shows "(case whr of
      FORWARD_LOCAL \<Rightarrow> \<not> connect_permitted ssh' host port
    | FORWARD_REMOTE \<Rightarrow> check_rfwd_permission ssh' fwd \<longleftrightarrow> f_listen_path fwd \<noteq> None \<and>
        (ps_all_permitted (s_remote_perms ssh') \<or> ps_permitted_user (s_remote_perms ssh') \<noteq> []))"
  using assms disabled_local disabled_remote by (cases whr) auto

theorem disabling_spares_streamlocal_witness:
  "\<exists>ssh'. channel_disable_admin (channel_permit_all (demo_table []) FORWARD_REMOTE) FORWARD_REMOTE = Done ssh' \<and>
     check_rfwd_permission ssh' ((demo_fwd ''localhost'' 0)\<lparr>f_listen_path := Some ''/tmp/s''\<rparr>)"
proof -
  obtain ssh' where r: "channel_disable_admin (channel_permit_all (demo_table []) FORWARD_REMOTE) FORWARD_REMOTE =
      Done ssh'" using disable_admin_ok by blast
  have "ps_all_permitted (s_remote_perms ssh')"
    using r by (auto simp: channel_disable_admin_def channel_permit_all_def channel_clear_permission_def
        permission_set_add_def demo_table_def channel_init_channels_def empty_set_perms_def Let_def andThen_Done
        permission_set_get_array.simps split: if_splits)
  with disabling_spares_streamlocal[OF r, where fwd = "(demo_fwd ''localhost'' 0)\<lparr>f_listen_path := Some ''/tmp/s''\<rparr>"] r
  show ?thesis by simp
qed

end
