(* ===== verification/ChanStream.thy ===== *)
theory ChanStream
  imports ChanWindow "HOL-Library.Sublist"
begin

text \<open>
  What a channel relays, as streams of bytes. Reads and polls in any order send what was read, in
  order; messages and writes in any order write what was received, in order. The step relations
  carry the bytes taken from one side beside the state, so that the properties can compare them
  with what reached the other.
\<close>

section \<open>From the descriptor to the network\<close>

text \<open>The bytes \<open>channel_handle_rfd\<close> takes from the descriptor: what the one call to \<open>read\<close> returns.\<close>

definition read_returns :: "env \<Rightarrow> (size_t \<Rightarrow> io_res) \<Rightarrow> channel \<Rightarrow> size_t \<Rightarrow> u8 list" where
  "read_returns e rd c m =
     (case fst (sshbuf_reserve (e_alc e) (c_input c) m) of
        Inl _ \<Rightarrow> []
      | Inr _ \<Rightarrow> (case rd m of Got bs \<Rightarrow> bs | _ \<Rightarrow> []))"

definition bytes_read :: "env \<Rightarrow> (size_t \<Rightarrow> io_res) \<Rightarrow> channel \<Rightarrow> u8 list" where
  "bytes_read e rd c =
     (if \<not> read_force c \<and> c_io_ready c AND SSH_CHAN_IO_RFD = 0 \<or> sshbuf_avail (c_input c) = 0 then []
      else case read_limit c of
             None \<Rightarrow> []
           | Some m \<Rightarrow> read_returns e rd c m)"

inductive in_step :: "env \<Rightarrow> chan_st \<times> u8 list \<Rightarrow> chan_st \<times> u8 list \<Rightarrow> bool" for e where
  In_read: "read_ok rd \<Longrightarrow> channel_handle_rfd e rd st = Done st' \<Longrightarrow>
     in_step e (st, got) (st', got @ bytes_read e rd (fst st))"
| In_poll: "channel_output_poll_input_open e st = Done st' \<Longrightarrow> in_step e (st, got) (st', got)"

inductive_cases in_stepE: "in_step e (st, got) x"

text \<open>A channel that streams: open, no datagrams, no filters, and its buffers in order.\<close>

definition streaming :: "channel \<Rightarrow> bool" where
  "streaming c \<longleftrightarrow> bufs_ok c \<and> \<not> c_datagram c \<and> c_input_filter c = None \<and> c_output_filter c = None \<and>
     c_type c = SSH_CHANNEL_OPEN"

lemma read_fail_stream:
  assumes "c_type c = SSH_CHANNEL_OPEN"
  shows "c_input (fst (read_fail (c, es))) = c_input c \<and>
    c_remote_window (fst (read_fail (c, es))) = c_remote_window c \<and>
    c_remote_maxpacket (fst (read_fail (c, es))) = c_remote_maxpacket c \<and>
    c_datagram (fst (read_fail (c, es))) = c_datagram c \<and>
    c_input_filter (fst (read_fail (c, es))) = c_input_filter c \<and>
    c_type (fst (read_fail (c, es))) = SSH_CHANNEL_OPEN \<and>
    c_have_remote_id (fst (read_fail (c, es))) = c_have_remote_id c \<and>
    data_sent t (snd (read_fail (c, es))) = data_sent t es"
  using assms by (auto simp: read_fail_def chan_read_failed_def chan_shutdown_read_def channel_close_fd_def
      chan_set_istate_def Let_def)

text \<open>What every outcome of the read leaves alone.\<close>

definition same_stream :: "chan_st \<Rightarrow> chan_st \<Rightarrow> bool" where
  "same_stream st st' \<longleftrightarrow> c_remote_window (fst st') = c_remote_window (fst st) \<and>
     c_remote_maxpacket (fst st') = c_remote_maxpacket (fst st) \<and>
     c_datagram (fst st') = c_datagram (fst st) \<and> c_input_filter (fst st') = c_input_filter (fst st) \<and>
     c_type (fst st') = SSH_CHANNEL_OPEN \<and> c_have_remote_id (fst st') = c_have_remote_id (fst st) \<and>
     (\<forall>t. data_sent t (snd st') = data_sent t (snd st))"

lemma read_fail_same:
  "c_type c = SSH_CHANNEL_OPEN \<Longrightarrow> same_stream (c, es) (read_fail (c\<lparr>c_input := inp\<rparr>, es)) \<and>
     c_input (fst (read_fail (c\<lparr>c_input := inp\<rparr>, es))) = inp"
  using read_fail_stream[of "c\<lparr>c_input := inp\<rparr>" es] by (simp add: same_stream_def)

lemma rfd_simple_stream:
  assumes m: "read_limit (fst st) = Some m" and r: "sshbuf_read (e_alc e) (c_input (fst st)) m rd = (r, inp)"
    and ty: "c_type (fst st) = SSH_CHANNEL_OPEN" and res: "rfd_simple e rd force st = Done st'"
  shows "same_stream st st' \<and> c_input (fst st') = inp"
proof -
  have "fst st' = (fst st)\<lparr>c_input := inp, c_lastused := e_monotime e\<rparr> \<and> snd st' = snd st \<or>
      st' = ((fst st)\<lparr>c_input := inp\<rparr>, snd st) \<or> st' = read_fail ((fst st)\<lparr>c_input := inp\<rparr>, snd st)"
    using res m r unfolding rfd_simple_def Let_def
    by (cases r) (auto split: if_split_asm)
  then show ?thesis
  proof (elim disjE)
    assume "st' = read_fail ((fst st)\<lparr>c_input := inp\<rparr>, snd st)"
    with read_fail_same[OF ty, of "snd st" inp] show ?thesis by simp
  qed (use ty in \<open>auto simp: same_stream_def\<close>)
qed

lemma rfd_stream:
  assumes s: "streaming (fst st)" and rd: "read_ok rd" and res: "channel_handle_rfd e rd st = Done st'"
  shows "contents (c_input (fst st')) = contents (c_input (fst st)) @ bytes_read e rd (fst st)"
    and "same_stream st st'" and "streaming (fst st')"
proof -
  let ?c = "fst st" and ?idle = "\<not> read_force (fst st) \<and> c_io_ready (fst st) AND SSH_CHAN_IO_RFD = 0 \<or>
      sshbuf_avail (c_input (fst st)) = 0"
  have i: "sshbuf_inv (c_input ?c)" and dg: "\<not> c_datagram ?c" and nf: "c_input_filter ?c = None"
    and nof: "c_output_filter ?c = None"
    and ty: "c_type ?c = SSH_CHANNEL_OPEN" and b: "bufs_ok ?c"
    using s by (simp_all add: streaming_def bufs_ok_def)
  have "same_stream st st' \<and> contents (c_input (fst st')) = contents (c_input ?c) @ bytes_read e rd ?c"
  proof (cases "?idle \<or> read_limit ?c = None")
    case True
    then have "st' = st" using res dg nf
      by (auto simp: channel_handle_rfd_def rfd_simple_def Let_def cong: if_cong split: if_split_asm)
    moreover have "bytes_read e rd ?c = []" using True by (auto simp: bytes_read_def)
    ultimately show ?thesis using ty by (simp add: same_stream_def)
  next
    case False
    then obtain m where m: "read_limit ?c = Some m" and ready: "\<not> ?idle" by auto
    obtain r inp where r: "sshbuf_read (e_alc e) (c_input ?c) m rd = (r, inp)" by fastforce
    have "rfd_simple e rd (read_force ?c) st = Done st'"
      using res ready dg nf by (auto simp: channel_handle_rfd_def Let_def split: if_split_asm)
    note st' = rfd_simple_stream[OF m r ty this]
    have "\<And>bs. rd m = Got bs \<Longrightarrow> length bs \<le> unat m" using rd by (simp add: read_ok_def)
    from sshbuf_read_result[OF i this r] have "contents inp = contents (c_input ?c) @ read_returns e rd ?c m"
      by (auto simp: read_returns_def split: io_res.splits sum.splits if_splits)
    moreover have "bytes_read e rd ?c = read_returns e rd ?c m" using ready m by (auto simp: bytes_read_def)
    ultimately show ?thesis using st' by simp
  qed
  then show "same_stream st st'" "contents (c_input (fst st')) = contents (c_input ?c) @ bytes_read e rd ?c"
    by simp_all
  then show "streaming (fst st')"
    using rfd_calmer[OF rd b nf res] calmer_frame[OF rfd_calmer[OF rd b nf res] b] dg nf nof
    by (simp add: streaming_def same_stream_def calmer_def)
qed

lemma poll_stream:
  assumes s: "streaming (fst st)" and res: "channel_output_poll_input_open e st = Done st'"
  shows "\<exists>chunks. data_sent SSH2_MSG_CHANNEL_DATA (snd st') = data_sent SSH2_MSG_CHANNEL_DATA (snd st) @ chunks \<and>
      concat chunks @ contents (c_input (fst st')) = contents (c_input (fst st)) \<and>
      unat (c_remote_window (fst st')) + length (concat chunks) = unat (c_remote_window (fst st)) \<and>
      (\<forall>p\<in>set chunks. 0 < length p \<and> length p \<le> unat (c_remote_maxpacket (fst st))) \<and>
      c_remote_maxpacket (fst st') = c_remote_maxpacket (fst st) \<and> streaming (fst st')"
proof (cases "contents (c_input (fst st)) = []")
  case True
  then have "sshbuf_len (c_input (fst st)) = 0" using s by (simp add: empty_len bufs_ok_def streaming_def)
  with res have "st' = st \<or> chan_ibuf_empty e st = Done st'"
    by (auto simp: channel_output_poll_input_open_def Let_def split: if_split_asm)
  then show ?thesis
  proof
    assume ie: "chan_ibuf_empty e st = Done st'"
    note f = ibuf_empty_frame(1)[OF ie]
    have "c_input (fst st') = c_input (fst st)" "c_remote_window (fst st') = c_remote_window (fst st)"
      "c_remote_maxpacket (fst st') = c_remote_maxpacket (fst st)" "streaming (fst st')"
      using s by (subst f, simp add: streaming_def bufs_ok_def)+
    then show ?thesis using True ibuf_empty_frame(2)[OF ie, of SSH2_MSG_CHANNEL_DATA]
      by (intro exI[of _ "[]"]) simp
  qed (use True s in \<open>auto intro!: exI[of _ "[]"]\<close>)
next
  case False
  have i: "sshbuf_inv (c_input (fst st))" and dg: "\<not> c_datagram (fst st)"
    using s by (simp_all add: streaming_def bufs_ok_def)
  let ?xs = "contents (c_input (fst st))" and ?mp = "unat (c_remote_maxpacket (fst st))"
  from poll_simple[OF i dg False res] obtain n where n:
    "data_sent SSH2_MSG_CHANNEL_DATA (snd st') = data_sent SSH2_MSG_CHANNEL_DATA (snd st) @
        (if n = 0 then [] else [take n ?xs])"
    "sshbuf_inv (c_input (fst st'))" "same_shape (c_input (fst st)) (c_input (fst st'))"
    "contents (c_input (fst st')) = drop n ?xs"
    "unat (c_remote_window (fst st')) + n = unat (c_remote_window (fst st))"
    "fst st' = (fst st)\<lparr>c_input := c_input (fst st'), c_remote_window := c_remote_window (fst st')\<rparr>"
    "n = min (length ?xs) (min (unat (c_remote_window (fst st))) ?mp)" by blast
  note c = calmer_sent[OF n(6) n(2) n(3)]
  have fr: "c_datagram (fst st') = c_datagram (fst st)" "c_input_filter (fst st') = c_input_filter (fst st)"
    "c_output_filter (fst st') = c_output_filter (fst st)" "c_type (fst st') = c_type (fst st)"
    by (subst n(6), simp)+
  have "bufs_ok (fst st')" using c s calmer_frame[of "fst st" "fst st'"] by (simp add: streaming_def)
  with fr s have "streaming (fst st')" by (simp add: streaming_def)
  have mp: "c_remote_maxpacket (fst st') = c_remote_maxpacket (fst st)" using c by blast
  show ?thesis
  proof (cases "n = 0")
    case True
    with n(1,4,5) mp \<open>streaming (fst st')\<close> show ?thesis by (intro exI[of _ "[]"]) simp
  next
    case nz: False
    have "length (take n ?xs) = n" "n \<le> ?mp" using n(7) by simp_all
    with nz n(1,4,5) mp \<open>streaming (fst st')\<close> show ?thesis
      by (intro exI[of _ "[take n ?xs]"]) (simp del: length_contents length_take)
  qed
qed

text \<open>Reads never fail fatally, and polls only for want of a transport or of the peer's id.\<close>

lemma rfd_done: "streaming (fst st) \<Longrightarrow> \<exists>st'. channel_handle_rfd e rd st = Done st'"
  by (auto simp: streaming_def channel_handle_rfd_def rfd_simple_def Let_def
      split: option.split prod.split io_res.split)

lemma poll_done:
  assumes s: "streaming (fst st)" and ne: "contents (c_input (fst st)) \<noteq> []" and rid: "c_have_remote_id (fst st)"
    and ok: "\<And>p. e_pkt_ok e p"
  shows "\<exists>st'. channel_output_poll_input_open e st = Done st'"
proof -
  let ?c = "fst st" and ?len = "sshbuf_len (c_input (fst st))"
  have i: "sshbuf_inv (c_input ?c)" using s by (simp add: streaming_def bufs_ok_def)
  have nz: "?len \<noteq> 0" using ne i by (metis length_0_conv unat_0 unat_sshbuf_len)
  have fits: "fst (sshbuf_consume (c_input ?c) n) = Inr ()" if "n \<le> ?len" for n
    using consume_spec[OF i, of n] that i by (auto simp: word_le_nat_alt split: if_splits)
  define len1 where "len1 = (if ?len > ucast (c_remote_window ?c) then ucast (c_remote_window ?c) else ?len)"
  define len2 where "len2 = (if len1 > ucast (c_remote_maxpacket ?c) then ucast (c_remote_maxpacket ?c) else len1)"
  have "len2 \<le> ?len" by (auto simp: len1_def len2_def)
  then obtain inp where "sshbuf_consume (c_input ?c) len2 = (Inr (), inp)" using fits by (metis prod.collapse)
  then show ?thesis using s nz rid ok
    by (simp add: channel_output_poll_input_open_def Let_def streaming_def send_pkt_def
        len1_def[symmetric] len2_def[symmetric])
qed

lemma input_stream:
  assumes "(in_step e)\<^sup>*\<^sup>* (st, got) (st', got')" "streaming (fst st)"
    and "length (contents (c_input (fst st))) \<le> unat (c_remote_window (fst st))"
  shows "\<exists>chunks more. got' = got @ more \<and>
    data_sent SSH2_MSG_CHANNEL_DATA (snd st') = data_sent SSH2_MSG_CHANNEL_DATA (snd st) @ chunks \<and>
    concat chunks @ contents (c_input (fst st')) = contents (c_input (fst st)) @ more \<and>
    unat (c_remote_window (fst st')) + length (concat chunks) = unat (c_remote_window (fst st)) \<and>
    length (contents (c_input (fst st'))) \<le> unat (c_remote_window (fst st')) \<and>
    (\<forall>p\<in>set chunks. 0 < length p \<and> length p \<le> unat (c_remote_maxpacket (fst st))) \<and>
    c_remote_maxpacket (fst st') = c_remote_maxpacket (fst st) \<and> streaming (fst st')"
  using assms(1)
proof (induction rule: rtranclp_induct2)
  case refl
  then show ?case using assms(2,3) by (intro exI[of _ "[]"]) simp
next
  case (step st1 got1 st2 got2)
  from step(3) obtain chunks more where IH: "got1 = got @ more"
    "data_sent SSH2_MSG_CHANNEL_DATA (snd st1) = data_sent SSH2_MSG_CHANNEL_DATA (snd st) @ chunks"
    "concat chunks @ contents (c_input (fst st1)) = contents (c_input (fst st)) @ more"
    "unat (c_remote_window (fst st1)) + length (concat chunks) = unat (c_remote_window (fst st))"
    "length (contents (c_input (fst st1))) \<le> unat (c_remote_window (fst st1))"
    "\<forall>p\<in>set chunks. 0 < length p \<and> length p \<le> unat (c_remote_maxpacket (fst st))"
    "c_remote_maxpacket (fst st1) = c_remote_maxpacket (fst st)" "streaming (fst st1)" by blast
  from step(2) consider rd where "read_ok rd" "channel_handle_rfd e rd st1 = Done st2"
      "got2 = got1 @ bytes_read e rd (fst st1)"
    | "channel_output_poll_input_open e st1 = Done st2" "got2 = got1"
    by (auto elim!: in_stepE)
  then show ?case
  proof cases
    case (1 rd)
    note rd = 1
    have "bufs_ok (fst st1)" "\<not> c_datagram (fst st1)" "c_input_filter (fst st1) = None"
      "c_type (fst st1) = SSH_CHANNEL_OPEN" using IH(8) by (simp_all add: streaming_def)
    note w = rfd_within_window[OF this(1) rd(1) this(2-4) IH(5) rd(2)]
    note r = rfd_stream[OF IH(8) rd(1,2)]
    have "concat chunks @ contents (c_input (fst st2)) = contents (c_input (fst st)) @ more @ bytes_read e rd (fst st1)"
      using IH(3) by (simp add: r(1))
    then show ?thesis using IH(1,2,4,6,7) r(2,3) w rd(3)
      by (intro exI[of _ chunks] exI[of _ "more @ bytes_read e rd (fst st1)"])
        (simp del: length_contents add: same_stream_def)
  next
    case 2
    note g = 2(2)
    from poll_stream[OF IH(8) 2(1)] obtain more_chunks where p:
      "data_sent SSH2_MSG_CHANNEL_DATA (snd st2) = data_sent SSH2_MSG_CHANNEL_DATA (snd st1) @ more_chunks"
      "concat more_chunks @ contents (c_input (fst st2)) = contents (c_input (fst st1))"
      "unat (c_remote_window (fst st2)) + length (concat more_chunks) = unat (c_remote_window (fst st1))"
      "\<forall>p\<in>set more_chunks. 0 < length p \<and> length p \<le> unat (c_remote_maxpacket (fst st1))"
      "c_remote_maxpacket (fst st2) = c_remote_maxpacket (fst st1)" "streaming (fst st2)" by blast
    have "length (concat more_chunks) + length (contents (c_input (fst st2))) = length (contents (c_input (fst st1)))"
      using arg_cong[OF p(2), of length] by (simp del: length_contents)
    with IH(5) p(3) have "length (contents (c_input (fst st2))) \<le> unat (c_remote_window (fst st2))" by linarith
    moreover have "concat (chunks @ more_chunks) @ contents (c_input (fst st2)) = contents (c_input (fst st)) @ more"
      using IH(3) p(2) by simp
    moreover have "unat (c_remote_window (fst st2)) + length (concat (chunks @ more_chunks)) = unat (c_remote_window (fst st))"
      using IH(4) p(3) by simp
    moreover have "\<forall>p\<in>set (chunks @ more_chunks). 0 < length p \<and> length p \<le> unat (c_remote_maxpacket (fst st))"
      using IH(6,7) p(4) by auto
    ultimately show ?thesis using IH(1,2,7) p(1,5,6) g
      by (intro exI[of _ "chunks @ more_chunks"] exI[of _ more]) simp
  qed
qed

section \<open>From the network to the descriptor\<close>

text \<open>The bytes of a message the channel accepts, and the bytes a pass hands to the descriptor.\<close>

definition accepted :: "channel \<Rightarrow> u8 list \<Rightarrow> u8 list" where
  "accepted c data =
     (if c_ostate c = CHAN_OUTPUT_OPEN \<and> length data \<le> unat (c_local_maxpacket c) \<and>
         length data \<le> unat (c_local_window c) then data else [])"

definition bytes_written :: "(u8 list \<Rightarrow> io_res) \<Rightarrow> channel \<Rightarrow> u8 list" where
  "bytes_written wr c =
     (if c_io_ready c AND SSH_CHAN_IO_WFD = 0 \<or> sshbuf_len (c_output c) = 0 then []
      else case wr (contents (c_output c)) of Wrote n \<Rightarrow> take n (contents (c_output c)) | _ \<Rightarrow> [])"

text \<open>The third component is what was accepted, the fourth what was written.\<close>

inductive out_step :: "env \<Rightarrow> u32 \<Rightarrow> chan_st \<times> u8 list \<times> u8 list \<Rightarrow> chan_st \<times> u8 list \<times> u8 list \<Rightarrow> bool"
  for e cm where
  Out_data: "length data < 2 ^ 32 \<Longrightarrow> take_data e (fst st) data = Some c' \<Longrightarrow>
     out_step e cm (st, got, put) ((c', snd st), got @ accepted (fst st) data, put)"
| Out_write: "write_ok wr \<Longrightarrow> channel_handle_wfd e cm wr st = Done st' \<Longrightarrow>
     out_step e cm (st, got, put) (st', got, put @ bytes_written wr (fst st))"
| Out_credit: "channel_check_window e st = Done st' \<Longrightarrow> out_step e cm (st, got, put) (st', got, put)"

inductive_cases out_stepE: "out_step e cm (st, got, put) x"

definition draining :: "channel \<Rightarrow> bool" where
  "draining c \<longleftrightarrow> bufs_ok c \<and> \<not> c_datagram c \<and> c_output_filter c = None"

lemma take_data_stream:
  assumes c: "draining c" and data: "length data < 2 ^ 32" and res: "take_data e c data = Some c'"
  shows "draining c' \<and> contents (c_output c') = contents (c_output c) @ accepted c data \<and>
    c_ostate c' = c_ostate c"
proof -
  have b: "bufs_ok c" and dg: "\<not> c_datagram c" using c by (simp_all add: draining_def)
  have w: "win_len c data = word_of_nat (length data)" using dg by (simp add: win_len_def)
  have u: "unat (word_of_nat (length data) :: size_t) = length data" using data by (intro unat_of_length) simp
  have big: "(win_len c data > ucast (c_local_maxpacket c)) = (length data > unat (c_local_maxpacket c))"
    "(win_len c data > ucast (c_local_window c)) = (length data > unat (c_local_window c))"
    by (simp_all add: word_less_nat_alt w u unat_ucast_up_32)
  obtain r out where p: "sshbuf_put (e_alc e) (c_output c) data = (r, out)" by fastforce
  have post: "put_post (c_output c) data r out"
    using put_framed_post[of c data "e_alc e" r out] b data dg p by (simp add: bufs_ok_def framed_def)
  have "c' = c\<lparr>c_local_window := c_local_window c - ucast (win_len c data),
                  c_local_consumed := c_local_consumed c + ucast (win_len c data)\<rparr> \<and> accepted c data = [] \<or>
    c' = c \<and> accepted c data = [] \<or>
    c' = c\<lparr>c_local_window := c_local_window c - ucast (win_len c data), c_output := out\<rparr> \<and>
      accepted c data = data \<and> (\<exists>u. r = Inr u)"
  proof (cases "c_ostate c = CHAN_OUTPUT_OPEN \<and> length data \<le> unat (c_local_maxpacket c) \<and>
      length data \<le> unat (c_local_window c)")
    case True
    with res big dg p have "r \<noteq> Inl x" for x by (cases r) (simp_all add: take_data_unfold)
    with True res big dg p show ?thesis by (cases r) (simp_all add: take_data_unfold accepted_def)
  next
    case False
    then have "accepted c data = []" unfolding accepted_def by argo
    show ?thesis
    proof (cases "c_ostate c = CHAN_OUTPUT_OPEN")
      case True
      with False res big have "c' = c"
        by (cases "length data \<le> unat (c_local_maxpacket c)") (simp_all add: take_data_unfold)
      with \<open>accepted c data = []\<close> show ?thesis by simp
    next
      case False
      with res \<open>accepted c data = []\<close> show ?thesis by (simp add: take_data_unfold)
    qed
  qed
  then show ?thesis
  proof (elim disjE)
    assume a: "c' = c\<lparr>c_local_window := c_local_window c - ucast (win_len c data), c_output := out\<rparr> \<and>
      accepted c data = data \<and> (\<exists>u. r = Inr u)"
    have "bufs_ok (c\<lparr>c_output := out\<rparr>)" by (rule bufs_ok_output[OF b post])
    with a post c show ?thesis by (auto simp: draining_def put_post_def bufs_ok_def)
  qed (use c in \<open>auto simp: draining_def bufs_ok_def\<close>)
qed

text \<open>A failing write closes the output and drops what is in the buffer, or leaves both alone.\<close>

lemma write_fail_stream:
  assumes c: "draining (fst st)" and res: "write_fail e cm st = Done st'"
  shows "draining (fst st') \<and>
    (contents (c_output (fst st')) = contents (c_output (fst st)) \<and> c_ostate (fst st') = c_ostate (fst st) \<or>
     contents (c_output (fst st')) = [] \<and> c_ostate (fst st') = CHAN_OUTPUT_CLOSED)"
proof -
  let ?out = "sshbuf_reset (e_alc e) (c_output (fst st))"
  have o: "sshbuf_inv (c_output (fst st))" and dg: "\<not> c_datagram (fst st)" using c by (simp_all add: draining_def bufs_ok_def)
  have cm: "calmer (fst st) (fst st')" by (rule calmer_write_fail[OF res])
  have d: "c_datagram (fst (chan_shutdown_write e st)) = c_datagram (fst st)"
    "c_output (fst (chan_shutdown_write e st)) = ?out"
    by (simp_all add: chan_shutdown_write_def channel_close_fd_def Let_def)
  have eow: "c_datagram (fst st2) = c_datagram (fst st1) \<and> c_output (fst st2) = c_output (fst st1)"
    if "chan_send_eow2 e cm st1 = Done st2" for st1 st2
    using that by (auto simp: chan_send_eow2_def Let_def andThen_Done send_pkt_def set_flag_def split: if_split_asm)
  have "(st' = chan_mark_dead st \<or> st' = st) \<or>
      (\<exists>st2. (st2 = chan_shutdown_write e st \<or> chan_send_eow2 e cm (chan_shutdown_write e st) = Done st2) \<and>
        st' = chan_set_ostate CHAN_OUTPUT_CLOSED st2)"
  proof (cases "c_type (fst st) = SSH_CHANNEL_OPEN")
    case True
    with res have "chan_write_failed e cm st = Done st'" by (simp add: write_fail_def)
    then show ?thesis
      by (cases "c_ctype (fst (chan_shutdown_write e st)) = ''session''")
        (auto simp only: chan_write_failed_def Let_def andThen_Done run.inject if_True if_False split: if_split_asm)
  next
    case False
    with res show ?thesis by (simp add: write_fail_def)
  qed
  then consider "st' = chan_mark_dead st \<or> st' = st"
    | st2 where "st2 = chan_shutdown_write e st \<or> chan_send_eow2 e cm (chan_shutdown_write e st) = Done st2"
      "st' = chan_set_ostate CHAN_OUTPUT_CLOSED st2" by blast
  then have "c_output (fst st') = c_output (fst st) \<and> c_ostate (fst st') = c_ostate (fst st) \<and>
      c_datagram (fst st') = c_datagram (fst st) \<or>
    c_output (fst st') = ?out \<and> c_ostate (fst st') = CHAN_OUTPUT_CLOSED \<and> c_datagram (fst st') = c_datagram (fst st)"
  proof cases
    case 1
    then show ?thesis by (auto simp: chan_mark_dead_def)
  next
    case (2 st2)
    have "c_datagram (fst st2) = c_datagram (fst st) \<and> c_output (fst st2) = ?out"
      using 2(1) eow[of "chan_shutdown_write e st" st2] d by (elim disjE) simp_all
    then show ?thesis using 2(2) by (simp add: chan_set_ostate_def)
  qed
  with c cm calmer_frame[OF cm] reset_spec(1)[OF o, of "e_alc e"] show ?thesis
    by (auto simp: draining_def calmer_def)
qed

lemma wfd_stream_bytes:
  assumes c: "draining (fst st)" and wr: "write_ok wr" and res: "channel_handle_wfd e cm wr st = Done st'"
  shows "draining (fst st') \<and>
    (contents (c_output (fst st)) = bytes_written wr (fst st) @ contents (c_output (fst st')) \<and>
       c_ostate (fst st') = c_ostate (fst st) \<or>
     bytes_written wr (fst st) = [] \<and> contents (c_output (fst st')) = [] \<and>
       c_ostate (fst st') = CHAN_OUTPUT_CLOSED)"
proof (cases "c_io_ready (fst st) AND SSH_CHAN_IO_WFD = 0 \<or> sshbuf_len (c_output (fst st)) = 0")
  case True
  with res c show ?thesis by (auto simp: channel_handle_wfd_def bytes_written_def Let_def cong: if_cong)
next
  case ready: False
  let ?c = "fst st" and ?buf = "contents (c_output (fst st))" and ?olen = "sshbuf_len (c_output (fst st))"
  have o: "sshbuf_inv (c_output ?c)" and dg: "\<not> c_datagram ?c" and nf: "c_output_filter ?c = None" and b: "bufs_ok ?c"
    using c by (simp_all add: draining_def bufs_ok_def)
  have d: "wfd_data e cm st = Done (Some ?buf, st)" using dg nf by (simp add: wfd_data_def Let_def)
  have bw: "bytes_written wr ?c = (case wr ?buf of Wrote n \<Rightarrow> take n ?buf | _ \<Rightarrow> [])"
    using ready by (auto simp: bytes_written_def)
  have wrote: "?thesis" if w: "wr ?buf = Wrote n" "n \<noteq> 0" for n
  proof -
    have n: "n \<le> length ?buf" using wr w by (simp add: write_ok_def)
    have u: "unat (word_of_nat n :: size_t) = n"
      using n o unat_less_64[of ?olen] by (simp add: unsigned_of_nat take_bit_nat_eq_self)
    obtain rc out2 where g: "sshbuf_consume (c_output ?c) (word_of_nat n) = (rc, out2)" by fastforce
    have "wfd_stream e ?olen ?buf n st = Done st'"
      using res ready d w dg by (simp add: channel_handle_wfd_def Let_def cong: if_cong)
    with g obtain es where st': "st' = wfd_consumed ?olen
        (?c\<lparr>c_lastused := e_monotime e, c_output := out2\<rparr>, es)"
      by (cases rc) (auto simp: wfd_stream_def Let_def andThen_Done wfd_consumed_def)
    have o2: "sshbuf_inv out2" "same_shape (c_output ?c) out2" "contents out2 = drop n ?buf"
      using consume_spec[OF o, of "word_of_nat n"] g n u by (simp_all split: if_splits del: length_contents)
    have "length (contents out2) \<le> length ?buf" using o2(3) by (simp del: length_contents)
    from calmer_frame[OF calmer_output[OF o2(1,2) this] b] have "bufs_ok (?c\<lparr>c_output := out2\<rparr>)" .
    then show ?thesis using o2(3) dg nf bw w by (simp add: st' wfd_consumed_def draining_def bufs_ok_def)
  qed
  have "(\<exists>n. wr ?buf = Wrote n \<and> n \<noteq> 0) \<or> bytes_written wr ?c = [] \<and> (st' = st \<or> write_fail e cm st = Done st')"
    using res ready d dg bw by (auto simp: channel_handle_wfd_def Let_def cong: if_cong split: if_split_asm io_res.split_asm)
  then show ?thesis using wrote write_fail_stream[OF c, of e cm st'] c by (elim disjE exE conjE) auto
qed

lemma check_window_stream:
  assumes "channel_check_window e st = Done st'"
  shows "c_output (fst st') = c_output (fst st) \<and> c_ostate (fst st') = c_ostate (fst st) \<and>
    (draining (fst st) \<longrightarrow> draining (fst st'))"
  using assms by (auto simp: channel_check_window_def Let_def andThen_Done send_pkt_def draining_def bufs_ok_def
      split: if_split_asm)

text \<open>What the steps keep: everything accepted is written or still held, unless the output was closed on a failure.\<close>

definition out_inv :: "chan_st \<times> u8 list \<times> u8 list \<Rightarrow> bool" where
  "out_inv s \<longleftrightarrow> (case s of (st, got, put) \<Rightarrow>
     draining (fst st) \<and>
     (got = put @ contents (c_output (fst st)) \<or>
      prefix put got \<and> contents (c_output (fst st)) = [] \<and> c_ostate (fst st) = CHAN_OUTPUT_CLOSED))"

lemma out_step_inv: "out_step e cm s s' \<Longrightarrow> out_inv s \<Longrightarrow> out_inv s'"
proof (induction rule: out_step.induct)
  case (Out_data data st c' got put)
  then have d: "draining (fst st)" by (simp add: out_inv_def)
  from take_data_stream[OF this Out_data(1,2)] Out_data(3) show ?case
    by (auto simp: out_inv_def accepted_def)
next
  case (Out_write wr st st' got put)
  then have d: "draining (fst st)" by (simp add: out_inv_def)
  have nw: "bytes_written wr (fst st) = []" if "contents (c_output (fst st)) = []"
    using that by (auto simp: bytes_written_def split: io_res.splits)
  from wfd_stream_bytes[OF d Out_write(1,2)] Out_write(3) nw show ?case
    by (auto simp: out_inv_def prefix_def)
next
  case (Out_credit st st' got put)
  then show ?case using check_window_stream[OF Out_credit(1)] by (auto simp: out_inv_def)
qed

lemma out_steps_inv: "(out_step e cm)\<^sup>*\<^sup>* s s' \<Longrightarrow> out_inv s \<Longrightarrow> out_inv s'"
  by (induction rule: rtranclp_induct) (auto intro: out_step_inv)

section \<open>Everything that moves the window we grant\<close>

text \<open>
  The messages that carry data, a poll of what is to be sent, and a pass over the descriptors. A
  message that comes when the output is closed is discarded without a look at the window, so the
  rule for it says that the peer keeps to the window.
\<close>

inductive flow_step :: "env \<Rightarrow> u32 \<Rightarrow> chan_st \<Rightarrow> chan_st \<Rightarrow> bool" for e cm where
  Flow_data: "length data < 2 ^ 32 \<Longrightarrow>
     c_ostate c = CHAN_OUTPUT_OPEN \<or> length (framed c data) \<le> unat (c_local_window c) \<Longrightarrow>
     take_data e c data = Some c' \<Longrightarrow> flow_step e cm (c, fx) (c', fx)"
| Flow_ext_data: "length data < 2 ^ 32 \<Longrightarrow> c_extended_usage c = CHAN_EXTENDED_WRITE \<Longrightarrow>
     flow_step e cm (c, fx) (take_ext_data e c data, fx)"
| Flow_poll: "output_poll_one e st = Done st' \<Longrightarrow> flow_step e cm st st'"
| Flow_post: "c_input_filter (fst st) = None \<Longrightarrow> c_output_filter (fst st) = None \<Longrightarrow>
     read_ok rd \<Longrightarrow> read_ok erd \<Longrightarrow> write_ok ewr \<Longrightarrow>
     channel_post_open e cm rd wr erd ewr st = Done st' \<Longrightarrow> flow_step e cm st st'"

lemma flow_step_window: "flow_step e cm st st' \<Longrightarrow> window_inv (fst st) \<Longrightarrow> window_inv (fst st')"
proof (induction rule: flow_step.induct)
  case (Flow_data data c c' fx)
  then have inv: "window_inv c" by simp
  show ?case
  proof (cases "c_ostate c = CHAN_OUTPUT_OPEN")
    case True
    from take_data_open[OF inv Flow_data(1) True Flow_data(3)] show ?thesis by simp
  next
    case False
    from take_data_closed[OF inv Flow_data(1) False, of e] Flow_data(2,3) False show ?thesis by auto
  qed
next
  case (Flow_ext_data data c fx)
  then show ?case using take_ext_data_window(1)[of c data e] by simp
next
  case (Flow_poll st st')
  then show ?case using output_poll_calmer[of st e st'] calmer_window by (auto simp: window_inv_def)
next
  case (Flow_post st rd erd ewr wr st')
  then show ?case using post_open_window by blast
qed

lemma flow_steps_window: "(flow_step e cm)\<^sup>*\<^sup>* st st' \<Longrightarrow> window_inv (fst st) \<Longrightarrow> window_inv (fst st')"
  by (induction rule: rtranclp_induct) (auto intro: flow_step_window)

lemma window_inv_fresh: "fresh_channel i ctype type window maxpack c \<Longrightarrow> window_inv c"
  by (simp add: fresh_channel_def window_inv_def held_def)

end
