(* ===== verification/FlowProps.thy ===== *)
theory FlowProps
  imports Demo ChanStream
begin

text \<open>Properties of the data a channel carries: flow control, and the order of what is relayed.\<close>

section \<open>The window granted to the peer\<close>



text \<open>
  The one message that escapes the accounts: when the output is already closed, data longer
  than the window left is not refused, and the window wraps round to almost its largest value.
\<close>

theorem discarded_data_wraps_window:
  assumes "c_ostate c \<noteq> CHAN_OUTPUT_OPEN" "\<not> c_datagram c"
    and "unat (c_local_window c) < length data" "length data < 2 ^ 32"
  shows "\<exists>c'. take_data e c data = Some c' \<and>
    unat (c_local_window c') = 2 ^ 32 + unat (c_local_window c) - length data"
proof -
  have w: "win_len c data = word_of_nat (length data)" using assms(2) by (simp add: win_len_def)
  have u: "unat (ucast (win_len c data) :: u32) = length data"
    unfolding w by (subst unat_ucast_down_32) (use assms(4) in \<open>simp_all add: unat_of_length\<close>)
  have "unat (c_local_window c - ucast (win_len c data)) = 2 ^ 32 + unat (c_local_window c) - length data"
    using u assms(3) by (subst unat_sub_if') simp
  then show ?thesis using assms(1) by (simp add: take_data_unfold)
qed

theorem discarded_data_wraps_window_witness:
  "\<exists>c'. take_data demo_env (demo_open\<lparr>c_ostate := CHAN_OUTPUT_CLOSED, c_local_window := 1\<rparr>) [1, 2] = Some c' \<and>
     unat (c_local_window c') = 4294967295"
  using discarded_data_wraps_window[of "demo_open\<lparr>c_ostate := CHAN_OUTPUT_CLOSED, c_local_window := 1\<rparr>" "[1, 2]" demo_env]
  by (simp add: demo_simps)

section \<open>What is relayed\<close>

text \<open>
  C18: From the descriptor to the network: however reads and polls interleave, the payloads of the
  data messages sent, one after the other, followed by what is still buffered, are exactly the
  bytes read; no payload is larger than the peer's packet size, all together they fit in the
  window it granted, and the channel never reads more than that window.
\<close>

theorem input_relayed_in_order:
  assumes "(in_step e)\<^sup>*\<^sup>* ((c, []), []) (st', got)" "streaming c" "contents (c_input c) = []"
  shows "concat (data_sent SSH2_MSG_CHANNEL_DATA (snd st')) @ contents (c_input (fst st')) = got \<and>
    (\<forall>p\<in>set (data_sent SSH2_MSG_CHANNEL_DATA (snd st')). 0 < length p \<and> length p \<le> unat (c_remote_maxpacket c)) \<and>
    unat (c_remote_window (fst st')) + length (concat (data_sent SSH2_MSG_CHANNEL_DATA (snd st'))) =
      unat (c_remote_window c) \<and>
    length got \<le> unat (c_remote_window c)"
proof -
  from input_stream[OF assms(1)] assms(2,3) obtain chunks where *:
    "data_sent SSH2_MSG_CHANNEL_DATA (snd st') = chunks"
    "concat chunks @ contents (c_input (fst st')) = got"
    "unat (c_remote_window (fst st')) + length (concat chunks) = unat (c_remote_window c)"
    "length (contents (c_input (fst st'))) \<le> unat (c_remote_window (fst st'))"
    "\<forall>p\<in>set chunks. 0 < length p \<and> length p \<le> unat (c_remote_maxpacket c)" by auto
  have "length got = length (concat chunks) + length (contents (c_input (fst st')))"
    using *(2) by (metis length_append)
  with *(3,4) have "length got \<le> unat (c_remote_window c)" by linarith
  with * show ?thesis by simp
qed

definition demo_rd :: "size_t \<Rightarrow> io_res" where "demo_rd n = Got (take (unat n) [1, 2, 3])"

definition demo_ready :: channel where
  "demo_ready = demo_open\<lparr>c_io_ready := SSH_CHAN_IO_RFD OR SSH_CHAN_IO_WFD\<rparr>"

lemma demo_streaming: "streaming demo_ready" "draining demo_ready"
  by (simp_all add: streaming_def draining_def demo_ready_def bufs_ok_def demo_simps)

lemma demo_bytes_read: "bytes_read demo_env demo_rd demo_ready = [1, 2, 3]"
proof -
  have "read_limit demo_ready = Some 1000"
    by (simp add: read_limit_def demo_ready_def demo_simps sshbuf_avail_def sshbuf_len_def demo_buf_def
        sshbuf_check_sanity_def Let_def)
  moreover have "sshbuf_avail (c_input demo_ready) \<noteq> 0"
    by (simp add: demo_ready_def demo_simps sshbuf_avail_def demo_buf_def sshbuf_check_sanity_def)
  ultimately show ?thesis using demo_reserve(1)
    by (auto simp: bytes_read_def read_returns_def demo_ready_def demo_simps demo_rd_def)
qed

theorem input_relayed_in_order_witness:
  "\<exists>st'. (in_step demo_env)\<^sup>*\<^sup>* ((demo_ready, []), []) (st', [1, 2, 3]) \<and>
     concat (data_sent SSH2_MSG_CHANNEL_DATA (snd st')) @ contents (c_input (fst st')) = [1, 2, 3]"
proof -
  obtain st1 where r: "channel_handle_rfd demo_env demo_rd (demo_ready, []) = Done st1"
    using rfd_done[of "(demo_ready, [])" demo_env demo_rd] demo_streaming(1) by auto
  have ok: "read_ok demo_rd" by (simp add: read_ok_def demo_rd_def)
  note s1 = rfd_stream[OF _ ok r, simplified, OF demo_streaming(1)]
  obtain st' where p: "channel_output_poll_input_open demo_env st1 = Done st'"
    using poll_done[OF s1(3), of demo_env] s1(1,2) demo_bytes_read
    by (auto simp: same_stream_def demo_ready_def demo_simps)
  have "in_step demo_env ((demo_ready, []), []) (st1, [1, 2, 3])"
    using In_read[OF ok r, of "[]"] demo_bytes_read by simp
  moreover have "in_step demo_env (st1, [1, 2, 3]) (st', [1, 2, 3])" by (rule In_poll[OF p])
  ultimately have steps: "(in_step demo_env)\<^sup>*\<^sup>* ((demo_ready, []), []) (st', [1, 2, 3])"
    by (meson rtranclp.rtrancl_refl rtranclp.rtrancl_into_rtrancl)
  have "contents (c_input demo_ready) = []" by (simp add: demo_ready_def demo_simps)
  from input_relayed_in_order[OF steps demo_streaming(1) this] steps show ?thesis by blast
qed

text \<open>
  C19: From the network to the descriptor: however messages, writes and window adjustments
  interleave, what was written to the descriptor is always a front of the data accepted from the
  peer, and while the output is open the rest of it is in the buffer.
\<close>

theorem output_relayed_in_order:
  assumes "(out_step e cm)\<^sup>*\<^sup>* ((c, []), [], []) (st', got, put)" "draining c" "contents (c_output c) = []"
  shows "prefix put got \<and>
    (c_ostate (fst st') = CHAN_OUTPUT_OPEN \<longrightarrow> got = put @ contents (c_output (fst st')))"
proof -
  have "out_inv ((c, []), [], [])" using assms(2,3) by (simp add: out_inv_def)
  from out_steps_inv[OF assms(1) this] show ?thesis by (auto simp: out_inv_def)
qed

theorem output_relayed_in_order_witness:
  "\<exists>c'. (out_step demo_env 0)\<^sup>*\<^sup>* ((demo_open, []), [], []) ((c', []), [1, 2, 3], []) \<and>
     contents (c_output c') = [1, 2, 3]"
proof -
  obtain c' where t: "take_data demo_env demo_open [1, 2, 3] = Some c'" using demo_take_data by blast
  have d: "draining demo_open" by (simp add: draining_def bufs_ok_def demo_simps)
  have a: "accepted demo_open [1, 2, 3] = [1, 2, 3]" by (simp add: accepted_def demo_simps)
  have "out_step demo_env 0 ((demo_open, []), [], []) ((c', []), [1, 2, 3], [])"
    using Out_data[of "[1, 2, 3]" demo_env "(demo_open, [])" c' 0 "[]" "[]"] t a by simp
  then have steps: "(out_step demo_env 0)\<^sup>*\<^sup>* ((demo_open, []), [], []) ((c', []), [1, 2, 3], [])" by blast
  have "contents (c_output demo_open) = []" by (simp add: demo_simps)
  with output_relayed_in_order[OF steps d] take_data_stream[OF d _ t] have "contents (c_output c') = [1, 2, 3]"
    by (simp add: demo_simps)
  with steps show ?thesis by blast
qed

text \<open>
  A datagram channel sends each packet whole, in one message, or, when it does not fit in the
  peer's window or packet size, drops it whole and sends nothing.
\<close>

theorem datagrams_whole_or_dropped:
  assumes "sshbuf_inv (c_input c)" "c_datagram c" "contents (c_input c) = enc_string pkt @ rest" "length pkt < 134217724"
    and "channel_output_poll_input_open e (c, fx) = Done st'"
  shows "contents (c_input (fst st')) = rest \<and>
    (if length pkt \<le> min (unat (c_remote_window c)) (unat (c_remote_maxpacket c))
     then data_sent SSH2_MSG_CHANNEL_DATA (snd st') = data_sent SSH2_MSG_CHANNEL_DATA fx @ [pkt] \<and>
          unat (c_remote_window (fst st')) + length pkt = unat (c_remote_window c)
     else snd st' = fx \<and> c_remote_window (fst st') = c_remote_window c)"
proof -
  have p: "parse_string (contents (c_input c)) = Inr pkt" using assms(3,4) by (simp add: parse_enc_string)
  have "length (contents (c_input c)) > 0" unfolding assms(3) by simp
  then have "contents (c_input (fst (c, fx))) \<noteq> []" by (simp del: length_contents)
  from poll_datagram[OF _ _ this assms(5)] assms(1,2,3) p show ?thesis
    by (simp add: length_enc_string)
qed

theorem datagrams_whole_or_dropped_witness:
  "\<exists>st'. channel_output_poll_input_open demo_env
       (demo_open\<lparr>c_datagram := True, c_input := demo_buf (enc_string [7, 8])\<rparr>, []) = Done st' \<and>
     contents (c_input (fst st')) = [] \<and> data_sent SSH2_MSG_CHANNEL_DATA (snd st') = [[7, 8]]"
proof -
  let ?c = "demo_open\<lparr>c_datagram := True, c_input := demo_buf (enc_string [7, 8])\<rparr>"
  have i: "sshbuf_inv (c_input ?c)" "contents (c_input ?c) = enc_string [7, 8] @ []" by simp_all
  have p: "parse_string (contents (c_input ?c)) = Inr [7, 8]" unfolding i(2) by (rule parse_enc_string) simp
  obtain r inp where g: "sshbuf_get_string_direct (c_input ?c) = (r, inp)" by fastforce
  from get_string_direct_spec[OF i(1) g] p have "r = Inr [7, 8]" by (simp del: length_contents)
  with g obtain st' where r: "channel_output_poll_input_open demo_env (?c, []) = Done st'"
    by (simp add: channel_output_poll_input_open_def Let_def send_pkt_def demo_simps)
  have "length [7, 8 :: u8] < 134217724" "c_datagram ?c"
    "length [7, 8 :: u8] \<le> min (unat (c_remote_window ?c)) (unat (c_remote_maxpacket ?c))" by (simp_all add: demo_simps)
  with datagrams_whole_or_dropped[OF i(1) _ i(2) _ r]
  have "contents (c_input (fst st')) = []" "data_sent SSH2_MSG_CHANNEL_DATA (snd st') = [[7, 8]]"
    by (simp_all del: length_contents)
  with r show ?thesis by blast
qed

end
