(* ===== verification/WireMsg.thy ===== *)
theory WireMsg
  imports SshBufWire
begin

text \<open>
  Messages field by field: a typed value for each kind of field the code puts into a buffer, and
  what putting and getting a list of them does. The laws come from the interpretations of the codec
  interface.
\<close>

datatype wire_kind = K_u8 | K_u16 | K_u32 | K_u64 | K_string | K_cstring | K_bignum2

datatype wire_val =
    V_u8 u8 | V_u16 u16 | V_u32 u32 | V_u64 u64 | V_string "u8 list" | V_cstring "u8 list"
  | V_bignum2 "u8 list"

fun kind_of :: "wire_val \<Rightarrow> wire_kind" where
  "kind_of (V_u8 v) = K_u8"
| "kind_of (V_u16 v) = K_u16"
| "kind_of (V_u32 v) = K_u32"
| "kind_of (V_u64 v) = K_u64"
| "kind_of (V_string v) = K_string"
| "kind_of (V_cstring v) = K_cstring"
| "kind_of (V_bignum2 v) = K_bignum2"

text \<open>The values a kind can carry, and what they look like on the wire.\<close>

fun valid_val :: "wire_val \<Rightarrow> bool" where
  "valid_val (V_string v) \<longleftrightarrow> length v \<le> 134217724"
| "valid_val (V_cstring v) \<longleftrightarrow> 0 \<notin> set v \<and> length v \<le> 134217724"
| "valid_val (V_bignum2 v) \<longleftrightarrow> (v = [] \<or> hd v \<noteq> 0) \<and> length v \<le> 2048"
| "valid_val _ \<longleftrightarrow> True"

fun enc_val :: "wire_val \<Rightarrow> u8 list" where
  "enc_val (V_u8 v) = [v]"
| "enc_val (V_u16 v) = POKE_U16 v"
| "enc_val (V_u32 v) = POKE_U32 v"
| "enc_val (V_u64 v) = POKE_U64 v"
| "enc_val (V_string v) = enc_string v"
| "enc_val (V_cstring v) = enc_string v"
| "enc_val (V_bignum2 v) = enc_bignum2 v"

fun put_val :: "(size_t \<Rightarrow> ptr) \<Rightarrow> sshbuf \<Rightarrow> wire_val \<Rightarrow> unit res \<times> sshbuf" where
  "put_val alc buf (V_u8 v) = sshbuf_put_u8 alc buf v"
| "put_val alc buf (V_u16 v) = sshbuf_put_u16 alc buf v"
| "put_val alc buf (V_u32 v) = sshbuf_put_u32 alc buf v"
| "put_val alc buf (V_u64 v) = sshbuf_put_u64 alc buf v"
| "put_val alc buf (V_string v) = sshbuf_put_string alc buf v"
| "put_val alc buf (V_cstring v) = sshbuf_put_cstring alc buf (Some v)"
| "put_val alc buf (V_bignum2 v) = sshbuf_put_bignum2_bytes alc buf v"

fun get_val :: "wire_kind \<Rightarrow> sshbuf \<Rightarrow> wire_val res \<times> sshbuf" where
  "get_val K_u8 buf = apfst (map_sum id V_u8) (sshbuf_get_u8 buf)"
| "get_val K_u16 buf = apfst (map_sum id V_u16) (sshbuf_get_u16 buf)"
| "get_val K_u32 buf = apfst (map_sum id V_u32) (sshbuf_get_u32 buf)"
| "get_val K_u64 buf = apfst (map_sum id V_u64) (sshbuf_get_u64 buf)"
| "get_val K_string buf = apfst (map_sum id V_string) (sshbuf_get_string_direct buf)"
| "get_val K_cstring buf = apfst (map_sum id V_cstring) (sshbuf_get_cstring (\<lambda>_. 1) buf)"
| "get_val K_bignum2 buf = apfst (map_sum id V_bignum2) (sshbuf_get_bignum2_bytes_direct buf)"

fun put_vals :: "(size_t \<Rightarrow> ptr) \<Rightarrow> sshbuf \<Rightarrow> wire_val list \<Rightarrow> unit res \<times> sshbuf" where
  "put_vals alc buf [] = (Inr (), buf)"
| "put_vals alc buf (v # vs) =
     (case put_val alc buf v of (Inl r, b) \<Rightarrow> (Inl r, b) | (Inr _, b) \<Rightarrow> put_vals alc b vs)"

fun get_vals :: "wire_kind list \<Rightarrow> sshbuf \<Rightarrow> wire_val list res \<times> sshbuf" where
  "get_vals [] buf = (Inr [], buf)"
| "get_vals (k # ks) buf =
     (case get_val k buf of
        (Inl r, b) \<Rightarrow> (Inl r, b)
      | (Inr v, b) \<Rightarrow> apfst (map_sum id ((#) v)) (get_vals ks b))"

lemma put_val_post:
  "sshbuf_inv buf \<Longrightarrow> valid_val v \<Longrightarrow> put_val alc buf v = (r, b) \<Longrightarrow> put_post buf (enc_val v) r b"
  by (cases v)
    (auto intro: cod_u8.put_law cod_u16.put_law cod_u32.put_law cod_u64.put_law cod_string.put_law
      cod_cstring.put_law cod_bignum2.put_law)

lemma get_val_law:
  assumes "sshbuf_inv buf" "valid_val v" "contents buf = enc_val v @ rest"
  shows "\<exists>b. get_val (kind_of v) buf = (Inr v, b) \<and> sshbuf_inv b \<and> same_shape buf b \<and> contents b = rest"
proof (cases v)
  case (V_u8 x)
  with cod_u8.get_law[OF assms(1), of x rest] assms(2,3) show ?thesis by auto
next
  case (V_u16 x)
  with cod_u16.get_law[OF assms(1), of x rest] assms(2,3) show ?thesis by auto
next
  case (V_u32 x)
  with cod_u32.get_law[OF assms(1), of x rest] assms(2,3) show ?thesis by auto
next
  case (V_u64 x)
  with cod_u64.get_law[OF assms(1), of x rest] assms(2,3) show ?thesis by auto
next
  case (V_string x)
  with cod_string.get_law[OF assms(1), of x rest] assms(2,3) show ?thesis by auto
next
  case (V_cstring x)
  with cod_cstring.get_law[OF assms(1), of x rest] assms(2,3) show ?thesis by auto
next
  case (V_bignum2 x)
  with cod_bignum2.get_law[OF assms(1), of x rest] assms(2,3) show ?thesis by auto
qed

lemma put_vals_contents:
  "sshbuf_inv buf \<Longrightarrow> \<forall>v\<in>set vs. valid_val v \<Longrightarrow> put_vals alc buf vs = (Inr u, b) \<Longrightarrow>
   sshbuf_inv b \<and> same_shape buf b \<and> contents b = contents buf @ concat (map enc_val vs)"
proof (induction vs arbitrary: buf)
  case (Cons v vs)
  obtain u' b1 where p: "put_val alc buf v = (Inr u', b1)" and rest: "put_vals alc b1 vs = (Inr u, b)"
    using Cons.prems(3) by (auto split: prod.splits sum.splits)
  have "put_post buf (enc_val v) (Inr u') b1" using Cons.prems p by (intro put_val_post) auto
  then have b1: "sshbuf_inv b1" "same_shape buf b1" "contents b1 = contents buf @ enc_val v"
    by (simp_all add: put_post_def)
  with Cons.IH[OF b1(1) _ rest] Cons.prems(2) show ?case by (auto intro: same_shape_trans)
qed simp

lemma get_vals_contents:
  "sshbuf_inv buf \<Longrightarrow> \<forall>v\<in>set vs. valid_val v \<Longrightarrow> contents buf = concat (map enc_val vs) @ rest \<Longrightarrow>
   \<exists>b. get_vals (map kind_of vs) buf = (Inr vs, b) \<and> sshbuf_inv b \<and> contents b = rest"
proof (induction vs arbitrary: buf)
  case (Cons v vs)
  from Cons.prems have "valid_val v" "contents buf = enc_val v @ (concat (map enc_val vs) @ rest)" by simp_all
  from get_val_law[OF Cons.prems(1) this] obtain b1 where
    "get_val (kind_of v) buf = (Inr v, b1)" "sshbuf_inv b1" "contents b1 = concat (map enc_val vs) @ rest" by blast
  with Cons.IH[of b1] Cons.prems(2) show ?case by auto
qed simp

text \<open>What a getter does with a value that is cut short.\<close>

lemma parse_string_short:
  assumes "n < 4 + length v" "length v \<le> 134217724"
  shows "parse_string (take n (enc_string v)) = Inl SSH_ERR_MESSAGE_INCOMPLETE"
proof (cases "n < 4")
  case False
  have l4: "length (POKE_U32 w) = 4" for w by simp
  from False have "take 4 (take n (enc_string v)) = POKE_U32 (word_of_nat (length v))"
    using l4[of "word_of_nat (length v)"] by (simp add: enc_string_def min_def)
  moreover have "unat (word_of_nat (length v) :: u32) = length v"
    using assms(2) by (simp add: unat_of_nat take_bit_eq_mod)
  ultimately show ?thesis using False assms by (simp add: parse_string_def min_def Let_def)
qed (simp add: parse_string_def)

lemma get_val_short:
  assumes inv: "sshbuf_inv buf" and v: "valid_val v" and n: "n < length (enc_val v)"
    and c: "contents buf = take n (enc_val v)"
  shows "get_val (kind_of v) buf = (Inl SSH_ERR_MESSAGE_INCOMPLETE, buf)"
proof -
  have l: "length (contents buf) < length (enc_val v)" using n c by simp
  have str: "parse_string (contents buf) = Inl SSH_ERR_MESSAGE_INCOMPLETE"
    if "enc_val v = enc_string s" "length s \<le> 134217724" for s
    using parse_string_short[of n s] that n c by simp
  show ?thesis
  proof (cases v)
    case (V_u8 x)
    with l get_int_post(4)[OF inv surjective_pairing] show ?thesis
      by (simp add: get_post_def prod_eq_iff del: length_contents)
  next
    case (V_u16 x)
    with l get_int_post(3)[OF inv surjective_pairing] show ?thesis
      by (simp add: get_post_def prod_eq_iff del: length_contents)
  next
    case (V_u32 x)
    with l get_int_post(2)[OF inv surjective_pairing] show ?thesis
      by (simp add: get_post_def prod_eq_iff del: length_contents)
  next
    case (V_u64 x)
    with l get_int_post(1)[OF inv surjective_pairing] show ?thesis
      by (simp add: get_post_def prod_eq_iff del: length_contents)
  next
    case (V_string x)
    with str[of x] v get_string_direct_spec[OF inv surjective_pairing] show ?thesis by (simp add: prod_eq_iff)
  next
    case (V_cstring x)
    with str[of x] v get_cstring_spec[OF inv surjective_pairing, of "\<lambda>_. 1"] show ?thesis
      by (simp add: prod_eq_iff)
  next
    case (V_bignum2 x)
    obtain s where s: "enc_bignum2 x = enc_string s" "length s \<le> Suc (length x)"
    proof
      show "enc_bignum2 x = enc_string (if dropWhile (\<lambda>y. y = 0) x \<noteq> [] \<and> hd (dropWhile (\<lambda>y. y = 0) x) AND 0x80 \<noteq> 0
          then 0 # dropWhile (\<lambda>y. y = 0) x else dropWhile (\<lambda>y. y = 0) x)"
        unfolding enc_bignum2_def Let_def ..
    qed (use length_dropWhile_le[of "\<lambda>y. y = 0" x] in simp)
    with V_bignum2 str[of s] v get_bignum2_spec[OF inv surjective_pairing] show ?thesis
      by (simp add: prod_eq_iff)
  qed
qed

text \<open>With memory and room, putting an integer succeeds.\<close>

lemma reserve_poke_ok:
  assumes inv: "sshbuf_inv buf" and alc: "\<And>n. alc n \<noteq> NULL" and w: "writable buf"
    and room: "length (contents buf) + unat len \<le> unat (b_max_size buf)" and bs: "length bs = unat len"
  shows "\<exists>b. reserve_poke alc buf len bs = (Inr (), b)"
proof -
  obtain p b1 where r: "sshbuf_reserve alc buf len = (Inr p, b1)"
    using reserve_succeeds_iff[where alc = alc, OF inv alc] w room by blast
  obtain m where "mem_write (b_mem b1) (unat p) bs = Some m" using reserve_write[OF inv r bs] by metis
  with r show ?thesis by (simp add: reserve_poke_def write_at_def)
qed

lemma put_int_ok:
  assumes "sshbuf_inv buf" "\<And>n. alc n \<noteq> NULL" "writable buf" "length (contents buf) + 8 \<le> unat (b_max_size buf)"
  shows "\<exists>b. put_val alc buf (V_u8 x1) = (Inr (), b)" "\<exists>b. put_val alc buf (V_u16 x2) = (Inr (), b)"
    "\<exists>b. put_val alc buf (V_u32 x4) = (Inr (), b)" "\<exists>b. put_val alc buf (V_u64 x8) = (Inr (), b)"
  using assms(4)
  by (auto simp: sshbuf_put_u8_def sshbuf_put_u16_def sshbuf_put_u32_def sshbuf_put_u64_def
      simp del: length_contents intro!: reserve_poke_ok[OF assms(1-3)])

text \<open>A limit below the initial size makes \<open>sshbuf_reset\<close> break the invariant.\<close>

lemma reset_small_limit:
  assumes "sshbuf_inv buf" "writable buf" "b_max_size buf < SSHBUF_SIZE_INIT" "alc SSHBUF_SIZE_INIT \<noteq> NULL"
  shows "sshbuf_check_sanity (sshbuf_reset alc buf) = Inl SSH_ERR_INTERNAL_ERROR"
proof -
  have "b_alloc buf \<noteq> SSHBUF_SIZE_INIT" using assms(1,3) by (auto simp: inv_iff word_less_nat_alt)
  with assms show ?thesis
    by (auto simp: sshbuf_reset_def Let_def writable_def sshbuf_check_sanity_def inv_iff word_less_nat_alt)
qed

end
