(* ===== verification/WireProps.thy ===== *)
theory WireProps
  imports Demo WireMsg
begin

text \<open>Properties of the buffers and of the wire format.\<close>

section \<open>Messages\<close>

text \<open>
  C33: A message of any fields, written into an empty buffer field by field, is read back with the
  same values in the same order by the getters of those kinds, and nothing is left over.
\<close>

theorem message_round_trip:
  assumes "sshbuf_inv buf" "contents buf = []" "\<forall>v\<in>set vs. valid_val v"
    and "put_vals alc buf vs = (Inr (), b)"
  shows "\<exists>b'. get_vals (map kind_of vs) b = (Inr vs, b') \<and> contents b' = []"
proof -
  have "sshbuf_inv b" "contents b = concat (map enc_val vs) @ []"
    using put_vals_contents[OF assms(1,3,4)] assms(2) by simp_all
  from get_vals_contents[OF this(1) assms(3) this(2)] show ?thesis by blast
qed

theorem message_round_trip_witness:
  "\<exists>b b'. put_vals (\<lambda>_. 4096) (demo_buf []) [V_u32 7, V_u8 1] = (Inr (), b) \<and>
     get_vals [K_u32, K_u8] b = (Inr [V_u32 7, V_u8 1], b')"
proof -
  have alc: "\<And>n :: size_t. (\<lambda>_. 4096 :: ptr) n \<noteq> NULL" by simp
  obtain b1 where b1: "put_val (\<lambda>_. 4096) (demo_buf []) (V_u32 7) = (Inr (), b1)"
    using put_int_ok(3)[OF _ alc, of "demo_buf []"] by auto
  from put_val_post[OF _ _ b1] have "sshbuf_inv b1" "writable b1" "b_max_size b1 = SSHBUF_SIZE_MAX"
    "contents b1 = POKE_U32 7"
    by (simp_all add: put_post_def same_shape_def writable_def)
  then obtain b where "put_val (\<lambda>_. 4096) b1 (V_u8 1) = (Inr (), b)"
    using put_int_ok(1)[OF _ alc, of b1] by (auto simp del: length_contents)
  with b1 have p: "put_vals (\<lambda>_. 4096) (demo_buf []) [V_u32 7, V_u8 1] = (Inr (), b)" by simp
  from message_round_trip[OF _ _ _ p] p show ?thesis by auto
qed

text \<open>
  Putting a value is all or nothing. On success the buffer holds what it held followed by the
  encoding; on failure its contents are what they were, and the error says that it is read-only,
  that its limit is reached or that memory ran out.
\<close>

theorem put_all_or_nothing:
  assumes "sshbuf_inv buf" "valid_val v" "put_val alc buf v = (r, b)"
  shows "sshbuf_inv b \<and> b_max_size b = b_max_size buf \<and>
    (case r of
       Inr _ \<Rightarrow> contents b = contents buf @ enc_val v
     | Inl e \<Rightarrow> contents b = contents buf \<and>
         e \<in> {SSH_ERR_BUFFER_READ_ONLY, SSH_ERR_NO_BUFFER_SPACE, SSH_ERR_ALLOC_FAIL})"
  using put_val_post[OF assms] by (cases r) (auto simp: put_post_def same_shape_def)

theorem put_all_or_nothing_witness:
  "\<exists>r b. put_val (\<lambda>_. 4096) (demo_buf [9]) (V_u32 7) = (r, b) \<and>
     contents b \<in> {[9], [9, 0, 0, 0, 7]}"
proof -
  obtain r b where p: "put_val (\<lambda>_. 4096) (demo_buf [9]) (V_u32 7) = (r, b)" by fastforce
  have "enc_val (V_u32 7) = [0, 0, 0, 7]" by code_simp
  with put_all_or_nothing[OF _ _ p] p show ?thesis by (cases r) auto
qed

text \<open>
  A value of any kind that is cut short, at any byte, is refused as an incomplete message, and
  nothing of it is consumed: the same getter succeeds once the rest has come.
\<close>

theorem truncated_value_is_refused:
  assumes "sshbuf_inv buf" "valid_val v" "n < length (enc_val v)" "contents buf = take n (enc_val v)"
  shows "get_val (kind_of v) buf = (Inl SSH_ERR_MESSAGE_INCOMPLETE, buf)"
  using assms by (rule get_val_short)

theorem truncated_value_is_refused_witness:
  "get_val K_string (demo_buf [0, 0, 0, 3, 1, 2]) = (Inl SSH_ERR_MESSAGE_INCOMPLETE, demo_buf [0, 0, 0, 3, 1, 2])"
proof -
  have "take 6 (enc_val (V_string [1, 2, 3])) = [0, 0, 0, 3, 1, 2]" by code_simp
  with truncated_value_is_refused[of "demo_buf [0, 0, 0, 3, 1, 2]" "V_string [1, 2, 3]" 6] show ?thesis by simp
qed

text \<open>
  What the getters refuse in a complete string: a C string with a zero byte before its last
  position, and a bignum with its sign bit set; in both cases the buffer is left as it was.
\<close>

theorem malformed_values_are_refused:
  assumes "sshbuf_inv buf" "parse_string (contents buf) = Inr v"
  shows "(0 \<in> set (butlast v) \<longrightarrow> sshbuf_get_cstring alc buf = (Inl SSH_ERR_INVALID_FORMAT, buf)) \<and>
    (v \<noteq> [] \<and> hd v AND 0x80 \<noteq> 0 \<longrightarrow>
       sshbuf_get_bignum2_bytes_direct buf = (Inl SSH_ERR_BIGNUM_IS_NEGATIVE, buf))"
proof -
  obtain r b r' b' where g: "sshbuf_get_cstring alc buf = (r, b)" "sshbuf_get_bignum2_bytes_direct buf = (r', b')"
    by fastforce
  from get_cstring_spec[OF assms(1) g(1)] get_bignum2_spec[OF assms(1) g(2)] g assms(2) show ?thesis
    by (simp add: cstring_ok_def)
qed

theorem malformed_values_are_refused_witness:
  "sshbuf_get_cstring (\<lambda>_. 1) (demo_buf [0, 0, 0, 3, 65, 0, 66]) =
     (Inl SSH_ERR_INVALID_FORMAT, demo_buf [0, 0, 0, 3, 65, 0, 66])"
proof -
  have "enc_string [65, 0, 66] @ [] = [0, 0, 0, 3, 65, 0, 66]" by code_simp
  moreover have "parse_string (enc_string [65, 0, 66] @ []) = Inr [65, 0, 66]" by (rule parse_enc_string) simp
  ultimately have p: "parse_string (contents (demo_buf [0, 0, 0, 3, 65, 0, 66])) = Inr [65, 0, 66]" by simp
  have "sshbuf_inv (demo_buf [0, 0, 0, 3, 65, 0, 66])" by simp
  from malformed_values_are_refused[OF this p, THEN conjunct1, THEN mp] show ?thesis by simp
qed

section \<open>Space\<close>

text \<open>
  C37: With memory to be had, room for more bytes is granted exactly when the buffer may be written
  and they fit in its limit, counting what it holds but not what has been consumed from it.
\<close>

theorem reserve_exactly_within_limit:
  assumes "sshbuf_inv buf" "\<And>n. alc n \<noteq> NULL"
  shows "(\<exists>p b. sshbuf_reserve alc buf len = (Inr p, b)) \<longleftrightarrow>
     \<not> b_readonly buf \<and> b_refcount buf \<le> 1 \<and> length (contents buf) + unat len \<le> unat (b_max_size buf)"
  using reserve_succeeds_iff[OF assms] by (simp add: writable_def not_less)

theorem reserve_exactly_within_limit_witness:
  "(\<exists>p b. sshbuf_reserve (\<lambda>_. 4096) (demo_buf [1, 2]) 134217726 = (Inr p, b)) \<and>
   \<not> (\<exists>p b. sshbuf_reserve (\<lambda>_. 4096) (demo_buf [1, 2]) 134217727 = (Inr p, b))"
proof -
  have inv: "sshbuf_inv (demo_buf [1, 2])" "contents (demo_buf [1, 2]) = [1, 2]" by simp_all
  have "(4096 :: ptr) \<noteq> NULL" by simp
  from reserve_exactly_within_limit[OF inv(1), of "\<lambda>_. 4096", OF this] inv(2) show ?thesis
    by (simp add: demo_buf_def)
qed

text \<open>
  Consuming takes exactly the bytes asked for from either end, or, when there are not so many,
  fails and takes none.
\<close>

theorem consume_exact:
  assumes "sshbuf_inv buf"
  shows "(if unat len \<le> length (contents buf)
      then fst (sshbuf_consume buf len) = Inr () \<and>
           contents (snd (sshbuf_consume buf len)) = drop (unat len) (contents buf)
      else sshbuf_consume buf len = (Inl SSH_ERR_MESSAGE_INCOMPLETE, buf)) \<and>
    (if unat len \<le> length (contents buf)
      then fst (sshbuf_consume_end buf len) = Inr () \<and>
           contents (snd (sshbuf_consume_end buf len)) = take (length (contents buf) - unat len) (contents buf)
      else sshbuf_consume_end buf len = (Inl SSH_ERR_MESSAGE_INCOMPLETE, buf))"
  using consume_spec[OF assms, of len] consume_end_spec[OF assms, of len]
  by (cases "unat len \<le> length (contents buf)") (simp_all add: prod_eq_iff del: length_contents)

theorem consume_exact_witness:
  "contents (snd (sshbuf_consume (demo_buf [1, 2, 3]) 2)) = [3] \<and>
   sshbuf_consume_end (demo_buf [1, 2, 3]) 4 = (Inl SSH_ERR_MESSAGE_INCOMPLETE, demo_buf [1, 2, 3])"
  using consume_exact[of "demo_buf [1, 2, 3]" 2] consume_exact[of "demo_buf [1, 2, 3]" 4]
  by (simp del: length_contents)

text \<open>
  The one operation that can ruin a sound buffer: \<open>sshbuf_reset\<close> of a buffer whose limit is
  below the initial size leaves it with more allocated than the limit, and every later call fails.
\<close>

theorem reset_below_initial_size:
  assumes "sshbuf_inv buf" "writable buf" "b_max_size buf < SSHBUF_SIZE_INIT" "alc SSHBUF_SIZE_INIT \<noteq> NULL"
  shows "sshbuf_check_sanity (sshbuf_reset alc buf) = Inl SSH_ERR_INTERNAL_ERROR"
  using assms by (rule reset_small_limit)

theorem reset_below_initial_size_witness:
  "sshbuf_check_sanity (sshbuf_reset (\<lambda>_. 4096) ((demo_buf [])\<lparr>b_max_size := 100\<rparr>)) = Inl SSH_ERR_INTERNAL_ERROR"
proof (rule reset_below_initial_size)
  show "sshbuf_inv ((demo_buf [])\<lparr>b_max_size := 100\<rparr>)" "writable ((demo_buf [])\<lparr>b_max_size := 100\<rparr>)"
    by (simp_all add: demo_buf_def inv_iff writable_def)
qed simp_all

end
