(* ===== verification/MatchProps.thy ===== *)
theory MatchProps
  imports Match
begin

text \<open>Properties of patterns, pattern lists and proposal lists.\<close>

text \<open>
  C34: The three mutually dependent loops of \<open>match_pattern\<close>, with their shortcuts for a star that
  ends the pattern and for a star followed by a known character, decide exactly the matching of
  wildcards: a star stands for any characters, a question mark for one.
\<close>

theorem pattern_is_glob: "match_pattern s p = glob p s"
  by (rule match_glob(1))

text \<open>
  A pattern list matches if an entry without an exclamation mark does and no entry with one
  does, wherever they stand: a negated match always wins. This needs every entry to fit in the
  buffer the code copies it to.
\<close>

theorem negated_match_wins:
  assumes "\<forall>(n, e)\<in>set (pattern_entries pattern). length e < sub_len - 1"
  shows "match_pattern_list str pattern dolower =
     (if \<exists>e. (True, e) \<in> set (pattern_entries pattern) \<and> entry_matches str dolower e then -1
      else if \<exists>e. (False, e) \<in> set (pattern_entries pattern) \<and> entry_matches str dolower e then 1
      else 0)"
  using assms by (rule match_pattern_list_spec)

theorem negated_match_wins_witness:
  "match_pattern_list ''gw1'' ''*,!gw?'' False = -1"
proof -
  have e: "pattern_entries ''*,!gw?'' = [(False, ''*''), (True, ''gw?'')]" by code_simp
  have "entry_matches ''gw1'' False ''gw?''" by code_simp
  with negated_match_wins[of "''*,!gw?''" "''gw1''" False] show ?thesis by (auto simp: e sub_len_def)
qed

text \<open>
  Negotiation picks the client's first proposal that the server offers, whatever the server's
  order, and points behind it so that a later search goes on with the rest; when it picks
  nothing, no proposal of the client before an empty one is offered.
\<close>

theorem negotiation_picks_first:
  assumes "match_list client server = (r, n)"
  shows "case r of
      Some p \<Rightarrow> \<exists>as bs. strsep_tokens client = as @ p # bs \<and> p \<in> set (server_proposals server) \<and>
        set as \<inter> set (server_proposals server) = {} \<and> drop n client = comma_join bs
    | None \<Rightarrow> n = length client \<and>
        set (takeWhile (\<lambda>t. t \<noteq> []) (strsep_tokens client)) \<inter> set (server_proposals server) = {}"
proof (cases r)
  case None
  with assms match_list_loop_None[of "server_proposals server" "strsep_tokens client" 0 "length client" n]
  show ?thesis by (simp add: match_list_def)
next
  case (Some p)
  with assms have "match_list_loop (server_proposals server) (strsep_tokens client) 0 (length client) = (Some p, n)"
    by (simp add: match_list_def)
  then obtain as bs where t: "strsep_tokens client = as @ p # bs" "p \<in> set (server_proposals server)"
    "\<forall>a\<in>set as. a \<noteq> [] \<and> a \<notin> set (server_proposals server)"
    "n = (if bs = [] then length client else 0 + (\<Sum>a\<leftarrow>as @ [p]. length a + 1))"
    by (rule match_list_loop_Some)
  have "drop n client = comma_join bs"
  proof (cases "bs = []")
    case False
    have "client = comma_join ((as @ [p]) @ bs)" using comma_join_tokens[of client] t(1) by simp
    moreover have "n = (\<Sum>a\<leftarrow>as @ [p]. length a + 1)" using t(4) False by simp
    ultimately show ?thesis using drop_comma_join[of "as @ [p]" bs] False by (metis snoc_eq_iff_butlast)
  qed (simp add: t(4))
  with t Some show ?thesis by auto
qed

theorem negotiation_picks_first_witness:
  "\<exists>n. match_list ''aes256,aes128'' ''aes128,aes256'' = (Some ''aes256'', n) \<and> drop n ''aes256,aes128'' = ''aes128''"
proof -
  have m: "match_list ''aes256,aes128'' ''aes128,aes256'' = (Some ''aes256'', 7)" by code_simp
  have t: "strsep_tokens ''aes256,aes128'' = [''aes256'', ''aes128'']" by code_simp
  from negotiation_picks_first[OF m] obtain as bs where
    "strsep_tokens ''aes256,aes128'' = as @ ''aes256'' # bs" "drop 7 ''aes256,aes128'' = comma_join bs" by auto
  then have "bs = [''aes128'']" unfolding t by (cases as) (auto simp: append_eq_Cons_conv Cons_eq_append_conv)
  with \<open>drop 7 ''aes256,aes128'' = comma_join bs\<close> m show ?thesis by auto
qed

text \<open>
  Filtering a proposal list keeps exactly the proposals that match, or do not match, the filter,
  in their order and separated by commas; the result fits in the space of the original, so the
  bounded appends of the code never cut it.
\<close>

theorem filter_keeps_exactly:
  assumes "\<forall>t\<in>set (strsep_tokens proposal). t \<noteq> []"
  shows "match_filter_denylist True proposal filt =
      Some (comma_join (filter (\<lambda>t. match_pattern_list t filt False \<noteq> 1) (strsep_tokens proposal))) \<and>
    match_filter_allowlist True proposal filt =
      Some (comma_join (filter (\<lambda>t. match_pattern_list t filt False = 1) (strsep_tokens proposal))) \<and>
    length (comma_join (filter P (strsep_tokens proposal))) \<le> length proposal"
  using length_comma_join_filter[of P "strsep_tokens proposal"]
  by (simp add: match_filter_denylist_def match_filter_allowlist_def filter_list_def
      filter_list_loop_spec[OF assms] comma_join_tokens)

theorem filter_keeps_exactly_witness:
  "match_filter_denylist True ''aes128,3des,aes256'' ''*des'' = Some ''aes128,aes256''"
proof -
  have t: "strsep_tokens ''aes128,3des,aes256'' = [''aes128'', ''3des'', ''aes256'']" by code_simp
  have m: "match_pattern_list ''aes128'' ''*des'' False \<noteq> 1" "match_pattern_list ''3des'' ''*des'' False = 1"
    "match_pattern_list ''aes256'' ''*des'' False \<noteq> 1" by code_simp+
  from filter_keeps_exactly[of "''aes128,3des,aes256''" "''*des''"] m show ?thesis by (simp add: t)
qed

end
