(* ===== verification/TableSteps.thy ===== *)
theory TableSteps
  imports ChanMux ChanWindow
begin

text \<open>
  The table of channels as a whole: a step relation over the operations that create, release and
  connect channels, and the invariants of every table it reaches. Slots agree with the numbers the
  channels carry, buffers are sound, and whatever refers to a multiplexing client refers to a live one.
\<close>

inductive table_step :: "env \<Rightarrow> ssh \<Rightarrow> ssh \<Rightarrow> bool" for e where
  Step_new: "channel_new e ssh ctype type rfd wfd efd window maxpack eu name nb = Done (i, ssh') \<Longrightarrow>
     table_step e ssh ssh'"
| Step_free: "chan ssh i = Some c \<Longrightarrow> channel_free e ssh i = Done ssh' \<Longrightarrow> table_step e ssh ssh'"
| Step_upstream: "chan ssh i = Some c \<Longrightarrow> sshbuf_inv pkt \<Longrightarrow>
     channel_proxy_upstream e ssh i type pkt = Done (b, ssh') \<Longrightarrow> table_step e ssh ssh'"
| Step_downstream: "live_mux_client ssh d \<Longrightarrow> channel_proxy_downstream e ssh d = Done (r, ssh') \<Longrightarrow>
     table_step e ssh ssh'"
| Step_input: "chan ssh i = Some c \<Longrightarrow> length bs < 2 ^ 32 \<Longrightarrow>
     sshbuf_put (e_alc e) (c_input c) bs = (r, inp) \<Longrightarrow>
     table_step e ssh (set_slot i (Some (c\<lparr>c_input := inp\<rparr>)) ssh)"

lemma table_ok_set_slot:
  "table_ok ssh \<Longrightarrow> chan ssh i = Some c \<Longrightarrow> c_self c' = c_self c \<Longrightarrow> bufs_ok c' \<Longrightarrow>
   table_ok (set_slot i (Some c') ssh)"
  by (auto simp: table_ok_def chan_set_slot)

lemma table_ok_emit [simp]: "table_ok (emit x ssh) = table_ok ssh"
  by (simp add: table_ok_def)

lemma table_okD: "table_ok ssh \<Longrightarrow> chan ssh i = Some c \<Longrightarrow> c_self c = i \<and> bufs_ok c"
  by (simp add: table_ok_def)

lemma proxy_upstream_cases:
  assumes i: "chan ssh i = Some c" and res: "channel_proxy_upstream e ssh i type pkt = Done (b, ssh')"
  shows "ssh' = ssh \<or> (\<exists>d ds ssh1. c_type c = SSH_CHANNEL_MUX_PROXY \<and> c_mux_ctx c = Some d \<and> chan ssh d = Some ds \<and>
    ssh1 = set_slot d (Some (ds\<lparr>c_output :=
      forward_upstream e (c_mux_downstream_id c) type pkt (c_output ds)\<rparr>)) ssh \<and>
    (ssh' = ssh1 \<or> type = SSH2_MSG_CHANNEL_CLOSE \<and> channel_free e ssh1 i = Done ssh' \<or>
     (\<exists>rid. ssh' = set_slot i (Some (c\<lparr>c_remote_id := rid, c_have_remote_id := True\<rparr>)) ssh1) \<or>
     (\<exists>fl. ssh' = set_slot i (Some (c\<lparr>c_flags := fl\<rparr>)) ssh1)))"
proof (cases "c_mux_ctx c = None \<or> c_type c \<noteq> SSH_CHANNEL_MUX_PROXY \<or> type \<notin> proxied_types")
  case True
  with res chan_nth[OF i] show ?thesis
    by (auto simp: channel_proxy_upstream_def split: option.splits if_splits)
next
  case False
  then obtain d where d: "c_mux_ctx c = Some d" by auto
  from res chan_nth[OF i] d False obtain ds where ds: "chan ssh d = Some ds"
    unfolding channel_proxy_upstream_def by (auto split: option.splits)
  define ssh1 where "ssh1 = set_slot d (Some (ds\<lparr>c_output :=
      forward_upstream e (c_mux_downstream_id c) type pkt (c_output ds)\<rparr>)) ssh"
  have "(if type = SSH2_MSG_CHANNEL_OPEN_CONFIRMATION then
           Done (True, if length (contents pkt) > 4
             then set_slot i (Some (c\<lparr>c_remote_id := PEEK_U32 (take 4 (contents pkt)),
                                     c_have_remote_id := True\<rparr>)) ssh1
             else ssh1)
         else if type = SSH2_MSG_CHANNEL_CLOSE then
           (if c_flags c AND CHAN_CLOSE_SENT \<noteq> 0
            then andThen (channel_free e ssh1 i) (\<lambda>ssh2. Done (True, ssh2))
            else Done (True, set_slot i (Some (c\<lparr>c_flags := c_flags c OR CHAN_CLOSE_RCVD\<rparr>)) ssh1))
         else Done (True, ssh1)) = Done (b, ssh')"
    using res chan_nth[OF i] d ds False
    unfolding channel_proxy_upstream_def Let_def ssh1_def by simp
  then have "ssh' = ssh1 \<or> type = SSH2_MSG_CHANNEL_CLOSE \<and> channel_free e ssh1 i = Done ssh' \<or>
     (\<exists>rid. ssh' = set_slot i (Some (c\<lparr>c_remote_id := rid, c_have_remote_id := True\<rparr>)) ssh1) \<or>
     (\<exists>fl. ssh' = set_slot i (Some (c\<lparr>c_flags := fl\<rparr>)) ssh1)"
    by (auto simp: andThen_Done split: if_splits)
  with d ds False ssh1_def show ?thesis by blast
qed

lemma proxy_upstream_table_ok:
  assumes tab: "table_ok ssh" and refs: "refs_ok ssh" and i: "chan ssh i = Some c" and pkt: "sshbuf_inv pkt"
    and res: "channel_proxy_upstream e ssh i type pkt = Done (b, ssh')"
  shows "table_ok ssh'"
proof -
  from proxy_upstream_cases[OF i res] consider "ssh' = ssh"
    | d ds ssh1 where "c_type c = SSH_CHANNEL_MUX_PROXY" "c_mux_ctx c = Some d" "chan ssh d = Some ds"
      "ssh1 = set_slot d (Some (ds\<lparr>c_output :=
        forward_upstream e (c_mux_downstream_id c) type pkt (c_output ds)\<rparr>)) ssh"
      "ssh' = ssh1 \<or> type = SSH2_MSG_CHANNEL_CLOSE \<and> channel_free e ssh1 i = Done ssh' \<or>
       (\<exists>rid. ssh' = set_slot i (Some (c\<lparr>c_remote_id := rid, c_have_remote_id := True\<rparr>)) ssh1) \<or>
       (\<exists>fl. ssh' = set_slot i (Some (c\<lparr>c_flags := fl\<rparr>)) ssh1)" by blast
  then show ?thesis
  proof cases
    case 2
    note bs = table_okD[OF tab 2(3)] and bi = table_okD[OF tab i]
    have "live_mux_client ssh d" using refs i 2(1,2) unfolding refs_ok_def by metis
    then have "i \<noteq> d" using i 2(1) by (auto simp: live_mux_client_def)
    have "sshbuf_inv (c_output ds)" using bs by (simp add: bufs_ok_def)
    from forward_upstream_spec[OF this pkt, of e "c_mux_downstream_id c" type]
    have "bufs_ok (ds\<lparr>c_output := forward_upstream e (c_mux_downstream_id c) type pkt (c_output ds)\<rparr>)"
      using bs by (auto simp: bufs_ok_def same_shape_writable) (auto simp: same_shape_def)
    from table_ok_set_slot[OF tab 2(3) _ this] have t1: "table_ok ssh1" by (simp add: 2(4))
    have i1: "chan ssh1 i = Some c" using i \<open>i \<noteq> d\<close> by (simp add: 2(4) chan_set_slot)
    have "table_ok (set_slot i (Some c') ssh1)" if "c_self c' = c_self c" "bufs_ok c' = bufs_ok c" for c'
      using table_ok_set_slot[OF t1 i1 that(1)] that(2) bi by simp
    with 2(5) t1 channel_free_table_ok[OF t1 _ i1] show ?thesis by (auto simp: bufs_ok_def)
  qed (use tab in simp)
qed

section \<open>Downstream\<close>

lemma proxy_new_table_ok:
  assumes tab: "table_ok ssh" and res: "proxy_new e ssh d name cid rid first m orig = Done (r, ssh')"
  shows "table_ok ssh'"
proof -
  from res obtain i ssh1 c where
    n: "channel_new e ssh ''mux-proxy'' SSH_CHANNEL_MUX_PROXY (-1) (-1) (-1) 0 0
                CHAN_EXTENDED_IGNORE name CHANNEL_NONBLOCK_SET = Done (i, ssh1)"
    and c: "s_channels ssh1 ! i = Some c"
    by (auto simp: proxy_new_def andThen_Done split: option.splits)
  note t1 = channel_new_table_ok[OF tab n]
  from channel_new_chan[OF n] have "chan ssh1 i \<noteq> None" by auto
  then have ci: "chan ssh1 i = Some c" using c by (auto simp: chan_def split: if_splits)
  define c2 where "c2 = (case rid of None \<Rightarrow> c\<lparr>c_mux_ctx := Some d, c_mux_downstream_id := cid\<rparr>
                    | Some rid \<Rightarrow> c\<lparr>c_mux_ctx := Some d, c_mux_downstream_id := cid\<rparr>
                        \<lparr>c_remote_id := rid, c_have_remote_id := True\<rparr>)"
  have c2: "c_self c2 = c_self c" "bufs_ok c2"
    using table_okD[OF t1 ci] by (auto simp: c2_def bufs_ok_def split: option.splits)
  note t2 = table_ok_set_slot[OF t1 ci c2]
  have at: "chan (set_slot i (Some c2) ssh1) i = Some c2" using chan_nth[OF ci] by (simp add: chan_set_slot)
  have "ssh' = set_slot i (Some c2) ssh1 \<or> channel_free e (set_slot i (Some c2) ssh1) i = Done ssh'"
    using res n c unfolding proxy_new_def Let_def
    by (simp add: andThen_Done c2_def[symmetric] del: puts.simps split: prod.splits sum.splits)
  then show ?thesis using t2 channel_free_table_ok[OF t2 _ at] by blast
qed

lemma down_send_table: "table_ok s \<Longrightarrow> keeps table_ok (down_send e ty bs s)"
  by (simp add: keeps_def down_send_def Let_def)

lemma down_made_table:
  assumes "table_ok ssh"
  shows "keeps table_ok (andThen (proxy_new e ssh d name cid rid first m orig) (down_made e ty))"
proof (rule keeps_andThen[where Q = table_ok])
  show "keeps table_ok (proxy_new e ssh d name cid rid first m orig)"
    using proxy_new_table_ok[OF assms] by (auto simp: keeps_def)
  show "keeps table_ok (down_made e ty (x, s))" if "table_ok s" for x s
    using that down_send_table by (auto simp: down_made_def keeps_def split: option.splits)
qed

lemma down_open_table: "table_ok ssh \<Longrightarrow> keeps table_ok (down_open e ssh d from)"
  unfolding down_open_def
  by (intro keeps_option keeps_prod keeps_sum keeps_Done down_made_table | assumption | simp only: prod.case)+

lemma down_confirm_table: "table_ok ssh \<Longrightarrow> keeps table_ok (down_confirm e ssh d from)"
  unfolding down_confirm_def
  by (intro keeps_option keeps_prod keeps_sum keeps_Done down_made_table | assumption | simp only: prod.case)+

lemma add_then_send_table:
  assumes "table_ok ssh"
  shows "keeps table_ok (andThen (permission_set_add ssh FORWARD_USER FORWARD_LOCAL h p lh lp lport (Some d))
    (\<lambda>r. down_send e ty body (snd r)))"
proof (rule keeps_then, rule down_send_table)
  fix r assume "permission_set_add ssh FORWARD_USER FORWARD_LOCAL h p lh lp lport (Some d) = Done r"
  then have "chan (snd r) = chan ssh"
    by (auto simp: permission_set_add_def Let_def chan_def fun_eq_iff split: if_splits)
  with assms show "table_ok (snd r)" by (simp add: table_ok_def)
qed

lemma down_global_table: "table_ok ssh \<Longrightarrow> keeps table_ok (down_global e ssh d from body)"
  unfolding down_global_def
  by (intro keeps_option keeps_prod keeps_sum keeps_Done keeps_if add_then_send_table | assumption)+

lemma down_close_table:
  assumes tab: "table_ok ssh"
  shows "keeps table_ok (down_close e ssh body)"
proof (cases "length body < 4 \<or> channel_by_remote_id ssh (PEEK_U32 (take 4 body)) = None")
  case True
  then show ?thesis using tab down_send_table by (auto simp: down_close_def split: option.splits)
next
  case False
  then obtain c where c: "channel_by_remote_id ssh (PEEK_U32 (take 4 body)) = Some c" by auto
  note slot = by_remote_id_slot[OF table_self[OF tab] c, THEN conjunct1]
  have "keeps table_ok (andThen (channel_free e ssh (c_self c)) (down_send e SSH2_MSG_CHANNEL_CLOSE body))"
    by (rule keeps_then, rule down_send_table, rule channel_free_table_ok[OF tab _ slot])
  moreover have "table_ok (set_slot (c_self c) (Some (c\<lparr>c_flags := m\<rparr>)) ssh)" for m
    by (rule table_ok_set_slot[OF tab slot]) (use table_okD[OF tab slot] in \<open>simp_all add: bufs_ok_def\<close>)
  ultimately show ?thesis using False c down_send_table by (simp add: down_close_def)
qed

lemma proxy_downstream_table_ok:
  assumes tab: "table_ok ssh" and d: "live_mux_client ssh d"
    and res: "channel_proxy_downstream e ssh d = Done (r, ssh')"
  shows "table_ok ssh'"
proof -
  obtain ds where ds: "chan ssh d = Some ds" using d by (auto simp: live_mux_client_def)
  note b = table_okD[OF tab ds]
  obtain g inp where g: "sshbuf_get_string_direct (c_input ds) = (g, inp)" by fastforce
  define ssh0 where "ssh0 = set_slot d (Some (ds\<lparr>c_input := inp\<rparr>)) ssh"
  have i: "sshbuf_inv (c_input ds)" using b by (simp add: bufs_ok_def)
  from get_string_direct_spec[OF i g] have "sshbuf_inv inp \<and> same_shape (c_input ds) inp"
    using i by (auto split: sum.splits)
  then have "bufs_ok (ds\<lparr>c_input := inp\<rparr>)" using calmer_frame[OF calmer_input] b by blast
  from table_ok_set_slot[OF tab ds _ this] have t0: "table_ok ssh0" by (simp add: ssh0_def)
  have "keeps table_ok (channel_proxy_downstream e ssh d)"
    unfolding channel_proxy_downstream_def chan_nth[OF ds, THEN conjunct1] option.case g prod.case
      Let_def ssh0_def[symmetric]
    by (intro keeps_sum keeps_if keeps_Done t0 down_open_table down_confirm_table down_global_table
        down_close_table down_send_table)
  then show ?thesis using res by (rule keepsD)
qed

section \<open>Every reachable table\<close>

lemma table_step_ok:
  "table_step e ssh ssh' \<Longrightarrow> table_ok ssh \<and> refs_ok ssh \<Longrightarrow> table_ok ssh' \<and> refs_ok ssh'"
proof (induction rule: table_step.induct)
  case (Step_new ssh ctype type rfd wfd efd window maxpack eu name nb i ssh')
  then show ?case using channel_new_table_ok[OF _ Step_new(1)] channel_new_refs_ok[OF _ Step_new(1)] by simp
next
  case (Step_free ssh i c ssh')
  then show ?case using channel_free_table_ok channel_free_refs_ok by blast
next
  case (Step_upstream ssh i c pkt type b ssh')
  then show ?case using proxy_upstream_table_ok proxy_upstream_refs_ok by blast
next
  case (Step_downstream ssh d r ssh')
  then show ?case using proxy_downstream_table_ok proxy_downstream_refs_ok by blast
next
  case (Step_input ssh i c bs r inp)
  note b = table_okD[OF conjunct1[OF Step_input(4)] Step_input(1)]
  have "put_post (c_input c) bs r inp"
    using put_bytes_post[OF _ _ Step_input(3)] b Step_input(2) by (simp add: bufs_ok_def)
  then have "bufs_ok (c\<lparr>c_input := inp\<rparr>)"
    using calmer_frame[OF calmer_input] b by (simp add: put_post_def)
  with Step_input b show ?case
    by (auto intro!: table_ok_set_slot refs_ok_set_slot)
qed

lemma table_steps_ok:
  "(table_step e)\<^sup>*\<^sup>* ssh ssh' \<Longrightarrow> table_ok ssh \<and> refs_ok ssh \<Longrightarrow> table_ok ssh' \<and> refs_ok ssh'"
  by (induction rule: rtranclp_induct) (auto dest: table_step_ok)

lemma init_table_ok: "table_ok (channel_init_channels cm) \<and> refs_ok (channel_init_channels cm)"
  by (auto simp: table_ok_def refs_ok_def channel_init_channels_def chan_def empty_set_perms_def split: if_splits)

end
