(* ===== verification/TableInput.thy ===== *)
theory TableInput
  imports TableSteps ChanIn
begin

text \<open>
  The invariants of the table across the handlers of the channel messages: whatever packet the peer
  sends, a handler that returns leaves the table sound.
\<close>

section \<open>Channels that stay themselves\<close>

definition same_ident :: "channel \<Rightarrow> channel \<Rightarrow> bool" where
  "same_ident c c' \<longleftrightarrow> c_self c' = c_self c \<and> c_mux_ctx c' = c_mux_ctx c \<and> c_type c' = c_type c \<and>
     (bufs_ok c \<longrightarrow> bufs_ok c')"

lemma ident_refl [simp]: "same_ident c c"
  by (simp add: same_ident_def)

lemma ident_trans: "same_ident a b \<Longrightarrow> same_ident b c \<Longrightarrow> same_ident a c"
  by (simp add: same_ident_def)

lemma ident_calmer:
  "calmer c c' \<Longrightarrow> c_self c' = c_self c \<Longrightarrow> c_mux_ctx c' = c_mux_ctx c \<Longrightarrow> c_type c' = c_type c \<Longrightarrow> same_ident c c'"
  by (simp add: same_ident_def calmer_def)

named_theorems ident_rules

lemma ident_close_fd [ident_rules]: "same_ident (fst st) (fst (channel_close_fd st fd))"
  by (simp add: same_ident_def frame_simps bufs_ok_def)

lemma ident_sets [ident_rules]:
  "same_ident (fst st) (fst (chan_set_istate s st))" "same_ident (fst st) (fst (chan_set_ostate t st))"
  "same_ident (fst st) (fst (set_flag m st))"
  by (simp_all add: same_ident_def chan_set_istate_def chan_set_ostate_def set_flag_def bufs_ok_def)

lemma ident_shutdown [ident_rules]:
  "same_ident (fst st) (fst (chan_shutdown_write e st))" "same_ident (fst st) (fst (chan_shutdown_read st))"
  "same_ident (fst st) (fst (chan_shutdown_extended_read st))"
proof -
  have r: "same_ident (fst st) ((fst st)\<lparr>c_output := sshbuf_reset (e_alc e) (c_output (fst st))\<rparr>)"
    by (rule ident_calmer[OF calmer_reset_output]) simp_all
  show "same_ident (fst st) (fst (chan_shutdown_write e st))"
    using r ident_trans[OF r ident_close_fd[of "(c, es)" for c es, simplified fst_conv]]
    by (auto simp: chan_shutdown_write_def Let_def)
qed (simp_all add: chan_shutdown_read_def chan_shutdown_extended_read_def Let_def ident_close_fd)

lemma ident_send_eof2: "chan_send_eof2 e st = Done st' \<Longrightarrow> same_ident (fst st) (fst st')"
  by (auto simp: chan_send_eof2_def Let_def andThen_Done send_pkt_def set_flag_def same_ident_def bufs_ok_def
      split: if_split_asm)

lemma ident_ibuf_empty:
  assumes "chan_ibuf_empty e st = Done st'" shows "same_ident (fst st) (fst st')"
proof -
  from assms consider "st' = st"
    | st1 where "st1 = st \<or> chan_send_eof2 e st = Done st1" "st' = chan_set_istate CHAN_INPUT_CLOSED st1"
    by (auto simp: chan_ibuf_empty_def Let_def andThen_Done split: if_split_asm)
  then show ?thesis
  proof cases
    case (2 st1)
    then have "same_ident (fst st) (fst st1)" using ident_send_eof2[of e st st1] by auto
    with 2(2) ident_sets(1) show ?thesis by (metis ident_trans)
  qed simp
qed

lemma ident_obuf_empty [ident_rules]: "same_ident (fst st) (fst (chan_obuf_empty e st))"
  using ident_trans[OF ident_shutdown(1) ident_sets(2)] by (simp add: chan_obuf_empty_def Let_def)

lemma ident_rcvd_ieof: "same_ident (fst st) (fst (chan_rcvd_ieof e st))"
proof -
  let ?st1 = "set_flag CHAN_EOF_RCVD st"
  define st2 where "st2 = (if c_ostate (fst ?st1) = CHAN_OUTPUT_OPEN
                 then chan_set_ostate CHAN_OUTPUT_WAIT_DRAIN ?st1 else ?st1)"
  have "same_ident (fst st) (fst st2)"
    using ident_sets(3) ident_trans[OF ident_sets(3) ident_sets(2)] by (simp add: st2_def)
  moreover have "chan_rcvd_ieof e st = st2 \<or> chan_rcvd_ieof e st = chan_obuf_empty e st2"
    unfolding chan_rcvd_ieof_def Let_def st2_def[symmetric] by simp
  ultimately show ?thesis using ident_trans[OF _ ident_obuf_empty] by metis
qed

lemma ident_force_drain:
  assumes "chan_force_drain e st = Done st'" shows "same_ident (fst st) (fst st')"
proof -
  let ?st1 = "chan_set_istate CHAN_INPUT_WAIT_DRAIN st"
  from assms have "st' = st \<or> st' = ?st1 \<or> chan_ibuf_empty e ?st1 = Done st'"
    by (auto simp: chan_force_drain_def Let_def split: if_split_asm)
  then show ?thesis
    using ident_trans[OF ident_sets(1)[of st] ident_ibuf_empty[of e ?st1 st']] ident_sets(1)[of st] by (elim disjE) simp_all
qed

lemma ident_take_ieof: "take_ieof e st = Done st' \<Longrightarrow> same_ident (fst st) (fst st')"
  unfolding take_ieof_def by (rule ident_trans[OF ident_rcvd_ieof ident_force_drain])

lemma ident_rcvd_oclose:
  assumes "chan_rcvd_oclose e st = Done st'" shows "same_ident (fst st) (fst st')"
proof -
  define st1 where "st1 = (if c_flags (fst st) AND CHAN_LOCAL = 0 then set_flag CHAN_CLOSE_RCVD st else st)"
  define st2 where "st2 = (if c_ostate (fst st1) = CHAN_OUTPUT_OPEN
                   then chan_set_ostate CHAN_OUTPUT_WAIT_DRAIN st1 else st1)"
  have s1: "same_ident (fst st) (fst st1)" by (simp add: st1_def ident_sets)
  have s2: "same_ident (fst st) (fst st2)" using s1 ident_trans[OF s1 ident_sets(2)] by (simp add: st2_def)
  have "st' = chan_set_istate CHAN_INPUT_CLOSED (chan_set_ostate CHAN_OUTPUT_CLOSED st1) \<or>
    st' = chan_set_istate CHAN_INPUT_CLOSED (chan_shutdown_extended_read (chan_shutdown_read st2)) \<or>
    st' = chan_set_istate CHAN_INPUT_CLOSED (chan_shutdown_extended_read st2) \<or>
    (\<exists>st3. chan_send_eof2 e st2 = Done st3 \<and>
      st' = chan_set_istate CHAN_INPUT_CLOSED (chan_shutdown_extended_read st3)) \<or> st' = st2"
    using assms unfolding chan_rcvd_oclose_def Let_def st1_def[symmetric] st2_def[symmetric]
    by (simp add: andThen_Done split: if_split_asm istate.split_asm) blast
  then consider "st' = chan_set_istate CHAN_INPUT_CLOSED (chan_set_ostate CHAN_OUTPUT_CLOSED st1)"
    | "st' = chan_set_istate CHAN_INPUT_CLOSED (chan_shutdown_extended_read (chan_shutdown_read st2))"
    | st3 where "st3 = st2 \<or> chan_send_eof2 e st2 = Done st3"
      "st' = chan_set_istate CHAN_INPUT_CLOSED (chan_shutdown_extended_read st3)"
    | "st' = st2" by blast
  then show ?thesis
  proof cases
    case (3 st3)
    then have "same_ident (fst st) (fst st3)" using s2 ident_trans[OF s2 ident_send_eof2[of e st2 st3]] by auto
    then show ?thesis unfolding 3(2) by (meson ident_trans ident_sets ident_shutdown)
  next
    case 1
    then show ?thesis using s1 by (meson ident_trans ident_sets)
  next
    case 2
    then show ?thesis using s2 by (meson ident_trans ident_sets ident_shutdown)
  qed (use s2 in simp)
qed

section \<open>Sound tables\<close>

definition sound :: "ssh \<Rightarrow> bool" where
  "sound ssh \<longleftrightarrow> table_ok ssh \<and> refs_ok ssh"

lemma soundD: "sound ssh \<Longrightarrow> chan ssh i = Some c \<Longrightarrow> c_self c = i \<and> bufs_ok c"
  by (auto simp: sound_def dest: table_okD)

lemma sound_emit [simp]: "sound (emit x ssh) = sound ssh"
  by (simp add: sound_def)

lemma sound_set_slot:
  "sound ssh \<Longrightarrow> chan ssh i = Some c \<Longrightarrow> same_ident c c' \<Longrightarrow> sound (set_slot i (Some c') ssh)"
  using soundD[of ssh i c] by (auto simp: sound_def same_ident_def intro!: table_ok_set_slot refs_ok_set_slot)

text \<open>A channel no proxy refers to may also change its type, but not into a proxy.\<close>

lemma sound_retype:
  assumes s: "sound ssh" and c: "chan ssh i = Some c" "c_type c \<noteq> SSH_CHANNEL_MUX_CLIENT"
    and c': "c_type c' \<noteq> SSH_CHANNEL_MUX_PROXY" "c_self c' = c_self c" "bufs_ok c'"
  shows "sound (set_slot i (Some c') ssh)"
proof -
  have t: "table_ok (set_slot i (Some c') ssh)"
    using s c(1) c'(2,3) by (auto simp: sound_def intro!: table_ok_set_slot)
  have live: "live_mux_client (set_slot i (Some c') ssh) d" if "live_mux_client ssh d" for d
    using that c by (auto simp: live_mux_client_def chan_set_slot)
  have "refs_ok (set_slot i (Some c') ssh)"
    using s c'(1) by (auto simp: sound_def refs_ok_def chan_set_slot intro!: live split: if_splits)
  with t show ?thesis by (simp add: sound_def)
qed

lemma sound_on_channel:
  assumes s: "sound ssh" and c: "chan ssh i = Some c" and res: "on_channel op i ssh = Done ssh'"
    and op: "\<And>st'. op (c, []) = Done st' \<Longrightarrow> same_ident c (fst st')"
  shows "sound ssh'"
proof -
  from res obtain ca c' fx where *: "s_channels ssh ! i = Some ca" "op (ca, []) = Done (c', fx)"
    "ssh' = ssh\<lparr>s_channels := (s_channels ssh)[i := Some c'], s_effects := s_effects ssh @ fx\<rparr>"
    by (rule on_channelE)
  have "ca = c" using * chan_nth[OF c] by simp
  with op *(2) have "same_ident c c'" by fastforce
  from sound_set_slot[OF s c this] have "sound (set_slot i (Some c') ssh)" .
  moreover have "chan ssh' = chan (set_slot i (Some c') ssh)"
    using chan_nth[OF c] by (auto simp: *(3) chan_updated chan_set_slot fun_eq_iff)
  moreover have "s_local_perms ssh' = s_local_perms (set_slot i (Some c') ssh)" by (simp add: *(3))
  ultimately show ?thesis by (simp add: sound_def table_ok_def refs_ok_def live_mux_client_def)
qed

lemma upstream_not_handled:
  assumes i: "chan ssh i = Some c" and res: "channel_proxy_upstream e ssh i type pkt = Done (False, ssh1)"
  shows "ssh1 = ssh"
  using res chan_nth[OF i]
  by (auto simp: channel_proxy_upstream_def Let_def andThen_Done split: option.splits if_split_asm)

text \<open>The opening the handlers share.\<close>

lemma sound_unless_proxied:
  assumes s: "sound ssh" and i: "chan ssh i = Some c" and p: "sshbuf_inv p"
    and res: "unless_proxied e ssh i type p k = Done ssh'"
    and k: "k ssh = Done ssh' \<Longrightarrow> sound ssh'"
  shows "sound ssh'"
proof -
  from res obtain b ssh1 where u: "channel_proxy_upstream e ssh i type p = Done (b, ssh1)"
    and r: "(if b then Done ssh1 else k ssh1) = Done ssh'"
    by (auto simp: unless_proxied_def andThen_Done)
  have "sound ssh1"
    using proxy_upstream_table_ok[OF _ _ i p u] proxy_upstream_refs_ok[OF _ u i] s by (simp add: sound_def)
  with r k upstream_not_handled[OF i] u show ?thesis by (cases b) auto
qed

lemma lookup_chan:
  "channel_lookup ssh chid = Some c \<Longrightarrow> chan ssh (nat chid) = Some c \<and> c_type c \<noteq> SSH_CHANNEL_MUX_CLIENT"
  by (auto simp: channel_lookup_def channel_by_id_def chan_def split: option.splits if_split_asm)

lemma parse_id_inv:
  assumes "sshbuf_inv pkt" "channel_parse_id pkt = Done (chid, p1)"
  shows "sshbuf_inv p1"
proof -
  obtain r b where g: "sshbuf_get_u32 pkt = (r, b)" by fastforce
  with assms(2) have b: "p1 = b" "r \<noteq> Inl x" for x
    by (auto simp: channel_parse_id_def split: sum.splits if_split_asm)
  from get_int_post(2)[OF assms(1) g] b show ?thesis by (auto simp: get_post_def split: if_split_asm)
qed

lemma from_packet_id:
  assumes pkt: "sshbuf_inv pkt" and res: "channel_from_packet_id ssh pkt = Done (i, c, p1)"
  shows "chan ssh i = Some c \<and> sshbuf_inv p1 \<and> c_type c \<noteq> SSH_CHANNEL_MUX_CLIENT"
proof -
  from res obtain chid where p: "channel_parse_id pkt = Done (chid, p1)" and l: "channel_lookup ssh chid = Some c"
    and i: "i = nat chid" by (auto simp: channel_from_packet_id_def andThen_Done split: option.splits)
  show ?thesis using parse_id_inv[OF pkt p] lookup_chan[OF l] i by simp
qed

section \<open>The handlers\<close>

lemma take_data_ident:
  assumes b: "bufs_ok c" and d: "length data < 2 ^ 32" and res: "take_data e c data = Some c'"
  shows "same_ident c c'"
proof -
  obtain r out where p: "(if c_datagram c then sshbuf_put_string (e_alc e) (c_output c) data
      else sshbuf_put (e_alc e) (c_output c) data) = (r, out)" by fastforce
  have post: "put_post (c_output c) (framed c data) r out"
    using b d p by (intro put_framed_post) (auto simp: bufs_ok_def)
  have "\<exists>w k. c' = c\<lparr>c_local_window := w, c_local_consumed := k\<rparr> \<or> c' = c \<or>
      c' = c\<lparr>c_local_window := w, c_output := out\<rparr>"
  proof (cases "c_ostate c = CHAN_OUTPUT_OPEN")
    case True
    with res p show ?thesis by (cases r) (auto simp: take_data_unfold split: if_split_asm)
  next
    case False
    with res show ?thesis by (auto simp: take_data_unfold)
  qed
  then show ?thesis using bufs_ok_output[OF b post] b by (auto simp: same_ident_def bufs_ok_def)
qed

lemma take_ext_data_ident:
  assumes b: "bufs_ok c" and d: "length data < 2 ^ 32"
  shows "same_ident c (take_ext_data e c data)"
proof -
  obtain r ext where p: "sshbuf_put (e_alc e) (c_extended c) data = (r, ext)" by fastforce
  have "put_post (c_extended c) data r ext"
    using put_bytes_post[OF _ _ p] b d by (simp add: bufs_ok_def)
  then have "bufs_ok (c\<lparr>c_extended := ext\<rparr>)"
    using b by (auto simp: put_post_def bufs_ok_def same_shape_writable) (auto simp: same_shape_def)
  then show ?thesis using b p by (auto simp: take_ext_data_def Let_def same_ident_def bufs_ok_def)
qed

lemma string_short:
  assumes "sshbuf_inv b" "sshbuf_get_string_direct b = (Inr data, b')"
  shows "length data < 2 ^ 32" "sshbuf_inv b'"
  using get_string_direct_spec[OF assms] parse_string_Inr[of "contents b" data]
  by (auto split: sum.splits)

lemma u32_inv: "sshbuf_inv b \<Longrightarrow> sshbuf_get_u32 b = (r, b') \<Longrightarrow> sshbuf_inv b'"
  using get_int_post(2)[of b r b'] by (auto simp: get_post_def split: if_split_asm)

text \<open>The two ways a handler finds its channel.\<close>

lemma from_id_sound:
  assumes s: "sound ssh" and pkt: "sshbuf_inv pkt"
    and res: "andThen (channel_from_packet_id ssh pkt)
      (\<lambda>(i, c, p1). unless_proxied e ssh i ty p1 (k i c p1)) = Done ssh'"
    and k: "\<And>i c p1. chan ssh i = Some c \<Longrightarrow> c_type c \<noteq> SSH_CHANNEL_MUX_CLIENT \<Longrightarrow> bufs_ok c \<Longrightarrow>
      sshbuf_inv p1 \<Longrightarrow> k i c p1 ssh = Done ssh' \<Longrightarrow> sound ssh'"
  shows "sound ssh'"
proof -
  from res obtain i c p1 where f: "channel_from_packet_id ssh pkt = Done (i, c, p1)"
    and u: "unless_proxied e ssh i ty p1 (k i c p1) = Done ssh'"
    by (auto simp: andThen_Done)
  note i = from_packet_id[OF pkt f]
  show ?thesis
  proof (rule sound_unless_proxied[OF s _ _ u])
    assume "k i c p1 ssh = Done ssh'"
    with k[of i c p1] i soundD[OF s, of i c] show "sound ssh'" by blast
  qed (use i in simp_all)
qed

lemma by_id_sound:
  assumes s: "sound ssh" and pkt: "sshbuf_inv pkt"
    and res: "andThen (channel_parse_id pkt) (\<lambda>(chid, p1). case channel_lookup ssh chid of
         None \<Rightarrow> Done ssh
       | Some c \<Rightarrow> unless_proxied e ssh (nat chid) ty p1 (k chid c p1)) = Done ssh'"
    and k: "\<And>chid c p1. chan ssh (nat chid) = Some c \<Longrightarrow> bufs_ok c \<Longrightarrow> sshbuf_inv p1 \<Longrightarrow>
      k chid c p1 ssh = Done ssh' \<Longrightarrow> sound ssh'"
  shows "sound ssh'"
proof -
  from res obtain chid p1 where p: "channel_parse_id pkt = Done (chid, p1)"
    and r: "(case channel_lookup ssh chid of None \<Rightarrow> Done ssh
       | Some c \<Rightarrow> unless_proxied e ssh (nat chid) ty p1 (k chid c p1)) = Done ssh'"
    by (auto simp: andThen_Done)
  note i = parse_id_inv[OF pkt p]
  show ?thesis
  proof (cases "channel_lookup ssh chid")
    case None
    with r s show ?thesis by simp
  next
    case (Some c)
    with r have u: "unless_proxied e ssh (nat chid) ty p1 (k chid c p1) = Done ssh'" by simp
    show ?thesis
    proof (rule sound_unless_proxied[OF s _ _ u])
      assume "k chid c p1 ssh = Done ssh'"
      with k[of chid c p1] i lookup_chan[OF Some] soundD[OF s, of "nat chid" c] show "sound ssh'" by blast
    qed (use i lookup_chan[OF Some] in simp_all)
  qed
qed

lemma input_data_sound:
  assumes s: "sound ssh" and pkt: "sshbuf_inv pkt" and res: "channel_input_data e ssh pkt = Done ssh'"
  shows "sound ssh'"
proof (rule from_id_sound[OF s pkt res[unfolded channel_input_data_def]])
  fix i c p1
  assume i: "chan ssh i = Some c" "bufs_ok c" "sshbuf_inv p1"
    and k: "(if c_type c \<notin> {SSH_CHANNEL_OPEN, SSH_CHANNEL_RDYNAMIC_OPEN, SSH_CHANNEL_RDYNAMIC_FINISH,
              SSH_CHANNEL_X11_OPEN} then Done ssh
         else
           (case sshbuf_get_string_direct p1 of
              (Inl r, _) \<Rightarrow> Fatal
            | (Inr data, p2) \<Rightarrow>
              if sshpkt_get_end p2 \<noteq> Inr () then Fatal
              else (case take_data e c data of
                      None \<Rightarrow> Fatal
                    | Some c1 \<Rightarrow> Done (set_slot i (Some c1) ssh)))) = Done ssh'"
  from k consider "ssh' = ssh" | data p2 c1 where "sshbuf_get_string_direct p1 = (Inr data, p2)"
      "take_data e c data = Some c1" "ssh' = set_slot i (Some c1) ssh"
    by (auto split: if_split_asm prod.split_asm sum.split_asm option.split_asm)
  then show "sound ssh'"
  proof cases
    case (2 data p2 c1)
    have "same_ident c c1" using take_data_ident[OF i(2) string_short(1)[OF i(3) 2(1)] 2(2)] .
    with sound_set_slot[OF s i(1)] 2(3) show ?thesis by simp
  qed (use s in simp)
qed

lemma input_extended_data_sound:
  assumes s: "sound ssh" and pkt: "sshbuf_inv pkt" and res: "channel_input_extended_data e ssh pkt = Done ssh'"
  shows "sound ssh'"
proof (rule from_id_sound[OF s pkt res[unfolded channel_input_extended_data_def]])
  fix i c p1
  assume i: "chan ssh i = Some c" "bufs_ok c" "sshbuf_inv p1"
    and k: "(if c_type c \<noteq> SSH_CHANNEL_OPEN then Done ssh
         else if c_flags c AND CHAN_EOF_RCVD \<noteq> 0 \<and> s_compat ssh AND SSH_BUG_EXTEOF = 0 then Disconnect
         else
           (case sshbuf_get_u32 p1 of
              (Inl r, _) \<Rightarrow> Disconnect
            | (Inr tcode, p2) \<Rightarrow>
              if c_efd c = -1 \<or> c_extended_usage c \<noteq> CHAN_EXTENDED_WRITE \<or>
                 tcode \<noteq> SSH2_EXTENDED_DATA_STDERR then Done ssh
              else
                (case sshbuf_get_string_direct p2 of
                   (Inl r, _) \<Rightarrow> Disconnect
                 | (Inr data, p3) \<Rightarrow>
                   if sshpkt_get_end p3 \<noteq> Inr () then Disconnect
                   else Done (set_slot i (Some (take_ext_data e c data)) ssh)))) = Done ssh'"
  from k consider "ssh' = ssh" | tc p2 data p3 where "sshbuf_get_u32 p1 = (Inr tc, p2)"
      "sshbuf_get_string_direct p2 = (Inr data, p3)" "ssh' = set_slot i (Some (take_ext_data e c data)) ssh"
    by (auto split: if_split_asm prod.split_asm sum.split_asm)
  then show "sound ssh'"
  proof cases
    case (2 tc p2 data p3)
    have "same_ident c (take_ext_data e c data)"
      by (rule take_ext_data_ident[OF i(2) string_short(1)[OF u32_inv[OF i(3) 2(1)] 2(2)]])
    with sound_set_slot[OF s i(1)] 2(3) show ?thesis by simp
  qed (use s in simp)
qed

lemma input_oclose_sound:
  assumes s: "sound ssh" and pkt: "sshbuf_inv pkt" and res: "channel_input_oclose e ssh pkt = Done ssh'"
  shows "sound ssh'"
proof (rule from_id_sound[OF s pkt res[unfolded channel_input_oclose_def]])
  fix i c p1
  assume i: "chan ssh i = Some c"
    and k: "(if sshpkt_get_end p1 \<noteq> Inr () then Disconnect else on_channel (chan_rcvd_oclose e) i ssh) = Done ssh'"
  then have "on_channel (chan_rcvd_oclose e) i ssh = Done ssh'" by (simp split: if_split_asm)
  from sound_on_channel[OF s i this] ident_rcvd_oclose[of e "(c, [])"] show "sound ssh'" by simp
qed

lemma input_ieof_sound:
  assumes s: "sound ssh" and pkt: "sshbuf_inv pkt" and res: "channel_input_ieof e ssh pkt = Done ssh'"
  shows "sound ssh'"
proof -
  from res obtain i c p1 where f: "channel_from_packet_id ssh pkt = Done (i, c, p1)"
    and u: "unless_proxied e ssh i SSH2_MSG_CHANNEL_EOF p1 (on_channel (take_ieof e) i) = Done ssh'"
    by (auto simp: channel_input_ieof_def andThen_Done split: if_split_asm)
  note i = from_packet_id[OF pkt f]
  show ?thesis
  proof (rule sound_unless_proxied[OF s _ _ u])
    assume "on_channel (take_ieof e) i ssh = Done ssh'"
    from sound_on_channel[OF s _ this] i ident_take_ieof[of e "(c, [])"] show "sound ssh'" by simp
  qed (use i in simp_all)
qed

lemma confirm_cb_chan: "chan (confirm_cb c b ssh) = chan ssh" "sound (confirm_cb c b ssh) = sound ssh"
  by (simp_all add: confirm_cb_def split: option.split)

lemma input_open_confirmation_sound:
  assumes s: "sound ssh" and pkt: "sshbuf_inv pkt"
    and res: "channel_input_open_confirmation e ssh pkt = Done ssh'"
  shows "sound ssh'"
proof (rule from_id_sound[OF s pkt res[unfolded channel_input_open_confirmation_def]])
  fix i c p1
  assume i: "chan ssh i = Some c" "c_type c \<noteq> SSH_CHANNEL_MUX_CLIENT" "bufs_ok c"
    and k: "(if c_type c \<noteq> SSH_CHANNEL_OPENING then Disconnect
         else
           (case sshbuf_get_u32 p1 of
              (Inl r, _) \<Rightarrow> Disconnect
            | (Inr remote_id, p2) \<Rightarrow>
              (case sshbuf_get_u32 p2 of
                 (Inl r, _) \<Rightarrow> Disconnect
               | (Inr remote_window, p3) \<Rightarrow>
                 (case sshbuf_get_u32 p3 of
                    (Inl r, _) \<Rightarrow> Disconnect
                  | (Inr remote_maxpacket, p4) \<Rightarrow>
                    if sshpkt_get_end p4 \<noteq> Inr () then Disconnect
                    else Done (confirm_cb c True (set_slot i (Some (c\<lparr>c_remote_id := remote_id,
                           c_have_remote_id := True, c_remote_window := remote_window,
                           c_remote_maxpacket := remote_maxpacket, c_type := SSH_CHANNEL_OPEN,
                           c_lastused := e_monotime e\<rparr>)) ssh)))))) = Done ssh'"
  then obtain rid w mp where "ssh' = confirm_cb c True (set_slot i (Some (c\<lparr>c_remote_id := rid,
      c_have_remote_id := True, c_remote_window := w, c_remote_maxpacket := mp,
      c_type := SSH_CHANNEL_OPEN, c_lastused := e_monotime e\<rparr>)) ssh)"
    by (auto split: if_split_asm prod.split_asm sum.split_asm)
  then show "sound ssh'" using i
    by (simp add: confirm_cb_chan) (rule sound_retype[OF s i(1,2)], simp_all add: bufs_ok_def)
qed

lemma input_open_failure_sound:
  assumes s: "sound ssh" and pkt: "sshbuf_inv pkt" and res: "channel_input_open_failure e ssh pkt = Done ssh'"
  shows "sound ssh'"
proof (rule from_id_sound[OF s pkt res[unfolded channel_input_open_failure_def]])
  fix i c p1
  assume i: "chan ssh i = Some c" "c_type c \<noteq> SSH_CHANNEL_MUX_CLIENT" "bufs_ok c"
    and k: "(if c_type c \<noteq> SSH_CHANNEL_OPENING then Disconnect
         else
           (case sshbuf_get_u32 p1 of
              (Inl r, _) \<Rightarrow> Disconnect
            | (Inr reason, p2) \<Rightarrow>
              (case sshbuf_get_cstring (e_alc e) p2 of
                 (Inl r, _) \<Rightarrow> Disconnect
               | (Inr msg, p3) \<Rightarrow>
                 (case sshbuf_get_string_direct p3 of
                    (Inl r, _) \<Rightarrow> Disconnect
                  | (Inr lang, p4) \<Rightarrow>
                    if sshpkt_get_end p4 \<noteq> Inr () then Disconnect
                    else on_channel (\<lambda>st. Done (chan_mark_dead st)) i (confirm_cb c False ssh))))) = Done ssh'"
  then have o: "on_channel (\<lambda>st. Done (chan_mark_dead st)) i (confirm_cb c False ssh) = Done ssh'"
    by (auto split: if_split_asm prod.split_asm sum.split_asm)
  let ?ssh1 = "confirm_cb c False ssh"
  have i1: "chan ?ssh1 i = Some c" "sound ?ssh1" using i s by (simp_all add: confirm_cb_chan)
  from o chan_nth[OF i1(1)] have "ssh' = set_slot i (Some (c\<lparr>c_type := SSH_CHANNEL_ZOMBIE\<rparr>)) ?ssh1"
    by (simp add: on_channel_def chan_mark_dead_def set_slot_def)
  then show "sound ssh'" using i
    by (simp, intro sound_retype[OF i1(2,1) i(2)]) (simp_all add: bufs_ok_def)
qed

lemma input_window_adjust_sound:
  assumes s: "sound ssh" and pkt: "sshbuf_inv pkt" and res: "channel_input_window_adjust e ssh pkt = Done ssh'"
  shows "sound ssh'"
proof (rule by_id_sound[OF s pkt res[unfolded channel_input_window_adjust_def]])
  fix chid c p1
  assume i: "chan ssh (nat chid) = Some c" "bufs_ok c"
    and k: "(case sshbuf_get_u32 p1 of
              (Inl r, _) \<Rightarrow> Disconnect
            | (Inr adjust, p2) \<Rightarrow>
              if sshpkt_get_end p2 \<noteq> Inr () then Disconnect
              else let new_rwin = c_remote_window c + adjust in
                if new_rwin < c_remote_window c then Fatal
                else Done (set_slot (nat chid) (Some (c\<lparr>c_remote_window := new_rwin\<rparr>)) ssh)) = Done ssh'"
  then obtain w where "ssh' = set_slot (nat chid) (Some (c\<lparr>c_remote_window := w\<rparr>)) ssh"
    by (auto simp: Let_def split: if_split_asm prod.split_asm sum.split_asm)
  then show "sound ssh'" using i by (simp, intro sound_set_slot[OF s i(1)]) (simp add: same_ident_def bufs_ok_def)
qed

lemma input_status_confirm_sound:
  assumes s: "sound ssh" and pkt: "sshbuf_inv pkt" and res: "channel_input_status_confirm e type ssh pkt = Done ssh'"
  shows "sound ssh'"
proof (rule by_id_sound[OF s pkt res[unfolded channel_input_status_confirm_def]])
  fix chid c p1
  assume i: "chan ssh (nat chid) = Some c" "bufs_ok c"
    and k: "(if sshpkt_get_end p1 \<noteq> Inr () then Disconnect
           else (case c_status_confirms c of
                   [] \<Rightarrow> Done ssh
                 | cc # ccs \<Rightarrow>
                   Done (set_slot (nat chid) (Some (c\<lparr>c_status_confirms := ccs\<rparr>))
                           (emit (Status_confirm (fst cc) (c_self c) type) ssh)))) = Done ssh'"
  then consider "ssh' = ssh" | x ccs where
      "ssh' = set_slot (nat chid) (Some (c\<lparr>c_status_confirms := ccs\<rparr>)) (emit x ssh)"
    by (auto split: if_split_asm list.split_asm)
  then show "sound ssh'"
  proof cases
    case (2 x ccs)
    then show ?thesis using i s
      by (simp, intro sound_set_slot[where c = c]) (simp_all add: same_ident_def bufs_ok_def)
  qed (use s in simp)
qed

text \<open>The handlers by the type of their message.\<close>

definition handler_for :: "env \<Rightarrow> nat \<Rightarrow> (ssh \<Rightarrow> sshbuf \<Rightarrow> ssh run) option" where
  "handler_for e type =
     (if type = SSH2_MSG_CHANNEL_DATA then Some (channel_input_data e)
      else if type = SSH2_MSG_CHANNEL_EXTENDED_DATA then Some (channel_input_extended_data e)
      else if type = SSH2_MSG_CHANNEL_EOF then Some (channel_input_ieof e)
      else if type = SSH2_MSG_CHANNEL_CLOSE then Some (channel_input_oclose e)
      else if type = SSH2_MSG_CHANNEL_OPEN_CONFIRMATION then Some (channel_input_open_confirmation e)
      else if type = SSH2_MSG_CHANNEL_OPEN_FAILURE then Some (channel_input_open_failure e)
      else if type = SSH2_MSG_CHANNEL_WINDOW_ADJUST then Some (channel_input_window_adjust e)
      else if type \<in> {SSH2_MSG_CHANNEL_SUCCESS, SSH2_MSG_CHANNEL_FAILURE}
      then Some (channel_input_status_confirm e type)
      else None)"

lemma handler_sound:
  "handler_for e type = Some h \<Longrightarrow> sound ssh \<Longrightarrow> sshbuf_inv pkt \<Longrightarrow> h ssh pkt = Done ssh' \<Longrightarrow> sound ssh'"
  using input_data_sound[of ssh pkt e ssh'] input_extended_data_sound[of ssh pkt e ssh']
    input_ieof_sound[of ssh pkt e ssh'] input_oclose_sound[of ssh pkt e ssh']
    input_open_confirmation_sound[of ssh pkt e ssh'] input_open_failure_sound[of ssh pkt e ssh']
    input_window_adjust_sound[of ssh pkt e ssh'] input_status_confirm_sound[of ssh pkt e type ssh']
  unfolding handler_for_def by (simp split: if_split_asm)

inductive channel_step :: "env \<Rightarrow> ssh \<Rightarrow> ssh \<Rightarrow> bool" for e where
  Step_table: "table_step e ssh ssh' \<Longrightarrow> channel_step e ssh ssh'"
| Step_message: "handler_for e type = Some h \<Longrightarrow> sshbuf_inv pkt \<Longrightarrow> h ssh pkt = Done ssh' \<Longrightarrow>
     channel_step e ssh ssh'"

lemma channel_step_sound: "channel_step e ssh ssh' \<Longrightarrow> sound ssh \<Longrightarrow> sound ssh'"
proof (induction rule: channel_step.induct)
  case (Step_table ssh ssh')
  then show ?case using table_step_ok unfolding sound_def by blast
next
  case (Step_message type h pkt ssh ssh')
  then show ?case using handler_sound by blast
qed

lemma channel_steps_sound: "(channel_step e)\<^sup>*\<^sup>* ssh ssh' \<Longrightarrow> sound ssh \<Longrightarrow> sound ssh'"
  by (induction rule: rtranclp_induct) (blast intro: channel_step_sound)+

lemma sound_init: "sound (channel_init_channels cm)"
  using init_table_ok by (simp add: sound_def)

end
