(* ===== verification/TableProps.thy ===== *)
theory TableProps
  imports Demo TableInput ChanPass
begin

text \<open>
  Properties of the table of channels: what every sequence of its operations and of the handlers of
  the peer's messages keeps, how numbers are given out, and that descriptors are closed once.
\<close>

section \<open>Every table that can arise\<close>

text \<open>
  C17: From the empty table, through any sequence of creations and releases of channels, of messages
  forwarded for a multiplexing client in either direction, and of messages of the peer handled by the
  dispatch table, whatever bytes they hold: each slot's channel carries the slot's number and sound
  buffers, each proxy refers to a slot that holds a live multiplexing client, and so does each
  permission that was granted to one. The mux client that is freed is never pointed to.
\<close>

theorem table_stays_sound:
  assumes "(channel_step e)\<^sup>*\<^sup>* (channel_init_channels cm) ssh" and "chan ssh i = Some c"
  shows "c_self c = i \<and> bufs_ok c \<and>
    (c_type c = SSH_CHANNEL_MUX_PROXY \<longrightarrow> c_mux_ctx c = Some d \<longrightarrow> live_mux_client ssh d) \<and>
    (p \<in> set (ps_permitted_user (s_local_perms ssh)) \<longrightarrow> p_downstream p = Some d \<longrightarrow> live_mux_client ssh d)"
proof -
  have s: "sound ssh" by (rule channel_steps_sound[OF assms(1) sound_init])
  then have "refs_ok ssh" by (simp add: sound_def)
  with soundD[OF s assms(2)] assms(2) show ?thesis unfolding refs_ok_def by blast
qed

theorem table_stays_sound_witness:
  "\<exists>ssh c. (channel_step demo_env)\<^sup>*\<^sup>* (channel_init_channels 0) ssh \<and> chan ssh 0 = Some c \<and>
     c_type c = SSH_CHANNEL_MUX_CLIENT \<and> c_self c = 0"
proof -
  have "length (s_channels (channel_init_channels 0)) \<le> CHANNELS_MAX_CHANNELS"
    by (simp add: channel_init_channels_def)
  from demo_channel_new[OF this] obtain i ssh where
    n: "channel_new demo_env (channel_init_channels 0) ''mux-control'' SSH_CHANNEL_MUX_CLIENT 7 7 (-1) 0 0
      CHAN_EXTENDED_IGNORE ''mux'' CHANNEL_NONBLOCK_SET = Done (i, ssh)" by blast
  from channel_new_result[OF n] have i: "i = 0" by (auto simp: channel_init_channels_def free_slot_def)
  from channel_new_chan[OF n] obtain c where c: "chan ssh 0 = Some c" "c_type c = SSH_CHANNEL_MUX_CLIENT"
    by (auto simp: i fresh_channel_def)
  have r: "(channel_step demo_env)\<^sup>*\<^sup>* (channel_init_channels 0) ssh"
    using Step_table[OF Step_new[OF n]] by blast
  from table_stays_sound[OF r c(1)] r c show ?thesis by blast
qed

section \<open>Numbers\<close>

text \<open>
  A new channel gets the lowest number that is free, so that it is below every larger hole and all
  slots under it are taken; the table grows by ten slots when none is free; the channels there are,
  the permissions and what was sent are left as they were. The channel starts with empty sound buffers
  and the window, packet size and idle timeout of its kind.
\<close>

theorem channel_takes_lowest_slot:
  assumes "channel_new e ssh ctype type rfd wfd efd window maxpack eu name nb = Done (i, ssh')"
  shows "\<exists>c. chan ssh i = None \<and> (\<forall>j. j < i \<longrightarrow> chan ssh j \<noteq> None) \<and>
    (\<forall>j. chan ssh' j = (if j = i then Some c else chan ssh j)) \<and>
    length (s_channels ssh') = length (s_channels ssh) + (if i = length (s_channels ssh) then 10 else 0) \<and>
    s_local_perms ssh' = s_local_perms ssh \<and> s_remote_perms ssh' = s_remote_perms ssh \<and>
    s_effects ssh' = s_effects ssh \<and> fresh_channel i ctype type window maxpack c"
proof -
  from channel_new_result[OF assms] obtain c0 where i: "i = free_slot (s_channels ssh)"
    and s: "ssh' = ssh\<lparr>s_channels := ((if i < length (s_channels ssh) then s_channels ssh
                 else s_channels ssh @ replicate 10 None))[i := Some c0]\<rparr>" by metis
  have "chan ssh j \<noteq> None" if "j < i" for j
    using that free_slot_least[of j "s_channels ssh"] free_slot_le[of "s_channels ssh"] by (auto simp: i chan_def)
  moreover have "length (s_channels ssh') = length (s_channels ssh) + (if i = length (s_channels ssh) then 10 else 0)"
    using free_slot_le[of "s_channels ssh"] by (auto simp: s i)
  ultimately show ?thesis using channel_new_chan[OF assms] by blast
qed

theorem channel_takes_lowest_slot_witness:
  "\<exists>ssh'. channel_new demo_env (demo_table [demo_open]) ''direct-tcpip'' SSH_CHANNEL_OPENING 8 8 (-1) 10 10
      CHAN_EXTENDED_IGNORE ''x'' CHANNEL_NONBLOCK_SET = Done (1, ssh') \<and>
    chan (demo_table [demo_open]) 1 = None \<and> length (s_channels ssh') = 3"
proof -
  have "length (s_channels (demo_table [demo_open])) \<le> CHANNELS_MAX_CHANNELS" by (simp add: demo_table_def)
  from demo_channel_new[OF this] obtain i ssh' where
    n: "channel_new demo_env (demo_table [demo_open]) ''direct-tcpip'' SSH_CHANNEL_OPENING 8 8 (-1) 10 10
      CHAN_EXTENDED_IGNORE ''x'' CHANNEL_NONBLOCK_SET = Done (i, ssh')" by blast
  from channel_new_result[OF n] have "i = 1" by (auto simp: demo_table_def free_slot_def)
  with channel_takes_lowest_slot[OF n] n show ?thesis by (auto simp: demo_table_def)
qed

section \<open>Descriptors\<close>

text \<open>
  Closing the descriptors of a channel closes each descriptor it holds exactly once, although the
  same descriptor usually stands in several of its fields, closes no other, and leaves none in a field.
\<close>

theorem descriptors_closed_once:
  "\<exists>ds. closed_by (snd (channel_close_fds (c, fx))) = closed_by fx @ ds \<and> distinct ds \<and> set ds = open_fds c \<and>
     open_fds (fst (channel_close_fds (c, fx))) = {}"
  using close_fds_once[of c fx] close_fds_open_fds[of c fx] by blast

text \<open>
  channel_close_all, which a child process runs after the fork, leaves no channel of the table with
  a descriptor of the parent.
\<close>

theorem close_all_leaves_no_descriptor:
  assumes "channel_close_all ssh = Done ssh'" "chan ssh' i = Some c"
  shows "c_rfd c = -1 \<and> c_wfd c = -1 \<and> c_efd c = -1 \<and> c_sock c = -1"
  using close_all_leaves_no_fd[OF assms(1)] assms(2) by (auto simp: all_chans_def open_fds_def)

theorem close_all_leaves_no_descriptor_witness:
  "\<exists>ssh' c. channel_close_all (demo_table [demo_open]) = Done ssh' \<and> chan ssh' 0 = Some c \<and> c_sock c = -1"
proof -
  have "\<exists>ssh' c. channel_close_all (demo_table [demo_open]) = Done ssh' \<and> chan ssh' 0 = Some c"
    by (simp add: channel_close_all_def slots_def demo_table_def on_channel_def chan_def split_beta upt_rec)
  then show ?thesis using close_all_leaves_no_descriptor by blast
qed

section \<open>The peer's window\<close>

text \<open>
  A WINDOW_ADJUST for a channel of this process adds what it says to the window of that channel and
  changes nothing else; one that would wrap the 32-bit window round ends the program instead.
\<close>

theorem window_adjust_adds_or_dies:
  assumes pkt: "sshbuf_inv pkt" "contents pkt = POKE_U32 cid @ POKE_U32 n"
    and id: "unat cid < 2147483648"
    and c: "channel_lookup ssh (uint cid) = Some c" "c_type c \<noteq> SSH_CHANNEL_MUX_PROXY"
  shows "channel_input_window_adjust e ssh pkt =
    (if unat (c_remote_window c) + unat n < 4294967296
     then Done (set_slot (unat cid) (Some (c\<lparr>c_remote_window := c_remote_window c + n\<rparr>)) ssh)
     else Fatal)"
proof -
  obtain p1 where p1: "sshbuf_get_u32 pkt = (Inr cid, p1)" "sshbuf_inv p1" "contents p1 = POKE_U32 n @ []"
    using get_u32_prefix[OF pkt] by auto
  obtain p2 where p2: "sshbuf_get_u32 p1 = (Inr n, p2)" "sshbuf_inv p2" "contents p2 = []"
    using get_u32_prefix[OF p1(2,3)] by auto
  have par: "channel_parse_id pkt = Done (uint cid, p1)"
    using id by (simp add: channel_parse_id_def p1(1) word_less_nat_alt not_less)
  have nat: "nat (uint cid) = unat cid" by simp
  have e: "sshpkt_get_end p2 = Inr ()" using empty_len[OF p2(2,3)] by (simp add: sshpkt_get_end_def)
  have up: "channel_proxy_upstream e ssh (unat cid) SSH2_MSG_CHANNEL_WINDOW_ADJUST p1 = Done (False, ssh)"
    using c lookup_chan[OF c(1)] chan_nth[of ssh "unat cid" c]
    by (simp add: channel_proxy_upstream_def split: option.splits)
  have wrap: "(c_remote_window c + n < c_remote_window c) = (\<not> unat (c_remote_window c) + unat n < 4294967296)"
    using unsigned_less[of n, where 'a = nat] unsigned_less[of "c_remote_window c", where 'a = nat]
    by (auto simp: word_less_nat_alt unat_plus_if')
  show ?thesis
    by (simp add: channel_input_window_adjust_def par c(1) nat unless_proxied_def up p2(1) e Let_def wrap)
qed

theorem window_adjust_adds_or_dies_witness:
  "channel_input_window_adjust demo_env (demo_table [demo_open]) (demo_buf [0, 0, 0, 0, 0, 0, 0, 9]) =
     Done (set_slot 0 (Some (demo_open\<lparr>c_remote_window := 1009\<rparr>)) (demo_table [demo_open])) \<and>
   channel_input_window_adjust demo_env (demo_table [demo_open]) (demo_buf [0, 0, 0, 0, 255, 255, 255, 255]) = Fatal"
proof -
  have l: "channel_lookup (demo_table [demo_open]) (uint (0 :: u32)) = Some demo_open"
    by (simp add: channel_lookup_def channel_by_id_def demo_table_def demo_simps)
  have o: "c_type demo_open \<noteq> SSH_CHANNEL_MUX_PROXY" "c_remote_window demo_open = 1000"
    by (simp_all add: demo_simps)
  have p: "contents (demo_buf [0, 0, 0, 0, 0, 0, 0, 9]) = POKE_U32 0 @ POKE_U32 9"
    "contents (demo_buf [0, 0, 0, 0, 255, 255, 255, 255]) = POKE_U32 0 @ POKE_U32 0xffffffff"
    by (simp_all add: POKE_U32_def)
  show ?thesis
    using window_adjust_adds_or_dies[OF _ p(1) _ l o(1)] window_adjust_adds_or_dies[OF _ p(2) _ l o(1)]
    by (simp add: o(2))
qed

end
