(* ===== verification/MuxProps.thy ===== *)
theory MuxProps
  imports Demo ChanMux
begin

text \<open>
  Properties of the multiplexing proxy: channel numbers are translated both ways, a proxy channel goes
  when both sides have closed it, and what happens to proxies whose client is freed.
\<close>

section \<open>Concrete tables\<close>

text \<open>A multiplexing client in slot 0 and a proxy for its channel 42 in slot 1.\<close>

definition demo_client :: channel where
  "demo_client = demo_new\<lparr>c_type := SSH_CHANNEL_MUX_CLIENT\<rparr>"

definition demo_proxy :: channel where
  "demo_proxy = demo_new\<lparr>c_self := 1, c_type := SSH_CHANNEL_MUX_PROXY, c_mux_ctx := Some 0,
     c_mux_downstream_id := 42, c_flags := 0\<rparr>"

lemmas mux_demo = demo_client_def demo_proxy_def demo_table_def demo_simps

lemma demo_slots [simp]:
  "chan (demo_table [a, b]) 0 = Some a" "chan (demo_table [a, b]) 1 = Some b"
  "chan (demo_table [a, b]) (Suc 0) = Some b"
  by (simp_all add: chan_def demo_table_def)

section \<open>From the client\<close>

text \<open>
  C32: An OPEN that a multiplexing client sends for its channel cid reaches the server with the same
  channel type and the same rest, byte for byte, but under the number of a slot of this process that
  was free, which now holds a proxy channel that remembers the client and its number cid.
\<close>

theorem client_open_is_renumbered:
  assumes "sshbuf_inv orig" "contents orig = enc_string ctype @ POKE_U32 cid @ rest"
    and "0 \<notin> set ctype" "length ctype < 134217724"
    and "down_open e ssh d (Some orig) = Done (0, ssh')"
  shows "\<exists>i c. chan ssh i = None \<and> chan ssh' i = Some c \<and> c_type c = SSH_CHANNEL_MUX_PROXY \<and>
    c_mux_ctx c = Some d \<and> c_mux_downstream_id c = cid \<and>
    s_effects ssh' = s_effects ssh @ [Send (Packet SSH2_MSG_CHANNEL_OPEN
      [PUT_RAW (enc_string ctype @ POKE_U32 (word_of_nat i) @ rest)])]"
  by (rule down_open_sends[OF assms])

theorem client_open_is_renumbered_witness:
  "\<exists>i ssh'. down_open demo_env (demo_table [demo_client]) 0 (Some (demo_buf (enc_string [120] @ POKE_U32 42 @ [9]))) =
      Done (0, ssh') \<and>
    s_effects ssh' = [Send (Packet SSH2_MSG_CHANNEL_OPEN
      [PUT_RAW (enc_string [120] @ POKE_U32 (word_of_nat i) @ [9])])]"
proof -
  let ?b = "demo_buf (enc_string [120] @ POKE_U32 42 @ [9])"
  have "case down_open demo_env (demo_table [demo_client]) 0 (Some ?b) of Done (r, s) \<Rightarrow> r = 0 | _ \<Rightarrow> False"
    by code_simp
  then obtain ssh' where r: "down_open demo_env (demo_table [demo_client]) 0 (Some ?b) = Done (0, ssh')"
    by (auto split: run.splits prod.splits)
  have "s_effects (demo_table [demo_client]) = []" by (simp add: demo_table_def channel_init_channels_def)
  moreover have "sshbuf_inv ?b" "contents ?b = enc_string [120] @ POKE_U32 42 @ [9]"
    "0 \<notin> set [120 :: u8]" "length [120 :: u8] < 134217724"
    by (simp_all add: enc_string_def POKE_U32_def)
  note s = client_open_is_renumbered[OF this r]
  ultimately show ?thesis using s r by auto
qed

section \<open>From the server\<close>

text \<open>
  A message of the server for a proxy channel goes to the output of the client the proxy belongs
  to, under the client's number, with the rest as it came, as one length-prefixed packet or, when there
  is no memory, not at all; other slots are left alone. A CLOSE releases the proxy when the client has
  sent its CLOSE, and is remembered when it has not.
\<close>

theorem server_message_reaches_client:
  assumes "chan ssh i = Some c" "c_type c = SSH_CHANNEL_MUX_PROXY" "c_mux_ctx c = Some d"
    and "chan ssh d = Some ds" "i \<noteq> d" "type \<in> proxied_types" "sshbuf_inv pkt" "sshbuf_inv (c_output ds)"
    and "channel_proxy_upstream e ssh i type pkt = Done (b, ssh')"
  shows "b \<and> (\<exists>ds'. chan ssh' d = Some ds' \<and> contents (c_output ds') \<in> {contents (c_output ds),
        contents (c_output ds) @ enc_string ([0, word_of_nat type] @ POKE_U32 (c_mux_downstream_id c) @ contents pkt)}) \<and>
    (type = SSH2_MSG_CHANNEL_CLOSE \<longrightarrow>
       chan ssh' i = (if c_flags c AND CHAN_CLOSE_SENT \<noteq> 0 then None
                      else Some (c\<lparr>c_flags := c_flags c OR CHAN_CLOSE_RCVD\<rparr>)))"
  using proxy_upstream_result[OF assms(1-6,9)]
    forward_upstream_spec[OF assms(8,7), of e "c_mux_downstream_id c" type] by auto

theorem server_message_reaches_client_witness:
  "\<exists>ssh'. channel_proxy_upstream demo_env (demo_table [demo_client, demo_proxy]) 1 SSH2_MSG_CHANNEL_CLOSE (demo_buf []) =
      Done (True, ssh') \<and>
    chan ssh' 1 = Some (demo_proxy\<lparr>c_flags := CHAN_CLOSE_RCVD\<rparr>)"
proof -
  have "\<exists>ssh'. channel_proxy_upstream demo_env (demo_table [demo_client, demo_proxy]) 1 SSH2_MSG_CHANNEL_CLOSE (demo_buf []) =
      Done (True, ssh')"
    by (simp add: channel_proxy_upstream_def demo_proxy_def demo_table_def proxied_types_def chan_def)
  then obtain ssh' where r: "channel_proxy_upstream demo_env (demo_table [demo_client, demo_proxy]) 1
      SSH2_MSG_CHANNEL_CLOSE (demo_buf []) = Done (True, ssh')" ..
  have "c_type demo_proxy = SSH_CHANNEL_MUX_PROXY" "c_mux_ctx demo_proxy = Some 0"
    "SSH2_MSG_CHANNEL_CLOSE \<in> proxied_types" "sshbuf_inv (c_output demo_client)" "c_flags demo_proxy = 0"
    by (simp_all add: mux_demo proxied_types_def)
  with server_message_reaches_client[OF demo_slots(2) this(1,2) demo_slots(1) _ this(3) _ this(4) r] r
  show ?thesis by simp
qed

section \<open>Clients that go away\<close>

text \<open>
  C40: When the channel of a multiplexing client is freed as such, its proxies are cut loose: each becomes
  an open channel of this process with both directions closed, which points to no client. But a client
  that was first marked dead is a zombie when it is freed, and channel_free looks at the type: then its
  proxies stay, and still point to the slot that is free now; the next message of the server for one
  goes through the dangling pointer (Fatal in the model).
\<close>

theorem dead_client_leaves_dangling_proxies:
  assumes c: "chan ssh i = Some c" "c_type c = SSH_CHANNEL_MUX_PROXY" "c_mux_ctx c = Some d"
    and d: "chan ssh d = Some ds" "i \<noteq> d" and ty: "type \<in> proxied_types"
    and free: "channel_free e ssh d = Done ssh'"
  shows "if c_type ds = SSH_CHANNEL_MUX_CLIENT
    then chan ssh' i = Some (c\<lparr>c_mux_ctx := None, c_type := SSH_CHANNEL_OPEN,
      c_istate := CHAN_INPUT_CLOSED, c_ostate := CHAN_OUTPUT_CLOSED\<rparr>)
    else chan ssh' i = Some c \<and> chan ssh' d = None \<and> channel_proxy_upstream e ssh' i type pkt = Fatal"
proof (cases "c_type ds = SSH_CHANNEL_MUX_CLIENT")
  case True
  then show ?thesis using channel_free_chan(1)[OF free d(1)] c d(2) by (simp add: detach_proxy_def)
next
  case False
  then have "chan ssh' i = Some c" "chan ssh' d = None" using channel_free_chan(1)[OF free d(1)] c d(2) by simp_all
  with False c ty chan_nth[of ssh' i c] show ?thesis by (simp add: channel_proxy_upstream_def)
qed

text \<open>The zombie is made by the code itself, when the client's descriptor fails.\<close>

theorem dead_client_leaves_dangling_proxies_witness:
  "\<exists>ssh'. channel_free demo_env (demo_table [fst (chan_mark_dead (demo_client, [])), demo_proxy]) 0 = Done ssh' \<and>
     chan ssh' 1 = Some demo_proxy \<and> chan ssh' 0 = None \<and>
     channel_proxy_upstream demo_env ssh' 1 SSH2_MSG_CHANNEL_DATA (demo_buf []) = Fatal"
proof -
  let ?t = "demo_table [fst (chan_mark_dead (demo_client, [])), demo_proxy]"
  have f: "\<exists>ssh'. channel_free demo_env ?t 0 = Done ssh'"
    by (simp add: channel_free_def mux_demo chan_mark_dead_def split_beta)
  then obtain ssh' where f: "channel_free demo_env ?t 0 = Done ssh'" ..
  have "c_type demo_proxy = SSH_CHANNEL_MUX_PROXY" "c_mux_ctx demo_proxy = Some 0"
    "c_type (fst (chan_mark_dead (demo_client, []))) \<noteq> SSH_CHANNEL_MUX_CLIENT"
    "SSH2_MSG_CHANNEL_DATA \<in> proxied_types"
    by (simp_all add: mux_demo chan_mark_dead_def proxied_types_def)
  with dead_client_leaves_dangling_proxies[OF demo_slots(2) this(1,2) demo_slots(1) _ this(4) f] f
  show ?thesis by simp
qed

end
