(* ===== verification/SessionTab.thy ===== *)
theory SessionTab
  imports Nchan
begin

text \<open>
  The sessions of \<open>session.c\<close>: a table that grows up to \<open>MaxSessions\<close>, its free slots linked in a list
  through \<open>next_unused\<close>, and what happens to a session when its channel or its child process goes.
  The record \<open>server\<close> holds the channel layer's state beside the file-scope variables of \<open>session.c\<close>
  and \<open>serverloop.c\<close>. Log messages and the process title are left out; releasing a pty is a call to the
  monitor of which only the result, no pty, stays here.
\<close>

abbreviation SUBSYSTEM_NONE :: nat where "SUBSYSTEM_NONE \<equiv> 0"
abbreviation SUBSYSTEM_EXT :: nat where "SUBSYSTEM_EXT \<equiv> 1"
abbreviation SUBSYSTEM_INT_SFTP :: nat where "SUBSYSTEM_INT_SFTP \<equiv> 2"
abbreviation SUBSYSTEM_INT_SFTP_ERROR :: nat where "SUBSYSTEM_INT_SFTP_ERROR \<equiv> 3"

abbreviation CHAN_SES_PACKET_DEFAULT :: u32 where "CHAN_SES_PACKET_DEFAULT \<equiv> 32768"
abbreviation CHAN_SES_WINDOW_DEFAULT :: u32 where "CHAN_SES_WINDOW_DEFAULT \<equiv> 2097152"

record session =
  ss_used :: bool
  ss_self :: nat
  ss_next_unused :: int
  ss_pid :: int
  ss_forced :: bool
  ss_term :: "string option"
  ss_ptyfd :: int
  ss_ttyfd :: int
  ss_ptymaster :: int
  ss_col :: u32
  ss_row :: u32
  ss_xpixel :: u32
  ss_ypixel :: u32
  ss_screen :: u32
  ss_display :: "string option"
  ss_auth_display :: "string option"
  ss_auth_proto :: "string option"
  ss_auth_data :: "string option"
  ss_single_connection :: u8
  ss_chanid :: int
  ss_x11_chanids :: "int list option"
  ss_is_subsystem :: nat
  ss_subsys :: "string option"
  ss_env :: "(string \<times> string) list"

record server =
  v_ssh :: ssh
  v_sessions :: "session list"
  v_first_unused :: int
  v_no_more_sessions :: bool
  v_agent_called :: bool
  v_auth_sock_name :: "string option"
  v_tun_ifnames :: "string option"

section \<open>Slots\<close>

text \<open>What \<open>memset\<close> and the assignments of \<open>session_unused\<close> leave.\<close>

definition unused_session :: "nat \<Rightarrow> int \<Rightarrow> session" where
  "unused_session i nxt =
     \<lparr>ss_used = False, ss_self = i, ss_next_unused = nxt, ss_pid = 0, ss_forced = False, ss_term = None,
      ss_ptyfd = -1, ss_ttyfd = -1, ss_ptymaster = -1, ss_col = 0, ss_row = 0, ss_xpixel = 0,
      ss_ypixel = 0, ss_screen = 0, ss_display = None, ss_auth_display = None, ss_auth_proto = None, ss_auth_data = None,
      ss_single_connection = 0, ss_chanid = -1, ss_x11_chanids = None,
      ss_is_subsystem = SUBSYSTEM_NONE, ss_subsys = None, ss_env = []\<rparr>"

definition session_unused :: "int \<Rightarrow> nat \<Rightarrow> server \<Rightarrow> server run" where
  "session_unused max_sessions i v =
     (if int i \<ge> max_sessions \<or> i \<ge> length (v_sessions v) then Fatal
      else Done (v\<lparr>v_sessions := (v_sessions v)[i := unused_session i (v_first_unused v)],
                   v_first_unused := int i\<rparr>))"

text \<open>
  The index of a free session, now used, or \<open>None\<close> when there are \<open>MaxSessions\<close> of them. \<open>grow\<close> says
  whether \<open>xrecallocarray\<close> finds the memory; it ends the process when it does not.
\<close>

definition session_new :: "(nat \<Rightarrow> bool) \<Rightarrow> int \<Rightarrow> server \<Rightarrow> (nat option \<times> server) run" where
  "session_new grow max_sessions v =
     andThen
       (if v_first_unused v = -1 then
          if int (length (v_sessions v)) \<ge> max_sessions then Done None
          else if \<not> grow (length (v_sessions v) + 1) then Fatal
          else andThen (session_unused max_sessions (length (v_sessions v))
                 (v\<lparr>v_sessions := v_sessions v @ [unused_session 0 0]\<rparr>))
                 (\<lambda>v1. Done (Some v1))
        else Done (Some v))
       (\<lambda>r. case r of
          None \<Rightarrow> Done (None, v)
        | Some v1 \<Rightarrow>
          if v_first_unused v1 \<ge> int (length (v_sessions v1)) \<or> v_first_unused v1 < 0 then Fatal
          else let i = nat (v_first_unused v1); s = v_sessions v1 ! i in
            if ss_used s then Fatal
            else Done (Some i, v1\<lparr>v_first_unused := ss_next_unused s,
                         v_sessions := (v_sessions v1)[i := s\<lparr>ss_used := True, ss_next_unused := -1\<rparr>]\<rparr>))"

text \<open>\<open>user_ok\<close>: the authentication context is valid and has an entry of the user database.\<close>

definition session_open :: "(nat \<Rightarrow> bool) \<Rightarrow> int \<Rightarrow> bool \<Rightarrow> int \<Rightarrow> server \<Rightarrow> (bool \<times> server) run" where
  "session_open grow max_sessions user_ok chanid v =
     andThen (session_new grow max_sessions v)
       (\<lambda>(r, v1). case r of
          None \<Rightarrow> Done (False, v1)
        | Some i \<Rightarrow>
          if \<not> user_ok then Fatal
          else Done (True, v1\<lparr>v_sessions := (v_sessions v1)[i := (v_sessions v1 ! i)\<lparr>ss_chanid := chanid\<rparr>]\<rparr>))"

section \<open>Looking sessions up\<close>

definition find_session :: "(session \<Rightarrow> bool) \<Rightarrow> server \<Rightarrow> nat option" where
  "find_session P v =
     List.find (\<lambda>i. ss_used (v_sessions v ! i) \<and> P (v_sessions v ! i)) [0..<length (v_sessions v)]"

definition session_by_channel :: "server \<Rightarrow> int \<Rightarrow> nat option" where
  "session_by_channel v chid = find_session (\<lambda>s. ss_chanid s = chid) v"

text \<open>The X11 channels of a session end at the first \<open>-1\<close>.\<close>

definition session_by_x11_channel :: "server \<Rightarrow> int \<Rightarrow> nat option" where
  "session_by_x11_channel v chid =
     find_session (\<lambda>s. case ss_x11_chanids s of None \<Rightarrow> False
        | Some ids \<Rightarrow> chid \<in> set (takeWhile (\<lambda>x. x \<noteq> -1) ids)) v"

definition session_by_pid :: "server \<Rightarrow> int \<Rightarrow> nat option" where
  "session_by_pid v pid = find_session (\<lambda>s. ss_pid s = pid) v"

definition upd_session :: "nat \<Rightarrow> (session \<Rightarrow> session) \<Rightarrow> server \<Rightarrow> server" where
  "upd_session i f v = v\<lparr>v_sessions := (v_sessions v)[i := f (v_sessions v ! i)]\<rparr>"

section \<open>Ends of sessions\<close>

text \<open>\<open>session_pty_cleanup2\<close>, here or through the monitor: the pty is gone.\<close>

definition session_pty_cleanup :: "session \<Rightarrow> session" where
  "session_pty_cleanup s = (if ss_ttyfd s = -1 then s else s\<lparr>ss_ttyfd := -1\<rparr>)"

definition session_close :: "int \<Rightarrow> nat \<Rightarrow> server \<Rightarrow> server run" where
  "session_close max_sessions i v =
     (let v1 = (if ss_ttyfd (v_sessions v ! i) \<noteq> -1 then upd_session i session_pty_cleanup v else v)
      in session_unused max_sessions (ss_self (v_sessions v1 ! i)) v1)"

definition session_close_x11 :: "int \<Rightarrow> ssh \<Rightarrow> ssh run" where
  "session_close_x11 chid ssh =
     (case channel_by_id ssh chid of
        None \<Rightarrow> Done ssh
      | Some c \<Rightarrow>
        let ssh1 = channel_cancel_cleanup ssh chid in
        if c_ostate c \<noteq> CHAN_OUTPUT_CLOSED then on_channel (\<lambda>st. Done (chan_mark_dead st)) (nat chid) ssh1
        else Done ssh1)"

fun close_x11_ids :: "int list \<Rightarrow> ssh \<Rightarrow> ssh run" where
  "close_x11_ids [] ssh = Done ssh"
| "close_x11_ids (x # xs) ssh = andThen (session_close_x11 x ssh) (close_x11_ids xs)"

text \<open>The callback of one X11 channel of a session: its siblings go too.\<close>

definition session_close_single_x11 :: "int \<Rightarrow> server \<Rightarrow> server run" where
  "session_close_single_x11 chid v =
     (let v1 = v\<lparr>v_ssh := channel_cancel_cleanup (v_ssh v) chid\<rparr> in
      case session_by_x11_channel v1 chid of
        None \<Rightarrow> Fatal
      | Some i \<Rightarrow>
        andThen (close_x11_ids (filter (\<lambda>x. x \<noteq> chid)
                   (takeWhile (\<lambda>x. x \<noteq> -1) (the (ss_x11_chanids (v_sessions v1 ! i))))) (v_ssh v1))
          (\<lambda>ssh1. Done (upd_session i (\<lambda>s. s\<lparr>ss_x11_chanids := None, ss_display := None,
                           ss_auth_proto := None, ss_auth_data := None, ss_auth_display := None\<rparr>) (v1\<lparr>v_ssh := ssh1\<rparr>))))"

definition session_close_by_channel :: "int \<Rightarrow> int \<Rightarrow> bool \<Rightarrow> server \<Rightarrow> server run" where
  "session_close_by_channel max_sessions chid force v =
     (case session_by_channel v chid of
        None \<Rightarrow> Done v
      | Some i \<Rightarrow>
        let s = v_sessions v ! i;
            v1 = (if ss_pid s \<noteq> 0 \<and> ss_ttyfd s \<noteq> -1 then upd_session i session_pty_cleanup v else v)
        in if ss_pid s \<noteq> 0 \<and> \<not> force then Done v1
           else
             let v2 = v1\<lparr>v_ssh := channel_cancel_cleanup (v_ssh v1) (ss_chanid s)\<rparr>;
                 ids = (case ss_x11_chanids s of None \<Rightarrow> [] | Some ids \<Rightarrow> takeWhile (\<lambda>x. x \<noteq> -1) ids)
             in andThen (close_x11_ids ids (v_ssh v2))
                  (\<lambda>ssh1. session_close max_sessions i
                     (upd_session i (\<lambda>s. s\<lparr>ss_chanid := -1\<rparr>) (v2\<lparr>v_ssh := ssh1\<rparr>))))"

text \<open>How a child ended: \<open>WIFEXITED\<close>, \<open>WIFSIGNALED\<close> with the core-dump flag, or neither.\<close>

datatype signal = SIGABRT | SIGALRM | SIGFPE | SIGHUP | SIGILL | SIGINT | SIGKILL | SIGPIPE | SIGQUIT
  | SIGSEGV | SIGTERM | SIGUSR1 | SIGUSR2 | SIG_OTHER int

datatype wait_status = Exited u8 | Signaled signal bool | Weird

fun sig2name :: "signal \<Rightarrow> string" where
  "sig2name SIGABRT = ''ABRT''"
| "sig2name SIGALRM = ''ALRM''"
| "sig2name SIGFPE = ''FPE''"
| "sig2name SIGHUP = ''HUP''"
| "sig2name SIGILL = ''ILL''"
| "sig2name SIGINT = ''INT''"
| "sig2name SIGKILL = ''KILL''"
| "sig2name SIGPIPE = ''PIPE''"
| "sig2name SIGQUIT = ''QUIT''"
| "sig2name SIGSEGV = ''SEGV''"
| "sig2name SIGTERM = ''TERM''"
| "sig2name SIGUSR1 = ''USR1''"
| "sig2name SIGUSR2 = ''USR2''"
| "sig2name (SIG_OTHER n) = ''SIG@openssh.com''"

text \<open>The number that stands for the function \<open>session_close_by_channel\<close> among the callbacks.\<close>

abbreviation SESSION_CLOSE_BY_CHANNEL :: callback where "SESSION_CLOSE_BY_CHANNEL \<equiv> 1"

definition exit_request :: "wait_status \<Rightarrow> (string \<times> field list) option" where
  "exit_request status =
     (case status of
        Exited code \<Rightarrow> Some (''exit-status'', [PUT_U32 (ucast code)])
      | Signaled sig core \<Rightarrow> Some (''exit-signal'', [PUT_CSTRING (sig2name sig),
          PUT_U8 (if core then 1 else 0), PUT_CSTRING '''', PUT_CSTRING ''''])
      | Weird \<Rightarrow> None)"

definition session_exit_message :: "env \<Rightarrow> session \<Rightarrow> wait_status \<Rightarrow> ssh \<Rightarrow> ssh run" where
  "session_exit_message e s status ssh =
     (case channel_lookup ssh (ss_chanid s) of
        None \<Rightarrow> Fatal
      | Some c \<Rightarrow>
        (case exit_request status of
           None \<Rightarrow> Disconnect
         | Some (service, args) \<Rightarrow>
           andThen (channel_request_start ssh (ss_chanid s) service False)
             (\<lambda>p. case p of
                None \<Rightarrow> Fatal
              | Some (Packet ty fs) \<Rightarrow>
                if \<not> e_pkt_ok e (Packet ty (fs @ args)) then Disconnect
                else
                  let ssh1 = channel_register_cleanup (emit (Send (Packet ty (fs @ args))) ssh)
                        (int (c_self c)) (Some SESSION_CLOSE_BY_CHANNEL) True
                  in if c_ostate c \<noteq> CHAN_OUTPUT_CLOSED
                     then on_channel (chan_write_failed e (s_compat ssh1)) (c_self c) ssh1
                     else Done ssh1)))"

definition session_close_by_pid :: "env \<Rightarrow> int \<Rightarrow> wait_status \<Rightarrow> server \<Rightarrow> server run" where
  "session_close_by_pid e pid status v =
     (case session_by_pid v pid of
        None \<Rightarrow> Done v
      | Some i \<Rightarrow>
        let s = v_sessions v ! i in
        andThen (if ss_chanid s \<noteq> -1 then session_exit_message e s status (v_ssh v) else Done (v_ssh v))
          (\<lambda>ssh1. Done (upd_session i (\<lambda>s. (if ss_ttyfd s \<noteq> -1 then session_pty_cleanup s else s)
                           \<lparr>ss_pid := 0\<rparr>) (v\<lparr>v_ssh := ssh1\<rparr>))))"

text \<open>\<open>session_destroy_all\<close> without a close function, as the server loop ends.\<close>

fun destroy_from :: "int \<Rightarrow> nat list \<Rightarrow> server \<Rightarrow> server run" where
  "destroy_from max_sessions [] v = Done v"
| "destroy_from max_sessions (i # is) v =
     andThen (if ss_used (v_sessions v ! i) then session_close max_sessions i v else Done v)
       (destroy_from max_sessions is)"

definition session_destroy_all :: "int \<Rightarrow> server \<Rightarrow> server run" where
  "session_destroy_all max_sessions v = destroy_from max_sessions [0..<length (v_sessions v)] v"

definition session_set_fds ::
    "env \<Rightarrow> session \<Rightarrow> int \<Rightarrow> int \<Rightarrow> int \<Rightarrow> bool \<Rightarrow> bool \<Rightarrow> ssh \<Rightarrow> ssh run" where
  "session_set_fds e s fdin fdout fderr ignore_fderr is_tty ssh =
     (if ss_chanid s = -1 then Fatal
      else channel_set_fds e ssh (ss_chanid s) fdout fdin fderr
        (if ignore_fderr then CHAN_EXTENDED_IGNORE else CHAN_EXTENDED_READ) CHANNEL_NONBLOCK_SET is_tty
        CHAN_SES_WINDOW_DEFAULT)"

section \<open>The list of free slots\<close>

text \<open>\<open>linked ss h us\<close>: from \<open>h\<close>, the links of the free slots run through \<open>us\<close> and end in \<open>-1\<close>.\<close>

fun linked :: "session list \<Rightarrow> int \<Rightarrow> nat list \<Rightarrow> bool" where
  "linked ss h [] \<longleftrightarrow> h = -1"
| "linked ss h (u # us) \<longleftrightarrow> h = int u \<and> u < length ss \<and> linked ss (ss_next_unused (ss ! u)) us"

definition sessions_ok :: "int \<Rightarrow> server \<Rightarrow> bool" where
  "sessions_ok max_sessions v \<longleftrightarrow>
     (\<forall>i < length (v_sessions v). ss_self (v_sessions v ! i) = i) \<and>
     (v_sessions v = [] \<or> int (length (v_sessions v)) \<le> max_sessions) \<and>
     (\<exists>us. distinct us \<and> linked (v_sessions v) (v_first_unused v) us \<and>
        set us = {i. i < length (v_sessions v) \<and> \<not> ss_used (v_sessions v ! i)})"

definition used_sessions :: "server \<Rightarrow> nat set" where
  "used_sessions v = {i. i < length (v_sessions v) \<and> ss_used (v_sessions v ! i)}"

lemma nth_updated: "j < length xs \<Longrightarrow> xs[i := x] ! j = (if j = i then x else xs ! j)"
  by simp

lemma unused_session_fields [simp]:
  "\<not> ss_used (unused_session i n)" "ss_self (unused_session i n) = i" "ss_next_unused (unused_session i n) = n"
  by (simp_all add: unused_session_def)

lemma linked_update: "i \<notin> set us \<Longrightarrow> linked (ss[i := x]) h us = linked ss h us"
  by (induction us arbitrary: h) auto

lemma linked_append: "linked ss h us \<Longrightarrow> linked (ss @ [x]) h us"
  by (induction us arbitrary: h) (auto simp: nth_append)

lemma linked_head:
  "linked ss h us \<Longrightarrow> (us = [] \<longleftrightarrow> h = -1) \<and> (us \<noteq> [] \<longrightarrow> h = int (hd us) \<and> hd us < length ss)"
  by (cases us) auto

lemma sessions_okE:
  assumes "sessions_ok m v"
  obtains us where "distinct us" "linked (v_sessions v) (v_first_unused v) us"
    "set us = {i. i < length (v_sessions v) \<and> \<not> ss_used (v_sessions v ! i)}"
    "\<forall>i<length (v_sessions v). ss_self (v_sessions v ! i) = i"
    "v_sessions v = [] \<or> int (length (v_sessions v)) \<le> m"
  using assms unfolding sessions_ok_def by blast

lemma sessions_okI:
  assumes "distinct us" "linked (v_sessions v) (v_first_unused v) us"
    "set us = {i. i < length (v_sessions v) \<and> \<not> ss_used (v_sessions v ! i)}"
    "\<And>i. i < length (v_sessions v) \<Longrightarrow> ss_self (v_sessions v ! i) = i"
    "v_sessions v = [] \<or> int (length (v_sessions v)) \<le> m"
  shows "sessions_ok m v"
  using assms unfolding sessions_ok_def by blast

text \<open>A change of a session that keeps its place in the list.\<close>

definition same_link :: "session \<Rightarrow> session \<Rightarrow> bool" where
  "same_link s s' \<longleftrightarrow> ss_used s' = ss_used s \<and> ss_self s' = ss_self s \<and> ss_next_unused s' = ss_next_unused s"

lemma linked_same:
  assumes "same_link (ss ! i) x"
  shows "linked ss h us \<Longrightarrow> linked (ss[i := x]) h us"
proof (induction us arbitrary: h)
  case (Cons u us)
  then have "u < length ss" by simp
  then have "ss_next_unused (ss[i := x] ! u) = ss_next_unused (ss ! u)"
    using assms by (cases "u = i") (simp_all add: same_link_def)
  with Cons show ?case by simp
qed simp

lemma sessions_ok_upd:
  assumes "sessions_ok m v" "same_link (v_sessions v ! i) (f (v_sessions v ! i))"
  shows "sessions_ok m (upd_session i f v)"
    and "used_sessions (upd_session i f v) = used_sessions v"
proof -
  from assms(1) obtain us where us: "distinct us" "linked (v_sessions v) (v_first_unused v) us"
    "set us = {i. i < length (v_sessions v) \<and> \<not> ss_used (v_sessions v ! i)}"
    "\<forall>i<length (v_sessions v). ss_self (v_sessions v ! i) = i"
    "v_sessions v = [] \<or> int (length (v_sessions v)) \<le> m" by (rule sessions_okE)
  have s: "ss_used (v_sessions (upd_session i f v) ! j) = ss_used (v_sessions v ! j)"
    "ss_self (v_sessions (upd_session i f v) ! j) = ss_self (v_sessions v ! j)" if "j < length (v_sessions v)" for j
    using assms(2) that by (auto simp: upd_session_def nth_updated same_link_def)
  have l: "length (v_sessions (upd_session i f v)) = length (v_sessions v)" by (simp add: upd_session_def)
  show "used_sessions (upd_session i f v) = used_sessions v" using s l by (auto simp: used_sessions_def)
  show "sessions_ok m (upd_session i f v)"
  proof (rule sessions_okI[OF us(1)])
    show "linked (v_sessions (upd_session i f v)) (v_first_unused (upd_session i f v)) us"
      using linked_same[OF assms(2) us(2)] by (simp add: upd_session_def)
    show "set us = {j. j < length (v_sessions (upd_session i f v)) \<and> \<not> ss_used (v_sessions (upd_session i f v) ! j)}"
      unfolding us(3) l using s by auto
    show "v_sessions (upd_session i f v) = [] \<or> int (length (v_sessions (upd_session i f v))) \<le> m"
      using us(5) by (auto simp: upd_session_def)
  qed (use us(4) s l in simp)
qed

lemma sessions_ok_ssh [simp]: "sessions_ok m (v\<lparr>v_ssh := s\<rparr>) = sessions_ok m v" "used_sessions (v\<lparr>v_ssh := s\<rparr>) = used_sessions v"
  by (simp_all add: sessions_ok_def used_sessions_def)

text \<open>A used slot goes to the head of the list.\<close>

lemma session_unused_ok:
  assumes ok: "sessions_ok m v" and i: "i \<in> used_sessions v"
  obtains v' where "session_unused m i v = Done v'" "sessions_ok m v'" "used_sessions v' = used_sessions v - {i}"
    "v_ssh v' = v_ssh v" "\<And>j. j \<noteq> i \<Longrightarrow> v_sessions v' ! j = v_sessions v ! j"
    "length (v_sessions v') = length (v_sessions v)"
proof -
  from ok obtain us where us: "distinct us" "linked (v_sessions v) (v_first_unused v) us"
    "set us = {i. i < length (v_sessions v) \<and> \<not> ss_used (v_sessions v ! i)}"
    "\<forall>i<length (v_sessions v). ss_self (v_sessions v ! i) = i"
    "v_sessions v = [] \<or> int (length (v_sessions v)) \<le> m" by (rule sessions_okE)
  define v' where "v' = v\<lparr>v_sessions := (v_sessions v)[i := unused_session i (v_first_unused v)],
                          v_first_unused := int i\<rparr>"
  have il: "i < length (v_sessions v)" "ss_used (v_sessions v ! i)" using i by (auto simp: used_sessions_def)
  then have iu: "i \<notin> set us" using us(3) by auto
  have res: "session_unused m i v = Done v'" using il us(5) by (auto simp: session_unused_def v'_def)
  have "sessions_ok m v'"
  proof (rule sessions_okI[of "i # us"])
    show "linked (v_sessions v') (v_first_unused v') (i # us)"
      using us(2) iu il by (simp add: v'_def linked_update)
    show "set (i # us) = {j. j < length (v_sessions v') \<and> \<not> ss_used (v_sessions v' ! j)}"
    proof (rule set_eqI)
      fix j show "j \<in> set (i # us) \<longleftrightarrow>
          j \<in> {j. j < length (v_sessions v') \<and> \<not> ss_used (v_sessions v' ! j)}"
        using il by (cases "j = i") (simp_all add: v'_def us(3))
    qed
    show "ss_self (v_sessions v' ! j) = j" if "j < length (v_sessions v')" for j
      using that us(4) by (auto simp: v'_def nth_updated)
    show "v_sessions v' = [] \<or> int (length (v_sessions v')) \<le> m" using us(5) by (auto simp: v'_def)
  qed (use us(1) iu in simp)
  moreover have "used_sessions v' = used_sessions v - {i}"
    by (auto simp: used_sessions_def v'_def nth_updated split: if_splits)
  ultimately show thesis using res that by (simp add: v'_def)
qed

lemma session_new_ok:
  assumes ok: "sessions_ok m v" and g: "\<And>n. grow n"
  obtains (Full) "session_new grow m v = Done (None, v)" "card (used_sessions v) = length (v_sessions v)"
      "int (length (v_sessions v)) \<ge> m"
  | (Got) i v' where "session_new grow m v = Done (Some i, v')" "sessions_ok m v'" "i \<notin> used_sessions v"
      "used_sessions v' = insert i (used_sessions v)" "v_ssh v' = v_ssh v" "int i < m"
proof -
  from ok obtain us where us: "distinct us" "linked (v_sessions v) (v_first_unused v) us"
    "set us = {i. i < length (v_sessions v) \<and> \<not> ss_used (v_sessions v ! i)}"
    "\<forall>i<length (v_sessions v). ss_self (v_sessions v ! i) = i"
    "v_sessions v = [] \<or> int (length (v_sessions v)) \<le> m" by (rule sessions_okE)
  have take: thesis
    if us1: "distinct (i # us1)" "linked (v_sessions v1) (v_first_unused v1) (i # us1)"
      "set (i # us1) = {i. i < length (v_sessions v1) \<and> \<not> ss_used (v_sessions v1 ! i)}"
      "\<And>i. i < length (v_sessions v1) \<Longrightarrow> ss_self (v_sessions v1 ! i) = i"
      "int (length (v_sessions v1)) \<le> m" "used_sessions v1 = used_sessions v" "v_ssh v1 = v_ssh v"
      and pre: "(if v_first_unused v = -1 then
          if int (length (v_sessions v)) \<ge> m then Done None
          else if \<not> grow (length (v_sessions v) + 1) then Fatal
          else andThen (session_unused m (length (v_sessions v))
                 (v\<lparr>v_sessions := v_sessions v @ [unused_session 0 0]\<rparr>))
                 (\<lambda>v1. Done (Some v1))
        else Done (Some v)) = Done (Some v1)" for v1 i us1
  proof -
    define s where "s = v_sessions v1 ! i"
    define v2 where "v2 = v1\<lparr>v_first_unused := ss_next_unused s,
                         v_sessions := (v_sessions v1)[i := s\<lparr>ss_used := True, ss_next_unused := -1\<rparr>]\<rparr>"
    have h: "v_first_unused v1 = int i" "i < length (v_sessions v1)" "linked (v_sessions v1) (ss_next_unused s) us1"
      using us1(2) by (simp_all add: s_def)
    have un: "\<not> ss_used s" "i \<notin> set us1" using us1(1,3) by (auto simp: s_def)
    have res: "session_new grow m v = Done (Some i, v2)"
      unfolding session_new_def pre using h un by (simp add: s_def v2_def Let_def)
    have "sessions_ok m v2"
    proof (rule sessions_okI[of us1])
      show "linked (v_sessions v2) (v_first_unused v2) us1"
        using h(3) un(2) by (simp add: v2_def linked_update)
      show "set us1 = {j. j < length (v_sessions v2) \<and> \<not> ss_used (v_sessions v2 ! j)}"
      proof (rule set_eqI)
        fix j
        have "j \<in> set (i # us1) \<longleftrightarrow> j < length (v_sessions v1) \<and> \<not> ss_used (v_sessions v1 ! j)"
          unfolding us1(3) by simp
        then show "j \<in> set us1 \<longleftrightarrow>
            j \<in> {j. j < length (v_sessions v2) \<and> \<not> ss_used (v_sessions v2 ! j)}"
          using un(2) h(2) by (cases "j = i") (simp_all add: v2_def)
      qed
      show "ss_self (v_sessions v2 ! j) = j" if "j < length (v_sessions v2)" for j
        using that us1(4)[of j] by (auto simp: v2_def nth_updated s_def)
    qed (use us1(1,5) in \<open>simp_all add: v2_def\<close>)
    moreover have "used_sessions v2 = insert i (used_sessions v)"
      unfolding us1(6)[symmetric] using h(2) by (auto simp: used_sessions_def v2_def nth_updated)
    moreover have "i \<notin> used_sessions v" unfolding us1(6)[symmetric] using un(1) by (simp add: used_sessions_def s_def)
    ultimately show thesis using res Got h(2) us1(5,7) by (simp add: v2_def)
  qed
  show thesis
  proof (cases us)
    case Nil
    then have none: "v_first_unused v = -1" using us(2) by simp
    have all: "used_sessions v = {..<length (v_sessions v)}" using us(3) Nil by (auto simp: used_sessions_def)
    show thesis
    proof (cases "int (length (v_sessions v)) \<ge> m")
      case True
      then show thesis using Full none all by (simp add: session_new_def)
    next
      case False
      define n where "n = length (v_sessions v)"
      have used: "ss_used (v_sessions v ! j)" if "j < n" for j
        using that all by (auto simp: used_sessions_def n_def)
      define v1 where "v1 = v\<lparr>v_sessions := v_sessions v @ [unused_session n (-1)], v_first_unused := int n\<rparr>"
      have "session_unused m n (v\<lparr>v_sessions := v_sessions v @ [unused_session 0 0]\<rparr>) = Done v1"
        using False none by (simp add: session_unused_def v1_def n_def)
      then have pre: "(if v_first_unused v = -1 then
          if int (length (v_sessions v)) \<ge> m then Done None
          else if \<not> grow (length (v_sessions v) + 1) then Fatal
          else andThen (session_unused m (length (v_sessions v))
                 (v\<lparr>v_sessions := v_sessions v @ [unused_session 0 0]\<rparr>))
                 (\<lambda>v1. Done (Some v1))
        else Done (Some v)) = Done (Some v1)"
        using none False g by (simp add: n_def)
      show thesis
      proof (rule take[of n "[]" v1, OF _ _ _ _ _ _ _ pre])
        show "set [n] = {i. i < length (v_sessions v1) \<and> \<not> ss_used (v_sessions v1 ! i)}"
        proof (rule set_eqI)
          fix j show "j \<in> set [n] \<longleftrightarrow> j \<in> {i. i < length (v_sessions v1) \<and> \<not> ss_used (v_sessions v1 ! i)}"
            using used[of j] by (cases "j < n") (auto simp: v1_def n_def nth_append)
        qed
        show "ss_self (v_sessions v1 ! i) = i" if "i < length (v_sessions v1)" for i
          using that us(4) by (cases "i < n") (simp_all add: v1_def n_def nth_append)
        show "used_sessions v1 = used_sessions v"
        proof (rule set_eqI)
          fix j show "j \<in> used_sessions v1 \<longleftrightarrow> j \<in> used_sessions v"
            by (cases "j < n") (simp_all add: used_sessions_def v1_def n_def nth_append)
        qed
      qed (use False in \<open>simp_all add: v1_def n_def\<close>)
    qed
  next
    case (Cons i us1)
    then have "v_sessions v \<noteq> []" "v_first_unused v \<noteq> -1" using us(2) by auto
    then have pre: "(if v_first_unused v = -1 then
          if int (length (v_sessions v)) \<ge> m then Done None
          else if \<not> grow (length (v_sessions v) + 1) then Fatal
          else andThen (session_unused m (length (v_sessions v))
                 (v\<lparr>v_sessions := v_sessions v @ [unused_session 0 0]\<rparr>))
                 (\<lambda>v1. Done (Some v1))
        else Done (Some v)) = Done (Some v)" by simp
    show thesis
      by (rule take[OF _ _ _ _ _ _ _ pre, of i us1]) (use us Cons \<open>v_sessions v \<noteq> []\<close> in simp_all)
  qed
qed

section \<open>Sessions come and go\<close>

lemma find_session_used: "find_session P v = Some i \<Longrightarrow> i \<in> used_sessions v \<and> P (v_sessions v ! i)"
  by (auto simp: find_session_def used_sessions_def find_Some_iff)

lemma find_session_None: "find_session P v = None \<Longrightarrow> i \<in> used_sessions v \<Longrightarrow> \<not> P (v_sessions v ! i)"
  by (auto simp: find_session_def used_sessions_def find_None_iff)

lemma same_link_updates [simp]:
  "same_link s (s\<lparr>ss_chanid := x\<rparr>)" "same_link s (session_pty_cleanup s)"
  "same_link s ((session_pty_cleanup s)\<lparr>ss_pid := p\<rparr>)" "same_link s (s\<lparr>ss_pid := p\<rparr>)"
  "same_link s (s\<lparr>ss_x11_chanids := a, ss_display := d, ss_auth_proto := b, ss_auth_data := c, ss_auth_display := f\<rparr>)"
  by (simp_all add: same_link_def session_pty_cleanup_def)

lemma session_open_result:
  assumes ok: "sessions_ok m v" and g: "\<And>n. grow n"
  obtains (Full) "session_open grow m u chid v = Done (False, v)" "int (card (used_sessions v)) \<ge> m"
  | (No_user) "\<not> u" "session_open grow m u chid v = Fatal"
  | (Opened) i v' where "u" "session_open grow m u chid v = Done (True, v')" "sessions_ok m v'"
      "i \<notin> used_sessions v" "used_sessions v' = insert i (used_sessions v)" "v_ssh v' = v_ssh v"
      "ss_chanid (v_sessions v' ! i) = chid"
proof (cases rule: session_new_ok[where grow = grow, OF ok g])
  case 1
  then show thesis using Full by (simp add: session_open_def)
next
  case (2 i v1)
  show thesis
  proof (cases u)
    case False
    then show thesis using No_user 2(1) by (simp add: session_open_def)
  next
    case True
    have i: "i < length (v_sessions v1)" using 2(4) by (auto simp: used_sessions_def)
    note up = sessions_ok_upd[OF 2(2), of i "\<lambda>s. s\<lparr>ss_chanid := chid\<rparr>"]
    have "session_open grow m u chid v = Done (True, upd_session i (\<lambda>s. s\<lparr>ss_chanid := chid\<rparr>) v1)"
      using 2(1) True by (simp add: session_open_def upd_session_def)
    with Opened True 2 up i show thesis by (simp add: upd_session_def)
  qed
qed

lemma upd_session_simps [simp]:
  "v_ssh (upd_session i f v) = v_ssh v" "length (v_sessions (upd_session i f v)) = length (v_sessions v)"
  "i < length (v_sessions v) \<Longrightarrow> v_sessions (upd_session i f v) ! i = f (v_sessions v ! i)"
  by (simp_all add: upd_session_def)

lemma session_close_result:
  assumes ok: "sessions_ok m v" and i: "i \<in> used_sessions v"
  obtains v' where "session_close m i v = Done v'" "sessions_ok m v'" "used_sessions v' = used_sessions v - {i}"
    "v_ssh v' = v_ssh v"
proof -
  define v1 where "v1 = (if ss_ttyfd (v_sessions v ! i) \<noteq> -1 then upd_session i session_pty_cleanup v else v)"
  have v1: "sessions_ok m v1" "used_sessions v1 = used_sessions v" "v_ssh v1 = v_ssh v"
    using ok sessions_ok_upd[OF ok, of i session_pty_cleanup] by (simp_all add: v1_def)
  have "i < length (v_sessions v1)" using i v1(2) by (auto simp: used_sessions_def)
  then have "ss_self (v_sessions v1 ! i) = i" using v1(1) by (auto simp: sessions_ok_def)
  then have "session_close m i v = session_unused m i v1" by (simp add: session_close_def v1_def Let_def)
  with session_unused_ok[OF v1(1)] i v1(2,3) that show thesis by metis
qed

lemma close_by_channel_result:
  assumes ok: "sessions_ok m v" and res: "session_close_by_channel m chid force v = Done v'"
  shows "sessions_ok m v'"
    and "session_by_channel v chid = Some i \<Longrightarrow>
      used_sessions v' = (if ss_pid (v_sessions v ! i) \<noteq> 0 \<and> \<not> force then used_sessions v else used_sessions v - {i})"
    and "session_by_channel v chid = None \<Longrightarrow> v' = v"
proof -
  have "sessions_ok m v' \<and> (case session_by_channel v chid of None \<Rightarrow> v' = v
    | Some i \<Rightarrow> used_sessions v' =
        (if ss_pid (v_sessions v ! i) \<noteq> 0 \<and> \<not> force then used_sessions v else used_sessions v - {i}))"
  proof (cases "session_by_channel v chid")
    case None
    with res ok show ?thesis by (simp add: session_close_by_channel_def)
  next
    case (Some i)
    define s where "s = v_sessions v ! i"
    define v1 where "v1 = (if ss_pid s \<noteq> 0 \<and> ss_ttyfd s \<noteq> -1 then upd_session i session_pty_cleanup v else v)"
    have i: "i \<in> used_sessions v" using find_session_used Some unfolding session_by_channel_def by blast
    have v1: "sessions_ok m v1" "used_sessions v1 = used_sessions v"
      using ok sessions_ok_upd[OF ok, of i session_pty_cleanup] by (simp_all add: v1_def)
    show ?thesis
    proof (cases "ss_pid s \<noteq> 0 \<and> \<not> force")
      case True
      with res Some v1 show ?thesis by (simp add: session_close_by_channel_def s_def v1_def Let_def)
    next
      case False
      note r = res[unfolded session_close_by_channel_def Some option.case Let_def, folded s_def, folded v1_def]
      have "(if ss_pid s \<noteq> 0 \<and> \<not> force then a else b) = b" for a b :: "server run" using False by (rule if_not_P)
      from r[unfolded this] obtain ssh1 where
        c: "session_close m i (upd_session i (\<lambda>s. s\<lparr>ss_chanid := -1\<rparr>) (v1\<lparr>v_ssh := ssh1\<rparr>)) = Done v'"
        by (auto simp: andThen_Done)
      define v2 where "v2 = upd_session i (\<lambda>s. s\<lparr>ss_chanid := -1\<rparr>) (v1\<lparr>v_ssh := ssh1\<rparr>)"
      have v2: "sessions_ok m v2" "used_sessions v2 = used_sessions v"
        using sessions_ok_upd[of m "v1\<lparr>v_ssh := ssh1\<rparr>" i "\<lambda>s. s\<lparr>ss_chanid := -1\<rparr>"] v1 by (simp_all add: v2_def)
      then have "i \<in> used_sessions v2" using i by simp
      from session_close_result[OF v2(1) this] obtain v3 where
        "session_close m i v2 = Done v3" "sessions_ok m v3" "used_sessions v3 = used_sessions v2 - {i}" by blast
      with c v2(2) have "sessions_ok m v'" "used_sessions v' = used_sessions v - {i}" by (simp_all add: v2_def)
      with Some False show ?thesis unfolding s_def by auto
    qed
  qed
  then show "sessions_ok m v'"
    "session_by_channel v chid = Some i \<Longrightarrow>
      used_sessions v' = (if ss_pid (v_sessions v ! i) \<noteq> 0 \<and> \<not> force then used_sessions v else used_sessions v - {i})"
    "session_by_channel v chid = None \<Longrightarrow> v' = v" by (auto split: option.splits)
qed

lemma close_by_pid_result:
  assumes ok: "sessions_ok m v" and res: "session_close_by_pid e pid status v = Done v'"
  shows "sessions_ok m v' \<and> used_sessions v' = used_sessions v"
proof (cases "session_by_pid v pid")
  case (Some i)
  let ?f = "\<lambda>s. (if ss_ttyfd s \<noteq> -1 then session_pty_cleanup s else s)\<lparr>ss_pid := 0\<rparr>"
  from res Some obtain ssh1 where "v' = upd_session i ?f (v\<lparr>v_ssh := ssh1\<rparr>)"
    by (auto simp: session_close_by_pid_def andThen_Done Let_def)
  then show ?thesis using sessions_ok_upd[of m "v\<lparr>v_ssh := ssh1\<rparr>" i ?f] ok by simp
qed (use res ok in \<open>simp add: session_close_by_pid_def\<close>)

lemma close_single_x11_result:
  assumes ok: "sessions_ok m v" and res: "session_close_single_x11 chid v = Done v'"
  shows "sessions_ok m v' \<and> used_sessions v' = used_sessions v"
proof -
  let ?f = "\<lambda>s. s\<lparr>ss_x11_chanids := None, ss_display := None, ss_auth_proto := None, ss_auth_data := None,
    ss_auth_display := None\<rparr>"
  from res obtain i ssh1 where "v' = upd_session i ?f (v\<lparr>v_ssh := ssh1\<rparr>)"
    by (auto simp: session_close_single_x11_def andThen_Done Let_def split: option.splits)
  then show ?thesis using sessions_ok_upd[of m "v\<lparr>v_ssh := ssh1\<rparr>" i ?f] ok by simp
qed

lemma destroy_from_result:
  assumes "sessions_ok m v" "set is \<subseteq> {..<length (v_sessions v)}"
  obtains v' where "destroy_from m is v = Done v'" "sessions_ok m v'" "used_sessions v' = used_sessions v - set is"
  using assms
proof (induction "is" arbitrary: v thesis)
  case (Cons i "is")
  show ?case
  proof (cases "ss_used (v_sessions v ! i)")
    case True
    then have i: "i \<in> used_sessions v" using Cons.prems by (auto simp: used_sessions_def)
    from session_close_result[OF Cons.prems(2) i] obtain v1 where
      v1: "session_close m i v = Done v1" "sessions_ok m v1" "used_sessions v1 = used_sessions v - {i}" by metis
    have "length (v_sessions v1) = length (v_sessions v)"
      using v1(1) by (auto simp: session_close_def session_unused_def Let_def split: if_splits)
    with Cons.IH[OF _ v1(2)] Cons.prems(3) obtain v' where
      "destroy_from m is v1 = Done v'" "sessions_ok m v'" "used_sessions v' = used_sessions v1 - set is" by auto
    with Cons.prems(1)[of v'] v1 True show ?thesis by auto
  next
    case False
    then have "i \<notin> used_sessions v" by (simp add: used_sessions_def)
    moreover from Cons.IH[OF _ Cons.prems(2)] Cons.prems(3) obtain v' where
      "destroy_from m is v = Done v'" "sessions_ok m v'" "used_sessions v' = used_sessions v - set is" by auto
    ultimately show ?thesis using Cons.prems(1)[of v'] False by auto
  qed
qed simp

end
