(* ===== verification/SockName.thy ===== *)
theory SockName
  imports ChanMux
begin

text \<open>
  Names of sockets (\<open>canohost.c\<close>): the address and the port of either end of a connection, and the
  textual form of addresses (\<open>inet_ntop\<close>, \<open>inet_ntoa\<close> of \<open>openbsd-compat\<close>).
\<close>

section \<open>Numbers in text\<close>

fun dec :: "nat \<Rightarrow> string" where
  "dec n = (if n < 10 then [char_of (48 + n)] else dec (n div 10) @ [char_of (48 + n mod 10)])"

declare dec.simps [simp del]

definition dec_int :: "int \<Rightarrow> string" where
  "dec_int i = (if i < 0 then ''-'' @ dec (nat (- i)) else dec (nat i))"

fun hex :: "nat \<Rightarrow> string" where
  "hex n = (if n < 16 then [if n < 10 then char_of (48 + n) else char_of (87 + n)]
     else hex (n div 16) @ hex (n mod 16))"

declare hex.simps [simp del]

section \<open>Addresses in text\<close>

definition inet_ntop4 :: "u8 list \<Rightarrow> string" where
  "inet_ntop4 src =
     dec (unat (src ! 0)) @ ''.'' @ dec (unat (src ! 1)) @ ''.'' @ dec (unat (src ! 2)) @ ''.'' @ dec (unat (src ! 3))"

text \<open>The eight 16-bit groups of an address of sixteen bytes.\<close>

definition ip6_words :: "u8 list \<Rightarrow> nat list" where
  "ip6_words src = map (\<lambda>i. 256 * unat (src ! (2 * i)) + unat (src ! (2 * i + 1))) [0..<8]"

text \<open>
  The longest run of zero groups, the first one when there are several: base and length. \<open>cur\<close> is the
  run that ends at the group before, if there is one.
\<close>

definition better :: "(nat \<times> nat) option \<Rightarrow> (nat \<times> nat) option \<Rightarrow> (nat \<times> nat) option" where
  "better best cur =
     (case cur of None \<Rightarrow> best
      | Some (b, l) \<Rightarrow> (case best of None \<Rightarrow> cur | Some (bb, bl) \<Rightarrow> if l > bl then cur else best))"

fun longest_zeros :: "nat \<Rightarrow> nat list \<Rightarrow> (nat \<times> nat) option \<Rightarrow> (nat \<times> nat) option \<Rightarrow> (nat \<times> nat) option" where
  "longest_zeros i [] best cur = better best cur"
| "longest_zeros i (w # ws) best cur =
     (if w = 0 then longest_zeros (i + 1) ws best (case cur of None \<Rightarrow> Some (i, 1) | Some (b, l) \<Rightarrow> Some (b, l + 1))
      else longest_zeros (i + 1) ws (better best cur) None)"

definition best_run :: "nat list \<Rightarrow> (nat \<times> nat) option" where
  "best_run ws = (case longest_zeros 0 ws None None of
     Some (b, l) \<Rightarrow> if l < 2 then None else Some (b, l) | None \<Rightarrow> None)"

text \<open>The group at \<open>i\<close> and those after it. The text never fills the buffer of 46 characters.\<close>

function ntop6_from :: "u8 list \<Rightarrow> nat list \<Rightarrow> (nat \<times> nat) option \<Rightarrow> nat \<Rightarrow> string" where
  "ntop6_from src ws best i =
     (if i \<ge> 8 then ''''
      else
        let inside = (case best of None \<Rightarrow> False | Some (b, l) \<Rightarrow> b \<le> i \<and> i < b + l);
            starts = (case best of None \<Rightarrow> False | Some (b, l) \<Rightarrow> b = i)
        in if inside then (if starts then '':'' else '''') @ ntop6_from src ws best (i + 1)
           else (if i \<noteq> 0 then '':'' else '''') @
             (if i = 6 \<and> (best = Some (0, 6) \<or> best = Some (0, 5) \<and> ws ! 5 = 0xffff)
              then inet_ntop4 (drop 12 src)
              else hex (ws ! i) @ ntop6_from src ws best (i + 1)))"
  by pat_completeness auto

termination
  by (relation "measure (\<lambda>(src, ws, best, i). 8 - i)") auto

declare ntop6_from.simps [simp del]

definition inet_ntop6 :: "u8 list \<Rightarrow> string" where
  "inet_ntop6 src =
     (let ws = ip6_words src; best = best_run ws
      in ntop6_from src ws best 0 @ (case best of Some (b, l) \<Rightarrow> if b + l = 8 then '':'' else '''' | None \<Rightarrow> ''''))"

definition inet_ntop :: "ai_fam \<Rightarrow> u8 list \<Rightarrow> string option" where
  "inet_ntop af src =
     (case af of AF_INET \<Rightarrow> Some (inet_ntop4 src) | AF_INET6 \<Rightarrow> Some (inet_ntop6 src) | _ \<Rightarrow> None)"

section \<open>The two ends of a socket\<close>

text \<open>A \<open>struct sockaddr_storage\<close>: address, port in host order, and the scope of an IPv6 address.\<close>

datatype sockaddr = Sin "u8 list" u16 | Sin6 "u8 list" u32 u16 | Sun string | Sa_other

text \<open>The calls: \<open>getsockname\<close>, \<open>getpeername\<close>, and \<open>getnameinfo\<close> for the numeric address and port.\<close>

record sock_calls =
  k_getsockname :: "int \<Rightarrow> sockaddr option"
  k_getpeername :: "int \<Rightarrow> sockaddr option"
  k_numerichost :: "sockaddr \<Rightarrow> string option"
  k_numericserv :: "sockaddr \<Rightarrow> bool"

definition ipv64_normalise_mapped :: "sockaddr \<Rightarrow> sockaddr" where
  "ipv64_normalise_mapped sa =
     (case sa of
        Sin6 bs scope port \<Rightarrow> if take 12 bs = replicate 10 0 @ [0xff, 0xff] then Sin (drop 12 bs) port else sa
      | _ \<Rightarrow> sa)"

definition get_socket_address :: "sock_calls \<Rightarrow> int \<Rightarrow> bool \<Rightarrow> string option" where
  "get_socket_address k sock remote =
     (if sock < 0 then None
      else case (if remote then k_getpeername k sock else k_getsockname k sock) of
        None \<Rightarrow> None
      | Some sa \<Rightarrow>
        (case ipv64_normalise_mapped sa of
           Sun path \<Rightarrow> Some path
         | Sa_other \<Rightarrow> None
         | sa1 \<Rightarrow> k_numerichost k sa1))"

definition get_peer_ipaddr :: "sock_calls \<Rightarrow> int \<Rightarrow> string" where
  "get_peer_ipaddr k sock = (case get_socket_address k sock True of Some p \<Rightarrow> p | None \<Rightarrow> ''UNKNOWN'')"

definition get_local_ipaddr :: "sock_calls \<Rightarrow> int \<Rightarrow> string" where
  "get_local_ipaddr k sock = (case get_socket_address k sock False of Some p \<Rightarrow> p | None \<Rightarrow> ''UNKNOWN'')"

text \<open>A failing \<open>getnameinfo\<close> is \<open>fatal\<close>; the text it gives for the port is the port in decimal.\<close>

definition get_sock_port :: "sock_calls \<Rightarrow> int \<Rightarrow> bool \<Rightarrow> int run" where
  "get_sock_port k sock local =
     (if sock < 0 then Done (-1)
      else case (if local then k_getsockname k sock else k_getpeername k sock) of
        None \<Rightarrow> Done (if local then 0 else -1)
      | Some sa \<Rightarrow>
        (case sa of
           Sin bs port \<Rightarrow> if k_numericserv k sa then Done (uint port) else Fatal
         | Sin6 bs scope port \<Rightarrow> if k_numericserv k sa then Done (uint port) else Fatal
         | _ \<Rightarrow> Done 0))"

definition get_peer_port :: "sock_calls \<Rightarrow> int \<Rightarrow> int run" where
  "get_peer_port k sock = get_sock_port k sock False"

definition get_local_port :: "sock_calls \<Rightarrow> int \<Rightarrow> int run" where
  "get_local_port k sock = get_sock_port k sock True"

end
