(* ===== verification/SessionReq.thy ===== *)
theory SessionReq
  imports SessionTab FwdPolicy ChanFwd SockName
begin

text \<open>
  What a client may ask of a session (\<open>session.c\<close>): a pty, a command, a subsystem, variables, signals,
  X11 and agent forwarding; and how a command is run, with the administrator's or the key's forced
  command in its place. The system calls are the parameter \<open>sys\<close>.
\<close>

section \<open>The server's surroundings\<close>

record session_options = server_options +
  o_max_sessions :: int
  o_permit_tty :: bool
  o_adm_forced_command :: "string option"
  o_subsystems :: "(string \<times> string \<times> string) list"
  o_accept_env :: "string list"
  o_x11_forwarding :: bool
  o_xauth_location :: "string option"
  o_x11_display_offset :: nat
  o_x11_use_localhost :: bool
  o_allow_agent_forwarding :: bool
  o_allow_streamlocal_forwarding :: u32
  o_permit_tun :: u32
  o_fwd_opts :: ForwardOptions
  o_use_privsep :: bool

record session_authopts = fwd_authopts +
  a_permit_pty_flag :: bool
  a_permit_x11_forwarding_flag :: bool
  a_permit_agent_forwarding_flag :: bool
  a_force_command :: "string option"
  a_force_tun_device :: int

text \<open>
  Results of system calls: the descriptors of a pty, of the k-th pipe and of the k-th \<open>dup\<close>, the child's
  process id (\<open>-1\<close> when \<open>fork\<close> fails), whether a signal or a break was delivered, whether a file exists,
  the name of the host, the socket of the agent, a tunnel device with its name, whether a socket fails for
  want of the address family, the memory for a larger session table, the text of a resolver's error, the
  proofs of host keys, and whether output is flushed.
\<close>

record sys =
  y_pty :: "(int \<times> int) option"
  y_pipe :: "nat \<Rightarrow> (int \<times> int) option"
  y_dup :: "nat \<Rightarrow> int"
  y_fork :: int
  y_killpg :: "int \<Rightarrow> signal \<Rightarrow> bool"
  y_sendbreak :: "int \<Rightarrow> bool"
  y_stat :: "string \<Rightarrow> bool"
  y_hostname :: "string option"
  y_agent_dir :: "string option"
  y_tun :: "u32 \<Rightarrow> u32 \<Rightarrow> int \<times> string"
  y_unsupported :: "addrinfo \<Rightarrow> bool"
  y_grow :: "nat \<Rightarrow> bool"
  y_gai_strerror :: string
  y_prove :: "sshbuf \<Rightarrow> u8 list option"
  y_write_wait :: bool

text \<open>
  The context of a server process: parameters, options, the options of the key, and whether the
  authentication context is valid and names a user, with the user's id.
\<close>

record srv_context =
  x_env :: env
  x_net :: net
  x_sys :: sys
  x_opts :: session_options
  x_aopts :: session_authopts
  x_user_ok :: bool
  x_uid :: nat
  x_pid :: string

section \<open>Reading a request\<close>

text \<open>The reads whose failure is \<open>sshpkt_fatal\<close>, each followed by what comes next.\<close>

definition need_u32 :: "sshbuf \<Rightarrow> (u32 \<Rightarrow> sshbuf \<Rightarrow> 'a run) \<Rightarrow> 'a run" where
  "need_u32 p k = (case sshbuf_get_u32 p of (Inl r, _) \<Rightarrow> Disconnect | (Inr w, p1) \<Rightarrow> k w p1)"

definition need_u8 :: "sshbuf \<Rightarrow> (u8 \<Rightarrow> sshbuf \<Rightarrow> 'a run) \<Rightarrow> 'a run" where
  "need_u8 p k = (case sshbuf_get_u8 p of (Inl r, _) \<Rightarrow> Disconnect | (Inr w, p1) \<Rightarrow> k w p1)"

definition need_cstring :: "env \<Rightarrow> sshbuf \<Rightarrow> (string \<Rightarrow> sshbuf \<Rightarrow> 'a run) \<Rightarrow> 'a run" where
  "need_cstring e p k =
     (case sshbuf_get_cstring (e_alc e) p of (Inl r, _) \<Rightarrow> Disconnect | (Inr s, p1) \<Rightarrow> k (cstr s) p1)"

definition need_end :: "sshbuf \<Rightarrow> 'a run \<Rightarrow> 'a run" where
  "need_end p m = (if sshbuf_len p > 0 then Disconnect else m)"

section \<open>Running a command\<close>

definition closes :: "int list \<Rightarrow> ssh \<Rightarrow> ssh" where
  "closes fds ssh = ssh\<lparr>s_effects := s_effects ssh @ map Close_fd fds\<rparr>"

definition INTERNAL_SFTP_NAME :: string where "INTERNAL_SFTP_NAME = ''internal-sftp''"

definition IS_INTERNAL_SFTP :: "string \<Rightarrow> bool" where
  "IS_INTERNAL_SFTP c \<longleftrightarrow>
     take (length INTERNAL_SFTP_NAME) c = INTERNAL_SFTP_NAME \<and>
     (let rest = drop (length INTERNAL_SFTP_NAME) c in
      rest = [] \<or> hd rest = CHR '' '' \<or> hd rest = CHR 0x09)"

text \<open>\<open>Run_child\<close> is what the child between \<open>fork\<close> and \<open>exec\<close> is told to run.\<close>

definition do_exec_no_pty ::
    "srv_context \<Rightarrow> session \<Rightarrow> string option \<Rightarrow> ssh \<Rightarrow> (bool \<times> session \<times> ssh) run" where
  "do_exec_no_pty x s command ssh =
     (case y_pipe (x_sys x) 0 of
        None \<Rightarrow> Done (False, s, ssh)
      | Some (pin0, pin1) \<Rightarrow>
        (case y_pipe (x_sys x) 1 of
           None \<Rightarrow> Done (False, s, closes [pin0, pin1] ssh)
         | Some (pout0, pout1) \<Rightarrow>
           (case y_pipe (x_sys x) 2 of
              None \<Rightarrow> Done (False, s, closes [pin0, pin1, pout0, pout1] ssh)
            | Some (perr0, perr1) \<Rightarrow>
              if y_fork (x_sys x) = -1
              then Done (False, s, closes [pin0, pin1, pout0, pout1, perr0, perr1] ssh)
              else
                let s1 = s\<lparr>ss_pid := y_fork (x_sys x)\<rparr>;
                    ssh1 = closes [pin0, pout1, perr1] (emit (Run_child command (ss_is_subsystem s) False) ssh)
                in andThen (session_set_fds (x_env x) s1 pin1 pout0 perr0 (ss_is_subsystem s \<noteq> 0) False ssh1)
                     (\<lambda>ssh2. Done (True, s1, ssh2)))))"

definition do_exec_pty ::
    "srv_context \<Rightarrow> session \<Rightarrow> string option \<Rightarrow> ssh \<Rightarrow> (bool \<times> session \<times> ssh) run" where
  "do_exec_pty x s command ssh =
     (let ptyfd = ss_ptyfd s; ttyfd = ss_ttyfd s; fdout = y_dup (x_sys x) 0; ptymaster = y_dup (x_sys x) 1 in
      if fdout = -1 then Done (False, s, closes [ttyfd, ptyfd] ssh)
      else if ptymaster = -1 then Done (False, s, closes [ttyfd, ptyfd, fdout] ssh)
      else if y_fork (x_sys x) = -1 then Done (False, s, closes [fdout, ptymaster, ttyfd, ptyfd] ssh)
      else
        let s1 = s\<lparr>ss_pid := y_fork (x_sys x), ss_ptymaster := ptymaster\<rparr>;
            ssh1 = closes [ttyfd] (emit (Run_child command (ss_is_subsystem s) True) ssh)
        in andThen (session_set_fds (x_env x) s1 ptyfd fdout (-1) True True ssh1)
             (\<lambda>ssh2. Done (True, s1, ssh2)))"

text \<open>The command that is forced, by the administrator first.\<close>

definition forced_command :: "srv_context \<Rightarrow> string option" where
  "forced_command x =
     (case o_adm_forced_command (x_opts x) of Some c \<Rightarrow> Some c | None \<Rightarrow> a_force_command (x_aopts x))"

definition do_exec :: "srv_context \<Rightarrow> session \<Rightarrow> string option \<Rightarrow> ssh \<Rightarrow> (bool \<times> session \<times> ssh) run" where
  "do_exec x s command ssh =
     (let command1 = (case forced_command x of Some c \<Rightarrow> Some c | None \<Rightarrow> command);
          s1 = (case forced_command x of
                  None \<Rightarrow> s\<lparr>ss_forced := False\<rparr>
                | Some c \<Rightarrow> s\<lparr>ss_forced := True, ss_is_subsystem :=
                    (if IS_INTERNAL_SFTP c
                     then (if ss_is_subsystem s \<noteq> 0 then SUBSYSTEM_INT_SFTP else SUBSYSTEM_INT_SFTP_ERROR)
                     else if ss_is_subsystem s \<noteq> 0 then SUBSYSTEM_EXT else ss_is_subsystem s)\<rparr>)
      in if ss_ttyfd s1 \<noteq> -1 then do_exec_pty x s1 command1 ssh else do_exec_no_pty x s1 command1 ssh)"

section \<open>Requests\<close>

text \<open>
  A request handler gets the session and the channel layer, and returns whether it succeeded.
  \<open>set_winsize\<close> is what a request says of the terminal.
\<close>

definition set_winsize :: "u32 \<Rightarrow> u32 \<Rightarrow> u32 \<Rightarrow> u32 \<Rightarrow> session \<Rightarrow> session" where
  "set_winsize col row xpixel ypixel s =
     s\<lparr>ss_col := col, ss_row := row, ss_xpixel := xpixel, ss_ypixel := ypixel\<rparr>"

definition session_window_change_req :: "sshbuf \<Rightarrow> session \<Rightarrow> ssh \<Rightarrow> (bool \<times> session \<times> ssh) run" where
  "session_window_change_req pkt s ssh =
     need_u32 pkt (\<lambda>col p1. need_u32 p1 (\<lambda>row p2. need_u32 p2 (\<lambda>xp p3. need_u32 p3 (\<lambda>yp p4.
       need_end p4 (Done (True, set_winsize col row xp yp s, ssh))))))"

text \<open>
  Whether \<open>ssh_tty_parse_modes\<close> gets through the encoded terminal modes: opcodes 1 to 159 have a 32-bit
  argument, any other ends the list. What the modes do to the terminal is left out.
\<close>

function modes_parse :: "u8 list \<Rightarrow> bool" where
  "modes_parse [] = True"
| "modes_parse (opcode # rest) =
     (if opcode > 0 \<and> opcode < 160 then length rest \<ge> 4 \<and> modes_parse (drop 4 rest) else True)"
  by pat_completeness auto

termination
  by (relation "measure length") auto

definition ssh_tty_parse_modes :: "env \<Rightarrow> sshbuf \<Rightarrow> sshbuf run" where
  "ssh_tty_parse_modes e pkt =
     (case sshbuf_get_string_direct pkt of
        (Inl r, _) \<Rightarrow> Fatal
      | (Inr modes, p1) \<Rightarrow>
        if modes = [] then Done p1
        else (case sshbuf_from (e_alc e) (b_cd pkt) modes (word_of_nat (length modes)) of
                None \<Rightarrow> Done p1
              | Some buf \<Rightarrow> if modes_parse (contents buf) then Done p1 else Fatal))"

definition session_pty_req :: "srv_context \<Rightarrow> sshbuf \<Rightarrow> session \<Rightarrow> ssh \<Rightarrow> (bool \<times> session \<times> ssh) run" where
  "session_pty_req x pkt s ssh =
     (if \<not> a_permit_pty_flag (x_aopts x) \<or> \<not> o_permit_tty (x_opts x) then Done (False, s, ssh)
      else if ss_ttyfd s \<noteq> -1 then Disconnect
      else
        need_cstring (x_env x) pkt (\<lambda>term p1. need_u32 p1 (\<lambda>col p2. need_u32 p2 (\<lambda>row p3.
          need_u32 p3 (\<lambda>xp p4. need_u32 p4 (\<lambda>yp p5.
            let s1 = set_winsize col row xp yp (s\<lparr>ss_term := if term = [] then None else Some term\<rparr>)
            in case y_pty (x_sys x) of
                 None \<Rightarrow> Done (False, s1\<lparr>ss_term := None, ss_ptyfd := -1, ss_ttyfd := -1\<rparr>, ssh)
               | Some (ptyfd, ttyfd) \<Rightarrow>
                 andThen (ssh_tty_parse_modes (x_env x) p5) (\<lambda>p6.
                   need_end p6 (Done (True, s1\<lparr>ss_ptyfd := ptyfd, ss_ttyfd := ttyfd\<rparr>, ssh)))))))))"

definition session_subsystem_req :: "srv_context \<Rightarrow> sshbuf \<Rightarrow> session \<Rightarrow> ssh \<Rightarrow> (bool \<times> session \<times> ssh) run" where
  "session_subsystem_req x pkt s ssh =
     need_cstring (x_env x) pkt (\<lambda>subsys p1. need_end p1
       (let s1 = s\<lparr>ss_subsys := Some subsys\<rparr> in
        case List.find (\<lambda>(name, prog, cmd). subsys = name) (o_subsystems (x_opts x)) of
          None \<Rightarrow> Done (False, s1, ssh)
        | Some (name, prog, cmd) \<Rightarrow>
          let s2 = s1\<lparr>ss_is_subsystem := if prog = INTERNAL_SFTP_NAME then SUBSYSTEM_INT_SFTP else SUBSYSTEM_EXT\<rparr>
          in andThen (channel_set_xtype ssh (ss_chanid s2) (''session:subsystem:'' @ name))
               (do_exec x s2 (Some cmd))))"

definition session_shell_req :: "srv_context \<Rightarrow> sshbuf \<Rightarrow> session \<Rightarrow> ssh \<Rightarrow> (bool \<times> session \<times> ssh) run" where
  "session_shell_req x pkt s ssh =
     need_end pkt (andThen (channel_set_xtype ssh (ss_chanid s) ''session:shell'') (do_exec x s None))"

definition session_exec_req :: "srv_context \<Rightarrow> sshbuf \<Rightarrow> session \<Rightarrow> ssh \<Rightarrow> (bool \<times> session \<times> ssh) run" where
  "session_exec_req x pkt s ssh =
     need_cstring (x_env x) pkt (\<lambda>command p1. need_end p1
       (andThen (channel_set_xtype ssh (ss_chanid s) ''session:command'') (do_exec x s (Some command))))"

definition session_break_req :: "srv_context \<Rightarrow> sshbuf \<Rightarrow> session \<Rightarrow> ssh \<Rightarrow> (bool \<times> session \<times> ssh) run" where
  "session_break_req x pkt s ssh =
     need_u32 pkt (\<lambda>len p1. need_end p1
       (Done (ss_ptymaster s \<noteq> -1 \<and> y_sendbreak (x_sys x) (ss_ptymaster s), s, ssh)))"

definition session_env_req :: "srv_context \<Rightarrow> sshbuf \<Rightarrow> session \<Rightarrow> ssh \<Rightarrow> (bool \<times> session \<times> ssh) run" where
  "session_env_req x pkt s ssh =
     need_cstring (x_env x) pkt (\<lambda>name p1. need_cstring (x_env x) p1 (\<lambda>val p2. need_end p2
       (if length (ss_env s) > 128 then Done (False, s, ssh)
        else if list_ex (match_pattern name) (o_accept_env (x_opts x))
        then Done (True, s\<lparr>ss_env := ss_env s @ [(name, val)]\<rparr>, ssh)
        else Done (False, s, ssh))))"

fun name2sig :: "string \<Rightarrow> signal option" where
  "name2sig nm =
     (if nm = ''HUP'' then Some SIGHUP else if nm = ''INT'' then Some SIGINT
      else if nm = ''KILL'' then Some SIGKILL else if nm = ''QUIT'' then Some SIGQUIT
      else if nm = ''TERM'' then Some SIGTERM else if nm = ''USR1'' then Some SIGUSR1
      else if nm = ''USR2'' then Some SIGUSR2 else None)"

text \<open>A malformed signal request is refused, not fatal.\<close>

definition session_signal_req :: "srv_context \<Rightarrow> sshbuf \<Rightarrow> session \<Rightarrow> ssh \<Rightarrow> (bool \<times> session \<times> ssh) run" where
  "session_signal_req x pkt s ssh =
     Done (case sshbuf_get_cstring (e_alc (x_env x)) pkt of
             (Inl r, _) \<Rightarrow> False
           | (Inr bs, p1) \<Rightarrow>
             if sshbuf_len p1 > 0 then False
             else (case name2sig (cstr bs) of
                     None \<Rightarrow> False
                   | Some sig \<Rightarrow>
                     if ss_pid s \<le> 0 then False
                     else if ss_forced s \<or> ss_is_subsystem s \<noteq> 0 then False
                     else if \<not> o_use_privsep (x_opts x) then False
                     else y_killpg (x_sys x) (ss_pid s) sig), s, ssh)"

section \<open>X11 and agent forwarding\<close>

abbreviation NUM_SOCKS :: nat where "NUM_SOCKS \<equiv> 10"
abbreviation MAX_DISPLAYS :: nat where "MAX_DISPLAYS \<equiv> 1000"
abbreviation CHAN_X11_PACKET_DEFAULT :: u32 where "CHAN_X11_PACKET_DEFAULT \<equiv> 16384"
abbreviation CHAN_X11_WINDOW_DEFAULT :: u32 where "CHAN_X11_WINDOW_DEFAULT \<equiv> 65536"
abbreviation SESSION_CLOSE_SINGLE_X11 :: callback where "SESSION_CLOSE_SINGLE_X11 \<equiv> 2"

text \<open>
  Binding one socket per address of a display: the sockets, or failure; a port that is taken gives up
  the sockets of the display.
\<close>

datatype bind_res = Bind_failed "eff list" | Bound "int list" "eff list"

fun x11_bind :: "net \<Rightarrow> sys \<Rightarrow> addrinfo list \<Rightarrow> int list \<Rightarrow> eff list \<Rightarrow> bind_res" where
  "x11_bind nt y [] socks fx = Bound socks fx"
| "x11_bind nt y (ai # ais) socks fx =
     (if ai_family ai \<noteq> AF_INET \<and> ai_family ai \<noteq> AF_INET6 then x11_bind nt y ais socks fx
      else let sock = n_socket nt ai in
        if sock = -1 then (if y_unsupported y ai then x11_bind nt y ais socks fx else Bind_failed fx)
        else if \<not> n_bind nt sock ai then Bound [] (fx @ map Close_fd (sock # socks))
        else if length socks + 1 = NUM_SOCKS then Bound (socks @ [sock]) fx
        else x11_bind nt y ais (socks @ [sock]) fx)"

fun x11_find_display :: "net \<Rightarrow> sys \<Rightarrow> bool \<Rightarrow> nat list \<Rightarrow> eff list \<Rightarrow> (nat \<times> int list) option \<times> eff list" where
  "x11_find_display nt y localhost [] fx = (None, fx)"
| "x11_find_display nt y localhost (d # ds) fx =
     (case n_getaddrinfo nt None (6000 + int d) (\<not> localhost) of
        None \<Rightarrow> (None, fx)
      | Some ais \<Rightarrow>
        (case x11_bind nt y ais [] fx of
           Bind_failed fx1 \<Rightarrow> (None, fx1)
         | Bound socks fx1 \<Rightarrow>
           if socks \<noteq> [] then (Some (d, socks), fx1) else x11_find_display nt y localhost ds fx1))"

fun x11_channels :: "env \<Rightarrow> bool \<Rightarrow> int list \<Rightarrow> ssh \<Rightarrow> (int list \<times> ssh) run" where
  "x11_channels e single [] ssh = Done ([], ssh)"
| "x11_channels e single (sock # socks) ssh =
     andThen (channel_new e ssh ''x11-listener'' SSH_CHANNEL_X11_LISTENER sock sock (-1)
                CHAN_X11_WINDOW_DEFAULT CHAN_X11_PACKET_DEFAULT CHAN_EXTENDED_IGNORE
                ''X11 inet listener'' CHANNEL_NONBLOCK_SET)
       (\<lambda>(i, ssh1). case s_channels ssh1 ! i of
          None \<Rightarrow> Fatal
        | Some c \<Rightarrow>
          andThen (x11_channels e single socks (set_slot i (Some (c\<lparr>c_single_connection := single\<rparr>)) ssh1))
            (\<lambda>(ids, ssh2). Done (int i # ids, ssh2)))"

text \<open>When \<open>listen\<close> fails only that socket is closed.\<close>

definition x11_create_display_inet ::
    "srv_context \<Rightarrow> bool \<Rightarrow> ssh \<Rightarrow> ((nat \<times> int list) option \<times> ssh) run" where
  "x11_create_display_inet x single ssh =
     (let (r, fx) = x11_find_display (x_net x) (x_sys x) (o_x11_use_localhost (x_opts x))
            [o_x11_display_offset (x_opts x)..<MAX_DISPLAYS] [];
          ssh1 = ssh\<lparr>s_effects := s_effects ssh @ fx\<rparr>
      in case r of
           None \<Rightarrow> Done (None, ssh1)
         | Some (d, socks) \<Rightarrow>
           (case List.find (\<lambda>sock. \<not> n_listen (x_net x) sock) socks of
              Some sock \<Rightarrow> Done (None, closes [sock] ssh1)
            | None \<Rightarrow> andThen (x11_channels (x_env x) single socks ssh1)
                (\<lambda>(ids, ssh2). Done (Some (d, ids), ssh2))))"

fun register_all :: "callback \<Rightarrow> int list \<Rightarrow> ssh \<Rightarrow> ssh" where
  "register_all cb [] ssh = ssh"
| "register_all cb (i # is) ssh = register_all cb is (channel_register_cleanup ssh i (Some cb) False)"

definition session_setup_x11fwd :: "srv_context \<Rightarrow> session \<Rightarrow> ssh \<Rightarrow> (bool \<times> session \<times> ssh) run" where
  "session_setup_x11fwd x s ssh =
     (if \<not> a_permit_x11_forwarding_flag (x_aopts x)
      then Done (False, s, emit (Send_debug ''X11 forwarding disabled by key options.'') ssh)
      else if \<not> o_x11_forwarding (x_opts x) then Done (False, s, ssh)
      else if (case o_xauth_location (x_opts x) of None \<Rightarrow> True | Some path \<Rightarrow> \<not> y_stat (x_sys x) path)
      then Done (False, s, emit (Send_debug ''No xauth program; cannot forward X11.'') ssh)
      else if ss_display s \<noteq> None then Done (False, s, ssh)
      else andThen (x11_create_display_inet x (ss_single_connection s \<noteq> 0) ssh)
        (\<lambda>(r, ssh1). case r of
           None \<Rightarrow> Done (False, s, ssh1)
         | Some (d, ids) \<Rightarrow>
           let ssh2 = register_all SESSION_CLOSE_SINGLE_X11 ids ssh1;
               num = '':'' @ dec d @ ''.'' @ dec (unat (ss_screen s))
           in case y_hostname (x_sys x) of
                None \<Rightarrow> Fatal
              | Some hostname \<Rightarrow>
                let (disp, auth) = (if o_x11_use_localhost (x_opts x)
                      then (''localhost'' @ num, ''unix'' @ num)
                      else (take 400 hostname @ num, take 400 hostname @ num))
                in Done (True, s\<lparr>ss_x11_chanids := Some ids, ss_display := Some disp,
                                ss_auth_display := Some auth\<rparr>, ssh2)))"

definition xauth_valid_string :: "string \<Rightarrow> bool" where
  "xauth_valid_string s \<longleftrightarrow>
     list_all (\<lambda>c. (of_char c :: nat) \<in> {97..122} \<union> {65..90} \<union> {48..57} \<or>
       c \<in> {CHR ''.'', CHR '':'', CHR ''/'', CHR ''-'', CHR ''_''}) s"

definition session_x11_req :: "srv_context \<Rightarrow> sshbuf \<Rightarrow> session \<Rightarrow> ssh \<Rightarrow> (bool \<times> session \<times> ssh) run" where
  "session_x11_req x pkt s ssh =
     (if ss_auth_proto s \<noteq> None \<or> ss_auth_data s \<noteq> None then Done (False, s, ssh)
      else
        need_u8 pkt (\<lambda>single p1. need_cstring (x_env x) p1 (\<lambda>proto p2. need_cstring (x_env x) p2 (\<lambda>data p3.
          need_u32 p3 (\<lambda>screen p4. need_end p4
            (let s1 = s\<lparr>ss_auth_proto := Some proto, ss_auth_data := Some data, ss_screen := screen,
                        ss_single_connection := single\<rparr>
             in andThen (if xauth_valid_string proto \<and> xauth_valid_string data
                         then session_setup_x11fwd x s1 ssh else Done (False, s1, ssh))
                  (\<lambda>(ok, s2, ssh1). Done (ok,
                     if ok then s2 else s2\<lparr>ss_auth_proto := None, ss_auth_data := None\<rparr>, ssh1))))))))"

definition auth_input_request_forwarding :: "srv_context \<Rightarrow> server \<Rightarrow> (bool \<times> server) run" where
  "auth_input_request_forwarding x v =
     (if v_auth_sock_name v \<noteq> None then Done (False, v)
      else case y_agent_dir (x_sys x) of
        None \<Rightarrow> Done (False, v\<lparr>v_ssh := emit (Send_debug ''Agent forwarding disabled: mkdtemp() failed'') (v_ssh v)\<rparr>)
      | Some dir \<Rightarrow>
        let path = dir @ ''/agent.'' @ x_pid x; sock = n_unix_listener (x_net x) path False in
        if sock < 0 then Done (False, if sock = -1 then v else v\<lparr>v_ssh := closes [sock] (v_ssh v)\<rparr>)
        else andThen (channel_new (x_env x) (v_ssh v) ''auth-listener'' SSH_CHANNEL_AUTH_SOCKET sock sock (-1)
                        CHAN_X11_WINDOW_DEFAULT CHAN_X11_PACKET_DEFAULT CHAN_EXTENDED_IGNORE ''auth socket''
                        CHANNEL_NONBLOCK_SET)
          (\<lambda>(i, ssh1). case s_channels ssh1 ! i of
             None \<Rightarrow> Fatal
           | Some c \<Rightarrow> Done (True, v\<lparr>v_ssh := set_slot i (Some (c\<lparr>c_path := Some path\<rparr>)) ssh1,
                                     v_auth_sock_name := Some path\<rparr>)))"

definition session_auth_agent_req :: "srv_context \<Rightarrow> sshbuf \<Rightarrow> server \<Rightarrow> (bool \<times> server) run" where
  "session_auth_agent_req x pkt v =
     need_end pkt
       (if \<not> a_permit_agent_forwarding_flag (x_aopts x) \<or> \<not> o_allow_agent_forwarding (x_opts x)
        then Done (False, v)
        else if v_agent_called v then Done (False, v)
        else auth_input_request_forwarding x (v\<lparr>v_agent_called := True\<rparr>))"

section \<open>The requests by name\<close>

definition on_session ::
    "nat \<Rightarrow> (session \<Rightarrow> ssh \<Rightarrow> (bool \<times> session \<times> ssh) run) \<Rightarrow> server \<Rightarrow> (bool \<times> server) run" where
  "on_session i h v =
     andThen (h (v_sessions v ! i) (v_ssh v))
       (\<lambda>(ok, s, ssh1). Done (ok, upd_session i (\<lambda>_. s) (v\<lparr>v_ssh := ssh1\<rparr>)))"

text \<open>Until a command runs, the channel of a session is LARVAL, and only then may one be started.\<close>

definition larval_req :: "srv_context \<Rightarrow> nat \<Rightarrow> string \<Rightarrow> sshbuf \<Rightarrow> server \<Rightarrow> (bool \<times> server) run" where
  "larval_req x i rtype pkt v =
     (if rtype = ''shell'' then on_session i (session_shell_req x pkt) v
      else if rtype = ''exec'' then on_session i (session_exec_req x pkt) v
      else if rtype = ''pty-req'' then on_session i (session_pty_req x pkt) v
      else if rtype = ''x11-req'' then on_session i (session_x11_req x pkt) v
      else if rtype = ''auth-agent-req@openssh.com'' then session_auth_agent_req x pkt v
      else if rtype = ''subsystem'' then on_session i (session_subsystem_req x pkt) v
      else if rtype = ''env'' then on_session i (session_env_req x pkt) v
      else Done (False, v))"

definition session_input_channel_req ::
    "srv_context \<Rightarrow> channel \<Rightarrow> string \<Rightarrow> sshbuf \<Rightarrow> server \<Rightarrow> (bool \<times> server) run" where
  "session_input_channel_req x c rtype pkt v =
     (case session_by_channel v (int (c_self c)) of
        None \<Rightarrow> Done (False, v)
      | Some i \<Rightarrow>
        andThen (if c_type c = SSH_CHANNEL_LARVAL then larval_req x i rtype pkt v else Done (False, v))
          (\<lambda>(ok, v1).
             if rtype = ''window-change'' then on_session i (session_window_change_req pkt) v1
             else if rtype = ''break'' then on_session i (session_break_req x pkt) v1
             else if rtype = ''signal'' then on_session i (session_signal_req x pkt) v1
             else Done (ok, v1)))"

end
