(* ===== verification/ServerLoop.thy ===== *)
theory ServerLoop
  imports SessionReq ChanIn
begin

text \<open>
  What a server does with the messages of an authenticated client (\<open>serverloop.c\<close>): opening sessions,
  forwarded connections and tunnels, remote forwards and their cancellation, requests for a session, and
  the table that dispatches the messages. The proof of host keys is a parameter, for it rests on the
  keys of libcrypto.
\<close>

section \<open>Opening channels\<close>

abbreviation CHANNEL_REASON_PROHIBITED :: u32 where "CHANNEL_REASON_PROHIBITED \<equiv> 1"
abbreviation CHANNEL_REASON_CONNECT_FAILED :: u32 where "CHANNEL_REASON_CONNECT_FAILED \<equiv> 2"
abbreviation INT_MAX :: u32 where "INT_MAX \<equiv> 0x7fffffff"
abbreviation IPPORT_RESERVED :: int where "IPPORT_RESERVED \<equiv> 1024"
abbreviation SSH_TUNMODE_POINTOPOINT :: u32 where "SSH_TUNMODE_POINTOPOINT \<equiv> 1"
abbreviation SSH_TUNMODE_ETHERNET :: u32 where "SSH_TUNMODE_ETHERNET \<equiv> 2"
abbreviation SSH_TUNID_ANY :: u32 where "SSH_TUNID_ANY \<equiv> 0x7fffffff"
abbreviation SYS_TUN_INFILTER :: callback where "SYS_TUN_INFILTER \<equiv> 3"
abbreviation SYS_TUN_OUTFILTER :: callback where "SYS_TUN_OUTFILTER \<equiv> 4"
abbreviation SSH2_MSG_REQUEST_SUCCESS :: nat where "SSH2_MSG_REQUEST_SUCCESS \<equiv> 81"
abbreviation SSH2_MSG_REQUEST_FAILURE :: nat where "SSH2_MSG_REQUEST_FAILURE \<equiv> 82"

definition reason_code :: "open_failure \<Rightarrow> u32" where
  "reason_code r = (case r of SSH2_OPEN_ADMINISTRATIVELY_PROHIBITED \<Rightarrow> CHANNEL_REASON_PROHIBITED
     | SSH2_OPEN_CONNECT_FAILED \<Rightarrow> CHANNEL_REASON_CONNECT_FAILED)"

text \<open>
  The answer to an open request before it is sent: the channel, or the reason with its message where
  the request sets them. \<open>reason\<close> starts as a failed connection.
\<close>

record open_result =
  r_chan :: "nat option"
  r_reason :: u32
  r_errmsg :: "string option"

abbreviation no_channel :: "u32 \<Rightarrow> open_result" where
  "no_channel reason \<equiv> \<lparr>r_chan = None, r_reason = reason, r_errmsg = None\<rparr>"

abbreviation with_channel :: "nat option \<Rightarrow> open_result" where
  "with_channel c \<equiv> \<lparr>r_chan = c, r_reason = CHANNEL_REASON_CONNECT_FAILED, r_errmsg = None\<rparr>"

definition server_request_direct_tcpip :: "srv_context \<Rightarrow> sshbuf \<Rightarrow> ssh \<Rightarrow> (open_result \<times> ssh) run" where
  "server_request_direct_tcpip x pkt ssh =
     need_cstring (x_env x) pkt (\<lambda>target p1. need_u32 p1 (\<lambda>target_port p2.
       need_cstring (x_env x) p2 (\<lambda>originator p3. need_u32 p3 (\<lambda>originator_port p4. need_end p4
         (if target_port > 0xFFFF then Done (no_channel CHANNEL_REASON_PROHIBITED, ssh)
          else if originator_port > 0xFFFF then Done (no_channel CHANNEL_REASON_PROHIBITED, ssh)
          else if o_allow_tcp_forwarding (x_opts x) AND bit_of FORWARD_LOCAL \<noteq> 0 \<and>
                  a_permit_port_forwarding_flag (x_aopts x) \<and> \<not> o_disable_forwarding (x_opts x)
          then andThen (channel_connect_to_port (x_env x) (x_net x) ssh target (uint target_port)
                          ''direct-tcpip'' ''direct-tcpip'')
                 (\<lambda>(c, reason, ssh1). Done (\<lparr>r_chan = c,
                    r_reason = (case reason of None \<Rightarrow> CHANNEL_REASON_CONNECT_FAILED | Some r \<Rightarrow> reason_code r),
                    r_errmsg = (if reason = Some SSH2_OPEN_CONNECT_FAILED
                                then Some (y_gai_strerror (x_sys x)) else None)\<rparr>, ssh1))
          else Done (no_channel CHANNEL_REASON_PROHIBITED, ssh))))))"

definition server_request_direct_streamlocal :: "srv_context \<Rightarrow> sshbuf \<Rightarrow> ssh \<Rightarrow> (open_result \<times> ssh) run" where
  "server_request_direct_streamlocal x pkt ssh =
     (if \<not> x_user_ok x then Fatal
      else
        need_cstring (x_env x) pkt (\<lambda>target p1. need_cstring (x_env x) p1 (\<lambda>originator p2.
          need_u32 p2 (\<lambda>originator_port p3. need_end p3
            (if originator_port > 0xFFFF then Done (with_channel None, ssh)
             else if o_allow_streamlocal_forwarding (x_opts x) AND bit_of FORWARD_LOCAL \<noteq> 0 \<and>
                     a_permit_port_forwarding_flag (x_aopts x) \<and> \<not> o_disable_forwarding (x_opts x) \<and>
                     (x_uid x = 0 \<or> o_use_privsep (x_opts x))
             then andThen (channel_connect_to_path (x_env x) (x_net x) ssh target
                             ''direct-streamlocal@openssh.com'' ''direct-streamlocal'')
                    (\<lambda>(c, ssh1). Done (with_channel c, ssh1))
             else Done (with_channel None, ssh))))))"

text \<open>\<open>tun_failed\<close> is the end of the function after \<open>done:\<close> without a channel.\<close>

definition tun_failed :: "server \<Rightarrow> (open_result \<times> server) run" where
  "tun_failed v = Done (with_channel None,
     v\<lparr>v_ssh := emit (Send_debug ''Failed to open the tunnel device.'') (v_ssh v)\<rparr>)"

definition tun_opened :: "srv_context \<Rightarrow> u32 \<Rightarrow> int \<Rightarrow> string \<Rightarrow> server \<Rightarrow> (open_result \<times> server) run" where
  "tun_opened x mode sock ifname v =
     andThen (channel_new (x_env x) (v_ssh v) ''tun'' SSH_CHANNEL_OPEN sock sock (-1)
                CHAN_TCP_WINDOW_DEFAULT CHAN_TCP_PACKET_DEFAULT CHAN_EXTENDED_IGNORE ''tun''
                CHANNEL_NONBLOCK_SET)
       (\<lambda>(i, ssh1). case s_channels ssh1 ! i of
          None \<Rightarrow> Fatal
        | Some c \<Rightarrow>
          let ssh2 = set_slot i (Some (c\<lparr>c_datagram := True\<rparr>)) ssh1;
              ssh3 = (if mode = SSH_TUNMODE_POINTOPOINT
                      then channel_register_filter ssh2 (int i) (Some SYS_TUN_INFILTER)
                             (Some SYS_TUN_OUTFILTER) None None
                      else ssh2)
          in Done (with_channel (Some i), v\<lparr>v_ssh := ssh3, v_tun_ifnames := Some
               (case v_tun_ifnames v of None \<Rightarrow> ifname | Some names \<Rightarrow> names @ '','' @ ifname)\<rparr>))"

definition server_request_tun :: "srv_context \<Rightarrow> sshbuf \<Rightarrow> server \<Rightarrow> (open_result \<times> server) run" where
  "server_request_tun x pkt v =
     need_u32 pkt (\<lambda>mode p1.
       if mode \<noteq> SSH_TUNMODE_POINTOPOINT \<and> mode \<noteq> SSH_TUNMODE_ETHERNET
       then Done (with_channel None,
              v\<lparr>v_ssh := emit (Send_debug ''Unsupported tunnel device mode.'') (v_ssh v)\<rparr>)
       else if o_permit_tun (x_opts x) AND mode = 0
       then Done (with_channel None,
              v\<lparr>v_ssh := emit (Send_debug ''Server has rejected tunnel device forwarding'') (v_ssh v)\<rparr>)
       else need_u32 p1 (\<lambda>tun p2.
         if tun > INT_MAX then tun_failed v
         else if a_force_tun_device (x_aopts x) \<noteq> -1 \<and> tun \<noteq> SSH_TUNID_ANY \<and>
                 a_force_tun_device (x_aopts x) \<noteq> uint tun
         then tun_failed v
         else
           let tun1 = (if a_force_tun_device (x_aopts x) \<noteq> -1
                       then word_of_int (a_force_tun_device (x_aopts x)) else tun);
               (sock, ifname) = y_tun (x_sys x) tun1 mode
           in if sock < 0 then tun_failed v else tun_opened x mode sock ifname v))"

definition server_request_session :: "srv_context \<Rightarrow> sshbuf \<Rightarrow> server \<Rightarrow> (open_result \<times> server) run" where
  "server_request_session x pkt v =
     need_end pkt
       (if v_no_more_sessions v then Disconnect
        else andThen (channel_new (x_env x) (v_ssh v) ''session'' SSH_CHANNEL_LARVAL (-1) (-1) (-1) 0
                        CHAN_SES_PACKET_DEFAULT CHAN_EXTENDED_IGNORE ''server-session'' CHANNEL_NONBLOCK_SET)
          (\<lambda>(i, ssh1).
            andThen (session_open (y_grow (x_sys x)) (o_max_sessions (x_opts x)) (x_user_ok x) (int i)
                       (v\<lparr>v_ssh := ssh1\<rparr>))
              (\<lambda>(ok, v1).
                if \<not> ok then andThen (channel_free (x_env x) (v_ssh v1) i)
                       (\<lambda>ssh2. Done (with_channel None, v1\<lparr>v_ssh := ssh2\<rparr>))
                else Done (with_channel (Some i), v1\<lparr>v_ssh := channel_register_cleanup (v_ssh v1) (int i)
                       (Some SESSION_CLOSE_BY_CHANNEL) False\<rparr>))))"

definition on_ssh :: "(ssh \<Rightarrow> ('a \<times> ssh) run) \<Rightarrow> server \<Rightarrow> ('a \<times> server) run" where
  "on_ssh h v = andThen (h (v_ssh v)) (\<lambda>(r, ssh1). Done (r, v\<lparr>v_ssh := ssh1\<rparr>))"

definition open_by_type :: "srv_context \<Rightarrow> string \<Rightarrow> sshbuf \<Rightarrow> server \<Rightarrow> (open_result \<times> server) run" where
  "open_by_type x ctype pkt v =
     (if ctype = ''session'' then server_request_session x pkt v
      else if ctype = ''direct-tcpip'' then on_ssh (server_request_direct_tcpip x pkt) v
      else if ctype = ''direct-streamlocal@openssh.com'' then on_ssh (server_request_direct_streamlocal x pkt) v
      else if ctype = ''tun@openssh.com'' then server_request_tun x pkt v
      else Done (with_channel None, v))"

text \<open>The answer: a channel that is still connecting is confirmed later.\<close>

definition open_failure_packet :: "u32 \<Rightarrow> open_result \<Rightarrow> packet" where
  "open_failure_packet rchan r =
     Packet SSH2_MSG_CHANNEL_OPEN_FAILURE [PUT_U32 rchan, PUT_U32 (r_reason r),
       PUT_CSTRING (case r_errmsg r of None \<Rightarrow> ''open failed'' | Some m \<Rightarrow> m), PUT_CSTRING '''']"

definition answer_open ::
    "env \<Rightarrow> u32 \<Rightarrow> u32 \<Rightarrow> u32 \<Rightarrow> open_result \<Rightarrow> ssh \<Rightarrow> ssh run" where
  "answer_open e rchan rwindow rmaxpack r ssh =
     (case r_chan r of
        None \<Rightarrow>
          let p = open_failure_packet rchan r in
          if e_pkt_ok e p then Done (emit (Send p) ssh) else Disconnect
      | Some i \<Rightarrow>
        (case chan ssh i of
           None \<Rightarrow> Fatal
         | Some c \<Rightarrow>
           let c1 = c\<lparr>c_remote_id := rchan, c_have_remote_id := True, c_remote_window := rwindow,
                      c_remote_maxpacket := rmaxpack\<rparr>;
               ssh1 = set_slot i (Some c1) ssh;
               p = Packet SSH2_MSG_CHANNEL_OPEN_CONFIRMATION [PUT_U32 (c_remote_id c1),
                     PUT_U32 (word_of_nat (c_self c1)), PUT_U32 (c_local_window c1),
                     PUT_U32 (c_local_maxpacket c1)]
           in if c_type c1 = SSH_CHANNEL_CONNECTING then Done ssh1
              else if e_pkt_ok e p then Done (emit (Send p) ssh1) else Disconnect))"

definition server_input_channel_open :: "srv_context \<Rightarrow> server \<Rightarrow> sshbuf \<Rightarrow> server run" where
  "server_input_channel_open x v pkt =
     need_cstring (x_env x) pkt (\<lambda>ctype p1. need_u32 p1 (\<lambda>rchan p2. need_u32 p2 (\<lambda>rwindow p3.
       need_u32 p3 (\<lambda>rmaxpack p4.
         andThen (open_by_type x ctype p4 v)
           (\<lambda>(r, v1). andThen (answer_open (x_env x) rchan rwindow rmaxpack r (v_ssh v1))
              (\<lambda>ssh1. Done (v1\<lparr>v_ssh := ssh1\<rparr>)))))))"

section \<open>Global requests\<close>

definition bind_permitted :: "srv_context \<Rightarrow> int \<Rightarrow> bool" where
  "bind_permitted x port =
     (if o_use_privsep (x_opts x) then True
      else if port < IPPORT_RESERVED \<and> x_uid x \<noteq> 0 then False
      else True)"

definition no_forward :: Forward where
  "no_forward = \<lparr>f_listen_host = None, f_listen_port = 0, f_listen_path = None, f_connect_host = None,
     f_connect_port = 0, f_connect_path = None, f_allocated_port = 0\<rparr>"

text \<open>
  The result of a request: success, the bytes of the reply if there are any, and the server. A port
  beyond \<open>int\<close> leaves \<open>listen_port\<close> 0, and is refused.
\<close>

definition tcpip_forward_ok :: "srv_context \<Rightarrow> bool \<Rightarrow> u32 \<Rightarrow> bool" where
  "tcpip_forward_ok x want_reply port \<longleftrightarrow>
     (let lport = (if port \<le> INT_MAX then uint port else 0) in
      \<not> (port > INT_MAX \<or> o_allow_tcp_forwarding (x_opts x) AND bit_of FORWARD_REMOTE = 0 \<or>
         \<not> a_permit_port_forwarding_flag (x_aopts x) \<or> o_disable_forwarding (x_opts x) \<or>
         (\<not> want_reply \<and> lport = 0) \<or> (lport \<noteq> 0 \<and> \<not> bind_permitted x lport)))"

definition port_reply :: "env \<Rightarrow> int option \<Rightarrow> u8 list run" where
  "port_reply e allocated =
     (case sshbuf_new (e_alc e) of
        None \<Rightarrow> Fatal
      | Some resp \<Rightarrow>
        (case allocated of
           None \<Rightarrow> Done (contents resp)
         | Some p \<Rightarrow>
           if p = 0 then Done (contents resp)
           else (case sshbuf_put_u32 (e_alc e) resp (word_of_int p) of
                   (Inl r, _) \<Rightarrow> Fatal | (Inr _, resp1) \<Rightarrow> Done (contents resp1))))"

definition req_tcpip_forward ::
    "srv_context \<Rightarrow> bool \<Rightarrow> sshbuf \<Rightarrow> server \<Rightarrow> ((bool \<times> u8 list option) \<times> server) run" where
  "req_tcpip_forward x want_reply pkt v =
     need_cstring (x_env x) pkt (\<lambda>host p1. need_u32 p1 (\<lambda>port p2.
       let fwd = no_forward\<lparr>f_listen_host := Some host,
                   f_listen_port := (if port \<le> INT_MAX then uint port else 0)\<rparr>
       in andThen
            (if \<not> tcpip_forward_ok x want_reply port
             then Done (False, None, emit (Send_debug ''Server has disabled port forwarding.'') (v_ssh v))
             else channel_setup_remote_fwd_listener (x_env x) (x_net x) (v_ssh v) fwd True (o_fwd_opts (x_opts x)))
            (\<lambda>(ok, allocated, ssh1). andThen (port_reply (x_env x) allocated)
               (\<lambda>bs. Done ((ok, Some bs), v\<lparr>v_ssh := ssh1\<rparr>)))))"

definition req_cancel_tcpip_forward ::
    "srv_context \<Rightarrow> sshbuf \<Rightarrow> server \<Rightarrow> ((bool \<times> u8 list option) \<times> server) run" where
  "req_cancel_tcpip_forward x pkt v =
     need_cstring (x_env x) pkt (\<lambda>host p1. need_u32 p1 (\<lambda>port p2.
       if port \<le> INT_MAX
       then andThen (channel_cancel_rport_listener (x_env x) (v_ssh v)
                       (no_forward\<lparr>f_listen_host := Some host, f_listen_port := uint port\<rparr>))
              (\<lambda>(ok, ssh1). Done ((ok, None), v\<lparr>v_ssh := ssh1\<rparr>))
       else Done ((False, None), v)))"

definition req_streamlocal_forward ::
    "srv_context \<Rightarrow> sshbuf \<Rightarrow> server \<Rightarrow> ((bool \<times> u8 list option) \<times> server) run" where
  "req_streamlocal_forward x pkt v =
     need_cstring (x_env x) pkt (\<lambda>path p1.
       andThen
         (if o_allow_streamlocal_forwarding (x_opts x) AND bit_of FORWARD_REMOTE = 0 \<or>
             \<not> a_permit_port_forwarding_flag (x_aopts x) \<or> o_disable_forwarding (x_opts x) \<or>
             (x_uid x \<noteq> 0 \<and> \<not> o_use_privsep (x_opts x))
          then Done (False, None, emit (Send_debug ''Server has disabled streamlocal forwarding.'') (v_ssh v))
          else channel_setup_remote_fwd_listener (x_env x) (x_net x) (v_ssh v)
                 (no_forward\<lparr>f_listen_path := Some path\<rparr>) False (o_fwd_opts (x_opts x)))
         (\<lambda>(ok, allocated, ssh1). Done ((ok, None), v\<lparr>v_ssh := ssh1\<rparr>)))"

definition req_cancel_streamlocal_forward ::
    "srv_context \<Rightarrow> sshbuf \<Rightarrow> server \<Rightarrow> ((bool \<times> u8 list option) \<times> server) run" where
  "req_cancel_streamlocal_forward x pkt v =
     need_cstring (x_env x) pkt (\<lambda>path p1.
       andThen (channel_cancel_rport_listener (x_env x) (v_ssh v) (no_forward\<lparr>f_listen_path := Some path\<rparr>))
         (\<lambda>(ok, ssh1). Done ((ok, None), v\<lparr>v_ssh := ssh1\<rparr>)))"

definition global_by_type ::
    "srv_context \<Rightarrow> string \<Rightarrow> bool \<Rightarrow> sshbuf \<Rightarrow> server \<Rightarrow> ((bool \<times> u8 list option) \<times> server) run" where
  "global_by_type x rtype want_reply pkt v =
     (if rtype = ''tcpip-forward'' then req_tcpip_forward x want_reply pkt v
      else if rtype = ''cancel-tcpip-forward'' then req_cancel_tcpip_forward x pkt v
      else if rtype = ''streamlocal-forward@openssh.com'' then req_streamlocal_forward x pkt v
      else if rtype = ''cancel-streamlocal-forward@openssh.com'' then req_cancel_streamlocal_forward x pkt v
      else if rtype = ''no-more-sessions@openssh.com'' then Done ((True, None), v\<lparr>v_no_more_sessions := True\<rparr>)
      else if rtype = ''hostkeys-prove-00@openssh.com'' then Done ((y_prove (x_sys x) pkt \<noteq> None, y_prove (x_sys x) pkt), v)
      else Done ((False, None), v))"

definition server_input_global_request :: "srv_context \<Rightarrow> server \<Rightarrow> sshbuf \<Rightarrow> server run" where
  "server_input_global_request x v pkt =
     (if \<not> x_user_ok x then Fatal
      else
        need_cstring (x_env x) pkt (\<lambda>rtype p1. need_u8 p1 (\<lambda>want_reply p2.
          andThen (global_by_type x rtype (want_reply \<noteq> 0) p2 v)
            (\<lambda>((ok, resp), v1).
              let p = Packet (if ok then SSH2_MSG_REQUEST_SUCCESS else SSH2_MSG_REQUEST_FAILURE)
                        (case resp of Some bs \<Rightarrow> if ok then [PUT_RAW bs] else [] | None \<Rightarrow> [])
              in if want_reply = 0 then Done v1
                 else if e_pkt_ok (x_env x) p \<and> y_write_wait (x_sys x)
                 then Done (v1\<lparr>v_ssh := emit (Send p) (v_ssh v1)\<rparr>)
                 else Disconnect))))"

section \<open>Channel requests\<close>

definition server_input_channel_req :: "srv_context \<Rightarrow> server \<Rightarrow> sshbuf \<Rightarrow> server run" where
  "server_input_channel_req x v pkt =
     need_u32 pkt (\<lambda>chid p1. need_cstring (x_env x) p1 (\<lambda>rtype p2. need_u8 p2 (\<lambda>want_reply p3.
       case (if chid \<ge> INT_MAX then None else channel_lookup (v_ssh v) (uint chid)) of
         None \<Rightarrow> Disconnect
       | Some c \<Rightarrow>
         andThen
           (if rtype = ''eow@openssh.com''
            then need_end p3 (andThen (on_channel (\<lambda>st. Done (chan_rcvd_eow st)) (unat chid) (v_ssh v))
                   (\<lambda>ssh1. Done (False, v\<lparr>v_ssh := ssh1\<rparr>)))
            else if (c_type c = SSH_CHANNEL_LARVAL \<or> c_type c = SSH_CHANNEL_OPEN) \<and> c_ctype c = ''session''
            then session_input_channel_req x c rtype p3 v
            else Done (False, v))
           (\<lambda>(ok, v1). case chan (v_ssh v1) (unat chid) of
               None \<Rightarrow> Fatal
             | Some c1 \<Rightarrow>
               if want_reply \<noteq> 0 \<and> c_flags c1 AND CHAN_CLOSE_SENT = 0 then
                 if \<not> c_have_remote_id c1 then Fatal
                 else
                   let p = Packet (if ok then SSH2_MSG_CHANNEL_SUCCESS else SSH2_MSG_CHANNEL_FAILURE)
                             [PUT_U32 (c_remote_id c1)]
                   in if e_pkt_ok (x_env x) p then Done (v1\<lparr>v_ssh := emit (Send p) (v_ssh v1)\<rparr>)
                      else Disconnect
               else Done v1))))"

section \<open>Dispatch\<close>

text \<open>The handlers of \<open>server_init_dispatch\<close>, but for the key exchange.\<close>

definition of_channels :: "(ssh \<Rightarrow> sshbuf \<Rightarrow> ssh run) \<Rightarrow> server \<Rightarrow> sshbuf \<Rightarrow> server run" where
  "of_channels h v pkt = andThen (h (v_ssh v) pkt) (\<lambda>ssh1. Done (v\<lparr>v_ssh := ssh1\<rparr>))"

definition server_input_keep_alive :: "server \<Rightarrow> sshbuf \<Rightarrow> server run" where
  "server_input_keep_alive v pkt = Done v"

definition server_init_dispatch :: "srv_context \<Rightarrow> nat \<Rightarrow> (server \<Rightarrow> sshbuf \<Rightarrow> server run) option" where
  "server_init_dispatch x type =
     (if type = SSH2_MSG_CHANNEL_CLOSE then Some (of_channels (channel_input_oclose (x_env x)))
      else if type = SSH2_MSG_CHANNEL_DATA then Some (of_channels (channel_input_data (x_env x)))
      else if type = SSH2_MSG_CHANNEL_EOF then Some (of_channels (channel_input_ieof (x_env x)))
      else if type = SSH2_MSG_CHANNEL_EXTENDED_DATA then Some (of_channels (channel_input_extended_data (x_env x)))
      else if type = SSH2_MSG_CHANNEL_OPEN then Some (server_input_channel_open x)
      else if type = SSH2_MSG_CHANNEL_OPEN_CONFIRMATION
      then Some (of_channels (channel_input_open_confirmation (x_env x)))
      else if type = SSH2_MSG_CHANNEL_OPEN_FAILURE then Some (of_channels (channel_input_open_failure (x_env x)))
      else if type = SSH2_MSG_CHANNEL_REQUEST then Some (server_input_channel_req x)
      else if type = SSH2_MSG_CHANNEL_WINDOW_ADJUST then Some (of_channels (channel_input_window_adjust (x_env x)))
      else if type = SSH2_MSG_GLOBAL_REQUEST then Some (server_input_global_request x)
      else if type \<in> {SSH2_MSG_CHANNEL_SUCCESS, SSH2_MSG_CHANNEL_FAILURE, SSH2_MSG_REQUEST_SUCCESS,
                      SSH2_MSG_REQUEST_FAILURE}
      then Some server_input_keep_alive
      else None)"

end
