(* ===== verification/SessionKeeps.thy ===== *)
theory SessionKeeps
  imports SessionReq TableInput
begin

text \<open>
  What the requests for a session keep: the table of sessions with its list of free slots, the soundness
  of the table of channels, and that a forced command is the only one that is run.
\<close>

text \<open>The commands of the children in a list of effects.\<close>

fun children :: "eff list \<Rightarrow> string option list" where
  "children [] = []"
| "children (Run_child c sub tty # xs) = c # children xs"
| "children (_ # xs) = children xs"

lemma children_append [simp]: "children (xs @ ys) = children xs @ children ys"
  by (induction xs rule: children.induct) auto

lemma children_closes [simp]: "children (map Close_fd fds) = []"
  by (induction fds) auto

text \<open>
  \<open>tame x\<close>: a step of the channel layer that keeps its tables sound and its permission lists as they are
  and runs, if there is a forced command, only that.
\<close>

definition tame :: "srv_context \<Rightarrow> ssh \<Rightarrow> ssh \<Rightarrow> bool" where
  "tame x ssh ssh' \<longleftrightarrow>
     (\<exists>fx. s_effects ssh' = s_effects ssh @ fx \<and>
       (\<forall>c. forced_command x = Some c \<longrightarrow> set (children fx) \<subseteq> {Some c})) \<and>
     s_local_perms ssh' = s_local_perms ssh \<and> s_remote_perms ssh' = s_remote_perms ssh \<and>
     (sound ssh \<longrightarrow> sound ssh')"

lemma tame_refl [simp]: "tame x ssh ssh"
  by (auto simp: tame_def)

lemma tame_trans: "tame x a b \<Longrightarrow> tame x b c \<Longrightarrow> tame x a c"
  by (fastforce simp: tame_def)

lemma sound_cong: "chan ssh' = chan ssh \<Longrightarrow> s_local_perms ssh' = s_local_perms ssh \<Longrightarrow> sound ssh' = sound ssh"
  by (simp add: sound_def table_ok_def refs_ok_def live_mux_client_def)

lemma tame_effects:
  assumes "\<And>c. forced_command x = Some c \<Longrightarrow> set (children fx) \<subseteq> {Some c}"
  shows "tame x ssh (ssh\<lparr>s_effects := s_effects ssh @ fx\<rparr>)"
proof -
  have "sound (ssh\<lparr>s_effects := s_effects ssh @ fx\<rparr>) = sound ssh"
    by (rule sound_cong) (simp_all add: chan_def fun_eq_iff)
  with assms show ?thesis by (auto simp: tame_def)
qed

lemma tame_closes: "tame x ssh (closes fds ssh)"
  unfolding closes_def by (rule tame_effects) simp

lemma tame_debug: "tame x ssh (emit (Send_debug t) ssh)"
  unfolding emit_def by (rule tame_effects) simp

lemma tame_send: "tame x ssh (emit (Send p) ssh)"
  unfolding emit_def by (rule tame_effects) simp

lemma tame_slot:
  "sound ssh \<longrightarrow> sound (set_slot i c ssh) \<Longrightarrow> tame x ssh (set_slot i c ssh)"
  by (simp add: tame_def set_slot_def)

lemma tame_ident: "chan ssh i = Some c \<Longrightarrow> same_ident c c' \<Longrightarrow> tame x ssh (set_slot i (Some c') ssh)"
  by (intro tame_slot impI sound_set_slot)

lemma tame_new:
  assumes "channel_new e ssh ctype type rfd wfd efd window maxpack eu name nb = Done (i, ssh')"
  shows "tame x ssh ssh'"
  using channel_new_chan[OF assms] channel_new_table_ok[OF _ assms] channel_new_refs_ok[OF _ assms]
  by (auto simp: tame_def sound_def)

lemma new_slot:
  assumes "channel_new e ssh ctype type rfd wfd efd window maxpack eu name nb = Done (i, ssh1)"
    and "s_channels ssh1 ! i = Some c"
  shows "chan ssh1 i = Some c"
proof -
  from channel_new_chan[OF assms(1)] have "chan ssh1 i \<noteq> None" by auto
  with assms(2) show ?thesis by (auto simp: chan_def split: if_splits)
qed

lemma tame_new_set:
  assumes "channel_new e ssh ctype type rfd wfd efd window maxpack eu name nb = Done (i, ssh1)"
    and "s_channels ssh1 ! i = Some c" "same_ident c c'"
  shows "tame x ssh (set_slot i (Some c') ssh1)"
  by (rule tame_trans[OF tame_new[OF assms(1)] tame_ident[OF new_slot[OF assms(1,2)] assms(3)]])

lemma by_id_chan: "channel_by_id ssh j = Some c \<Longrightarrow> chan ssh (nat j) = Some c"
  by (auto simp: channel_by_id_def chan_def split: if_splits)

lemma tame_xtype: "channel_set_xtype ssh i t = Done ssh' \<Longrightarrow> tame x ssh ssh'"
  by (auto simp: channel_set_xtype_def same_ident_def bufs_ok_def split: option.splits
      dest!: by_id_chan intro!: tame_ident)

lemma tame_cleanup: "tame x ssh (channel_register_cleanup ssh i cb b)" "tame x ssh (channel_cancel_cleanup ssh i)"
  by (auto simp: channel_register_cleanup_def channel_cancel_cleanup_def same_ident_def bufs_ok_def
      split: option.splits dest!: by_id_chan intro!: tame_ident)

lemma tame_set_fds:
  assumes "session_set_fds e s fi fo fe ig tty ssh = Done ssh'"
  shows "tame x ssh ssh'"
proof -
  let ?eu = "if ig then CHAN_EXTENDED_IGNORE else CHAN_EXTENDED_READ"
  from assms obtain c p where c: "channel_lookup ssh (ss_chanid s) = Some c" "c_type c = SSH_CHANNEL_LARVAL"
    and s: "ssh' = emit (Send p) (set_slot (nat (ss_chanid s)) (Some
      ((channel_register_fds e c fo fi fe ?eu CHANNEL_NONBLOCK_SET tty)
        \<lparr>c_type := SSH_CHANNEL_OPEN, c_lastused := e_monotime e, c_local_window := CHAN_SES_WINDOW_DEFAULT,
         c_local_window_max := CHAN_SES_WINDOW_DEFAULT\<rparr>)) ssh)"
    by (auto simp: session_set_fds_def channel_set_fds_def Let_def split: option.splits if_split_asm)
  note i = lookup_chan[OF c(1)]
  have self: "c_self (channel_register_fds e c fo fi fe ?eu CHANNEL_NONBLOCK_SET tty) = c_self c"
    by (simp add: channel_register_fds_def save_flags_def Let_def)
  have "sound ssh \<longrightarrow> sound (set_slot (nat (ss_chanid s)) (Some
      ((channel_register_fds e c fo fi fe ?eu CHANNEL_NONBLOCK_SET tty)
        \<lparr>c_type := SSH_CHANNEL_OPEN, c_lastused := e_monotime e, c_local_window := CHAN_SES_WINDOW_DEFAULT,
         c_local_window_max := CHAN_SES_WINDOW_DEFAULT\<rparr>)) ssh)"
  proof
    assume ok: "sound ssh"
    from i have at: "chan ssh (nat (ss_chanid s)) = Some c" "c_type c \<noteq> SSH_CHANNEL_MUX_CLIENT" by simp_all
    show "sound (set_slot (nat (ss_chanid s)) (Some
      ((channel_register_fds e c fo fi fe ?eu CHANNEL_NONBLOCK_SET tty)
        \<lparr>c_type := SSH_CHANNEL_OPEN, c_lastused := e_monotime e, c_local_window := CHAN_SES_WINDOW_DEFAULT,
         c_local_window_max := CHAN_SES_WINDOW_DEFAULT\<rparr>)) ssh)"
      by (rule sound_retype[OF ok at]) (use soundD[OF ok at(1)] in \<open>simp_all add: self bufs_ok_def frame_simps\<close>)
  qed
  from tame_trans[OF tame_slot[OF this] tame_send] show ?thesis unfolding s .
qed

definition good_req :: "srv_context \<Rightarrow> session \<Rightarrow> ssh \<Rightarrow> session \<times> ssh \<Rightarrow> bool" where
  "good_req x s ssh = (\<lambda>(s', ssh'). same_link s s' \<and> tame x ssh ssh')"

lemma good_trans: "good_req x s ssh (s1, ssh1) \<Longrightarrow> good_req x s1 ssh1 r \<Longrightarrow> good_req x s ssh r"
  using tame_trans by (cases r) (auto simp: good_req_def same_link_def)

lemma keeps_need:
  "(\<And>w p1. keeps P (k w p1)) \<Longrightarrow> keeps P (need_u32 p k)"
  "(\<And>w p1. keeps P (k8 w p1)) \<Longrightarrow> keeps P (need_u8 p k8)"
  "(\<And>w p1. keeps P (kc w p1)) \<Longrightarrow> keeps P (need_cstring e p kc)"
  "keeps P m \<Longrightarrow> keeps P (need_end p m)"
  by (auto simp: keeps_def need_u32_def need_u8_def need_cstring_def need_end_def
      split: sum.splits prod.splits if_splits)

lemma tame_child:
  assumes "\<And>c. forced_command x = Some c \<Longrightarrow> command = Some c"
  shows "tame x ssh (emit (Run_child command sub tty) ssh)"
  unfolding emit_def by (rule tame_effects) (use assms in simp)

lemma exec_no_pty_good:
  assumes f: "\<And>c. forced_command x = Some c \<Longrightarrow> command = Some c"
  shows "keeps (good_req x s ssh) (do_exec_no_pty x s command ssh)"
  unfolding do_exec_no_pty_def Let_def
proof (intro keeps_option keeps_prod keeps_if keeps_Done keeps_then)
  fix pin1 pout0 perr0 pin0 pout1 perr1 ssh2
  assume "session_set_fds (x_env x) (s\<lparr>ss_pid := y_fork (x_sys x)\<rparr>) pin1 pout0 perr0 (ss_is_subsystem s \<noteq> 0) False
      (closes [pin0, pout1, perr1] (emit (Run_child command (ss_is_subsystem s) False) ssh)) = Done ssh2"
  from tame_trans[OF tame_trans[OF tame_child tame_closes] tame_set_fds[OF this]] f
  show "good_req x s ssh (s\<lparr>ss_pid := y_fork (x_sys x)\<rparr>, ssh2)"
    by (simp add: good_req_def same_link_def)
qed (simp_all add: good_req_def same_link_def tame_closes)

lemma exec_pty_good:
  assumes f: "\<And>c. forced_command x = Some c \<Longrightarrow> command = Some c"
  shows "keeps (good_req x s ssh) (do_exec_pty x s command ssh)"
  unfolding do_exec_pty_def Let_def
proof (intro keeps_if keeps_Done keeps_then)
  fix ssh2
  assume "session_set_fds (x_env x) (s\<lparr>ss_pid := y_fork (x_sys x), ss_ptymaster := y_dup (x_sys x) 1\<rparr>)
      (ss_ptyfd s) (y_dup (x_sys x) 0) (-1) True True
      (closes [ss_ttyfd s] (emit (Run_child command (ss_is_subsystem s) True) ssh)) = Done ssh2"
  from tame_trans[OF tame_trans[OF tame_child tame_closes] tame_set_fds[OF this]] f
  show "good_req x s ssh (s\<lparr>ss_pid := y_fork (x_sys x), ss_ptymaster := y_dup (x_sys x) 1\<rparr>, ssh2)"
    by (simp add: good_req_def same_link_def)
qed (simp_all add: good_req_def same_link_def tame_closes)

lemma do_exec_good: "keeps (good_req x s ssh) (do_exec x s command ssh)"
proof -
  define s1 where "s1 = (case forced_command x of
                  None \<Rightarrow> s\<lparr>ss_forced := False\<rparr>
                | Some c \<Rightarrow> s\<lparr>ss_forced := True, ss_is_subsystem :=
                    (if IS_INTERNAL_SFTP c
                     then (if ss_is_subsystem s \<noteq> 0 then SUBSYSTEM_INT_SFTP else SUBSYSTEM_INT_SFTP_ERROR)
                     else if ss_is_subsystem s \<noteq> 0 then SUBSYSTEM_EXT else ss_is_subsystem s)\<rparr>)"
  define command1 where "command1 = (case forced_command x of Some c \<Rightarrow> Some c | None \<Rightarrow> command)"
  have f: "forced_command x = Some c \<Longrightarrow> command1 = Some c" for c by (simp add: command1_def)
  have s1: "same_link s s1" by (auto simp: s1_def same_link_def split: option.splits)
  have "keeps (good_req x s1 ssh) (do_exec x s command ssh)"
    unfolding do_exec_def Let_def s1_def[symmetric] command1_def[symmetric]
    by (intro keeps_if exec_pty_good exec_no_pty_good) (rule f, assumption)+
  then show ?thesis using s1 good_trans[of x s ssh s1 ssh] by (auto simp: keeps_def good_req_def)
qed

lemma good_link: "same_link s s' \<Longrightarrow> good_req x s ssh (s', ssh)"
  by (simp add: good_req_def)

lemma good_from:
  assumes "keeps (good_req x s1 ssh1) m" "same_link s s1" "tame x ssh ssh1"
  shows "keeps (good_req x s ssh) m"
  using assms good_trans[of x s ssh s1 ssh1] by (auto simp: keeps_def good_req_def)

lemma simple_reqs_good:
  "keeps (good_req x s ssh) (session_window_change_req pkt s ssh)"
  "keeps (good_req x s ssh) (session_break_req x pkt s ssh)"
  "keeps (good_req x s ssh) (session_env_req x pkt s ssh)"
  "keeps (good_req x s ssh) (session_signal_req x pkt s ssh)"
  unfolding session_window_change_req_def session_break_req_def session_env_req_def session_signal_req_def
  by (intro keeps_need keeps_if keeps_Done good_link | simp add: same_link_def set_winsize_def)+

lemma pty_req_good: "keeps (good_req x s ssh) (session_pty_req x pkt s ssh)"
  unfolding session_pty_req_def Let_def
  by (intro keeps_need keeps_if keeps_Done keeps_exit keeps_option keeps_prod keeps_then good_link
      | simp add: same_link_def set_winsize_def)+

lemma xtype_exec_good:
  "keeps (good_req x s ssh) (andThen (channel_set_xtype ssh i t) (do_exec x s command))"
proof (rule keeps_then)
  fix ssh1 assume "channel_set_xtype ssh i t = Done ssh1"
  from tame_xtype[OF this, of x] show "keeps (good_req x s ssh) (do_exec x s command ssh1)"
    by (intro good_from[OF do_exec_good]) (simp_all add: same_link_def)
qed

lemma exec_reqs_good:
  "keeps (good_req x s ssh) (session_shell_req x pkt s ssh)"
  "keeps (good_req x s ssh) (session_exec_req x pkt s ssh)"
  unfolding session_shell_req_def session_exec_req_def
  by (intro keeps_need xtype_exec_good)+

lemma subsystem_req_good: "keeps (good_req x s ssh) (session_subsystem_req x pkt s ssh)"
  unfolding session_subsystem_req_def Let_def
proof (intro keeps_need keeps_option keeps_prod)
  show "keeps (good_req x s ssh) (Done (False, s\<lparr>ss_subsys := Some w\<rparr>, ssh))" for w
    by (intro keeps_Done good_link) (simp add: same_link_def)
  show "keeps (good_req x s ssh) (andThen (channel_set_xtype ssh i t) (do_exec x
      (s\<lparr>ss_subsys := Some w, ss_is_subsystem := n\<rparr>) command))" for w n i t command
    by (rule good_from[OF xtype_exec_good]) (simp_all add: same_link_def)
qed

lemma x11_bind_quiet:
  "x11_bind nt y ais socks fx = Bound s fx' \<Longrightarrow> children fx = [] \<Longrightarrow> children fx' = []"
  "x11_bind nt y ais socks fx = Bind_failed fx' \<Longrightarrow> children fx = [] \<Longrightarrow> children fx' = []"
  by (induction ais arbitrary: socks fx) (auto simp: Let_def split: if_splits)

lemma x11_find_quiet:
  "x11_find_display nt y lh ds fx = (r, fx') \<Longrightarrow> children fx = [] \<Longrightarrow> children fx' = []"
  by (induction ds arbitrary: fx)
    (auto split: option.splits bind_res.splits if_splits dest: x11_bind_quiet)

lemma x11_channels_tame: "x11_channels e single socks ssh = Done (ids, ssh') \<Longrightarrow> tame x ssh ssh'"
proof (induction socks arbitrary: ssh ids)
  case (Cons sock socks)
  from Cons.prems obtain i ssh1 c ids1 where
    n: "channel_new e ssh ''x11-listener'' SSH_CHANNEL_X11_LISTENER sock sock (-1)
      CHAN_X11_WINDOW_DEFAULT CHAN_X11_PACKET_DEFAULT CHAN_EXTENDED_IGNORE
      ''X11 inet listener'' CHANNEL_NONBLOCK_SET = Done (i, ssh1)"
    and c: "s_channels ssh1 ! i = Some c"
    and r: "x11_channels e single socks (set_slot i (Some (c\<lparr>c_single_connection := single\<rparr>)) ssh1) = Done (ids1, ssh')"
    by (auto simp: andThen_Done split: option.splits)
  have "tame x ssh (set_slot i (Some (c\<lparr>c_single_connection := single\<rparr>)) ssh1)"
    by (rule tame_new_set[OF n c]) (simp add: same_ident_def bufs_ok_def)
  from tame_trans[OF this Cons.IH[OF r]] show ?case .
qed simp

lemma x11_create_tame: "x11_create_display_inet x single ssh = Done (r, ssh') \<Longrightarrow> tame x ssh ssh'"
proof -
  assume res: "x11_create_display_inet x single ssh = Done (r, ssh')"
  obtain r1 fx where f: "x11_find_display (x_net x) (x_sys x) (o_x11_use_localhost (x_opts x))
      [o_x11_display_offset (x_opts x)..<MAX_DISPLAYS] [] = (r1, fx)" by fastforce
  have q: "tame x ssh (ssh\<lparr>s_effects := s_effects ssh @ fx\<rparr>)"
    using x11_find_quiet[OF f] by (intro tame_effects) simp
  have "ssh' = ssh\<lparr>s_effects := s_effects ssh @ fx\<rparr> \<or>
      (\<exists>sock. ssh' = closes [sock] (ssh\<lparr>s_effects := s_effects ssh @ fx\<rparr>)) \<or>
      (\<exists>socks ids. x11_channels (x_env x) single socks (ssh\<lparr>s_effects := s_effects ssh @ fx\<rparr>) = Done (ids, ssh'))"
    using res unfolding x11_create_display_inet_def f Let_def prod.case
    by (auto simp: andThen_Done split: option.splits)
  then show "tame x ssh ssh'"
    using q tame_trans[OF q tame_closes] tame_trans[OF q x11_channels_tame] by blast
qed

lemma register_all_tame: "tame x ssh (register_all cb ids ssh)"
proof (induction ids arbitrary: ssh)
  case (Cons i ids)
  show ?case using tame_trans[OF tame_cleanup(1) Cons.IH] by simp
qed simp

lemma setup_x11_good: "keeps (good_req x s ssh) (session_setup_x11fwd x s ssh)"
  unfolding session_setup_x11fwd_def Let_def
proof (intro keeps_if keeps_Done keeps_then keeps_prod keeps_option keeps_exit)
  fix p r ssh1 dids d ids hostname disp auth
  assume c: "x11_create_display_inet x (ss_single_connection s \<noteq> 0) ssh = Done p" "p = (r, ssh1)"
  note q = x11_create_tame[OF c(1)[unfolded c(2)]]
  show "good_req x s ssh (s, ssh1)" using q by (simp add: good_req_def same_link_def)
  have "tame x ssh (register_all SESSION_CLOSE_SINGLE_X11 ids ssh1)"
    by (rule tame_trans[OF q register_all_tame])
  then show "good_req x s ssh (s\<lparr>ss_x11_chanids := Some ids, ss_display := Some disp, ss_auth_display := Some auth\<rparr>,
      register_all SESSION_CLOSE_SINGLE_X11 ids ssh1)"
    by (simp add: good_req_def same_link_def)
qed (simp_all add: good_req_def same_link_def tame_debug)

lemma x11_req_good: "keeps (good_req x s ssh) (session_x11_req x pkt s ssh)"
  unfolding session_x11_req_def Let_def
proof (intro keeps_if keeps_need keeps_Done)
  fix single proto data screen
  let ?s1 = "s\<lparr>ss_auth_proto := Some proto, ss_auth_data := Some data, ss_screen := screen,
      ss_single_connection := single\<rparr>"
  have m: "keeps (good_req x s ssh) (if b then session_setup_x11fwd x ?s1 ssh else Done (False, ?s1, ssh))" for b
    by (intro keeps_if good_from[OF setup_x11_good] keeps_Done good_link) (simp_all add: same_link_def)
  show "keeps (good_req x s ssh) (andThen (if b then session_setup_x11fwd x ?s1 ssh else Done (False, ?s1, ssh))
      (\<lambda>(ok, s2, ssh1). Done (ok, if ok then s2 else s2\<lparr>ss_auth_proto := None, ss_auth_data := None\<rparr>, ssh1)))" for b
    by (rule keeps_andThen[OF m]) (auto simp: keeps_def good_req_def same_link_def split: if_splits)
qed (simp add: good_link same_link_def)

text \<open>The table of sessions and the children, after any request.\<close>

definition good_server :: "srv_context \<Rightarrow> int \<Rightarrow> server \<Rightarrow> server \<Rightarrow> bool" where
  "good_server x m v v' \<longleftrightarrow> sessions_ok m v' \<and> used_sessions v' = used_sessions v \<and> tame x (v_ssh v) (v_ssh v')"

lemma on_session_good:
  assumes ok: "sessions_ok m v" and h: "keeps (good_req x (v_sessions v ! i) (v_ssh v)) (h (v_sessions v ! i) (v_ssh v))"
  shows "keeps (good_server x m v) (on_session i h v)"
  unfolding on_session_def
proof (rule keeps_andThen[OF h])
  fix ok1 r assume "good_req x (v_sessions v ! i) (v_ssh v) r"
  moreover obtain s ssh1 where "r = (s, ssh1)" by fastforce
  ultimately have "same_link (v_sessions v ! i) s" "tame x (v_ssh v) ssh1" by (simp_all add: good_req_def)
  then show "keeps (good_server x m v) (case (ok1, r) of (ok, s, ssh1) \<Rightarrow>
      Done (ok, upd_session i (\<lambda>_. s) (v\<lparr>v_ssh := ssh1\<rparr>)))"
    using sessions_ok_upd[of m "v\<lparr>v_ssh := ssh1\<rparr>" i "\<lambda>_. s"] ok \<open>r = (s, ssh1)\<close>
    by (simp add: keeps_def good_server_def)
qed

lemma agent_req_good:
  assumes "sessions_ok m v" shows "keeps (good_server x m v) (session_auth_agent_req x pkt v)"
proof -
  have v: "good_server x m v (v\<lparr>v_agent_called := True\<rparr>)" using assms
    by (simp add: good_server_def sessions_ok_def used_sessions_def)
  have "keeps (good_server x m v) (auth_input_request_forwarding x w)"
    if w: "sessions_ok m w" "used_sessions w = used_sessions v" "v_ssh w = v_ssh v" for w
    unfolding auth_input_request_forwarding_def Let_def
  proof (intro keeps_if keeps_Done keeps_option keeps_then keeps_prod keeps_exit)
    fix path sock p i ssh1 c
    assume n: "channel_new (x_env x) (v_ssh w) ''auth-listener'' SSH_CHANNEL_AUTH_SOCKET sock sock (-1)
      CHAN_X11_WINDOW_DEFAULT CHAN_X11_PACKET_DEFAULT CHAN_EXTENDED_IGNORE ''auth socket''
      CHANNEL_NONBLOCK_SET = Done p" "p = (i, ssh1)"
    assume c: "s_channels ssh1 ! i = Some c"
    have "tame x (v_ssh w) (set_slot i (Some (c\<lparr>c_path := Some path\<rparr>)) ssh1)"
      by (rule tame_new_set[OF n(1)[unfolded n(2)] c]) (simp add: same_ident_def bufs_ok_def)
    then show "good_server x m v (w\<lparr>v_ssh := set_slot i (Some (c\<lparr>c_path := Some path\<rparr>)) ssh1,
        v_auth_sock_name := Some path\<rparr>)"
      using w
      by (simp add: good_server_def sessions_ok_def used_sessions_def)
  qed (use w in \<open>simp_all add: good_server_def tame_debug tame_closes\<close>)
  then have "keeps (good_server x m v) (auth_input_request_forwarding x (v\<lparr>v_agent_called := True\<rparr>))"
    using v by (simp add: good_server_def)
  then show ?thesis unfolding session_auth_agent_req_def
    by (intro keeps_need keeps_if keeps_Done) (use assms in \<open>simp_all add: good_server_def\<close>)
qed

lemma good_server_trans: "good_server x m a b \<Longrightarrow> good_server x m b c \<Longrightarrow> good_server x m a c"
  using tame_trans by (auto simp: good_server_def)

lemma session_input_good:
  assumes ok: "sessions_ok m v"
  shows "keeps (good_server x m v) (session_input_channel_req x c rtype pkt v)"
proof -
  have refl: "good_server x m v v" using ok by (simp add: good_server_def)
  have l: "keeps (good_server x m v) (larval_req x i rtype pkt v)" for i
    unfolding larval_req_def
    by (intro keeps_if on_session_good[OF ok] exec_reqs_good pty_req_good x11_req_good agent_req_good[OF ok]
        subsystem_req_good simple_reqs_good keeps_Done refl)
  have m: "keeps (good_server x m v)
      (if c_type c = SSH_CHANNEL_LARVAL then larval_req x i rtype pkt v else Done (False, v))" for i
    by (intro keeps_if l keeps_Done refl)
  have k: "keeps (good_server x m v)
      (case (ok1, v1) of (ok, v1) \<Rightarrow>
         if rtype = ''window-change'' then on_session i (session_window_change_req pkt) v1
         else if rtype = ''break'' then on_session i (session_break_req x pkt) v1
         else if rtype = ''signal'' then on_session i (session_signal_req x pkt) v1
         else Done (ok, v1))" if g: "good_server x m v v1" for ok1 v1 i
  proof -
    have "sessions_ok m v1" using g by (simp add: good_server_def)
    note os = on_session_good[OF this, of x i]
    have "keeps (good_server x m v1) (if rtype = ''window-change'' then on_session i (session_window_change_req pkt) v1
         else if rtype = ''break'' then on_session i (session_break_req x pkt) v1
         else if rtype = ''signal'' then on_session i (session_signal_req x pkt) v1
         else Done (ok1, v1))"
      by (intro keeps_if os simple_reqs_good keeps_Done) (use g in \<open>simp add: good_server_def\<close>)
    then show ?thesis using good_server_trans[OF g] by (auto simp: keeps_def)
  qed
  show ?thesis unfolding session_input_channel_req_def
    by (intro keeps_option keeps_Done refl keeps_andThen[OF m] k)
qed

end
