(* ===== verification/ServerKeeps.thy ===== *)
theory ServerKeeps
  imports ServerLoop SessionKeeps
begin

text \<open>
  What the server's handlers keep: whatever a client sends, the tables of channels and of sessions stay
  sound. \<open>server_step\<close> is a message of the client, or the end of a child or of a channel of a session.
\<close>

section \<open>Channels that are made\<close>

lemma sound_effects [simp]: "sound (ssh\<lparr>s_effects := fx\<rparr>) = sound ssh"
  by (rule sound_cong) (simp_all add: chan_def fun_eq_iff)

lemma sound_closes [simp]: "sound (closes fds ssh) = sound ssh"
  by (simp add: closes_def)

lemma sound_new:
  "sound ssh \<Longrightarrow> channel_new e ssh ctype type rfd wfd efd window maxpack eu name nb = Done (i, ssh') \<Longrightarrow> sound ssh'"
  using channel_new_table_ok[of ssh e] channel_new_refs_ok[of ssh e] unfolding sound_def by auto

lemma keeps_new:
  assumes s: "sound ssh"
    and k: "\<And>i ssh1 c. sound ssh1 \<Longrightarrow> chan ssh1 i = Some c \<Longrightarrow> keeps P (k i ssh1 c)"
  shows "keeps P (andThen (channel_new e ssh ctype type rfd wfd efd window maxpack eu name nb)
    (\<lambda>(i, ssh1). case s_channels ssh1 ! i of None \<Rightarrow> Fatal | Some c \<Rightarrow> k i ssh1 c))"
proof (intro keeps_then keeps_prod keeps_option keeps_exit)
  fix p i ssh1 c
  assume n: "channel_new e ssh ctype type rfd wfd efd window maxpack eu name nb = Done p" "p = (i, ssh1)"
    and c: "s_channels ssh1 ! i = Some c"
  note n1 = n(1)[unfolded n(2)]
  show "keeps P (k i ssh1 c)" by (rule k[OF sound_new[OF s n1] new_slot[OF n1 c]])
qed

lemma ident_plain:
  "same_ident c (c\<lparr>c_host_port := p, c_path := q, c_connect_ctx := x\<rparr>)"
  "same_ident c (c\<lparr>c_path := q, c_host_port := p, c_listening_addr := a, c_listening_port := l\<rparr>)"
  "same_ident c (c\<lparr>c_path := q, c_host_port := p, c_listening_port := l, c_listening_addr := a\<rparr>)"
  "same_ident c (c\<lparr>c_datagram := b\<rparr>)"
  "same_ident c (c\<lparr>c_input_filter := f1, c_output_filter := f2, c_filter_ctx := f3, c_filter_cleanup := f4\<rparr>)"
  "same_ident c (c\<lparr>c_remote_id := rid, c_have_remote_id := h, c_remote_window := w, c_remote_maxpacket := mp\<rparr>)"
  by (simp_all add: same_ident_def bufs_ok_def)

lemma connect_to_sound:
  assumes "sound ssh" shows "keeps sound (connect_to e nt ssh host port ctype rname)"
  unfolding connect_to_def
proof (rule keeps_then)
  fix res show "keeps sound (case res of
          Connect_failed fx \<Rightarrow> Done (None, ssh\<lparr>s_effects := s_effects ssh @ fx\<rparr>)
        | Connected sock cctx fx \<Rightarrow>
          andThen (channel_new e (ssh\<lparr>s_effects := s_effects ssh @ fx\<rparr>) ctype SSH_CHANNEL_CONNECTING
                     sock sock (-1) CHAN_TCP_WINDOW_DEFAULT CHAN_TCP_PACKET_DEFAULT
                     CHAN_EXTENDED_IGNORE rname CHANNEL_NONBLOCK_SET)
            (\<lambda>(i, ssh1).
               case s_channels ssh1 ! i of
                 None \<Rightarrow> Fatal
               | Some c \<Rightarrow> Done (Some i, set_slot i (Some (c\<lparr>c_host_port := port, c_path := Some host,
                                                    c_connect_ctx := cctx\<rparr>)) ssh1)))"
    by (cases res)
      (simp_all, auto intro!: keeps_Done keeps_new sound_set_slot ident_plain simp: assms)
qed

lemma connect_to_port_sound:
  "sound ssh \<Longrightarrow> keeps (\<lambda>(_, s). sound s) (channel_connect_to_port e nt ssh host port ctype rname)"
  unfolding channel_connect_to_port_def
  by (intro keeps_if keeps_Done keeps_andThen[OF connect_to_sound]) (auto simp: keeps_def)

lemma connect_to_path_sound:
  "sound ssh \<Longrightarrow> keeps sound (channel_connect_to_path e nt ssh path ctype rname)"
  unfolding channel_connect_to_path_def by (intro keeps_if keeps_Done connect_to_sound)

lemma listen_one_sound:
  "sound ssh \<Longrightarrow> keeps (\<lambda>(_, s). sound s) (listen_one e nt type fwd host addr ai alloc ssh)"
  unfolding listen_one_def Let_def
  by (intro keeps_if keeps_Done keeps_new) (auto intro: sound_set_slot ident_plain)

lemma listen_loop_sound:
  "sound ssh \<Longrightarrow> keeps (\<lambda>(_, s). sound s) (listen_loop e nt type fwd host addr ais alloc success ssh)"
proof (induction ais arbitrary: alloc success ssh)
  case (Cons ai ais)
  show ?case unfolding listen_loop.simps
    by (rule keeps_andThen[OF listen_one_sound[OF Cons.prems]]) (auto intro: Cons.IH)
qed (simp add: keeps_def)

lemma setup_tcpip_sound:
  "sound ssh \<Longrightarrow> keeps (\<lambda>(_, s). sound s) (channel_setup_fwd_listener_tcpip e nt ssh type fwd wp fo)"
  unfolding channel_setup_fwd_listener_tcpip_def Let_def
  by (intro keeps_option keeps_if keeps_Done keeps_exit keeps_prod listen_loop_sound) auto

lemma setup_streamlocal_sound:
  "sound ssh \<Longrightarrow> keeps sound (channel_setup_fwd_listener_streamlocal e nt ssh type fwd fo)"
  unfolding channel_setup_fwd_listener_streamlocal_def Let_def
  by (intro keeps_prod keeps_option keeps_if keeps_Done keeps_new sound_set_slot)
    (auto simp: same_ident_def bufs_ok_def)

lemma setup_remote_sound:
  "sound ssh \<Longrightarrow> keeps (\<lambda>(_, s). sound s) (channel_setup_remote_fwd_listener e nt ssh fwd wp fo)"
  unfolding channel_setup_remote_fwd_listener_def
  by (intro keeps_if keeps_Done setup_tcpip_sound keeps_andThen[OF setup_streamlocal_sound])
    (auto intro: keeps_Done)

lemma cancel_loop_sound:
  "sound ssh \<Longrightarrow> set is \<subseteq> {..<length (s_channels ssh)} \<Longrightarrow> keeps sound (cancel_loop e sel is found ssh)"
proof (induction "is" arbitrary: found ssh)
  case (Cons i "is")
  show ?case unfolding cancel_loop.simps
  proof (intro keeps_option keeps_if keeps_then)
    fix c ssh1 assume c: "s_channels ssh ! i = Some c" and f: "channel_free e ssh i = Done ssh1"
    have i: "chan ssh i = Some c" using c Cons.prems(2) by (simp add: chan_def)
    have "sound ssh1" using Cons.prems(1) channel_free_table_ok[OF _ f i] channel_free_refs_ok[OF _ f i]
      by (simp add: sound_def)
    with channel_free_chan(4)[OF f i] Cons.prems(2) show "keeps sound (cancel_loop e sel is True ssh1)"
      by (intro Cons.IH) auto
  qed (use Cons in auto)
qed (simp add: keeps_def)

lemma cancel_rport_sound: "sound ssh \<Longrightarrow> keeps sound (channel_cancel_rport_listener e ssh fwd)"
  unfolding channel_cancel_rport_listener_def channel_cancel_rport_listener_tcpip_def
    channel_cancel_rport_listener_streamlocal_def
  by (intro keeps_option keeps_exit cancel_loop_sound) (auto simp: slots_def)

section \<open>The handlers\<close>

text \<open>\<open>server_ok\<close>: the table of channels and the table of sessions are sound.\<close>

definition server_ok :: "int \<Rightarrow> server \<Rightarrow> bool" where
  "server_ok m v \<longleftrightarrow> sessions_ok m v \<and> sound (v_ssh v)"

lemma server_ok_ssh: "server_ok m v \<Longrightarrow> sound s \<Longrightarrow> server_ok m (v\<lparr>v_ssh := s\<rparr>)"
  by (simp add: server_ok_def)

lemma server_ok_fields:
  "server_ok m (v\<lparr>v_tun_ifnames := t\<rparr>) = server_ok m v" "server_ok m (v\<lparr>v_no_more_sessions := b\<rparr>) = server_ok m v"
  by (simp_all add: server_ok_def sessions_ok_def)

lemma direct_tcpip_sound: "sound ssh \<Longrightarrow> keeps sound (server_request_direct_tcpip x pkt ssh)"
  unfolding server_request_direct_tcpip_def
  by (intro keeps_need keeps_if keeps_Done keeps_andThen[OF connect_to_port_sound]) (auto simp: keeps_def)

lemma direct_streamlocal_sound: "sound ssh \<Longrightarrow> keeps sound (server_request_direct_streamlocal x pkt ssh)"
  unfolding server_request_direct_streamlocal_def
  by (intro keeps_need keeps_if keeps_Done keeps_exit keeps_andThen[OF connect_to_path_sound]) (auto simp: keeps_def)

lemma on_ssh_ok: "server_ok m v \<Longrightarrow> keeps sound (h (v_ssh v)) \<Longrightarrow> keeps (server_ok m) (on_ssh h v)"
  unfolding on_ssh_def by (rule keeps_andThen[where Q = sound]) (auto intro: keeps_Done server_ok_ssh)

lemma lookup_by_id_chan: "channel_lookup ssh j = Some c \<Longrightarrow> chan ssh (nat j) = Some c"
  using lookup_chan by blast

lemma register_filter_sound: "sound ssh \<Longrightarrow> sound (channel_register_filter ssh j f1 f2 f3 f4)"
  by (auto simp: channel_register_filter_def split: option.split dest!: lookup_by_id_chan
      intro!: sound_set_slot ident_plain)

lemma cleanup_sound: "sound ssh \<Longrightarrow> sound (channel_register_cleanup ssh i cb b)" "sound ssh \<Longrightarrow> sound (channel_cancel_cleanup ssh i)"
  using tame_cleanup unfolding tame_def by blast+

lemma tun_ok: "server_ok m v \<Longrightarrow> keeps (server_ok m) (server_request_tun x pkt v)"
  unfolding server_request_tun_def Let_def tun_failed_def tun_opened_def
proof (intro keeps_need keeps_if keeps_Done keeps_prod keeps_new)
  fix i ssh1 c b mode t
  assume v: "server_ok m v" and s: "sound ssh1" "chan ssh1 i = Some c"
  have "sound (set_slot i (Some (c\<lparr>c_datagram := True\<rparr>)) ssh1)" by (rule sound_set_slot[OF s ident_plain(4)])
  then show "server_ok m (v\<lparr>v_ssh := if mode = SSH_TUNMODE_POINTOPOINT
       then channel_register_filter (set_slot i (Some (c\<lparr>c_datagram := True\<rparr>)) ssh1) (int i)
              (Some SYS_TUN_INFILTER) (Some SYS_TUN_OUTFILTER) None None
       else set_slot i (Some (c\<lparr>c_datagram := True\<rparr>)) ssh1, v_tun_ifnames := t\<rparr>)"
    using v by (simp add: server_ok_fields server_ok_ssh register_filter_sound)
qed (auto simp: server_ok_def)

text \<open>A table that could not grow ended the process: what is left is as with memory.\<close>

lemma session_open_grow:
  assumes "session_open grow m u chid v = Done r" shows "session_open (\<lambda>_. True) m u chid v = Done r"
proof -
  have n: "session_new (\<lambda>_. True) m v = Done q" if "session_new grow m v = Done q" for q
    using that by (auto simp: session_new_def andThen_Done split: if_split_asm)
  from assms obtain q where q: "session_new grow m v = Done q" unfolding session_open_def andThen_Done by blast
  from assms show ?thesis unfolding session_open_def q n[OF q] .
qed

lemma session_open_keeps:
  assumes ok: "sessions_ok m v" and res: "session_open grow m u chid v = Done (b, v1)"
  shows "sessions_ok m v1 \<and> v_ssh v1 = v_ssh v"
  by (cases rule: session_open_result[where grow = "\<lambda>_. True" and u = u and chid = chid, OF ok TrueI])
    (use session_open_grow[OF res] ok in auto)

lemma session_ok:
  assumes v: "server_ok (o_max_sessions (x_opts x)) v"
  shows "keeps (server_ok (o_max_sessions (x_opts x))) (server_request_session x pkt v)"
proof -
  let ?m = "o_max_sessions (x_opts x)"
  show ?thesis unfolding server_request_session_def
  proof (intro keeps_need keeps_if keeps_exit keeps_then keeps_prod keeps_Done)
    fix p i ssh1 q ok v1 ssh2
    assume n: "channel_new (x_env x) (v_ssh v) ''session'' SSH_CHANNEL_LARVAL (-1) (-1) (-1) 0
                  CHAN_SES_PACKET_DEFAULT CHAN_EXTENDED_IGNORE ''server-session'' CHANNEL_NONBLOCK_SET = Done p"
        "p = (i, ssh1)"
      and o: "session_open (y_grow (x_sys x)) ?m (x_user_ok x) (int i) (v\<lparr>v_ssh := ssh1\<rparr>) = Done q" "q = (ok, v1)"
    have s1: "sound ssh1" using sound_new[OF _ n(1)[unfolded n(2)]] v by (simp add: server_ok_def)
    have "sessions_ok ?m (v\<lparr>v_ssh := ssh1\<rparr>)" using v by (simp add: server_ok_def)
    from session_open_keeps[OF this o(1)[unfolded o(2)]]
    have v1: "sessions_ok ?m v1" "v_ssh v1 = ssh1" by simp_all
    then have ok1: "server_ok ?m v1" using s1 by (simp add: server_ok_def)
    show "server_ok ?m (v1\<lparr>v_ssh := channel_register_cleanup (v_ssh v1) (int i) (Some SESSION_CLOSE_BY_CHANNEL) False\<rparr>)"
      using ok1 by (intro server_ok_ssh cleanup_sound) (simp_all add: server_ok_def)
    assume f: "channel_free (x_env x) (v_ssh v1) i = Done ssh2"
    have "chan (v_ssh v1) i \<noteq> None" using channel_new_chan[OF n(1)[unfolded n(2)]] by (auto simp: v1(2))
    then obtain c where "chan (v_ssh v1) i = Some c" by auto
    with channel_free_table_ok[OF _ f] channel_free_refs_ok[OF _ f] ok1
    have "sound ssh2" by (simp add: server_ok_def sound_def)
    then show "server_ok ?m (v1\<lparr>v_ssh := ssh2\<rparr>)" by (rule server_ok_ssh[OF ok1])
  qed
qed

lemma answer_sound: "sound ssh \<Longrightarrow> answer_open e rchan rw rm r ssh = Done ssh' \<Longrightarrow> sound ssh'"
  unfolding answer_open_def Let_def
  by (auto split: option.splits if_splits intro!: sound_set_slot ident_plain)

text \<open>\<open>stays P m\<close>: a computation that only returns a state.\<close>

definition stays :: "('s \<Rightarrow> bool) \<Rightarrow> 's run \<Rightarrow> bool" where
  "stays P m \<longleftrightarrow> (\<forall>s. m = Done s \<longrightarrow> P s)"

lemma stays_Done: "P s \<Longrightarrow> stays P (Done s)" and stays_exit: "stays P Fatal" "stays P Disconnect"
  by (simp_all add: stays_def)

lemma stays_if: "(b \<Longrightarrow> stays P m) \<Longrightarrow> (\<not> b \<Longrightarrow> stays P n) \<Longrightarrow> stays P (if b then m else n)"
  by simp

lemma stays_option:
  "(x = None \<Longrightarrow> stays P m) \<Longrightarrow> (\<And>y. x = Some y \<Longrightarrow> stays P (f y)) \<Longrightarrow>
   stays P (case x of None \<Rightarrow> m | Some y \<Rightarrow> f y)"
  by (cases x) auto

lemma stays_keeps: "keeps Q m \<Longrightarrow> (\<And>r s. Q s \<Longrightarrow> stays P (k (r, s))) \<Longrightarrow> stays P (andThen m k)"
  by (cases m) (auto simp: keeps_def stays_def)

lemma stays_need:
  "(\<And>w p1. stays P (k w p1)) \<Longrightarrow> stays P (need_u32 p k)"
  "(\<And>w p1. stays P (k8 w p1)) \<Longrightarrow> stays P (need_u8 p k8)"
  "(\<And>w p1. stays P (kc w p1)) \<Longrightarrow> stays P (need_cstring e p kc)"
  "stays P m \<Longrightarrow> stays P (need_end p m)"
  by (auto simp: stays_def need_u32_def need_u8_def need_cstring_def need_end_def
      split: sum.splits prod.splits if_splits)

lemma open_ok:
  assumes v: "server_ok (o_max_sessions (x_opts x)) v"
  shows "stays (server_ok (o_max_sessions (x_opts x))) (server_input_channel_open x v pkt)"
proof -
  let ?m = "o_max_sessions (x_opts x)"
  have s: "sound (v_ssh v)" using v by (simp add: server_ok_def)
  have o: "keeps (server_ok ?m) (open_by_type x ctype p v)" for ctype p
    unfolding open_by_type_def
    by (intro keeps_if session_ok[OF v] tun_ok[OF v] on_ssh_ok[OF v] direct_tcpip_sound[OF s]
        direct_streamlocal_sound[OF s] keeps_Done v)
  have a: "stays (server_ok ?m) (andThen (answer_open e rchan rw rm r (v_ssh v1)) (\<lambda>ssh1. Done (v1\<lparr>v_ssh := ssh1\<rparr>)))"
    if "server_ok ?m v1" for e rchan rw rm r v1
    using answer_sound[of "v_ssh v1" e rchan rw rm r] that
    by (auto simp: stays_def andThen_Done server_ok_def)
  show ?thesis unfolding server_input_channel_open_def
    by (intro stays_need stays_keeps[OF o]) (simp add: a)
qed

lemma req_tcpip_ok: "server_ok m v \<Longrightarrow> keeps (server_ok m) (req_tcpip_forward x w pkt v)"
  unfolding req_tcpip_forward_def Let_def
proof (intro keeps_need keeps_andThen[where Q = "\<lambda>(_, s). sound s"])
  fix host port
  assume v: "server_ok m v"
  then have s: "sound (v_ssh v)" by (simp add: server_ok_def)
  show "keeps (\<lambda>(_, s). sound s) (if \<not> tcpip_forward_ok x w port
             then Done (False, None, emit (Send_debug ''Server has disabled port forwarding.'') (v_ssh v))
             else channel_setup_remote_fwd_listener (x_env x) (x_net x) (v_ssh v)
               (no_forward\<lparr>f_listen_host := Some host, f_listen_port := (if port \<le> INT_MAX then uint port else 0)\<rparr>)
               True (o_fwd_opts (x_opts x)))"
    by (intro keeps_if keeps_Done setup_remote_sound s) (simp add: s)
  show "keeps (server_ok m) (case (ok, r) of (ok, allocated, ssh1) \<Rightarrow>
      andThen (port_reply (x_env x) allocated) (\<lambda>bs. Done ((ok, Some bs), v\<lparr>v_ssh := ssh1\<rparr>)))"
    if "(\<lambda>(_, s). sound s) r" for ok r
    using that v by (auto simp: keeps_def andThen_Done server_ok_def split: prod.splits)
qed

lemma req_streamlocal_ok: "server_ok m v \<Longrightarrow> keeps (server_ok m) (req_streamlocal_forward x pkt v)"
  unfolding req_streamlocal_forward_def
proof (intro keeps_need keeps_andThen[where Q = "\<lambda>(_, s). sound s"])
  fix path
  assume v: "server_ok m v"
  then have s: "sound (v_ssh v)" by (simp add: server_ok_def)
  show "keeps (\<lambda>(_, s). sound s) (if b
          then Done (False, None, emit (Send_debug ''Server has disabled streamlocal forwarding.'') (v_ssh v))
          else channel_setup_remote_fwd_listener (x_env x) (x_net x) (v_ssh v)
                 (no_forward\<lparr>f_listen_path := Some path\<rparr>) False (o_fwd_opts (x_opts x)))" for b
    by (intro keeps_if keeps_Done setup_remote_sound s) (simp add: s)
  show "keeps (server_ok m) (case (ok, r) of (ok, allocated, ssh1) \<Rightarrow> Done ((ok, None), v\<lparr>v_ssh := ssh1\<rparr>))"
    if "(\<lambda>(_, s). sound s) r" for ok r
    using that v by (auto simp: keeps_def server_ok_def split: prod.splits)
qed

lemma req_cancel_ok:
  assumes v: "server_ok m v"
  shows "keeps (server_ok m) (req_cancel_tcpip_forward x pkt v)"
    "keeps (server_ok m) (req_cancel_streamlocal_forward x pkt v)"
proof -
  have s: "sound (v_ssh v)" using v by (simp add: server_ok_def)
  show "keeps (server_ok m) (req_cancel_tcpip_forward x pkt v)"
    "keeps (server_ok m) (req_cancel_streamlocal_forward x pkt v)"
    unfolding req_cancel_tcpip_forward_def req_cancel_streamlocal_forward_def
    by (intro keeps_need keeps_if keeps_Done v keeps_andThen[OF cancel_rport_sound[OF s]];
        simp add: keeps_def server_ok_ssh v)+
qed

lemma global_ok:
  assumes v: "server_ok m v" shows "stays (server_ok m) (server_input_global_request x v pkt)"
proof -
  have g: "keeps (server_ok m) (global_by_type x rtype w p v)" for rtype w p
    unfolding global_by_type_def
    by (intro keeps_if req_tcpip_ok req_cancel_ok req_streamlocal_ok keeps_Done v)
      (simp add: server_ok_fields v)
  show ?thesis unfolding server_input_global_request_def
    by (intro stays_if stays_exit stays_need stays_keeps[OF g])
      (auto simp: Let_def stays_def server_ok_def split: if_splits)
qed

lemma eow_ident: "same_ident (fst st) (fst (chan_rcvd_eow st))"
  by (auto simp: chan_rcvd_eow_def Let_def intro: ident_sets ident_shutdown ident_trans)

lemma channel_req_ok:
  assumes v: "server_ok m v"
  shows "stays (server_ok m) (server_input_channel_req x v pkt)"
  unfolding server_input_channel_req_def
proof (intro stays_need stays_option stays_exit stays_keeps[where Q = "server_ok m"])
  fix chid rtype want p3 c
  assume "(if chid \<ge> INT_MAX then None else channel_lookup (v_ssh v) (uint chid)) = Some c"
  then have c: "chan (v_ssh v) (unat chid) = Some c"
    by (auto simp: nat_uint_eq dest!: lookup_by_id_chan split: if_split_asm)
  have s: "sound (v_ssh v)" "sessions_ok m v" using v by (simp_all add: server_ok_def)
  show "keeps (server_ok m) (if rtype = ''eow@openssh.com''
            then need_end p3 (andThen (on_channel (\<lambda>st. Done (chan_rcvd_eow st)) (unat chid) (v_ssh v))
                   (\<lambda>ssh1. Done (False, v\<lparr>v_ssh := ssh1\<rparr>)))
            else if (c_type c = SSH_CHANNEL_LARVAL \<or> c_type c = SSH_CHANNEL_OPEN) \<and> c_ctype c = ''session''
            then session_input_channel_req x c rtype p3 v
            else Done (False, v))"
  proof (intro keeps_if keeps_need keeps_then keeps_Done)
    fix ssh1 assume r: "on_channel (\<lambda>st. Done (chan_rcvd_eow st)) (unat chid) (v_ssh v) = Done ssh1"
    from sound_on_channel[OF s(1) c r] eow_ident[of "(c, [])"]
    show "server_ok m (v\<lparr>v_ssh := ssh1\<rparr>)" by (intro server_ok_ssh v) simp
  next
    have "keeps (good_server x m v) (session_input_channel_req x c rtype p3 v)" by (rule session_input_good[OF s(2)])
    then show "keeps (server_ok m) (session_input_channel_req x c rtype p3 v)"
      using s(1) by (auto simp: keeps_def good_server_def server_ok_def tame_def)
  qed (rule v)
next
  fix want ok v1 assume "server_ok m v1"
  then show "stays (server_ok m) (case (ok, v1) of (ok, v1) \<Rightarrow> case chan (v_ssh v1) i of
               None \<Rightarrow> Fatal
             | Some c1 \<Rightarrow>
               if want \<noteq> 0 \<and> c_flags c1 AND CHAN_CLOSE_SENT = 0 then
                 if \<not> c_have_remote_id c1 then Fatal
                 else
                   let p = Packet (if ok then SSH2_MSG_CHANNEL_SUCCESS else SSH2_MSG_CHANNEL_FAILURE)
                             [PUT_U32 (c_remote_id c1)]
                   in if e_pkt_ok (x_env x) p then Done (v1\<lparr>v_ssh := emit (Send p) (v_ssh v1)\<rparr>)
                      else Disconnect
               else Done v1)" for want :: u8 and i
    by (auto simp: stays_def Let_def server_ok_def split: option.splits if_splits)
qed

lemma of_channels_ok:
  assumes "server_ok m v" "\<And>ssh'. h (v_ssh v) pkt = Done ssh' \<Longrightarrow> sound ssh'"
  shows "stays (server_ok m) (of_channels h v pkt)"
  using assms by (auto simp: of_channels_def stays_def andThen_Done server_ok_def)

lemma dispatch_ok:
  assumes d: "server_init_dispatch x type = Some h" and pkt: "sshbuf_inv pkt"
    and v: "server_ok (o_max_sessions (x_opts x)) v"
  shows "stays (server_ok (o_max_sessions (x_opts x))) (h v pkt)"
proof -
  have s: "sound (v_ssh v)" using v by (simp add: server_ok_def)
  have k: "stays (server_ok m) (server_input_keep_alive v pkt)" if "server_ok m v" for m
    using that by (simp add: server_input_keep_alive_def stays_Done)
  note c = of_channels_ok[OF v] input_oclose_sound[OF s pkt] input_data_sound[OF s pkt]
    input_ieof_sound[OF s pkt] input_extended_data_sound[OF s pkt]
    input_open_confirmation_sound[OF s pkt] input_open_failure_sound[OF s pkt] input_window_adjust_sound[OF s pkt]
  show ?thesis
    using d unfolding server_init_dispatch_def
    by (simp only: option.inject option.distinct split: if_split_asm)
      (auto intro: c k[OF v] open_ok[OF v] channel_req_ok[OF v] global_ok[OF v])
qed

section \<open>Children and channels that end\<close>

lemma ident_eow2: "chan_send_eow2 e cb st = Done st' \<Longrightarrow> same_ident (fst st) (fst st')"
  by (auto simp: chan_send_eow2_def Let_def send_pkt_def andThen_Done same_ident_def bufs_ok_def split: if_split_asm)

lemma ident_write_failed:
  assumes res: "chan_write_failed e cb st = Done st'" shows "same_ident (fst st) (fst st')"
proof (cases "c_ostate (fst st) = CHAN_OUTPUT_OPEN \<or> c_ostate (fst st) = CHAN_OUTPUT_WAIT_DRAIN")
  case True
  define st1 where "st1 = chan_shutdown_write e st"
  have i1: "same_ident (fst st) (fst st1)" unfolding st1_def by (rule ident_shutdown(1))
  have "chan_write_failed e cb st =
      andThen (if c_ctype (fst st1) = ''session'' then chan_send_eow2 e cb st1 else Done st1)
        (\<lambda>st2. Done (chan_set_ostate CHAN_OUTPUT_CLOSED st2))"
    using True by (simp add: chan_write_failed_def Let_def st1_def)
  note r = res[unfolded this andThen_Done]
  from r obtain st2 where st2: "(if c_ctype (fst st1) = ''session'' then chan_send_eow2 e cb st1 else Done st1) = Done st2"
      "st' = chan_set_ostate CHAN_OUTPUT_CLOSED st2"
    by auto
  from st2(1) have "same_ident (fst st1) (fst st2)" using ident_eow2[of e cb st1 st2] by (auto split: if_split_asm)
  with i1 ident_sets(2) show ?thesis unfolding st2(2) by (meson ident_trans)
qed (use res in \<open>simp add: chan_write_failed_def\<close>)

lemma exit_message_sound:
  assumes s: "sound ssh" and res: "session_exit_message e se status ssh = Done ssh'"
  shows "sound ssh'"
proof -
  from res obtain c where c: "channel_lookup ssh (ss_chanid se) = Some c"
    by (auto simp: session_exit_message_def split: option.splits)
  from res c obtain service args where ex: "exit_request status = Some (service, args)"
    by (auto simp: session_exit_message_def split: option.splits)
  from res[unfolded session_exit_message_def c option.case ex prod.case] obtain o1 where
    o1: "(case o1 of None \<Rightarrow> Fatal
              | Some (Packet ty fs) \<Rightarrow>
                if \<not> e_pkt_ok e (Packet ty (fs @ args)) then Disconnect
                else
                  let ssh1 = channel_register_cleanup (emit (Send (Packet ty (fs @ args))) ssh)
                        (int (c_self c)) (Some SESSION_CLOSE_BY_CHANNEL) True
                  in if c_ostate c \<noteq> CHAN_OUTPUT_CLOSED
                     then on_channel (chan_write_failed e (s_compat ssh1)) (c_self c) ssh1
                     else Done ssh1) = Done ssh'"
    unfolding andThen_Done by blast
  obtain p where r: "(let ssh1 = channel_register_cleanup (emit (Send p) ssh)
                        (int (c_self c)) (Some SESSION_CLOSE_BY_CHANNEL) True
                  in if c_ostate c \<noteq> CHAN_OUTPUT_CLOSED
                     then on_channel (chan_write_failed e (s_compat ssh1)) (c_self c) ssh1
                     else Done ssh1) = Done ssh'"
  proof (cases o1)
    case (Some q)
    obtain ty fs where "q = Packet ty fs" by (cases q)
    with o1 Some that[of "Packet ty (fs @ args)"] show thesis
      by (cases "e_pkt_ok e (Packet ty (fs @ args))") (simp_all only: option.case packet.case if_True if_False
          simp_thms run.distinct run.simps)
  qed (use o1 in simp)
  define ssh1 where "ssh1 = channel_register_cleanup (emit (Send p) ssh)
                        (int (c_self c)) (Some SESSION_CLOSE_BY_CHANNEL) True"
  have s1: "sound ssh1" unfolding ssh1_def by (intro cleanup_sound) (simp add: s)
  have at: "chan ssh (nat (ss_chanid se)) = Some c" using lookup_by_id_chan[OF c] .
  with soundD[OF s at] have self: "chan ssh (c_self c) = Some c" by simp
  then have "channel_by_id (emit (Send p) ssh) (int (c_self c)) = Some c"
    by (auto simp: channel_by_id_def chan_def emit_def split: if_splits)
  then have c1: "chan ssh1 (c_self c) = Some (c\<lparr>c_detach_user := Some SESSION_CLOSE_BY_CHANNEL, c_detach_close := True\<rparr>)"
    using self chan_nth[OF self] by (simp add: ssh1_def channel_register_cleanup_def chan_set_slot emit_def)
  show ?thesis
  proof (cases "c_ostate c \<noteq> CHAN_OUTPUT_CLOSED")
    case True
    with r have o: "on_channel (chan_write_failed e (s_compat ssh1)) (c_self c) ssh1 = Done ssh'"
      by (simp add: ssh1_def Let_def)
    show ?thesis by (rule sound_on_channel[OF s1 c1 o]) (use ident_write_failed in fastforce)
  next
    case False
    with r have "ssh' = ssh1" by (simp add: ssh1_def Let_def)
    with s1 show ?thesis by simp
  qed
qed

lemma close_by_pid_ok:
  assumes v: "server_ok m v" and res: "session_close_by_pid e pid status v = Done v'"
  shows "server_ok m v'"
proof -
  have "sound (v_ssh v')"
    using v res exit_message_sound[of "v_ssh v" e _ status]
    by (auto simp: session_close_by_pid_def server_ok_def Let_def andThen_Done split: option.splits if_split_asm)
  with close_by_pid_result[OF _ res] v show ?thesis by (simp add: server_ok_def)
qed

text \<open>A server multiplexes no clients, so that killing the X11 channels of a session leaves no proxy behind.\<close>

definition no_mux :: "ssh \<Rightarrow> bool" where
  "no_mux ssh \<longleftrightarrow> (\<forall>i c. chan ssh i = Some c \<longrightarrow> c_type c \<noteq> SSH_CHANNEL_MUX_CLIENT)"

lemma no_mux_slot: "no_mux ssh \<Longrightarrow> c_type c \<noteq> SSH_CHANNEL_MUX_CLIENT \<Longrightarrow> no_mux (set_slot i (Some c) ssh)"
  by (auto simp: no_mux_def chan_set_slot)

lemma cancel_cleanup_no_mux: "no_mux ssh \<Longrightarrow> no_mux (channel_cancel_cleanup ssh i)"
proof (cases "channel_by_id ssh i")
  case (Some c)
  assume n: "no_mux ssh"
  then have "c_type c \<noteq> SSH_CHANNEL_MUX_CLIENT" using by_id_chan[OF Some] by (simp add: no_mux_def)
  then show ?thesis using no_mux_slot[OF n] Some by (simp add: channel_cancel_cleanup_def)
qed (simp add: channel_cancel_cleanup_def)

lemma close_x11_keeps:
  assumes s: "sound ssh" "no_mux ssh" and res: "session_close_x11 j ssh = Done ssh'"
  shows "sound ssh' \<and> no_mux ssh'"
proof (cases "channel_by_id ssh j")
  case (Some c)
  define c1 where "c1 = c\<lparr>c_detach_user := None, c_detach_close := False\<rparr>"
  define ssh1 where "ssh1 = channel_cancel_cleanup ssh j"
  have s1: "sound ssh1" "no_mux ssh1" unfolding ssh1_def
    by (rule cleanup_sound[OF s(1)], rule cancel_cleanup_no_mux[OF s(2)])
  have at: "chan ssh (nat j) = Some c" by (rule by_id_chan[OF Some])
  then have c1: "chan ssh1 (nat j) = Some c1"
    using Some chan_nth[OF at] by (simp add: ssh1_def channel_cancel_cleanup_def chan_set_slot c1_def)
  have t: "c_type c \<noteq> SSH_CHANNEL_MUX_CLIENT" using s(2) at by (simp add: no_mux_def)
  have r: "(if c_ostate c \<noteq> CHAN_OUTPUT_CLOSED then on_channel (\<lambda>st. Done (chan_mark_dead st)) (nat j) ssh1
        else Done ssh1) = Done ssh'"
    using res unfolding session_close_x11_def Some option.case Let_def ssh1_def .
  show ?thesis
  proof (cases "c_ostate c \<noteq> CHAN_OUTPUT_CLOSED")
    case True
    let ?c2 = "c1\<lparr>c_type := SSH_CHANNEL_ZOMBIE\<rparr>"
    have w: "ssh' = set_slot (nat j) (Some ?c2) ssh1"
      using r True chan_nth[OF c1] by (auto simp: on_channel_def chan_mark_dead_def set_slot_def andThen_Done)
    have "sound ssh'" unfolding w
      by (rule sound_retype[OF s1(1) c1]) (use t soundD[OF s1(1) c1] in \<open>simp_all add: c1_def bufs_ok_def\<close>)
    moreover have "no_mux ssh'" unfolding w by (rule no_mux_slot[OF s1(2)]) simp
    ultimately show ?thesis ..
  qed (use r s1 in simp)
qed (use s res in \<open>simp add: session_close_x11_def\<close>)

lemma close_x11_ids_keeps:
  "sound ssh \<Longrightarrow> no_mux ssh \<Longrightarrow> close_x11_ids ids ssh = Done ssh' \<Longrightarrow> sound ssh'"
  by (induction ids arbitrary: ssh) (auto simp: andThen_Done dest: close_x11_keeps)

lemma close_by_channel_ok:
  assumes v: "server_ok m v" "no_mux (v_ssh v)" and res: "session_close_by_channel m chid force v = Done v'"
  shows "server_ok m v'"
proof -
  have unused: "v_ssh w' = v_ssh w" if "session_close m i w = Done w'" for i w w'
    using that by (auto simp: session_close_def session_unused_def Let_def split: if_splits)
  have "sound (v_ssh v')"
  proof (cases "session_by_channel v chid")
    case (Some i)
    define s where "s = v_sessions v ! i"
    define v1 where "v1 = (if ss_pid s \<noteq> 0 \<and> ss_ttyfd s \<noteq> -1 then upd_session i session_pty_cleanup v else v)"
    have v1: "v_ssh v1 = v_ssh v" by (simp add: v1_def)
    note r = res[unfolded session_close_by_channel_def Some option.case Let_def, folded s_def, folded v1_def]
    show ?thesis
    proof (cases "ss_pid s \<noteq> 0 \<and> \<not> force")
      case True
      with r have "v' = v1" by simp
      with v v1 show ?thesis by (simp add: server_ok_def)
    next
      case False
      have "(if ss_pid s \<noteq> 0 \<and> \<not> force then a else b) = b" for a b :: "server run" using False by (rule if_not_P)
      from r[unfolded this] obtain ids ssh1 w where
        x: "close_x11_ids ids (channel_cancel_cleanup (v_ssh v1) (ss_chanid s)) = Done ssh1"
        and c: "session_close m i w = Done v'" and w: "v_ssh w = ssh1"
        by (auto simp: andThen_Done)
      have "sound ssh1"
        by (rule close_x11_ids_keeps[OF _ _ x])
          (use v in \<open>simp_all add: v1 cleanup_sound cancel_cleanup_no_mux server_ok_def\<close>)
      then show ?thesis using unused[OF c] w by simp
    qed
  qed (use res v in \<open>simp add: session_close_by_channel_def server_ok_def\<close>)
  with close_by_channel_result(1)[OF _ res] v(1) show ?thesis by (simp add: server_ok_def)
qed

section \<open>A server that runs\<close>

text \<open>
  What happens to a server: a message of the client, the exit of a child, the end of a channel of a session
  and of one of its X11 channels, and the end of the loop.
\<close>

inductive server_step :: "srv_context \<Rightarrow> server \<Rightarrow> server \<Rightarrow> bool" for x where
  Step_client: "server_init_dispatch x type = Some h \<Longrightarrow> sshbuf_inv pkt \<Longrightarrow> h v pkt = Done v' \<Longrightarrow> server_step x v v'"
| Step_exit: "session_close_by_pid (x_env x) pid status v = Done v' \<Longrightarrow> server_step x v v'"
| Step_closed: "no_mux (v_ssh v) \<Longrightarrow>
     session_close_by_channel (o_max_sessions (x_opts x)) chid force v = Done v' \<Longrightarrow> server_step x v v'"
| Step_end: "session_destroy_all (o_max_sessions (x_opts x)) v = Done v' \<Longrightarrow> server_step x v v'"

lemma destroy_ssh: "destroy_from m is v = Done v' \<Longrightarrow> v_ssh v' = v_ssh v"
proof (induction "is" arbitrary: v)
  case (Cons i "is")
  from Cons.prems obtain w where
    w: "(if ss_used (v_sessions v ! i) then session_close m i v else Done v) = Done w" "destroy_from m is w = Done v'"
    by (auto simp: andThen_Done)
  then have "v_ssh w = v_ssh v"
    by (auto simp: session_close_def session_unused_def Let_def split: if_splits)
  with Cons.IH[OF w(2)] show ?case by simp
qed simp

lemma server_step_ok:
  "server_step x v v' \<Longrightarrow> server_ok (o_max_sessions (x_opts x)) v \<Longrightarrow>
   server_ok (o_max_sessions (x_opts x)) v'"
proof (induction rule: server_step.induct)
  case (Step_client type h pkt v v')
  then show ?case using dispatch_ok[of x type h pkt v] by (simp add: stays_def)
next
  case (Step_exit pid status v v')
  then show ?case using close_by_pid_ok by blast
next
  case (Step_closed v chid force v')
  then show ?case using close_by_channel_ok by blast
next
  case (Step_end v v')
  then have ok: "sessions_ok (o_max_sessions (x_opts x)) v" by (simp add: server_ok_def)
  obtain v2 where "destroy_from (o_max_sessions (x_opts x)) [0..<length (v_sessions v)] v = Done v2"
    "sessions_ok (o_max_sessions (x_opts x)) v2"
    by (rule destroy_from_result[OF ok]) auto
  with Step_end destroy_ssh[of _ _ v v'] show ?case by (simp add: session_destroy_all_def server_ok_def)
qed

lemma server_steps_ok:
  "(server_step x)\<^sup>*\<^sup>* v v' \<Longrightarrow> server_ok (o_max_sessions (x_opts x)) v \<Longrightarrow>
   server_ok (o_max_sessions (x_opts x)) v'"
  by (induction rule: rtranclp_induct) (blast intro: server_step_ok)+

text \<open>A server before the first message.\<close>

definition server_start :: "u32 \<Rightarrow> server" where
  "server_start cm = \<lparr>v_ssh = channel_init_channels cm, v_sessions = [], v_first_unused = -1,
     v_no_more_sessions = False, v_agent_called = False, v_auth_sock_name = None, v_tun_ifnames = None\<rparr>"

lemma server_start_ok: "server_ok m (server_start cm)"
  using sound_init by (auto simp: server_ok_def server_start_def intro!: sessions_okI[where us = "[]"])

end
