(* ===== verification/ServerSteady.thy ===== *)
theory ServerSteady
  imports ServerKeeps
begin

text \<open>
  What the handlers of a server leave alone: none of those outside the sessions runs a child or gives a
  permission, and most send nothing.
\<close>

section \<open>Effects of the channel layer\<close>

fun sends :: "eff list \<Rightarrow> packet list" where
  "sends [] = []"
| "sends (Send p # xs) = p # sends xs"
| "sends (_ # xs) = sends xs"

lemma sends_append [simp]: "sends (xs @ ys) = sends xs @ sends ys"
  by (induction xs rule: sends.induct) auto

lemma sends_closes [simp]: "sends (map Close_fd fds) = []"
  by (induction fds) auto

text \<open>
  \<open>lists_shrink\<close>: the permission lists stay, but that entries may be cleared. \<open>steady\<close>: this, and no child
  is run. \<open>quiet\<close>: the lists stay, no child is run and nothing is sent, but for debug messages.
\<close>

definition lists_shrink :: "ssh \<Rightarrow> ssh \<Rightarrow> bool" where
  "lists_shrink ssh ssh' \<longleftrightarrow> s_remote_perms ssh' = s_remote_perms ssh \<and>
     ps_permitted_admin (s_local_perms ssh') = ps_permitted_admin (s_local_perms ssh) \<and>
     ps_all_permitted (s_local_perms ssh') = ps_all_permitted (s_local_perms ssh) \<and>
     set (ps_permitted_user (s_local_perms ssh')) \<subseteq> insert fwd_perm_clear (set (ps_permitted_user (s_local_perms ssh)))"

definition steady :: "ssh \<Rightarrow> ssh \<Rightarrow> bool" where
  "steady ssh ssh' \<longleftrightarrow> (\<exists>fx. s_effects ssh' = s_effects ssh @ fx \<and> children fx = []) \<and> lists_shrink ssh ssh'"

definition quiet :: "ssh \<Rightarrow> ssh \<Rightarrow> bool" where
  "quiet ssh ssh' \<longleftrightarrow> (\<exists>fx. s_effects ssh' = s_effects ssh @ fx \<and> children fx = [] \<and> sends fx = []) \<and>
     s_local_perms ssh' = s_local_perms ssh \<and> s_remote_perms ssh' = s_remote_perms ssh"

lemma lists_shrink_same:
  "s_local_perms ssh' = s_local_perms ssh \<Longrightarrow> s_remote_perms ssh' = s_remote_perms ssh \<Longrightarrow> lists_shrink ssh ssh'"
  by (auto simp: lists_shrink_def)

lemma lists_shrink_trans: "lists_shrink a b \<Longrightarrow> lists_shrink b c \<Longrightarrow> lists_shrink a c"
  by (auto simp: lists_shrink_def)

lemma steady_trans: "steady a b \<Longrightarrow> steady b c \<Longrightarrow> steady a c"
  unfolding steady_def using lists_shrink_trans[of a b c] by fastforce

lemma quiet_trans: "quiet a b \<Longrightarrow> quiet b c \<Longrightarrow> quiet a c"
  by (fastforce simp: quiet_def)

lemma quiet_steady: "quiet a b \<Longrightarrow> steady a b"
  by (auto simp: steady_def quiet_def lists_shrink_same)

lemma quiet_refl [simp]: "quiet a a" "steady a a"
  by (simp_all add: steady_def quiet_def lists_shrink_same)

lemma set_slot_fields [simp]:
  "s_effects (set_slot i c ssh) = s_effects ssh" "s_local_perms (set_slot i c ssh) = s_local_perms ssh"
  "s_remote_perms (set_slot i c ssh) = s_remote_perms ssh"
  by (simp_all add: set_slot_def)

lemma quiet_set_slot [simp]: "quiet a (set_slot i c s) = quiet a s" "steady a (set_slot i c s) = steady a s"
  by (simp_all add: steady_def quiet_def lists_shrink_def)

lemma steady_effects: "steady a s \<Longrightarrow> children fx = [] \<Longrightarrow> steady a (s\<lparr>s_effects := s_effects s @ fx\<rparr>)"
  by (auto simp: steady_def lists_shrink_def)

lemma quiet_effects:
  "quiet a s \<Longrightarrow> children fx = [] \<Longrightarrow> sends fx = [] \<Longrightarrow> quiet a (s\<lparr>s_effects := s_effects s @ fx\<rparr>)"
  by (auto simp: quiet_def)

lemma quiet_emit:
  "quiet a s \<Longrightarrow> quiet a (emit (Send_debug t) s)" "quiet a s \<Longrightarrow> quiet a (emit (Close_fd fd) s)"
  "quiet a s \<Longrightarrow> quiet a (closes fds s)"
  unfolding emit_def closes_def by (intro quiet_effects; simp)+

lemma steady_emit:
  "steady a s \<Longrightarrow> steady a (emit (Send p) s)" "steady a s \<Longrightarrow> steady a (emit (Send_debug t) s)"
  "steady a s \<Longrightarrow> steady a (emit (Open_confirm cb i b) s)" "steady a s \<Longrightarrow> steady a (emit (Status_confirm cb i n) s)"
  "steady a s \<Longrightarrow> steady a (emit (Close_fd fd) s)"
  unfolding emit_def by (intro steady_effects; simp)+


lemma effects_emit: "s_effects (emit x s) = s_effects s @ [x]"
  by (simp add: emit_def)

lemma quiet_new:
  assumes "channel_new e ssh ctype type rfd wfd efd window maxpack eu name nb = Done (i, ssh')" "quiet a ssh"
  shows "quiet a ssh'"
  by (rule channel_new_result[OF assms(1)]) (use assms(2) in \<open>simp add: quiet_def\<close>)

subsection \<open>Channels\<close>

text \<open>Operations on one channel run no child either.\<close>

lemma children_close_fd [simp]: "children (snd (channel_close_fd st fd)) = children (snd st)"
  by (simp add: channel_close_fd_def Let_def)

lemma sends_close_fd [simp]: "sends (snd (channel_close_fd st fd)) = sends (snd st)"
  by (simp add: channel_close_fd_def Let_def)

lemma children_sets [simp]:
  "children (snd (chan_set_istate s st)) = children (snd st)" "children (snd (chan_set_ostate t st)) = children (snd st)"
  "children (snd (set_flag m st)) = children (snd st)" "children (snd (chan_mark_dead st)) = children (snd st)"
  by (simp_all add: chan_set_istate_def chan_set_ostate_def set_flag_def chan_mark_dead_def)

lemma children_shutdown [simp]:
  "children (snd (chan_shutdown_write e st)) = children (snd st)"
  "children (snd (chan_shutdown_read st)) = children (snd st)"
  "children (snd (chan_shutdown_extended_read st)) = children (snd st)"
  by (simp_all add: chan_shutdown_write_def chan_shutdown_read_def chan_shutdown_extended_read_def Let_def)

lemma children_obuf [simp]:
  "children (snd (chan_obuf_empty e st)) = children (snd st)" "children (snd (chan_rcvd_eow st)) = children (snd st)"
  by (simp_all add: chan_obuf_empty_def chan_rcvd_eow_def Let_def)

lemma children_ieof [simp]: "children (snd (chan_rcvd_ieof e st)) = children (snd st)"
  by (simp add: chan_rcvd_ieof_def Let_def)

lemma children_send: "send_pkt e p st = Done st' \<Longrightarrow> children (snd st') = children (snd st)"
  by (auto simp: send_pkt_def split: if_split_asm)

lemma children_eof2: "chan_send_eof2 e st = Done st' \<Longrightarrow> children (snd st') = children (snd st)"
  by (auto simp: chan_send_eof2_def Let_def andThen_Done dest!: children_send split: if_split_asm)

lemma children_eow2: "chan_send_eow2 e cm st = Done st' \<Longrightarrow> children (snd st') = children (snd st)"
  by (auto simp: chan_send_eow2_def Let_def dest!: children_send split: if_split_asm)

lemma children_ibuf: "chan_ibuf_empty e st = Done st' \<Longrightarrow> children (snd st') = children (snd st)"
  by (auto simp: chan_ibuf_empty_def Let_def andThen_Done dest!: children_eof2 split: if_split_asm)

lemma children_take_ieof: "take_ieof e st = Done st' \<Longrightarrow> children (snd st') = children (snd st)"
  by (auto simp: take_ieof_def chan_force_drain_def Let_def dest!: children_ibuf split: if_split_asm)

lemma children_oclose:
  assumes "chan_rcvd_oclose e st = Done st'" shows "children (snd st') = children (snd st)"
proof -
  define st1 where "st1 = (if c_flags (fst st) AND CHAN_LOCAL = 0 then set_flag CHAN_CLOSE_RCVD st else st)"
  define st2 where "st2 = (if c_ostate (fst st1) = CHAN_OUTPUT_OPEN
                   then chan_set_ostate CHAN_OUTPUT_WAIT_DRAIN st1 else st1)"
  have s: "children (snd st1) = children (snd st)" "children (snd st2) = children (snd st)"
    by (simp_all add: st1_def st2_def)
  note r = assms[unfolded chan_rcvd_oclose_def Let_def, folded st1_def, folded st2_def]
  show ?thesis
  proof (cases "c_type (fst st1) = SSH_CHANNEL_LARVAL")
    case False
    then have "(if c_type (fst st1) = SSH_CHANNEL_LARVAL then a else b) = b" for a b :: "chan_st run" by (rule if_not_P)
    note r2 = r[unfolded this]
    show ?thesis
    proof (cases "c_istate (fst st2)")
      case CHAN_INPUT_WAIT_DRAIN
      with r2 obtain st3 where "(if c_flags (fst st2) AND CHAN_LOCAL = 0 then chan_send_eof2 e st2 else Done st2) = Done st3"
        "st' = chan_set_istate CHAN_INPUT_CLOSED (chan_shutdown_extended_read st3)" by (auto simp: andThen_Done)
      then show ?thesis using s children_eof2[of e st2 st3] by (auto split: if_split_asm)
    qed (use r2 s in auto)
  qed (use r s in auto)
qed

lemma children_write_failed:
  assumes "chan_write_failed e cb st = Done st'" shows "children (snd st') = children (snd st)"
proof (cases "c_ostate (fst st) = CHAN_OUTPUT_OPEN \<or> c_ostate (fst st) = CHAN_OUTPUT_WAIT_DRAIN")
  case True
  define st1 where "st1 = chan_shutdown_write e st"
  have s: "children (snd st1) = children (snd st)" by (simp add: st1_def)
  have "chan_write_failed e cb st =
      andThen (if c_ctype (fst st1) = ''session'' then chan_send_eow2 e cb st1 else Done st1)
        (\<lambda>st2. Done (chan_set_ostate CHAN_OUTPUT_CLOSED st2))"
    using True by (simp add: chan_write_failed_def Let_def st1_def)
  note r = assms[unfolded this andThen_Done]
  from r obtain st2 where "(if c_ctype (fst st1) = ''session'' then chan_send_eow2 e cb st1 else Done st1) = Done st2"
      "st' = chan_set_ostate CHAN_OUTPUT_CLOSED st2"
    by auto
  then show ?thesis using s children_eow2[of e cb st1 st2] by (auto split: if_split_asm)
qed (use assms in \<open>simp add: chan_write_failed_def\<close>)

lemma steady_on_channel:
  assumes "on_channel op i ssh = Done ssh'" "\<And>c st'. op (c, []) = Done st' \<Longrightarrow> children (snd st') = []" "steady a ssh"
  shows "steady a ssh'"
proof -
  from assms(1) obtain ca c' fx where *: "op (ca, []) = Done (c', fx)"
    "ssh' = ssh\<lparr>s_channels := (s_channels ssh)[i := Some c'], s_effects := s_effects ssh @ fx\<rparr>"
    by (rule on_channelE)
  from assms(2)[OF *(1)] steady_effects[OF assms(3), of fx] show ?thesis by (simp add: steady_def lists_shrink_def *(2))
qed

text \<open>Releasing a channel that is no multiplexing client sends nothing.\<close>

lemma close_fds_quiet: "children (snd (channel_close_fds (c, []))) = [] \<and> sends (snd (channel_close_fds (c, []))) = []"
  by (simp add: channel_close_fds_def Let_def)

lemma abandon_quiet:
  "children (List.map_filter (\<lambda>(cb, ab). map_option (\<lambda>f. Abandon f ci) ab) xs) = [] \<and>
   sends (List.map_filter (\<lambda>(cb, ab). map_option (\<lambda>f. Abandon f ci) ab) xs) = []"
  by (induction xs) (auto simp: List.map_filter_simps split: option.split)

lemma mux_loop_lists:
  "mux_remove_loop e c ps = Done (qs, fx) \<Longrightarrow> children fx = [] \<and> set qs \<subseteq> insert fwd_perm_clear (set ps)"
  by (induction ps arbitrary: qs fx) (auto simp: andThen_Done Let_def split: if_split_asm)

lemma free_effects:
  assumes f: "channel_free e ssh i = Done ssh'" and c: "s_channels ssh ! i = Some c"
  shows "steady ssh ssh'" and "c_type c \<noteq> SSH_CHANNEL_MUX_CLIENT \<Longrightarrow> quiet ssh ssh'"
proof -
  let ?fx = "snd (channel_close_fds (c, [])) @
    List.map_filter (\<lambda>(cb, ab). map_option (\<lambda>f. Abandon f i) ab) (c_status_confirms c) @
    (case (c_filter_cleanup c, c_filter_ctx c) of (Some f, Some ctx) \<Rightarrow> [Filter_cleanup f i] | _ \<Rightarrow> [])"
  have q: "children ?fx = []" "sends ?fx = []"
    using close_fds_quiet abandon_quiet by (auto split: option.split)
  define s1 where "s1 = (if c_type c = SSH_CHANNEL_MUX_CLIENT
    then ssh\<lparr>s_channels := map (map_option (detach_proxy i)) (s_channels ssh)\<rparr> else ssh)"
  note r = f[unfolded channel_free_def c option.case Let_def, folded s1_def, unfolded andThen_Done]
  have s1: "quiet ssh s1" by (simp add: s1_def quiet_def)
  from r obtain s2 where s:
      "(if c_type c = SSH_CHANNEL_MUX_CLIENT then mux_remove_remote_forwardings e s1 i else Done s1) = Done s2"
      "s_effects ssh' = s_effects s2 @ ?fx" "s_local_perms ssh' = s_local_perms s2" "s_remote_perms ssh' = s_remote_perms s2"
    by (auto simp: case_prod_unfold)
  show "c_type c \<noteq> SSH_CHANNEL_MUX_CLIENT \<Longrightarrow> quiet ssh ssh'"
    using s s1 q by (auto simp: quiet_def)
  have "steady s1 s2" using s(1) mux_loop_lists[of e i "ps_permitted_user (s_local_perms s1)"]
    by (auto simp: mux_remove_remote_forwardings_def andThen_Done steady_def lists_shrink_def split: if_split_asm)
  moreover have "steady s2 ssh'" using s(2-) q by (auto simp: steady_def lists_shrink_def)
  ultimately show "steady ssh ssh'" using quiet_steady[OF s1] by (blast intro: steady_trans)
qed

section \<open>Global requests and messages to channels\<close>

lemma keeps_new_steady:
  assumes s: "steady a ssh" and k: "\<And>i ssh1 c. steady a ssh1 \<Longrightarrow> keeps P (k i ssh1 c)"
  shows "keeps P (andThen (channel_new e ssh ctype type rfd wfd efd window maxpack eu name nb)
    (\<lambda>(i, ssh1). case s_channels ssh1 ! i of None \<Rightarrow> Fatal | Some c \<Rightarrow> k i ssh1 c))"
proof (intro keeps_then keeps_prod keeps_option keeps_exit)
  fix p i ssh1 c
  assume n: "channel_new e ssh ctype type rfd wfd efd window maxpack eu name nb = Done p" "p = (i, ssh1)"
  have "quiet ssh ssh1" by (rule quiet_new[OF n(1)[unfolded n(2)]]) simp
  from steady_trans[OF s quiet_steady[OF this]] have "steady a ssh1" .
  then show "keeps P (k i ssh1 c)" by (rule k)
qed

lemma listen_one_steady:
  "steady a ssh \<Longrightarrow> keeps (\<lambda>(_, s). steady a s) (listen_one e nt type fwd host addr ai alloc ssh)"
  unfolding listen_one_def Let_def
  by (intro keeps_if keeps_Done keeps_new_steady) (simp_all add: steady_emit)

lemma listen_loop_steady:
  "steady a ssh \<Longrightarrow> keeps (\<lambda>(_, s). steady a s) (listen_loop e nt type fwd host addr ais alloc success ssh)"
proof (induction ais arbitrary: alloc success ssh)
  case (Cons ai ais)
  show ?case unfolding listen_loop.simps
    by (rule keeps_andThen[OF listen_one_steady[OF Cons.prems]]) (auto intro: Cons.IH)
qed (simp add: keeps_def)

lemma setup_tcpip_steady:
  "steady a ssh \<Longrightarrow> keeps (\<lambda>(_, s). steady a s) (channel_setup_fwd_listener_tcpip e nt ssh type fwd wp fo)"
  unfolding channel_setup_fwd_listener_tcpip_def Let_def
  by (intro keeps_option keeps_if keeps_Done keeps_exit keeps_prod listen_loop_steady) (auto simp: steady_emit)

lemma setup_streamlocal_steady:
  "steady a ssh \<Longrightarrow> keeps (steady a) (channel_setup_fwd_listener_streamlocal e nt ssh type fwd fo)"
  unfolding channel_setup_fwd_listener_streamlocal_def Let_def
  by (intro keeps_prod keeps_option keeps_if keeps_Done keeps_new_steady) auto

lemma setup_remote_steady:
  "steady a ssh \<Longrightarrow> keeps (\<lambda>(_, s). steady a s) (channel_setup_remote_fwd_listener e nt ssh fwd wp fo)"
  unfolding channel_setup_remote_fwd_listener_def
  by (intro keeps_if keeps_Done setup_tcpip_steady keeps_andThen[OF setup_streamlocal_steady])
    (auto intro: keeps_Done steady_emit)

lemma cancel_loop_steady: "steady a ssh \<Longrightarrow> keeps (steady a) (cancel_loop e sel is found ssh)"
proof (induction "is" arbitrary: found ssh)
  case (Cons i "is")
  show ?case unfolding cancel_loop.simps
    by (intro keeps_option keeps_if keeps_then Cons.IH Cons.prems) (rule steady_trans[OF Cons.prems free_effects(1)])
qed (simp add: keeps_def)

lemma cancel_rport_steady: "steady a ssh \<Longrightarrow> keeps (steady a) (channel_cancel_rport_listener e ssh fwd)"
  unfolding channel_cancel_rport_listener_def channel_cancel_rport_listener_tcpip_def
    channel_cancel_rport_listener_streamlocal_def
  by (intro keeps_option keeps_exit cancel_loop_steady)

definition steady_server :: "server \<Rightarrow> server \<Rightarrow> bool" where
  "steady_server v v' \<longleftrightarrow> steady (v_ssh v) (v_ssh v')"

lemma steady_server_refl [simp]: "steady_server v v" by (simp add: steady_server_def)

lemma global_steady: "stays (steady_server v) (server_input_global_request x v pkt)"
proof -
  have t: "keeps (steady_server v) (req_tcpip_forward x w p v)" for w p
    unfolding req_tcpip_forward_def Let_def
  proof (intro keeps_need keeps_andThen[where Q = "\<lambda>(_, s). steady (v_ssh v) s"])
    fix host port
    show "keeps (\<lambda>(_, s). steady (v_ssh v) s) (if \<not> tcpip_forward_ok x w port
             then Done (False, None, emit (Send_debug ''Server has disabled port forwarding.'') (v_ssh v))
             else channel_setup_remote_fwd_listener (x_env x) (x_net x) (v_ssh v)
               (no_forward\<lparr>f_listen_host := Some host, f_listen_port := (if port \<le> INT_MAX then uint port else 0)\<rparr>)
               True (o_fwd_opts (x_opts x)))"
      by (intro keeps_if keeps_Done setup_remote_steady) (simp_all add: steady_emit)
  qed (auto simp: keeps_def andThen_Done steady_server_def split: prod.splits)
  have u: "keeps (steady_server v) (req_streamlocal_forward x p v)" for p
    unfolding req_streamlocal_forward_def
  proof (intro keeps_need keeps_andThen[where Q = "\<lambda>(_, s). steady (v_ssh v) s"])
    fix path b
    show "keeps (\<lambda>(_, s). steady (v_ssh v) s) (if b
          then Done (False, None, emit (Send_debug ''Server has disabled streamlocal forwarding.'') (v_ssh v))
          else channel_setup_remote_fwd_listener (x_env x) (x_net x) (v_ssh v)
                 (no_forward\<lparr>f_listen_path := Some path\<rparr>) False (o_fwd_opts (x_opts x)))"
      by (intro keeps_if keeps_Done setup_remote_steady) (simp_all add: steady_emit)
  qed (auto simp: keeps_def steady_server_def split: prod.splits)
  have c: "keeps (steady_server v) (req_cancel_tcpip_forward x p v)" "keeps (steady_server v) (req_cancel_streamlocal_forward x p v)" for p
    unfolding req_cancel_tcpip_forward_def req_cancel_streamlocal_forward_def
    by (intro keeps_need keeps_if keeps_Done keeps_andThen[OF cancel_rport_steady[of "v_ssh v"]];
        simp add: keeps_def steady_server_def)+
  have g: "keeps (steady_server v) (global_by_type x rtype w p v)" for rtype w p
    unfolding global_by_type_def
    by (intro keeps_if t u c keeps_Done) (simp_all add: steady_server_def)
  show ?thesis unfolding server_input_global_request_def
    by (intro stays_if stays_exit stays_need stays_keeps[OF g])
      (auto simp: Let_def stays_def steady_server_def steady_emit split: if_splits)
qed

lemma upstream_steady: "channel_proxy_upstream e ssh i type pkt = Done (b, ssh') \<Longrightarrow> steady ssh ssh'"
proof -
  assume res: "channel_proxy_upstream e ssh i type pkt = Done (b, ssh')"
  have f: "steady ssh s2" if "channel_free e (set_slot d x ssh) i = Done s2" for d x s2
  proof -
    from that obtain c where "s_channels (set_slot d x ssh) ! i = Some c"
      by (cases "s_channels (set_slot d x ssh) ! i") (auto simp: channel_free_def)
    from free_effects(1)[OF that this] show ?thesis by (simp add: steady_def lists_shrink_def)
  qed
  show ?thesis using res f
    by (auto simp: channel_proxy_upstream_def Let_def andThen_Done split: option.splits if_split_asm)
qed

lemma unless_proxied_steady:
  assumes "\<And>ssh1. steady ssh ssh1 \<Longrightarrow> stays (steady ssh) (k ssh1)"
  shows "stays (steady ssh) (unless_proxied e ssh i type pkt k)"
  using assms upstream_steady[of e ssh i type pkt]
  by (auto simp: unless_proxied_def stays_def andThen_Done split: if_split_asm)

lemma stays_sum:
  "(\<And>x. m = Inl x \<Longrightarrow> stays P (f x)) \<Longrightarrow> (\<And>x. m = Inr x \<Longrightarrow> stays P (g x)) \<Longrightarrow>
   stays P (case m of Inl x \<Rightarrow> f x | Inr x \<Rightarrow> g x)"
  by (cases m) auto

lemma stays_prod: "(\<And>a b. m = (a, b) \<Longrightarrow> stays P (f a b)) \<Longrightarrow> stays P (case m of (a, b) \<Rightarrow> f a b)"
  by (cases m) auto

lemma stays_then: "(\<And>y. m = Done y \<Longrightarrow> stays P (k y)) \<Longrightarrow> stays P (andThen m k)"
  by (cases m) (auto simp: stays_def)

lemma stays_list:
  "(xs = [] \<Longrightarrow> stays P m) \<Longrightarrow> (\<And>y ys. xs = y # ys \<Longrightarrow> stays P (f y ys)) \<Longrightarrow>
   stays P (case xs of [] \<Rightarrow> m | y # ys \<Rightarrow> f y ys)"
  by (cases xs) auto

lemmas stays_rules = stays_then stays_prod stays_sum stays_option stays_list stays_if stays_exit stays_Done

lemma on_channel_stays:
  "steady a ssh \<Longrightarrow> (\<And>c st'. op (c, []) = Done st' \<Longrightarrow> children (snd st') = []) \<Longrightarrow>
   stays (steady a) (on_channel op i ssh)"
  using steady_on_channel[of op i ssh _ a] by (auto simp: stays_def)

lemma confirm_steady: "steady a ssh \<Longrightarrow> steady a (confirm_cb c b ssh)"
  by (simp add: confirm_cb_def steady_emit split: option.split)

lemma handlers_steady:
  "stays (steady ssh) (channel_input_data e ssh pkt)"
  "stays (steady ssh) (channel_input_extended_data e ssh pkt)"
  "stays (steady ssh) (channel_input_ieof e ssh pkt)"
  "stays (steady ssh) (channel_input_oclose e ssh pkt)"
  "stays (steady ssh) (channel_input_open_confirmation e ssh pkt)"
  "stays (steady ssh) (channel_input_open_failure e ssh pkt)"
  "stays (steady ssh) (channel_input_window_adjust e ssh pkt)"
  unfolding channel_input_data_def channel_input_extended_data_def channel_input_ieof_def channel_input_oclose_def
    channel_input_open_confirmation_def channel_input_open_failure_def channel_input_window_adjust_def Let_def
  by (intro stays_rules unless_proxied_steady on_channel_stays confirm_steady;
      auto simp: chan_mark_dead_def dest: children_take_ieof children_oclose)+

section \<open>Children and channels that end\<close>

lemma stays_packet: "(\<And>ty fs. p = Packet ty fs \<Longrightarrow> stays P (f ty fs)) \<Longrightarrow> stays P (case p of Packet ty fs \<Rightarrow> f ty fs)"
  by (cases p) auto

lemma cleanup_steady: "steady a s \<Longrightarrow> steady a (channel_register_cleanup s i cb b)" "steady a s \<Longrightarrow> steady a (channel_cancel_cleanup s i)"
  by (simp_all add: channel_register_cleanup_def channel_cancel_cleanup_def split: option.split)

lemma exit_message_steady: "stays (steady ssh) (session_exit_message e se status ssh)"
  unfolding session_exit_message_def Let_def
  by (intro stays_rules stays_packet on_channel_stays cleanup_steady steady_emit; auto dest: children_write_failed)

lemma close_by_pid_steady: "session_close_by_pid e pid status v = Done v' \<Longrightarrow> steady (v_ssh v) (v_ssh v')"
  using exit_message_steady[of "v_ssh v" e _ status]
  by (auto simp: session_close_by_pid_def stays_def Let_def andThen_Done split: option.splits if_split_asm)

lemma close_x11_steady: "steady a ssh \<Longrightarrow> stays (steady a) (session_close_x11 i ssh)"
  unfolding session_close_x11_def Let_def
  by (intro stays_rules on_channel_stays cleanup_steady; auto simp: chan_mark_dead_def)

lemma close_x11_ids_steady: "steady a ssh \<Longrightarrow> stays (steady a) (close_x11_ids ids ssh)"
proof (induction ids arbitrary: ssh)
  case (Cons i ids)
  show ?case unfolding close_x11_ids.simps
    by (rule stays_then) (use close_x11_steady[OF Cons.prems, of i] Cons.IH in \<open>auto simp: stays_def\<close>)
qed (simp add: stays_Done)

lemma unused_ssh: "session_unused m i v = Done v1 \<Longrightarrow> v_ssh v1 = v_ssh v"
  by (auto simp: session_unused_def split: if_split_asm)

lemma session_close_ssh: "session_close m i v = Done v' \<Longrightarrow> v_ssh v' = v_ssh v"
  by (auto simp: session_close_def Let_def dest!: unused_ssh split: if_split_asm)

lemma close_by_channel_steady:
  assumes "session_close_by_channel m chid force v = Done v'" shows "steady (v_ssh v) (v_ssh v')"
proof (cases "session_by_channel v chid")
  case (Some i)
  define s where "s = v_sessions v ! i"
  define v1 where "v1 = (if ss_pid s \<noteq> 0 \<and> ss_ttyfd s \<noteq> -1 then upd_session i session_pty_cleanup v else v)"
  have v1: "v_ssh v1 = v_ssh v" by (simp add: v1_def)
  note r = assms[unfolded session_close_by_channel_def Some option.case Let_def, folded s_def, folded v1_def]
  show ?thesis
  proof (cases "ss_pid s \<noteq> 0 \<and> \<not> force")
    case True
    with r v1 show ?thesis by simp
  next
    case False
    have "(if ss_pid s \<noteq> 0 \<and> \<not> force then a else b) = b" for a b :: "server run" using False by (rule if_not_P)
    from r[unfolded this] obtain ids ssh1 w where
      x: "close_x11_ids ids (channel_cancel_cleanup (v_ssh v1) (ss_chanid s)) = Done ssh1"
      and c: "session_close m i w = Done v'" and w: "v_ssh w = ssh1"
      by (auto simp: andThen_Done)
    have "steady (v_ssh v) (channel_cancel_cleanup (v_ssh v1) (ss_chanid s))" by (intro cleanup_steady) (simp add: v1)
    from close_x11_ids_steady[OF this, of ids] x have "steady (v_ssh v) ssh1" by (simp add: stays_def)
    with session_close_ssh[OF c] w show ?thesis by simp
  qed
qed (use assms in \<open>simp add: session_close_by_channel_def\<close>)

end
