(* ===== verification/ServerTrace.thy ===== *)
theory ServerTrace
  imports ServerSteady
begin

text \<open>
  How open requests are answered, that a forced command is the only one that is run, that permissions
  only shrink, and that no session begins after the client said so.
\<close>

section \<open>Open requests\<close>

text \<open>\<open>yields P m\<close>: the result and the state after \<open>m\<close> satisfy \<open>P\<close>.\<close>

definition yields :: "('a \<Rightarrow> 's \<Rightarrow> bool) \<Rightarrow> ('a \<times> 's) run \<Rightarrow> bool" where
  "yields P m \<longleftrightarrow> (\<forall>r s. m = Done (r, s) \<longrightarrow> P r s)"

lemma yieldsD: "yields P m \<Longrightarrow> m = Done (r, s) \<Longrightarrow> P r s"
  by (simp add: yields_def)

lemma yields_Done: "P r s \<Longrightarrow> yields P (Done (r, s))" and yields_exit: "yields P Fatal" "yields P Disconnect"
  by (simp_all add: yields_def)

lemma yields_if: "(b \<Longrightarrow> yields P m) \<Longrightarrow> (\<not> b \<Longrightarrow> yields P n) \<Longrightarrow> yields P (if b then m else n)"
  by simp

lemma yields_option:
  "(x = None \<Longrightarrow> yields P m) \<Longrightarrow> (\<And>y. x = Some y \<Longrightarrow> yields P (f y)) \<Longrightarrow>
   yields P (case x of None \<Rightarrow> m | Some y \<Rightarrow> f y)"
  by (cases x) auto

lemma yields_prod: "(\<And>a b. x = (a, b) \<Longrightarrow> yields P (f a b)) \<Longrightarrow> yields P (case x of (a, b) \<Rightarrow> f a b)"
  by (cases x) auto

lemma yields_then: "(\<And>s. m = Done s \<Longrightarrow> yields P (k s)) \<Longrightarrow> yields P (andThen m k)"
  by (cases m) (auto simp: yields_def)

lemma yields_need:
  "(\<And>w p1. yields P (k w p1)) \<Longrightarrow> yields P (need_u32 p k)"
  "(\<And>w p1. yields P (k8 w p1)) \<Longrightarrow> yields P (need_u8 p k8)"
  "(\<And>w p1. yields P (kc w p1)) \<Longrightarrow> yields P (need_cstring e p kc)"
  "yields P m \<Longrightarrow> yields P (need_end p m)"
  by (auto simp: yields_def need_u32_def need_u8_def need_cstring_def need_end_def
      split: sum.splits prod.splits if_splits)

lemmas yields_rules = yields_need yields_if yields_option yields_prod yields_then yields_Done yields_exit

text \<open>
  \<open>opened i ssh ssh'\<close>: a channel was added in the free slot \<open>i\<close>, or, without an \<open>i\<close>, none; nothing was
  sent and no child was run.
\<close>

definition opened :: "nat option \<Rightarrow> ssh \<Rightarrow> ssh \<Rightarrow> bool" where
  "opened r ssh ssh' \<longleftrightarrow> quiet ssh ssh' \<and>
     (case r of None \<Rightarrow> \<forall>j. chan ssh' j = chan ssh j
      | Some i \<Rightarrow> chan ssh i = None \<and>
          (\<exists>c. (\<forall>j. chan ssh' j = (if j = i then Some c else chan ssh j)) \<and> c_self c = i))"

lemma opened_None: "quiet ssh ssh' \<Longrightarrow> s_channels ssh' = s_channels ssh \<Longrightarrow> opened None ssh ssh'"
  by (simp add: opened_def chan_def)

lemma opened_new:
  assumes "channel_new e ssh ctype type rfd wfd efd window maxpack eu name nb = Done (i, ssh')"
  shows "opened (Some i) ssh ssh'"
proof -
  from channel_new_chan[OF assms] have "chan ssh i = None"
    "\<exists>c. (\<forall>j. chan ssh' j = (if j = i then Some c else chan ssh j)) \<and> c_self c = i"
    by (auto simp: fresh_channel_def)
  moreover have "quiet ssh ssh'" by (rule quiet_new[OF assms]) simp
  ultimately show ?thesis unfolding opened_def by simp
qed

lemma opened_set:
  assumes "opened (Some i) ssh ssh'" "chan ssh' i = Some c" "c_self c' = c_self c"
  shows "opened (Some i) ssh (set_slot i (Some c') ssh')"
proof -
  from assms(1) obtain c0 where "chan ssh i = None" "\<forall>j. chan ssh' j = (if j = i then Some c0 else chan ssh j)"
    "c_self c0 = i" "quiet ssh ssh'" by (auto simp: opened_def)
  moreover from this(2) assms(2) have "c0 = c" by simp
  ultimately show ?thesis using assms(3) chan_nth[OF assms(2)]
    by (simp add: opened_def chan_set_slot)
qed

lemma opened_from: "quiet a b \<Longrightarrow> chan b = chan a \<Longrightarrow> opened r b ssh' \<Longrightarrow> opened r a ssh'"
  by (auto simp: opened_def intro: quiet_trans split: option.splits)

lemma connect_next_quiet: "connect_next nt ais = Done (s, rest, fx) \<Longrightarrow> children fx = [] \<and> sends fx = []"
  by (induction ais arbitrary: s rest fx) (auto simp: Let_def andThen_Done split: if_split_asm)

lemma connect_helper_quiet:
  "connect_to_helper e nt name port = Done (Connect_failed fx) \<Longrightarrow> children fx = [] \<and> sends fx = []"
  "connect_to_helper e nt name port = Done (Connected sock cctx fx) \<Longrightarrow> children fx = [] \<and> sends fx = []"
  by (auto simp: connect_to_helper_def Let_def andThen_Done dest: connect_next_quiet split: option.splits if_split_asm)

lemma connect_to_opened: "yields (\<lambda>r. opened r ssh) (connect_to e nt ssh host port ctype rname)"
  unfolding connect_to_def
proof (rule yields_then)
  fix res assume h: "connect_to_helper e nt host port = Done res"
  show "yields (\<lambda>r. opened r ssh) (case res of
          Connect_failed fx \<Rightarrow> Done (None, ssh\<lparr>s_effects := s_effects ssh @ fx\<rparr>)
        | Connected sock cctx fx \<Rightarrow>
          andThen (channel_new e (ssh\<lparr>s_effects := s_effects ssh @ fx\<rparr>) ctype SSH_CHANNEL_CONNECTING
                     sock sock (-1) CHAN_TCP_WINDOW_DEFAULT CHAN_TCP_PACKET_DEFAULT
                     CHAN_EXTENDED_IGNORE rname CHANNEL_NONBLOCK_SET)
            (\<lambda>(i, ssh1).
               case s_channels ssh1 ! i of
                 None \<Rightarrow> Fatal
               | Some c \<Rightarrow> Done (Some i, set_slot i (Some (c\<lparr>c_host_port := port, c_path := Some host,
                                                    c_connect_ctx := cctx\<rparr>)) ssh1)))"
  proof (cases res)
    case (Connect_failed fx)
    with h connect_helper_quiet(1)[of e nt host port fx] show ?thesis
      by (auto intro!: yields_Done opened_None quiet_effects)
  next
    case (Connected sock cctx fx)
    have q: "quiet ssh (ssh\<lparr>s_effects := s_effects ssh @ fx\<rparr>)"
      using h connect_helper_quiet(2)[of e nt host port sock cctx fx] Connected by (auto intro!: quiet_effects)
    have o: "opened (Some i) ssh (set_slot i (Some (c\<lparr>c_host_port := port, c_path := Some host, c_connect_ctx := cctx\<rparr>)) ssh1)"
      if n: "channel_new e (ssh\<lparr>s_effects := s_effects ssh @ fx\<rparr>) ctype SSH_CHANNEL_CONNECTING
                     sock sock (-1) CHAN_TCP_WINDOW_DEFAULT CHAN_TCP_PACKET_DEFAULT
                     CHAN_EXTENDED_IGNORE rname CHANNEL_NONBLOCK_SET = Done (i, ssh1)"
        and c: "s_channels ssh1 ! i = Some c" for i ssh1 c
    proof (rule opened_from[OF q])
      show "opened (Some i) (ssh\<lparr>s_effects := s_effects ssh @ fx\<rparr>)
          (set_slot i (Some (c\<lparr>c_host_port := port, c_path := Some host, c_connect_ctx := cctx\<rparr>)) ssh1)"
        by (rule opened_set[OF opened_new[OF n] new_slot[OF n c]]) simp
    qed (simp add: chan_def fun_eq_iff)
    show ?thesis unfolding Connected connect_res.case
      by (intro yields_rules) (use o in blast)
  qed
qed

lemma direct_tcpip_opened: "yields (\<lambda>r. opened (r_chan r) ssh) (server_request_direct_tcpip x pkt ssh)"
  unfolding server_request_direct_tcpip_def channel_connect_to_port_def
  by (intro yields_rules; (simp add: andThen_Done split: if_split_asm)?)
    (auto simp: opened_None dest: yieldsD[OF connect_to_opened])

lemma direct_streamlocal_opened: "yields (\<lambda>r. opened (r_chan r) ssh) (server_request_direct_streamlocal x pkt ssh)"
  unfolding server_request_direct_streamlocal_def channel_connect_to_path_def
  by (intro yields_rules; (simp add: andThen_Done split: if_split_asm)?)
    (auto simp: opened_None dest: yieldsD[OF connect_to_opened])

lemma session_new_ssh:
  assumes "session_new grow m v = Done (r, v1)" shows "v_ssh v1 = v_ssh v"
proof -
  from assms obtain o1 where o1: "(if v_first_unused v = -1 then
          if int (length (v_sessions v)) \<ge> m then Done None
          else if \<not> grow (length (v_sessions v) + 1) then Fatal
          else andThen (session_unused m (length (v_sessions v))
                 (v\<lparr>v_sessions := v_sessions v @ [unused_session 0 0]\<rparr>)) (\<lambda>v1. Done (Some v1))
        else Done (Some v)) = Done o1"
    and r: "(case o1 of None \<Rightarrow> Done (None, v) | Some v1 \<Rightarrow>
          if v_first_unused v1 \<ge> int (length (v_sessions v1)) \<or> v_first_unused v1 < 0 then Fatal
          else let i = nat (v_first_unused v1); s = v_sessions v1 ! i in
            if ss_used s then Fatal
            else Done (Some i, v1\<lparr>v_first_unused := ss_next_unused s,
                         v_sessions := (v_sessions v1)[i := s\<lparr>ss_used := True, ss_next_unused := -1\<rparr>]\<rparr>)) =
          Done (r, v1)"
    unfolding session_new_def andThen_Done by blast
  from o1 have "\<forall>w. o1 = Some w \<longrightarrow> v_ssh w = v_ssh v"
    by (auto simp: andThen_Done dest!: unused_ssh split: if_split_asm)
  with r show ?thesis by (cases o1) (auto simp: Let_def split: if_split_asm)
qed

lemma session_open_ssh:
  assumes "session_open grow m u chid v = Done (b, v1)" shows "v_ssh v1 = v_ssh v"
proof -
  from assms obtain r w where "session_new grow m v = Done (r, w)" unfolding session_open_def andThen_Done by auto
  with session_new_ssh[OF this] assms show ?thesis
    by (auto simp: session_open_def split: option.splits if_split_asm)
qed

lemma opened_debug: "opened None ssh (emit (Send_debug t) ssh)"
  by (simp add: opened_def quiet_emit)

lemma opened_cleanup:
  assumes "opened (Some i) a ssh" shows "opened (Some i) a (channel_register_cleanup ssh (int i) cb b)"
proof (cases "channel_by_id ssh (int i)")
  case (Some c)
  then have "chan ssh i = Some c" using by_id_chan[OF Some] by simp
  from opened_set[OF assms this] Some show ?thesis by (simp add: channel_register_cleanup_def)
qed (use assms in \<open>simp add: channel_register_cleanup_def\<close>)

lemma opened_filter:
  assumes "opened (Some i) a ssh" shows "opened (Some i) a (channel_register_filter ssh (int i) f1 f2 f3 f4)"
proof (cases "channel_lookup ssh (int i)")
  case (Some c)
  then have "chan ssh i = Some c" using lookup_by_id_chan[OF Some] by simp
  from opened_set[OF assms this] Some show ?thesis by (simp add: channel_register_filter_def)
qed (use assms in \<open>simp add: channel_register_filter_def\<close>)

definition opens :: "server \<Rightarrow> open_result \<Rightarrow> server \<Rightarrow> bool" where
  "opens v r v' \<longleftrightarrow> opened (r_chan r) (v_ssh v) (v_ssh v')"

lemma tun_opens: "yields (opens v) (server_request_tun x pkt v)"
  unfolding server_request_tun_def tun_failed_def tun_opened_def Let_def
proof (intro yields_rules)
  fix mode sock i ssh1 c t q
  assume n: "channel_new (x_env x) (v_ssh v) ''tun'' SSH_CHANNEL_OPEN sock sock (-1)
                CHAN_TCP_WINDOW_DEFAULT CHAN_TCP_PACKET_DEFAULT CHAN_EXTENDED_IGNORE ''tun''
                CHANNEL_NONBLOCK_SET = Done q" "q = (i, ssh1)" and c: "s_channels ssh1 ! i = Some c"
  note n = n(1)[unfolded n(2)]
  have o: "opened (Some i) (v_ssh v) (set_slot i (Some (c\<lparr>c_datagram := True\<rparr>)) ssh1)"
    by (rule opened_set[OF opened_new[OF n] new_slot[OF n c]]) simp
  then show "opens v (with_channel (Some i)) (v\<lparr>v_ssh := if mode = SSH_TUNMODE_POINTOPOINT
                      then channel_register_filter (set_slot i (Some (c\<lparr>c_datagram := True\<rparr>)) ssh1) (int i)
                             (Some SYS_TUN_INFILTER) (Some SYS_TUN_OUTFILTER) None None
                      else set_slot i (Some (c\<lparr>c_datagram := True\<rparr>)) ssh1, v_tun_ifnames := t\<rparr>)"
    using opened_filter[OF o] by (simp add: opens_def)
qed (simp_all add: opens_def opened_debug)

lemma session_opens: "yields (opens v) (server_request_session x pkt v)"
  unfolding server_request_session_def
proof (intro yields_rules)
  fix q i ssh1 w ok v1 ssh2
  assume n: "channel_new (x_env x) (v_ssh v) ''session'' SSH_CHANNEL_LARVAL (-1) (-1) (-1) 0
                  CHAN_SES_PACKET_DEFAULT CHAN_EXTENDED_IGNORE ''server-session'' CHANNEL_NONBLOCK_SET = Done q"
      "q = (i, ssh1)"
    and o: "session_open (y_grow (x_sys x)) (o_max_sessions (x_opts x)) (x_user_ok x) (int i) (v\<lparr>v_ssh := ssh1\<rparr>) = Done w"
      "w = (ok, v1)"
  note n = n(1)[unfolded n(2)]
  have v1: "v_ssh v1 = ssh1" using session_open_ssh[OF o(1)[unfolded o(2)]] by simp
  note op = opened_new[OF n]
  show "opens v (with_channel (Some i)) (v1\<lparr>v_ssh := channel_register_cleanup (v_ssh v1) (int i)
      (Some SESSION_CLOSE_BY_CHANNEL) False\<rparr>)"
    using opened_cleanup[OF op] by (simp add: opens_def v1)
  assume f: "channel_free (x_env x) (v_ssh v1) i = Done ssh2"
  from channel_new_chan[OF n] obtain c where c: "chan ssh1 i = Some c" "c_type c = SSH_CHANNEL_LARVAL"
    "chan (v_ssh v) i = None" "\<And>j. j \<noteq> i \<Longrightarrow> chan ssh1 j = chan (v_ssh v) j"
    by (auto simp: fresh_channel_def)
  have "s_channels ssh1 ! i = Some c" using chan_nth[OF c(1)] by simp
  note fe = free_effects(2)[OF f[unfolded v1] this]
  have "quiet (v_ssh v) ssh2" by (rule quiet_trans[OF quiet_new[OF n] fe]) (simp_all add: c(2))
  moreover have "chan ssh2 j = chan (v_ssh v) j" for j
    using channel_free_chan(1)[OF f[unfolded v1] c(1), of j] c by simp
  ultimately show "opens v (with_channel None) (v1\<lparr>v_ssh := ssh2\<rparr>)" by (simp add: opens_def opened_def)
qed

lemma on_ssh_opens:
  "yields (\<lambda>r. opened (r_chan r) (v_ssh v)) (h (v_ssh v)) \<Longrightarrow> yields (opens v) (on_ssh h v)"
  by (auto simp: on_ssh_def yields_def opens_def andThen_Done)

lemma open_by_type_opens: "yields (opens v) (open_by_type x ctype pkt v)"
  unfolding open_by_type_def
  by (intro yields_if session_opens tun_opens on_ssh_opens direct_tcpip_opened direct_streamlocal_opened yields_Done)
    (simp add: opens_def opened_None)

text \<open>One answer to a request: the failure, the confirmation, or a channel whose confirmation is due.\<close>

definition answered :: "u32 \<Rightarrow> ssh \<Rightarrow> ssh \<Rightarrow> bool" where
  "answered rchan ssh ssh' \<longleftrightarrow>
     (\<exists>fx. s_effects ssh' = s_effects ssh @ fx \<and> children fx = [] \<and>
       ((\<exists>r. sends fx = [open_failure_packet rchan r] \<and> (\<forall>j. chan ssh' j = chan ssh j)) \<or>
        (\<exists>i c. chan ssh i = None \<and> (\<forall>j. chan ssh' j = (if j = i then Some c else chan ssh j)) \<and>
           c_self c = i \<and> c_have_remote_id c \<and> c_remote_id c = rchan \<and>
           sends fx = (if c_type c = SSH_CHANNEL_CONNECTING then []
             else [Packet SSH2_MSG_CHANNEL_OPEN_CONFIRMATION [PUT_U32 rchan, PUT_U32 (word_of_nat i),
                     PUT_U32 (c_local_window c), PUT_U32 (c_local_maxpacket c)]]))))"

lemma answer_answered:
  assumes o: "opened (r_chan r) ssh0 ssh" and res: "answer_open e rchan rw rm r ssh = Done ssh'"
  shows "answered rchan ssh0 ssh'"
proof -
  from o obtain fx where fx: "s_effects ssh = s_effects ssh0 @ fx" "children fx = []" "sends fx = []"
    by (auto simp: opened_def quiet_def)
  show ?thesis
  proof (cases "r_chan r")
    case None
    with res have s: "ssh' = emit (Send (open_failure_packet rchan r)) ssh"
      by (simp add: answer_open_def Let_def split: if_split_asm)
    show ?thesis unfolding answered_def s
      by (rule exI[of _ "fx @ [Send (open_failure_packet rchan r)]"])
        (use o None fx in \<open>simp add: effects_emit opened_def, blast\<close>)
  next
    case (Some i)
    with o obtain c where c: "chan ssh0 i = None" "\<forall>j. chan ssh j = (if j = i then Some c else chan ssh0 j)" "c_self c = i"
      by (auto simp: opened_def)
    then have i: "chan ssh i = Some c" by simp
    define c1 where "c1 = c\<lparr>c_remote_id := rchan, c_have_remote_id := True, c_remote_window := rw, c_remote_maxpacket := rm\<rparr>"
    define p where "p = Packet SSH2_MSG_CHANNEL_OPEN_CONFIRMATION [PUT_U32 (c_remote_id c1),
                     PUT_U32 (word_of_nat (c_self c1)), PUT_U32 (c_local_window c1), PUT_U32 (c_local_maxpacket c1)]"
    note r = res[unfolded answer_open_def Some option.case i Let_def, folded c1_def, folded p_def]
    have ch: "\<forall>j. chan (set_slot i (Some c1) ssh) j = (if j = i then Some c1 else chan ssh0 j)"
      using c(2) chan_nth[OF i] by (simp add: chan_set_slot)
    have f: "c_self c1 = i" "c_have_remote_id c1" "c_remote_id c1 = rchan" using c(3) by (simp_all add: c1_def)
    show ?thesis
    proof (cases "c_type c1 = SSH_CHANNEL_CONNECTING")
      case True
      with r have s: "ssh' = set_slot i (Some c1) ssh" by simp
      show ?thesis unfolding answered_def s
        by (intro exI[of _ fx] conjI disjI2 exI[of _ i] exI[of _ c1]) (use fx c(1) ch f True in simp_all)
    next
      case False
      with r have s: "ssh' = emit (Send p) (set_slot i (Some c1) ssh)" by (simp split: if_split_asm)
      show ?thesis unfolding answered_def s
        by (intro exI[of _ "fx @ [Send p]"] conjI disjI2 exI[of _ i] exI[of _ c1])
          (use fx c(1) ch f False in \<open>simp_all add: effects_emit p_def\<close>)
    qed
  qed
qed

section \<open>Only the forced command, only the permissions given\<close>

definition runs_only :: "srv_context \<Rightarrow> ssh \<Rightarrow> ssh \<Rightarrow> bool" where
  "runs_only x ssh ssh' \<longleftrightarrow> (\<exists>fx. s_effects ssh' = s_effects ssh @ fx \<and>
     (\<forall>c. forced_command x = Some c \<longrightarrow> set (children fx) \<subseteq> {Some c})) \<and> lists_shrink ssh ssh'"

lemma steady_runs: "steady a b \<Longrightarrow> runs_only x a b"
  by (auto simp: steady_def runs_only_def)

lemma tame_runs: "tame x a b \<Longrightarrow> runs_only x a b"
  by (simp add: tame_def runs_only_def lists_shrink_same)

lemma runs_trans: "runs_only x a b \<Longrightarrow> runs_only x b c \<Longrightarrow> runs_only x a c"
  unfolding runs_only_def using lists_shrink_trans[of a b c] by fastforce

lemma of_channels_runs: "stays (steady (v_ssh v)) (h (v_ssh v) pkt) \<Longrightarrow> stays (\<lambda>v'. runs_only x (v_ssh v) (v_ssh v')) (of_channels h v pkt)"
  by (auto simp: stays_def of_channels_def andThen_Done steady_runs)

lemma eow_steady: "on_channel (\<lambda>st. Done (chan_rcvd_eow st)) i ssh = Done ssh' \<Longrightarrow> steady ssh ssh'"
  by (erule steady_on_channel) auto

lemma channel_req_runs:
  assumes ok: "sessions_ok m v"
  shows "stays (\<lambda>v'. runs_only x (v_ssh v) (v_ssh v')) (server_input_channel_req x v pkt)"
  unfolding server_input_channel_req_def
proof (intro stays_need stays_option stays_exit stays_keeps[where Q = "\<lambda>v1. runs_only x (v_ssh v) (v_ssh v1)"])
  fix chid rtype p3 c
  have "keeps (good_server x m v) (session_input_channel_req x c rtype p3 v)" by (rule session_input_good[OF ok])
  then have "keeps (\<lambda>v1. runs_only x (v_ssh v) (v_ssh v1)) (session_input_channel_req x c rtype p3 v)"
    by (auto simp: keeps_def good_server_def tame_runs)
  then show "keeps (\<lambda>v1. runs_only x (v_ssh v) (v_ssh v1)) (if rtype = ''eow@openssh.com''
            then need_end p3 (andThen (on_channel (\<lambda>st. Done (chan_rcvd_eow st)) (unat chid) (v_ssh v))
                   (\<lambda>ssh1. Done (False, v\<lparr>v_ssh := ssh1\<rparr>)))
            else if (c_type c = SSH_CHANNEL_LARVAL \<or> c_type c = SSH_CHANNEL_OPEN) \<and> c_ctype c = ''session''
            then session_input_channel_req x c rtype p3 v
            else Done (False, v))"
    by (intro keeps_if keeps_need keeps_then keeps_Done) (simp_all add: steady_runs eow_steady)
next
  fix want :: u8 and ok v1 chid assume "runs_only x (v_ssh v) (v_ssh v1)"
  then show "stays (\<lambda>v'. runs_only x (v_ssh v) (v_ssh v')) (case (ok, v1) of (ok, v1) \<Rightarrow> case chan (v_ssh v1) (unat chid) of
               None \<Rightarrow> Fatal
             | Some c1 \<Rightarrow>
               if want \<noteq> 0 \<and> c_flags c1 AND CHAN_CLOSE_SENT = 0 then
                 if \<not> c_have_remote_id c1 then Fatal
                 else
                   let p = Packet (if ok then SSH2_MSG_CHANNEL_SUCCESS else SSH2_MSG_CHANNEL_FAILURE)
                             [PUT_U32 (c_remote_id c1)]
                   in if e_pkt_ok (x_env x) p then Done (v1\<lparr>v_ssh := emit (Send p) (v_ssh v1)\<rparr>)
                      else Disconnect
               else Done v1)" for chid :: u32
    using runs_trans[OF _ steady_runs[OF steady_emit(1)[OF quiet_refl(2)]], of x "v_ssh v" "v_ssh v1"]
    by (auto simp: stays_def Let_def split: option.splits if_splits)
qed

lemma open_answered:
  assumes res: "server_input_channel_open x v pkt = Done v'"
    and "sshbuf_get_cstring (e_alc (x_env x)) pkt = (Inr ctype, p1)" "sshbuf_get_u32 p1 = (Inr rchan, p2)"
  shows "answered rchan (v_ssh v) (v_ssh v')"
proof -
  from res assms(2,3) obtain rw p3 rm p4 r v1 ssh1 where
    o: "open_by_type x (cstr ctype) p4 v = Done (r, v1)"
    and a: "answer_open (x_env x) rchan rw rm r (v_ssh v1) = Done ssh1" and v': "v' = v1\<lparr>v_ssh := ssh1\<rparr>"
    by (auto simp: server_input_channel_open_def need_cstring_def need_u32_def andThen_Done
        split: sum.splits prod.splits)
  from yieldsD[OF open_by_type_opens o] have "opened (r_chan r) (v_ssh v) (v_ssh v1)" by (simp add: opens_def)
  from answer_answered[OF this a] show ?thesis by (simp add: v')
qed

lemma answer_steady: "answer_open e rchan rw rm r ssh = Done ssh' \<Longrightarrow> steady ssh ssh'"
  by (auto simp: answer_open_def Let_def intro!: steady_emit split: option.splits if_splits)

lemma open_runs: "stays (\<lambda>v'. runs_only x (v_ssh v) (v_ssh v')) (server_input_channel_open x v pkt)"
proof -
  have "keeps (\<lambda>v1. quiet (v_ssh v) (v_ssh v1)) (open_by_type x ctype p v)" for ctype p
    using open_by_type_opens[of v x ctype p] by (auto simp: keeps_def yields_def opens_def opened_def)
  moreover have "runs_only x (v_ssh v) s" if "quiet (v_ssh v) a" "answer_open e rchan rw rm r a = Done s" for a e rchan rw rm r s
    by (rule steady_runs[OF steady_trans[OF quiet_steady[OF that(1)] answer_steady[OF that(2)]]])
  ultimately show ?thesis unfolding server_input_channel_open_def
    by (intro stays_need stays_keeps[where Q = "\<lambda>v1. quiet (v_ssh v) (v_ssh v1)"])
      (auto simp: stays_def andThen_Done)
qed

lemma dispatch_runs:
  assumes d: "server_init_dispatch x type = Some h" and ok: "sessions_ok m v"
  shows "stays (\<lambda>v'. runs_only x (v_ssh v) (v_ssh v')) (h v pkt)"
proof -
  have g: "stays (\<lambda>v'. runs_only x (v_ssh v) (v_ssh v')) (server_input_global_request x v pkt)"
    using global_steady[of v x pkt] by (auto simp: stays_def steady_server_def steady_runs)
  have k: "stays (\<lambda>v'. runs_only x (v_ssh v) (v_ssh v')) (server_input_keep_alive v pkt)"
    by (simp add: server_input_keep_alive_def stays_def steady_runs)
  show ?thesis
    using d unfolding server_init_dispatch_def
    by (simp only: option.inject option.distinct split: if_split_asm)
      (auto intro: of_channels_runs handlers_steady k open_runs channel_req_runs[OF ok] g)
qed

lemma server_step_runs:
  "server_step x v v' \<Longrightarrow> sessions_ok m v \<Longrightarrow> runs_only x (v_ssh v) (v_ssh v')"
proof (induction rule: server_step.induct)
  case (Step_client type h pkt v v')
  then show ?case using dispatch_runs[of x type h m v pkt] by (simp add: stays_def)
next
  case (Step_exit pid status v v')
  then show ?case using close_by_pid_steady steady_runs by blast
next
  case (Step_closed v chid force v')
  then show ?case using close_by_channel_steady steady_runs by blast
next
  case (Step_end v v')
  then show ?case using destroy_ssh by (simp add: session_destroy_all_def steady_runs)
qed

lemma server_steps_run:
  "(server_step x)\<^sup>*\<^sup>* v v' \<Longrightarrow> server_ok (o_max_sessions (x_opts x)) v \<Longrightarrow> runs_only x (v_ssh v) (v_ssh v')"
proof (induction rule: rtranclp_induct)
  case (step v1 v2)
  have "server_ok (o_max_sessions (x_opts x)) v1" by (rule server_steps_ok[OF step.hyps(1) step.prems])
  then have "sessions_ok (o_max_sessions (x_opts x)) v1" by (simp add: server_ok_def)
  from server_step_runs[OF step.hyps(2) this] step.IH[OF step.prems] show ?case using runs_trans by blast
qed (simp add: steady_runs)

section \<open>No more sessions\<close>

text \<open>The flag a client sets for good, and the slots in use.\<close>

definition winding :: "server \<Rightarrow> server \<Rightarrow> bool" where
  "winding v v' \<longleftrightarrow> (v_no_more_sessions v \<longrightarrow> v_no_more_sessions v' \<and> used_sessions v' \<subseteq> used_sessions v)"

lemma winding_same:
  "v_sessions v' = v_sessions v \<Longrightarrow> v_no_more_sessions v' \<or> \<not> v_no_more_sessions v \<Longrightarrow> winding v v'"
  by (auto simp: winding_def used_sessions_def)

lemma winding_trans: "winding a b \<Longrightarrow> winding b c \<Longrightarrow> winding a c"
  by (auto simp: winding_def)

lemma winding_upd [simp]: "winding v (v1\<lparr>v_ssh := s\<rparr>) = winding v v1"
  by (simp add: winding_def)

lemma winding_session:
  assumes "v_no_more_sessions v' = v_no_more_sessions v" "used_sessions v' \<subseteq> used_sessions v"
  shows "winding v v'"
  using assms by (auto simp: winding_def)

lemma winding_ssh: "v_sessions v' = v_sessions v \<Longrightarrow> v_no_more_sessions v' = v_no_more_sessions v \<Longrightarrow> winding v v'"
  by (rule winding_same) auto

lemma on_session_flag: "keeps (\<lambda>v'. v_no_more_sessions v' = v_no_more_sessions v) (on_session i h v)"
  by (auto simp: on_session_def keeps_def andThen_Done upd_session_def)

lemma agent_flag: "keeps (\<lambda>v'. v_no_more_sessions v' = v_no_more_sessions v) (session_auth_agent_req x pkt v)"
  unfolding session_auth_agent_req_def auth_input_request_forwarding_def Let_def
  by (intro keeps_need keeps_if keeps_Done keeps_option keeps_then keeps_prod keeps_exit) simp_all

lemma session_input_flag:
  "keeps (\<lambda>v'. v_no_more_sessions v' = v_no_more_sessions v) (session_input_channel_req x c rtype pkt v)"
proof -
  have l: "keeps (\<lambda>v'. v_no_more_sessions v' = v_no_more_sessions v)
      (if c_type c = SSH_CHANNEL_LARVAL then larval_req x i rtype pkt v else Done (False, v))" for i
    unfolding larval_req_def by (intro keeps_if on_session_flag agent_flag keeps_Done refl)
  show ?thesis unfolding session_input_channel_req_def
  proof (intro keeps_option keeps_Done keeps_andThen[OF l] refl)
    fix i ok and v1 :: server assume e: "v_no_more_sessions v1 = v_no_more_sessions v"
    show "keeps (\<lambda>v'. v_no_more_sessions v' = v_no_more_sessions v) (case (ok, v1) of (ok, v1) \<Rightarrow>
             if rtype = ''window-change'' then on_session i (session_window_change_req pkt) v1
             else if rtype = ''break'' then on_session i (session_break_req x pkt) v1
             else if rtype = ''signal'' then on_session i (session_signal_req x pkt) v1
             else Done (ok, v1))"
      unfolding e[symmetric] prod.case by (intro keeps_if on_session_flag keeps_Done refl)
  qed
qed

lemma channel_req_winding:
  assumes ok: "sessions_ok m v" shows "stays (winding v) (server_input_channel_req x v pkt)"
  unfolding server_input_channel_req_def
proof (intro stays_need stays_option stays_exit stays_keeps[where Q = "winding v"])
  fix chid rtype p3 c
  have "keeps (winding v) (session_input_channel_req x c rtype p3 v)"
    using session_input_good[OF ok, of x c rtype p3] session_input_flag[of v x c rtype p3]
    by (auto simp: keeps_def good_server_def winding_def)
  then show "keeps (winding v) (if rtype = ''eow@openssh.com''
            then need_end p3 (andThen (on_channel (\<lambda>st. Done (chan_rcvd_eow st)) (unat chid) (v_ssh v))
                   (\<lambda>ssh1. Done (False, v\<lparr>v_ssh := ssh1\<rparr>)))
            else if (c_type c = SSH_CHANNEL_LARVAL \<or> c_type c = SSH_CHANNEL_OPEN) \<and> c_ctype c = ''session''
            then session_input_channel_req x c rtype p3 v
            else Done (False, v))"
    by (intro keeps_if keeps_need keeps_then keeps_Done) (simp_all add: winding_ssh)
next
  fix want :: u8 and ok v1 and chid :: u32 assume "winding v v1"
  then show "stays (winding v) (case (ok, v1) of (ok, v1) \<Rightarrow> case chan (v_ssh v1) (unat chid) of
               None \<Rightarrow> Fatal
             | Some c1 \<Rightarrow>
               if want \<noteq> 0 \<and> c_flags c1 AND CHAN_CLOSE_SENT = 0 then
                 if \<not> c_have_remote_id c1 then Fatal
                 else
                   let p = Packet (if ok then SSH2_MSG_CHANNEL_SUCCESS else SSH2_MSG_CHANNEL_FAILURE)
                             [PUT_U32 (c_remote_id c1)]
                   in if e_pkt_ok (x_env x) p then Done (v1\<lparr>v_ssh := emit (Send p) (v_ssh v1)\<rparr>)
                      else Disconnect
               else Done v1)"
    by (auto simp: stays_def Let_def winding_def split: option.splits if_splits)
qed

lemma open_winding: "stays (winding v) (server_input_channel_open x v pkt)"
proof -
  have s: "keeps (winding v) (server_request_session x p v)" for p
  proof (cases "v_no_more_sessions v")
    case True
    then show ?thesis by (auto simp: server_request_session_def need_end_def keeps_def)
  qed (simp add: keeps_def winding_def)
  have t: "keeps (winding v) (server_request_tun x p v)" for p
    unfolding server_request_tun_def tun_failed_def tun_opened_def Let_def
    by (intro keeps_need keeps_if keeps_Done keeps_then keeps_prod keeps_option keeps_exit winding_ssh) simp_all
  have o: "keeps (winding v) (on_ssh h v)" for h :: "ssh \<Rightarrow> (open_result \<times> ssh) run"
    by (auto simp: on_ssh_def keeps_def andThen_Done winding_ssh)
  have k: "keeps (winding v) (open_by_type x ctype p v)" for ctype p
    unfolding open_by_type_def by (intro keeps_if s t o keeps_Done winding_ssh refl)
  show ?thesis unfolding server_input_channel_open_def
    by (intro stays_need stays_keeps[OF k]) (auto simp: stays_def andThen_Done winding_def)
qed

lemma global_winding: "stays (winding v) (server_input_global_request x v pkt)"
proof -
  have k: "keeps (winding v) (global_by_type x rtype w p v)" for rtype w p
    unfolding global_by_type_def req_tcpip_forward_def req_cancel_tcpip_forward_def req_streamlocal_forward_def
      req_cancel_streamlocal_forward_def Let_def
    by (intro keeps_need keeps_if keeps_then keeps_prod keeps_Done winding_same) simp_all
  show ?thesis unfolding server_input_global_request_def
    by (intro stays_if stays_exit stays_need stays_keeps[OF k])
      (auto simp: stays_def Let_def split: if_splits)
qed

lemma dispatch_winding:
  assumes d: "server_init_dispatch x type = Some h" and ok: "sessions_ok m v"
  shows "stays (winding v) (h v pkt)"
proof -
  have c: "stays (winding v) (of_channels f v pkt)" for f
    by (auto simp: stays_def of_channels_def andThen_Done winding_ssh)
  have k: "stays (winding v) (server_input_keep_alive v pkt)"
    by (simp add: server_input_keep_alive_def stays_def winding_ssh)
  show ?thesis
    using d unfolding server_init_dispatch_def
    by (simp only: option.inject option.distinct split: if_split_asm)
      (auto intro: c k open_winding channel_req_winding[OF ok] global_winding)
qed

lemma flag_kept:
  "session_close m i v = Done v' \<Longrightarrow> v_no_more_sessions v' = v_no_more_sessions v"
  by (auto simp: session_close_def session_unused_def Let_def upd_session_def split: if_split_asm)

lemma destroy_flag: "destroy_from m is v = Done v' \<Longrightarrow> v_no_more_sessions v' = v_no_more_sessions v"
  by (induction "is" arbitrary: v) (auto simp: andThen_Done dest!: flag_kept split: if_split_asm)

lemma close_by_channel_flag:
  assumes "session_close_by_channel m chid force v = Done v'"
  shows "v_no_more_sessions v' = v_no_more_sessions v"
proof (cases "session_by_channel v chid")
  case (Some i)
  define s where "s = v_sessions v ! i"
  define v1 where "v1 = (if ss_pid s \<noteq> 0 \<and> ss_ttyfd s \<noteq> -1 then upd_session i session_pty_cleanup v else v)"
  have v1: "v_no_more_sessions v1 = v_no_more_sessions v" by (simp add: v1_def upd_session_def)
  note r = assms[unfolded session_close_by_channel_def Some option.case Let_def, folded s_def, folded v1_def]
  show ?thesis
  proof (cases "ss_pid s \<noteq> 0 \<and> \<not> force")
    case False
    have "(if ss_pid s \<noteq> 0 \<and> \<not> force then a else b) = b" for a b :: "server run" using False by (rule if_not_P)
    from r[unfolded this] obtain w where "session_close m i w = Done v'"
      and w: "v_no_more_sessions w = v_no_more_sessions v1"
      by (auto simp: andThen_Done upd_session_def)
    with flag_kept w v1 show ?thesis by metis
  qed (use r v1 in simp)
qed (use assms in \<open>simp add: session_close_by_channel_def\<close>)

lemma server_step_winding: "server_step x v v' \<Longrightarrow> server_ok (o_max_sessions (x_opts x)) v \<Longrightarrow> winding v v'"
proof (induction rule: server_step.induct)
  case (Step_client type h pkt v v')
  then show ?case using dispatch_winding[of x type h _ v pkt] by (auto simp: stays_def server_ok_def)
next
  case (Step_exit pid status v v')
  from Step_exit(1) have "v_no_more_sessions v' = v_no_more_sessions v"
    by (auto simp: session_close_by_pid_def Let_def andThen_Done upd_session_def split: option.splits)
  with close_by_pid_result[OF _ Step_exit(1)] Step_exit(2) show ?case by (auto simp: winding_def server_ok_def)
next
  case (Step_closed v chid force v')
  have ok: "sessions_ok (o_max_sessions (x_opts x)) v" using Step_closed(3) by (simp add: server_ok_def)
  have "used_sessions v' \<subseteq> used_sessions v"
    using close_by_channel_result(2,3)[OF ok Step_closed(2)]
    by (cases "session_by_channel v chid") (auto split: if_split_asm)
  with close_by_channel_flag[OF Step_closed(2)] show ?case by (simp add: winding_def)
next
  case (Step_end v v')
  then have ok: "sessions_ok (o_max_sessions (x_opts x)) v" by (simp add: server_ok_def)
  obtain v2 where "destroy_from (o_max_sessions (x_opts x)) [0..<length (v_sessions v)] v = Done v2"
    "used_sessions v2 = used_sessions v - set [0..<length (v_sessions v)]"
    using destroy_from_result[OF ok, of "[0..<length (v_sessions v)]"] by (auto simp: subset_eq)
  with Step_end destroy_flag[of _ _ v v'] show ?case
    by (auto simp: session_destroy_all_def winding_def)
qed

lemma server_steps_winding:
  "(server_step x)\<^sup>*\<^sup>* v v' \<Longrightarrow> server_ok (o_max_sessions (x_opts x)) v \<Longrightarrow> winding v v'"
proof (induction rule: rtranclp_induct)
  case (step v1 v2)
  have "server_ok (o_max_sessions (x_opts x)) v1" by (rule server_steps_ok[OF step.hyps(1) step.prems])
  from server_step_winding[OF step.hyps(2) this] step.IH[OF step.prems] show ?case using winding_trans by blast
qed (simp add: winding_def)

section \<open>What a request runs\<close>

lemma set_fds_result:
  assumes "session_set_fds e s fi fo fe ig tty ssh = Done ssh'"
  shows "children (s_effects ssh') = children (s_effects ssh) \<and>
    (\<exists>c. chan ssh' (nat (ss_chanid s)) = Some c \<and> c_type c = SSH_CHANNEL_OPEN \<and>
       c_local_window c = CHAN_SES_WINDOW_DEFAULT \<and> c_local_window_max c = CHAN_SES_WINDOW_DEFAULT)"
proof -
  let ?c = "\<lambda>c. (channel_register_fds e c fo fi fe (if ig then CHAN_EXTENDED_IGNORE else CHAN_EXTENDED_READ)
        CHANNEL_NONBLOCK_SET tty)
      \<lparr>c_type := SSH_CHANNEL_OPEN, c_lastused := e_monotime e, c_local_window := CHAN_SES_WINDOW_DEFAULT,
       c_local_window_max := CHAN_SES_WINDOW_DEFAULT\<rparr>"
  from assms obtain c p where c: "channel_lookup ssh (ss_chanid s) = Some c"
    and s: "ssh' = emit (Send p) (set_slot (nat (ss_chanid s)) (Some (?c c)) ssh)"
    by (auto simp: session_set_fds_def channel_set_fds_def Let_def split: option.splits if_split_asm)
  from chan_nth[OF lookup_by_id_chan[OF c]] have "chan ssh' (nat (ss_chanid s)) = Some (?c c)"
    by (simp add: s chan_set_slot)
  then show ?thesis by (simp add: s effects_emit)
qed

definition ran :: "srv_context \<Rightarrow> string option \<Rightarrow> ssh \<Rightarrow> bool \<Rightarrow> session \<times> ssh \<Rightarrow> bool" where
  "ran x command ssh ok = (\<lambda>(s', ssh').
     children (s_effects ssh') = children (s_effects ssh) @ (if ok then [command] else []) \<and>
     (ok \<longrightarrow> ss_pid s' = y_fork (x_sys x) \<and>
       (\<exists>c. chan ssh' (nat (ss_chanid s')) = Some c \<and> c_type c = SSH_CHANNEL_OPEN \<and>
          c_local_window c = CHAN_SES_WINDOW_DEFAULT \<and> c_local_window_max c = CHAN_SES_WINDOW_DEFAULT)))"

lemma effects_closes: "children (s_effects (closes fds ssh)) = children (s_effects ssh)"
  by (simp add: closes_def)

lemma ran_none: "ran x command ssh False (s, ssh)" "ran x command ssh False (s, closes fds ssh)"
  by (simp_all add: ran_def effects_closes)

lemma ran_set_fds:
  assumes "session_set_fds e s fi fo fe ig tty (closes fds (emit (Run_child command n b) ssh)) = Done ssh'"
    and "ss_pid s = y_fork (x_sys x)"
  shows "ran x command ssh True (s, ssh')"
  using set_fds_result[OF assms(1)] assms(2) by (simp add: ran_def effects_closes effects_emit)

lemma exec_no_pty_ran: "yields (ran x command ssh) (do_exec_no_pty x s command ssh)"
  unfolding do_exec_no_pty_def Let_def
  by (intro yields_option yields_prod yields_if yields_then yields_Done ran_none) (auto intro: ran_set_fds)

lemma exec_pty_ran: "yields (ran x command ssh) (do_exec_pty x s command ssh)"
  unfolding do_exec_pty_def Let_def
  by (intro yields_option yields_prod yields_if yields_then yields_Done ran_none) (auto intro: ran_set_fds)

lemma do_exec_result:
  assumes "do_exec x s command ssh = Done (ok, s', ssh')"
  shows "ran x (case forced_command x of Some c \<Rightarrow> Some c | None \<Rightarrow> command) ssh ok (s', ssh')"
proof -
  have "yields (ran x (case forced_command x of Some c \<Rightarrow> Some c | None \<Rightarrow> command) ssh) (do_exec x s command ssh)"
    unfolding do_exec_def Let_def by (intro yields_if exec_pty_ran exec_no_pty_ran)
  from yieldsD[OF this assms] show ?thesis .
qed

section \<open>Destinations and listeners\<close>

lemma lists_shrink_connect: "lists_shrink a b \<Longrightarrow> connect_permitted b host port \<Longrightarrow> connect_permitted a host port"
proof -
  have "\<not> open_match fwd_perm_clear host port" by (simp add: open_match_iff fwd_perm_clear_def)
  then show "lists_shrink a b \<Longrightarrow> connect_permitted b host port \<Longrightarrow> connect_permitted a host port"
    unfolding connect_permitted_iff lists_shrink_def by (metis insertE subsetD)
qed

lemma lists_shrink_rfwd: "lists_shrink a b \<Longrightarrow> check_rfwd_permission b fwd = check_rfwd_permission a fwd"
  by (simp add: check_rfwd_iff lists_shrink_def)

text \<open>A connecting channel that an open request makes goes where the lists permit.\<close>

definition goes_permitted :: "ssh \<Rightarrow> open_result \<Rightarrow> ssh \<Rightarrow> bool" where
  "goes_permitted ssh r ssh' \<longleftrightarrow> (\<forall>i c. r_chan r = Some i \<longrightarrow> chan ssh' i = Some c \<longrightarrow>
     c_type c = SSH_CHANNEL_CONNECTING \<longrightarrow>
     (\<exists>host. c_path c = Some host \<and> connect_permitted ssh host (c_host_port c)))"

lemma connect_goes:
  assumes "connect_to e nt ssh host port ctype rname = Done (r, ssh')" "connect_permitted ssh host port" "r_chan res = r"
  shows "goes_permitted ssh res ssh'"
  using connect_to_result[OF assms(1)] assms(2,3) by (cases r) (auto simp: goes_permitted_def)

lemma goes_none: "r_chan r = None \<Longrightarrow> goes_permitted ssh r ssh'"
  by (simp add: goes_permitted_def)

lemma direct_tcpip_goes: "yields (goes_permitted ssh) (server_request_direct_tcpip x pkt ssh)"
  unfolding server_request_direct_tcpip_def channel_connect_to_port_def
  by (intro yields_rules; (simp add: andThen_Done split: if_split_asm)?)
    (auto simp: goes_none intro: connect_goes)

lemma direct_streamlocal_goes: "yields (goes_permitted ssh) (server_request_direct_streamlocal x pkt ssh)"
  unfolding server_request_direct_streamlocal_def channel_connect_to_path_def
  by (intro yields_rules; (simp add: andThen_Done split: if_split_asm)?)
    (auto simp: goes_none intro: connect_goes)

lemma cleanup_type:
  "chan (channel_register_cleanup ssh i cb b) j = Some c' \<Longrightarrow> \<exists>c. chan ssh j = Some c \<and> c_type c = c_type c'"
  by (auto simp: channel_register_cleanup_def chan_set_slot dest!: by_id_chan split: option.splits if_split_asm)

lemma filter_type:
  "chan (channel_register_filter ssh i f1 f2 f3 f4) j = Some c' \<Longrightarrow> \<exists>c. chan ssh j = Some c \<and> c_type c = c_type c'"
  by (auto simp: channel_register_filter_def chan_set_slot dest!: lookup_by_id_chan split: option.splits if_split_asm)

lemma goes_other:
  "(\<And>i c. r_chan r = Some i \<Longrightarrow> chan ssh' i = Some c \<Longrightarrow> c_type c \<noteq> SSH_CHANNEL_CONNECTING) \<Longrightarrow> goes_permitted ssh r ssh'"
  by (auto simp: goes_permitted_def)

lemma new_type:
  "channel_new e ssh ctype type rfd wfd efd window maxpack eu name nb = Done (i, ssh') \<Longrightarrow> chan ssh' i = Some c \<Longrightarrow>
   c_type c = type"
  using channel_new_chan[of e ssh ctype type rfd wfd efd window maxpack eu name nb i ssh'] by (auto simp: fresh_channel_def)

lemma tun_goes: "yields (\<lambda>r v'. goes_permitted a r (v_ssh v')) (server_request_tun x pkt v)"
  unfolding server_request_tun_def tun_failed_def tun_opened_def Let_def
proof (intro yields_rules goes_other)
  fix mode sock i ssh1 c t q j c'
  assume n: "channel_new (x_env x) (v_ssh v) ''tun'' SSH_CHANNEL_OPEN sock sock (-1)
                CHAN_TCP_WINDOW_DEFAULT CHAN_TCP_PACKET_DEFAULT CHAN_EXTENDED_IGNORE ''tun''
                CHANNEL_NONBLOCK_SET = Done q" "q = (i, ssh1)" and c: "s_channels ssh1 ! i = Some c"
    and j: "r_chan (with_channel (Some i)) = Some j"
    and c': "chan (v_ssh (v\<lparr>v_ssh := if mode = SSH_TUNMODE_POINTOPOINT
                      then channel_register_filter (set_slot i (Some (c\<lparr>c_datagram := True\<rparr>)) ssh1) (int i)
                             (Some SYS_TUN_INFILTER) (Some SYS_TUN_OUTFILTER) None None
                      else set_slot i (Some (c\<lparr>c_datagram := True\<rparr>)) ssh1, v_tun_ifnames := t\<rparr>)) j = Some c'"
  note n = n(1)[unfolded n(2)]
  note ci = new_slot[OF n c]
  from c' obtain c2 where "chan (set_slot i (Some (c\<lparr>c_datagram := True\<rparr>)) ssh1) j = Some c2" "c_type c2 = c_type c'"
    by (auto dest: filter_type split: if_split_asm)
  with j chan_nth[OF ci] new_type[OF n ci] show "c_type c' \<noteq> SSH_CHANNEL_CONNECTING" by (auto simp: chan_set_slot)
qed simp_all

lemma session_goes: "yields (\<lambda>r v'. goes_permitted a r (v_ssh v')) (server_request_session x pkt v)"
  unfolding server_request_session_def
proof (intro yields_rules goes_other)
  fix q i ssh1 w ok v1 j c'
  assume n: "channel_new (x_env x) (v_ssh v) ''session'' SSH_CHANNEL_LARVAL (-1) (-1) (-1) 0
                  CHAN_SES_PACKET_DEFAULT CHAN_EXTENDED_IGNORE ''server-session'' CHANNEL_NONBLOCK_SET = Done q"
      "q = (i, ssh1)"
    and o: "session_open (y_grow (x_sys x)) (o_max_sessions (x_opts x)) (x_user_ok x) (int i) (v\<lparr>v_ssh := ssh1\<rparr>) = Done w"
      "w = (ok, v1)"
    and j: "r_chan (with_channel (Some i)) = Some j"
    and c': "chan (v_ssh (v1\<lparr>v_ssh := channel_register_cleanup (v_ssh v1) (int i) (Some SESSION_CLOSE_BY_CHANNEL) False\<rparr>)) j = Some c'"
  note n = n(1)[unfolded n(2)]
  have "v_ssh v1 = ssh1" using session_open_ssh[OF o(1)[unfolded o(2)]] by simp
  with c' j obtain c where "chan ssh1 i = Some c" "c_type c = c_type c'" by (auto dest: cleanup_type)
  with new_type[OF n] show "c_type c' \<noteq> SSH_CHANNEL_CONNECTING" by auto
qed simp_all

lemma open_by_type_goes: "yields (\<lambda>r v'. goes_permitted (v_ssh v) r (v_ssh v')) (open_by_type x ctype pkt v)"
proof -
  have o: "yields (\<lambda>r v'. goes_permitted (v_ssh v) r (v_ssh v')) (on_ssh h v)"
    if "yields (goes_permitted (v_ssh v)) (h (v_ssh v))" for h
    using that by (auto simp: on_ssh_def yields_def andThen_Done)
  show ?thesis unfolding open_by_type_def
    by (intro yields_if session_goes tun_goes o direct_tcpip_goes direct_streamlocal_goes yields_Done goes_none) simp
qed

lemma open_goes:
  assumes res: "server_input_channel_open x v pkt = Done v'"
    and new: "chan (v_ssh v) i = None" "chan (v_ssh v') i = Some c" "c_type c = SSH_CHANNEL_CONNECTING"
  shows "\<exists>host. c_path c = Some host \<and> connect_permitted (v_ssh v) host (c_host_port c)"
proof -
  from res obtain ctype p4 rchan rw rm r v1 ssh1 where o: "open_by_type x ctype p4 v = Done (r, v1)"
    and a: "answer_open (x_env x) rchan rw rm r (v_ssh v1) = Done ssh1" and v': "v' = v1\<lparr>v_ssh := ssh1\<rparr>"
    by (auto simp: server_input_channel_open_def need_cstring_def need_u32_def andThen_Done
        split: sum.splits prod.splits)
  note g = yieldsD[OF open_by_type_goes o] and op = yieldsD[OF open_by_type_opens o, unfolded opens_def opened_def]
  have c: "chan ssh1 i = Some c" using new(2) v' by simp
  show ?thesis
  proof (cases "r_chan r")
    case None
    with op have "\<forall>j. chan (v_ssh v1) j = chan (v_ssh v) j" by simp
    moreover from a None have "chan ssh1 = chan (v_ssh v1)"
      by (auto simp: answer_open_def Let_def split: if_split_asm)
    ultimately show ?thesis using c new(1) by simp
  next
    case (Some k)
    with op obtain c0 where c0: "\<forall>j. chan (v_ssh v1) j = (if j = k then Some c0 else chan (v_ssh v) j)" by auto
    then have k: "chan (v_ssh v1) k = Some c0" by simp
    define c1 where "c1 = c0\<lparr>c_remote_id := rchan, c_have_remote_id := True, c_remote_window := rw, c_remote_maxpacket := rm\<rparr>"
    from a Some k have "chan ssh1 = chan (set_slot k (Some c1) (v_ssh v1))"
      by (auto simp: answer_open_def Let_def c1_def split: if_split_asm)
    then have "chan ssh1 i = (if i = k then Some c1 else chan (v_ssh v) i)" using c0 chan_nth[OF k] by (simp add: chan_set_slot)
    with c new(1) have "i = k" "c = c1" by (auto split: if_split_asm)
    with g Some k new(3) show ?thesis by (auto simp: goes_permitted_def c1_def)
  qed
qed

text \<open>A listener that a global request makes is one the lists permit.\<close>

definition listens_permitted :: "ssh \<Rightarrow> ssh \<Rightarrow> bool" where
  "listens_permitted ssh ssh' \<longleftrightarrow> (\<forall>j c. chan ssh j = None \<longrightarrow> chan ssh' j = Some c \<longrightarrow>
     (\<exists>fwd. check_rfwd_permission ssh fwd \<and>
        (if f_listen_path fwd = None
         then c_type c = SSH_CHANNEL_RPORT_LISTENER \<and> c_path c \<noteq> None \<and> f_listen_host fwd = c_path c
         else c_type c = SSH_CHANNEL_RUNIX_LISTENER \<and> c_listening_addr c = f_listen_path fwd)))"

lemma listens_same: "chan ssh' = chan ssh \<Longrightarrow> listens_permitted ssh ssh'"
  by (simp add: listens_permitted_def)

lemma setup_tcpip_listens:
  assumes res: "channel_setup_fwd_listener_tcpip e nt ssh SSH_CHANNEL_RPORT_LISTENER fwd wp fo = Done (ok, port, ssh')"
    and new: "chan ssh j = None" "chan ssh' j = Some c"
  shows "c_type c = SSH_CHANNEL_RPORT_LISTENER \<and> c_path c \<noteq> None \<and> f_listen_host fwd = c_path c"
proof -
  obtain addr wc told where b: "channel_fwd_bind_addr (s_compat ssh) (f_listen_host fwd) False fo = (addr, wc, told)"
    by (metis prod_cases3)
  define ssh1 where "ssh1 = (if told then emit (Send_debug ''listen address overridden'') ssh else ssh)"
  have c1: "chan ssh1 = chan ssh" by (simp add: ssh1_def)
  have n: "chan ssh' \<noteq> chan ssh" using new by auto
  obtain h where h: "f_listen_host fwd = Some h"
    using res n by (cases "f_listen_host fwd") (auto simp: channel_setup_fwd_listener_tcpip_def)
  from res n c1 obtain ais al where
    "listen_loop e nt SSH_CHANNEL_RPORT_LISTENER fwd h addr ais al False ssh1 = Done (ok, port, ssh')"
    by (auto simp: channel_setup_fwd_listener_tcpip_def Let_def h b[unfolded h] ssh1_def[symmetric]
        split: option.splits if_split_asm)
  from listen_loop_added[OF this] new c1 have "c_type c = SSH_CHANNEL_RPORT_LISTENER \<and> c_path c = Some h"
    by (auto simp: added_def)
  with h show ?thesis by simp
qed

lemma setup_streamlocal_listens:
  assumes res: "channel_setup_fwd_listener_streamlocal e nt ssh SSH_CHANNEL_RUNIX_LISTENER fwd fo = Done (ok, ssh')"
    and new: "chan ssh j = None" "chan ssh' j = Some c"
  shows "c_type c = SSH_CHANNEL_RUNIX_LISTENER \<and> c_listening_addr c = f_listen_path fwd \<and> f_listen_path fwd \<noteq> None"
proof -
  have "ssh' \<noteq> ssh" using new by auto
  with res obtain lpath sock i ssh1 c1 where
    n: "channel_new e ssh ''unix-listener'' SSH_CHANNEL_RUNIX_LISTENER sock sock (-1)
                          CHAN_TCP_WINDOW_DEFAULT CHAN_TCP_PACKET_DEFAULT CHAN_EXTENDED_IGNORE
                          ''unix listener'' CHANNEL_NONBLOCK_SET = Done (i, ssh1)"
    and c1: "s_channels ssh1 ! i = Some c1"
    and s: "ssh' = set_slot i (Some (c1\<lparr>c_path := f_listen_path fwd, c_host_port := PORT_STREAMLOCAL,
                        c_listening_port := PORT_STREAMLOCAL, c_listening_addr := Some lpath\<rparr>)) ssh1"
    and l: "f_listen_path fwd = Some lpath"
    by (auto simp: channel_setup_fwd_listener_streamlocal_def Let_def andThen_Done split: option.splits if_split_asm)
  note ci = new_slot[OF n c1]
  from new(2) chan_nth[OF ci] have "chan ssh' j = (if j = i then Some (c1\<lparr>c_path := f_listen_path fwd, c_host_port := PORT_STREAMLOCAL,
                        c_listening_port := PORT_STREAMLOCAL, c_listening_addr := Some lpath\<rparr>) else chan ssh1 j)"
    by (simp add: s chan_set_slot)
  moreover have "chan ssh1 j = chan ssh j" if "j \<noteq> i" using channel_new_chan[OF n] that by auto
  ultimately show ?thesis using new new_type[OF n ci] l by (auto split: if_split_asm)
qed

lemma setup_remote_listens:
  assumes res: "channel_setup_remote_fwd_listener e nt ssh fwd wp fo = Done (ok, port, ssh')"
  shows "listens_permitted ssh ssh'"
  unfolding listens_permitted_def
proof (intro allI impI)
  fix j c assume new: "chan ssh j = None" "chan ssh' j = Some c"
  have p: "check_rfwd_permission ssh fwd" using setup_remote_denied[OF res] new by fastforce
  show "\<exists>fwd. check_rfwd_permission ssh fwd \<and>
        (if f_listen_path fwd = None
         then c_type c = SSH_CHANNEL_RPORT_LISTENER \<and> c_path c \<noteq> None \<and> f_listen_host fwd = c_path c
         else c_type c = SSH_CHANNEL_RUNIX_LISTENER \<and> c_listening_addr c = f_listen_path fwd)"
  proof (cases "f_listen_path fwd = None")
    case True
    with res p have "channel_setup_fwd_listener_tcpip e nt ssh SSH_CHANNEL_RPORT_LISTENER fwd wp fo = Done (ok, port, ssh')"
      by (simp add: channel_setup_remote_fwd_listener_def)
    from setup_tcpip_listens[OF this new] p True show ?thesis by auto
  next
    case False
    with res p have "channel_setup_fwd_listener_streamlocal e nt ssh SSH_CHANNEL_RUNIX_LISTENER fwd fo = Done (ok, ssh')"
      by (auto simp: channel_setup_remote_fwd_listener_def andThen_Done)
    from setup_streamlocal_listens[OF this new] p False show ?thesis by auto
  qed
qed

lemma cancel_loop_frees:
  "cancel_loop e sel is found ssh = Done (b, ssh') \<Longrightarrow> set is \<subseteq> {..<length (s_channels ssh)} \<Longrightarrow>
   chan ssh j = None \<Longrightarrow> chan ssh' j = None"
proof (induction "is" arbitrary: found ssh)
  case (Cons i "is")
  show ?case
  proof (cases "s_channels ssh ! i")
    case (Some c)
    then have i: "chan ssh i = Some c" using Cons.prems(2) by (simp add: chan_def)
    show ?thesis
    proof (cases "sel c")
      case True
      with Cons.prems(1) Some obtain ssh1 where f: "channel_free e ssh i = Done ssh1"
        and r: "cancel_loop e sel is True ssh1 = Done (b, ssh')" by (auto simp: andThen_Done)
      have "chan ssh1 j = None" using channel_free_chan(1)[OF f i, of j] Cons.prems(3) by simp
      with Cons.IH[OF r] Cons.prems(2) channel_free_chan(4)[OF f i] show ?thesis by simp
    qed (use Cons Some in auto)
  qed (use Cons in auto)
qed simp

lemma cancel_listens: "channel_cancel_rport_listener e ssh fwd = Done (b, ssh') \<Longrightarrow> listens_permitted ssh ssh'"
  using cancel_loop_frees[of e _ "slots ssh" False ssh b ssh']
  by (auto simp: listens_permitted_def channel_cancel_rport_listener_def channel_cancel_rport_listener_tcpip_def
      channel_cancel_rport_listener_streamlocal_def slots_def subset_eq split: option.splits)

lemma global_listens: "stays (\<lambda>v'. listens_permitted (v_ssh v) (v_ssh v')) (server_input_global_request x v pkt)"
proof -
  let ?L = "\<lambda>v'. listens_permitted (v_ssh v) (v_ssh v')"
  have g: "keeps ?L (global_by_type x rtype w p v)" for rtype w p
    unfolding global_by_type_def req_tcpip_forward_def req_cancel_tcpip_forward_def req_streamlocal_forward_def
      req_cancel_streamlocal_forward_def Let_def
    by (intro keeps_need keeps_if keeps_then keeps_prod keeps_Done)
      (auto simp: listens_same split: if_split_asm dest: setup_remote_listens cancel_listens)
  have e: "listens_permitted a (emit y b) = listens_permitted a b" for a b y by (simp add: listens_permitted_def)
  show ?thesis unfolding server_input_global_request_def
    by (intro stays_if stays_exit stays_need stays_keeps[OF g])
      (auto simp: stays_def Let_def e split: if_splits)
qed

section \<open>A server set up from its configuration\<close>

text \<open>The setup of the lists makes no channel, and no permission that belongs to a multiplexing client.\<close>

definition lists_only :: "ssh \<Rightarrow> ssh \<Rightarrow> bool" where
  "lists_only ssh ssh' \<longleftrightarrow> s_channels ssh' = s_channels ssh \<and> s_effects ssh' = s_effects ssh \<and>
     (\<forall>p\<in>set (ps_permitted_user (s_local_perms ssh')).
        p \<in> set (ps_permitted_user (s_local_perms ssh)) \<or> p_downstream p = None)"

lemma lists_only_refl [simp]: "lists_only ssh ssh"
  by (simp add: lists_only_def)

lemma lists_only_trans: "lists_only a b \<Longrightarrow> lists_only b c \<Longrightarrow> lists_only a c"
  unfolding lists_only_def by metis

lemmas perm_ops = permission_set_add_def permission_set_put.simps permission_set_get.simps permission_set_get_array.simps
  permission_set_put_array.simps

lemma lists_only_clear: "lists_only ssh (channel_clear_permission ssh who whr)"
  by (cases who; cases whr) (auto simp: channel_clear_permission_def lists_only_def perm_ops)

lemma lists_only_add: "channel_add_permission ssh who whr host port = Done ssh' \<Longrightarrow> lists_only ssh ssh'"
  by (cases who; cases whr)
    (auto simp: channel_add_permission_def lists_only_def perm_ops Let_def andThen_Done split: if_split_asm)

lemma lists_only_disable: "channel_disable_admin ssh whr = Done ssh' \<Longrightarrow> lists_only ssh ssh'"
  by (rule lists_only_trans[OF lists_only_clear[of ssh FORWARD_ADM whr]], cases whr)
    (auto simp: channel_disable_admin_def lists_only_def perm_ops Let_def andThen_Done split: if_split_asm)

lemma lists_only_permit: "lists_only ssh (channel_permit_all ssh whr)"
  by (cases whr) (auto simp: channel_permit_all_def lists_only_def perm_ops Let_def)

lemma lists_only_entries: "add_entries entry who whr ss ssh = Done ssh' \<Longrightarrow> lists_only ssh ssh'"
proof (induction ss arbitrary: ssh)
  case (Cons s ss)
  from add_entries_Cons[OF Cons.prems] obtain host port s1 where
    "channel_add_permission ssh who whr host port = Done s1" "add_entries entry who whr ss s1 = Done ssh'" by blast
  with Cons.IH lists_only_add lists_only_trans show ?case by metis
qed simp

lemma lists_only_setup: "fwd_setup gs opts aopts ssh = Done ssh' \<Longrightarrow> lists_only ssh ssh'"
proof -
  have a: "stays (lists_only a) (add_entries entry who whr ss (channel_clear_permission b who2 whr2))" if "lists_only a b"
    for a b entry who whr ss who2 whr2
    using that lists_only_entries lists_only_clear lists_only_trans unfolding stays_def by metis
  have d: "stays (lists_only a) (channel_disable_admin b whr)" if "lists_only a b" for a b whr
    using that lists_only_disable lists_only_trans unfolding stays_def by metis
  have e: "stays (lists_only a) (enable_or_disable opts whr b)" if "lists_only a b" for a b whr
    using that d lists_only_trans[OF that lists_only_permit] by (simp add: enable_or_disable_def stays_def)
  have p: "stays (lists_only a) (process_permitopen_list gs b whr opens)" if "lists_only a b" for a b whr opens
    unfolding process_permitopen_list_def Let_def
    by (intro stays_if stays_Done a d) (use that lists_only_trans[OF that lists_only_clear] in auto)
  have t: "stays (lists_only a) (andThen m k)" if "stays (lists_only a) m" "\<And>b. lists_only a b \<Longrightarrow> stays (lists_only a) (k b)"
    for a and m :: "ssh run" and k
    using that by (cases m) (auto simp: stays_def)
  have "stays (lists_only ssh) (fwd_setup gs opts aopts ssh)"
    unfolding fwd_setup_def process_permitopen_def do_authenticated_fwd_def set_fwdpermit_from_authopts_def
    by (intro t stays_if stays_Done a d e p lists_only_refl) assumption+
  then show "fwd_setup gs opts aopts ssh = Done ssh' \<Longrightarrow> lists_only ssh ssh'" by (simp add: stays_def)
qed

definition server_setup :: "u32 \<Rightarrow> ssh \<Rightarrow> server" where
  "server_setup cm ssh = (server_start cm)\<lparr>v_ssh := ssh\<rparr>"

lemma server_setup_ok:
  assumes "fwd_setup gs opts aopts (channel_init_channels cm) = Done ssh"
  shows "server_ok m (server_setup cm ssh)"
proof -
  have l: "lists_only (channel_init_channels cm) ssh" by (rule lists_only_setup[OF assms])
  have "chan ssh i = None" for i
    using l by (simp add: lists_only_def chan_def channel_init_channels_def)
  moreover have "p_downstream p = None" if "p \<in> set (ps_permitted_user (s_local_perms ssh))" for p
    using l that by (auto simp: lists_only_def channel_init_channels_def empty_set_perms_def)
  ultimately have "sound ssh" by (simp add: sound_def table_ok_def refs_ok_def)
  then show ?thesis using server_start_ok[of m cm] by (simp add: server_ok_def server_setup_def)
qed

end
