(* ===== verification/ServerProps.thy ===== *)
theory ServerProps
  imports Demo ServerTrace
begin

text \<open>
  Properties of a server: what no sequence of a client's messages, of children's exits and of closed
  channels can break, how each open request is answered, and which commands are run.
\<close>

section \<open>A server for the witnesses\<close>

text \<open>One session at most, the command \<open>true\<close> forced by the key, connections to \<open>db:5432\<close> and listeners on
  \<open>127.0.0.1:8080\<close> only.\<close>

definition demo_srv_opts :: session_options where
  "demo_srv_opts = \<lparr>o_allow_tcp_forwarding = 3, o_disable_forwarding = False,
     o_permitted_opens = [''db:5432''], o_permitted_listens = [''127.0.0.1:8080''],
     o_max_sessions = 1, o_permit_tty = False, o_adm_forced_command = None,
     o_subsystems = [], o_accept_env = [''LANG''], o_x11_forwarding = False, o_xauth_location = None,
     o_x11_display_offset = 10, o_x11_use_localhost = True, o_allow_agent_forwarding = False,
     o_allow_streamlocal_forwarding = 0, o_permit_tun = 0,
     o_fwd_opts = \<lparr>gateway_ports = 0, streamlocal_bind_unlink = False\<rparr>,
     o_use_privsep = True\<rparr>"

definition demo_srv_aopts :: session_authopts where
  "demo_srv_aopts = \<lparr>a_permit_port_forwarding_flag = True, a_permitopen = [], a_permitlisten = [],
     a_permit_pty_flag = False, a_permit_x11_forwarding_flag = False, a_permit_agent_forwarding_flag = False,
     a_force_command = Some ''true'', a_force_tun_device = -1\<rparr>"

definition demo_sys :: sys where
  "demo_sys = \<lparr>y_pty = None, y_pipe = (\<lambda>k. Some (10 + 2 * int k, 11 + 2 * int k)), y_dup = (\<lambda>k. 20 + int k),
     y_fork = 300, y_killpg = (\<lambda>_ _. True), y_sendbreak = (\<lambda>_. True), y_stat = (\<lambda>_. True),
     y_hostname = Some ''gw'', y_agent_dir = None, y_tun = (\<lambda>_ _. (-1, '''')), y_unsupported = (\<lambda>_. False),
     y_grow = (\<lambda>_. True), y_gai_strerror = '''', y_prove = (\<lambda>_. None), y_write_wait = True\<rparr>"

definition demo_x :: srv_context where
  "demo_x = \<lparr>x_env = demo_env, x_net = demo_net, x_sys = demo_sys, x_opts = demo_srv_opts,
     x_aopts = demo_srv_aopts, x_user_ok = True, x_uid = 1000, x_pid = ''7''\<rparr>"

definition demo_str :: "string \<Rightarrow> u8 list" where
  "demo_str s = [0, 0, 0, word_of_nat (length s)] @ map of_char s"

text \<open>Messages: a session, the command \<open>ls\<close> in it, no more sessions.\<close>

definition demo_open_session :: sshbuf where
  "demo_open_session = demo_buf (demo_str ''session'' @ [0, 0, 0, 5, 0, 0, 4, 0, 0, 0, 4, 0])"

definition demo_exec :: sshbuf where
  "demo_exec = demo_buf ([0, 0, 0, 0] @ demo_str ''exec'' @ [1] @ demo_str ''ls'')"

definition demo_no_more :: sshbuf where
  "demo_no_more = demo_buf (demo_str ''no-more-sessions@openssh.com'' @ [0])"

text \<open>Messages of a forwarding: a connection to \<open>db:5432\<close>, and a listener.\<close>

definition demo_direct :: sshbuf where
  "demo_direct = demo_buf (demo_str ''direct-tcpip'' @ [0, 0, 0, 5, 0, 0, 4, 0, 0, 0, 4, 0] @
     demo_str ''db'' @ [0, 0, 0x15, 0x38] @ demo_str ''h'' @ [0, 0, 0, 1])"

definition demo_listen :: sshbuf where
  "demo_listen = demo_buf (demo_str ''tcpip-forward'' @ [1] @ demo_str ''127.0.0.1'' @ [0, 0, 0x1f, 0x90])"

text \<open>The lists the setup makes of the configuration.\<close>

definition demo_ssh :: ssh where
  "demo_ssh = (channel_init_channels 0)
     \<lparr>s_local_perms := \<lparr>ps_permitted_user = [], ps_permitted_admin = [local_perm (''db'', 5432)], ps_all_permitted = True\<rparr>,
      s_remote_perms := \<lparr>ps_permitted_user = [], ps_permitted_admin = [remote_perm (''127.0.0.1'', 8080)], ps_all_permitted = True\<rparr>\<rparr>"

lemma demo_srv_entries:
  "permit_entry (\<lambda>_. None) hpdelim ''db:5432'' = Some (''db'', 5432)"
  "permit_entry (\<lambda>_. None) hpdelim ''127.0.0.1:8080'' = Some (''127.0.0.1'', 8080)"
  by code_simp+

lemma demo_srv_setup:
  "fwd_setup (\<lambda>_. None) (server_options.truncate (x_opts demo_x)) (fwd_authopts.truncate (x_aopts demo_x))
     (channel_init_channels 0) = Done demo_ssh"
  by (simp add: fwd_setup_def process_permitopen_def process_permitopen_list_def do_authenticated_fwd_def
      set_fwdpermit_from_authopts_def enable_or_disable_def demo_x_def demo_srv_opts_def demo_srv_aopts_def
      server_options.truncate_def fwd_authopts.truncate_def demo_srv_entries allows_def bit_of_def
      channel_add_permission_def channel_clear_permission_def channel_permit_all_def permission_set_add_def
      permission_set_get_array.simps channel_init_channels_def empty_set_perms_def demo_ssh_def local_perm_def
      remote_perm_def Let_def)

lemma demo_forwards:
  "case server_input_channel_open demo_x (server_setup 0 demo_ssh) demo_direct of
     Done v \<Rightarrow> (case chan (v_ssh v) 0 of
        Some c \<Rightarrow> c_type c = SSH_CHANNEL_CONNECTING \<and> c_path c = Some ''db'' \<and> c_host_port c = 5432
      | None \<Rightarrow> False)
   | _ \<Rightarrow> False"
  "case server_input_global_request demo_x (server_setup 0 demo_ssh) demo_listen of
     Done v \<Rightarrow> (case chan (v_ssh v) 0 of
        Some c \<Rightarrow> c_type c = SSH_CHANNEL_RPORT_LISTENER \<and> c_path c = Some ''127.0.0.1''
      | None \<Rightarrow> False)
   | _ \<Rightarrow> False"
  by code_simp+

text \<open>The three messages in turn.\<close>

lemma demo_runs:
  "case server_input_channel_open demo_x (server_start 0) demo_open_session of
     Done v1 \<Rightarrow> sends (s_effects (v_ssh v1)) = [Packet SSH2_MSG_CHANNEL_OPEN_CONFIRMATION
         [PUT_U32 5, PUT_U32 0, PUT_U32 0, PUT_U32 32768]] \<and>
       (case server_input_channel_req demo_x v1 demo_exec of
          Done v2 \<Rightarrow>
            (case server_input_global_request demo_x v2 demo_no_more of
               Done v3 \<Rightarrow> map ss_used (v_sessions v3) = [True] \<and> v_no_more_sessions v3 \<and>
                 children (s_effects (v_ssh v3)) = [Some ''true'']
             | _ \<Rightarrow> False)
        | _ \<Rightarrow> False)
   | _ \<Rightarrow> False"
  by code_simp

lemma demo_inv: "sshbuf_inv demo_open_session" "sshbuf_inv demo_exec" "sshbuf_inv demo_no_more"
  by (simp_all add: demo_open_session_def demo_exec_def demo_no_more_def demo_str_def)

lemma demo_steps:
  obtains v1 v2 v3 where "server_input_channel_open demo_x (server_start 0) demo_open_session = Done v1"
    "(server_step demo_x)\<^sup>*\<^sup>* (server_start 0) v2" "server_step demo_x v2 v3"
    "(server_step demo_x)\<^sup>*\<^sup>* (server_start 0) v3" "map ss_used (v_sessions v3) = [True]"
    "v_no_more_sessions v3" "children (s_effects (v_ssh v3)) = [Some ''true'']"
    "sends (s_effects (v_ssh v1)) = [Packet SSH2_MSG_CHANNEL_OPEN_CONFIRMATION
         [PUT_U32 5, PUT_U32 0, PUT_U32 0, PUT_U32 32768]]"
proof -
  from demo_runs obtain v1 v2 v3 where v:
    "server_input_channel_open demo_x (server_start 0) demo_open_session = Done v1"
    "server_input_channel_req demo_x v1 demo_exec = Done v2"
    "server_input_global_request demo_x v2 demo_no_more = Done v3"
    "map ss_used (v_sessions v3) = [True]" "v_no_more_sessions v3" "children (s_effects (v_ssh v3)) = [Some ''true'']"
    "sends (s_effects (v_ssh v1)) = [Packet SSH2_MSG_CHANNEL_OPEN_CONFIRMATION
         [PUT_U32 5, PUT_U32 0, PUT_U32 0, PUT_U32 32768]]"
    by (auto split: run.splits)
  have h: "server_init_dispatch demo_x SSH2_MSG_CHANNEL_OPEN = Some (server_input_channel_open demo_x)"
    "server_init_dispatch demo_x SSH2_MSG_CHANNEL_REQUEST = Some (server_input_channel_req demo_x)"
    "server_init_dispatch demo_x SSH2_MSG_GLOBAL_REQUEST = Some (server_input_global_request demo_x)"
    by (simp_all add: server_init_dispatch_def)
  have s3: "server_step demo_x v2 v3" by (rule Step_client[OF h(3) demo_inv(3) v(3)])
  have s2: "(server_step demo_x)\<^sup>*\<^sup>* (server_start 0) v2"
    using Step_client[OF h(1) demo_inv(1) v(1)] Step_client[OF h(2) demo_inv(2) v(2)] by (meson converse_rtranclp_into_rtranclp r_into_rtranclp)
  show thesis by (rule that[OF v(1) s2 s3 rtranclp.rtrancl_into_rtrancl[OF s2 s3] v(4-7)])
qed

section \<open>Every server that can arise\<close>

text \<open>
  C10: From the start of the server loop, through any messages of the client (whatever bytes they hold),
  exits of children and closed sessions: no more than \<open>MaxSessions\<close> sessions are in use, each carries its
  own index, the list of free slots runs exactly once through the slots that are not in use, and every
  channel carries its number and sound buffers.
\<close>

theorem server_stays_sound:
  assumes "(server_step x)\<^sup>*\<^sup>* (server_start cm) v"
  shows "card (used_sessions v) \<le> nat (o_max_sessions (x_opts x)) \<and>
    (\<forall>i<length (v_sessions v). ss_self (v_sessions v ! i) = i) \<and>
    (\<exists>us. distinct us \<and> linked (v_sessions v) (v_first_unused v) us \<and>
       set us = {..<length (v_sessions v)} - used_sessions v) \<and>
    (chan (v_ssh v) j = Some c \<longrightarrow> c_self c = j \<and> bufs_ok c)"
proof -
  have ok: "server_ok (o_max_sessions (x_opts x)) v" by (rule server_steps_ok[OF assms server_start_ok])
  then have "sessions_ok (o_max_sessions (x_opts x)) v" by (simp add: server_ok_def)
  then obtain us where us: "distinct us" "linked (v_sessions v) (v_first_unused v) us"
    "set us = {i. i < length (v_sessions v) \<and> \<not> ss_used (v_sessions v ! i)}"
    "\<forall>i<length (v_sessions v). ss_self (v_sessions v ! i) = i"
    "v_sessions v = [] \<or> int (length (v_sessions v)) \<le> o_max_sessions (x_opts x)" by (rule sessions_okE)
  have "used_sessions v \<subseteq> {..<length (v_sessions v)}" by (auto simp: used_sessions_def)
  from card_mono[OF finite_lessThan this] have "card (used_sessions v) \<le> length (v_sessions v)" by simp
  then have "card (used_sessions v) \<le> nat (o_max_sessions (x_opts x))"
    using us(5) by (elim disjE) simp_all
  moreover have "set us = {..<length (v_sessions v)} - used_sessions v" unfolding us(3) used_sessions_def by blast
  moreover have "chan (v_ssh v) j = Some c \<longrightarrow> c_self c = j \<and> bufs_ok c"
    using ok soundD[of "v_ssh v" j c] by (simp add: server_ok_def)
  ultimately show ?thesis using us(1,2,4) by blast
qed

theorem server_stays_sound_witness:
  "\<exists>v. (server_step demo_x)\<^sup>*\<^sup>* (server_start 0) v \<and> used_sessions v = {0} \<and> card (used_sessions v) \<le> 1"
proof (rule demo_steps)
  fix v3 assume r: "(server_step demo_x)\<^sup>*\<^sup>* (server_start 0) v3" and u: "map ss_used (v_sessions v3) = [True]"
  from u have "used_sessions v3 = {0}" by (auto simp: used_sessions_def map_eq_Cons_conv)
  moreover from server_stays_sound[OF r] have "card (used_sessions v3) \<le> 1" by (simp add: demo_x_def demo_srv_opts_def)
  ultimately show ?thesis using r by blast
qed

text \<open>
  C6: With a forced command, from the configuration or the key, whatever the client asks for and in
  whatever order, every child the server has run was told to run that command and nothing else.
\<close>

theorem only_the_forced_command:
  assumes "(server_step x)\<^sup>*\<^sup>* (server_start cm) v" and "forced_command x = Some cmd"
  shows "set (children (s_effects (v_ssh v))) \<subseteq> {Some cmd}"
proof -
  have "runs_only x (v_ssh (server_start cm)) (v_ssh v)" by (rule server_steps_run[OF assms(1) server_start_ok])
  with assms(2) show ?thesis by (auto simp: runs_only_def server_start_def channel_init_channels_def)
qed

theorem only_the_forced_command_witness:
  "\<exists>v. (server_step demo_x)\<^sup>*\<^sup>* (server_start 0) v \<and> children (s_effects (v_ssh v)) = [Some ''true''] \<and>
     set (children (s_effects (v_ssh v))) \<subseteq> {Some ''true''}"
proof (rule demo_steps)
  fix v3 assume r: "(server_step demo_x)\<^sup>*\<^sup>* (server_start 0) v3" and c: "children (s_effects (v_ssh v3)) = [Some ''true'']"
  have "forced_command demo_x = Some ''true''"
    by (simp add: forced_command_def demo_x_def demo_srv_opts_def demo_srv_aopts_def)
  from only_the_forced_command[OF r this] r c show ?thesis by blast
qed

text \<open>
  C13: Once the client has said that there will be no more sessions, the flag stays set and no slot of the
  table of sessions comes into use again, whatever follows.
\<close>

theorem no_more_sessions_is_final:
  assumes "(server_step x)\<^sup>*\<^sup>* (server_start cm) v" and "v_no_more_sessions v" and "(server_step x)\<^sup>*\<^sup>* v v'"
  shows "v_no_more_sessions v' \<and> used_sessions v' \<subseteq> used_sessions v"
proof -
  have "server_ok (o_max_sessions (x_opts x)) v" by (rule server_steps_ok[OF assms(1) server_start_ok])
  from server_steps_winding[OF assms(3) this] assms(2) show ?thesis by (simp add: winding_def)
qed

theorem no_more_sessions_is_final_witness:
  "\<exists>v v'. v_no_more_sessions v \<and> server_step demo_x v v' \<and> v_no_more_sessions v' \<and> used_sessions v' \<subseteq> used_sessions v \<and>
     used_sessions v = {0} \<and> used_sessions v' = {}"
proof (rule demo_steps)
  fix v3 assume r: "(server_step demo_x)\<^sup>*\<^sup>* (server_start 0) v3" and u: "map ss_used (v_sessions v3) = [True]"
    and f: "v_no_more_sessions v3"
  from u have u: "used_sessions v3 = {0}" "length (v_sessions v3) = 1" by (auto simp: used_sessions_def map_eq_Cons_conv)
  have "server_ok (o_max_sessions (x_opts demo_x)) v3" by (rule server_steps_ok[OF r server_start_ok])
  then have "sessions_ok (o_max_sessions (x_opts demo_x)) v3" by (simp add: server_ok_def)
  from destroy_from_result[OF this, of "[0..<length (v_sessions v3)]"] obtain v' where
    d: "session_destroy_all (o_max_sessions (x_opts demo_x)) v3 = Done v'" "used_sessions v' = {}"
    by (auto simp: session_destroy_all_def u)
  from no_more_sessions_is_final[OF r f] Step_end[OF d(1)] d(2) u(1) f show ?thesis by blast
qed

text \<open>
  C31: The loop that ends all sessions always gets to its end: no slot of a server that can arise makes
  it call \<open>fatal\<close>, and afterwards no session is in use.
\<close>

theorem destroy_all_ends:
  assumes "(server_step x)\<^sup>*\<^sup>* (server_start cm) v"
  shows "\<exists>v'. session_destroy_all (o_max_sessions (x_opts x)) v = Done v' \<and> used_sessions v' = {} \<and> v_ssh v' = v_ssh v"
proof -
  have "server_ok (o_max_sessions (x_opts x)) v" by (rule server_steps_ok[OF assms server_start_ok])
  then have "sessions_ok (o_max_sessions (x_opts x)) v" by (simp add: server_ok_def)
  from destroy_from_result[OF this, of "[0..<length (v_sessions v)]"] obtain v' where
    d: "destroy_from (o_max_sessions (x_opts x)) [0..<length (v_sessions v)] v = Done v'"
    "used_sessions v' = used_sessions v - {0..<length (v_sessions v)}" by (auto simp: subset_eq)
  have "used_sessions v' = {}" unfolding d(2) by (auto simp: used_sessions_def)
  with d(1) destroy_ssh[OF d(1)] show ?thesis by (auto simp: session_destroy_all_def)
qed

theorem destroy_all_ends_witness:
  "\<exists>v v'. used_sessions v = {0} \<and> session_destroy_all 1 v = Done v' \<and> used_sessions v' = {}"
proof (rule demo_steps)
  fix v3 assume r: "(server_step demo_x)\<^sup>*\<^sup>* (server_start 0) v3" and u: "map ss_used (v_sessions v3) = [True]"
  from u have "used_sessions v3 = {0}" by (auto simp: used_sessions_def map_eq_Cons_conv)
  with destroy_all_ends[OF r] show ?thesis by (auto simp: demo_x_def demo_srv_opts_def)
qed

section \<open>The gateway's policy, from the configuration to the client\<close>

abbreviation srv_opts :: "srv_context \<Rightarrow> server_options" where
  "srv_opts x \<equiv> server_options.truncate (x_opts x)"

abbreviation srv_aopts :: "srv_context \<Rightarrow> fwd_authopts" where
  "srv_aopts x \<equiv> fwd_authopts.truncate (x_aopts x)"





section \<open>Answers\<close>



text \<open>
  C24: What an exec request runs. When it succeeds, exactly one child was run, with the forced command if
  there is one and the client's command otherwise, its process id is the session's, and the session's channel
  is open with the full window granted; when it does not succeed, none was run.
\<close>

theorem exec_runs_one_command:
  assumes "session_exec_req x pkt s ssh = Done (ok, s', ssh')"
    and "sshbuf_get_cstring (e_alc (x_env x)) pkt = (Inr cmd, p1)"
  shows "children (s_effects ssh') = children (s_effects ssh) @
      (if ok then [case forced_command x of Some f \<Rightarrow> Some f | None \<Rightarrow> Some (cstr cmd)] else []) \<and>
    (ok \<longrightarrow> ss_pid s' = y_fork (x_sys x) \<and>
       (\<exists>c. chan ssh' (nat (ss_chanid s')) = Some c \<and> c_type c = SSH_CHANNEL_OPEN \<and>
          c_local_window c = CHAN_SES_WINDOW_DEFAULT \<and> c_local_window_max c = CHAN_SES_WINDOW_DEFAULT))"
proof -
  from assms obtain ssh1 where t: "channel_set_xtype ssh (ss_chanid s) ''session:command'' = Done ssh1"
    and e: "do_exec x s (Some (cstr cmd)) ssh1 = Done (ok, s', ssh')"
    by (auto simp: session_exec_req_def need_cstring_def need_end_def andThen_Done split: if_split_asm)
  have "s_effects ssh1 = s_effects ssh" using t by (auto simp: channel_set_xtype_def split: option.splits)
  with do_exec_result[OF e] show ?thesis by (simp add: ran_def split: option.splits)
qed

lemma demo_exec_runs:
  "case server_input_channel_open demo_x (server_start 0) demo_open_session of
     Done v1 \<Rightarrow> (case session_exec_req demo_x (demo_buf (demo_str ''ls'')) (v_sessions v1 ! 0) (v_ssh v1) of
        Done (ok, s', ssh') \<Rightarrow> ok | _ \<Rightarrow> False)
   | _ \<Rightarrow> False"
  "case sshbuf_get_cstring (e_alc (x_env demo_x)) (demo_buf (demo_str ''ls'')) of (Inr t, p1) \<Rightarrow> True | _ \<Rightarrow> False"
  by code_simp+

theorem exec_runs_one_command_witness:
  "\<exists>s s' ssh ssh'. session_exec_req demo_x (demo_buf (demo_str ''ls'')) s ssh = Done (True, s', ssh') \<and>
     children (s_effects ssh') = children (s_effects ssh) @ [Some ''true''] \<and> ss_pid s' = 300"
proof -
  from demo_exec_runs(1) obtain s ssh s' ssh' where
    e: "session_exec_req demo_x (demo_buf (demo_str ''ls'')) s ssh = Done (True, s', ssh')"
    by (auto split: run.splits prod.splits)
  from demo_exec_runs(2) obtain t p1 where
    g: "sshbuf_get_cstring (e_alc (x_env demo_x)) (demo_buf (demo_str ''ls'')) = (Inr t, p1)"
    by (auto split: prod.splits sum.splits)
  have "forced_command demo_x = Some ''true''" "y_fork (x_sys demo_x) = 300"
    by (simp_all add: forced_command_def demo_x_def demo_srv_opts_def demo_srv_aopts_def demo_sys_def)
  with exec_runs_one_command[OF e g] e show ?thesis by auto
qed

text \<open>
  A session is given exactly below the limit: with as many in use as \<open>MaxSessions\<close> the request is
  refused and nothing changes; otherwise a slot that was not in use is taken for the channel, no other slot
  changes its state, and the session is found by its channel.
\<close>

theorem session_given_below_limit:
  assumes "(server_step x)\<^sup>*\<^sup>* (server_start cm) v" and "\<forall>n. grow n" and "x_user_ok x"
  shows "if int (card (used_sessions v)) \<ge> o_max_sessions (x_opts x)
    then session_open grow (o_max_sessions (x_opts x)) (x_user_ok x) chid v = Done (False, v)
    else \<exists>i v'. session_open grow (o_max_sessions (x_opts x)) (x_user_ok x) chid v = Done (True, v') \<and>
      i \<notin> used_sessions v \<and> used_sessions v' = insert i (used_sessions v) \<and> ss_chanid (v_sessions v' ! i) = chid \<and>
      session_by_channel v' chid \<noteq> None"
proof -
  let ?m = "o_max_sessions (x_opts x)"
  have "server_ok ?m v" by (rule server_steps_ok[OF assms(1) server_start_ok])
  then have ok: "sessions_ok ?m v" by (simp add: server_ok_def)
  have fin: "finite (used_sessions w)" for w by (simp add: used_sessions_def)
  have g: "\<And>n. grow n" using assms(2) by blast
  show ?thesis
  proof (cases rule: session_open_result[where grow = grow and u = "x_user_ok x" and chid = chid, OF ok g])
    case 1
    then show ?thesis by simp
  next
    case 2
    then show ?thesis using assms(3) by simp
  next
    case (3 i v')
    have iu: "i \<in> used_sessions v'" unfolding 3(5) by simp
    have "used_sessions v' \<subseteq> {..<length (v_sessions v')}" by (auto simp: used_sessions_def)
    from card_mono[OF finite_lessThan this] have "card (used_sessions v') \<le> length (v_sessions v')" by simp
    moreover have "v_sessions v' \<noteq> []" using iu by (auto simp: used_sessions_def)
    then have "int (length (v_sessions v')) \<le> ?m" using 3(3) by (auto simp: sessions_ok_def)
    moreover have "card (used_sessions v') = Suc (card (used_sessions v))" unfolding 3(5) using 3(4) fin by simp
    ultimately have lim: "\<not> int (card (used_sessions v)) \<ge> ?m" by simp
    have "session_by_channel v' chid \<noteq> None"
      using find_session_None[of "\<lambda>s. ss_chanid s = chid" v' i] iu 3(7) by (auto simp: session_by_channel_def)
    with 3(2,4,5,7) lim show ?thesis by (simp only: if_False) blast
  qed
qed

theorem session_given_below_limit_witness:
  "\<exists>i v'. session_open (\<lambda>_. True) 1 True 0 (server_start 0) = Done (True, v') \<and> used_sessions v' = {i}"
proof -
  have u: "x_user_ok demo_x" "o_max_sessions (x_opts demo_x) = 1" by (simp_all add: demo_x_def demo_srv_opts_def)
  have e: "used_sessions (server_start 0) = {}" by (simp add: used_sessions_def server_start_def)
  from session_given_below_limit[OF rtranclp.rtrancl_refl _ u(1), of "\<lambda>_. True" 0 0] show ?thesis
    by (auto simp: u e)
qed

end
