(* ===== verification/ChanSocks.thy ===== *)
theory ChanSocks
  imports SockName ChanOut ChanFwd
begin

text \<open>
  Dynamic forwarding: the SOCKS header a program sends before the connection it asks for, decoded from
  the buffer it arrives in (\<open>channel_decode_socks4\<close>, \<open>channel_decode_socks5\<close> of \<open>channels.c\<close>), and the
  handlers that wait for it in both directions.

  A decoder gets the channel and the two buffers, of which it reads one and answers on the other, and
  returns \<open>-1\<close> for a header it refuses, \<open>0\<close> when it needs more bytes, \<open>1\<close> when it has the destination,
  with the channel and the buffers after the call.
\<close>

type_synonym decoded = "int \<times> channel \<times> sshbuf \<times> sshbuf"

section \<open>SOCKS 4\<close>

text \<open>
  The search for the terminators from offset \<open>i\<close> on: \<open>None\<close> is a header of more than 1024 bytes, else
  whether there are as many as needed.
\<close>

fun socks4_scan :: "u8 list \<Rightarrow> nat \<Rightarrow> nat \<Rightarrow> nat \<Rightarrow> bool option" where
  "socks4_scan [] i found need = Some (\<not> found < need)"
| "socks4_scan (b # bs) i found need =
     (let found1 = (if b = 0 then found + 1 else found) in
      if b = 0 \<and> found1 = need then Some True
      else if i > 1024 then None
      else socks4_scan bs (i + 1) found1 need)"

definition inet_ntoa :: "u8 list \<Rightarrow> string" where
  "inet_ntoa a = inet_ntop4 a"

text \<open>The host: the address in dotted form, or the second string of the header (SOCKS 4A).\<close>

definition socks4_host :: "nat \<Rightarrow> u8 list \<Rightarrow> sshbuf \<Rightarrow> (string option \<times> sshbuf) run" where
  "socks4_host need dest_addr input =
     (if need = 1 then Done (Some (inet_ntoa dest_addr), input)
      else
        (case memchr0 (contents input) of
           None \<Rightarrow> Done (None, input)
         | Some len \<Rightarrow>
           if len + 1 > NI_MAXHOST then Done (None, input)
           else (case sshbuf_consume input (word_of_nat (len + 1)) of
                   (Inl r, _) \<Rightarrow> Fatal
                 | (Inr _, input1) \<Rightarrow> Done (Some (cstr (contents input)), input1))))"

definition channel_decode_socks4 :: "env \<Rightarrow> channel \<Rightarrow> sshbuf \<Rightarrow> sshbuf \<Rightarrow> decoded run" where
  "channel_decode_socks4 e c input output =
     (let have = unat (sshbuf_len input); p = contents input in
      if have < 8 then Done (0, c, input, output)
      else
        let need = (if p ! 4 = 0 \<and> p ! 5 = 0 \<and> p ! 6 = 0 \<and> p ! 7 \<noteq> 0 then 2 else 1) in
        case socks4_scan (drop 8 p) 8 0 need of
          None \<Rightarrow> Done (-1, c, input, output)
        | Some False \<Rightarrow> Done (0, c, input, output)
        | Some True \<Rightarrow>
          (case sshbuf_get input 1 of (Inl r, i1) \<Rightarrow> Done (-1, c, i1, output) | (Inr version, i1) \<Rightarrow>
          (case sshbuf_get i1 1 of (Inl r, i2) \<Rightarrow> Done (-1, c, i2, output) | (Inr command, i2) \<Rightarrow>
          (case sshbuf_get i2 2 of (Inl r, i3) \<Rightarrow> Done (-1, c, i3, output) | (Inr dest_port, i3) \<Rightarrow>
          (case sshbuf_get i3 4 of (Inl r, i4) \<Rightarrow> Done (-1, c, i4, output) | (Inr dest_addr, i4) \<Rightarrow>
          (case memchr0 (contents i4) of
             None \<Rightarrow> Done (-1, c, i4, output)
           | Some len \<Rightarrow>
             (case sshbuf_consume i4 (word_of_nat (len + 1)) of
                (Inl r, _) \<Rightarrow> Fatal
              | (Inr _, i5) \<Rightarrow>
                let c0 = c\<lparr>c_path := None\<rparr> in
                andThen (socks4_host need dest_addr i5)
                  (\<lambda>(host, i6). case host of
                     None \<Rightarrow> Done (-1, c0, i6, output)
                   | Some h \<Rightarrow>
                     let c1 = c0\<lparr>c_path := Some h, c_host_port := uint (PEEK_U16 dest_port)\<rparr> in
                     if hd command \<noteq> 1 then Done (-1, c1, i6, output)
                     else (case sshbuf_put (e_alc e) output [0, 90, 0, 0, 0, 0, 0, 0] of
                             (Inl r, _) \<Rightarrow> Fatal
                           | (Inr _, out1) \<Rightarrow> Done (1, c1, i6, out1))))))))))"

section \<open>SOCKS 5\<close>

abbreviation (input) SSH_SOCKS5_AUTHDONE :: u32 where "SSH_SOCKS5_AUTHDONE \<equiv> 0x1000"
abbreviation (input) SSH_SOCKS5_NOAUTH :: u8 where "SSH_SOCKS5_NOAUTH \<equiv> 0x00"
abbreviation (input) SSH_SOCKS5_IPV4 :: u8 where "SSH_SOCKS5_IPV4 \<equiv> 0x01"
abbreviation (input) SSH_SOCKS5_DOMAIN :: u8 where "SSH_SOCKS5_DOMAIN \<equiv> 0x03"
abbreviation (input) SSH_SOCKS5_IPV6 :: u8 where "SSH_SOCKS5_IPV6 \<equiv> 0x04"
abbreviation (input) SSH_SOCKS5_CONNECT :: u8 where "SSH_SOCKS5_CONNECT \<equiv> 0x01"
abbreviation (input) SSH_SOCKS5_SUCCESS :: u8 where "SSH_SOCKS5_SUCCESS \<equiv> 0x00"

text \<open>The first message: methods, of which only the one without authentication is accepted.\<close>

definition socks5_methods :: "env \<Rightarrow> channel \<Rightarrow> sshbuf \<Rightarrow> sshbuf \<Rightarrow> decoded run" where
  "socks5_methods e c input output =
     (let p = contents input; have = unat (sshbuf_len input) in
      if have < 2 then Done (0, c, input, output)
      else
        let nmethods = unat (p ! 1) in
        if have < nmethods + 2 then Done (0, c, input, output)
        else if SSH_SOCKS5_NOAUTH \<notin> set (take nmethods (drop 2 p)) then Done (-1, c, input, output)
        else (case sshbuf_consume input (word_of_nat (nmethods + 2)) of
                (Inl r, _) \<Rightarrow> Fatal
              | (Inr _, i1) \<Rightarrow>
                (case puts [\<lambda>x. sshbuf_put_u8 (e_alc e) x 0x05,
                            \<lambda>x. sshbuf_put_u8 (e_alc e) x SSH_SOCKS5_NOAUTH] output of
                   (Inl r, _) \<Rightarrow> Fatal
                 | (Inr _, out1) \<Rightarrow> Done (0, c\<lparr>c_flags := c_flags c OR SSH_SOCKS5_AUTHDONE\<rparr>, i1, out1))))"

text \<open>The length and the family of the address, by its type; a name has no family.\<close>

definition socks5_addr :: "u8 list \<Rightarrow> (nat \<times> ai_fam option) option" where
  "socks5_addr p =
     (if p ! 3 = SSH_SOCKS5_IPV4 then Some (4, Some AF_INET)
      else if p ! 3 = SSH_SOCKS5_DOMAIN then Some (unat (p ! 4), None)
      else if p ! 3 = SSH_SOCKS5_IPV6 then Some (16, Some AF_INET6)
      else None)"

text \<open>The second message: the request. \<open>dest_addr\<close> is a C string when the address is a name.\<close>

definition socks5_request :: "env \<Rightarrow> channel \<Rightarrow> sshbuf \<Rightarrow> sshbuf \<Rightarrow> decoded run" where
  "socks5_request e c input output =
     (let p = contents input; have = unat (sshbuf_len input) in
      if have < 5 then Done (0, c, input, output)
      else if p ! 0 \<noteq> 0x05 \<or> p ! 1 \<noteq> SSH_SOCKS5_CONNECT \<or> p ! 2 \<noteq> 0x00 then Done (-1, c, input, output)
      else
        case socks5_addr p of
          None \<Rightarrow> Done (-1, c, input, output)
        | Some (addrlen, af) \<Rightarrow>
          let is_name = (p ! 3 = SSH_SOCKS5_DOMAIN) in
          if have < 4 + addrlen + 2 + (if is_name then 1 else 0) then Done (0, c, input, output)
          else
            (case sshbuf_consume input 4 of (Inl r, _) \<Rightarrow> Fatal | (Inr _, i1) \<Rightarrow>
            (case (if is_name then sshbuf_consume i1 1 else (Inr (), i1)) of
               (Inl r, _) \<Rightarrow> Fatal | (Inr _, i2) \<Rightarrow>
            (case sshbuf_get i2 (word_of_nat addrlen) of
               (Inl r, i3) \<Rightarrow> Done (-1, c, i3, output) | (Inr dest_addr, i3) \<Rightarrow>
            (case sshbuf_get i3 2 of
               (Inl r, i4) \<Rightarrow> Done (-1, c, i4, output) | (Inr dest_port, i4) \<Rightarrow>
             let c0 = c\<lparr>c_path := None\<rparr>;
                 host = (case af of
                           None \<Rightarrow> if addrlen \<ge> NI_MAXHOST then None else Some (cstr dest_addr)
                         | Some f \<Rightarrow> inet_ntop f dest_addr)
             in case host of
                  None \<Rightarrow> Done (-1, c0, i4, output)
                | Some h \<Rightarrow>
                  let c1 = c0\<lparr>c_path := Some h, c_host_port := uint (PEEK_U16 dest_port)\<rparr> in
                  (case puts [\<lambda>x. sshbuf_put (e_alc e) x [0x05, SSH_SOCKS5_SUCCESS, 0, SSH_SOCKS5_IPV4],
                              \<lambda>x. sshbuf_put_u32 (e_alc e) x 0,
                              \<lambda>x. sshbuf_put (e_alc e) x [0, 0]] output of
                     (Inl r, _) \<Rightarrow> Fatal
                   | (Inr _, out1) \<Rightarrow> Done (1, c1, i4, out1)))))))"

definition channel_decode_socks5 :: "env \<Rightarrow> channel \<Rightarrow> sshbuf \<Rightarrow> sshbuf \<Rightarrow> decoded run" where
  "channel_decode_socks5 e c input output =
     (if contents input = [] \<or> hd (contents input) \<noteq> 0x05 then Done (-1, c, input, output)
      else if c_flags c AND SSH_SOCKS5_AUTHDONE = 0 then socks5_methods e c input output
      else socks5_request e c input output)"

text \<open>Which of the two, by the first byte; nothing is decoded before three bytes are there.\<close>

definition decode_socks :: "env \<Rightarrow> channel \<Rightarrow> sshbuf \<Rightarrow> sshbuf \<Rightarrow> decoded run" where
  "decode_socks e c input output =
     (if hd (contents input) = 0x04 then channel_decode_socks4 e c input output
      else if hd (contents input) = 0x05 then channel_decode_socks5 e c input output
      else Done (-1, c, input, output))"

section \<open>The open request for what a channel asks for\<close>

text \<open>
  \<open>port_open_helper\<close>: the name of the channel, then the message with the destination or the listener,
  and the originator. A socket without a peer's port is given as \<open>127.0.0.1\<close> and 65535.
\<close>

definition path_of :: "channel \<Rightarrow> string" where
  "path_of c = (case c_path c of Some p \<Rightarrow> p | None \<Rightarrow> '''')"

definition port_open_name :: "string \<Rightarrow> channel \<Rightarrow> string \<Rightarrow> int \<Rightarrow> string \<Rightarrow> int \<Rightarrow> string" where
  "port_open_name rtype c remote_ipaddr remote_port local_ipaddr local_port =
     rtype @ '': listening port '' @ dec_int (c_listening_port c) @ '' for '' @
     (case c_path c of Some p \<Rightarrow> take 100 p | None \<Rightarrow> ''(null)'') @ '' port '' @ dec_int (c_host_port c) @
     '', connect from '' @ take 200 remote_ipaddr @ '' port '' @ dec_int remote_port @
     '' to '' @ take 100 local_ipaddr @ '' port '' @ dec_int local_port"

definition port_open_fields :: "string \<Rightarrow> channel \<Rightarrow> string \<Rightarrow> int \<Rightarrow> int \<Rightarrow> field list" where
  "port_open_fields rtype c remote_ipaddr remote_port local_port =
     (if rtype = ''direct-tcpip'' then [PUT_CSTRING (path_of c), PUT_U32 (word_of_int (c_host_port c))]
      else if rtype = ''direct-streamlocal@openssh.com'' then [PUT_CSTRING (path_of c)]
      else if rtype = ''forwarded-streamlocal@openssh.com'' then [PUT_CSTRING (path_of c)]
      else [PUT_CSTRING (path_of c), PUT_U32 (word_of_int local_port)]) @
     (if rtype = ''forwarded-streamlocal@openssh.com'' then [PUT_CSTRING '''']
      else [PUT_CSTRING remote_ipaddr, PUT_U32 (word_of_int remote_port)])"

definition port_open_helper :: "env \<Rightarrow> sock_calls \<Rightarrow> string \<Rightarrow> chan_st \<Rightarrow> chan_st run" where
  "port_open_helper e k rtype st =
     (let c = fst st in
      andThen (if c_sock c = -1 then Done 65536 else get_local_port k (c_sock c)) (\<lambda>local_port.
      andThen (get_peer_port k (c_sock c)) (\<lambda>peer_port.
        let remote_ipaddr = (if peer_port = -1 then ''127.0.0.1'' else get_peer_ipaddr k (c_sock c));
            remote_port = (if peer_port = -1 then 65535 else peer_port);
            local_ipaddr = get_local_ipaddr k (c_sock c)
        in send_pkt e (Packet SSH2_MSG_CHANNEL_OPEN (open_preamble c rtype @
               port_open_fields rtype c remote_ipaddr remote_port local_port))
             (c\<lparr>c_remote_name := port_open_name rtype c remote_ipaddr remote_port local_ipaddr local_port\<rparr>,
              snd st))))"

section \<open>The handlers that wait for a header\<close>

definition channel_pre_dynamic :: "env \<Rightarrow> sock_calls \<Rightarrow> chan_st \<Rightarrow> chan_st run" where
  "channel_pre_dynamic e k st0 =
     (let c = (fst st0)\<lparr>c_io_want := 0\<rparr>; st = (c, snd st0) in
      if sshbuf_len (c_input c) < 3 then Done (want SSH_CHAN_IO_RFD st)
      else andThen (decode_socks e c (c_input c) (c_output c))
        (\<lambda>(ret, c1, inp, out).
           let st1 = (c1\<lparr>c_input := inp, c_output := out\<rparr>, snd st) in
           if ret < 0 then Done (chan_mark_dead st1)
           else if ret = 0 then
             let st2 = want SSH_CHAN_IO_RFD st1
             in Done (if sshbuf_len out > 0 then want SSH_CHAN_IO_WFD st2 else st2)
           else port_open_helper e k ''direct-tcpip'' ((fst st1)\<lparr>c_type := SSH_CHANNEL_OPENING\<rparr>, snd st1)))"

definition rdynamic_close :: "env \<Rightarrow> u32 \<Rightarrow> chan_st \<Rightarrow> chan_st run" where
  "rdynamic_close e compat_bits st =
     channel_force_close e compat_bits False ((fst st)\<lparr>c_type := SSH_CHANNEL_OPEN\<rparr>, snd st)"

text \<open>
  Reverse dynamic forwarding: the peer sends the header as data, which is in the output buffer, and the
  answers go into the input buffer, from where they are sent at once when the window has room.
\<close>

definition channel_before_prepare_io_rdynamic :: "env \<Rightarrow> net \<Rightarrow> ssh \<Rightarrow> chan_st \<Rightarrow> chan_st run" where
  "channel_before_prepare_io_rdynamic e nt ssh st =
     (let c = fst st; have = sshbuf_len (c_output c) in
      if c_flags c AND CHAN_EOF_RCVD \<noteq> 0 then
        (case sshbuf_consume (c_output c) have of
           (Inl r, _) \<Rightarrow> Fatal
         | (Inr _, out) \<Rightarrow> rdynamic_close e (s_compat ssh) (c\<lparr>c_output := out\<rparr>, snd st))
      else if have < 3 then Done st
      else andThen (decode_socks e c (c_output c) (c_input c))
        (\<lambda>(ret, c1, out, inp).
           let c2 = c1\<lparr>c_output := out, c_input := inp\<rparr>; st2 = (c2, snd st) in
           if ret < 0 then rdynamic_close e (s_compat ssh) st2
           else if ret = 0 then
             let len = sshbuf_len inp in
             if len > 0 \<and> len < ucast (c_remote_window c2)
             then andThen (send_pkt e (Packet SSH2_MSG_CHANNEL_DATA
                      [PUT_U32 (c_remote_id c2), PUT_STRING (contents inp)]) st2)
                    (\<lambda>st3. case sshbuf_consume inp len of
                       (Inl r, _) \<Rightarrow> Fatal
                     | (Inr _, inp1) \<Rightarrow> Done (c2\<lparr>c_input := inp1,
                          c_remote_window := c_remote_window c2 - ucast len\<rparr>, snd st3))
             else Done st2
           else andThen (rdynamic_connect_finish e nt ssh c2)
             (\<lambda>(r, c3, fx). if r < 0 then rdynamic_close e (s_compat ssh) (c3, snd st2 @ fx)
                            else Done (c3, snd st2 @ fx))))"

end
