(* ===== verification/SocksProps.thy ===== *)
theory SocksProps
  imports Demo WireMsg ChanSocks
begin

text \<open>
  Dynamic forwarding decodes what it is meant to: a SOCKS header in the format of the protocols, in
  whatever pieces it arrives, becomes an open request for the destination it names.
\<close>

section \<open>Parsing from the front of a buffer\<close>

lemma get_front:
  assumes "sshbuf_inv b" "contents b = xs @ rest" "length xs = unat n"
  shows "\<exists>b'. sshbuf_get b n = (Inr xs, b') \<and> sshbuf_inv b' \<and> contents b' = rest"
proof -
  obtain r b' where g: "sshbuf_get b n = (r, b')" by fastforce
  from get_int_post(5)[OF assms(1) g] assms(2,3) g show ?thesis by (auto simp: get_post_def)
qed

lemma consume_front:
  assumes "sshbuf_inv b" "contents b = xs @ rest" "length xs = unat n"
  shows "\<exists>b'. sshbuf_consume b n = (Inr (), b') \<and> sshbuf_inv b' \<and> contents b' = rest"
  using consume_spec[OF assms(1), of n] assms(2,3)
  by (cases "sshbuf_consume b n") (auto simp del: length_contents)

lemma consume_length:
  assumes "sshbuf_inv b" "contents b = xs @ rest"
  shows "\<exists>b'. sshbuf_consume b (word_of_nat (length xs)) = (Inr (), b') \<and> sshbuf_inv b' \<and> contents b' = rest"
proof (rule consume_front[OF assms])
  have "length xs \<le> 134217728" using contents_bound[OF assms(1)] inv_bounds[OF assms(1)] assms(2) by simp
  then show "length xs = unat (word_of_nat (length xs) :: size_t)" by (intro unat_of_length[symmetric]) simp
qed

text \<open>A buffer that takes \<open>n\<close> more bytes.\<close>

definition roomy :: "sshbuf \<Rightarrow> nat \<Rightarrow> bool" where
  "roomy b n \<longleftrightarrow> sshbuf_inv b \<and> writable b \<and> length (contents b) + n \<le> unat (b_max_size b)"

lemma put_more:
  assumes "roomy b n" "\<And>s. alc s \<noteq> NULL" "length bs = unat len" "unat len \<le> n"
  shows "\<exists>b'. reserve_poke alc b len bs = (Inr (), b') \<and> roomy b' (n - unat len) \<and> contents b' = contents b @ bs"
proof -
  have inv: "sshbuf_inv b" using assms(1) by (simp add: roomy_def)
  have "\<exists>b'. reserve_poke alc b len bs = (Inr (), b')"
    by (rule reserve_poke_ok) (use assms in \<open>simp_all add: roomy_def del: length_contents\<close>)
  then obtain b' where p: "reserve_poke alc b len bs = (Inr (), b')" ..
  from reserve_poke_post[OF inv assms(3) p] have
    "put_post b bs (Inr ()) b'" .
  then have q: "sshbuf_inv b'" "same_shape b b'" "contents b' = contents b @ bs" by (simp_all add: put_post_def)
  have "writable b'" "b_max_size b' = b_max_size b"
    using q(2) assms(1) same_shape_writable[OF q(2)] by (simp_all add: roomy_def same_shape_def)
  with q assms have "roomy b' (n - unat len)" by (simp add: roomy_def del: length_contents)
  with p q(3) show ?thesis by blast
qed

section \<open>The headers\<close>

text \<open>A destination: an address of either family or the bytes of a name.\<close>

datatype socks_dest = Ip4 "u8 list" | Ip6 "u8 list" | Name "u8 list"

fun dest_host :: "socks_dest \<Rightarrow> string" where
  "dest_host (Ip4 a) = inet_ntop4 a"
| "dest_host (Ip6 a) = inet_ntop6 a"
| "dest_host (Name h) = cstr h"

fun socks5_bytes :: "socks_dest \<Rightarrow> u16 \<Rightarrow> u8 list" where
  "socks5_bytes (Ip4 a) port = [5, 1, 0, 1] @ a @ POKE_U16 port"
| "socks5_bytes (Ip6 a) port = [5, 1, 0, 4] @ a @ POKE_U16 port"
| "socks5_bytes (Name h) port = [5, 1, 0, 3, word_of_nat (length h)] @ h @ POKE_U16 port"

fun socks5_ok :: "socks_dest \<Rightarrow> bool" where
  "socks5_ok (Ip4 a) \<longleftrightarrow> length a = 4"
| "socks5_ok (Ip6 a) \<longleftrightarrow> length a = 16"
| "socks5_ok (Name h) \<longleftrightarrow> length h \<le> 255"

fun socks4_bytes :: "u8 list \<Rightarrow> socks_dest \<Rightarrow> u16 \<Rightarrow> u8 list" where
  "socks4_bytes user (Ip4 a) port = [4, 1] @ POKE_U16 port @ a @ user @ [0]"
| "socks4_bytes user (Name h) port = [4, 1] @ POKE_U16 port @ [0, 0, 0, 1] @ user @ [0] @ h @ [0]"
| "socks4_bytes user (Ip6 a) port = []"

fun socks4_ok :: "u8 list \<Rightarrow> socks_dest \<Rightarrow> bool" where
  "socks4_ok user (Ip4 a) \<longleftrightarrow> length a = 4 \<and> take 3 a \<noteq> [0, 0, 0] \<and> 0 \<notin> set user \<and> length user \<le> 1000"
| "socks4_ok user (Name h) \<longleftrightarrow> 0 \<notin> set h \<and> 0 \<notin> set user \<and> length user + length h \<le> 1000"
| "socks4_ok user (Ip6 a) \<longleftrightarrow> False"

definition "socks5_reply = [5, 0, 0, 1, 0, 0, 0, 0, 0, 0 :: u8]"
definition "socks4_reply = [0, 90, 0, 0, 0, 0, 0, 0 :: u8]"

lemma length_replies [simp]: "length socks5_reply = 10" "length socks4_reply = 8"
  by (simp_all add: socks5_reply_def socks4_reply_def)

lemma length_POKE_U16 [simp]: "length (POKE_U16 p) = 2"
  by (simp add: POKE_U16_def)

section \<open>SOCKS 5\<close>

lemma socks5_replies:
  assumes "roomy out 10" "\<And>s. alc s \<noteq> NULL"
  shows "\<exists>out'. puts [\<lambda>x. sshbuf_put alc x [0x05, 0, 0, 1], \<lambda>x. sshbuf_put_u32 alc x 0, \<lambda>x. sshbuf_put alc x [0, 0]]
      out = (Inr (), out') \<and> contents out' = contents out @ socks5_reply \<and> roomy out' 0"
proof -
  from put_more[where alc = alc, OF assms, of "[5, 0, 0, 1]" 4] obtain b1 where
    b1: "sshbuf_put alc out [5, 0, 0, 1] = (Inr (), b1)" "roomy b1 6" "contents b1 = contents out @ [5, 0, 0, 1]"
    by (auto simp: sshbuf_put_def)
  from put_more[where alc = alc, OF b1(2) assms(2), of "POKE_U32 0" 4] obtain b2 where
    b2: "sshbuf_put_u32 alc b1 0 = (Inr (), b2)" "roomy b2 2" "contents b2 = contents b1 @ POKE_U32 0"
    by (auto simp: sshbuf_put_u32_def)
  from put_more[where alc = alc, OF b2(2) assms(2), of "[0, 0]" 2] obtain b3 where
    b3: "sshbuf_put alc b2 [0, 0] = (Inr (), b3)" "roomy b3 0" "contents b3 = contents b2 @ [0, 0]"
    by (auto simp: sshbuf_put_def)
  show ?thesis by (simp add: b1 b2 b3 socks5_reply_def POKE_U32_def)
qed

text \<open>The bytes after the fixed part: the address, with its length when it is a name.\<close>

fun dest_bytes :: "socks_dest \<Rightarrow> u8 list" where
  "dest_bytes (Ip4 a) = a"
| "dest_bytes (Ip6 a) = a"
| "dest_bytes (Name h) = h"

lemma socks5_complete:
  assumes d: "socks5_ok d" and inv: "sshbuf_inv inp" and c: "contents inp = socks5_bytes d port @ rest"
    and out: "roomy out 10" "\<And>s. e_alc e s \<noteq> NULL"
  shows "\<exists>inp' out'. socks5_request e c inp out =
       Done (1, c\<lparr>c_path := Some (dest_host d), c_host_port := uint port\<rparr>, inp', out') \<and>
     sshbuf_inv inp' \<and> contents inp' = rest \<and> contents out' = contents out @ socks5_reply"
proof -
  define pre where "pre = take 4 (socks5_bytes d port)"
  define body where "body = drop 4 (contents inp)"
  have cp: "contents inp = pre @ body" "length pre = unat (4 :: size_t)"
    using c d by (cases d; simp add: pre_def body_def)+
  from consume_front[OF inv cp] obtain i1 where
    i1: "sshbuf_consume inp 4 = (Inr (), i1)" "sshbuf_inv i1" "contents i1 = body" by blast
  define n where "n = length (dest_bytes d)"
  have n: "n \<le> 255" using d by (cases d) (simp_all add: n_def)
  let ?name = "case d of Name h \<Rightarrow> True | _ \<Rightarrow> False"
  have "\<exists>i2. (if ?name then sshbuf_consume i1 1 else (Inr (), i1)) = (Inr (), i2) \<and> sshbuf_inv i2 \<and>
      contents i2 = dest_bytes d @ POKE_U16 port @ rest"
  proof (cases d)
    case (Name h)
    then have "contents i1 = [word_of_nat (length h)] @ h @ POKE_U16 port @ rest" using c i1(3) by (simp add: body_def)
    from consume_front[OF i1(2) this, of 1] Name show ?thesis by simp
  qed (use i1 c in \<open>simp_all add: body_def\<close>)
  then obtain i2 where i2: "(if ?name then sshbuf_consume i1 1 else (Inr (), i1)) = (Inr (), i2)" "sshbuf_inv i2"
    "contents i2 = dest_bytes d @ POKE_U16 port @ rest" by blast
  from get_front[OF i2(2,3), of "word_of_nat n"] n obtain i3 where
    i3: "sshbuf_get i2 (word_of_nat n) = (Inr (dest_bytes d), i3)" "sshbuf_inv i3" "contents i3 = POKE_U16 port @ rest"
    by (auto simp: n_def unat_of_nat take_bit_eq_mod)
  from get_front[OF i3(2,3), of 2] obtain i4 where
    i4: "sshbuf_get i3 2 = (Inr (POKE_U16 port), i4)" "sshbuf_inv i4" "contents i4 = rest" by auto
  from socks5_replies[where alc = "e_alc e", OF out] obtain out' where
    o: "puts [\<lambda>x. sshbuf_put (e_alc e) x [0x05, 0, 0, 1], \<lambda>x. sshbuf_put_u32 (e_alc e) x 0,
          \<lambda>x. sshbuf_put (e_alc e) x [0, 0]] out = (Inr (), out')"
    "contents out' = contents out @ socks5_reply" by blast
  have len: "unat (sshbuf_len inp) = length (contents inp)" using inv by simp
  have addr: "socks5_addr (contents inp) = Some (n, case d of Ip4 a \<Rightarrow> Some AF_INET | Ip6 a \<Rightarrow> Some AF_INET6 | Name h \<Rightarrow> None)"
    and name: "(contents inp ! 3 = 3) = ?name"
    and ver: "contents inp ! 0 = 5" "contents inp ! 1 = 1" "contents inp ! 2 = 0"
    and enough: "\<not> length (contents inp) < 5" "\<not> length (contents inp) < 4 + n + 2 + (if ?name then 1 else 0)"
    using c d by (cases d; simp add: socks5_addr_def n_def unat_of_nat take_bit_eq_mod del: length_contents)+
  have host: "(case (case d of Ip4 a \<Rightarrow> Some AF_INET | Ip6 a \<Rightarrow> Some AF_INET6 | Name h \<Rightarrow> None) of
        None \<Rightarrow> if n \<ge> NI_MAXHOST then None else Some (cstr (dest_bytes d))
      | Some f \<Rightarrow> inet_ntop f (dest_bytes d)) = Some (dest_host d)"
    using n by (cases d) (simp_all add: inet_ntop_def)
  show ?thesis
    using enough ver i2(1) i4(2,3) o
    by (simp add: socks5_request_def Let_def len addr name i1(1) i3(1) i4(1) host del: length_contents)
qed

lemma socks5_partial:
  assumes d: "socks5_ok d" and inv: "sshbuf_inv inp" and c: "contents inp = take n (socks5_bytes d port)"
    and n: "n < length (socks5_bytes d port)"
  shows "socks5_request e c inp out = Done (0, c, inp, out)"
proof -
  have len: "unat (sshbuf_len inp) = length (contents inp)" using inv by simp
  show ?thesis
    using c d n
    by (cases d; cases "n < 5")
      (simp_all add: socks5_request_def Let_def len socks5_addr_def unat_of_nat take_bit_eq_mod del: length_contents)
qed

section \<open>SOCKS 4\<close>

lemma scan_waits:
  "count_list xs 0 + f < need \<Longrightarrow> i + length xs \<le> 1025 \<Longrightarrow> socks4_scan xs i f need = Some False"
  by (induction xs arbitrary: i f) (auto simp: Let_def)

lemma scan_skip:
  "0 \<notin> set us \<Longrightarrow> i + length us \<le> 1025 \<Longrightarrow>
   socks4_scan (us @ xs) i f need = socks4_scan xs (i + length us) f need"
  by (induction us arbitrary: i) (auto simp: Let_def)

lemma count_take: "count_list (take k xs) x \<le> count_list xs x"
  using count_list_append[of "take k xs" "drop k xs" x] by simp

lemma count_absent: "x \<notin> set xs \<Longrightarrow> count_list xs x = 0"
  by (simp add: count_list_0_iff)

text \<open>The part of a header after its eight fixed bytes, and how many terminators it has.\<close>

fun socks4_tail :: "u8 list \<Rightarrow> socks_dest \<Rightarrow> u8 list" where
  "socks4_tail user (Name h) = user @ [0] @ h @ [0]"
| "socks4_tail user d = user @ [0]"

fun socks4_need :: "socks_dest \<Rightarrow> nat" where
  "socks4_need (Name h) = 2"
| "socks4_need d = 1"

fun socks4_addr :: "socks_dest \<Rightarrow> u8 list" where
  "socks4_addr (Name h) = [0, 0, 0, 1]"
| "socks4_addr d = dest_bytes d"

lemma socks4_split:
  assumes "socks4_ok user d"
  shows "socks4_bytes user d port = [4, 1] @ POKE_U16 port @ socks4_addr d @ socks4_tail user d"
    "length (socks4_addr d) = 4" "0 \<notin> set user" "length (socks4_tail user d) \<le> 1002"
  using assms by (cases d; simp)+

lemma socks4_scanned:
  assumes "socks4_ok user d"
  shows "socks4_scan (socks4_tail user d @ rest) 8 0 (socks4_need d) = Some True"
    "k < length (socks4_tail user d) \<Longrightarrow> socks4_scan (take k (socks4_tail user d)) 8 0 (socks4_need d) = Some False"
proof -
  show "socks4_scan (socks4_tail user d @ rest) 8 0 (socks4_need d) = Some True"
    using assms by (cases d) (simp_all add: scan_skip)
  assume k: "k < length (socks4_tail user d)"
  then have "take k (socks4_tail user d) = take k (butlast (socks4_tail user d))" by (simp add: take_butlast)
  moreover have "count_list (butlast (socks4_tail user d)) 0 < socks4_need d"
    using assms by (cases d) (simp_all add: butlast_append count_absent)
  ultimately have "count_list (take k (socks4_tail user d)) 0 + 0 < socks4_need d"
    using count_take[of k "butlast (socks4_tail user d)" 0] by simp
  moreover have "8 + length (take k (socks4_tail user d)) \<le> 1025" using k socks4_split(4)[OF assms] by simp
  ultimately show "socks4_scan (take k (socks4_tail user d)) 8 0 (socks4_need d) = Some False" by (rule scan_waits)
qed

lemma socks4_needs:
  assumes "socks4_ok user d" and p: "take 8 p = [4, 1] @ POKE_U16 port @ socks4_addr d"
  shows "(if p ! 4 = 0 \<and> p ! 5 = 0 \<and> p ! 6 = 0 \<and> p ! 7 \<noteq> 0 then 2 else 1) = socks4_need d"
proof -
  have t: "p ! i = ([4, 1] @ POKE_U16 port @ socks4_addr d) ! i" if "i < 8" for i
    using that p by (metis nth_take)
  have a: "p ! (4 + j) = socks4_addr d ! j" if "j < 4" for j
    using t[of "4 + j"] that by (simp add: POKE_U16_def nth_append numeral_eq_Suc)
  show ?thesis
  proof (cases d)
    case (Ip4 a)
    with assms(1) have l: "length a = 4" "take 3 a \<noteq> [0, 0, 0]" by simp_all
    then have "a \<noteq> [] \<and> a ! 0 = 0 \<and> a ! 1 = 0 \<and> a ! 2 = 0 \<longrightarrow> False"
      by (auto simp: numeral_eq_Suc length_Suc_conv)
    with a[of 0] a[of 1] a[of 2] Ip4 l(1) show ?thesis by auto
  qed (use a[of 0] a[of 1] a[of 2] a[of 3] assms(1) in auto)
qed

lemma memchr0_at: "0 \<notin> set us \<Longrightarrow> memchr0 (us @ 0 # xs) = Some (length us)"
  by (induction us) (auto simp: memchr0_def)

lemma cstr_at: "0 \<notin> set us \<Longrightarrow> cstr (us @ 0 # xs) = cstr us"
proof -
  assume "0 \<notin> set us"
  then have n: "\<And>x. x \<in> set us \<Longrightarrow> x \<noteq> 0" by metis
  from takeWhile_append2[of us "\<lambda>x. x \<noteq> 0", OF n] takeWhile_append2[of us "\<lambda>x. x \<noteq> 0" "[]", OF n]
  show ?thesis by (simp only: cstr_def append_Nil2 takeWhile.simps) simp
qed

lemma socks4_complete:
  assumes d: "socks4_ok user d" and inv: "sshbuf_inv inp" and c: "contents inp = socks4_bytes user d port @ rest"
    and out: "roomy out 8" "\<And>s. e_alc e s \<noteq> NULL"
  shows "\<exists>inp' out'. channel_decode_socks4 e c inp out =
       Done (1, c\<lparr>c_path := Some (dest_host d), c_host_port := uint port\<rparr>, inp', out') \<and>
     sshbuf_inv inp' \<and> contents inp' = rest \<and> contents out' = contents out @ socks4_reply"
proof -
  note sp = socks4_split[OF d]
  have c1: "contents inp = [4] @ [1] @ POKE_U16 port @ socks4_addr d @ socks4_tail user d @ rest" using c sp(1) by simp
  from get_front[OF inv c1, of 1] obtain i1 where
    i1: "sshbuf_get inp 1 = (Inr [4], i1)" "sshbuf_inv i1" "contents i1 = [1] @ POKE_U16 port @ socks4_addr d @ socks4_tail user d @ rest" by auto
  from get_front[OF i1(2,3), of 1] obtain i2 where
    i2: "sshbuf_get i1 1 = (Inr [1], i2)" "sshbuf_inv i2" "contents i2 = POKE_U16 port @ socks4_addr d @ socks4_tail user d @ rest" by auto
  from get_front[OF i2(2,3), of 2] obtain i3 where
    i3: "sshbuf_get i2 2 = (Inr (POKE_U16 port), i3)" "sshbuf_inv i3" "contents i3 = socks4_addr d @ socks4_tail user d @ rest" by auto
  from get_front[OF i3(2,3), of 4] sp(2) obtain i4 where
    i4: "sshbuf_get i3 4 = (Inr (socks4_addr d), i4)" "sshbuf_inv i4" "contents i4 = socks4_tail user d @ rest" by auto
  have m: "memchr0 (contents i4) = Some (length user)" using sp(3) d by (cases d) (simp_all add: i4(3) memchr0_at)
  obtain more where more: "contents i4 = (user @ [0]) @ more" "more = (case d of Name h \<Rightarrow> h @ [0] @ rest | _ \<Rightarrow> rest)"
    using d by (cases d) (simp_all add: i4(3))
  from consume_length[OF i4(2) more(1)] obtain i5 where
    i5: "sshbuf_consume i4 (word_of_nat (length user + 1)) = (Inr (), i5)" "sshbuf_inv i5" "contents i5 = more"
    by auto
  have "\<exists>i6. socks4_host (socks4_need d) (socks4_addr d) i5 = Done (Some (dest_host d), i6) \<and> sshbuf_inv i6 \<and> contents i6 = rest"
  proof (cases d)
    case (Name h)
    with d have h: "0 \<notin> set h" "length h \<le> 1000" by simp_all
    have c5: "contents i5 = (h @ [0]) @ rest" using Name more(2) i5(3) by simp
    from consume_length[OF i5(2) c5] obtain i6 where
      "sshbuf_consume i5 (word_of_nat (length h + 1)) = (Inr (), i6)" "sshbuf_inv i6" "contents i6 = rest"
      by auto
    with h Name show ?thesis by (simp add: socks4_host_def c5 memchr0_at cstr_at)
  qed (use d i5 more in \<open>auto simp: socks4_host_def inet_ntoa_def\<close>)
  then obtain i6 where i6: "socks4_host (socks4_need d) (socks4_addr d) i5 = Done (Some (dest_host d), i6)"
    "sshbuf_inv i6" "contents i6 = rest" by blast
  from put_more[where alc = "e_alc e", OF out, of "[0, 90, 0, 0, 0, 0, 0, 0]" 8] obtain out' where
    o: "sshbuf_put (e_alc e) out [0, 90, 0, 0, 0, 0, 0, 0] = (Inr (), out')" "contents out' = contents out @ socks4_reply"
    by (auto simp: sshbuf_put_def socks4_reply_def)
  have len: "unat (sshbuf_len inp) = length (contents inp)" using inv by simp
  have "take 8 (contents inp) = [4, 1] @ POKE_U16 port @ socks4_addr d" using c1 sp(2) by simp
  note need = socks4_needs[OF d this]
  have scan: "socks4_scan (drop 8 (contents inp)) 8 0 (socks4_need d) = Some True"
    using socks4_scanned(1)[OF d] sp(2) c1 by simp
  have l8: "\<not> length (contents inp) < 8" using c1 sp(2) by simp
  show ?thesis
    using i6(2,3) o(2)
    by (simp add: channel_decode_socks4_def Let_def len l8 need scan i1(1) i2(1) i3(1) i4(1) m i5(1)[simplified] i6(1) o(1)
        del: length_contents)
qed

lemma socks4_partial:
  assumes d: "socks4_ok user d" and inv: "sshbuf_inv inp" and c: "contents inp = take n (socks4_bytes user d port)"
    and n: "n < length (socks4_bytes user d port)"
  shows "channel_decode_socks4 e c inp out = Done (0, c, inp, out)"
proof -
  have len: "unat (sshbuf_len inp) = length (contents inp)" using inv by simp
  note sp = socks4_split[OF d]
  show ?thesis
  proof (cases "n < 8")
    case True
    then show ?thesis using c n by (simp add: channel_decode_socks4_def Let_def len del: length_contents)
  next
    case False
    have "take 8 (contents inp) = [4, 1] @ POKE_U16 port @ socks4_addr d" using c sp(1,2) False by simp
    note need = socks4_needs[OF d this]
    have "drop 8 (contents inp) = take (n - 8) (socks4_tail user d)" using c sp(1,2) False by (simp add: drop_take)
    moreover have "n - 8 < length (socks4_tail user d)" using n sp(1,2) False by simp
    ultimately have scan: "socks4_scan (drop 8 (contents inp)) 8 0 (socks4_need d) = Some False"
      using socks4_scanned(2)[OF d] by simp
    have l8: "\<not> length (contents inp) < 8" using c n False by simp
    show ?thesis by (simp add: channel_decode_socks4_def Let_def len l8 need scan del: length_contents)
  qed
qed

section \<open>From the header to the open request\<close>

text \<open>An environment without failures: memory, packets that are sent, ports that can be named.\<close>

definition works :: "env \<Rightarrow> sock_calls \<Rightarrow> bool" where
  "works e k \<longleftrightarrow> (\<forall>n. e_alc e n \<noteq> NULL) \<and> (\<forall>p. e_pkt_ok e p) \<and> (\<forall>sa. k_numericserv k sa)"

lemma sock_port_known:
  assumes "works e k" shows "\<exists>p. get_sock_port k sock local = Done p"
  using assms by (auto simp: works_def get_sock_port_def split: option.split sockaddr.split)

text \<open>The request for a connection to the host and port of a channel, and its originator.\<close>

definition asks_for :: "channel \<Rightarrow> string \<Rightarrow> u32 \<Rightarrow> eff" where
  "asks_for c oip oport = Send (Packet SSH2_MSG_CHANNEL_OPEN (open_preamble c ''direct-tcpip'' @
     [PUT_CSTRING (path_of c), PUT_U32 (word_of_int (c_host_port c)), PUT_CSTRING oip, PUT_U32 oport]))"

lemma port_open_asks:
  assumes "works e k"
  shows "\<exists>name oip oport. port_open_helper e k ''direct-tcpip'' (c, fx) =
     Done (c\<lparr>c_remote_name := name\<rparr>, fx @ [asks_for c oip oport])"
proof -
  from sock_port_known[OF assms, of "c_sock c" True] sock_port_known[OF assms, of "c_sock c" False] obtain lp pp where
    "get_local_port k (c_sock c) = Done lp" "get_peer_port k (c_sock c) = Done pp"
    by (auto simp: get_local_port_def get_peer_port_def)
  with assms show ?thesis
    by (simp add: port_open_helper_def Let_def port_open_fields_def send_pkt_def works_def asks_for_def) blast
qed

lemma pre_dynamic_waits:
  assumes inv: "sshbuf_inv (c_input c)" and long: "length (contents (c_input c)) < 3 \<or>
      decode_socks e (c\<lparr>c_io_want := 0\<rparr>) (c_input c) (c_output c) = Done (0, c\<lparr>c_io_want := 0\<rparr>, c_input c, c_output c)"
  shows "\<exists>w. channel_pre_dynamic e k (c, fx) = Done (c\<lparr>c_io_want := w\<rparr>, fx) \<and> w AND SSH_CHAN_IO_RFD \<noteq> 0"
proof -
  have len: "sshbuf_len (c_input c) < 3 \<longleftrightarrow> length (contents (c_input c)) < 3"
    using inv by (simp add: word_less_nat_alt)
  show ?thesis
  proof (cases "length (contents (c_input c)) < 3")
    case True
    then show ?thesis
      by (intro exI[of _ SSH_CHAN_IO_RFD]) (simp add: channel_pre_dynamic_def want_def len del: length_contents)
  next
    case False
    with long show ?thesis
      by (intro exI[of _ "if sshbuf_len (c_output c) > 0 then 3 else 1"])
        (simp add: channel_pre_dynamic_def want_def len del: length_contents)
  qed
qed

lemma pre_dynamic_opens:
  assumes inv: "sshbuf_inv (c_input c)" and long: "\<not> length (contents (c_input c)) < 3"
    and dec: "decode_socks e (c\<lparr>c_io_want := 0\<rparr>) (c_input c) (c_output c) =
      Done (1, c\<lparr>c_io_want := 0, c_path := Some host, c_host_port := uint port\<rparr>, inp, out)"
    and ok: "works e k"
  shows "\<exists>c' oip oport. channel_pre_dynamic e k (c, fx) = Done (c', fx @ [asks_for c' oip oport]) \<and>
     c_type c' = SSH_CHANNEL_OPENING \<and> c_path c' = Some host \<and> c_host_port c' = uint port \<and>
     c_input c' = inp \<and> c_output c' = out"
proof -
  let ?c = "c\<lparr>c_io_want := 0, c_path := Some host, c_host_port := uint port, c_input := inp, c_output := out,
      c_type := SSH_CHANNEL_OPENING\<rparr>"
  have len: "\<not> sshbuf_len (c_input c) < 3" using inv long by (simp add: word_less_nat_alt)
  from port_open_asks[OF ok, of ?c fx] obtain name oip oport where
    p: "port_open_helper e k ''direct-tcpip'' (?c, fx) = Done (?c\<lparr>c_remote_name := name\<rparr>, fx @ [asks_for ?c oip oport])" by blast
  have "asks_for ?c oip oport = asks_for (?c\<lparr>c_remote_name := name\<rparr>) oip oport"
    by (simp add: asks_for_def open_preamble_def path_of_def)
  with p show ?thesis by (simp add: channel_pre_dynamic_def Let_def len dec) blast
qed

text \<open>
  A header format as the handler uses it: a header that is there in full is decoded to its destination and
  answered, a part of one is left alone. \<open>mode\<close> is the state of the channel in which it is expected.
\<close>

locale header_format =
  fixes bytes :: "'d \<Rightarrow> u16 \<Rightarrow> u8 list" and valid :: "'d \<Rightarrow> bool" and host :: "'d \<Rightarrow> string"
    and reply :: "u8 list" and mode :: "channel \<Rightarrow> bool"
    and decode :: "env \<Rightarrow> channel \<Rightarrow> sshbuf \<Rightarrow> sshbuf \<Rightarrow> decoded run"
  assumes long: "valid d \<Longrightarrow> 3 \<le> length (bytes d port)"
    and chosen: "valid d \<Longrightarrow> 3 \<le> n \<Longrightarrow> contents inp = take n (bytes d port @ rest) \<Longrightarrow> mode c \<Longrightarrow>
      decode_socks e c inp out = decode e c inp out"
    and mode_want: "mode (c\<lparr>c_io_want := w\<rparr>) = mode c"
    and whole: "valid d \<Longrightarrow> sshbuf_inv inp \<Longrightarrow> contents inp = bytes d port @ rest \<Longrightarrow> roomy out (length reply) \<Longrightarrow>
      (\<And>s. e_alc e s \<noteq> NULL) \<Longrightarrow> \<exists>inp' out'. decode e c inp out =
        Done (1, c\<lparr>c_path := Some (host d), c_host_port := uint port\<rparr>, inp', out') \<and>
        contents inp' = rest \<and> contents out' = contents out @ reply"
    and part: "valid d \<Longrightarrow> sshbuf_inv inp \<Longrightarrow> contents inp = take n (bytes d port) \<Longrightarrow>
      n < length (bytes d port) \<Longrightarrow> decode e c inp out = Done (0, c, inp, out)"
begin

lemma request_is_opened:
  assumes "bufs_ok c" and "mode c" and "valid d" and "works e k"
    and "length (contents (c_output c)) + length reply \<le> unat (b_max_size (c_output c))"
    and "contents (c_input c) = take n (bytes d port @ rest)"
  shows "if n < length (bytes d port)
    then \<exists>w. channel_pre_dynamic e k (c, fx) = Done (c\<lparr>c_io_want := w\<rparr>, fx) \<and> w AND SSH_CHAN_IO_RFD \<noteq> 0
    else \<exists>c' oip oport. channel_pre_dynamic e k (c, fx) = Done (c', fx @ [asks_for c' oip oport]) \<and>
      c_type c' = SSH_CHANNEL_OPENING \<and> c_path c' = Some (host d) \<and> c_host_port c' = uint port \<and>
      contents (c_input c') = take (n - length (bytes d port)) rest \<and>
      contents (c_output c') = contents (c_output c) @ reply"
proof -
  let ?c = "c\<lparr>c_io_want := 0\<rparr>" and ?l = "length (bytes d port)"
  have inv: "sshbuf_inv (c_input c)" and room: "roomy (c_output c) (length reply)" and alc: "\<And>s. e_alc e s \<noteq> NULL"
    using assms(1,4,5) by (simp_all add: bufs_ok_def roomy_def works_def)
  have m: "mode ?c" using assms(2) by (simp add: mode_want)
  have hd: "decode_socks e ?c (c_input c) (c_output c) = decode e ?c (c_input c) (c_output c)"
    if "\<not> length (contents (c_input c)) < 3"
  proof (rule chosen[OF assms(3) _ assms(6) m])
    show "3 \<le> n" using that assms(6) by (simp del: length_contents)
  qed
  show ?thesis
  proof (cases "n < ?l")
    case True
    with assms(6) have c: "contents (c_input c) = take n (bytes d port)" by simp
    note p = part[where e = e and c = ?c and out = "c_output c", OF assms(3) inv c True]
    from pre_dynamic_waits[where k = k and e = e and fx = fx, OF inv] hd p True show ?thesis
      by (auto simp del: length_contents)
  next
    case False
    with assms(6) have c: "contents (c_input c) = bytes d port @ take (n - ?l) rest" by simp
    then have l: "\<not> length (contents (c_input c)) < 3" using long[OF assms(3), of port] by simp
    from whole[where c = ?c, OF assms(3) inv c room alc] obtain inp out where
      r: "decode e ?c (c_input c) (c_output c) =
        Done (1, c\<lparr>c_io_want := 0, c_path := Some (host d), c_host_port := uint port\<rparr>, inp, out)"
      "contents inp = take (n - ?l) rest" "contents out = contents (c_output c) @ reply"
      by auto
    from pre_dynamic_opens[where fx = fx, OF inv l hd[OF l, unfolded r(1)] assms(4)] r(2,3) False show ?thesis by auto
  qed
qed

end

lemma front_byte: "0 < n \<Longrightarrow> take n (x # xs) \<noteq> [] \<and> hd (take n (x # xs)) = x"
  by (cases n) simp_all

interpretation s5: header_format socks5_bytes socks5_ok dest_host socks5_reply
  "\<lambda>c. c_flags c AND SSH_SOCKS5_AUTHDONE \<noteq> 0" socks5_request
proof unfold_locales
  fix d port n inp rest e out and c :: channel
  assume "socks5_ok d" "3 \<le> n" "contents inp = take n (socks5_bytes d port @ rest)" "c_flags c AND SSH_SOCKS5_AUTHDONE \<noteq> 0"
  moreover from this obtain xs where "socks5_bytes d port @ rest = 5 # xs" by (cases d) auto
  ultimately show "decode_socks e c inp out = socks5_request e c inp out"
    using front_byte[of n 5 xs] by (simp add: decode_socks_def channel_decode_socks5_def)
next
  fix d inp port rest out and e :: env and c :: channel
  assume a: "socks5_ok d" "sshbuf_inv inp" "contents inp = socks5_bytes d port @ rest"
    and r: "roomy out (length socks5_reply)" and alc: "\<And>s. e_alc e s \<noteq> NULL"
  from r have "roomy out 10" by simp
  from socks5_complete[where c = c, OF a this alc]
  show "\<exists>inp' out'. socks5_request e c inp out = Done (1, c\<lparr>c_path := Some (dest_host d), c_host_port := uint port\<rparr>, inp', out') \<and>
      contents inp' = rest \<and> contents out' = contents out @ socks5_reply" by blast
next
  fix d port assume "socks5_ok d" then show "3 \<le> length (socks5_bytes d port)" by (cases d) auto
qed (simp_all add: socks5_partial)

interpretation s4: header_format "\<lambda>(user, d). socks4_bytes user d" "\<lambda>(user, d). socks4_ok user d"
  "\<lambda>(user, d). dest_host d" socks4_reply "\<lambda>c. True" channel_decode_socks4
proof unfold_locales
  fix ud port n inp rest e out and c :: channel
  assume "case ud of (user, d) \<Rightarrow> socks4_ok user d" "3 \<le> n" "contents inp = take n ((case ud of (user, d) \<Rightarrow> socks4_bytes user d) port @ rest)"
  moreover from this obtain xs where "(case ud of (user, d) \<Rightarrow> socks4_bytes user d) port @ rest = 4 # xs"
    by (cases ud) (auto simp: socks4_split(1))
  ultimately show "decode_socks e c inp out = channel_decode_socks4 e c inp out"
    using front_byte[of n 4 xs] by (simp add: decode_socks_def)
next
  fix ud inp port rest out and e :: env and c :: channel
  assume a: "case ud of (user, d) \<Rightarrow> socks4_ok user d" "sshbuf_inv inp"
      "contents inp = (case ud of (user, d) \<Rightarrow> socks4_bytes user d) port @ rest"
    and r: "roomy out (length socks4_reply)" and alc: "\<And>s. e_alc e s \<noteq> NULL"
  obtain user d where ud: "ud = (user, d)" by fastforce
  from r have "roomy out 8" by simp
  from socks4_complete[where c = c, OF _ a(2) _ this alc] a(1,3)
  show "\<exists>inp' out'. channel_decode_socks4 e c inp out = Done (1, c\<lparr>c_path := Some (case ud of (user, d) \<Rightarrow> dest_host d),
      c_host_port := uint port\<rparr>, inp', out') \<and> contents inp' = rest \<and> contents out' = contents out @ socks4_reply"
    by (simp add: ud) blast
next
  fix ud port assume "case ud of (user, d) \<Rightarrow> socks4_ok user d"
  then show "3 \<le> length ((case ud of (user, d) \<Rightarrow> socks4_bytes user d) port)" by (cases ud) (simp add: socks4_split(1,2))
qed (auto simp: socks4_partial)

text \<open>
  C28: A program that speaks SOCKS 5 to a dynamically forwarded port, after the choice of the method. As long
  as the channel holds only a part of the request, whatever pieces it came in, nothing is consumed, answered
  or sent, and the channel keeps reading. When the whole request is there, the channel asks the peer for a
  connection to exactly the address or name and the port in it, answers the program, and keeps every byte
  that follows the request.
\<close>

theorem socks5_request_is_opened:
  assumes "bufs_ok c" and "c_flags c AND SSH_SOCKS5_AUTHDONE \<noteq> 0" and "socks5_ok d" and "works e k"
    and "length (contents (c_output c)) + 10 \<le> unat (b_max_size (c_output c))"
    and "contents (c_input c) = take n (socks5_bytes d port @ rest)"
  shows "if n < length (socks5_bytes d port)
    then \<exists>w. channel_pre_dynamic e k (c, fx) = Done (c\<lparr>c_io_want := w\<rparr>, fx) \<and> w AND SSH_CHAN_IO_RFD \<noteq> 0
    else \<exists>c' oip oport. channel_pre_dynamic e k (c, fx) = Done (c', fx @ [asks_for c' oip oport]) \<and>
      c_type c' = SSH_CHANNEL_OPENING \<and> c_path c' = Some (dest_host d) \<and> c_host_port c' = uint port \<and>
      contents (c_input c') = take (n - length (socks5_bytes d port)) rest \<and>
      contents (c_output c') = contents (c_output c) @ socks5_reply"
  by (rule s5.request_is_opened) (use assms in simp_all)

text \<open>A request for port 443 of \<open>db\<close>, then the first byte of the connection.\<close>

definition demo_socks :: "u8 list \<Rightarrow> channel" where
  "demo_socks bs = demo_new\<lparr>c_type := SSH_CHANNEL_DYNAMIC, c_flags := SSH_SOCKS5_AUTHDONE, c_input := demo_buf bs\<rparr>"

definition demo_calls :: sock_calls where
  "demo_calls = \<lparr>k_getsockname = (\<lambda>_. Some (Sin [127, 0, 0, 1] 1080)), k_getpeername = (\<lambda>_. Some (Sin [127, 0, 0, 1] 5000)),
     k_numerichost = (\<lambda>_. Some ''127.0.0.1''), k_numericserv = (\<lambda>_. True)\<rparr>"

lemma demo_works: "works demo_env demo_calls"
  by (simp add: works_def demo_calls_def)

lemma demo_socks_ok:
  assumes "length bs \<le> 1000"
  shows "bufs_ok (demo_socks bs)" "c_flags (demo_socks bs) AND SSH_SOCKS5_AUTHDONE \<noteq> 0"
    "contents (c_input (demo_socks bs)) = bs" "contents (c_output (demo_socks bs)) = []"
    "length (contents (c_output (demo_socks bs))) + 10 \<le> unat (b_max_size (c_output (demo_socks bs)))"
  using assms by (simp_all add: demo_socks_def demo_simps bufs_ok_def)

theorem socks5_request_is_opened_witness:
  "\<exists>w c' oip oport. channel_pre_dynamic demo_env demo_calls (demo_socks [5, 1, 0, 3, 2], []) =
     Done ((demo_socks [5, 1, 0, 3, 2])\<lparr>c_io_want := w\<rparr>, []) \<and>
   channel_pre_dynamic demo_env demo_calls (demo_socks [5, 1, 0, 3, 2, 100, 98, 1, 187, 22], []) =
     Done (c', [asks_for c' oip oport]) \<and> c_path c' = Some ''db'' \<and> c_host_port c' = 443 \<and> contents (c_input c') = [22]"
proof -
  have d: "socks5_ok (Name [100, 98])" by simp
  have b: "socks5_bytes (Name [100, 98]) 443 @ [22] = [5, 1, 0, 3, 2, 100, 98, 1, 187, 22]"
    by (simp add: POKE_U16_def)
  have h: "dest_host (Name [100, 98]) = ''db''" by code_simp
  note ok = demo_socks_ok[of "[5, 1, 0, 3, 2]", simplified] demo_socks_ok[of "[5, 1, 0, 3, 2, 100, 98, 1, 187, 22]", simplified]
  from socks5_request_is_opened[OF _ _ d demo_works, of "demo_socks [5, 1, 0, 3, 2]" 5 443 "[22]" "[]"]
    socks5_request_is_opened[OF _ _ d demo_works, of "demo_socks [5, 1, 0, 3, 2, 100, 98, 1, 187, 22]" 10 443 "[22]" "[]"]
  show ?thesis unfolding b h using ok by (auto simp: POKE_U16_def)
qed

text \<open>
  The same for SOCKS 4, with an address, and its extension 4A, with a name: a part of the header is
  waited on without a trace; the whole one opens a connection to its destination, answers the program, and
  leaves what follows for the connection. The user name in it is skipped.
\<close>

theorem socks4_request_is_opened:
  assumes "bufs_ok c" and "socks4_ok user d" and "works e k"
    and "length (contents (c_output c)) + 8 \<le> unat (b_max_size (c_output c))"
    and "contents (c_input c) = take n (socks4_bytes user d port @ rest)"
  shows "if n < length (socks4_bytes user d port)
    then \<exists>w. channel_pre_dynamic e k (c, fx) = Done (c\<lparr>c_io_want := w\<rparr>, fx) \<and> w AND SSH_CHAN_IO_RFD \<noteq> 0
    else \<exists>c' oip oport. channel_pre_dynamic e k (c, fx) = Done (c', fx @ [asks_for c' oip oport]) \<and>
      c_type c' = SSH_CHANNEL_OPENING \<and> c_path c' = Some (dest_host d) \<and> c_host_port c' = uint port \<and>
      contents (c_input c') = take (n - length (socks4_bytes user d port)) rest \<and>
      contents (c_output c') = contents (c_output c) @ socks4_reply"
  by (rule s4.request_is_opened[where d = "(user, d)", simplified prod.case]) (use assms in simp_all)

theorem socks4_request_is_opened_witness:
  "\<exists>c' oip oport. channel_pre_dynamic demo_env demo_calls (demo_socks [4, 1, 0, 80, 10, 0, 0, 7, 117, 0], []) =
     Done (c', [asks_for c' oip oport]) \<and> c_path c' = Some ''10.0.0.7'' \<and> c_host_port c' = 80 \<and> contents (c_input c') = []"
proof -
  have d: "socks4_ok [117] (Ip4 [10, 0, 0, 7])" by simp
  have b: "socks4_bytes [117] (Ip4 [10, 0, 0, 7]) 80 @ [] = [4, 1, 0, 80, 10, 0, 0, 7, 117, 0]"
    by (simp add: POKE_U16_def)
  have h: "dest_host (Ip4 [10, 0, 0, 7]) = ''10.0.0.7''" by code_simp
  note ok = demo_socks_ok[of "[4, 1, 0, 80, 10, 0, 0, 7, 117, 0]", simplified]
  from socks4_request_is_opened[OF _ d demo_works, of "demo_socks [4, 1, 0, 80, 10, 0, 0, 7, 117, 0]" 10 80 "[]" "[]"]
  show ?thesis unfolding b h using ok by (auto simp: POKE_U16_def)
qed

end
