(* ===== verification/ChanPost.thy ===== *)
theory ChanPost
  imports ChanSocks
begin

text \<open>
  The handlers that run when a descriptor of a channel is ready (\<open>channel_post_*\<close> of \<open>channels.c\<close>):
  listeners that accept, connections that complete, clients of a multiplexing master; the first packet
  of an X11 connection; and the two tables of handlers (\<open>channel_handler_init\<close>).
\<close>

section \<open>Listeners\<close>

text \<open>\<open>accept\<close>: a socket, a failure for want of descriptors, or another one.\<close>

datatype accept_res = Accepted int | No_files | Accept_failed

definition pause_listener :: "env \<Rightarrow> accept_res \<Rightarrow> nat \<Rightarrow> channel \<Rightarrow> ssh \<Rightarrow> ssh" where
  "pause_listener e acc i c ssh =
     (if acc = No_files then set_slot i (Some (c\<lparr>c_notbefore := e_monotime e + 1\<rparr>)) ssh else ssh)"

text \<open>The state and the type of the channel a listener makes.\<close>

definition listener_target :: "channel \<Rightarrow> chan_type \<times> string" where
  "listener_target c =
     (if c_type c = SSH_CHANNEL_RPORT_LISTENER then (SSH_CHANNEL_OPENING, ''forwarded-tcpip'')
      else if c_type c = SSH_CHANNEL_RUNIX_LISTENER then (SSH_CHANNEL_OPENING, ''forwarded-streamlocal@openssh.com'')
      else if c_host_port c = PORT_STREAMLOCAL then (SSH_CHANNEL_OPENING, ''direct-streamlocal@openssh.com'')
      else if c_host_port c = 0 then (SSH_CHANNEL_DYNAMIC, ''dynamic-tcpip'')
      else (SSH_CHANNEL_OPENING, ''direct-tcpip''))"

definition channel_post_port_listener :: "env \<Rightarrow> sock_calls \<Rightarrow> accept_res \<Rightarrow> nat \<Rightarrow> ssh \<Rightarrow> ssh run" where
  "channel_post_port_listener e k acc i ssh =
     (case s_channels ssh ! i of
        None \<Rightarrow> Fatal
      | Some c \<Rightarrow>
        if c_io_ready c AND SSH_CHAN_IO_SOCK_R = 0 then Done ssh
        else
          (case acc of
             Accepted newsock \<Rightarrow>
               let (nextstate, rtype) = listener_target c in
               andThen (channel_new e ssh rtype nextstate newsock newsock (-1) (c_local_window_max c)
                          (c_local_maxpacket c) CHAN_EXTENDED_IGNORE rtype CHANNEL_NONBLOCK_SET)
                 (\<lambda>(j, ssh1). case s_channels ssh1 ! j of
                    None \<Rightarrow> Fatal
                  | Some nc \<Rightarrow>
                    let ssh2 = set_slot j (Some (nc\<lparr>c_listening_port := c_listening_port c, c_host_port := c_host_port c,
                          c_path := (if c_path c = None then c_path nc else c_path c)\<rparr>)) ssh1
                    in if nextstate \<noteq> SSH_CHANNEL_DYNAMIC then on_channel (port_open_helper e k rtype) j ssh2
                       else Done ssh2)
           | _ \<Rightarrow> Done (pause_listener e acc i c ssh)))"

text \<open>The message for a connection to a listener that is not of a port: the type and what \<open>rest\<close> adds.\<close>

definition open_accepted ::
    "env \<Rightarrow> channel \<Rightarrow> int \<Rightarrow> string \<Rightarrow> string \<Rightarrow> string \<Rightarrow> field list \<Rightarrow> ssh \<Rightarrow> ssh run" where
  "open_accepted e c newsock ctype name rtype rest ssh =
     andThen (channel_new e ssh ctype SSH_CHANNEL_OPENING newsock newsock (-1) (c_local_window_max c)
                (c_local_maxpacket c) CHAN_EXTENDED_IGNORE name CHANNEL_NONBLOCK_SET)
       (\<lambda>(j, ssh1). on_channel (\<lambda>st. send_pkt e (Packet SSH2_MSG_CHANNEL_OPEN (open_preamble (fst st) rtype @ rest)) st)
          j ssh1)"

text \<open>The listener of a session with a single X11 connection is closed by the first \<open>accept\<close>, whatever it returns.\<close>

definition channel_post_x11_listener :: "env \<Rightarrow> sock_calls \<Rightarrow> accept_res \<Rightarrow> nat \<Rightarrow> ssh \<Rightarrow> ssh run" where
  "channel_post_x11_listener e k acc i ssh =
     (case s_channels ssh ! i of
        None \<Rightarrow> Fatal
      | Some c0 \<Rightarrow>
        if c_io_ready c0 AND SSH_CHAN_IO_SOCK_R = 0 then Done ssh
        else
          let (c, fx) = (if c_single_connection c0 then chan_mark_dead (channel_close_fd (c0, []) (c_sock c0)) else (c0, []));
              ssh1 = (set_slot i (Some c) ssh)\<lparr>s_effects := s_effects ssh @ fx\<rparr>
          in case acc of
               Accepted newsock \<Rightarrow>
                 andThen (get_peer_port k newsock) (\<lambda>remote_port.
                   let remote_ipaddr = get_peer_ipaddr k newsock
                   in open_accepted e c newsock ''x11-connection''
                        (''X11 connection from '' @ take 200 remote_ipaddr @ '' port '' @ dec_int remote_port)
                        ''x11'' [PUT_CSTRING remote_ipaddr, PUT_U32 (word_of_int remote_port)] ssh1)
             | _ \<Rightarrow> Done (pause_listener e acc i c ssh1))"

definition channel_post_auth_listener :: "env \<Rightarrow> accept_res \<Rightarrow> nat \<Rightarrow> ssh \<Rightarrow> ssh run" where
  "channel_post_auth_listener e acc i ssh =
     (case s_channels ssh ! i of
        None \<Rightarrow> Fatal
      | Some c \<Rightarrow>
        if c_io_ready c AND SSH_CHAN_IO_SOCK_R = 0 then Done ssh
        else (case acc of
                Accepted newsock \<Rightarrow>
                  open_accepted e c newsock ''agent-connection'' ''accepted auth socket'' ''auth-agent@openssh.com'' [] ssh
              | _ \<Rightarrow> Done (pause_listener e acc i c ssh)))"

section \<open>Connections in progress\<close>

text \<open>The pending error of a socket: none, still in progress or interrupted, or a failure with its text.\<close>

datatype sock_err = Sock_ok | Sock_again | Sock_failed string

definition channel_connect_ctx_free :: "channel_connect" where
  "channel_connect_ctx_free = \<lparr>cc_host = None, cc_port = 0, cc_ai = []\<rparr>"

text \<open>No address is left: the peer is told, or a reverse dynamic channel is closed.\<close>

definition connect_exhausted :: "env \<Rightarrow> u32 \<Rightarrow> bool \<Rightarrow> string \<Rightarrow> chan_st \<Rightarrow> chan_st run" where
  "connect_exhausted e compat_bits isopen err st =
     (let c = (fst st)\<lparr>c_connect_ctx := channel_connect_ctx_free\<rparr> in
      if isopen then rdynamic_close e compat_bits (c, snd st)
      else andThen (send_pkt e (Packet SSH2_MSG_CHANNEL_OPEN_FAILURE
                [PUT_U32 (c_remote_id c), PUT_U32 2, PUT_CSTRING err, PUT_CSTRING '''']) (c, snd st))
             (\<lambda>st1. Done (chan_mark_dead st1)))"

definition channel_post_connecting :: "env \<Rightarrow> net \<Rightarrow> u32 \<Rightarrow> sock_err \<Rightarrow> chan_st \<Rightarrow> chan_st run" where
  "channel_post_connecting e nt compat_bits err st =
     (let c = fst st; isopen = (c_type c = SSH_CHANNEL_RDYNAMIC_FINISH) in
      if c_io_ready c AND SSH_CHAN_IO_SOCK_W = 0 then Done st
      else if \<not> c_have_remote_id c then Fatal
      else
        (case err of
           Sock_ok \<Rightarrow>
             let c1 = c\<lparr>c_connect_ctx := channel_connect_ctx_free, c_type := SSH_CHANNEL_OPEN,
                        c_lastused := e_monotime e\<rparr>
             in if isopen then Done (c1, snd st)
                else send_pkt e (Packet SSH2_MSG_CHANNEL_OPEN_CONFIRMATION
                       [PUT_U32 (c_remote_id c1), PUT_U32 (word_of_nat (c_self c1)), PUT_U32 (c_local_window c1),
                        PUT_U32 (c_local_maxpacket c1)]) (c1, snd st)
         | Sock_again \<Rightarrow> Done st
         | Sock_failed msg \<Rightarrow>
             andThen (connect_next nt (cc_ai (c_connect_ctx c)))
               (\<lambda>(sock, rest, fx).
                  let st1 = (c\<lparr>c_connect_ctx := (c_connect_ctx c)\<lparr>cc_ai := rest\<rparr>\<rparr>, snd st @ fx) in
                  andThen (if sock = -1 then connect_exhausted e compat_bits isopen msg st1 else Done st1)
                    (\<lambda>st2. Done ((fst st2)\<lparr>c_sock := sock, c_rfd := sock, c_wfd := sock\<rparr>,
                                 snd st2 @ [Close_fd (c_sock (fst st2))])))))"

section \<open>Clients of a multiplexing master\<close>

text \<open>Reading until \<open>need\<close> bytes are there, one \<open>read\<close> per call, never past them.\<close>

definition read_mux :: "env \<Rightarrow> (size_t \<Rightarrow> io_res) \<Rightarrow> u32 \<Rightarrow> chan_st \<Rightarrow> (u32 \<times> chan_st) run" where
  "read_mux e rd need st =
     (let c = fst st; have = sshbuf_len (c_input c) in
      if have < ucast need then
        let rlen = need - ucast have in
        (case rd (if rlen < 16384 then ucast rlen else CHAN_RBUF) of
           Intr \<Rightarrow> Done (ucast have, st)
         | Again \<Rightarrow> Done (ucast have, st)
         | Got bs \<Rightarrow>
           if bs = [] then Done (0, chan_read_failed st)
           else (case sshbuf_put (e_alc e) (c_input c) bs of
                   (Inl r, _) \<Rightarrow> Fatal
                 | (Inr _, inp) \<Rightarrow> Done (ucast (sshbuf_len inp), (c\<lparr>c_input := inp\<rparr>, snd st)))
         | _ \<Rightarrow> Done (0, chan_read_failed st))
      else Done (ucast have, st))"

abbreviation CHANNEL_MUX_MAX_PACKET :: u32 where "CHANNEL_MUX_MAX_PACKET \<equiv> 262144"

text \<open>
  The packet of a client: its length, then its body; the handler of the master (\<open>rcb\<close>, a parameter)
  takes it from the input buffer when it is there, and says whether it failed.
\<close>

definition mux_packet :: "env \<Rightarrow> u32 \<Rightarrow> (size_t \<Rightarrow> io_res) \<Rightarrow> (size_t \<Rightarrow> io_res) \<Rightarrow> chan_st \<Rightarrow> (bool \<times> chan_st) run" where
  "mux_packet e compat_bits rd1 rd2 st =
     (let c = fst st in
      if c_io_ready c AND SSH_CHAN_IO_RFD = 0 then Done (False, st)
      else if c_istate c \<noteq> CHAN_INPUT_OPEN \<and> c_istate c \<noteq> CHAN_INPUT_WAIT_DRAIN then Done (False, st)
      else if c_mux_pause c then Done (False, st)
      else andThen (read_mux e rd1 4 st)
        (\<lambda>(n1, st1).
           if n1 < 4 then Done (False, st1)
           else
             let need = PEEK_U32 (take 4 (contents (c_input (fst st1)))) in
             if need > CHANNEL_MUX_MAX_PACKET then
               andThen (chan_rcvd_oclose e st1) (\<lambda>st2. Done (False, st2))
             else andThen (read_mux e rd2 (need + 4) st1) (\<lambda>(n2, st2). Done (\<not> n2 < need + 4, st2))))"

definition channel_post_mux_client_read ::
    "env \<Rightarrow> (callback \<Rightarrow> nat \<Rightarrow> ssh \<Rightarrow> bool \<times> ssh) \<Rightarrow> (size_t \<Rightarrow> io_res) \<Rightarrow> (size_t \<Rightarrow> io_res) \<Rightarrow> nat \<Rightarrow> ssh \<Rightarrow> ssh run" where
  "channel_post_mux_client_read e rcb rd1 rd2 i ssh =
     (case s_channels ssh ! i of
        None \<Rightarrow> Fatal
      | Some c \<Rightarrow> andThen (mux_packet e (s_compat ssh) rd1 rd2 (c, []))
          (\<lambda>(complete, st).
             let ssh1 = (set_slot i (Some (fst st)) ssh)\<lparr>s_effects := s_effects ssh @ snd st\<rparr> in
             if \<not> complete then Done ssh1
             else (case c_mux_rcb (fst st) of
                     None \<Rightarrow> Fatal
                   | Some cb \<Rightarrow>
                     let (failed, ssh2) = rcb cb i ssh1
                     in if failed then on_channel (\<lambda>st1. Done (chan_mark_dead st1)) i ssh2 else Done ssh2)))"

definition channel_post_mux_client_write :: "env \<Rightarrow> (u8 list \<Rightarrow> io_res) \<Rightarrow> chan_st \<Rightarrow> chan_st run" where
  "channel_post_mux_client_write e wr st =
     (let c = fst st in
      if c_io_ready c AND SSH_CHAN_IO_WFD = 0 then Done st
      else if sshbuf_len (c_output c) = 0 then Done st
      else (case wr (contents (c_output c)) of
              Intr \<Rightarrow> Done st
            | Again \<Rightarrow> Done st
            | Wrote n \<Rightarrow>
              if n = 0 then Done (chan_mark_dead st)
              else (case sshbuf_consume (c_output c) (word_of_nat n) of
                      (Inl r, _) \<Rightarrow> Fatal
                    | (Inr _, out) \<Rightarrow> Done (c\<lparr>c_output := out\<rparr>, snd st))
            | _ \<Rightarrow> Done (chan_mark_dead st)))"

definition channel_post_mux_client ::
    "env \<Rightarrow> (callback \<Rightarrow> nat \<Rightarrow> ssh \<Rightarrow> bool \<times> ssh) \<Rightarrow> (size_t \<Rightarrow> io_res) \<Rightarrow> (size_t \<Rightarrow> io_res) \<Rightarrow>
     (u8 list \<Rightarrow> io_res) \<Rightarrow> nat \<Rightarrow> ssh \<Rightarrow> ssh run" where
  "channel_post_mux_client e rcb rd1 rd2 wr i ssh =
     andThen (channel_post_mux_client_read e rcb rd1 rd2 i ssh) (on_channel (channel_post_mux_client_write e wr) i)"

text \<open>A new client must be of the user who runs the master, or root: \<open>peer\<close> is its effective user.\<close>

definition channel_post_mux_listener ::
    "env \<Rightarrow> (callback \<Rightarrow> nat \<Rightarrow> ssh \<Rightarrow> bool \<times> ssh) \<Rightarrow> (int \<Rightarrow> nat option) \<Rightarrow> nat \<Rightarrow> accept_res \<Rightarrow> nat \<Rightarrow> ssh \<Rightarrow> ssh run" where
  "channel_post_mux_listener e rcb peer uid acc i ssh =
     (case s_channels ssh ! i of
        None \<Rightarrow> Fatal
      | Some c \<Rightarrow>
        if c_io_ready c AND SSH_CHAN_IO_SOCK_R = 0 then Done ssh
        else
          (case acc of
             Accepted newsock \<Rightarrow>
               (case peer newsock of
                  None \<Rightarrow> Done (emit (Close_fd newsock) ssh)
                | Some euid \<Rightarrow>
                  if euid \<noteq> 0 \<and> uid \<noteq> euid then Done (emit (Close_fd newsock) ssh)
                  else andThen (channel_new e ssh ''mux-control'' SSH_CHANNEL_MUX_CLIENT newsock newsock (-1)
                         (c_local_window_max c) (c_local_maxpacket c) CHAN_EXTENDED_IGNORE ''mux-control''
                         CHANNEL_NONBLOCK_SET)
                    (\<lambda>(j, ssh1). case s_channels ssh1 ! j of
                       None \<Rightarrow> Fatal
                     | Some nc \<Rightarrow>
                       (case c_mux_rcb c of
                          None \<Rightarrow> Fatal
                        | Some cb \<Rightarrow>
                          on_channel (\<lambda>st. Done (set_flag CHAN_LOCAL st)) j
                            (snd (rcb cb j (set_slot j (Some (nc\<lparr>c_mux_rcb := Some cb\<rparr>)) ssh1))))))
           | _ \<Rightarrow> Done (pause_listener e acc i c ssh)))"

section \<open>The first packet of an X11 connection\<close>

text \<open>The cookie the server was given and the one of the display, with the name of the protocol.\<close>

record x11_state =
  x11_refuse_time :: int
  x11_saved_proto :: "u8 list"
  x11_saved_data :: "u8 list"
  x11_fake_data :: "u8 list"

definition round4 :: "nat \<Rightarrow> nat" where
  "round4 n = 4 * ((n + 3) div 4)"

text \<open>Lengths of the name and of the data in the header, by its byte order; \<open>None\<close> for a bad one.\<close>

definition x11_lengths :: "u8 list \<Rightarrow> (nat \<times> nat) option" where
  "x11_lengths p =
     (if p ! 0 = 0x42 then Some (256 * unat (p ! 6) + unat (p ! 7), 256 * unat (p ! 8) + unat (p ! 9))
      else if p ! 0 = 0x6c then Some (unat (p ! 6) + 256 * unat (p ! 7), unat (p ! 8) + 256 * unat (p ! 9))
      else None)"

definition x11_open_helper :: "env \<Rightarrow> x11_state \<Rightarrow> sshbuf \<Rightarrow> (int \<times> sshbuf) run" where
  "x11_open_helper e x b =
     (let p = contents b; have = unat (sshbuf_len b) in
      if x11_refuse_time x \<noteq> 0 \<and> e_monotime e \<ge> x11_refuse_time x then Done (-1, b)
      else if have < 12 then Done (0, b)
      else (case sshbuf_mutable_ptr b of None \<Rightarrow> Fatal | Some d \<Rightarrow>
           (case x11_lengths p of
              None \<Rightarrow> Done (-1, b)
            | Some (proto_len, data_len) \<Rightarrow>
              let at = 12 + round4 proto_len in
              if have < at + round4 data_len then Done (0, b)
              else if proto_len \<noteq> length (x11_saved_proto x) \<or> take proto_len (drop 12 p) \<noteq> x11_saved_proto x
              then Done (-1, b)
              else if data_len \<noteq> length (x11_fake_data x) \<or> take data_len (drop at p) \<noteq> x11_fake_data x
              then Done (-1, b)
              else if length (x11_fake_data x) \<noteq> length (x11_saved_data x) then Done (-1, b)
              else (case write_at b (d + word_of_nat at) (x11_saved_data x) of
                      (Inl r, _) \<Rightarrow> Fatal
                    | (Inr _, b1) \<Rightarrow> Done (1, b1)))))"

definition channel_pre_x11_open :: "env \<Rightarrow> x11_state \<Rightarrow> u32 \<Rightarrow> chan_st \<Rightarrow> chan_st run" where
  "channel_pre_x11_open e x compat_bits st =
     andThen (x11_open_helper e x (c_output (fst st)))
       (\<lambda>(ret, out).
          let st1 = ((fst st)\<lparr>c_output := out\<rparr>, snd st) in
          if ret = 1 then Done (channel_pre_open e ((fst st1)\<lparr>c_type := SSH_CHANNEL_OPEN, c_lastused := e_monotime e\<rparr>, snd st1))
          else if ret = -1 then channel_force_close e compat_bits False st1
          else Done st1)"

section \<open>Forwarding of standard input and output\<close>

definition channel_connect_stdio_fwd ::
    "env \<Rightarrow> sock_calls \<Rightarrow> ssh \<Rightarrow> string \<Rightarrow> u16 \<Rightarrow> int \<Rightarrow> int \<Rightarrow> nonblock \<Rightarrow> (nat \<times> ssh) run" where
  "channel_connect_stdio_fwd e k ssh host port inp out nonblock =
     andThen (channel_new e ssh ''stdio-forward'' SSH_CHANNEL_OPENING inp out (-1) CHAN_TCP_WINDOW_DEFAULT
                CHAN_TCP_PACKET_DEFAULT CHAN_EXTENDED_IGNORE ''stdio-forward'' nonblock)
       (\<lambda>(i, ssh1). case s_channels ssh1 ! i of
          None \<Rightarrow> Fatal
        | Some c \<Rightarrow>
          let c1 = channel_register_fds e (c\<lparr>c_path := Some host, c_host_port := uint port, c_listening_port := 0,
                     c_force_drain := True\<rparr>) inp out (-1) CHAN_EXTENDED_IGNORE CHANNEL_NONBLOCK_SET False
          in andThen (on_channel (port_open_helper e k ''direct-tcpip'') i (set_slot i (Some c1) ssh1))
               (\<lambda>ssh2. Done (i, ssh2)))"

section \<open>The tables of handlers\<close>

text \<open>What the system calls of one round return, for the channel of each slot.\<close>

record round =
  r_read :: "nat \<Rightarrow> size_t \<Rightarrow> io_res"
  r_read_body :: "nat \<Rightarrow> size_t \<Rightarrow> io_res"
  r_write :: "nat \<Rightarrow> u8 list \<Rightarrow> io_res"
  r_eread :: "nat \<Rightarrow> size_t \<Rightarrow> io_res"
  r_ewrite :: "nat \<Rightarrow> u8 list \<Rightarrow> io_res"
  r_accept :: "nat \<Rightarrow> accept_res"
  r_sock_err :: "nat \<Rightarrow> sock_err"

text \<open>What the handlers need beside: sockets' names, the X11 cookies, the master's packet handler and users.\<close>

record handlers =
  h_env :: env
  h_net :: net
  h_calls :: sock_calls
  h_x11 :: x11_state
  h_rcb :: "callback \<Rightarrow> nat \<Rightarrow> ssh \<Rightarrow> bool \<times> ssh"
  h_peer :: "int \<Rightarrow> nat option"
  h_uid :: nat

definition channel_pre :: "handlers \<Rightarrow> chan_type \<Rightarrow> (nat \<Rightarrow> ssh \<Rightarrow> ssh run) option" where
  "channel_pre h ty =
     (case ty of
        SSH_CHANNEL_OPEN \<Rightarrow> Some (on_channel (\<lambda>st. Done (channel_pre_open (h_env h) st)))
      | SSH_CHANNEL_X11_OPEN \<Rightarrow>
          Some (\<lambda>i ssh. on_channel (channel_pre_x11_open (h_env h) (h_x11 h) (s_compat ssh)) i ssh)
      | SSH_CHANNEL_PORT_LISTENER \<Rightarrow> Some (on_channel (\<lambda>st. Done (channel_pre_listener (fst st), snd st)))
      | SSH_CHANNEL_RPORT_LISTENER \<Rightarrow> Some (on_channel (\<lambda>st. Done (channel_pre_listener (fst st), snd st)))
      | SSH_CHANNEL_UNIX_LISTENER \<Rightarrow> Some (on_channel (\<lambda>st. Done (channel_pre_listener (fst st), snd st)))
      | SSH_CHANNEL_RUNIX_LISTENER \<Rightarrow> Some (on_channel (\<lambda>st. Done (channel_pre_listener (fst st), snd st)))
      | SSH_CHANNEL_X11_LISTENER \<Rightarrow> Some (on_channel (\<lambda>st. Done (channel_pre_listener (fst st), snd st)))
      | SSH_CHANNEL_AUTH_SOCKET \<Rightarrow> Some (on_channel (\<lambda>st. Done (channel_pre_listener (fst st), snd st)))
      | SSH_CHANNEL_CONNECTING \<Rightarrow> Some (on_channel (\<lambda>st. Done (channel_pre_connecting (fst st), snd st)))
      | SSH_CHANNEL_DYNAMIC \<Rightarrow> Some (on_channel (channel_pre_dynamic (h_env h) (h_calls h)))
      | SSH_CHANNEL_RDYNAMIC_FINISH \<Rightarrow> Some (on_channel (\<lambda>st. Done (channel_pre_connecting (fst st), snd st)))
      | SSH_CHANNEL_MUX_LISTENER \<Rightarrow> Some (on_channel (\<lambda>st. Done (channel_pre_listener (fst st), snd st)))
      | SSH_CHANNEL_MUX_CLIENT \<Rightarrow> Some (on_channel (channel_pre_mux_client (h_env h)))
      | _ \<Rightarrow> None)"

definition post_open :: "handlers \<Rightarrow> round \<Rightarrow> nat \<Rightarrow> ssh \<Rightarrow> ssh run" where
  "post_open h r i ssh =
     on_channel (channel_post_open (h_env h) (s_compat ssh) (r_read r i) (r_write r i) (r_eread r i) (r_ewrite r i)) i ssh"

definition post_port :: "handlers \<Rightarrow> round \<Rightarrow> nat \<Rightarrow> ssh \<Rightarrow> ssh run" where
  "post_port h r i = channel_post_port_listener (h_env h) (h_calls h) (r_accept r i) i"

definition post_connecting :: "handlers \<Rightarrow> round \<Rightarrow> nat \<Rightarrow> ssh \<Rightarrow> ssh run" where
  "post_connecting h r i ssh =
     on_channel (channel_post_connecting (h_env h) (h_net h) (s_compat ssh) (r_sock_err r i)) i ssh"

definition channel_post :: "handlers \<Rightarrow> round \<Rightarrow> chan_type \<Rightarrow> (nat \<Rightarrow> ssh \<Rightarrow> ssh run) option" where
  "channel_post h r ty =
     (case ty of
        SSH_CHANNEL_OPEN \<Rightarrow> Some (post_open h r)
      | SSH_CHANNEL_PORT_LISTENER \<Rightarrow> Some (post_port h r)
      | SSH_CHANNEL_RPORT_LISTENER \<Rightarrow> Some (post_port h r)
      | SSH_CHANNEL_UNIX_LISTENER \<Rightarrow> Some (post_port h r)
      | SSH_CHANNEL_RUNIX_LISTENER \<Rightarrow> Some (post_port h r)
      | SSH_CHANNEL_X11_LISTENER \<Rightarrow>
          Some (\<lambda>i. channel_post_x11_listener (h_env h) (h_calls h) (r_accept r i) i)
      | SSH_CHANNEL_AUTH_SOCKET \<Rightarrow> Some (\<lambda>i. channel_post_auth_listener (h_env h) (r_accept r i) i)
      | SSH_CHANNEL_CONNECTING \<Rightarrow> Some (post_connecting h r)
      | SSH_CHANNEL_DYNAMIC \<Rightarrow> Some (post_open h r)
      | SSH_CHANNEL_RDYNAMIC_FINISH \<Rightarrow> Some (post_connecting h r)
      | SSH_CHANNEL_MUX_LISTENER \<Rightarrow>
          Some (\<lambda>i. channel_post_mux_listener (h_env h) (h_rcb h) (h_peer h) (h_uid h) (r_accept r i) i)
      | SSH_CHANNEL_MUX_CLIENT \<Rightarrow>
          Some (\<lambda>i. channel_post_mux_client (h_env h) (h_rcb h) (r_read r i) (r_read_body r i) (r_write r i) i)
      | _ \<Rightarrow> None)"

end
