(* ===== verification/PostProps.thy ===== *)
theory PostProps
  imports SocksProps ServerSteady ChanPost
begin

text \<open>
  What the handlers of ready descriptors do: a connection accepted on a forwarded port asks the peer for
  exactly the destination of the listener, a connection in progress is answered once, after at most as many
  attempts as it has addresses, and an X11 connection goes on only with the cookie of the session.
\<close>

section \<open>Accepted connections\<close>

lemma new_sock:
  assumes "channel_new e ssh ctype type rfd wfd efd window maxpack eu name nb = Done (i, ssh')"
    and "chan ssh' i = Some c"
  shows "c_sock c = (if rfd = wfd then rfd else -1)"
proof -
  have i: "i < length (s_channels ssh')" "s_channels ssh' ! i = Some c"
    using assms(2) by (auto simp: chan_def split: if_splits)
  from assms(1) i show ?thesis
    by (auto simp: channel_new_def Let_def frame_simps split: if_splits option.splits prod.splits sum.splits)
qed


text \<open>
  C27: A connection that is accepted on a forwarded port gets a new channel in a free slot, on the accepted
  socket, and exactly one message goes to the peer: the request to open the destination the listener was
  made for (for a listener the peer asked for: the address and the port it listens on), with the number of
  the new channel. No other channel is touched.
\<close>

theorem accepted_connection_asks:
  assumes "chan ssh i = Some c" and "c_io_ready c AND SSH_CHAN_IO_SOCK_R \<noteq> 0" and "0 \<le> sock"
    and "c_type c = SSH_CHANNEL_RPORT_LISTENER \<or>
      c_type c \<noteq> SSH_CHANNEL_RUNIX_LISTENER \<and> c_host_port c \<noteq> 0 \<and> c_host_port c \<noteq> PORT_STREAMLOCAL"
    and "c_path c = Some path"
    and "channel_post_port_listener e k (Accepted sock) i ssh = Done ssh'"
  shows "\<exists>j nc lport oip oport. chan ssh j = None \<and> chan ssh' j = Some nc \<and> (\<forall>m. m \<noteq> j \<longrightarrow> chan ssh' m = chan ssh m) \<and>
    c_type nc = SSH_CHANNEL_OPENING \<and> c_rfd nc = sock \<and> c_wfd nc = sock \<and> get_local_port k sock = Done lport \<and>
    s_effects ssh' = s_effects ssh @ [Send (Packet SSH2_MSG_CHANNEL_OPEN
      (if c_type c = SSH_CHANNEL_RPORT_LISTENER
       then [PUT_CSTRING ''forwarded-tcpip'', PUT_U32 (word_of_nat j), PUT_U32 (c_local_window_max c),
         PUT_U32 (c_local_maxpacket c), PUT_CSTRING path, PUT_U32 (word_of_int lport), PUT_CSTRING oip, PUT_U32 oport]
       else [PUT_CSTRING ''direct-tcpip'', PUT_U32 (word_of_nat j), PUT_U32 (c_local_window_max c),
         PUT_U32 (c_local_maxpacket c), PUT_CSTRING path, PUT_U32 (word_of_int (c_host_port c)), PUT_CSTRING oip,
         PUT_U32 oport]))]"
proof -
  define rtype where "rtype = (if c_type c = SSH_CHANNEL_RPORT_LISTENER then ''forwarded-tcpip'' else ''direct-tcpip'')"
  have t: "listener_target c = (SSH_CHANNEL_OPENING, rtype)"
    using assms(4) by (auto simp: listener_target_def rtype_def)
  note ci = chan_nth[OF assms(1)]
  from assms(6) obtain j ssh1 nc where
    n: "channel_new e ssh rtype SSH_CHANNEL_OPENING sock sock (-1) (c_local_window_max c) (c_local_maxpacket c)
      CHAN_EXTENDED_IGNORE rtype CHANNEL_NONBLOCK_SET = Done (j, ssh1)" and nc: "s_channels ssh1 ! j = Some nc"
    and r: "on_channel (port_open_helper e k rtype) j (set_slot j (Some (nc\<lparr>c_listening_port := c_listening_port c,
        c_host_port := c_host_port c, c_path := Some path\<rparr>)) ssh1) = Done ssh'"
    using assms(2,5) ci
    by (auto simp: channel_post_port_listener_def t andThen_Done Let_def split: option.split_asm)
  let ?nc = "nc\<lparr>c_listening_port := c_listening_port c, c_host_port := c_host_port c, c_path := Some path\<rparr>"
  from channel_new_result[OF n] obtain c0 where
    j: "chan ssh j = None" "fresh_channel j rtype SSH_CHANNEL_OPENING (c_local_window_max c) (c_local_maxpacket c) c0"
    "c_rfd c0 = sock" "c_wfd c0 = sock" and s1: "ssh1 = ssh\<lparr>s_channels := ((if j < length (s_channels ssh) then s_channels ssh
                 else s_channels ssh @ replicate 10 None))[j := Some c0]\<rparr>" and "j = free_slot (s_channels ssh)" by metis
  then have jl: "j < length (s_channels ssh1)" using free_slot_le[of "s_channels ssh"] by auto
  with nc s1 have c0: "nc = c0" by simp
  from r obtain c' fx where p: "port_open_helper e k rtype (?nc, []) = Done (c', fx)"
    and s: "ssh' = (set_slot j (Some ?nc) ssh1)\<lparr>s_channels := (s_channels ssh1)[j := Some c'],
      s_effects := s_effects ssh1 @ fx\<rparr>"
    using jl by (auto simp: on_channel_def andThen_Done set_slot_def)
  have "chan ssh1 j = Some nc" using jl nc by (simp add: chan_def)
  from new_sock[OF n this] have sk: "c_sock ?nc = sock" by simp
  from j(2) c0 have nf: "c_self ?nc = j" "c_type ?nc = SSH_CHANNEL_OPENING" "c_local_window ?nc = c_local_window_max c"
      "c_local_maxpacket ?nc = c_local_maxpacket c" "c_rfd ?nc = sock" "c_wfd ?nc = sock" "path_of ?nc = path"
      "c_host_port ?nc = c_host_port c"
    using j(3,4) by (simp_all add: fresh_channel_def path_of_def)
  define nc1 where "nc1 = ?nc"
  note nf = nf[folded nc1_def] and sk = sk[folded nc1_def] and p = p[folded nc1_def]
  from p assms(3) sk obtain lport pp where port: "get_local_port k sock = Done lport" "get_peer_port k sock = Done pp"
    by (auto simp: port_open_helper_def Let_def andThen_Done)
  from p assms(3) sk port obtain oip oport name where
    c': "c' = nc1\<lparr>c_remote_name := name\<rparr>" "fx = [Send (Packet SSH2_MSG_CHANNEL_OPEN (open_preamble nc1 rtype @
      port_open_fields rtype nc1 oip oport lport))]"
    by (auto simp: port_open_helper_def Let_def send_pkt_def split: if_split_asm)
  have "chan ssh' m = (if m = j then Some c' else chan ssh m)" for m
    using jl s1 j(1) by (auto simp: s chan_def set_slot_def nth_append)
  moreover have "s_effects ssh' = s_effects ssh @ fx" using s1 by (simp add: s)
  ultimately show ?thesis
    using port(1) nf j(1) unfolding c'
    by (intro exI[of _ j] exI[of _ "nc1\<lparr>c_remote_name := name\<rparr>"] exI[of _ lport] exI[of _ oip] exI[of _ "word_of_int oport"])
      (auto simp: open_preamble_def port_open_fields_def rtype_def)
qed

text \<open>A listener for \<open>db:5432\<close> with a connection waiting.\<close>

definition demo_listener :: channel where
  "demo_listener = demo_new\<lparr>c_type := SSH_CHANNEL_PORT_LISTENER, c_io_ready := SSH_CHAN_IO_SOCK_R,
     c_path := Some ''db'', c_host_port := 5432\<rparr>"

lemma demo_accepts:
  "\<exists>ssh'. channel_post_port_listener demo_env demo_calls (Accepted 11) 0 (demo_table [demo_listener]) = Done ssh'"
proof -
  have t: "listener_target demo_listener = (SSH_CHANNEL_OPENING, ''direct-tcpip'')"
    by (simp add: listener_target_def demo_listener_def)
  have "length (s_channels (demo_table [demo_listener])) \<le> CHANNELS_MAX_CHANNELS" by (simp add: demo_table_def)
  from demo_channel_new[OF this] obtain j ssh1 where
    n: "channel_new demo_env (demo_table [demo_listener]) ''direct-tcpip'' SSH_CHANNEL_OPENING 11 11 (-1)
      (c_local_window_max demo_listener) (c_local_maxpacket demo_listener) CHAN_EXTENDED_IGNORE ''direct-tcpip''
      CHANNEL_NONBLOCK_SET = Done (j, ssh1)" by blast
  from channel_new_chan[OF n] obtain nc where "chan ssh1 j = Some nc" by auto
  then have nc: "s_channels ssh1 ! j = Some nc" "j < length (s_channels ssh1)" by (auto simp: chan_def split: if_splits)
  show ?thesis
    using port_open_asks[OF demo_works, of "nc\<lparr>c_listening_port := c_listening_port demo_listener,
      c_host_port := c_host_port demo_listener, c_path := c_path demo_listener\<rparr>" "[]"] n nc
    by (auto simp: channel_post_port_listener_def demo_table_def t on_channel_def set_slot_def andThen_Done)
      (auto simp: demo_listener_def)
qed

theorem accepted_connection_asks_witness:
  "\<exists>ssh' j nc. channel_post_port_listener demo_env demo_calls (Accepted 11) 0 (demo_table [demo_listener]) = Done ssh' \<and>
     chan ssh' j = Some nc \<and> c_type nc = SSH_CHANNEL_OPENING \<and> c_rfd nc = 11"
proof -
  from demo_accepts obtain ssh' where
    r: "channel_post_port_listener demo_env demo_calls (Accepted 11) 0 (demo_table [demo_listener]) = Done ssh'"
    by blast
  have "chan (demo_table [demo_listener]) 0 = Some demo_listener" by (simp add: demo_table_def chan_def)
  from accepted_connection_asks[OF this _ _ _ _ r, of "''db''"] r show ?thesis
    by (auto simp: demo_listener_def)
qed

section \<open>Connections in progress\<close>

text \<open>One attempt: a failing one leaves fewer addresses, and only closes sockets on the way.\<close>

lemma connect_next_fewer:
  "connect_next nt ais = Done (sock, rest, fx) \<Longrightarrow>
     sends fx = [] \<and> (if sock = -1 then rest = [] else length rest < length ais)"
proof (induction ais arbitrary: sock rest fx)
  case (Cons ai ais)
  from Cons.prems consider "connect_next nt ais = Done (sock, rest, fx)"
    | fx1 where "connect_next nt ais = Done (sock, rest, fx1)" "fx = Close_fd (n_socket nt ai) # fx1"
    | "sock \<noteq> -1" "rest = ais" "fx = []"
    by (auto simp: Let_def andThen_Done split: if_split_asm)
  then show ?case
    by cases (use Cons.IH in \<open>fastforce split: if_split_asm\<close>)+
qed simp

text \<open>
  The rounds of a connection whose socket becomes writable: each finds what is pending on the socket; they
  end when the channel is not connecting any more.
\<close>

fun connect_rounds :: "env \<Rightarrow> net \<Rightarrow> u32 \<Rightarrow> sock_err list \<Rightarrow> chan_st \<Rightarrow> chan_st run" where
  "connect_rounds e nt cb [] st = Done st"
| "connect_rounds e nt cb (err # errs) st =
     (if c_type (fst st) \<noteq> SSH_CHANNEL_CONNECTING then Done st
      else andThen (channel_post_connecting e nt cb err ((fst st)\<lparr>c_io_ready := SSH_CHAN_IO_SOCK_W\<rparr>, snd st))
             (connect_rounds e nt cb errs))"

definition confirmation :: "channel \<Rightarrow> packet" where
  "confirmation c = Packet SSH2_MSG_CHANNEL_OPEN_CONFIRMATION
     [PUT_U32 (c_remote_id c), PUT_U32 (word_of_nat (c_self c)), PUT_U32 (c_local_window c), PUT_U32 (c_local_maxpacket c)]"

definition refusal :: "channel \<Rightarrow> string \<Rightarrow> packet" where
  "refusal c msg = Packet SSH2_MSG_CHANNEL_OPEN_FAILURE
     [PUT_U32 (c_remote_id c), PUT_U32 2, PUT_CSTRING msg, PUT_CSTRING '''']"

definition same_numbers :: "channel \<Rightarrow> channel \<Rightarrow> bool" where
  "same_numbers c c' \<longleftrightarrow> c_remote_id c' = c_remote_id c \<and> c_self c' = c_self c \<and>
     c_local_window c' = c_local_window c \<and> c_local_maxpacket c' = c_local_maxpacket c"

text \<open>What one round does, by what was pending; \<open>new\<close> are its effects.\<close>

definition round_result :: "sock_err \<Rightarrow> channel \<Rightarrow> channel \<Rightarrow> eff list \<Rightarrow> bool" where
  "round_result err c c' new =
    (case err of
       Sock_ok \<Rightarrow> c_type c' = SSH_CHANNEL_OPEN \<and> sends new = [confirmation c]
     | Sock_again \<Rightarrow> c' = c \<and> new = []
     | Sock_failed msg \<Rightarrow>
       (c_type c' = SSH_CHANNEL_CONNECTING \<and> sends new = [] \<and>
          length (cc_ai (c_connect_ctx c')) < length (cc_ai (c_connect_ctx c))) \<or>
       (c_type c' = SSH_CHANNEL_ZOMBIE \<and> sends new = [refusal c msg]))"

lemma connecting_round:
  assumes "c_type c = SSH_CHANNEL_CONNECTING" "c_io_ready c AND SSH_CHAN_IO_SOCK_W \<noteq> 0"
    "channel_post_connecting e nt cb err (c, fx) = Done (c', fx')"
  shows "\<exists>new. fx' = fx @ new \<and> same_numbers c c' \<and> round_result err c c' new"
proof (cases err)
  case (Sock_failed msg)
  with assms obtain sock rest cl where n: "connect_next nt (cc_ai (c_connect_ctx c)) = Done (sock, rest, cl)"
    and r: "andThen (if sock = -1 then connect_exhausted e cb False msg
          (c\<lparr>c_connect_ctx := (c_connect_ctx c)\<lparr>cc_ai := rest\<rparr>\<rparr>, fx @ cl)
        else Done (c\<lparr>c_connect_ctx := (c_connect_ctx c)\<lparr>cc_ai := rest\<rparr>\<rparr>, fx @ cl))
      (\<lambda>st2. Done ((fst st2)\<lparr>c_sock := sock, c_rfd := sock, c_wfd := sock\<rparr>,
                   snd st2 @ [Close_fd (c_sock (fst st2))])) = Done (c', fx')"
    by (auto simp: channel_post_connecting_def Let_def andThen_Done split: if_split_asm)
  note f = connect_next_fewer[OF n]
  show ?thesis
  proof (cases "sock = -1")
    case True
    with r f Sock_failed show ?thesis
      by (auto simp: connect_exhausted_def Let_def andThen_Done send_pkt_def chan_mark_dead_def refusal_def
          same_numbers_def round_result_def split: if_split_asm)
  next
    case False
    with r f Sock_failed assms(1) show ?thesis by (auto simp: same_numbers_def round_result_def)
  qed
qed (use assms in \<open>auto simp: channel_post_connecting_def Let_def send_pkt_def confirmation_def same_numbers_def
      round_result_def split: if_split_asm\<close>)

text \<open>The answer after all rounds; \<open>new\<close> are the effects since the first.\<close>

definition answered_once :: "channel \<Rightarrow> sock_err list \<Rightarrow> channel \<Rightarrow> eff list \<Rightarrow> bool" where
  "answered_once c errs c' new \<longleftrightarrow>
    (c_type c' = SSH_CHANNEL_CONNECTING \<and> sends new = [] \<and>
      length (filter (\<lambda>x. x \<noteq> Sock_again) errs) + length (cc_ai (c_connect_ctx c')) \<le> length (cc_ai (c_connect_ctx c))) \<or>
    (c_type c' = SSH_CHANNEL_OPEN \<and> sends new = [confirmation c]) \<or>
    (c_type c' = SSH_CHANNEL_ZOMBIE \<and> (\<exists>msg. Sock_failed msg \<in> set errs \<and> sends new = [refusal c msg]))"

lemma rounds_answer:
  "connect_rounds e nt cb errs (c, fx) = Done (c', fx') \<Longrightarrow> c_type c = SSH_CHANNEL_CONNECTING \<Longrightarrow>
   \<exists>new. fx' = fx @ new \<and> answered_once c errs c' new"
proof (induction errs arbitrary: c fx)
  case (Cons err errs)
  let ?c = "c\<lparr>c_io_ready := SSH_CHAN_IO_SOCK_W\<rparr>"
  from Cons.prems obtain c1 fx1 where p: "channel_post_connecting e nt cb err (?c, fx) = Done (c1, fx1)"
    and rest: "connect_rounds e nt cb errs (c1, fx1) = Done (c', fx')" by (auto simp: andThen_Done)
  have cc: "c_type c = SSH_CHANNEL_CONNECTING" by (rule Cons.prems(2))
  from connecting_round[OF _ _ p] cc obtain new where
    new: "fx1 = fx @ new" "same_numbers ?c c1" "round_result err ?c c1 new" by auto
  have pk: "confirmation c1 = confirmation c" "refusal c1 = refusal c" "confirmation ?c = confirmation c"
    "refusal ?c = refusal c"
    using new(2) by (simp_all add: confirmation_def refusal_def same_numbers_def fun_eq_iff)
  show ?case
  proof (cases "c_type c1 = SSH_CHANNEL_CONNECTING")
    case True
    from Cons.IH[OF rest True] obtain more where more: "fx' = fx1 @ more" "answered_once c1 errs c' more" by blast
    have "sends new = [] \<and> (if err = Sock_again then length (cc_ai (c_connect_ctx c1)) = length (cc_ai (c_connect_ctx c))
        else length (cc_ai (c_connect_ctx c1)) < length (cc_ai (c_connect_ctx c)))"
      using new(3) True by (cases err) (auto simp: round_result_def)
    with more new(1) show ?thesis
      by (intro exI[of _ "new @ more"]) (auto simp: answered_once_def pk split: if_split_asm)
  next
    case False
    then have "c' = c1 \<and> fx' = fx1" using rest by (cases errs) auto
    with False new show ?thesis by (cases err) (auto simp: answered_once_def round_result_def pk cc)
  qed
qed (simp add: answered_once_def)


text \<open>A connection with one address left, whose first attempt fails.\<close>

definition demo_connecting :: channel where
  "demo_connecting = demo_new\<lparr>c_type := SSH_CHANNEL_CONNECTING, c_remote_id := 5, c_have_remote_id := True,
     c_connect_ctx := \<lparr>cc_host = Some ''db'', cc_port = 5432,
       cc_ai = [\<lparr>ai_family = AF_INET, ai_addr = ''10.0.0.7'', ai_port = 5432\<rparr>]\<rparr>\<rparr>"

lemma demo_connects:
  "\<exists>c' fx. connect_rounds demo_env demo_net 0 [Sock_failed ''refused'', Sock_again, Sock_ok] (demo_connecting, []) = Done (c', fx) \<and>
     c_type c' = SSH_CHANNEL_OPEN"
  by (simp add: channel_post_connecting_def Let_def demo_connecting_def demo_net_def send_pkt_def)


section \<open>X11 connections\<close>

text \<open>A buffer whose bytes from position \<open>n\<close> are overwritten.\<close>

lemma overwrite:
  assumes inv: "sshbuf_inv b" and c: "contents b = xs @ old @ ys" and l: "length new = length old"
    and w: "write_at b (b_off b + word_of_nat (length xs)) new = (r, b')"
  shows "r = Inr () \<and> contents b' = xs @ new @ ys"
proof -
  have fit: "unat (b_off b) + length (xs @ old @ ys) \<le> length (b_mem b)"
    using inv_bounds[OF inv] length_contents[OF inv] unfolding c by linarith
  have "unat (word_of_nat (length xs) :: size_t) = length xs"
    using fit inv_bounds[OF inv] by (intro unat_of_length) simp
  then have p: "unat (b_off b + word_of_nat (length xs)) = unat (b_off b) + length xs"
    using fit inv_bounds[OF inv] by (simp add: unat_add_nowrap)
  let ?pre = "take (unat (b_off b)) (b_mem b)"
  let ?post = "drop (unat (b_size b) - unat (b_off b)) (drop (unat (b_off b)) (b_mem b))"
  have m: "b_mem b = ?pre @ (xs @ old @ ys) @ ?post"
    unfolding c[symmetric] contents_def by (simp only: append_take_drop_id)
  have pl: "length ?pre = unat (b_off b)" using inv_bounds[OF inv] by simp
  obtain pre post where m: "b_mem b = pre @ (xs @ old @ ys) @ post" "length pre = unat (b_off b)"
    using m pl by blast
  have sz: "unat (b_size b) - unat (b_off b) = length (xs @ old @ ys)" using length_contents[OF inv] unfolding c by simp
  show ?thesis
    using w l m sz by (auto simp: write_at_def mem_write_def p contents_def)
qed

lemma force_close_type:
  assumes "channel_force_close e cm False st = Done st'" shows "c_type (fst st') = c_type (fst st)"
  using assms
proof (cases rule: force_closeE)
  case (1 st1 st2 st3)
  have "same_ident (fst st) (fst st1)"
    using ident_trans[OF ident_shutdown(2) ident_sets(1)] by (simp add: 1(1) chan_read_failed_def Let_def)
  moreover have "c_type (fst st2) = c_type (fst st1)"
    using 1(2) ident_ibuf_empty by (fastforce simp: same_ident_def split: if_split_asm)
  moreover have "c_type (fst st3) = c_type (fst st2)"
    using 1(3) ident_write_failed by (fastforce simp: same_ident_def split: if_split_asm)
  ultimately show ?thesis using 1 by (simp add: same_ident_def)
qed

lemma pre_open_buffered:
  assumes "sshbuf_len (c_output (fst st)) \<noteq> 0"
  shows "c_type (fst (channel_pre_open e st)) = c_type (fst st)" "c_output (fst (channel_pre_open e st)) = c_output (fst st)"
    "snd (channel_pre_open e st) = snd st"
  using assms by (simp_all add: channel_pre_open_def want_def Let_def word_neq_0_conv)

text \<open>What the first packet needs; the name of the protocol stands behind the fixed part of 12 bytes.\<close>

definition x11_complete :: "u8 list \<Rightarrow> bool" where
  "x11_complete p \<longleftrightarrow> 12 \<le> length p \<and>
     (case x11_lengths p of None \<Rightarrow> True | Some (n, d) \<Rightarrow> 12 + round4 n + round4 d \<le> length p)"

definition cookie_swapped :: "x11_state \<Rightarrow> u8 list \<Rightarrow> u8 list \<Rightarrow> bool" where
  "cookie_swapped x p q \<longleftrightarrow> (\<exists>hdr rest. p = hdr @ x11_fake_data x @ rest \<and> q = hdr @ x11_saved_data x @ rest \<and>
     length hdr = 12 + round4 (length (x11_saved_proto x)) \<and>
     take (length (x11_saved_proto x)) (drop 12 hdr) = x11_saved_proto x)"

lemma round4_ge: "n \<le> round4 n"
  by (simp add: round4_def)

lemma x11_helper_result:
  assumes inv: "sshbuf_inv b" and h: "x11_open_helper e x b = Done (ret, b')"
  shows "(ret = 1 \<and> cookie_swapped x (contents b) (contents b') \<and> length (contents b') = length (contents b) \<and>
      12 \<le> length (contents b) \<and> sshbuf_inv b' \<and> (x11_refuse_time x = 0 \<or> e_monotime e < x11_refuse_time x)) \<or>
    (ret = 0 \<and> b' = b \<and> \<not> x11_complete (contents b)) \<or> (ret = -1 \<and> b' = b)"
proof -
  let ?p = "contents b"
  have len: "unat (sshbuf_len b) = length ?p" using inv by (simp del: length_contents)
  from h consider "ret = -1" "b' = b" | "ret = 0" "b' = b" "\<not> x11_complete ?p"
    | d where "sshbuf_mutable_ptr b = Some d" "x11_lengths ?p = Some (length (x11_saved_proto x), length (x11_fake_data x))"
      "12 + round4 (length (x11_saved_proto x)) + round4 (length (x11_fake_data x)) \<le> length ?p"
      "take (length (x11_saved_proto x)) (drop 12 ?p) = x11_saved_proto x"
      "take (length (x11_fake_data x)) (drop (12 + round4 (length (x11_saved_proto x))) ?p) = x11_fake_data x"
      "length (x11_saved_data x) = length (x11_fake_data x)"
      "write_at b (d + word_of_nat (12 + round4 (length (x11_saved_proto x)))) (x11_saved_data x) = (Inr (), b')" "ret = 1"
      "x11_refuse_time x = 0 \<or> e_monotime e < x11_refuse_time x"
    unfolding x11_open_helper_def Let_def len x11_complete_def
    by (auto simp del: of_nat_add split: if_split_asm option.split_asm prod.split_asm sum.split_asm)
  then show ?thesis
  proof cases
    case (3 d)
    let ?at = "12 + round4 (length (x11_saved_proto x))" and ?n = "length (x11_fake_data x)"
    have d: "d = b_off b" using 3(1) by (simp add: sshbuf_mutable_ptr_def split: if_split_asm)
    have "?p = take ?at ?p @ take ?n (drop ?at ?p) @ drop ?n (drop ?at ?p)" by (simp only: append_take_drop_id)
    then have p: "?p = take ?at ?p @ x11_fake_data x @ drop ?n (drop ?at ?p)" by (simp only: 3(5))
    have l: "length (take ?at ?p) = ?at" using 3(3) by (simp del: length_contents)
    from overwrite[OF inv p 3(6), of "Inr ()" b'] 3(7) d l
    have q: "contents b' = take ?at ?p @ x11_saved_data x @ drop ?n (drop ?at ?p)" by (simp del: length_contents)
    have pr: "take (length (x11_saved_proto x)) (drop 12 (take ?at ?p)) = x11_saved_proto x"
      using 3(4) round4_ge[of "length (x11_saved_proto x)"] by (simp add: drop_take min_def)
    have "cookie_swapped x ?p (contents b')" unfolding cookie_swapped_def using p q l pr by blast
    moreover have "length (contents b') = length ?p" using p q 3(6) by (metis length_append)
    moreover have "sshbuf_inv b'"
      using 3(7) inv by (auto simp: write_at_def mem_write_def inv_iff split: if_split_asm)
    ultimately show ?thesis using 3(3,8,9) by (simp del: length_contents)
  qed simp_all
qed

text \<open>
  C29: A connection to a forwarded X11 display goes on only when its first packet names the protocol and
  carries the cookie the server was given, before the deadline: then the cookie is replaced by the one of
  the display, and no other byte changes. While the packet is incomplete nothing happens; in any other case
  both halves of the channel are closed, and it stays an X11 channel that is not open.
\<close>

theorem only_the_cookie_opens:
  assumes "c_type c = SSH_CHANNEL_X11_OPEN" and "bufs_ok c" and "close_inv (c, fx)"
    and "channel_pre_x11_open e x cm (c, fx) = Done (c', fx')"
  shows "(c_type c' = SSH_CHANNEL_OPEN \<and> cookie_swapped x (contents (c_output c)) (contents (c_output c')) \<and>
      fx' = fx \<and> (x11_refuse_time x = 0 \<or> e_monotime e < x11_refuse_time x)) \<or>
    (c' = c \<and> fx' = fx \<and> \<not> x11_complete (contents (c_output c))) \<or>
    (c_type c' = SSH_CHANNEL_X11_OPEN \<and> c_istate c' = CHAN_INPUT_CLOSED \<and> c_ostate c' = CHAN_OUTPUT_CLOSED)"
proof -
  have inv: "sshbuf_inv (c_output c)" using assms(2) by (simp add: bufs_ok_def)
  from assms(4) obtain ret out where h: "x11_open_helper e x (c_output c) = Done (ret, out)"
    and r: "(if ret = 1 then Done (channel_pre_open e (c\<lparr>c_output := out, c_type := SSH_CHANNEL_OPEN,
          c_lastused := e_monotime e\<rparr>, fx))
       else if ret = -1 then channel_force_close e cm False (c\<lparr>c_output := out\<rparr>, fx) else Done (c\<lparr>c_output := out\<rparr>, fx))
       = Done (c', fx')"
    by (auto simp only: channel_pre_x11_open_def andThen_Done Let_def prod.case fst_conv snd_conv)
  from x11_helper_result[OF inv h] consider
      (opened) "ret = 1" "cookie_swapped x (contents (c_output c)) (contents out)" "12 \<le> length (contents (c_output c))"
        "length (contents out) = length (contents (c_output c))" "sshbuf_inv out"
        "x11_refuse_time x = 0 \<or> e_monotime e < x11_refuse_time x"
    | (waits) "ret = 0" "out = c_output c" "\<not> x11_complete (contents (c_output c))"
    | (refused) "ret = -1" "out = c_output c" by argo
  then show ?thesis
  proof cases
    case o: opened
    then have "unat (sshbuf_len out) = length (contents (c_output c))" by (simp del: length_contents)
    with o(3) have "sshbuf_len out \<noteq> 0" by auto
    then have "sshbuf_len (c_output (fst (c\<lparr>c_output := out, c_type := SSH_CHANNEL_OPEN, c_lastused := e_monotime e\<rparr>, fx))) \<noteq> 0"
      by simp
    note k = pre_open_buffered[OF this, of e]
    from r o(1) have "channel_pre_open e (c\<lparr>c_output := out, c_type := SSH_CHANNEL_OPEN, c_lastused := e_monotime e\<rparr>, fx) = (c', fx')"
      by simp
    then have "fst (channel_pre_open e (c\<lparr>c_output := out, c_type := SSH_CHANNEL_OPEN, c_lastused := e_monotime e\<rparr>, fx)) = c'"
      "snd (channel_pre_open e (c\<lparr>c_output := out, c_type := SSH_CHANNEL_OPEN, c_lastused := e_monotime e\<rparr>, fx)) = fx'"
      by (simp_all only: fst_conv snd_conv)
    with k have "c_type c' = SSH_CHANNEL_OPEN" "c_output c' = out" "fx' = fx" by simp_all
    with o show ?thesis by simp
  next
    case waits
    with r show ?thesis by simp
  next
    case refused
    with r have fc: "channel_force_close e cm False (c, fx) = Done (c', fx')" by simp
    from force_close_closes[OF fc assms(3)] force_close_type[OF fc] assms(1,2) show ?thesis by simp
  qed
qed

text \<open>A protocol of one letter, and a packet with its name and the cookie.\<close>

definition demo_x11 :: x11_state where
  "demo_x11 = \<lparr>x11_refuse_time = 0, x11_saved_proto = [77], x11_saved_data = [1, 2], x11_fake_data = [3, 4]\<rparr>"

definition demo_hello :: "u8 list" where
  "demo_hello = [0x42, 0, 0, 11, 0, 0, 0, 1, 0, 2, 0, 0, 77, 0, 0, 0, 3, 4, 0, 0]"

definition demo_display :: channel where
  "demo_display = demo_open\<lparr>c_type := SSH_CHANNEL_X11_OPEN, c_output := demo_buf demo_hello\<rparr>"

lemma demo_hello_ok: "\<exists>out. x11_open_helper demo_env demo_x11 (demo_buf demo_hello) = Done (1, out) \<and> sshbuf_len out \<noteq> 0"
proof -
  have "sshbuf_check_sanity (demo_buf demo_hello) = Inr ()" by (rule inv_sane) (simp add: demo_hello_def)
  then show ?thesis
    by (simp add: x11_open_helper_def demo_hello_def demo_x11_def x11_lengths_def round4_def sshbuf_mutable_ptr_def
        write_at_def mem_write_def Let_def)
      (simp add: demo_buf_def sshbuf_len_def sshbuf_check_sanity_def)
qed

theorem only_the_cookie_opens_witness:
  "\<exists>c' fx'. channel_pre_x11_open demo_env demo_x11 0 (demo_display, []) = Done (c', fx') \<and>
     c_type c' = SSH_CHANNEL_OPEN \<and> cookie_swapped demo_x11 demo_hello (contents (c_output c'))"
proof -
  obtain out where out: "x11_open_helper demo_env demo_x11 (c_output demo_display) = Done (1, out)" "sshbuf_len out \<noteq> 0"
    using demo_hello_ok by (auto simp: demo_display_def)
  let ?st = "(demo_display\<lparr>c_output := out, c_type := SSH_CHANNEL_OPEN, c_lastused := e_monotime demo_env\<rparr>, [])"
  obtain c' fx' where r: "channel_pre_open demo_env ?st = (c', fx')" by fastforce
  then have p: "channel_pre_x11_open demo_env demo_x11 0 (demo_display, []) = Done (c', fx')"
    using out(1) by (simp add: channel_pre_x11_open_def)
  have "bufs_ok demo_display"
    using demo_bufs_ok(2) by (simp add: demo_display_def bufs_ok_def demo_hello_def)
  moreover have "close_inv (demo_display, [])"
    by (simp add: close_inv_def demo_display_def demo_simps said_def)
  moreover have "c_type demo_display = SSH_CHANNEL_X11_OPEN" "contents (c_output demo_display) = demo_hello"
    by (simp_all add: demo_display_def demo_hello_def)
  moreover have "c_type c' = SSH_CHANNEL_OPEN" using pre_open_buffered(1)[of ?st demo_env] out(2) r by simp
  ultimately show ?thesis using only_the_cookie_opens[OF _ _ _ p] p by auto
qed

end
