(* ===== verification/ChanPoll.thy ===== *)
theory ChanPoll
  imports ChanPost
begin

text \<open>
  The wait for descriptors (\<open>channel_prepare_poll\<close>, \<open>channel_after_poll\<close> of \<open>channels.c\<close>): what the
  channels want becomes the array for \<open>poll\<close>, and what \<open>poll\<close> reports becomes what is ready.
\<close>

abbreviation (input) POLLIN :: u16 where "POLLIN \<equiv> 0x01"
abbreviation (input) POLLOUT :: u16 where "POLLOUT \<equiv> 0x04"
abbreviation (input) POLLERR :: u16 where "POLLERR \<equiv> 0x08"
abbreviation (input) POLLHUP :: u16 where "POLLHUP \<equiv> 0x10"
abbreviation (input) POLLNVAL :: u16 where "POLLNVAL \<equiv> 0x20"

record pollfd =
  p_fd :: int
  p_events :: u16
  p_revents :: u16

section \<open>Before the wait\<close>

definition channel_before_prepare_io :: "env \<Rightarrow> net \<Rightarrow> ssh \<Rightarrow> ssh run" where
  "channel_before_prepare_io e nt ssh =
     for_slots (\<lambda>i c s. if c_type c = SSH_CHANNEL_RDYNAMIC_OPEN
       then on_channel (channel_before_prepare_io_rdynamic e nt s) i s else Done s) (slots ssh) ssh"

text \<open>The events to wait for when a flag is wanted.\<close>

definition arm :: "channel \<Rightarrow> u32 \<Rightarrow> u16 \<Rightarrow> u16" where
  "arm c flag ev = (if c_io_want c AND flag \<noteq> 0 then ev else 0)"

text \<open>The events of the read descriptor, which may be the others as well, and of the extended one.\<close>

definition efd_events :: "channel \<Rightarrow> u16" where
  "efd_events c = arm c SSH_CHAN_IO_EFD_R POLLIN OR arm c SSH_CHAN_IO_EFD_W POLLOUT"

definition sock_events :: "channel \<Rightarrow> u16" where
  "sock_events c = arm c SSH_CHAN_IO_SOCK_R POLLIN OR arm c SSH_CHAN_IO_SOCK_W POLLOUT"

definition rfd_events :: "channel \<Rightarrow> u16" where
  "rfd_events c = arm c SSH_CHAN_IO_RFD POLLIN OR
     (if c_wfd c = c_rfd c then arm c SSH_CHAN_IO_WFD POLLOUT else 0) OR
     (if c_efd c = c_rfd c then efd_events c else 0) OR
     (if c_sock c = c_rfd c then sock_events c else 0)"

text \<open>The entry number \<open>k\<close> of a channel, made when there is an event to wait for.\<close>

definition pack_pfd :: "nat \<Rightarrow> int \<Rightarrow> u16 \<Rightarrow> u16 \<Rightarrow> channel \<times> pollfd list \<Rightarrow> channel \<times> pollfd list" where
  "pack_pfd k fd ev stored cp =
     (if ev \<noteq> 0
      then ((fst cp)\<lparr>c_pfds := (c_pfds (fst cp))[k := int (length (snd cp))]\<rparr>,
            snd cp @ [\<lparr>p_fd = fd, p_events = stored, p_revents = 0\<rparr>])
      else cp)"

text \<open>
  The array is the list of the entries filled so far; \<open>npfd\<close> is its capacity. A separate socket gets an
  entry with no events, as the code writes it.
\<close>

definition channel_prepare_pollfd :: "nat \<Rightarrow> channel \<Rightarrow> pollfd list \<Rightarrow> (channel \<times> pollfd list) run" where
  "channel_prepare_pollfd npfd c ps =
     (if length ps + 4 > npfd then Fatal
      else
        let cp = (c\<lparr>c_pfds := [-1, -1, -1, -1]\<rparr>, ps);
            cp1 = (if c_rfd c \<noteq> -1 then pack_pfd 0 (c_rfd c) (rfd_events c) (rfd_events c) cp else cp);
            cp2 = (if c_wfd c \<noteq> -1 \<and> c_rfd c \<noteq> c_wfd c then
                     let ev = arm c SSH_CHAN_IO_WFD POLLOUT in pack_pfd 1 (c_wfd c) ev ev cp1
                   else cp1);
            cp3 = (if c_efd c \<noteq> -1 \<and> c_rfd c \<noteq> c_efd c then pack_pfd 2 (c_efd c) (efd_events c) (efd_events c) cp2
                   else cp2)
        in Done (if c_sock c \<noteq> -1 \<and> c_rfd c \<noteq> c_sock c then pack_pfd 3 (c_sock c) (sock_events c) 0 cp3 else cp3))"

fun prepare_slots :: "nat \<Rightarrow> channel option list \<Rightarrow> pollfd list \<Rightarrow> (channel option list \<times> pollfd list) run" where
  "prepare_slots npfd [] ps = Done ([], ps)"
| "prepare_slots npfd (None # cs) ps = andThen (prepare_slots npfd cs ps) (\<lambda>(cs1, ps1). Done (None # cs1, ps1))"
| "prepare_slots npfd (Some c # cs) ps =
     andThen (channel_prepare_pollfd npfd c ps) (\<lambda>(c1, ps1).
     andThen (prepare_slots npfd cs ps1) (\<lambda>(cs1, ps2). Done (Some c1 # cs1, ps2)))"

text \<open>
  \<open>reserved\<close> are the entries of the caller; the deadline of the wait is not modelled.
\<close>

definition channel_prepare_poll ::
    "handlers \<Rightarrow> (callback \<Rightarrow> nat \<Rightarrow> ssh \<Rightarrow> ssh) \<Rightarrow> bool \<Rightarrow> pollfd list \<Rightarrow> ssh \<Rightarrow> (ssh \<times> pollfd list) run" where
  "channel_prepare_poll h user rekeying reserved ssh0 =
     andThen (channel_before_prepare_io (h_env h) (h_net h) ssh0) (\<lambda>ssh.
       let ssh1 = ssh\<lparr>s_channels := map (map_option (\<lambda>c. c\<lparr>c_io_want := 0, c_io_ready := 0\<rparr>)) (s_channels ssh)\<rparr>;
           n = length (s_channels ssh1); npfd = length reserved + 4 * n
       in if (word_of_nat n :: u32) \<ge> 536870911 - word_of_nat (length reserved) then Fatal
          else andThen (channel_handler (h_env h) user (channel_pre h) rekeying True ssh1) (\<lambda>ssh2.
            if length (s_channels ssh2) \<noteq> n then Fatal
            else andThen (prepare_slots npfd (s_channels ssh2) reserved)
              (\<lambda>(cs, ps). Done (ssh2\<lparr>s_channels := cs\<rparr>, ps))))"

section \<open>After the wait\<close>

definition fd_ready :: "int \<Rightarrow> pollfd list \<Rightarrow> int \<Rightarrow> u16 \<Rightarrow> u32 \<Rightarrow> channel \<Rightarrow> channel run" where
  "fd_ready p pfds fd revents_mask ready c =
     (if fd = -1 then Done c
      else if p < 0 \<or> nat p \<ge> length pfds then Fatal
      else
        let pfd = pfds ! nat p in
        if p_fd pfd \<noteq> fd then Fatal
        else if p_revents pfd AND POLLNVAL \<noteq> 0 then Fatal
        else Done (if p_revents pfd AND (revents_mask OR POLLHUP OR POLLERR) \<noteq> 0
                   then c\<lparr>c_io_ready := c_io_ready c OR (ready AND c_io_want c)\<rparr> else c))"

text \<open>Two flags that depend on the same descriptor, for reading and for writing.\<close>

definition both_ready :: "int \<Rightarrow> pollfd list \<Rightarrow> int \<Rightarrow> u32 \<Rightarrow> u32 \<Rightarrow> channel \<Rightarrow> channel run" where
  "both_ready p pfds fd r w c = andThen (fd_ready p pfds fd POLLIN r c) (fd_ready p pfds fd POLLOUT w)"

definition poll_ready :: "pollfd list \<Rightarrow> channel \<Rightarrow> channel run" where
  "poll_ready pfds c =
     (if c_rfd c \<noteq> -1 \<and> c_wfd c \<noteq> -1 \<and> c_rfd c \<noteq> c_wfd c \<and> (c_rfd c = c_efd c \<or> c_rfd c = c_sock c) then Fatal
      else
        let p0 = c_pfds c ! 0; p1 = c_pfds c ! 1; p2 = c_pfds c ! 2; p3 = c_pfds c ! 3 in
        andThen (if c_rfd c \<noteq> -1 \<and> p0 \<noteq> -1 then
                   andThen (fd_ready p0 pfds (c_rfd c) POLLIN SSH_CHAN_IO_RFD (c\<lparr>c_io_ready := 0\<rparr>)) (\<lambda>c1.
                   andThen (if c_rfd c = c_wfd c then fd_ready p0 pfds (c_wfd c) POLLOUT SSH_CHAN_IO_WFD c1 else Done c1) (\<lambda>c2.
                   andThen (if c_rfd c = c_efd c then both_ready p0 pfds (c_efd c) SSH_CHAN_IO_EFD_R SSH_CHAN_IO_EFD_W c2
                            else Done c2) (\<lambda>c3.
                   if c_rfd c = c_sock c then both_ready p0 pfds (c_sock c) SSH_CHAN_IO_SOCK_R SSH_CHAN_IO_SOCK_W c3
                   else Done c3)))
                 else Done (c\<lparr>c_io_ready := 0\<rparr>)) (\<lambda>c4.
        andThen (if c_wfd c \<noteq> -1 \<and> c_wfd c \<noteq> c_rfd c \<and> p1 \<noteq> -1
                 then fd_ready p1 pfds (c_wfd c) POLLOUT SSH_CHAN_IO_WFD c4 else Done c4) (\<lambda>c5.
        andThen (if c_efd c \<noteq> -1 \<and> c_efd c \<noteq> c_rfd c \<and> p2 \<noteq> -1
                 then both_ready p2 pfds (c_efd c) SSH_CHAN_IO_EFD_R SSH_CHAN_IO_EFD_W c5 else Done c5) (\<lambda>c6.
        if c_sock c \<noteq> -1 \<and> c_sock c \<noteq> c_rfd c \<and> p3 \<noteq> -1
        then both_ready p3 pfds (c_sock c) SSH_CHAN_IO_SOCK_R SSH_CHAN_IO_SOCK_W c6 else Done c6))))"

fun ready_slots :: "pollfd list \<Rightarrow> channel option list \<Rightarrow> channel option list run" where
  "ready_slots pfds [] = Done []"
| "ready_slots pfds (None # cs) = andThen (ready_slots pfds cs) (\<lambda>cs1. Done (None # cs1))"
| "ready_slots pfds (Some c # cs) =
     andThen (poll_ready pfds c) (\<lambda>c1. andThen (ready_slots pfds cs) (\<lambda>cs1. Done (Some c1 # cs1)))"

definition channel_after_poll ::
    "handlers \<Rightarrow> (callback \<Rightarrow> nat \<Rightarrow> ssh \<Rightarrow> ssh) \<Rightarrow> bool \<Rightarrow> round \<Rightarrow> pollfd list \<Rightarrow> ssh \<Rightarrow> ssh run" where
  "channel_after_poll h user rekeying r pfds ssh =
     andThen (ready_slots pfds (s_channels ssh)) (\<lambda>cs.
       channel_handler (h_env h) user (channel_post h r) rekeying False (ssh\<lparr>s_channels := cs\<rparr>))"

end
