(* ===== verification/PollProps.thy ===== *)
theory PollProps
  imports ChanPoll Demo
begin

text \<open>
  The wait for descriptors: the array that \<open>poll\<close> gets is in bounds, and what it reports becomes, for every
  channel, exactly the flags that are both wanted and reported by the descriptor they stand for.
\<close>

section \<open>The specification\<close>

text \<open>
  \<open>state fd\<close> is the condition of a descriptor. \<open>poll\<close> reports the events asked for, and errors, hangups and
  invalid descriptors in any case.
\<close>

definition poll_result :: "(int \<Rightarrow> u16) \<Rightarrow> pollfd list \<Rightarrow> pollfd list" where
  "poll_result state ps = map (\<lambda>p. p\<lparr>p_revents := state (p_fd p) AND (p_events p OR POLLERR OR POLLHUP OR POLLNVAL)\<rparr>) ps"

definition flag_ready :: "(int \<Rightarrow> u16) \<Rightarrow> channel \<Rightarrow> int \<Rightarrow> u16 \<Rightarrow> u32 \<Rightarrow> u32" where
  "flag_ready state c fd msk flag =
     (if fd \<noteq> -1 \<and> state fd AND (msk OR POLLHUP OR POLLERR) \<noteq> 0 then flag AND c_io_want c else 0)"

definition ready_flags :: "(int \<Rightarrow> u16) \<Rightarrow> channel \<Rightarrow> u32" where
  "ready_flags state c =
     flag_ready state c (c_rfd c) POLLIN SSH_CHAN_IO_RFD OR flag_ready state c (c_wfd c) POLLOUT SSH_CHAN_IO_WFD OR
     flag_ready state c (c_efd c) POLLIN SSH_CHAN_IO_EFD_R OR flag_ready state c (c_efd c) POLLOUT SSH_CHAN_IO_EFD_W OR
     flag_ready state c (c_sock c) POLLIN SSH_CHAN_IO_SOCK_R OR flag_ready state c (c_sock c) POLLOUT SSH_CHAN_IO_SOCK_W"

text \<open>
  A socket is the descriptor that is read, as \<open>channel_register_fds\<close> leaves it; when the extended
  descriptor is too, it is written as well; every descriptor is open.
\<close>

definition poll_shape :: "(int \<Rightarrow> u16) \<Rightarrow> channel \<Rightarrow> bool" where
  "poll_shape state c \<longleftrightarrow> (c_sock c = -1 \<or> c_sock c = c_rfd c) \<and>
     (c_rfd c \<noteq> -1 \<and> c_wfd c \<noteq> -1 \<and> (c_rfd c = c_efd c \<or> c_rfd c = c_sock c) \<longrightarrow> c_rfd c = c_wfd c) \<and>
     (\<forall>fd \<in> open_fds c. state fd AND POLLNVAL = 0)"

section \<open>One channel\<close>

text \<open>The entry \<open>p\<close> of an array for the events \<open>ev\<close> of a descriptor.\<close>

definition entry_for :: "pollfd list \<Rightarrow> int \<Rightarrow> int \<Rightarrow> u16 \<Rightarrow> bool" where
  "entry_for ps p fd ev \<longleftrightarrow>
     (if ev = 0 then p = -1 else 0 \<le> p \<and> nat p < length ps \<and> ps ! nat p = \<lparr>p_fd = fd, p_events = ev, p_revents = 0\<rparr>)"

lemma entry_for_append: "entry_for ps p fd ev \<Longrightarrow> entry_for (ps @ qs) p fd ev"
  by (auto simp: entry_for_def nth_append split: if_split_asm)

definition add_ready :: "u32 \<Rightarrow> channel \<Rightarrow> channel" where
  "add_ready t c = c\<lparr>c_io_ready := c_io_ready c OR t\<rparr>"

lemma add_ready_zero [simp]: "add_ready 0 c = c"
  by (simp add: add_ready_def)


lemma within:
  fixes a b c d :: "'a::len word"
  assumes "a AND b = a" "c AND d = c"
  shows "(b OR d) AND (a OR c) = a OR c"
  using assms unfolding bit_eq_iff by (auto simp: bit_and_iff bit_or_iff)

lemma reported:
  fixes r ev msk :: u16
  shows "msk AND ev = msk \<Longrightarrow>
      (r AND (ev OR POLLERR OR POLLHUP OR POLLNVAL)) AND (msk OR POLLHUP OR POLLERR) = r AND (msk OR POLLHUP OR POLLERR)"
    and "(r AND (ev OR POLLERR OR POLLHUP OR POLLNVAL)) AND POLLNVAL = r AND POLLNVAL"
  using within[of msk ev "POLLHUP OR POLLERR" "POLLERR OR POLLHUP OR POLLNVAL"]
    within[of 0 ev POLLNVAL "POLLERR OR POLLHUP OR POLLNVAL"] by (simp_all add: and.assoc)

lemma fd_ready_step:
  assumes "entry_for ps p fd ev" "ev \<noteq> 0" "fd \<noteq> -1" "state fd AND POLLNVAL = 0"
    and "flag AND c_io_want c \<noteq> 0 \<Longrightarrow> msk AND ev = msk"
  shows "fd_ready p (poll_result state ps) fd msk flag (add_ready t c) = Done (add_ready (t OR flag_ready state c fd msk flag) c)"
proof -
  let ?r = "state fd AND (ev OR POLLERR OR POLLHUP OR POLLNVAL)"
  have e: "poll_result state ps ! nat p = \<lparr>p_fd = fd, p_events = ev, p_revents = ?r\<rparr>" "0 \<le> p" "nat p < length (poll_result state ps)"
    using assms(1,2) by (auto simp: entry_for_def poll_result_def)
  have "?r AND POLLNVAL = 0" using reported(2)[of "state fd" ev] assms(4) by simp
  moreover have "flag AND c_io_want c \<noteq> 0 \<Longrightarrow> ?r AND (msk OR POLLHUP OR POLLERR) = state fd AND (msk OR POLLHUP OR POLLERR)"
    by (rule reported(1)[OF assms(5)])
  ultimately show ?thesis
    using e assms(3)
    by (cases "flag AND c_io_want c = 0") (simp_all add: fd_ready_def Let_def add_ready_def flag_ready_def or.assoc)
qed

lemma pack_if:
  assumes "length (c_pfds c) = 4" "k < 4" "c_pfds c ! k = -1"
  obtains q new where "(if g then pack_pfd k fd ev ev (c, ps) else (c, ps)) = (c\<lparr>c_pfds := (c_pfds c)[k := q]\<rparr>, ps @ new)"
    "length new \<le> 1" "g \<Longrightarrow> entry_for (ps @ new) q fd ev"
proof (cases "g \<and> ev \<noteq> 0")
  case True
  then show ?thesis
    using that[of "int (length ps)" "[\<lparr>p_fd = fd, p_events = ev, p_revents = 0\<rparr>]"] by (simp add: pack_pfd_def entry_for_def)
next
  case False
  have "(c_pfds c)[k := -1] = c_pfds c" unfolding assms(3)[symmetric] by (rule list_update_id)
  then have "(if g then pack_pfd k fd ev ev (c, ps) else (c, ps)) = (c\<lparr>c_pfds := (c_pfds c)[k := -1]\<rparr>, ps @ [])"
    using False by (auto simp: pack_pfd_def)
  then show ?thesis by (rule that) (use False in \<open>auto simp: entry_for_def\<close>)
qed

lemma prepare_one:
  assumes "length ps + 4 \<le> npfd" "c_sock c = -1 \<or> c_sock c = c_rfd c"
  obtains p0 p1 p2 new where
    "channel_prepare_pollfd npfd c ps = Done (c\<lparr>c_pfds := [p0, p1, p2, -1]\<rparr>, ps @ new)" "length new \<le> 4"
    "c_rfd c \<noteq> -1 \<Longrightarrow> entry_for (ps @ new) p0 (c_rfd c) (rfd_events c)"
    "c_wfd c \<noteq> -1 \<Longrightarrow> c_rfd c \<noteq> c_wfd c \<Longrightarrow> entry_for (ps @ new) p1 (c_wfd c) (arm c SSH_CHAN_IO_WFD POLLOUT)"
    "c_efd c \<noteq> -1 \<Longrightarrow> c_rfd c \<noteq> c_efd c \<Longrightarrow> entry_for (ps @ new) p2 (c_efd c) (efd_events c)"
proof -
  let ?c0 = "c\<lparr>c_pfds := [-1, -1, -1, -1]\<rparr>" and ?ev = "arm c SSH_CHAN_IO_WFD POLLOUT"
  obtain p0 n0 where 0: "(if c_rfd c \<noteq> -1 then pack_pfd 0 (c_rfd c) (rfd_events c) (rfd_events c) (?c0, ps) else (?c0, ps)) =
      (c\<lparr>c_pfds := [p0, -1, -1, -1]\<rparr>, ps @ n0)" "length n0 \<le> 1"
    "c_rfd c \<noteq> -1 \<Longrightarrow> entry_for (ps @ n0) p0 (c_rfd c) (rfd_events c)"
    by (rule pack_if[of ?c0 0 "c_rfd c \<noteq> -1" "c_rfd c" "rfd_events c" ps]) auto
  let ?c1 = "c\<lparr>c_pfds := [p0, -1, -1, -1]\<rparr>"
  obtain p1 n1 where 1: "(if c_wfd c \<noteq> -1 \<and> c_rfd c \<noteq> c_wfd c then pack_pfd 1 (c_wfd c) ?ev ?ev (?c1, ps @ n0) else (?c1, ps @ n0)) =
      (c\<lparr>c_pfds := [p0, p1, -1, -1]\<rparr>, (ps @ n0) @ n1)" "length n1 \<le> 1"
    "c_wfd c \<noteq> -1 \<and> c_rfd c \<noteq> c_wfd c \<Longrightarrow> entry_for ((ps @ n0) @ n1) p1 (c_wfd c) ?ev"
    by (rule pack_if[of ?c1 1 "c_wfd c \<noteq> -1 \<and> c_rfd c \<noteq> c_wfd c" "c_wfd c" ?ev "ps @ n0"]) auto
  let ?c2 = "c\<lparr>c_pfds := [p0, p1, -1, -1]\<rparr>" and ?ps = "(ps @ n0) @ n1"
  obtain p2 n2 where 2: "(if c_efd c \<noteq> -1 \<and> c_rfd c \<noteq> c_efd c then pack_pfd 2 (c_efd c) (efd_events c) (efd_events c) (?c2, ?ps)
      else (?c2, ?ps)) = (c\<lparr>c_pfds := [p0, p1, p2, -1]\<rparr>, ?ps @ n2)" "length n2 \<le> 1"
    "c_efd c \<noteq> -1 \<and> c_rfd c \<noteq> c_efd c \<Longrightarrow> entry_for (?ps @ n2) p2 (c_efd c) (efd_events c)"
    by (rule pack_if[of ?c2 2 "c_efd c \<noteq> -1 \<and> c_rfd c \<noteq> c_efd c" "c_efd c" "efd_events c" ?ps]) (auto simp: numeral_2_eq_2)
  show ?thesis
  proof (rule that[of p0 p1 p2 "n0 @ n1 @ n2"])
    show "channel_prepare_pollfd npfd c ps = Done (c\<lparr>c_pfds := [p0, p1, p2, -1]\<rparr>, ps @ n0 @ n1 @ n2)"
      unfolding channel_prepare_pollfd_def Let_def 0(1) 1(1) 2(1) using assms by auto
    show "length (n0 @ n1 @ n2) \<le> 4" using 0(2) 1(2) 2(2) by simp
  qed (use 0(3) 1(3) 2(3) entry_for_append[of "ps @ n0" _ _ _ "n1 @ n2"] entry_for_append[of "(ps @ n0) @ n1" _ _ _ n2]
      in simp_all)
qed

lemma covers_or:
  fixes m x y :: u16
  shows "m AND x = m \<Longrightarrow> m AND (x OR y) = m" "m AND y = m \<Longrightarrow> m AND (x OR y) = m"
  unfolding bit_eq_iff by (auto simp: bit_and_iff bit_or_iff)

text \<open>The events of an entry cover what each wanted flag needs.\<close>

lemma events_cover:
  "f AND c_io_want c \<noteq> 0 \<Longrightarrow> m AND arm c f m = m"
  "SSH_CHAN_IO_EFD_R AND c_io_want c \<noteq> 0 \<Longrightarrow> POLLIN AND efd_events c = POLLIN"
  "SSH_CHAN_IO_EFD_W AND c_io_want c \<noteq> 0 \<Longrightarrow> POLLOUT AND efd_events c = POLLOUT"
  "SSH_CHAN_IO_SOCK_R AND c_io_want c \<noteq> 0 \<Longrightarrow> POLLIN AND sock_events c = POLLIN"
  "SSH_CHAN_IO_SOCK_W AND c_io_want c \<noteq> 0 \<Longrightarrow> POLLOUT AND sock_events c = POLLOUT"
  unfolding efd_events_def sock_events_def
  by (simp_all add: arm_def and.commute covers_or)

lemma rfd_cover:
  "SSH_CHAN_IO_RFD AND c_io_want c \<noteq> 0 \<Longrightarrow> POLLIN AND rfd_events c = POLLIN"
  "c_rfd c = c_wfd c \<Longrightarrow> SSH_CHAN_IO_WFD AND c_io_want c \<noteq> 0 \<Longrightarrow> POLLOUT AND rfd_events c = POLLOUT"
  "c_rfd c = c_efd c \<Longrightarrow> m AND efd_events c = m \<Longrightarrow> m AND rfd_events c = m"
  "c_rfd c = c_sock c \<Longrightarrow> m AND sock_events c = m \<Longrightarrow> m AND rfd_events c = m"
  unfolding rfd_events_def by (auto simp: covers_or events_cover)

text \<open>No entry is made only when no flag is wanted.\<close>

lemma no_events:
  "arm c f m = 0 \<Longrightarrow> m \<noteq> 0 \<Longrightarrow> flag_ready state c fd k f = 0"
  by (auto simp: arm_def flag_ready_def and.commute split: if_split_asm)

definition both_flags :: "(int \<Rightarrow> u16) \<Rightarrow> channel \<Rightarrow> int \<Rightarrow> u32 \<Rightarrow> u32 \<Rightarrow> u32" where
  "both_flags state c fd r w = flag_ready state c fd POLLIN r OR flag_ready state c fd POLLOUT w"

lemma both_ready_step:
  assumes "entry_for ps p fd ev" "ev \<noteq> 0" "fd \<noteq> -1" "state fd AND POLLNVAL = 0"
    and "r AND c_io_want c \<noteq> 0 \<Longrightarrow> POLLIN AND ev = POLLIN" "w AND c_io_want c \<noteq> 0 \<Longrightarrow> POLLOUT AND ev = POLLOUT"
  shows "both_ready p (poll_result state ps) fd r w (add_ready t c) = Done (add_ready (t OR both_flags state c fd r w) c)"
  using fd_ready_step[where state = state, OF assms(1-4), of r c POLLIN] fd_ready_step[where state = state, OF assms(1-4), of w c POLLOUT] assms(5,6)
  by (simp add: both_ready_def both_flags_def or.assoc)

lemma efd_segment:
  assumes "entry_for ps p (c_efd c) (efd_events c)" "c_efd c \<noteq> -1" "state (c_efd c) AND POLLNVAL = 0"
  shows "(if p \<noteq> -1 then both_ready p (poll_result state ps) (c_efd c) SSH_CHAN_IO_EFD_R SSH_CHAN_IO_EFD_W (add_ready t c)
      else Done (add_ready t c)) =
    Done (add_ready (t OR both_flags state c (c_efd c) SSH_CHAN_IO_EFD_R SSH_CHAN_IO_EFD_W) c)"
proof (cases "efd_events c = 0")
  case True
  then have "arm c SSH_CHAN_IO_EFD_R POLLIN = 0" "arm c SSH_CHAN_IO_EFD_W POLLOUT = 0"
    by (simp_all add: efd_events_def or_eq_0_iff)
  from this[THEN no_events] True assms(1) show ?thesis by (simp add: entry_for_def both_flags_def)
next
  case False
  with assms(1) have "p \<noteq> -1" by (auto simp: entry_for_def)
  then show ?thesis using both_ready_step[where state = state, OF assms(1) False assms(2,3)] events_cover(2,3) by simp
qed

lemma wfd_segment:
  assumes "entry_for ps p (c_wfd c) (arm c SSH_CHAN_IO_WFD POLLOUT)" "c_wfd c \<noteq> -1" "state (c_wfd c) AND POLLNVAL = 0"
  shows "(if p \<noteq> -1 then fd_ready p (poll_result state ps) (c_wfd c) POLLOUT SSH_CHAN_IO_WFD (add_ready t c)
      else Done (add_ready t c)) = Done (add_ready (t OR flag_ready state c (c_wfd c) POLLOUT SSH_CHAN_IO_WFD) c)"
proof (cases "arm c SSH_CHAN_IO_WFD POLLOUT = 0")
  case True
  from no_events[OF this] True assms(1) show ?thesis by (simp add: entry_for_def)
next
  case False
  with assms(1) have "p \<noteq> -1" by (auto simp: entry_for_def)
  then show ?thesis using fd_ready_step[where state = state, OF assms(1) False assms(2,3)] events_cover(1) by simp
qed

text \<open>The read descriptor with those that are the same.\<close>

definition rfd_flags :: "(int \<Rightarrow> u16) \<Rightarrow> channel \<Rightarrow> u32" where
  "rfd_flags state c = flag_ready state c (c_rfd c) POLLIN SSH_CHAN_IO_RFD OR
     (if c_rfd c = c_wfd c then flag_ready state c (c_wfd c) POLLOUT SSH_CHAN_IO_WFD else 0) OR
     (if c_rfd c = c_efd c then both_flags state c (c_efd c) SSH_CHAN_IO_EFD_R SSH_CHAN_IO_EFD_W else 0) OR
     (if c_rfd c = c_sock c then both_flags state c (c_sock c) SSH_CHAN_IO_SOCK_R SSH_CHAN_IO_SOCK_W else 0)"

lemma rfd_segment:
  assumes "entry_for ps p (c_rfd c) (rfd_events c)" "c_rfd c \<noteq> -1" "state (c_rfd c) AND POLLNVAL = 0"
  shows "(if p \<noteq> -1 then
       andThen (fd_ready p (poll_result state ps) (c_rfd c) POLLIN SSH_CHAN_IO_RFD c) (\<lambda>c1.
       andThen (if c_rfd c = c_wfd c then fd_ready p (poll_result state ps) (c_wfd c) POLLOUT SSH_CHAN_IO_WFD c1 else Done c1) (\<lambda>c2.
       andThen (if c_rfd c = c_efd c then both_ready p (poll_result state ps) (c_efd c) SSH_CHAN_IO_EFD_R SSH_CHAN_IO_EFD_W c2
                else Done c2) (\<lambda>c3.
       if c_rfd c = c_sock c then both_ready p (poll_result state ps) (c_sock c) SSH_CHAN_IO_SOCK_R SSH_CHAN_IO_SOCK_W c3
       else Done c3)))
     else Done c) = Done (add_ready (rfd_flags state c) c)"
proof (cases "rfd_events c = 0")
  case True
  then have e: "arm c SSH_CHAN_IO_RFD POLLIN = 0" "c_rfd c = c_wfd c \<Longrightarrow> arm c SSH_CHAN_IO_WFD POLLOUT = 0"
    "c_rfd c = c_efd c \<Longrightarrow> arm c SSH_CHAN_IO_EFD_R POLLIN = 0" "c_rfd c = c_efd c \<Longrightarrow> arm c SSH_CHAN_IO_EFD_W POLLOUT = 0"
    "c_rfd c = c_sock c \<Longrightarrow> arm c SSH_CHAN_IO_SOCK_R POLLIN = 0" "c_rfd c = c_sock c \<Longrightarrow> arm c SSH_CHAN_IO_SOCK_W POLLOUT = 0"
    by (simp_all add: rfd_events_def efd_events_def sock_events_def or_eq_0_iff)
  from e[THEN no_events] True assms(1) show ?thesis by (simp add: entry_for_def rfd_flags_def both_flags_def)
next
  case False
  with assms(1) have p: "p \<noteq> -1" by (auto simp: entry_for_def)
  note steps = fd_ready_step[where state = state, OF assms(1) False assms(2,3)] both_ready_step[where state = state, OF assms(1) False assms(2,3)]
  have 1: "fd_ready p (poll_result state ps) (c_rfd c) POLLIN SSH_CHAN_IO_RFD c =
      Done (add_ready (flag_ready state c (c_rfd c) POLLIN SSH_CHAN_IO_RFD) c)"
    using steps(1)[of SSH_CHAN_IO_RFD c POLLIN 0] rfd_cover(1) by simp
  have 2: "fd_ready p (poll_result state ps) (c_wfd c) POLLOUT SSH_CHAN_IO_WFD (add_ready t c) =
      Done (add_ready (t OR flag_ready state c (c_wfd c) POLLOUT SSH_CHAN_IO_WFD) c)" if "c_rfd c = c_wfd c" for t
    using steps(1)[of SSH_CHAN_IO_WFD c POLLOUT t] rfd_cover(2)[OF that] that by simp
  have 3: "both_ready p (poll_result state ps) (c_efd c) SSH_CHAN_IO_EFD_R SSH_CHAN_IO_EFD_W (add_ready t c) =
      Done (add_ready (t OR both_flags state c (c_efd c) SSH_CHAN_IO_EFD_R SSH_CHAN_IO_EFD_W) c)" if "c_rfd c = c_efd c" for t
    using steps(2)[of SSH_CHAN_IO_EFD_R c SSH_CHAN_IO_EFD_W t] rfd_cover(3)[OF that] events_cover(2,3) that by simp
  have 4: "both_ready p (poll_result state ps) (c_sock c) SSH_CHAN_IO_SOCK_R SSH_CHAN_IO_SOCK_W (add_ready t c) =
      Done (add_ready (t OR both_flags state c (c_sock c) SSH_CHAN_IO_SOCK_R SSH_CHAN_IO_SOCK_W) c)" if "c_rfd c = c_sock c" for t
    using steps(2)[of SSH_CHAN_IO_SOCK_R c SSH_CHAN_IO_SOCK_W t] rfd_cover(4)[OF that] events_cover(4,5) that by simp
  have 2: "(if c_rfd c = c_wfd c then fd_ready p (poll_result state ps) (c_wfd c) POLLOUT SSH_CHAN_IO_WFD (add_ready t c)
      else Done (add_ready t c)) =
      Done (add_ready (t OR (if c_rfd c = c_wfd c then flag_ready state c (c_wfd c) POLLOUT SSH_CHAN_IO_WFD else 0)) c)" for t
    by (cases "c_rfd c = c_wfd c") (simp_all only: 2 simp_thms if_True if_False or.right_neutral)
  have 3: "(if c_rfd c = c_efd c then both_ready p (poll_result state ps) (c_efd c) SSH_CHAN_IO_EFD_R SSH_CHAN_IO_EFD_W (add_ready t c)
      else Done (add_ready t c)) =
      Done (add_ready (t OR (if c_rfd c = c_efd c then both_flags state c (c_efd c) SSH_CHAN_IO_EFD_R SSH_CHAN_IO_EFD_W else 0)) c)" for t
    by (cases "c_rfd c = c_efd c") (simp_all only: 3 simp_thms if_True if_False or.right_neutral)
  have 4: "(if c_rfd c = c_sock c then both_ready p (poll_result state ps) (c_sock c) SSH_CHAN_IO_SOCK_R SSH_CHAN_IO_SOCK_W (add_ready t c)
      else Done (add_ready t c)) =
      Done (add_ready (t OR (if c_rfd c = c_sock c then both_flags state c (c_sock c) SSH_CHAN_IO_SOCK_R SSH_CHAN_IO_SOCK_W else 0)) c)" for t
    by (cases "c_rfd c = c_sock c") (simp_all only: 4 simp_thms if_True if_False or.right_neutral)
  show ?thesis
    unfolding rfd_flags_def using p by (simp only: 1 2 3 4 andThen.simps or.assoc not_False_eq_True if_True)
qed

lemma ready_cong:
  "flag_ready state (c\<lparr>c_pfds := q, c_io_ready := r\<rparr>) = flag_ready state c"
  "rfd_events (c\<lparr>c_pfds := q, c_io_ready := r\<rparr>) = rfd_events c" "efd_events (c\<lparr>c_pfds := q, c_io_ready := r\<rparr>) = efd_events c"
  "arm (c\<lparr>c_pfds := q, c_io_ready := r\<rparr>) = arm c"
  by (auto simp: fun_eq_iff flag_ready_def rfd_events_def efd_events_def sock_events_def arm_def)

lemma ready_flags_cong: "ready_flags state (c\<lparr>c_pfds := q, c_io_ready := r\<rparr>) = ready_flags state c"
  by (simp add: ready_flags_def ready_cong)

lemma ready_one:
  assumes shape: "poll_shape state c"
    and p0: "c_rfd c \<noteq> -1 \<Longrightarrow> entry_for ps p0 (c_rfd c) (rfd_events c)"
    and p1: "c_wfd c \<noteq> -1 \<Longrightarrow> c_rfd c \<noteq> c_wfd c \<Longrightarrow> entry_for ps p1 (c_wfd c) (arm c SSH_CHAN_IO_WFD POLLOUT)"
    and p2: "c_efd c \<noteq> -1 \<Longrightarrow> c_rfd c \<noteq> c_efd c \<Longrightarrow> entry_for ps p2 (c_efd c) (efd_events c)"
  shows "poll_ready (poll_result state ps) (c\<lparr>c_pfds := [p0, p1, p2, -1]\<rparr>) =
    Done (c\<lparr>c_pfds := [p0, p1, p2, -1], c_io_ready := ready_flags state c\<rparr>)"
proof -
  define d where "d = c\<lparr>c_pfds := [p0, p1, p2, -1], c_io_ready := 0\<rparr>"
  have d: "c_rfd d = c_rfd c" "c_wfd d = c_wfd c" "c_efd d = c_efd c" "c_sock d = c_sock c"
    "rfd_events d = rfd_events c" "efd_events d = efd_events c" "arm d = arm c" "flag_ready state d = flag_ready state c"
    by (simp_all add: d_def ready_cong)
  have open_ok: "state fd AND POLLNVAL = 0" if "fd \<in> {c_rfd c, c_wfd c, c_efd c, c_sock c}" "fd \<noteq> -1" for fd
    using shape that by (auto simp: poll_shape_def open_fds_def)
  have sock: "c_sock c = -1 \<or> c_sock c = c_rfd c" using shape by (simp add: poll_shape_def)
  define t0 where "t0 = (if c_rfd c \<noteq> -1 then rfd_flags state d else 0)"
  define t1 where "t1 = (if c_wfd c \<noteq> -1 \<and> c_wfd c \<noteq> c_rfd c then flag_ready state d (c_wfd d) POLLOUT SSH_CHAN_IO_WFD else 0)"
  define t2 where "t2 = (if c_efd c \<noteq> -1 \<and> c_efd c \<noteq> c_rfd c
      then both_flags state d (c_efd d) SSH_CHAN_IO_EFD_R SSH_CHAN_IO_EFD_W else 0)"
  note segs = rfd_segment[of ps p0 d state, unfolded d] wfd_segment[of ps p1 d state, unfolded d] efd_segment[of ps p2 d state, unfolded d]
  have a: "(if c_rfd c \<noteq> -1 \<and> p0 \<noteq> -1 then
       andThen (fd_ready p0 (poll_result state ps) (c_rfd c) POLLIN SSH_CHAN_IO_RFD d) (\<lambda>c1.
       andThen (if c_rfd c = c_wfd c then fd_ready p0 (poll_result state ps) (c_wfd c) POLLOUT SSH_CHAN_IO_WFD c1 else Done c1) (\<lambda>c2.
       andThen (if c_rfd c = c_efd c then both_ready p0 (poll_result state ps) (c_efd c) SSH_CHAN_IO_EFD_R SSH_CHAN_IO_EFD_W c2
                else Done c2) (\<lambda>c3.
       if c_rfd c = c_sock c then both_ready p0 (poll_result state ps) (c_sock c) SSH_CHAN_IO_SOCK_R SSH_CHAN_IO_SOCK_W c3
       else Done c3))) else Done d) = Done (add_ready t0 d)"
    using segs(1) p0 open_ok[of "c_rfd c"] by (cases "c_rfd c = -1"; cases "p0 = -1") (simp_all add: t0_def)
  have b: "(if c_wfd c \<noteq> -1 \<and> c_wfd c \<noteq> c_rfd c \<and> p1 \<noteq> -1
       then fd_ready p1 (poll_result state ps) (c_wfd c) POLLOUT SSH_CHAN_IO_WFD (add_ready t d) else Done (add_ready t d)) =
     Done (add_ready (t OR t1) d)" for t
    using segs(2)[of t] p1 open_ok[of "c_wfd c"] unfolding t1_def
    by (cases "c_wfd c = -1 \<or> c_wfd c = c_rfd c"; cases "p1 = -1") (auto simp: d)
  have e: "(if c_efd c \<noteq> -1 \<and> c_efd c \<noteq> c_rfd c \<and> p2 \<noteq> -1
       then both_ready p2 (poll_result state ps) (c_efd c) SSH_CHAN_IO_EFD_R SSH_CHAN_IO_EFD_W (add_ready t d)
       else Done (add_ready t d)) = Done (add_ready (t OR t2) d)" for t
    using segs(3)[of t] p2 open_ok[of "c_efd c"] unfolding t2_def
    by (cases "c_efd c = -1 \<or> c_efd c = c_rfd c"; cases "p2 = -1") (auto simp: d)
  have no: "flag_ready state c (-1) m f = 0" for m f by (simp add: flag_ready_def)
  have flags: "(t0 OR t1) OR t2 = ready_flags state c"
    unfolding t0_def t1_def t2_def rfd_flags_def both_flags_def ready_flags_def d using sock
    by (auto simp: no or.assoc or.left_commute or.commute)
  have bad: "(c_rfd c \<noteq> -1 \<and> c_wfd c \<noteq> -1 \<and> c_rfd c \<noteq> c_wfd c \<and> (c_rfd c = c_efd c \<or> c_rfd c = c_sock c)) = False"
    using shape by (auto simp: poll_shape_def)
  have last: "(c_sock c \<noteq> -1 \<and> c_sock c \<noteq> c_rfd c \<and> q) = False" for q
    using sock by auto
  have c1: "(c\<lparr>c_pfds := [p0, p1, p2, -1]\<rparr>)\<lparr>c_io_ready := 0\<rparr> = d" by (simp add: d_def)
  have sel: "c_rfd (c\<lparr>c_pfds := [p0, p1, p2, -1]\<rparr>) = c_rfd c" "c_wfd (c\<lparr>c_pfds := [p0, p1, p2, -1]\<rparr>) = c_wfd c"
    "c_efd (c\<lparr>c_pfds := [p0, p1, p2, -1]\<rparr>) = c_efd c" "c_sock (c\<lparr>c_pfds := [p0, p1, p2, -1]\<rparr>) = c_sock c"
    "c_pfds (c\<lparr>c_pfds := [p0, p1, p2, -1]\<rparr>) ! 0 = p0" "c_pfds (c\<lparr>c_pfds := [p0, p1, p2, -1]\<rparr>) ! 1 = p1"
    "c_pfds (c\<lparr>c_pfds := [p0, p1, p2, -1]\<rparr>) ! 2 = p2" "c_pfds (c\<lparr>c_pfds := [p0, p1, p2, -1]\<rparr>) ! 3 = -1"
    by (simp_all add: numeral_2_eq_2 numeral_3_eq_3)
  have "poll_ready (poll_result state ps) (c\<lparr>c_pfds := [p0, p1, p2, -1]\<rparr>) = Done (add_ready ((t0 OR t1) OR t2) d)"
    by (simp only: poll_ready_def Let_def sel bad last c1 a b e if_False andThen.simps)
  then show ?thesis unfolding flags by (simp add: add_ready_def d_def)
qed

section \<open>The table\<close>

definition polled :: "(int \<Rightarrow> u16) \<Rightarrow> channel \<Rightarrow> channel \<Rightarrow> bool" where
  "polled state c c' \<longleftrightarrow> c' = c\<lparr>c_pfds := c_pfds c', c_io_ready := ready_flags state c\<rparr>"

lemma slots_ready:
  assumes "length ps + 4 * length cs \<le> npfd" "\<And>c. Some c \<in> set cs \<Longrightarrow> poll_shape state c"
  shows "\<exists>cs1 new. prepare_slots npfd cs ps = Done (cs1, ps @ new) \<and> length new \<le> 4 * length cs \<and>
    (\<forall>more. \<exists>cs2. ready_slots (poll_result state (ps @ new @ more)) cs1 = Done cs2 \<and>
       list_all2 (rel_option (polled state)) cs cs2)"
  using assms
proof (induction cs arbitrary: ps)
  case (Cons x cs)
  show ?case
  proof (cases x)
    case None
    from Cons.IH[of ps] Cons.prems obtain cs1 new where n: "prepare_slots npfd cs ps = Done (cs1, ps @ new)"
      "length new \<le> 4 * length cs" "\<forall>more. \<exists>cs2. ready_slots (poll_result state (ps @ new @ more)) cs1 = Done cs2 \<and>
         list_all2 (rel_option (polled state)) cs cs2" by fastforce
    have "\<exists>cs2. ready_slots (poll_result state (ps @ new @ more)) (None # cs1) = Done cs2 \<and>
        list_all2 (rel_option (polled state)) (x # cs) cs2" for more
    proof -
      from n(3) obtain cs2 where "ready_slots (poll_result state (ps @ new @ more)) cs1 = Done cs2"
        "list_all2 (rel_option (polled state)) cs cs2" by blast
      then show ?thesis using None by simp
    qed
    moreover have "prepare_slots npfd (x # cs) ps = Done (None # cs1, ps @ new)" "length new \<le> 4 * length (x # cs)"
      using n None by simp_all
    ultimately show ?thesis by blast
  next
    case (Some c)
    have sh: "poll_shape state c" using Cons.prems(2) Some by simp
    have room: "length ps + 4 \<le> npfd" using Cons.prems(1) by simp
    from sh have "c_sock c = -1 \<or> c_sock c = c_rfd c" by (simp add: poll_shape_def)
    from room this obtain p0 p1 p2 new where p:
      "channel_prepare_pollfd npfd c ps = Done (c\<lparr>c_pfds := [p0, p1, p2, -1]\<rparr>, ps @ new)" "length new \<le> 4"
      "c_rfd c \<noteq> -1 \<Longrightarrow> entry_for (ps @ new) p0 (c_rfd c) (rfd_events c)"
      "c_wfd c \<noteq> -1 \<Longrightarrow> c_rfd c \<noteq> c_wfd c \<Longrightarrow> entry_for (ps @ new) p1 (c_wfd c) (arm c SSH_CHAN_IO_WFD POLLOUT)"
      "c_efd c \<noteq> -1 \<Longrightarrow> c_rfd c \<noteq> c_efd c \<Longrightarrow> entry_for (ps @ new) p2 (c_efd c) (efd_events c)"
      by (rule prepare_one) blast
    have "length (ps @ new) + 4 * length cs \<le> npfd" using p(2) Cons.prems(1) by simp
    from Cons.IH[OF this] Cons.prems(2) obtain cs1 new2 where n: "prepare_slots npfd cs (ps @ new) = Done (cs1, (ps @ new) @ new2)"
      "length new2 \<le> 4 * length cs" "\<forall>more. \<exists>cs2. ready_slots (poll_result state ((ps @ new) @ new2 @ more)) cs1 = Done cs2 \<and>
         list_all2 (rel_option (polled state)) cs cs2" by fastforce
    let ?c1 = "c\<lparr>c_pfds := [p0, p1, p2, -1], c_io_ready := ready_flags state c\<rparr>"
    have r: "poll_ready (poll_result state ((ps @ new) @ more)) (c\<lparr>c_pfds := [p0, p1, p2, -1]\<rparr>) = Done ?c1" for more
      by (rule ready_one[OF sh]) (use p(3-5) entry_for_append in blast)+
    have pc: "polled state c ?c1" by (simp add: polled_def)
    have "\<exists>cs2. ready_slots (poll_result state (ps @ (new @ new2) @ more)) (Some (c\<lparr>c_pfds := [p0, p1, p2, -1]\<rparr>) # cs1) = Done cs2 \<and>
        list_all2 (rel_option (polled state)) (x # cs) cs2" for more
    proof -
      from n(3) obtain cs2 where "ready_slots (poll_result state ((ps @ new) @ new2 @ more)) cs1 = Done cs2"
        "list_all2 (rel_option (polled state)) cs cs2" by blast
      then show ?thesis using r[of "new2 @ more"] pc Some by simp
    qed
    moreover have "prepare_slots npfd (x # cs) ps = Done (Some (c\<lparr>c_pfds := [p0, p1, p2, -1]\<rparr>) # cs1, ps @ (new @ new2))"
      using p(1) n(1) Some by simp
    moreover have "length (new @ new2) \<le> 4 * length (x # cs)" using p(2) n(2) by simp
    ultimately show ?thesis by blast
  qed
qed simp


text \<open>A channel on one socket that wants both directions, of which one is possible.\<close>

definition demo_polled :: channel where
  "demo_polled = demo_open\<lparr>c_io_want := SSH_CHAN_IO_RFD OR SSH_CHAN_IO_WFD\<rparr>"


end
