(* ===== verification/Addr.thy ===== *)
theory Addr
  imports SockName ChanPerm
begin

text \<open>
  Addresses and networks (\<open>addr.c\<close>) and the lists of them that keys, certificates and the configuration
  hold (\<open>addrmatch.c\<close>). A word of an address is kept in host order, as \<open>ntohl\<close> gives it. What the resolver
  makes of a numeric address is the parameter \<open>numeric\<close>.
\<close>

section \<open>Addresses\<close>

text \<open>\<open>struct xaddr\<close>: an IPv4 address, the four words of an IPv6 address with its scope, or another family.\<close>

datatype xaddr = Xin u32 | Xin6 "u32 list" u32 | Xother

fun xa_af :: "xaddr \<Rightarrow> ai_fam" where
  "xa_af (Xin w) = AF_INET"
| "xa_af (Xin6 ws scope) = AF_INET6"
| "xa_af Xother = AF_OTHER"

definition addr_unicast_masklen :: "ai_fam \<Rightarrow> int" where
  "addr_unicast_masklen af = (case af of AF_INET \<Rightarrow> 32 | AF_INET6 \<Rightarrow> 128 | _ \<Rightarrow> -1)"

definition masklen_valid :: "ai_fam \<Rightarrow> nat \<Rightarrow> bool" where
  "masklen_valid af masklen = (case af of AF_INET \<Rightarrow> masklen \<le> 32 | AF_INET6 \<Rightarrow> masklen \<le> 128 | _ \<Rightarrow> False)"

text \<open>The lengths of \<open>struct sockaddr_in\<close> and \<open>sockaddr_in6\<close> bound what may be read and written.\<close>

abbreviation (input) sizeof_sockaddr_in :: nat where "sizeof_sockaddr_in \<equiv> 16"
abbreviation (input) sizeof_sockaddr_in6 :: nat where "sizeof_sockaddr_in6 \<equiv> 28"

definition addr_xaddr_to_sa :: "xaddr \<Rightarrow> nat \<Rightarrow> u16 \<Rightarrow> (sockaddr \<times> nat) option" where
  "addr_xaddr_to_sa xa len port =
     (case xa of
        Xin w \<Rightarrow> if len < sizeof_sockaddr_in then None else Some (Sin (POKE_U32 w) port, sizeof_sockaddr_in)
      | Xin6 ws scope \<Rightarrow> if len < sizeof_sockaddr_in6 then None
          else Some (Sin6 (concat (map POKE_U32 ws)) scope port, sizeof_sockaddr_in6)
      | Xother \<Rightarrow> None)"

definition words_of :: "u8 list \<Rightarrow> u32 list" where
  "words_of bs = map (\<lambda>i. PEEK_U32 (take 4 (drop (4 * i) bs))) [0..<4]"

definition addr_sa_to_xaddr :: "sockaddr \<Rightarrow> nat \<Rightarrow> xaddr option" where
  "addr_sa_to_xaddr sa slen =
     (case sa of
        Sin bs port \<Rightarrow> if slen < sizeof_sockaddr_in then None else Some (Xin (PEEK_U32 bs))
      | Sin6 bs scope port \<Rightarrow> if slen < sizeof_sockaddr_in6 then None else Some (Xin6 (words_of bs) scope)
      | _ \<Rightarrow> None)"

definition addr_invert :: "xaddr \<Rightarrow> xaddr option" where
  "addr_invert n =
     (case n of Xin w \<Rightarrow> Some (Xin (NOT w)) | Xin6 ws scope \<Rightarrow> Some (Xin6 (map (\<lambda>w. NOT w) ws) scope) | Xother \<Rightarrow> None)"

text \<open>The words of a mask from the i-th on, \<open>k\<close> of them, for \<open>l\<close> bits.\<close>

definition mask_word :: "nat \<Rightarrow> u32" where
  "mask_word l = (if l = 0 then 0 else push_bit (32 - l) 0xffffffff)"

fun mask_words :: "nat \<Rightarrow> nat \<Rightarrow> u32 list" where
  "mask_words 0 l = []"
| "mask_words (Suc k) l =
     (if l \<ge> 32 then 0xffffffff # mask_words k (l - 32) else mask_word l # replicate k 0)"

definition addr_netmask :: "ai_fam \<Rightarrow> nat \<Rightarrow> xaddr option" where
  "addr_netmask af l =
     (if \<not> masklen_valid af l then None
      else case af of AF_INET \<Rightarrow> Some (Xin (mask_word l)) | AF_INET6 \<Rightarrow> Some (Xin6 (mask_words 4 l) 0) | _ \<Rightarrow> None)"

definition addr_hostmask :: "ai_fam \<Rightarrow> nat \<Rightarrow> xaddr option" where
  "addr_hostmask af l = Option.bind (addr_netmask af l) addr_invert"

definition addr_and :: "xaddr \<Rightarrow> xaddr \<Rightarrow> xaddr option" where
  "addr_and a b =
     (case (a, b) of
        (Xin v, Xin w) \<Rightarrow> Some (Xin (v AND w))
      | (Xin6 vs scope, Xin6 ws scope2) \<Rightarrow> Some (Xin6 (map2 (\<lambda>v w. v AND w) vs ws) scope)
      | _ \<Rightarrow> None)"

definition addr_or :: "xaddr \<Rightarrow> xaddr \<Rightarrow> xaddr option" where
  "addr_or a b =
     (case (a, b) of
        (Xin v, Xin w) \<Rightarrow> Some (Xin (v OR w))
      | (Xin6 vs scope, Xin6 ws scope2) \<Rightarrow> Some (Xin6 (map2 (\<lambda>v w. v OR w) vs ws) scope)
      | _ \<Rightarrow> None)"

text \<open>The first byte that differs decides; then the scope.\<close>

fun cmp_bytes :: "u8 list \<Rightarrow> u8 list \<Rightarrow> int" where
  "cmp_bytes (a # as) (b # bs) = (if uint a - uint b \<noteq> 0 then uint a - uint b else cmp_bytes as bs)"
| "cmp_bytes _ _ = 0"

definition addr_cmp :: "xaddr \<Rightarrow> xaddr \<Rightarrow> int" where
  "addr_cmp a b =
     (case (a, b) of
        (Xin v, Xin w) \<Rightarrow> if v = w then 0 else if v > w then 1 else -1
      | (Xin6 vs s, Xin6 ws t) \<Rightarrow>
          let d = cmp_bytes (concat (map POKE_U32 vs)) (concat (map POKE_U32 ws))
          in if d \<noteq> 0 then d else if s = t then 0 else if s > t then 1 else -1
      | (Xin6 vs s, _) \<Rightarrow> 1
      | _ \<Rightarrow> -1)"

definition addr_is_all0s :: "xaddr \<Rightarrow> bool" where
  "addr_is_all0s a = (case a of Xin w \<Rightarrow> w = 0 | Xin6 ws scope \<Rightarrow> \<forall>w\<in>set ws. w = 0 | Xother \<Rightarrow> False)"

text \<open>Increment with carry, from the last word.\<close>

fun inc_words :: "u32 list \<Rightarrow> u32 list" where
  "inc_words [] = []"
| "inc_words (w # ws) = (w + 1) # (if w + 1 \<noteq> 0 then ws else inc_words ws)"

definition addr_increment :: "xaddr \<Rightarrow> xaddr" where
  "addr_increment a =
     (case a of Xin w \<Rightarrow> Xin (w + 1) | Xin6 ws scope \<Rightarrow> Xin6 (rev (inc_words (rev ws))) scope | Xother \<Rightarrow> Xother)"

definition addr_host_is_all0s :: "xaddr \<Rightarrow> nat \<Rightarrow> bool" where
  "addr_host_is_all0s a masklen =
     (case addr_hostmask (xa_af a) masklen of
        None \<Rightarrow> False
      | Some m \<Rightarrow> (case addr_and a m of None \<Rightarrow> False | Some r \<Rightarrow> addr_is_all0s r))"

definition addr_host_to_all1s :: "xaddr \<Rightarrow> nat \<Rightarrow> xaddr option" where
  "addr_host_to_all1s a masklen = Option.bind (addr_hostmask (xa_af a) masklen) (addr_or a)"

section \<open>Texts\<close>

type_synonym numeric = "string \<Rightarrow> (sockaddr \<times> nat) option"

definition addr_pton :: "numeric \<Rightarrow> string \<Rightarrow> xaddr option" where
  "addr_pton numeric p = (case numeric p of None \<Rightarrow> None | Some (sa, slen) \<Rightarrow> addr_sa_to_xaddr sa slen)"

datatype cidr = Cidr_bad | Cidr_inconsistent | Cidr xaddr nat

text \<open>The length behind the slash: digits only, at most 128.\<close>

definition cidr_masklen :: "string \<Rightarrow> nat option" where
  "cidr_masklen mp =
     (if mp = [] \<or> \<not> list_all is_digit mp \<or> digits_val mp > 128 then None else Some (nat (digits_val mp)))"

definition addr_pton_cidr :: "numeric \<Rightarrow> string \<Rightarrow> cidr" where
  "addr_pton_cidr numeric p =
     (if length p \<ge> 64 then Cidr_bad
      else
        let addr = takeWhile (\<lambda>c. c \<noteq> CHR ''/'') p; slash = (CHR ''/'' \<in> set p);
            len = cidr_masklen (tl (dropWhile (\<lambda>c. c \<noteq> CHR ''/'') p))
        in if slash \<and> len = None then Cidr_bad
           else (case addr_pton numeric addr of
                   None \<Rightarrow> Cidr_bad
                 | Some a \<Rightarrow>
                   let masklen = (if slash then the len else nat (addr_unicast_masklen (xa_af a))) in
                   if \<not> masklen_valid (xa_af a) masklen then Cidr_inconsistent
                   else if \<not> addr_host_is_all0s a masklen then Cidr_inconsistent
                   else Cidr a masklen))"

definition addr_netmatch :: "xaddr \<Rightarrow> xaddr \<Rightarrow> nat \<Rightarrow> int" where
  "addr_netmatch host net masklen =
     (if xa_af host \<noteq> xa_af net then -1
      else case addr_netmask (xa_af host) masklen of
        None \<Rightarrow> -1
      | Some m \<Rightarrow> (case addr_and host m of None \<Rightarrow> -1 | Some r \<Rightarrow> addr_cmp r net))"

section \<open>Lists of addresses\<close>

text \<open>One entry against the address with its text; no address is given when only the form is checked.\<close>

datatype entry_result = Entry_error | Entry_no | Entry_yes

definition match_entry :: "numeric \<Rightarrow> (string \<times> xaddr) option \<Rightarrow> string \<Rightarrow> entry_result" where
  "match_entry numeric addr cp =
     (case addr_pton_cidr numeric cp of
        Cidr_inconsistent \<Rightarrow> Entry_error
      | Cidr net masklen \<Rightarrow>
          (case addr of None \<Rightarrow> Entry_no
           | Some (s, a) \<Rightarrow> if addr_netmatch a net masklen = 0 then Entry_yes else Entry_no)
      | Cidr_bad \<Rightarrow>
          (case addr of None \<Rightarrow> Entry_no | Some (s, a) \<Rightarrow> if match_pattern s cp then Entry_yes else Entry_no))"

fun match_entries :: "numeric \<Rightarrow> (string \<times> xaddr) option \<Rightarrow> string list \<Rightarrow> int \<Rightarrow> int" where
  "match_entries numeric addr [] ret = ret"
| "match_entries numeric addr (e # es) ret =
     (let neg = (e \<noteq> [] \<and> hd e = CHR ''!''); cp = (if neg then tl e else e) in
      if cp = [] then -2
      else (case match_entry numeric addr cp of
              Entry_error \<Rightarrow> -2
            | Entry_no \<Rightarrow> match_entries numeric addr es ret
            | Entry_yes \<Rightarrow> if neg then -1 else match_entries numeric addr es 1))"

text \<open>The address of a list match: \<open>None\<close> for a text that is no address.\<close>

definition try_addr :: "numeric \<Rightarrow> string option \<Rightarrow> (string \<times> xaddr) option option" where
  "try_addr numeric addr =
     (case addr of
        None \<Rightarrow> Some None
      | Some s \<Rightarrow> (case addr_pton numeric s of None \<Rightarrow> None | Some a \<Rightarrow> Some (Some (s, a))))"

definition addr_match_list :: "numeric \<Rightarrow> string option \<Rightarrow> string \<Rightarrow> int" where
  "addr_match_list numeric addr list =
     (case try_addr numeric addr of
        None \<Rightarrow> 0
      | Some a \<Rightarrow> match_entries numeric a (strsep_tokens list) 0)"

abbreviation INET6_ADDRSTRLEN :: nat where "INET6_ADDRSTRLEN \<equiv> 46"

definition VALID_CIDR_CHARS :: string where
  "VALID_CIDR_CHARS = ''0123456789abcdefABCDEF.:/''"

text \<open>An entry with a character outside this set makes the result an error, but is looked at all the same.\<close>

fun cidr_entries :: "numeric \<Rightarrow> (string \<times> xaddr) option \<Rightarrow> string list \<Rightarrow> int \<Rightarrow> int" where
  "cidr_entries numeric addr [] ret = ret"
| "cidr_entries numeric addr (cp # es) ret =
     (if cp = [] then -1
      else if length cp > INET6_ADDRSTRLEN + 3 then -1
      else
        let ret1 = (if list_all (\<lambda>c. c \<in> set VALID_CIDR_CHARS) cp then ret else -1) in
        case addr_pton_cidr numeric cp of
          Cidr_bad \<Rightarrow> -1
        | Cidr_inconsistent \<Rightarrow> -1
        | Cidr net masklen \<Rightarrow>
          (case addr of
             None \<Rightarrow> cidr_entries numeric addr es ret1
           | Some (s, a) \<Rightarrow> cidr_entries numeric addr es (if addr_netmatch a net masklen = 0 then 1 else ret1)))"

definition addr_match_cidr_list :: "numeric \<Rightarrow> string option \<Rightarrow> string \<Rightarrow> int" where
  "addr_match_cidr_list numeric addr list =
     (case try_addr numeric addr of
        None \<Rightarrow> 0
      | Some a \<Rightarrow> cidr_entries numeric a (strsep_tokens list) 0)"

section \<open>Hosts, addresses and users\<close>

definition match_host_and_ip :: "numeric \<Rightarrow> string option \<Rightarrow> string option \<Rightarrow> string \<Rightarrow> int" where
  "match_host_and_ip numeric host ipaddr patterns =
     (let mip = addr_match_list numeric ipaddr patterns in
      if mip = -2 then -1
      else (case (host, ipaddr) of
              (Some h, Some ip) \<Rightarrow>
                if mip = -1 then 0
                else let mhost = match_hostname h patterns in
                  if mhost = -1 then 0 else if mhost = 0 \<and> mip = 0 then 0 else 1
            | _ \<Rightarrow> 0))"

definition match_user :: "numeric \<Rightarrow> string option \<Rightarrow> string option \<Rightarrow> string option \<Rightarrow> string \<Rightarrow> int" where
  "match_user numeric user host ipaddr pattern =
     (let at = (CHR ''@'' \<in> set pattern); pat = takeWhile (\<lambda>c. c \<noteq> CHR ''@'') pattern;
          p = tl (dropWhile (\<lambda>c. c \<noteq> CHR ''@'') pattern)
      in if user = None \<and> host = None \<and> ipaddr = None
         then (if at \<and> match_host_and_ip numeric None None p < 0 then -1 else 0)
         else (case user of
                 None \<Rightarrow> 0
               | Some u \<Rightarrow>
                 if \<not> at then (if match_pattern u pattern then 1 else 0)
                 else if match_pattern u pat then match_host_and_ip numeric host ipaddr p else 0))"

end
