(* ===== verification/AddrProps.thy ===== *)
theory AddrProps
  imports Addr Demo
begin

text \<open>
  What a network is: its mask, its entries in a list, and the lists of addresses that keys and the
  configuration hold, against a specification by the bits of an address.
\<close>

section \<open>Bits of addresses\<close>

fun addr_words :: "xaddr \<Rightarrow> u32 list" where
  "addr_words (Xin w) = [w]"
| "addr_words (Xin6 ws scope) = ws"
| "addr_words Xother = []"

fun xa_scope :: "xaddr \<Rightarrow> u32" where
  "xa_scope (Xin6 ws scope) = scope"
| "xa_scope _ = 0"

definition addr_bits :: "xaddr \<Rightarrow> nat" where
  "addr_bits a = 32 * length (addr_words a)"

text \<open>The bits in the order they are written: bit 0 is the first one of the address.\<close>

definition addr_bit :: "xaddr \<Rightarrow> nat \<Rightarrow> bool" where
  "addr_bit a i = bit (addr_words a ! (i div 32)) (31 - i mod 32)"

definition xaddr_ok :: "xaddr \<Rightarrow> bool" where
  "xaddr_ok a = (case a of Xin w \<Rightarrow> True | Xin6 ws scope \<Rightarrow> length ws = 4 | Xother \<Rightarrow> False)"

definition in_network :: "xaddr \<Rightarrow> nat \<Rightarrow> xaddr \<Rightarrow> bool" where
  "in_network net l a \<longleftrightarrow> xa_af a = xa_af net \<and> xa_scope a = xa_scope net \<and> (\<forall>i<l. addr_bit a i = addr_bit net i)"

lemma words_eq_bits:
  assumes "length (addr_words a) = length (addr_words b)"
  shows "addr_words a = addr_words b \<longleftrightarrow> (\<forall>i<addr_bits a. addr_bit a i = addr_bit b i)"
proof
  assume h: "\<forall>i<addr_bits a. addr_bit a i = addr_bit b i"
  show "addr_words a = addr_words b"
  proof (rule nth_equalityI[OF assms])
    fix k assume k: "k < length (addr_words a)"
    show "addr_words a ! k = addr_words b ! k"
    proof (rule bit_word_eqI)
      fix j assume "j < LENGTH(32)"
      then have j: "j < 32" by simp
      define r where "r = 31 - j"
      let ?i = "32 * k + r"
      have r: "r < 32" "31 - r = j" using j by (simp_all add: r_def)
      then have d: "?i div 32 = k" "31 - ?i mod 32 = j" by simp_all
      have "?i < addr_bits a" using k j by (simp add: addr_bits_def r_def)
      with h have "addr_bit a ?i = addr_bit b ?i" by blast
      then show "bit (addr_words a ! k) j = bit (addr_words b ! k) j" unfolding addr_bit_def d .
    qed
  qed
qed (simp add: addr_bit_def)

section \<open>Masks\<close>

lemma bit_mask_word: "l \<le> 32 \<Longrightarrow> bit (mask_word l) j \<longleftrightarrow> j < 32 \<and> 31 - j < l"
proof -
  assume l: "l \<le> 32"
  have ones: "bit (0xffffffff :: u32) k \<longleftrightarrow> k < 32" for k
  proof -
    have "(0xffffffff :: u32) = -1" by simp
    then show ?thesis by (simp only: bit_minus_1_iff) simp
  qed
  have "bit (push_bit (32 - l) (0xffffffff :: u32)) j \<longleftrightarrow> 32 - l \<le> j \<and> j < 32 \<and> j - (32 - l) < 32"
    by (simp only: bit_push_bit_iff ones possible_bit_word) simp
  then show ?thesis using l by (simp add: mask_word_def del: push_bit_numeral) linarith
qed

lemma bit_mask_words: "k < n \<Longrightarrow> bit (mask_words n l ! k) j \<longleftrightarrow> j < 32 \<and> 32 * k + (31 - j) < l"
proof (induction n l arbitrary: k rule: mask_words.induct)
  case (2 n l)
  have ones: "bit (0xffffffff :: u32) k \<longleftrightarrow> k < 32" for k
    using bit_mask_word[of 32 k] by (auto simp: mask_word_def)
  show ?case
  proof (cases "l \<ge> 32")
    case True
    then show ?thesis using 2 ones by (cases k) auto
  next
    case False
    then show ?thesis using 2(2) bit_mask_word[of l j] by (cases k) auto
  qed
qed simp

lemma length_mask_words [simp]: "length (mask_words n l) = n"
  by (induction n l rule: mask_words.induct) auto

lemma netmask_bits:
  assumes "addr_netmask (xa_af a) l = Some m" "xaddr_ok a"
  shows "xa_af m = xa_af a \<and> length (addr_words m) = length (addr_words a) \<and> l \<le> addr_bits a \<and>
    (\<forall>i<addr_bits a. addr_bit m i \<longleftrightarrow> i < l)"
proof (cases a)
  case (Xin w)
  with assms show ?thesis
    by (auto simp: addr_netmask_def masklen_valid_def addr_bit_def addr_bits_def bit_mask_word split: if_split_asm)
next
  case (Xin6 ws s)
  have b: "bit (mask_words 4 l ! (i div 32)) (31 - i mod 32) \<longleftrightarrow> i < l" if "i < 128" for i
  proof -
    have "32 * (i div 32) + (31 - (31 - i mod 32)) = i" "31 - i mod 32 < 32" by simp_all
    with bit_mask_words[of "i div 32" 4 l "31 - i mod 32"] that show ?thesis by simp
  qed
  from Xin6 assms b show ?thesis
    by (auto simp: addr_netmask_def masklen_valid_def addr_bit_def addr_bits_def xaddr_ok_def split: if_split_asm)
qed (use assms in \<open>simp add: xaddr_ok_def\<close>)

lemma netmask_exists: "xaddr_ok a \<Longrightarrow> (\<exists>m. addr_netmask (xa_af a) l = Some m) \<longleftrightarrow> l \<le> addr_bits a"
  by (cases a) (auto simp: addr_netmask_def masklen_valid_def addr_bits_def xaddr_ok_def)

lemma netmask_valid: "xaddr_ok a \<Longrightarrow> masklen_valid (xa_af a) l \<longleftrightarrow> l \<le> addr_bits a"
  by (cases a) (auto simp: masklen_valid_def addr_bits_def xaddr_ok_def)

lemma addr_and_bits:
  assumes "xa_af a = xa_af b" "length (addr_words a) = length (addr_words b)" "xaddr_ok a"
  obtains r where "addr_and a b = Some r" "xa_af r = xa_af a" "xa_scope r = xa_scope a"
    "length (addr_words r) = length (addr_words a)"
    "\<And>i. i < addr_bits a \<Longrightarrow> addr_bit r i \<longleftrightarrow> addr_bit a i \<and> addr_bit b i"
proof -
  have bits: "bit (map2 (\<lambda>v w. v AND w) vs ws ! (i div 32)) j \<longleftrightarrow> bit (vs ! (i div 32)) j \<and> bit (ws ! (i div 32)) j"
    if "length vs = length ws" "i < 32 * length vs" for vs ws :: "u32 list" and i j
  proof -
    have "i div 32 < length vs" using that(2) by (simp add: div_less_iff_less_mult mult.commute)
    then show ?thesis using that(1) by (simp add: bit_and_iff)
  qed
  from assms consider v w where "a = Xin v" "b = Xin w"
    | vs s ws t where "a = Xin6 vs s" "b = Xin6 ws t" "length vs = length ws"
    by (cases a; cases b) (auto simp: xaddr_ok_def)
  then show ?thesis
  proof cases
    case 1
    then show ?thesis using that[of "Xin (v AND w)"] by (auto simp: addr_and_def addr_bit_def addr_bits_def bit_and_iff)
  next
    case 2
    show ?thesis
      by (rule that[of "Xin6 (map2 (\<lambda>v w. v AND w) vs ws) s"])
        (use 2 bits[OF 2(3)] in \<open>auto simp: addr_and_def addr_bit_def addr_bits_def\<close>)
  qed
qed

section \<open>Comparison\<close>

lemma cmp_bytes_zero: "length as = length bs \<Longrightarrow> cmp_bytes as bs = 0 \<longleftrightarrow> as = bs"
  by (induction as bs rule: cmp_bytes.induct) (auto simp: word_uint_eq_iff)

lemma poke_words_inj: "length vs = length ws \<Longrightarrow> concat (map POKE_U32 vs) = concat (map POKE_U32 ws) \<longleftrightarrow> vs = ws"
proof (induction vs ws rule: list_induct2)
  case (Cons v vs w ws)
  have "POKE_U32 v = POKE_U32 w \<longleftrightarrow> v = w" by (metis PEEK_POKE_U32)
  with Cons show ?case by simp
qed simp

lemma addr_cmp_zero:
  assumes "xaddr_ok a" "xaddr_ok b"
  shows "addr_cmp a b = 0 \<longleftrightarrow> xa_af a = xa_af b \<and> xa_scope a = xa_scope b \<and> addr_words a = addr_words b"
proof -
  have "cmp_bytes (concat (map POKE_U32 vs)) (concat (map POKE_U32 ws)) = 0 \<longleftrightarrow> vs = ws"
    if "length vs = length ws" for vs ws
  proof -
    have "length (concat (map POKE_U32 vs)) = length (concat (map POKE_U32 ws))"
      using that by (induction vs ws rule: list_induct2) auto
    with cmp_bytes_zero poke_words_inj[OF that] show ?thesis by metis
  qed
  then show ?thesis using assms by (cases a; cases b) (auto simp: addr_cmp_def xaddr_ok_def Let_def split: if_split_asm)
qed

section \<open>Networks\<close>

lemma pton_ok: "addr_pton numeric p = Some a \<Longrightarrow> xaddr_ok a"
  by (auto simp: addr_pton_def addr_sa_to_xaddr_def xaddr_ok_def words_of_def
      split: option.split_asm prod.split_asm sockaddr.split_asm if_split_asm)

lemma invert_bits:
  assumes "xaddr_ok m \<or> length (addr_words m) > 0" "xa_af m \<noteq> AF_OTHER"
  obtains n where "addr_invert m = Some n" "xa_af n = xa_af m" "length (addr_words n) = length (addr_words m)"
    "\<And>i. i < addr_bits m \<Longrightarrow> addr_bit n i \<longleftrightarrow> \<not> addr_bit m i"
proof -
  have b: "bit (NOT w :: u32) (31 - i mod 32) \<longleftrightarrow> \<not> bit w (31 - i mod 32)" for w i
  proof -
    have "31 - i mod 32 < 32" by simp
    then show ?thesis by (simp only: bit_not_iff possible_bit_word) simp
  qed
  show ?thesis
  proof (cases m)
    case (Xin w)
    have "bit (NOT w) (31 - i) \<longleftrightarrow> \<not> bit w (31 - i)" if "i < 32" for i using b[of w i] that by simp
    with Xin show ?thesis using that[of "Xin (NOT w)"] by (simp add: addr_invert_def addr_bit_def addr_bits_def)
  next
    case (Xin6 ws s)
    have "map (\<lambda>w. NOT w) ws ! (i div 32) = NOT (ws ! (i div 32))" if "i < 32 * length ws" for i
      using that by (simp add: div_less_iff_less_mult mult.commute)
    then show ?thesis
      using that[of "Xin6 (map (\<lambda>w. NOT w) ws) s"] b Xin6 by (simp add: addr_invert_def addr_bit_def addr_bits_def)
  qed (use assms in simp)
qed

lemma all0s_bits: "xa_af a \<noteq> AF_OTHER \<Longrightarrow> addr_is_all0s a \<longleftrightarrow> (\<forall>i<addr_bits a. \<not> addr_bit a i)"
proof -
  assume af: "xa_af a \<noteq> AF_OTHER"
  define z where "z = Xin6 (replicate (length (addr_words a)) 0) 0"
  have "addr_is_all0s a \<longleftrightarrow> addr_words a = addr_words z"
    using af by (cases a) (auto simp: addr_is_all0s_def z_def list_eq_iff_nth_eq in_set_conv_nth Ball_def)
  also have "\<dots> \<longleftrightarrow> (\<forall>i<addr_bits a. addr_bit a i = addr_bit z i)"
    by (rule words_eq_bits) (simp add: z_def)
  also have "addr_bit z i = False" if "i < addr_bits a" for i
    using that by (simp add: addr_bit_def z_def addr_bits_def div_less_iff_less_mult mult.commute)
  ultimately show ?thesis by auto
qed

lemma host_zero_bits:
  assumes "xaddr_ok a" "l \<le> addr_bits a"
  shows "addr_host_is_all0s a l \<longleftrightarrow> (\<forall>i. l \<le> i \<and> i < addr_bits a \<longrightarrow> \<not> addr_bit a i)"
proof -
  obtain m where m: "addr_netmask (xa_af a) l = Some m" using netmask_exists[OF assms(1)] assms(2) by blast
  note mb = netmask_bits[OF m assms(1)]
  have af: "xa_af a \<noteq> AF_OTHER" using assms(1) by (cases a) (simp_all add: xaddr_ok_def)
  have "length (addr_words a) > 0" using assms(1) by (cases a) (auto simp: xaddr_ok_def)
  with mb have lm: "length (addr_words m) > 0" by simp
  obtain n where n: "addr_invert m = Some n" "xa_af n = xa_af m" "length (addr_words n) = length (addr_words m)"
    "\<And>i. i < addr_bits m \<Longrightarrow> addr_bit n i \<longleftrightarrow> \<not> addr_bit m i"
    using invert_bits[of m] lm mb af by metis
  obtain r where r: "addr_and a n = Some r" "xa_af r = xa_af a" "length (addr_words r) = length (addr_words a)"
    "\<And>i. i < addr_bits a \<Longrightarrow> addr_bit r i \<longleftrightarrow> addr_bit a i \<and> addr_bit n i"
    using addr_and_bits[of a n] mb n assms(1) by metis
  have bits: "addr_bits r = addr_bits a" "addr_bits m = addr_bits a" using r(3) mb by (simp_all add: addr_bits_def)
  have "addr_host_is_all0s a l \<longleftrightarrow> addr_is_all0s r"
    by (simp add: addr_host_is_all0s_def addr_hostmask_def m n(1) r(1))
  also have "\<dots> \<longleftrightarrow> (\<forall>i<addr_bits a. \<not> addr_bit r i)" using all0s_bits[of r] r(2) af bits by simp
  also have "\<dots> \<longleftrightarrow> (\<forall>i. l \<le> i \<and> i < addr_bits a \<longrightarrow> \<not> addr_bit a i)"
  proof -
    have "addr_bit r i \<longleftrightarrow> addr_bit a i \<and> l \<le> i" if "i < addr_bits a" for i
      using r(4)[OF that] n(4)[of i] mb that bits by auto
    then show ?thesis by auto
  qed
  finally show ?thesis .
qed

lemma cidr_result:
  assumes "addr_pton_cidr numeric p = Cidr net l"
  shows "xaddr_ok net \<and> l \<le> addr_bits net \<and> (\<forall>i. l \<le> i \<and> i < addr_bits net \<longrightarrow> \<not> addr_bit net i)"
proof -
  from assms obtain a where a: "addr_pton numeric a = Some net" "masklen_valid (xa_af net) l" "addr_host_is_all0s net l"
    by (auto simp: addr_pton_cidr_def Let_def split: if_split_asm option.split_asm)
  note ok = pton_ok[OF a(1)]
  have l: "l \<le> addr_bits net" using netmask_valid[OF ok] a(2) by simp
  show ?thesis using ok l host_zero_bits[OF ok l] a(3) by simp
qed

lemma prefix_agree:
  fixes l n :: nat
  assumes "l \<le> n" "\<forall>i. l \<le> i \<and> i < n \<longrightarrow> \<not> B i"
  shows "(\<forall>i<n. (A i \<and> i < l) = B i) \<longleftrightarrow> (\<forall>i<l. A i = B i)"
proof
  assume h: "\<forall>i<l. A i = B i"
  show "\<forall>i<n. (A i \<and> i < l) = B i"
  proof (intro allI impI)
    fix i assume "i < n"
    with h assms show "(A i \<and> i < l) = B i" by (cases "i < l") (simp_all add: not_less)
  qed
next
  assume h: "\<forall>i<n. (A i \<and> i < l) = B i"
  show "\<forall>i<l. A i = B i"
  proof (intro allI impI)
    fix i assume "i < l"
    with h assms(1) show "A i = B i" by (meson less_le_trans)
  qed
qed

lemma netmatch_bits:
  assumes net: "xaddr_ok net" "l \<le> addr_bits net" "\<forall>i. l \<le> i \<and> i < addr_bits net \<longrightarrow> \<not> addr_bit net i" and a: "xaddr_ok a"
  shows "addr_netmatch a net l = 0 \<longleftrightarrow> in_network net l a"
proof (cases "xa_af a = xa_af net")
  case True
  have len: "length (addr_words a) = length (addr_words net)"
    using True net(1) a by (cases a; cases net) (auto simp: xaddr_ok_def)
  then have bits: "addr_bits a = addr_bits net" by (simp add: addr_bits_def)
  obtain m where m: "addr_netmask (xa_af a) l = Some m" using netmask_exists[OF a] net(2) bits by auto
  note mb = netmask_bits[OF m a]
  obtain r where r: "addr_and a m = Some r" "xa_af r = xa_af a" "xa_scope r = xa_scope a"
    "length (addr_words r) = length (addr_words a)"
    "\<And>i. i < addr_bits a \<Longrightarrow> addr_bit r i \<longleftrightarrow> addr_bit a i \<and> addr_bit m i"
    using addr_and_bits[of a m] mb a by metis
  have "xaddr_ok r" using r(2,4) a by (cases r; cases a) (auto simp: xaddr_ok_def)
  from addr_cmp_zero[OF this net(1)] m r True
  have "addr_netmatch a net l = 0 \<longleftrightarrow> xa_scope a = xa_scope net \<and> addr_words r = addr_words net"
    by (simp add: addr_netmatch_def)
  also have "addr_words r = addr_words net \<longleftrightarrow> (\<forall>i<addr_bits r. addr_bit r i = addr_bit net i)"
    by (rule words_eq_bits) (simp add: r(4) len)
  also have "\<dots> \<longleftrightarrow> (\<forall>i<l. addr_bit a i = addr_bit net i)"
  proof -
    have "addr_bits r = addr_bits net" using r(4) bits by (simp add: addr_bits_def)
    moreover have "addr_bit r i \<longleftrightarrow> addr_bit a i \<and> i < l" if "i < addr_bits net" for i
      using r(5) mb bits that by auto
    ultimately show ?thesis using prefix_agree[OF net(2,3), of "addr_bit a"] by simp
  qed
  finally show ?thesis using True by (auto simp: in_network_def)
qed (auto simp: addr_netmatch_def in_network_def)

lemma cidr_match: "addr_pton_cidr numeric p = Cidr net l \<Longrightarrow> xaddr_ok a \<Longrightarrow> addr_netmatch a net l = 0 \<longleftrightarrow> in_network net l a"
  using cidr_result netmatch_bits by blast

section \<open>Lists\<close>

text \<open>
  C15: Matching against a list of networks (the \<open>source-address\<close> of a certificate) decides membership: when
  the list passes the check of its form, an address matches it exactly when some entry is a network whose
  leading bits, as many as the entry's mask has, are those of the address, in the same family and scope.
\<close>

theorem cidr_list_means_its_networks:
  assumes "addr_match_cidr_list numeric None list = 0" and "addr_pton numeric ip = Some a"
  shows "addr_match_cidr_list numeric (Some ip) list =
    (if \<exists>e\<in>set (strsep_tokens list). \<exists>net l. addr_pton_cidr numeric e = Cidr net l \<and> in_network net l a then 1 else 0)"
proof -
  have form: "cidr_entries numeric None es r = 0 \<Longrightarrow> r = 0" for es r
  proof (induction es arbitrary: r)
    case (Cons e es)
    from Cons.prems have "cidr_entries numeric None es (if list_all (\<lambda>c. c \<in> set VALID_CIDR_CHARS) e then r else -1) = 0"
      by (cases "addr_pton_cidr numeric e") (simp_all add: Let_def split: if_split_asm)
    from Cons.IH[OF this] show ?case by (simp split: if_split_asm)
  qed simp
  have "cidr_entries numeric None es 0 = 0 \<Longrightarrow> cidr_entries numeric (Some (ip, a)) es r =
    (if \<exists>e\<in>set es. \<exists>net l. addr_pton_cidr numeric e = Cidr net l \<and> in_network net l a then 1 else r)" for es r
  proof (induction es arbitrary: r)
    case (Cons e es)
    let ?ok = "list_all (\<lambda>c. c \<in> set VALID_CIDR_CHARS) e"
    from Cons.prems obtain net l where c: "e \<noteq> []" "\<not> length e > INET6_ADDRSTRLEN + 3" "addr_pton_cidr numeric e = Cidr net l"
      "cidr_entries numeric None es (if ?ok then 0 else -1) = 0"
      by (cases "addr_pton_cidr numeric e") (simp_all add: Let_def split: if_split_asm)
    from form[OF c(4)] have ok: ?ok by (simp split: if_split_asm)
    with c have e: "e \<noteq> []" "\<not> length e > INET6_ADDRSTRLEN + 3" ?ok "addr_pton_cidr numeric e = Cidr net l"
      "cidr_entries numeric None es 0 = 0" by simp_all
    from cidr_match[OF e(4) pton_ok[OF assms(2)]] Cons.IH[OF e(5)] e(1-4) show ?case
      by (simp add: Let_def) blast
  qed simp
  with assms show ?thesis by (simp add: addr_match_cidr_list_def try_addr_def)
qed

text \<open>What an entry of a list of addresses covers: a network, or a pattern over the address's text.\<close>

definition entry_covers :: "numeric \<Rightarrow> string \<Rightarrow> xaddr \<Rightarrow> string \<Rightarrow> bool" where
  "entry_covers numeric ip a cp =
     (case addr_pton_cidr numeric cp of Cidr net l \<Rightarrow> in_network net l a | Cidr_bad \<Rightarrow> glob cp ip | Cidr_inconsistent \<Rightarrow> False)"

definition negated :: "string \<Rightarrow> bool" where
  "negated e \<longleftrightarrow> e \<noteq> [] \<and> hd e = CHR ''!''"

definition plain :: "string \<Rightarrow> string" where
  "plain e = (if negated e then tl e else e)"

text \<open>
  C0: A list of addresses (\<open>from=\<close> of a key, \<open>Match Address\<close>) is decided by its entries wherever they
  stand: it refuses an address that a negated entry covers, else accepts one that another entry covers,
  where an entry covers the addresses of its network, or when it is no network, the texts of its pattern.
  A list with an empty entry or a mask that does not fit is an error when nothing is matched against it.
\<close>

theorem address_list_is_decided_by_entries:
  assumes "addr_pton numeric ip = Some a"
    and "\<forall>e\<in>set (strsep_tokens list). plain e \<noteq> [] \<and> addr_pton_cidr numeric (plain e) \<noteq> Cidr_inconsistent"
  shows "addr_match_list numeric (Some ip) list =
    (if \<exists>e\<in>set (strsep_tokens list). negated e \<and> entry_covers numeric ip a (plain e) then -1
     else if \<exists>e\<in>set (strsep_tokens list). entry_covers numeric ip a (plain e) then 1 else 0)"
proof -
  have m: "match_entry numeric (Some (ip, a)) cp = (if entry_covers numeric ip a cp then Entry_yes else Entry_no)"
    if "addr_pton_cidr numeric cp \<noteq> Cidr_inconsistent" for cp
    using that cidr_match[OF _ pton_ok[OF assms(1)]]
    by (cases "addr_pton_cidr numeric cp") (auto simp: match_entry_def entry_covers_def match_glob)
  have "\<forall>e\<in>set es. plain e \<noteq> [] \<and> addr_pton_cidr numeric (plain e) \<noteq> Cidr_inconsistent \<Longrightarrow>
    match_entries numeric (Some (ip, a)) es r =
      (if \<exists>e\<in>set es. negated e \<and> entry_covers numeric ip a (plain e) then -1
       else if \<exists>e\<in>set es. entry_covers numeric ip a (plain e) then 1 else r)" for es r
  proof (induction es arbitrary: r)
    case (Cons e es)
    have step: "match_entries numeric (Some (ip, a)) (e # es) r =
        (if entry_covers numeric ip a (plain e) then if negated e then -1 else match_entries numeric (Some (ip, a)) es 1
         else match_entries numeric (Some (ip, a)) es r)"
      using Cons.prems m[of "plain e"] by (simp add: plain_def[symmetric] negated_def[symmetric] Let_def)
    show ?case unfolding step using Cons.IH Cons.prems by auto
  qed simp
  with assms show ?thesis by (simp add: addr_match_list_def try_addr_def)
qed

text \<open>A resolver for a few numeric addresses.\<close>

definition demo_numeric :: numeric where
  "demo_numeric s =
     (if s = ''10.1.2.3'' then Some (Sin [10, 1, 2, 3] 0, 16) else if s = ''10.0.0.0'' then Some (Sin [10, 0, 0, 0] 0, 16)
      else if s = ''10.1.0.0'' then Some (Sin [10, 1, 0, 0] 0, 16)
      else if s = ''fe80::1%lo'' then Some (Sin6 [0xfe, 0x80, 0, 0, 0, 0, 0, 0, 0, 0, 0, 0, 0, 0, 0, 1] 1 0, 28) else None)"

lemma demo_tokens:
  "strsep_tokens ''10.0.0.0/8'' = [''10.0.0.0/8'']"
  "strsep_tokens ''10.0.0.0/8,!10.1.*'' = [''10.0.0.0/8'', ''!10.1.*'']"
  by code_simp+

lemma demo_addr:
  "addr_pton demo_numeric ''10.1.2.3'' = Some (Xin 0x0a010203)"
  "addr_pton_cidr demo_numeric ''10.0.0.0/8'' = Cidr (Xin 0x0a000000) 8"
  "addr_pton_cidr demo_numeric ''10.1.*'' = Cidr_bad"
  by code_simp+

theorem cidr_list_means_its_networks_witness:
  "addr_match_cidr_list demo_numeric (Some ''10.1.2.3'') ''10.0.0.0/8'' = 1"
proof -
  have form: "addr_match_cidr_list demo_numeric None ''10.0.0.0/8'' = 0" by code_simp
  have "addr_netmatch (Xin 0x0a010203) (Xin 0x0a000000) 8 = 0" by code_simp
  then have "in_network (Xin 0x0a000000) 8 (Xin 0x0a010203)"
    using cidr_match[OF demo_addr(2)] by (simp add: xaddr_ok_def)
  with cidr_list_means_its_networks[OF form demo_addr(1)] demo_addr(2) show ?thesis by (simp add: demo_tokens)
qed

theorem address_list_is_decided_by_entries_witness:
  "addr_match_list demo_numeric (Some ''10.1.2.3'') ''10.0.0.0/8,!10.1.*'' = -1"
proof -
  have p: "plain ''10.0.0.0/8'' = ''10.0.0.0/8''" "plain ''!10.1.*'' = ''10.1.*''" "negated ''!10.1.*''"
    by (simp_all add: plain_def negated_def)
  have "glob ''10.1.*'' ''10.1.2.3''" by code_simp
  then have "entry_covers demo_numeric ''10.1.2.3'' (Xin 0x0a010203) ''10.1.*''"
    by (simp add: entry_covers_def demo_addr)
  then show ?thesis
    using address_list_is_decided_by_entries[OF demo_addr(1), of "''10.0.0.0/8,!10.1.*''"] by (simp add: demo_tokens p demo_addr)
qed

end
