(* ===== verification/AuthOpts.thy ===== *)
theory AuthOpts
  imports Addr SessionReq
begin

text \<open>
  The options of a key or of a certificate (\<open>auth-options.c\<close>): parsed from the text before a key in
  \<open>authorized_keys\<close> or from the options of a certificate, merged, and passed between the processes of a
  server as bytes. Memory does not run out here, but for the buffers.
\<close>

section \<open>The options\<close>

record sshauthopt =
  ao_permit_port_forwarding_flag :: int
  ao_permit_agent_forwarding_flag :: int
  ao_permit_x11_forwarding_flag :: int
  ao_permit_pty_flag :: int
  ao_permit_user_rc :: int
  ao_restricted :: int
  ao_valid_before :: u64
  ao_cert_authority :: int
  ao_cert_principals :: "string option"
  ao_force_tun_device :: int
  ao_force_command :: "string option"
  ao_env :: "string list"
  ao_permitopen :: "string list"
  ao_permitlisten :: "string list"
  ao_required_from_host_cert :: "string option"
  ao_required_from_host_keys :: "string option"
  ao_no_require_user_presence :: int
  ao_require_verify :: int

definition sshauthopt_new :: sshauthopt where
  "sshauthopt_new = \<lparr>ao_permit_port_forwarding_flag = 0, ao_permit_agent_forwarding_flag = 0,
     ao_permit_x11_forwarding_flag = 0, ao_permit_pty_flag = 0, ao_permit_user_rc = 0, ao_restricted = 0,
     ao_valid_before = 0, ao_cert_authority = 0, ao_cert_principals = None, ao_force_tun_device = -1,
     ao_force_command = None, ao_env = [], ao_permitopen = [], ao_permitlisten = [],
     ao_required_from_host_cert = None, ao_required_from_host_keys = None, ao_no_require_user_presence = 0,
     ao_require_verify = 0\<rparr>"

definition sshauthopt_new_with_keys_defaults :: sshauthopt where
  "sshauthopt_new_with_keys_defaults =
     sshauthopt_new\<lparr>ao_permit_port_forwarding_flag := 1, ao_permit_agent_forwarding_flag := 1,
       ao_permit_x11_forwarding_flag := 1, ao_permit_pty_flag := 1, ao_permit_user_rc := 1\<rparr>"

text \<open>The fields a session looks at (\<open>auth_opts->...\<close> in \<open>session.c\<close> and \<open>serverloop.c\<close>).\<close>

definition session_view :: "sshauthopt \<Rightarrow> session_authopts" where
  "session_view ao = \<lparr>a_permit_port_forwarding_flag = (ao_permit_port_forwarding_flag ao \<noteq> 0),
     a_permitopen = ao_permitopen ao, a_permitlisten = ao_permitlisten ao,
     a_permit_pty_flag = (ao_permit_pty_flag ao \<noteq> 0), a_permit_x11_forwarding_flag = (ao_permit_x11_forwarding_flag ao \<noteq> 0),
     a_permit_agent_forwarding_flag = (ao_permit_agent_forwarding_flag ao \<noteq> 0),
     a_force_command = ao_force_command ao, a_force_tun_device = ao_force_tun_device ao\<rparr>"

section \<open>Words of an option list\<close>

text \<open>\<open>strncasecmp\<close> of a text with a term, over the length of the term.\<close>

definition starts :: "string \<Rightarrow> string \<Rightarrow> bool" where
  "starts opt opts \<longleftrightarrow> lowercase (take (length opt) opts) = lowercase opt"

definition opt_flag :: "string \<Rightarrow> bool \<Rightarrow> string \<Rightarrow> (bool \<times> string) option" where
  "opt_flag opt allow_negate opts0 =
     (let negate = (allow_negate \<and> starts ''no-'' opts0); opts = (if negate then drop 3 opts0 else opts0)
      in if starts opt opts then Some (\<not> negate, drop (length opt) opts) else None)"

definition opt_match :: "string \<Rightarrow> string \<Rightarrow> string option" where
  "opt_match opts term =
     (if starts term opts \<and> length opts > length term \<and> opts ! length term = CHR ''=''
      then Some (drop (length term + 1) opts) else None)"

definition is_alnum :: "char \<Rightarrow> bool" where
  "is_alnum c = (let n = (of_char c :: nat) in 48 \<le> n \<and> n \<le> 57 \<or> 65 \<le> n \<and> n \<le> 90 \<or> 97 \<le> n \<and> n \<le> 122)"

definition valid_env_name :: "string \<Rightarrow> bool" where
  "valid_env_name name \<longleftrightarrow> name \<noteq> [] \<and> list_all (\<lambda>c. is_alnum c \<or> c = CHR ''_'') name"

abbreviation (input) SSH_TUNID_ANY_INT :: int where "SSH_TUNID_ANY_INT \<equiv> 0x7fffffff"
abbreviation (input) SSH_TUNID_ERR :: int where "SSH_TUNID_ERR \<equiv> 0x7ffffffe"
abbreviation (input) SSH_TUNID_MAX :: int where "SSH_TUNID_MAX \<equiv> 0x7ffffffd"

text \<open>\<open>a2tun\<close> as it is called here, without a remote device.\<close>

definition a2tun :: "string \<Rightarrow> int" where
  "a2tun s = (if lowercase s = ''any'' then SSH_TUNID_ANY_INT
     else case strtonum s 0 SSH_TUNID_MAX of None \<Rightarrow> SSH_TUNID_ERR | Some tun \<Rightarrow> tun)"

text \<open>
  What the parser asks the system: services by name, and a time of a format in UTC or local time
  (\<open>strptime\<close> with \<open>timegm\<close> or \<open>mktime\<close>; \<open>None\<close> when the text does not fit the format).
\<close>

record opt_calls =
  k_getservbyname :: "string \<Rightarrow> int option"
  k_time :: "bool \<Rightarrow> string \<Rightarrow> string \<Rightarrow> int option"

definition dash_join :: "string \<Rightarrow> string list \<Rightarrow> string" where
  "dash_join sep ss = concat (butlast (concat (map (\<lambda>s. [s, sep]) ss)))"

definition parse_absolute_time :: "opt_calls \<Rightarrow> string \<Rightarrow> u64 option" where
  "parse_absolute_time k s =
     (let l0 = length s;
          z = (l0 > 1 \<and> lowercase (drop (l0 - 1) s) = ''z'');
          utc = (l0 > 3 \<and> lowercase (drop (l0 - 3) s) = ''utc'');
          l = (if z then l0 - 1 else if utc then l0 - 3 else l0);
          part = (\<lambda>i n. take n (drop i s));
          day = dash_join ''-'' [part 0 4, part 4 2, part 6 2];
          form = (if l = 8 then Some (''%Y-%m-%d'', day)
                  else if l = 12 then Some (''%Y-%m-%dT%H:%M'', day @ ''T'' @ dash_join '':'' [part 8 2, part 10 2])
                  else if l = 14
                  then Some (''%Y-%m-%dT%H:%M:%S'', day @ ''T'' @ dash_join '':'' [part 8 2, part 10 2, part 12 2])
                  else None)
      in case form of
           None \<Rightarrow> None
         | Some (fmt, buf) \<Rightarrow>
           (case k_time k (z \<or> utc) fmt buf of
              None \<Rightarrow> None
            | Some tt \<Rightarrow> if tt < 0 then None else Some (word_of_int tt)))"

section \<open>The options of a key\<close>

text \<open>The flags in the order they are tried; each sets a field to what \<open>opt_flag\<close> found.\<close>

definition flag_val :: "bool \<Rightarrow> int" where
  "flag_val b = (if b then 1 else 0)"

definition flag_options :: "(string \<times> bool \<times> (bool \<Rightarrow> sshauthopt \<Rightarrow> sshauthopt)) list" where
  "flag_options =
     [(''restrict'', False, \<lambda>r ao. ao\<lparr>ao_restricted := 1, ao_permit_port_forwarding_flag := 0,
         ao_permit_agent_forwarding_flag := 0, ao_permit_x11_forwarding_flag := 0, ao_permit_pty_flag := 0,
         ao_permit_user_rc := 0\<rparr>),
      (''cert-authority'', False, \<lambda>r ao. ao\<lparr>ao_cert_authority := flag_val r\<rparr>),
      (''port-forwarding'', True, \<lambda>r ao. ao\<lparr>ao_permit_port_forwarding_flag := flag_val r\<rparr>),
      (''agent-forwarding'', True, \<lambda>r ao. ao\<lparr>ao_permit_agent_forwarding_flag := flag_val r\<rparr>),
      (''x11-forwarding'', True, \<lambda>r ao. ao\<lparr>ao_permit_x11_forwarding_flag := flag_val r\<rparr>),
      (''touch-required'', True, \<lambda>r ao. ao\<lparr>ao_no_require_user_presence := flag_val (\<not> r)\<rparr>),
      (''verify-required'', True, \<lambda>r ao. ao\<lparr>ao_require_verify := flag_val r\<rparr>),
      (''pty'', True, \<lambda>r ao. ao\<lparr>ao_permit_pty_flag := flag_val r\<rparr>),
      (''user-rc'', True, \<lambda>r ao. ao\<lparr>ao_permit_user_rc := flag_val r\<rparr>)]"

fun first_flag ::
    "(string \<times> bool \<times> (bool \<Rightarrow> sshauthopt \<Rightarrow> sshauthopt)) list \<Rightarrow> string \<Rightarrow> sshauthopt \<Rightarrow> (sshauthopt \<times> string) option" where
  "first_flag [] opts ret = None"
| "first_flag ((name, neg, upd) # fs) opts ret =
     (case opt_flag name neg opts of Some (r, rest) \<Rightarrow> Some (upd r ret, rest) | None \<Rightarrow> first_flag fs opts ret)"

text \<open>
  The options with a value: each gets the text behind its \<open>=\<close> and the options so far, and gives the
  reason of a failure, or the options and what follows the value.
\<close>

type_synonym parsed = "string + sshauthopt \<times> string"

definition once :: "string \<Rightarrow> (sshauthopt \<Rightarrow> string option) \<Rightarrow> (string \<Rightarrow> sshauthopt \<Rightarrow> sshauthopt) \<Rightarrow> string \<Rightarrow> sshauthopt \<Rightarrow> parsed" where
  "once name get upd opts ret =
     (if get ret \<noteq> None then Inl (''multiple '' @ [CHR 0x22] @ name @ [CHR 0x22] @ '' clauses'')
      else case opt_dequote opts of Inl e \<Rightarrow> Inl e | Inr (v, rest) \<Rightarrow> Inr (upd v ret, rest))"

definition expiry_option :: "opt_calls \<Rightarrow> string \<Rightarrow> sshauthopt \<Rightarrow> parsed" where
  "expiry_option k opts ret =
     (case opt_dequote opts of
        Inl e \<Rightarrow> Inl e
      | Inr (opt, rest) \<Rightarrow>
        (case parse_absolute_time k opt of
           None \<Rightarrow> Inl ''invalid expires time''
         | Some t \<Rightarrow>
           if t = 0 then Inl ''invalid expires time''
           else Inr (if ao_valid_before ret = 0 \<or> t < ao_valid_before ret then ret\<lparr>ao_valid_before := t\<rparr> else ret, rest)))"

definition SSH_AUTHOPT_ENV_MAX :: nat where "SSH_AUTHOPT_ENV_MAX = 1024"

definition environment_option :: "string \<Rightarrow> sshauthopt \<Rightarrow> parsed" where
  "environment_option opts ret =
     (if length (ao_env ret) > SSH_AUTHOPT_ENV_MAX then Inl ''too many environment strings''
      else case opt_dequote opts of
        Inl e \<Rightarrow> Inl e
      | Inr (opt, rest) \<Rightarrow>
        if CHR ''='' \<notin> set opt then Inl ''invalid environment string''
        else
          let cp = takeWhile (\<lambda>c. c \<noteq> CHR ''='') opt; l = length cp in
          if \<not> valid_env_name cp then Inl ''invalid environment string''
          else if list_ex (\<lambda>e. take l e = cp \<and> l < length e \<and> e ! l = CHR ''='') (ao_env ret) then Inr (ret, rest)
          else Inr (ret\<lparr>ao_env := ao_env ret @ [opt]\<rparr>, rest))"

definition permit_option :: "opt_calls \<Rightarrow> bool \<Rightarrow> string \<Rightarrow> sshauthopt \<Rightarrow> parsed" where
  "permit_option k listen opts ret =
     (case handle_permit (k_getservbyname k) opts listen (if listen then ao_permitlisten ret else ao_permitopen ret) of
        Inl e \<Rightarrow> Inl e
      | Inr (permits, rest) \<Rightarrow>
        Inr (if listen then ret\<lparr>ao_permitlisten := permits\<rparr> else ret\<lparr>ao_permitopen := permits\<rparr>, rest))"

definition tunnel_option :: "string \<Rightarrow> sshauthopt \<Rightarrow> parsed" where
  "tunnel_option opts ret =
     (case opt_dequote opts of
        Inl e \<Rightarrow> Inl e
      | Inr (opt, rest) \<Rightarrow>
        if a2tun opt = SSH_TUNID_ERR then Inl ''invalid tun device'' else Inr (ret\<lparr>ao_force_tun_device := a2tun opt\<rparr>, rest))"

definition value_options :: "opt_calls \<Rightarrow> (string \<times> (string \<Rightarrow> sshauthopt \<Rightarrow> parsed)) list" where
  "value_options k =
     [(''command'', once ''command'' ao_force_command (\<lambda>v ao. ao\<lparr>ao_force_command := Some v\<rparr>)),
      (''principals'', once ''principals'' ao_cert_principals (\<lambda>v ao. ao\<lparr>ao_cert_principals := Some v\<rparr>)),
      (''from'', once ''from'' ao_required_from_host_keys (\<lambda>v ao. ao\<lparr>ao_required_from_host_keys := Some v\<rparr>)),
      (''expiry-time'', expiry_option k),
      (''environment'', environment_option),
      (''permitopen'', permit_option k False),
      (''permitlisten'', permit_option k True),
      (''tunnel'', tunnel_option)]"

text \<open>An option that none of them knows leaves everything as it is; the comma that is missing then is the error.\<close>

fun first_value :: "(string \<times> (string \<Rightarrow> sshauthopt \<Rightarrow> parsed)) list \<Rightarrow> string \<Rightarrow> sshauthopt \<Rightarrow> parsed" where
  "first_value [] opts ret = Inr (ret, opts)"
| "first_value ((name, f) # fs) opts ret =
     (case opt_match opts name of Some rest \<Rightarrow> f rest ret | None \<Rightarrow> first_value fs opts ret)"

definition parse_option :: "opt_calls \<Rightarrow> string \<Rightarrow> sshauthopt \<Rightarrow> parsed" where
  "parse_option k opts ret =
     (case first_flag flag_options opts ret of Some p \<Rightarrow> Inr p | None \<Rightarrow> first_value (value_options k) opts ret)"

definition at_end :: "string \<Rightarrow> bool" where
  "at_end opts \<longleftrightarrow> opts = [] \<or> hd opts = CHR '' '' \<or> hd opts = CHR 0x09"

text \<open>No option grows the text, so the loop ends.\<close>

lemma dequote_body_shorter: "dequote_body s = Some (v, rest) \<Longrightarrow> length rest < length s"
  by (induction s arbitrary: v rest rule: dequote_body.induct) (fastforce split: if_split_asm)+

lemma opt_dequote_shorter: "opt_dequote s = Inr (v, rest) \<Longrightarrow> length rest \<le> length s"
  by (auto simp: opt_dequote_def dest!: dequote_body_shorter split: if_split_asm option.split_asm)

lemma opt_match_shorter: "opt_match opts name = Some rest \<Longrightarrow> length rest \<le> length opts"
  by (auto simp: opt_match_def split: if_split_asm)

lemma first_flag_shorter: "first_flag fs opts ret = Some (r, rest) \<Longrightarrow> length rest \<le> length opts"
  by (induction fs opts ret rule: first_flag.induct)
    (auto simp: opt_flag_def Let_def split: option.split_asm if_split_asm)

lemma once_shorter: "once name get upd opts ret = Inr (r, rest) \<Longrightarrow> length rest \<le> length opts"
  by (auto simp: once_def dest: opt_dequote_shorter split: if_split_asm sum.split_asm)

lemma expiry_option_shorter: "expiry_option k opts ret = Inr (r, rest) \<Longrightarrow> length rest \<le> length opts"
  by (auto simp: expiry_option_def dest: opt_dequote_shorter split: if_split_asm sum.split_asm option.split_asm)

lemma environment_option_shorter: "environment_option opts ret = Inr (r, rest) \<Longrightarrow> length rest \<le> length opts"
  by (auto simp: environment_option_def Let_def dest: opt_dequote_shorter split: if_split_asm sum.split_asm)

lemma handle_permit_shorter: "handle_permit g opts b ps = Inr (r, rest) \<Longrightarrow> length rest \<le> length opts"
  by (auto simp: handle_permit_def Let_def dest: opt_dequote_shorter split: if_split_asm sum.split_asm)

lemma permit_option_shorter: "permit_option k l opts ret = Inr (r, rest) \<Longrightarrow> length rest \<le> length opts"
  by (auto simp: permit_option_def dest: handle_permit_shorter split: sum.split_asm)

lemma tunnel_option_shorter: "tunnel_option opts ret = Inr (r, rest) \<Longrightarrow> length rest \<le> length opts"
  by (auto simp: tunnel_option_def dest: opt_dequote_shorter split: if_split_asm sum.split_asm)

lemma values_shorter:
  assumes "(name, f) \<in> set (value_options k)" "f opts ret = Inr (r, rest)"
  shows "length rest \<le> length opts"
  using assms by (auto simp: value_options_def intro: once_shorter expiry_option_shorter environment_option_shorter
      permit_option_shorter tunnel_option_shorter)

lemma first_value_shorter:
  assumes "set fs \<subseteq> set (value_options k)" "first_value fs opts ret = Inr (r, rest)"
  shows "length rest \<le> length opts"
  using assms
proof (induction fs)
  case (Cons nf fs)
  obtain name f where nf: "nf = (name, f)" by (cases nf)
  show ?case
  proof (cases "opt_match opts name")
    case None
    with Cons nf show ?thesis by simp
  next
    case (Some s)
    with Cons.prems nf have "f s ret = Inr (r, rest)" by simp
    then have "length rest \<le> length s" using Cons.prems(1) nf values_shorter[of name f k] by simp
    with opt_match_shorter[OF Some] show ?thesis by simp
  qed
qed simp

lemma parse_option_shorter: "parse_option k opts ret = Inr (r, rest) \<Longrightarrow> length rest \<le> length opts"
  by (auto simp: parse_option_def split: option.split_asm dest: first_flag_shorter first_value_shorter[OF subset_refl])

lemma parse_option_step:
  "\<not> at_end rest \<Longrightarrow> parse_option k opts ret = Inr (r, rest) \<Longrightarrow> length (tl rest) < length opts"
  using parse_option_shorter[of k opts ret r rest] by (cases rest) (auto simp: at_end_def)

function parse_loop :: "opt_calls \<Rightarrow> string \<Rightarrow> sshauthopt \<Rightarrow> string + sshauthopt" where
  "parse_loop k opts ret =
     (if at_end opts then Inr ret
      else case parse_option k opts ret of
        Inl e \<Rightarrow> Inl e
      | Inr (ret1, rest) \<Rightarrow>
        if at_end rest then Inr ret1
        else if hd rest \<noteq> CHR '','' then Inl ''unknown key option''
        else if tl rest = [] then Inl ''unexpected end-of-options''
        else parse_loop k (tl rest) ret1)"
  by pat_completeness auto

termination
  by (relation "measure (\<lambda>(k, opts, ret). length opts)") (fastforce simp del: length_tl intro: parse_option_step)+

declare parse_loop.simps [simp del]

definition sshauthopt_parse :: "opt_calls \<Rightarrow> string option \<Rightarrow> string + sshauthopt" where
  "sshauthopt_parse k opts =
     (case opts of None \<Rightarrow> Inr sshauthopt_new_with_keys_defaults
      | Some s \<Rightarrow> parse_loop k s sshauthopt_new_with_keys_defaults)"

end
