(* ===== verification/AuthMerge.thy ===== *)
theory AuthMerge
  imports AuthOpts
begin

text \<open>
  Options put together: those of a key with those of a certificate, and those of a session with what
  an authentication method adds (\<open>sshauthopt_merge\<close>, \<open>sshauthopt_copy\<close>, \<open>auth_activate_options\<close>,
  \<open>auth_restrict_session\<close>), and the decision whether a client may use an entry with its options
  (\<open>auth_authorise_keyopts\<close>).
\<close>

section \<open>Merging\<close>

definition primary_or :: "'a option \<Rightarrow> 'a option \<Rightarrow> 'a option" where
  "primary_or p a = (case p of None \<Rightarrow> a | Some _ \<Rightarrow> p)"

definition primary_list :: "string list \<Rightarrow> string list \<Rightarrow> string list" where
  "primary_list p a = (if length p > 0 then p else a)"

definition OPTFLAG_AND :: "(sshauthopt \<Rightarrow> int) \<Rightarrow> sshauthopt \<Rightarrow> sshauthopt \<Rightarrow> int" where
  "OPTFLAG_AND x primary additional = flag_val (x primary = 1 \<and> x additional = 1)"

definition OPTFLAG_OR :: "(sshauthopt \<Rightarrow> int) \<Rightarrow> sshauthopt \<Rightarrow> sshauthopt \<Rightarrow> int" where
  "OPTFLAG_OR x primary additional = flag_val (x primary = 1 \<or> x additional = 1)"

definition merge_expiry :: "u64 \<Rightarrow> u64 \<Rightarrow> u64" where
  "merge_expiry p a =
     (let ret = (if p \<noteq> 0 then p else 0) in if a \<noteq> 0 \<and> a < ret then a else ret)"

definition merge_command :: "string option \<Rightarrow> string option \<Rightarrow> string + string option" where
  "merge_command p a =
     (case (p, a) of
        (Some c, Some d) \<Rightarrow> if c = d then Inr (Some c) else Inl ''forced command options do not match''
      | (Some c, None) \<Rightarrow> Inr (Some c)
      | (None, Some d) \<Rightarrow> Inr (Some d)
      | (None, None) \<Rightarrow> Inr None)"

definition sshauthopt_merge :: "sshauthopt \<Rightarrow> sshauthopt \<Rightarrow> string + sshauthopt" where
  "sshauthopt_merge primary additional =
     (let ret = sshauthopt_new\<lparr>
          ao_required_from_host_cert := primary_or (ao_required_from_host_cert primary) (ao_required_from_host_cert additional),
          ao_required_from_host_keys := primary_or (ao_required_from_host_keys primary) (ao_required_from_host_keys additional),
          ao_force_tun_device := (if ao_force_tun_device primary = -1 then ao_force_tun_device additional
                                  else ao_force_tun_device primary),
          ao_env := primary_list (ao_env primary) (ao_env additional),
          ao_permitopen := primary_list (ao_permitopen primary) (ao_permitopen additional),
          ao_permitlisten := primary_list (ao_permitlisten primary) (ao_permitlisten additional),
          ao_permit_port_forwarding_flag := OPTFLAG_AND ao_permit_port_forwarding_flag primary additional,
          ao_permit_agent_forwarding_flag := OPTFLAG_AND ao_permit_agent_forwarding_flag primary additional,
          ao_permit_x11_forwarding_flag := OPTFLAG_AND ao_permit_x11_forwarding_flag primary additional,
          ao_permit_pty_flag := OPTFLAG_AND ao_permit_pty_flag primary additional,
          ao_permit_user_rc := OPTFLAG_AND ao_permit_user_rc primary additional,
          ao_no_require_user_presence := OPTFLAG_AND ao_no_require_user_presence primary additional,
          ao_require_verify := OPTFLAG_OR ao_require_verify primary additional,
          ao_valid_before := merge_expiry (ao_valid_before primary) (ao_valid_before additional)\<rparr>
      in case merge_command (ao_force_command primary) (ao_force_command additional) of
           Inl e \<Rightarrow> Inl e
         | Inr c \<Rightarrow> Inr (ret\<lparr>ao_force_command := c\<rparr>))"

definition sshauthopt_copy :: "sshauthopt \<Rightarrow> sshauthopt" where
  "sshauthopt_copy orig = sshauthopt_new\<lparr>
     ao_permit_port_forwarding_flag := ao_permit_port_forwarding_flag orig,
     ao_permit_agent_forwarding_flag := ao_permit_agent_forwarding_flag orig,
     ao_permit_x11_forwarding_flag := ao_permit_x11_forwarding_flag orig,
     ao_permit_pty_flag := ao_permit_pty_flag orig,
     ao_permit_user_rc := ao_permit_user_rc orig,
     ao_restricted := ao_restricted orig,
     ao_cert_authority := ao_cert_authority orig,
     ao_force_tun_device := ao_force_tun_device orig,
     ao_valid_before := ao_valid_before orig,
     ao_no_require_user_presence := ao_no_require_user_presence orig,
     ao_require_verify := ao_require_verify orig,
     ao_cert_principals := ao_cert_principals orig,
     ao_force_command := ao_force_command orig,
     ao_required_from_host_cert := ao_required_from_host_cert orig,
     ao_required_from_host_keys := ao_required_from_host_keys orig,
     ao_env := ao_env orig, ao_permitopen := ao_permitopen orig, ao_permitlisten := ao_permitlisten orig\<rparr>"

lemma sshauthopt_copy_same: "sshauthopt_copy ao = ao"
  by (simp add: sshauthopt_copy_def sshauthopt_new_def)

section \<open>The options of a session\<close>

text \<open>
  Whether it worked, and \<open>auth_opts\<close> after the call: a failed merge leaves none. A call while there are
  none reads through the null pointer, which ends the process.
\<close>

definition auth_activate_options :: "sshauthopt option \<Rightarrow> sshauthopt \<Rightarrow> (bool \<times> sshauthopt option) run" where
  "auth_activate_options old opts =
     (case old of
        None \<Rightarrow> Fatal
      | Some ao \<Rightarrow>
        (case sshauthopt_merge ao opts of Inl emsg \<Rightarrow> Done (False, None) | Inr ao1 \<Rightarrow> Done (True, Some ao1)))"

definition auth_restrict_session :: "sshauthopt option \<Rightarrow> sshauthopt option run" where
  "auth_restrict_session old =
     andThen (auth_activate_options old (sshauthopt_new\<lparr>ao_permit_pty_flag := 1, ao_restricted := 1\<rparr>))
       (\<lambda>(ok, auth_opts). if ok then Done auth_opts else Fatal)"

section \<open>May this client use the entry?\<close>

text \<open>\<open>now\<close> is the clock; the result says whether the entry may be used.\<close>

definition entry_expired :: "int \<Rightarrow> sshauthopt \<Rightarrow> bool" where
  "entry_expired now opts \<longleftrightarrow> ao_valid_before opts \<noteq> 0 \<and> now > 0 \<and> ao_valid_before opts < word_of_int now"

definition auth_authorise_keyopts :: "numeric \<Rightarrow> int \<Rightarrow> sshauthopt \<Rightarrow> bool \<Rightarrow> string \<Rightarrow> string \<Rightarrow> bool" where
  "auth_authorise_keyopts numeric now opts allow_cert_authority remote_ip remote_host =
     (if entry_expired now opts then False
      else if ao_cert_principals opts \<noteq> None \<and> ao_cert_authority opts = 0 then False
      else if \<not> allow_cert_authority \<and> ao_cert_authority opts \<noteq> 0 then False
      else if (case ao_required_from_host_keys opts of None \<Rightarrow> False
               | Some from \<Rightarrow> match_host_and_ip numeric (Some remote_host) (Some remote_ip) from \<noteq> 1) then False
      else if (case ao_required_from_host_cert opts of None \<Rightarrow> False
               | Some source \<Rightarrow> addr_match_cidr_list numeric (Some remote_ip) source \<noteq> 1) then False
      else True)"

definition match_principals_option :: "string \<Rightarrow> string list \<Rightarrow> bool" where
  "match_principals_option principal_list principals =
     list_ex (\<lambda>p. fst (match_list p principal_list) \<noteq> None) principals"

text \<open>What the decision says, in one piece.\<close>

lemma authorise_iff:
  "auth_authorise_keyopts numeric now opts ca ip host \<longleftrightarrow>
     \<not> entry_expired now opts \<and> (ao_cert_principals opts = None \<or> ao_cert_authority opts \<noteq> 0) \<and>
     (ca \<or> ao_cert_authority opts = 0) \<and>
     (\<forall>from. ao_required_from_host_keys opts = Some from \<longrightarrow> match_host_and_ip numeric (Some host) (Some ip) from = 1) \<and>
     (\<forall>source. ao_required_from_host_cert opts = Some source \<longrightarrow> addr_match_cidr_list numeric (Some ip) source = 1)"
  by (simp add: auth_authorise_keyopts_def split: option.split)

text \<open>The pieces of a merge.\<close>

lemma flag_val_one [simp]: "flag_val b = 1 \<longleftrightarrow> b" "flag_val b \<noteq> 0 \<longleftrightarrow> b" "flag_val b = 0 \<longleftrightarrow> \<not> b"
  by (simp_all add: flag_val_def)

lemma merge_command_Inr:
  "merge_command p a = Inr c \<longleftrightarrow> (p = None \<or> a = None \<or> p = a) \<and> c = primary_or p a"
  by (auto simp: merge_command_def primary_or_def split: option.split)

lemma merge_fields:
  assumes "sshauthopt_merge p a = Inr m"
  shows "m = sshauthopt_new\<lparr>
          ao_required_from_host_cert := primary_or (ao_required_from_host_cert p) (ao_required_from_host_cert a),
          ao_required_from_host_keys := primary_or (ao_required_from_host_keys p) (ao_required_from_host_keys a),
          ao_force_tun_device := (if ao_force_tun_device p = -1 then ao_force_tun_device a else ao_force_tun_device p),
          ao_env := primary_list (ao_env p) (ao_env a),
          ao_permitopen := primary_list (ao_permitopen p) (ao_permitopen a),
          ao_permitlisten := primary_list (ao_permitlisten p) (ao_permitlisten a),
          ao_permit_port_forwarding_flag := OPTFLAG_AND ao_permit_port_forwarding_flag p a,
          ao_permit_agent_forwarding_flag := OPTFLAG_AND ao_permit_agent_forwarding_flag p a,
          ao_permit_x11_forwarding_flag := OPTFLAG_AND ao_permit_x11_forwarding_flag p a,
          ao_permit_pty_flag := OPTFLAG_AND ao_permit_pty_flag p a,
          ao_permit_user_rc := OPTFLAG_AND ao_permit_user_rc p a,
          ao_no_require_user_presence := OPTFLAG_AND ao_no_require_user_presence p a,
          ao_require_verify := OPTFLAG_OR ao_require_verify p a,
          ao_valid_before := merge_expiry (ao_valid_before p) (ao_valid_before a),
          ao_force_command := primary_or (ao_force_command p) (ao_force_command a)\<rparr>"
  using assms by (auto simp: sshauthopt_merge_def Let_def merge_command_Inr split: sum.split_asm)

end
