(* ===== verification/SshBufView.thy ===== *)
theory SshBufView
  imports SshBufWire
begin

text \<open>
  Read-only views of a buffer (\<open>sshbuf_fromb\<close>, \<open>sshbuf_froms\<close>, \<open>sshbuf_set_parent\<close>, and what
  \<open>sshbuf_free\<close> does to the parent of a view). A view shares the bytes of its parent and keeps a
  reference to it; \<open>at\<close> is the parent's address.
\<close>

section \<open>Operations\<close>

definition sshbuf_set_parent :: "sshbuf \<Rightarrow> ptr \<Rightarrow> sshbuf \<Rightarrow> unit res \<times> sshbuf \<times> sshbuf" where
  "sshbuf_set_parent child at parent =
     (case sshbuf_check_sanity child of
        Inl r \<Rightarrow> (Inl r, child, parent)
      | Inr _ \<Rightarrow>
        (case sshbuf_check_sanity parent of
           Inl r \<Rightarrow> (Inl r, child, parent)
         | Inr _ \<Rightarrow>
           if b_parent child \<noteq> None \<and> b_parent child \<noteq> Some at then (Inl SSH_ERR_INTERNAL_ERROR, child, parent)
           else (Inr (), child\<lparr>b_parent := Some at\<rparr>, parent\<lparr>b_refcount := b_refcount parent + 1\<rparr>)))"

text \<open>\<open>sshbuf_free\<close> of one buffer: whether its memory goes, and the buffer that is left else.\<close>

definition unref :: "sshbuf \<Rightarrow> sshbuf" where
  "unref buf = (if sshbuf_check_sanity buf \<noteq> Inr () then buf else buf\<lparr>b_refcount := b_refcount buf - 1\<rparr>)"

text \<open>\<open>sshbuf_free\<close> of a view: the parent after it.\<close>

definition sshbuf_free_view :: "sshbuf \<Rightarrow> sshbuf \<Rightarrow> sshbuf" where
  "sshbuf_free_view child parent =
     (if sshbuf_check_sanity child \<noteq> Inr () then parent
      else if b_refcount child - 1 > 0 then parent
      else if b_parent child = None then parent
      else unref parent)"

text \<open>The view, and the parent with the reference.\<close>

definition sshbuf_fromb :: "(size_t \<Rightarrow> ptr) \<Rightarrow> ptr \<Rightarrow> sshbuf \<Rightarrow> sshbuf option \<times> sshbuf" where
  "sshbuf_fromb alc at buf =
     (if sshbuf_check_sanity buf \<noteq> Inr () then (None, buf)
      else case sshbuf_from alc (b_cd buf + b_off buf) (contents buf) (sshbuf_len buf) of
             None \<Rightarrow> (None, buf)
           | Some ret \<Rightarrow>
             (case sshbuf_set_parent ret at buf of
                (Inl _, _, b) \<Rightarrow> (None, b)
              | (Inr _, c, b) \<Rightarrow> (Some c, b)))"

definition sshbuf_froms :: "(size_t \<Rightarrow> ptr) \<Rightarrow> ptr \<Rightarrow> sshbuf \<Rightarrow> sshbuf res \<times> sshbuf" where
  "sshbuf_froms alc at buf =
     (case sshbuf_peek_string_direct buf of
        Inl r \<Rightarrow> (Inl r, buf)
      | Inr p \<Rightarrow>
        let len = word_of_nat (length p) in
        (case sshbuf_from alc (b_cd buf + b_off buf + 4) p len of
           None \<Rightarrow> (Inl SSH_ERR_ALLOC_FAIL, buf)
         | Some ret \<Rightarrow>
           (case sshbuf_consume buf (len + 4) of
              (Inl r, b) \<Rightarrow> (Inl r, b)
            | (Inr _, b) \<Rightarrow>
              (case sshbuf_set_parent ret at b of
                 (Inl r, _, b1) \<Rightarrow> (Inl r, b1)
               | (Inr _, c, b1) \<Rightarrow> (Inr c, b1)))))"

section \<open>What a view shows\<close>

text \<open>The bytes of a buffer lie below the end of the address space.\<close>

definition placed :: "sshbuf \<Rightarrow> bool" where
  "placed buf \<longleftrightarrow> unat (b_cd buf) + unat (b_alloc buf) < 2 ^ 64"

definition view_of :: "ptr \<Rightarrow> u8 list \<Rightarrow> sshbuf \<Rightarrow> bool" where
  "view_of at bs v \<longleftrightarrow> sshbuf_inv v \<and> contents v = bs \<and> b_readonly v \<and> b_refcount v = 1 \<and> b_parent v = Some at \<and> placed v"

lemma from_view:
  assumes "p \<noteq> NULL" "length bs \<le> 134217728" "alc SIZEOF_SSHBUF \<noteq> NULL" "unat p + length bs < 2 ^ 64"
  obtains v where "sshbuf_from alc p bs (word_of_nat (length bs)) = Some v" "view_of at bs (v\<lparr>b_parent := Some at\<rparr>)"
    "sshbuf_check_sanity v = Inr ()" "b_parent v = None"
proof -
  let ?n = "word_of_nat (length bs) :: size_t"
  have n: "unat ?n = length bs" using assms(2) by (simp add: unat_of_nat take_bit_eq_mod)
  define v where "v = \<lparr>b_d = NULL, b_cd = p, b_mem = bs, b_off = 0, b_size = ?n, b_max_size = ?n, b_alloc = ?n,
    b_readonly = True, b_refcount = 1, b_parent = None\<rparr>"
  have "sshbuf_from alc p bs ?n = Some v"
    using assms n by (simp add: sshbuf_from_def v_def word_less_nat_alt)
  moreover have inv: "sshbuf_inv v" using assms n by (simp add: v_def inv_iff word_le_nat_alt)
  moreover have "view_of at bs (v\<lparr>b_parent := Some at\<rparr>)"
    using assms inv n by (simp add: view_of_def v_def inv_iff contents_def placed_def word_le_nat_alt)
  ultimately show thesis using that[of v] by (simp add: v_def)
qed

lemma set_parent_view:
  assumes "sshbuf_check_sanity v = Inr ()" "b_parent v = None" "sshbuf_inv buf"
  shows "sshbuf_set_parent v at buf = (Inr (), v\<lparr>b_parent := Some at\<rparr>, buf\<lparr>b_refcount := b_refcount buf + 1\<rparr>)"
  using assms by (simp add: sshbuf_set_parent_def)

lemma refcount_contents [simp]: "contents (buf\<lparr>b_refcount := n\<rparr>) = contents buf"
  by (simp add: contents_def)

lemma refcount_placed [simp]: "placed (buf\<lparr>b_refcount := n\<rparr>) = placed buf"
  by (simp add: placed_def)

lemma placed_pointer:
  assumes "sshbuf_inv buf" "placed buf" "unat (b_off buf) + unat k \<le> unat (b_alloc buf)"
  shows "unat (b_cd buf + b_off buf + k) = unat (b_cd buf) + unat (b_off buf) + unat k" "b_cd buf + b_off buf + k \<noteq> NULL"
proof -
  have s: "unat (b_cd buf) + unat (b_off buf) + unat k < 2 ^ 64" using assms(2,3) by (simp add: placed_def)
  have 1: "unat (b_cd buf + b_off buf) = unat (b_cd buf) + unat (b_off buf)"
    using s by (intro unat_add_nowrap) simp
  show 2: "unat (b_cd buf + b_off buf + k) = unat (b_cd buf) + unat (b_off buf) + unat k"
    using s 1 by (subst unat_add_nowrap) auto
  have "unat (b_cd buf) \<noteq> 0" using assms(1) by (simp add: inv_iff unat_eq_0)
  with 2 show "b_cd buf + b_off buf + k \<noteq> NULL" by (metis add_is_0 unat_0)
qed

lemma fromb_view:
  assumes inv: "sshbuf_inv buf" and pl: "placed buf" and alc: "alc SIZEOF_SSHBUF \<noteq> NULL"
  obtains v where "sshbuf_fromb alc at buf = (Some v, buf\<lparr>b_refcount := b_refcount buf + 1\<rparr>)" "view_of at (contents buf) v"
proof -
  have len: "word_of_nat (length (contents buf)) = sshbuf_len buf"
    by (simp add: unat_sshbuf_len[OF inv, symmetric] del: unat_sshbuf_len)
  have l: "length (contents buf) = unat (b_size buf) - unat (b_off buf)" using inv by simp
  note p = placed_pointer[OF inv pl, of 0, simplified]
  have "unat (b_cd buf + b_off buf) + length (contents buf) < 2 ^ 64"
    using inv_bounds[OF inv] pl p(1) l by (simp add: placed_def)
  moreover have "length (contents buf) \<le> 134217728" using inv_bounds[OF inv] l by simp
  ultimately obtain v where v: "sshbuf_from alc (b_cd buf + b_off buf) (contents buf) (sshbuf_len buf) = Some v"
      "view_of at (contents buf) (v\<lparr>b_parent := Some at\<rparr>)" "sshbuf_check_sanity v = Inr ()" "b_parent v = None"
    using from_view[of "b_cd buf + b_off buf" "contents buf" alc at] p inv_bounds[OF inv] alc unfolding len by auto
  then show thesis using that[of "v\<lparr>b_parent := Some at\<rparr>"] inv set_parent_view[OF v(3,4) inv, of at]
    by (simp add: sshbuf_fromb_def)
qed

lemma froms_view:
  assumes inv: "sshbuf_inv buf" and pl: "placed buf" and alc: "alc SIZEOF_SSHBUF \<noteq> NULL"
    and str: "parse_string (contents buf) = Inr s"
  obtains v b where "sshbuf_froms alc at buf = (Inr v, b\<lparr>b_refcount := b_refcount buf + 1\<rparr>)" "view_of at s v"
    "sshbuf_inv b" "same_shape buf b" "placed b" "contents b = drop (4 + length s) (contents buf)"
proof -
  note ps = parse_string_Inr[OF str]
  let ?p = "b_cd buf + b_off buf + 4"
  have l: "length (contents buf) = unat (b_size buf) - unat (b_off buf)" using inv by simp
  have off: "unat (b_off buf) + 4 + length s \<le> unat (b_alloc buf)"
    using ps[THEN conjunct1] l inv_bounds(1,2)[OF inv] by linarith
  then have p: "unat ?p = unat (b_cd buf) + unat (b_off buf) + 4" "?p \<noteq> NULL"
    using placed_pointer[OF inv pl, of 4] by simp_all
  have "unat ?p + length s < 2 ^ 64" using p(1) off pl by (simp add: placed_def)
  with ps p alc obtain v where v: "sshbuf_from alc ?p s (word_of_nat (length s)) = Some v"
      "view_of at s (v\<lparr>b_parent := Some at\<rparr>)" "sshbuf_check_sanity v = Inr ()" "b_parent v = None"
    using from_view[of ?p s alc at] by auto
  have n: "unat (word_of_nat (length s) + 4 :: size_t) = 4 + length s"
    using ps by (simp add: unat_word_ariths unat_of_nat take_bit_eq_mod)
  show thesis
  proof (rule consume_cases[OF inv, of "word_of_nat (length s) + 4"], goal_cases short ok)
    case short
    then show ?thesis using ps n by simp
  next
    case (ok b)
    have sh: "b_refcount b = b_refcount buf" using ok(4) by (simp add: same_shape_def)
    have al: "b_cd b = b_cd buf \<and> b_alloc b = b_alloc buf"
      using ok(2) by (auto simp: sshbuf_consume_def Let_def split: sum.splits if_split_asm)
    show ?thesis
    proof (rule that[of "v\<lparr>b_parent := Some at\<rparr>" b])
      show "sshbuf_froms alc at buf = (Inr (v\<lparr>b_parent := Some at\<rparr>), b\<lparr>b_refcount := b_refcount buf + 1\<rparr>)"
        using inv str v(1) ok(2) set_parent_view[OF v(3,4) ok(3), of at] sh
        by (simp add: sshbuf_froms_def peek_string_spec Let_def)
      show "placed b" using pl al by (simp add: placed_def)
    qed (use v ok n in \<open>simp_all\<close>)
  qed
qed

lemma free_view:
  assumes "view_of at s v" "sshbuf_inv b" "b_refcount b = 1"
  shows "sshbuf_free_view v (b\<lparr>b_refcount := b_refcount b + 1\<rparr>) = b"
  using assms by (simp add: view_of_def sshbuf_free_view_def unref_def inv_iff sane_iff word_le_nat_alt)

end
