(* ===== verification/AuthWire.thy ===== *)
theory AuthWire
  imports AuthMerge WireMsg SshBufView ChanMux
begin

text \<open>
  The options as bytes between the processes of the server (\<open>sshauthopt_serialise\<close>,
  \<open>sshauthopt_deserialise\<close>): the trusted form carries everything, the untrusted one hides what the
  unprivileged process need not know.
\<close>

section \<open>Writing\<close>

abbreviation INT_MAX :: nat where "INT_MAX \<equiv> 0x7fffffff"

definition serialise_array :: "(size_t \<Rightarrow> ptr) \<Rightarrow> string list \<Rightarrow> sshbuf \<Rightarrow> unit res \<times> sshbuf" where
  "serialise_array alc a m =
     (if length a > INT_MAX then (Inl SSH_ERR_INTERNAL_ERROR, m)
      else case sshbuf_new alc of
        None \<Rightarrow> (Inl SSH_ERR_ALLOC_FAIL, m)
      | Some b \<Rightarrow>
        (case puts (map (\<lambda>s b. sshbuf_put_cstring alc b (Some (bytes_of s))) a) b of
           (Inl r, _) \<Rightarrow> (Inl r, m)
         | (Inr _, b1) \<Rightarrow>
           puts [\<lambda>m. sshbuf_put_u32 alc m (word_of_nat (length a)), \<lambda>m. sshbuf_put_stringb alc m (Some b1)] m))"

definition serialise_nullable_string :: "(size_t \<Rightarrow> ptr) \<Rightarrow> string option \<Rightarrow> sshbuf \<Rightarrow> unit res \<times> sshbuf" where
  "serialise_nullable_string alc s m =
     puts [\<lambda>m. sshbuf_put_u8 alc m (if s = None then 1 else 0), \<lambda>m. sshbuf_put_cstring alc m (map_option bytes_of s)] m"

definition sshauthopt_serialise :: "(size_t \<Rightarrow> ptr) \<Rightarrow> sshauthopt \<Rightarrow> bool \<Rightarrow> sshbuf \<Rightarrow> unit res \<times> sshbuf" where
  "sshauthopt_serialise alc opts untrusted m =
     (let u8 = (\<lambda>f m. sshbuf_put_u8 alc m (word_of_int f)) in
      puts
       [u8 (ao_permit_port_forwarding_flag opts), u8 (ao_permit_agent_forwarding_flag opts),
        u8 (ao_permit_x11_forwarding_flag opts), u8 (ao_permit_pty_flag opts), u8 (ao_permit_user_rc opts),
        u8 (ao_restricted opts), u8 (ao_cert_authority opts), u8 (ao_no_require_user_presence opts),
        u8 (ao_require_verify opts),
        \<lambda>m. sshbuf_put_u64 alc m (ao_valid_before opts),
        u8 (flag_val (ao_force_tun_device opts = -1)),
        \<lambda>m. sshbuf_put_u32 alc m (if ao_force_tun_device opts < 0 then 0 else word_of_int (ao_force_tun_device opts)),
        serialise_nullable_string alc (if untrusted then Some ''yes'' else ao_cert_principals opts),
        serialise_nullable_string alc (if untrusted then Some ''true'' else ao_force_command opts),
        serialise_nullable_string alc (if untrusted then None else ao_required_from_host_cert opts),
        serialise_nullable_string alc (if untrusted then None else ao_required_from_host_keys opts),
        serialise_array alc (if untrusted then [] else ao_env opts),
        serialise_array alc (if untrusted then [] else ao_permitopen opts),
        serialise_array alc (if untrusted then [] else ao_permitlisten opts)] m)"

section \<open>Reading\<close>

text \<open>A get followed by what comes next; the first failure is the result.\<close>

definition get_then :: "(sshbuf \<Rightarrow> 'v res \<times> sshbuf) \<Rightarrow> ('v \<Rightarrow> sshbuf \<Rightarrow> 'a res \<times> sshbuf) \<Rightarrow> sshbuf \<Rightarrow> 'a res \<times> sshbuf" where
  "get_then get k m = (case get m of (Inl r, m1) \<Rightarrow> (Inl r, m1) | (Inr v, m1) \<Rightarrow> k v m1)"

fun get_cstrings :: "(size_t \<Rightarrow> ptr) \<Rightarrow> nat \<Rightarrow> sshbuf \<Rightarrow> string list res" where
  "get_cstrings alc 0 b = Inr []"
| "get_cstrings alc (Suc n) b =
     (case sshbuf_get_cstring alc b of
        (Inl r, _) \<Rightarrow> Inl r
      | (Inr s, b1) \<Rightarrow> map_sum id (\<lambda>ss. cstr s # ss) (get_cstrings alc n b1))"

text \<open>\<open>at\<close> is the address of the buffer; a view of it holds the strings and is freed at the end.\<close>

definition deserialise_array :: "(size_t \<Rightarrow> ptr) \<Rightarrow> ptr \<Rightarrow> sshbuf \<Rightarrow> string list res \<times> sshbuf" where
  "deserialise_array alc at =
     get_then sshbuf_get_u32 (\<lambda>tmp. get_then (sshbuf_froms alc at) (\<lambda>b m.
       let m1 = sshbuf_free_view b m in
       if unat tmp > INT_MAX then (Inl SSH_ERR_INVALID_FORMAT, m1)
       else if unat tmp > 0 \<and> alc (word_of_nat (8 * unat tmp)) = NULL then (Inl SSH_ERR_ALLOC_FAIL, m1)
       else (get_cstrings alc (unat tmp) b, m1)))"

definition deserialise_nullable_string :: "(size_t \<Rightarrow> ptr) \<Rightarrow> sshbuf \<Rightarrow> string option res \<times> sshbuf" where
  "deserialise_nullable_string alc =
     get_then sshbuf_get_u8 (\<lambda>flag.
       if flag \<noteq> 0 then get_then (sshbuf_get_cstring (\<lambda>_. 1)) (\<lambda>_ m. (Inr None, m))
       else get_then (sshbuf_get_cstring alc) (\<lambda>s m. (Inr (Some (cstr s)), m)))"

definition get_flag :: "(int \<Rightarrow> sshbuf \<Rightarrow> 'a res \<times> sshbuf) \<Rightarrow> sshbuf \<Rightarrow> 'a res \<times> sshbuf" where
  "get_flag k = get_then sshbuf_get_u8 (\<lambda>f. k (uint f))"

definition sshauthopt_deserialise :: "(size_t \<Rightarrow> ptr) \<Rightarrow> ptr \<Rightarrow> sshbuf \<Rightarrow> sshauthopt res \<times> sshbuf" where
  "sshauthopt_deserialise alc at =
     get_flag (\<lambda>f1. get_flag (\<lambda>f2. get_flag (\<lambda>f3. get_flag (\<lambda>f4. get_flag (\<lambda>f5. get_flag (\<lambda>f6.
     get_flag (\<lambda>f7. get_flag (\<lambda>f8. get_flag (\<lambda>f9.
     get_then sshbuf_get_u64 (\<lambda>valid_before.
     get_then sshbuf_get_u8 (\<lambda>f. get_then sshbuf_get_u32 (\<lambda>tmp.
     get_then (deserialise_nullable_string alc) (\<lambda>cert_principals.
     get_then (deserialise_nullable_string alc) (\<lambda>force_command.
     get_then (deserialise_nullable_string alc) (\<lambda>required_from_host_cert.
     get_then (deserialise_nullable_string alc) (\<lambda>required_from_host_keys.
     get_then (deserialise_array alc at) (\<lambda>env.
     get_then (deserialise_array alc at) (\<lambda>permitopen.
     get_then (deserialise_array alc at) (\<lambda>permitlisten m.
       (Inr \<lparr>ao_permit_port_forwarding_flag = f1, ao_permit_agent_forwarding_flag = f2, ao_permit_x11_forwarding_flag = f3,
          ao_permit_pty_flag = f4, ao_permit_user_rc = f5, ao_restricted = f6, ao_valid_before = valid_before,
          ao_cert_authority = f7, ao_cert_principals = cert_principals,
          ao_force_tun_device = (if f \<noteq> 0 then -1 else sint tmp),
          ao_force_command = force_command, ao_env = env, ao_permitopen = permitopen, ao_permitlisten = permitlisten,
          ao_required_from_host_cert = required_from_host_cert, ao_required_from_host_keys = required_from_host_keys,
          ao_no_require_user_presence = f8, ao_require_verify = f9\<rparr>, m))))))))))))))))))))"

section \<open>What goes over\<close>

text \<open>The flags are 0 or 1, the device is one or none, and the texts are C strings a buffer can carry.\<close>

definition str_ok :: "string \<Rightarrow> bool" where
  "str_ok s \<longleftrightarrow> CHR 0x00 \<notin> set s \<and> length s \<le> 134217724"

definition flag_fields :: "sshauthopt \<Rightarrow> int set" where
  "flag_fields ao =
     {ao_permit_port_forwarding_flag ao, ao_permit_agent_forwarding_flag ao, ao_permit_x11_forwarding_flag ao,
      ao_permit_pty_flag ao, ao_permit_user_rc ao, ao_restricted ao, ao_cert_authority ao,
      ao_no_require_user_presence ao, ao_require_verify ao}"

definition text_fields :: "sshauthopt \<Rightarrow> string set" where
  "text_fields ao =
     set_option (ao_cert_principals ao) \<union> set_option (ao_force_command ao) \<union>
     set_option (ao_required_from_host_cert ao) \<union> set_option (ao_required_from_host_keys ao) \<union>
     set (ao_env ao) \<union> set (ao_permitopen ao) \<union> set (ao_permitlisten ao)"

definition authopt_ok :: "sshauthopt \<Rightarrow> bool" where
  "authopt_ok ao \<longleftrightarrow> flag_fields ao \<subseteq> {0, 1} \<and> -1 \<le> ao_force_tun_device ao \<and> ao_force_tun_device ao \<le> 0x7fffffff \<and>
     (\<forall>s \<in> text_fields ao. str_ok s)"

text \<open>What the untrusted form shows.\<close>

definition shown :: "bool \<Rightarrow> sshauthopt \<Rightarrow> sshauthopt" where
  "shown untrusted ao =
     (if untrusted
      then ao\<lparr>ao_cert_principals := Some ''yes'', ao_force_command := Some ''true'', ao_required_from_host_cert := None,
              ao_required_from_host_keys := None, ao_env := [], ao_permitopen := [], ao_permitlisten := []\<rparr>
      else ao)"

lemma byte_char [simp]: "unat (word_of_nat (of_char c) :: u8) = of_char c"
  by (simp add: unat_of_nat take_bit_eq_mod)

lemma byte_char_0 [simp]: "(word_of_nat (of_char c) :: u8) = 0 \<longleftrightarrow> c = CHR 0x00"
proof
  assume "(word_of_nat (of_char c) :: u8) = 0"
  then have "of_char c = (of_char (CHR 0x00) :: nat)" using byte_char[of c] byte_char[of "CHR 0x00"] by simp
  then show "c = CHR 0x00" by (simp only: of_char_eq_iff)
qed simp

lemma bytes_of_0 [simp]: "0 \<in> set (bytes_of s) \<longleftrightarrow> CHR 0x00 \<in> set s"
  by (force simp: bytes_of_def image_iff eq_commute[of 0])

lemma cstr_bytes_of [simp]: "CHR 0x00 \<notin> set s \<Longrightarrow> cstr (bytes_of s) = s"
  by (induction s) (auto simp: cstr_def bytes_of_def)

lemma length_bytes_of [simp]: "length (bytes_of s) = length s"
  by (simp add: bytes_of_def)

section \<open>The bytes of lists of strings\<close>

text \<open>The bytes of an array: the number of strings and one string that holds them.\<close>

definition strings_bytes :: "string list \<Rightarrow> u8 list" where
  "strings_bytes a = concat (map (\<lambda>s. enc_string (bytes_of s)) a)"

definition array_bytes :: "string list \<Rightarrow> u8 list" where
  "array_bytes a = concat [POKE_U32 (word_of_nat (length a)), enc_string (strings_bytes a)]"

lemma new_inv: "sshbuf_new alc = Some b \<Longrightarrow> sshbuf_inv b \<and> contents b = []"
  by (auto simp: sshbuf_new_def Let_def inv_iff contents_def split: if_split_asm)

section \<open>What a get reads\<close>

text \<open>A buffer that is read: well-formed, in memory, and with no view of it left.\<close>

definition readable :: "sshbuf \<Rightarrow> bool" where
  "readable m \<longleftrightarrow> sshbuf_inv m \<and> placed m \<and> b_refcount m = 1"

definition reads :: "(sshbuf \<Rightarrow> 'v res \<times> sshbuf) \<Rightarrow> u8 list \<Rightarrow> 'v \<Rightarrow> bool" where
  "reads get bs v \<longleftrightarrow> (\<forall>m rest. readable m \<longrightarrow> contents m = bs @ rest \<longrightarrow>
     (\<exists>m1. get m = (Inr v, m1) \<and> readable m1 \<and> contents m1 = rest))"

lemma readsE:
  assumes "reads get bs v" "readable m" "contents m = bs @ rest"
  obtains m1 where "get m = (Inr v, m1)" "readable m1" "contents m1 = rest"
  using assms unfolding reads_def by blast

lemma reads_then: "reads get bs v \<Longrightarrow> reads (k v) bs1 x \<Longrightarrow> reads (get_then get k) (bs @ bs1) x"
  unfolding reads_def get_then_def by fastforce

lemma reads_done: "reads (\<lambda>m. (Inr v, m)) [] v"
  by (simp add: reads_def)

lemma reads_doneI: "v = w \<Longrightarrow> reads (\<lambda>m. (Inr v, m)) [] w"
  by (simp add: reads_def)

text \<open>Gets move the offset only.\<close>

definition unmoved :: "sshbuf \<Rightarrow> sshbuf \<Rightarrow> bool" where
  "unmoved m m1 \<longleftrightarrow> b_cd m1 = b_cd m \<and> b_alloc m1 = b_alloc m"

lemma consume_unmoved: "sshbuf_consume m n = (r, m1) \<Longrightarrow> unmoved m m1"
  by (auto simp: sshbuf_consume_def unmoved_def Let_def split: sum.split_asm if_split_asm)

lemma unmoved_refl: "unmoved m m"
  by (simp add: unmoved_def)

lemma int_unmoved:
  "sshbuf_get_u8 m = (r1, m1) \<Longrightarrow> unmoved m m1" "sshbuf_get_u32 m = (r4, m1) \<Longrightarrow> unmoved m m1"
  "sshbuf_get_u64 m = (r8, m1) \<Longrightarrow> unmoved m m1"
  by (auto simp: sshbuf_get_u8_def sshbuf_get_u32_def sshbuf_get_u64_def Let_def dest: consume_unmoved
      split: prod.split_asm sum.split_asm)

lemma skip_unmoved: "sshbuf_skip_string m = (r, m1) \<Longrightarrow> unmoved m m1"
  by (auto simp: sshbuf_skip_string_def sshbuf_get_string_direct_def unmoved_refl dest!: consume_unmoved
      split: prod.split_asm sum.split_asm)

lemma cstring_unmoved: "sshbuf_get_cstring alc m = (r, m1) \<Longrightarrow> unmoved m m1"
  by (auto simp: sshbuf_get_cstring_def unmoved_refl Let_def dest!: skip_unmoved
      split: prod.split_asm sum.split_asm if_split_asm)

lemma readsI:
  assumes law: "\<And>m rest. sshbuf_inv m \<Longrightarrow> contents m = bs @ rest \<Longrightarrow>
      \<exists>m1. get m = (Inr v, m1) \<and> sshbuf_inv m1 \<and> same_shape m m1 \<and> contents m1 = rest"
    and un: "\<And>m r m1. get m = (r, m1) \<Longrightarrow> unmoved m m1"
  shows "reads get bs v"
  unfolding reads_def readable_def
proof (intro allI impI)
  fix m rest assume m: "sshbuf_inv m \<and> placed m \<and> b_refcount m = 1" and c: "contents m = bs @ rest"
  obtain m1 where g: "get m = (Inr v, m1)" "sshbuf_inv m1" "same_shape m m1" "contents m1 = rest"
    using law[of m rest] m c by blast
  with un[OF g(1)] m
  show "\<exists>m1. get m = (Inr v, m1) \<and> (sshbuf_inv m1 \<and> placed m1 \<and> b_refcount m1 = 1) \<and> contents m1 = rest"
    by (simp add: same_shape_def unmoved_def placed_def)
qed

lemma reads_u8: "reads sshbuf_get_u8 [v] v"
  by (rule readsI[OF cod_u8.get_law[OF _ TrueI] int_unmoved(1)])

lemma reads_u32: "reads sshbuf_get_u32 (POKE_U32 v) v"
  by (rule readsI[OF cod_u32.get_law[OF _ TrueI] int_unmoved(2)])

lemma reads_u64: "reads sshbuf_get_u64 (POKE_U64 v) v"
  by (rule readsI[OF cod_u64.get_law[OF _ TrueI] int_unmoved(3)])

lemma cstring_alloc:
  "alc (word_of_nat (length v) + 1) \<noteq> NULL \<Longrightarrow> sshbuf_get_cstring (\<lambda>_. 1) m = (Inr v, m1) \<Longrightarrow>
   sshbuf_get_cstring alc m = (Inr v, m1)"
  by (auto simp: sshbuf_get_cstring_def Let_def split: prod.split_asm sum.split_asm if_split_asm)

lemma reads_text:
  assumes "str_ok s" "\<And>n. alc n \<noteq> NULL"
  shows "reads (sshbuf_get_cstring alc) (enc_string (bytes_of s)) (bytes_of s)"
proof (rule readsI[OF _ cstring_unmoved])
  fix m rest assume "sshbuf_inv m" "contents m = enc_string (bytes_of s) @ rest"
  with cod_cstring.get_law[OF this(1) _ this(2)] assms(1) obtain m1 where
    "sshbuf_get_cstring (\<lambda>_. 1) m = (Inr (bytes_of s), m1)" "sshbuf_inv m1" "same_shape m m1" "contents m1 = rest"
    by (auto simp: str_ok_def)
  with cstring_alloc[where alc = alc, OF assms(2) this(1)]
  show "\<exists>m1. sshbuf_get_cstring alc m = (Inr (bytes_of s), m1) \<and> sshbuf_inv m1 \<and> same_shape m m1 \<and> contents m1 = rest"
    by blast
qed

lemma str_ok_Nil [simp]: "str_ok []"
  by (simp add: str_ok_def)

lemma bytes_of_Nil [simp]: "bytes_of [] = []"
  by (simp add: bytes_of_def)

lemma reads_nullable:
  assumes "\<And>t. s = Some t \<Longrightarrow> str_ok t" "\<And>n. alc n \<noteq> NULL"
  shows "reads (deserialise_nullable_string alc)
    (concat [[if s = None then 1 else 0], enc_string (case s of None \<Rightarrow> [] | Some t \<Rightarrow> bytes_of t)]) s"
proof (cases s)
  case None
  have "reads (get_then (sshbuf_get_cstring (\<lambda>_. 1)) (\<lambda>_ m. (Inr None, m))) (enc_string [] @ []) (None :: string option)"
    using reads_text[of "[]" "\<lambda>_. 1"] by (intro reads_then[where v = "[]"] reads_done) simp_all
  then show ?thesis unfolding deserialise_nullable_string_def None
    using reads_then[OF reads_u8, of "\<lambda>flag. if flag \<noteq> 0 then get_then (sshbuf_get_cstring (\<lambda>_. 1)) (\<lambda>_ m. (Inr None, m))
       else get_then (sshbuf_get_cstring alc) (\<lambda>s m. (Inr (Some (cstr s)), m))" 1 "enc_string []" None] by simp
next
  case (Some t)
  have t: "cstr (bytes_of t) = t" using assms(1)[OF Some] by (simp add: str_ok_def)
  have "reads (get_then (sshbuf_get_cstring alc) (\<lambda>s m. (Inr (Some (cstr s)), m))) (enc_string (bytes_of t) @ []) (Some t)"
    by (rule reads_then[OF reads_text[OF assms(1)[OF Some] assms(2)]]) (simp add: t reads_done)
  then show ?thesis unfolding deserialise_nullable_string_def Some
    using reads_then[OF reads_u8, of "\<lambda>flag. if flag \<noteq> 0 then get_then (sshbuf_get_cstring (\<lambda>_. 1)) (\<lambda>_ m. (Inr None, m))
       else get_then (sshbuf_get_cstring alc) (\<lambda>s m. (Inr (Some (cstr s)), m))" 0 "enc_string (bytes_of t)" "Some t"] by simp
qed

lemma get_cstrings_bytes:
  assumes "\<forall>s\<in>set a. str_ok s" "\<And>n. alc n \<noteq> NULL" "sshbuf_inv b" "contents b = strings_bytes a"
  shows "get_cstrings alc (length a) b = Inr a"
  using assms
proof (induction a arbitrary: b)
  case (Cons s a)
  have c: "contents b = enc_string (bytes_of s) @ strings_bytes a" using Cons.prems(4) by (simp add: strings_bytes_def)
  obtain b1 where g: "sshbuf_get_cstring (\<lambda>_. 1) b = (Inr (bytes_of s), b1)" "sshbuf_inv b1" "contents b1 = strings_bytes a"
    using cod_cstring.get_law[OF Cons.prems(3) _ c] Cons.prems(1) by (auto simp: str_ok_def)
  have "sshbuf_get_cstring alc b = (Inr (bytes_of s), b1)"
    using cstring_alloc[where alc = alc, OF Cons.prems(2) g(1)] .
  moreover have "cstr (bytes_of s) = s" using Cons.prems(1) by (simp add: str_ok_def)
  ultimately show ?case using Cons.IH[OF _ Cons.prems(2) g(2,3)] Cons.prems(1) by simp
qed simp

lemma reads_array:
  assumes "\<forall>s\<in>set a. str_ok s" "\<And>n. alc n \<noteq> NULL" "length a \<le> INT_MAX" "length (strings_bytes a) \<le> 134217724"
  shows "reads (deserialise_array alc at) (array_bytes a) a"
proof -
  let ?n = "word_of_nat (length a) :: u32"
  have n: "unat ?n = length a" using assms(3) by (simp add: unat_of_nat take_bit_eq_mod)
  let ?k = "\<lambda>b m. let m1 = sshbuf_free_view b m in
       if unat ?n > INT_MAX then (Inl SSH_ERR_INVALID_FORMAT, m1)
       else if unat ?n > 0 \<and> alc (word_of_nat (8 * unat ?n)) = NULL then (Inl SSH_ERR_ALLOC_FAIL, m1)
       else (get_cstrings alc (unat ?n) b, m1)"
  have "reads (get_then (sshbuf_froms alc at) ?k) (enc_string (strings_bytes a)) a"
    unfolding reads_def
  proof (intro allI impI)
    fix m rest assume m: "readable m" and c: "contents m = enc_string (strings_bytes a) @ rest"
    have ps: "parse_string (contents m) = Inr (strings_bytes a)" using c assms(4) by simp
    obtain v b where f: "sshbuf_froms alc at m = (Inr v, b\<lparr>b_refcount := b_refcount m + 1\<rparr>)"
      and v: "view_of at (strings_bytes a) v" and b: "sshbuf_inv b" "same_shape m b" "placed b"
        "contents b = drop (4 + length (strings_bytes a)) (contents m)"
      using froms_view[where alc = alc, OF _ _ assms(2) ps] m unfolding readable_def by metis
    have r: "b_refcount m = 1" "b_refcount b = 1" using m b(2) by (simp_all add: readable_def same_shape_def)
    have "sshbuf_free_view v (b\<lparr>b_refcount := b_refcount m + 1\<rparr>) = b"
      using free_view[OF v b(1) r(2)] r by simp
    moreover have "get_cstrings alc (length a) v = Inr a"
      using v by (intro get_cstrings_bytes assms) (simp_all add: view_of_def)
    ultimately have "get_then (sshbuf_froms alc at) ?k m = (Inr a, b)"
      using f assms(2,3) n by (simp add: get_then_def Let_def)
    moreover have "contents b = rest" using b(4) c by simp
    ultimately show "\<exists>m1. get_then (sshbuf_froms alc at) ?k m = (Inr a, m1) \<and> readable m1 \<and> contents m1 = rest"
      using b r by (simp add: readable_def)
  qed
  from reads_then[OF reads_u32, of "\<lambda>tmp. get_then (sshbuf_froms alc at) (\<lambda>b m. let m1 = sshbuf_free_view b m in
       if unat tmp > INT_MAX then (Inl SSH_ERR_INVALID_FORMAT, m1)
       else if unat tmp > 0 \<and> alc (word_of_nat (8 * unat tmp)) = NULL then (Inl SSH_ERR_ALLOC_FAIL, m1)
       else (get_cstrings alc (unat tmp) b, m1))", OF this]
  show ?thesis by (simp add: deserialise_array_def array_bytes_def)
qed

section \<open>The whole record\<close>

definition nullable_bytes :: "string option \<Rightarrow> u8 list" where
  "nullable_bytes s = concat [[if s = None then 1 else 0], enc_string (case s of None \<Rightarrow> [] | Some t \<Rightarrow> bytes_of t)]"

text \<open>The fields in the order of the wire.\<close>

definition authopt_bytes :: "sshauthopt \<Rightarrow> u8 list list" where
  "authopt_bytes ao =
     map (\<lambda>f. [word_of_int f]) [ao_permit_port_forwarding_flag ao, ao_permit_agent_forwarding_flag ao,
       ao_permit_x11_forwarding_flag ao, ao_permit_pty_flag ao, ao_permit_user_rc ao, ao_restricted ao,
       ao_cert_authority ao, ao_no_require_user_presence ao, ao_require_verify ao] @
     [POKE_U64 (ao_valid_before ao), [word_of_int (flag_val (ao_force_tun_device ao = -1))],
      POKE_U32 (if ao_force_tun_device ao < 0 then 0 else word_of_int (ao_force_tun_device ao)),
      nullable_bytes (ao_cert_principals ao), nullable_bytes (ao_force_command ao),
      nullable_bytes (ao_required_from_host_cert ao), nullable_bytes (ao_required_from_host_keys ao),
      array_bytes (ao_env ao), array_bytes (ao_permitopen ao), array_bytes (ao_permitlisten ao)]"

lemma shown_ok: "authopt_ok ao \<Longrightarrow> authopt_ok (shown untrusted ao)"
  by (simp add: authopt_ok_def flag_fields_def text_fields_def shown_def str_ok_def)

lemma reads_flag: "f \<in> {0, 1} \<Longrightarrow> reads (k f) bs x \<Longrightarrow> reads (get_flag k) ([word_of_int f] @ bs) x"
  unfolding get_flag_def using reads_then[OF reads_u8, of "\<lambda>w. k (uint w)" "word_of_int f" bs x] by auto

lemma tun_device:
  assumes "-1 \<le> t" "t \<le> 0x7fffffff"
  shows "(if (word_of_int (flag_val (t = -1)) :: u8) \<noteq> 0 then -1
      else sint (if t < 0 then 0 else word_of_int t :: u32)) = t"
proof (cases "t = -1")
  case False
  then have "signed_take_bit 31 t = t" using assms by (intro signed_take_bit_int_eq_self) auto
  with False assms show ?thesis by (simp add: sint_sbintrunc' flag_val_def)
qed (simp add: flag_val_def)

definition arrays_fit :: "sshauthopt \<Rightarrow> bool" where
  "arrays_fit ao \<longleftrightarrow>
     (\<forall>a \<in> {ao_env ao, ao_permitopen ao, ao_permitlisten ao}. length a \<le> INT_MAX \<and> length (strings_bytes a) \<le> 134217724)"

lemma reads_deserialise:
  assumes ok: "authopt_ok ao" and alc: "\<And>n. alc n \<noteq> NULL" and fit: "arrays_fit ao"
  shows "reads (sshauthopt_deserialise alc at) (concat (authopt_bytes ao)) ao"
proof -
  have flags: "ao_permit_port_forwarding_flag ao \<in> {0, 1}" "ao_permit_agent_forwarding_flag ao \<in> {0, 1}"
    "ao_permit_x11_forwarding_flag ao \<in> {0, 1}" "ao_permit_pty_flag ao \<in> {0, 1}" "ao_permit_user_rc ao \<in> {0, 1}"
    "ao_restricted ao \<in> {0, 1}" "ao_cert_authority ao \<in> {0, 1}" "ao_no_require_user_presence ao \<in> {0, 1}"
    "ao_require_verify ao \<in> {0, 1}"
    using ok by (simp_all add: authopt_ok_def flag_fields_def)
  have nul: "reads (deserialise_nullable_string alc) (nullable_bytes (ao_cert_principals ao)) (ao_cert_principals ao)"
    "reads (deserialise_nullable_string alc) (nullable_bytes (ao_force_command ao)) (ao_force_command ao)"
    "reads (deserialise_nullable_string alc) (nullable_bytes (ao_required_from_host_cert ao)) (ao_required_from_host_cert ao)"
    "reads (deserialise_nullable_string alc) (nullable_bytes (ao_required_from_host_keys ao)) (ao_required_from_host_keys ao)"
    unfolding nullable_bytes_def
    by (rule reads_nullable[where alc = alc, OF _ alc], use ok in \<open>simp add: authopt_ok_def text_fields_def\<close>)+
  have arr: "reads (deserialise_array alc at) (array_bytes (ao_env ao)) (ao_env ao)"
    "reads (deserialise_array alc at) (array_bytes (ao_permitopen ao)) (ao_permitopen ao)"
    "reads (deserialise_array alc at) (array_bytes (ao_permitlisten ao)) (ao_permitlisten ao)"
    by (rule reads_array[where alc = alc, OF _ alc], use ok fit in \<open>simp_all add: authopt_ok_def text_fields_def arrays_fit_def\<close>)+
  have tun: "(if (word_of_int (flag_val (ao_force_tun_device ao = -1)) :: u8) \<noteq> 0 then -1
      else sint (if ao_force_tun_device ao < 0 then 0 else word_of_int (ao_force_tun_device ao) :: u32)) = ao_force_tun_device ao"
    using ok by (intro tun_device) (simp_all add: authopt_ok_def)
  show ?thesis
    unfolding sshauthopt_deserialise_def authopt_bytes_def list.map concat_append concat.simps append_Nil2 append_assoc
    by (intro reads_flag flags reads_then[OF reads_u64] reads_then[OF reads_u8] reads_then[OF reads_u32]
        reads_then[OF nul(1)] reads_then[OF nul(2)] reads_then[OF nul(3)] reads_then[OF nul(4)]
        reads_then[OF arr(1)] reads_then[OF arr(2)] reads_then[OF arr(3), of _ "[]", unfolded append_Nil2])
      (subst tun, rule reads_doneI, simp)
qed

section \<open>With memory and room, the puts work\<close>

lemma write_at_fault: "write_at b p bs = (Inl e, b1) \<Longrightarrow> e = MEM_FAULT"
  by (auto simp: write_at_def split: option.split_asm)

lemma put_string_ok:
  assumes inv: "sshbuf_inv buf" and alc: "\<And>n. alc n \<noteq> NULL" and w: "writable buf"
    and room: "length (contents buf) + (4 + length v) \<le> unat (b_max_size buf)"
  shows "\<exists>b. sshbuf_put_string alc buf v = (Inr (), b)"
proof -
  have m: "unat (b_max_size buf) \<le> 134217728" using inv_bounds[OF inv] by simp
  let ?len = "word_of_nat (length v) :: size_t"
  have u: "unat ?len = length v" "unat (?len + 4) = 4 + length v"
    using room m by (simp_all add: unat_word_ariths unat_of_nat take_bit_eq_mod)
  then have small: "\<not> ?len > SSHBUF_SIZE_MAX - 4" using room m by (simp add: word_less_nat_alt)
  obtain d b where r: "sshbuf_reserve alc buf (?len + 4) = (Inr d, b)"
    using reserve_succeeds_iff[where alc = alc, OF inv alc, of "?len + 4"] w room u by auto
  obtain e b1 where p: "sshbuf_put_string alc buf v = (e, b1)" by fastforce
  show ?thesis
  proof (cases e)
    case (Inl x)
    with p r small have "x = MEM_FAULT"
      by (auto simp: sshbuf_put_string_def Let_def dest: write_at_fault split: prod.split_asm sum.split_asm if_split_asm)
    moreover have "put_post buf (enc_string v) e b1" using room m by (intro put_string_post[OF inv _ p]) simp
    ultimately show ?thesis using Inl by (simp add: put_post_def)
  qed (use p in auto)
qed

definition works :: "(sshbuf \<Rightarrow> unit res \<times> sshbuf) \<Rightarrow> u8 list \<Rightarrow> bool" where
  "works f bs \<longleftrightarrow> (\<forall>m. sshbuf_inv m \<longrightarrow> writable m \<longrightarrow> length (contents m) + length bs \<le> unat (b_max_size m) \<longrightarrow>
     (\<exists>m1. f m = (Inr (), m1) \<and> sshbuf_inv m1 \<and> same_shape m m1 \<and> contents m1 = contents m @ bs))"

lemma worksI:
  assumes "\<And>m. sshbuf_inv m \<Longrightarrow> writable m \<Longrightarrow> length (contents m) + length bs \<le> unat (b_max_size m) \<Longrightarrow> \<exists>m1. f m = (Inr (), m1)"
    and "\<And>m r m1. sshbuf_inv m \<Longrightarrow> f m = (r, m1) \<Longrightarrow> put_post m bs r m1"
  shows "works f bs"
  unfolding works_def
proof (intro allI impI)
  fix m assume m: "sshbuf_inv m" "writable m" "length (contents m) + length bs \<le> unat (b_max_size m)"
  from assms(1)[OF this] obtain m1 where f: "f m = (Inr (), m1)" by blast
  with assms(2)[OF m(1) f] show "\<exists>m1. f m = (Inr (), m1) \<and> sshbuf_inv m1 \<and> same_shape m m1 \<and> contents m1 = contents m @ bs"
    by (simp add: put_post_def)
qed

lemma works_puts: "list_all2 works fs bss \<Longrightarrow> works (puts fs) (concat bss)"
proof (induction fs bss rule: list_all2_induct)
  case Nil
  show ?case by (simp add: works_def)
next
  case (Cons f fs bs bss)
  show ?case unfolding works_def
  proof (intro allI impI)
    fix m assume m: "sshbuf_inv m" "writable m" "length (contents m) + length (concat (bs # bss)) \<le> unat (b_max_size m)"
    then obtain m1 where 1: "f m = (Inr (), m1)" "sshbuf_inv m1" "same_shape m m1" "contents m1 = contents m @ bs"
      using Cons.hyps(1) unfolding works_def by fastforce
    have l: "length (contents m1) = length (contents m) + length bs" using 1(4) by (simp only: length_append)
    have "length (contents m1) + length (concat bss) \<le> unat (b_max_size m1)"
      using m(3) 1(3) l by (simp add: same_shape_def del: length_contents)
    then obtain m2 where "puts fs m1 = (Inr (), m2)" "sshbuf_inv m2" "same_shape m1 m2" "contents m2 = contents m1 @ concat bss"
      using Cons.IH 1(2) same_shape_writable[OF 1(3)] m(2) unfolding works_def by blast
    with 1 show "\<exists>m2. puts (f # fs) m = (Inr (), m2) \<and> sshbuf_inv m2 \<and> same_shape m m2 \<and>
        contents m2 = contents m @ concat (bs # bss)"
      using same_shape_trans[OF 1(3)] by simp
  qed
qed

lemma works_int:
  assumes "\<And>n. alc n \<noteq> NULL"
  shows "works (\<lambda>m. sshbuf_put_u8 alc m v1) [v1]" "works (\<lambda>m. sshbuf_put_u32 alc m v4) (POKE_U32 v4)"
    "works (\<lambda>m. sshbuf_put_u64 alc m v8) (POKE_U64 v8)"
  by (rule worksI, use cod_u8.put_law[OF _ TrueI] cod_u32.put_law[OF _ TrueI] cod_u64.put_law[OF _ TrueI] in
      \<open>auto simp: sshbuf_put_u8_def sshbuf_put_u32_def sshbuf_put_u64_def simp del: length_contents
        intro!: reserve_poke_ok[OF _ assms]\<close>)+

lemma works_string:
  assumes "\<And>n. alc n \<noteq> NULL" "length v \<le> 134217724"
  shows "works (\<lambda>m. sshbuf_put_string alc m v) (enc_string v)"
proof (rule worksI)
  show "\<exists>m1. sshbuf_put_string alc m v = (Inr (), m1)"
    if "sshbuf_inv m" "writable m" "length (contents m) + length (enc_string v) \<le> unat (b_max_size m)" for m
    using put_string_ok[where alc = alc, OF that(1) assms(1) that(2), of v] that(3) by (simp del: length_contents)
  show "put_post m (enc_string v) r m1" if "sshbuf_inv m" "sshbuf_put_string alc m v = (r, m1)" for m r m1
    using put_string_post[OF that(1) _ that(2)] assms(2) by simp
qed

lemma works_text:
  assumes "\<And>n. alc n \<noteq> NULL" "str_ok s"
  shows "works (\<lambda>m. sshbuf_put_cstring alc m (Some (bytes_of s))) (enc_string (bytes_of s))"
proof -
  have "takeWhile (\<lambda>x. x \<noteq> 0) (bytes_of s) = bytes_of s"
    using assms(2) bytes_of_0[of s] by (metis (mono_tags, lifting) str_ok_def takeWhile_eq_all_conv)
  then show ?thesis using works_string[where alc = alc, OF assms(1), of "bytes_of s"] assms(2)
    by (simp add: sshbuf_put_cstring_def str_ok_def del: takeWhile_eq_all_conv)
qed

lemma works_nullable:
  assumes "\<And>n. alc n \<noteq> NULL" "\<And>t. s = Some t \<Longrightarrow> str_ok t"
  shows "works (serialise_nullable_string alc s) (nullable_bytes s)"
proof -
  have "works (\<lambda>m. sshbuf_put_cstring alc m (map_option bytes_of s)) (enc_string (case s of None \<Rightarrow> [] | Some t \<Rightarrow> bytes_of t))"
    using works_text[where alc = alc, OF assms(1)] works_string[where alc = alc, OF assms(1), of "[]"] assms(2)
    by (cases s) (simp_all add: sshbuf_put_cstring_def)
  then show ?thesis unfolding serialise_nullable_string_def nullable_bytes_def
    by (intro works_puts) (simp add: works_int[where alc = alc, OF assms(1)])
qed

lemma new_works:
  assumes "\<And>n. alc n \<noteq> NULL"
  obtains b where "sshbuf_new alc = Some b" "sshbuf_inv b" "contents b = []" "writable b" "unat (b_max_size b) = 134217728"
proof -
  obtain b where "sshbuf_new alc = Some b" using assms by (auto simp: sshbuf_new_def Let_def)
  then show thesis using that assms
    by (auto simp: sshbuf_new_def Let_def inv_iff contents_def writable_def split: if_split_asm)
qed

lemma works_array:
  assumes alc: "\<And>n. alc n \<noteq> NULL" and ok: "\<forall>s\<in>set a. str_ok s" and fit: "length a \<le> INT_MAX" "length (strings_bytes a) \<le> 134217724"
  shows "works (serialise_array alc a) (array_bytes a)"
proof -
  obtain b where b: "sshbuf_new alc = Some b" "sshbuf_inv b" "contents b = []" "writable b" "unat (b_max_size b) = 134217728"
    using new_works[where alc = alc, OF alc] by metis
  have "works (puts (map (\<lambda>s b. sshbuf_put_cstring alc b (Some (bytes_of s))) a)) (strings_bytes a)"
    unfolding strings_bytes_def using ok
    by (intro works_puts) (simp add: list_all2_map1 list_all2_map2 list_all2_same works_text[where alc = alc, OF alc])
  then obtain b1 where b1: "puts (map (\<lambda>s b. sshbuf_put_cstring alc b (Some (bytes_of s))) a) b = (Inr (), b1)"
      "sshbuf_inv b1" "contents b1 = strings_bytes a"
    using b fit unfolding works_def by fastforce
  have "sshbuf_put_stringb alc m (Some b1) = sshbuf_put_string alc m (strings_bytes a)" for m
    by (simp add: sshbuf_put_stringb_def read_whole[OF b1(2)] b1(3))
  then have "works (puts [\<lambda>m. sshbuf_put_u32 alc m (word_of_nat (length a)), \<lambda>m. sshbuf_put_stringb alc m (Some b1)]) (array_bytes a)"
    unfolding array_bytes_def
    by (intro works_puts) (simp add: works_int[where alc = alc, OF alc] works_string[where alc = alc, OF alc] fit)
  moreover have "serialise_array alc a = puts [\<lambda>m. sshbuf_put_u32 alc m (word_of_nat (length a)), \<lambda>m. sshbuf_put_stringb alc m (Some b1)]"
    using b(1) b1(1) fit by (intro ext) (simp add: serialise_array_def del: puts.simps)
  ultimately show ?thesis by simp
qed

lemma works_serialise:
  assumes alc: "\<And>n. alc n \<noteq> NULL" and ok: "authopt_ok ao" and fit: "arrays_fit ao"
  shows "works (sshauthopt_serialise alc ao False) (concat (authopt_bytes ao))"
  unfolding sshauthopt_serialise_def Let_def authopt_bytes_def list.map append.simps if_False
  by (intro works_puts list_all2_Cons[THEN iffD2] conjI list.rel_intros(1) works_int[where alc = alc, OF alc]
      works_nullable[where alc = alc, OF alc] works_array[where alc = alc, OF alc])
    (use ok fit in \<open>simp_all add: authopt_ok_def text_fields_def arrays_fit_def\<close>)

lemma serialise_shown: "sshauthopt_serialise alc ao untrusted = sshauthopt_serialise alc (shown untrusted ao) False"
  by (rule ext) (cases untrusted; simp add: sshauthopt_serialise_def shown_def del: puts.simps)

text \<open>What fits a buffer has arrays that fit.\<close>

lemma strings_bytes_length: "4 * length a \<le> length (strings_bytes a)"
  by (induction a) (simp_all add: strings_bytes_def)

lemma bytes_fit:
  assumes "length (concat (authopt_bytes ao)) \<le> 134217728"
  shows "arrays_fit ao"
proof -
  have l: "length (array_bytes a) = 8 + length (strings_bytes a)" for a by (simp add: array_bytes_def)
  have "length (array_bytes (ao_env ao)) + length (array_bytes (ao_permitopen ao)) + length (array_bytes (ao_permitlisten ao))
      \<le> length (concat (authopt_bytes ao))"
    by (simp add: authopt_bytes_def)
  with assms l have "length (strings_bytes a) \<le> 134217724"
    if "a \<in> {ao_env ao, ao_permitopen ao, ao_permitlisten ao}" for a
    using that by auto
  moreover from this have "length a \<le> INT_MAX" if "a \<in> {ao_env ao, ao_permitopen ao, ao_permitlisten ao}" for a
    using that strings_bytes_length[of a] by fastforce
  ultimately show ?thesis unfolding arrays_fit_def by blast
qed

section \<open>Where a written buffer lies\<close>

text \<open>Writing leaves the bytes where they are or moves them to a block the allocator gave for their new size.\<close>

definition homed :: "(size_t \<Rightarrow> ptr) \<Rightarrow> sshbuf \<Rightarrow> sshbuf \<Rightarrow> bool" where
  "homed alc m m1 \<longleftrightarrow> unmoved m m1 \<or> b_cd m1 = alc (b_alloc m1)"

definition homes :: "(size_t \<Rightarrow> ptr) \<Rightarrow> (sshbuf \<Rightarrow> unit res \<times> sshbuf) \<Rightarrow> bool" where
  "homes alc f \<longleftrightarrow> (\<forall>m r m1. f m = (r, m1) \<longrightarrow> homed alc m m1)"

lemma homed_refl: "homed alc m m"
  by (simp add: homed_def unmoved_refl)

lemma homed_trans: "homed alc m m1 \<Longrightarrow> homed alc m1 m2 \<Longrightarrow> homed alc m m2"
  by (auto simp: homed_def unmoved_def)

lemma homed_placed:
  assumes "homed alc m m1" "placed m" "sshbuf_inv m1"
    and "\<And>n. n \<le> SSHBUF_SIZE_MAX \<Longrightarrow> unat (alc n) + unat n < 2 ^ 64"
  shows "placed m1"
  using assms(1)
proof (unfold homed_def, elim disjE)
  assume "b_cd m1 = alc (b_alloc m1)"
  moreover have "b_alloc m1 \<le> SSHBUF_SIZE_MAX" using inv_bounds[OF assms(3)] by (simp add: word_le_nat_alt)
  ultimately show ?thesis using assms(4)[of "b_alloc m1"] by (simp add: placed_def)
qed (use assms(2) in \<open>simp add: placed_def unmoved_def\<close>)

lemma homes_puts: "list_all (homes alc) fs \<Longrightarrow> homes alc (puts fs)"
proof (induction fs)
  case (Cons f fs)
  then show ?case unfolding homes_def
    by (auto split: prod.split_asm sum.split_asm) (blast intro: homed_trans)+
qed (simp add: homes_def homed_refl)

lemma maybe_pack_unmoved: "unmoved m (sshbuf_maybe_pack m force)"
  by (simp add: sshbuf_maybe_pack_def unmoved_def Let_def)

lemma reserve_homed: "sshbuf_reserve alc m n = (r, m1) \<Longrightarrow> homed alc m m1"
  using maybe_pack_unmoved[of m]
  by (auto simp: sshbuf_reserve_def sshbuf_allocate_def Let_def homed_def unmoved_def
      split: prod.split_asm sum.split_asm if_split_asm)

lemma write_at_homed: "write_at m p bs = (r, m1) \<Longrightarrow> unmoved m m1"
  by (auto simp: write_at_def unmoved_def split: option.split_asm)

lemma homed_unmoved: "homed alc m m1 \<Longrightarrow> unmoved m1 m2 \<Longrightarrow> homed alc m m2"
  by (auto simp: homed_def unmoved_def)

lemma homes_int:
  "homes alc (\<lambda>m. sshbuf_put_u8 alc m v1)" "homes alc (\<lambda>m. sshbuf_put_u32 alc m v4)" "homes alc (\<lambda>m. sshbuf_put_u64 alc m v8)"
  by (auto simp: homes_def sshbuf_put_u8_def sshbuf_put_u32_def sshbuf_put_u64_def reserve_poke_def
      dest!: reserve_homed write_at_homed dest: homed_unmoved split: prod.split_asm sum.split_asm)

lemma homes_string: "homes alc (\<lambda>m. sshbuf_put_string alc m v)"
  by (auto simp: homes_def sshbuf_put_string_def Let_def homed_refl
      dest!: reserve_homed write_at_homed split: prod.split_asm sum.split_asm if_split_asm)
    (blast intro: homed_unmoved)+

lemma homes_text: "homes alc (\<lambda>m. sshbuf_put_cstring alc m s)" "homes alc (\<lambda>m. sshbuf_put_stringb alc m b)"
proof -
  show "homes alc (\<lambda>m. sshbuf_put_cstring alc m s)" by (simp add: sshbuf_put_cstring_def homes_string)
  show "homes alc (\<lambda>m. sshbuf_put_stringb alc m b)"
    using homes_string[of alc] by (auto simp: sshbuf_put_stringb_def homes_def homed_refl split: option.split_asm sum.split_asm)
qed

lemma homes_nullable: "homes alc (serialise_nullable_string alc s)"
  unfolding serialise_nullable_string_def by (rule homes_puts) (simp add: homes_int homes_text)

lemma homes_array: "homes alc (serialise_array alc a)"
proof -
  have "homes alc (puts [\<lambda>m. sshbuf_put_u32 alc m n, \<lambda>m. sshbuf_put_stringb alc m b])" for n b
    by (rule homes_puts) (simp add: homes_int homes_text)
  then show ?thesis unfolding homes_def serialise_array_def
    by (auto simp: homed_refl simp del: puts.simps split: if_split_asm option.split_asm prod.split_asm sum.split_asm)
qed

lemma homes_serialise: "homes alc (sshauthopt_serialise alc ao untrusted)"
  unfolding sshauthopt_serialise_def Let_def
  by (rule homes_puts) (simp add: homes_int homes_nullable homes_array)

end
