(* ===== verification/AuthCert.thy ===== *)
theory AuthCert
  imports AuthMerge SshBufView ChanMux
begin

text \<open>
  The options of a certificate: two buffers of names and values, critical options and extensions
  (\<open>cert_option_list\<close>, \<open>sshauthopt_from_cert\<close>). The options a failed call has filled in are freed by its
  only caller, so a failure is \<open>None\<close>.
\<close>

section \<open>One option\<close>

abbreviation OPTIONS_CRITICAL :: nat where "OPTIONS_CRITICAL \<equiv> 1"
abbreviation OPTIONS_EXTENSIONS :: nat where "OPTIONS_EXTENSIONS \<equiv> 2"

definition extension_option :: "string \<Rightarrow> sshauthopt \<Rightarrow> sshauthopt option" where
  "extension_option name opts =
     (if name = ''no-touch-required'' then Some (opts\<lparr>ao_no_require_user_presence := 1\<rparr>)
      else if name = ''permit-X11-forwarding'' then Some (opts\<lparr>ao_permit_x11_forwarding_flag := 1\<rparr>)
      else if name = ''permit-agent-forwarding'' then Some (opts\<lparr>ao_permit_agent_forwarding_flag := 1\<rparr>)
      else if name = ''permit-port-forwarding'' then Some (opts\<lparr>ao_permit_port_forwarding_flag := 1\<rparr>)
      else if name = ''permit-pty'' then Some (opts\<lparr>ao_permit_pty_flag := 1\<rparr>)
      else if name = ''permit-user-rc'' then Some (opts\<lparr>ao_permit_user_rc := 1\<rparr>)
      else None)"

text \<open>A failure, a name that is not known, or the options with what is left of the value.\<close>

datatype cert_res = Cert_bad | Cert_unknown | Cert_found sshauthopt sshbuf

definition critical_option :: "(size_t \<Rightarrow> ptr) \<Rightarrow> numeric \<Rightarrow> string \<Rightarrow> sshbuf \<Rightarrow> sshauthopt \<Rightarrow> cert_res" where
  "critical_option alc numeric name data opts =
     (if name = ''verify-required'' then Cert_found (opts\<lparr>ao_require_verify := 1\<rparr>) data
      else if name = ''force-command''
      then (case sshbuf_get_cstring alc data of
              (Inl r, _) \<Rightarrow> Cert_bad
            | (Inr command, data1) \<Rightarrow>
              if ao_force_command opts \<noteq> None then Cert_bad
              else Cert_found (opts\<lparr>ao_force_command := Some (cstr command)\<rparr>) data1)
      else if name = ''source-address''
      then (case sshbuf_get_cstring alc data of
              (Inl r, _) \<Rightarrow> Cert_bad
            | (Inr allowed, data1) \<Rightarrow>
              if ao_required_from_host_cert opts \<noteq> None then Cert_bad
              else if addr_match_cidr_list numeric None (cstr allowed) = -1 then Cert_bad
              else Cert_found (opts\<lparr>ao_required_from_host_cert := Some (cstr allowed)\<rparr>) data1)
      else Cert_unknown)"

definition cert_option :: "(size_t \<Rightarrow> ptr) \<Rightarrow> numeric \<Rightarrow> nat \<Rightarrow> string \<Rightarrow> sshbuf \<Rightarrow> sshauthopt \<Rightarrow> cert_res" where
  "cert_option alc numeric which name data opts =
     (case (if which AND OPTIONS_EXTENSIONS \<noteq> 0 then extension_option name opts else None) of
        Some opts1 \<Rightarrow> Cert_found opts1 data
      | None \<Rightarrow>
        if which AND OPTIONS_CRITICAL \<noteq> 0 then critical_option alc numeric name data opts else Cert_unknown)"

section \<open>The list\<close>

text \<open>Each round takes a name and a value from the view, so it gets shorter, whatever the memory holds.\<close>

lemma peek_string_length: "sshbuf_peek_string_direct buf = Inr p \<Longrightarrow> length p \<le> 134217724"
proof -
  assume a: "sshbuf_peek_string_direct buf = Inr p"
  then obtain hdr where "\<not> ucast (PEEK_U32 hdr) > (SSHBUF_SIZE_MAX - 4 :: size_t)"
    and r: "read_at buf (map_option (\<lambda>q. q + 4) (sshbuf_ptr buf)) (unat (ucast (PEEK_U32 hdr) :: size_t)) = Inr p"
    by (auto simp: sshbuf_peek_string_direct_def Let_def split: if_split_asm sum.split_asm)
  then have "unat (ucast (PEEK_U32 hdr) :: size_t) \<le> 134217724" by (simp add: not_less word_le_nat_alt)
  with r show ?thesis
    by (auto simp: read_at_def mem_read_def split: if_split_asm option.split_asm)
qed

lemma consume_len:
  assumes "sshbuf_consume buf len = (Inr u, b)"
  shows "unat (sshbuf_len b) + unat len = unat (sshbuf_len buf)"
proof (cases "len = 0")
  case True
  with assms show ?thesis by (auto simp: sshbuf_consume_def split: sum.split_asm)
next
  case False
  have s: "sshbuf_check_sanity buf = Inr ()" using assms by (auto simp: sshbuf_consume_def split: sum.split_asm)
  have l: "sshbuf_len buf = b_size buf - b_off buf" "len \<le> b_size buf - b_off buf"
    using assms False s by (auto simp: sshbuf_consume_def sshbuf_len_def not_less split: if_split_asm)
  have o: "b_off buf \<le> b_size buf" using s by (simp add: sane_iff)
  then have u: "unat (b_size buf - b_off buf) = unat (b_size buf) - unat (b_off buf)" by (simp add: unat_sub)
  have w: "unat (b_off buf + len) = unat (b_off buf) + unat len"
  proof (rule unat_add_nowrap)
    show "unat (b_off buf) + unat len < 2 ^ 64"
      using l(2) o u unsigned_less[of "b_size buf", where 'a = nat] by (simp add: word_le_nat_alt)
  qed
  have le: "b_off buf + len \<le> b_size buf" using w u l(2) o by (simp add: word_le_nat_alt)
  have b: "b = (if b_off buf + len = b_size buf then buf\<lparr>b_off := 0, b_size := 0\<rparr> else buf\<lparr>b_off := b_off buf + len\<rparr>)"
    using assms False s l by (auto simp: sshbuf_consume_def Let_def split: if_split_asm)
  have "sshbuf_check_sanity b = Inr ()" using s le by (auto simp: b sane_iff)
  then have "sshbuf_len b = b_size b - b_off b" by (simp add: sshbuf_len_def)
  then show ?thesis using l(1) w u le l(2) by (auto simp: b unat_sub word_le_nat_alt)
qed

lemma get_cstring_len:
  assumes "sshbuf_get_cstring alc buf = (Inr v, b)"
  shows "unat (sshbuf_len b) < unat (sshbuf_len buf)"
proof -
  obtain p where p: "sshbuf_peek_string_direct buf = Inr p"
    using assms by (auto simp: sshbuf_get_cstring_def split: sum.split_asm)
  then obtain u where "sshbuf_skip_string buf = (Inr u, b)"
    using assms by (auto simp: sshbuf_get_cstring_def Let_def split: if_split_asm prod.split_asm sum.split_asm)
  then obtain u where c: "sshbuf_consume buf (word_of_nat (length p) + 4) = (Inr u, b)"
    using p by (auto simp: sshbuf_skip_string_def sshbuf_get_string_direct_def split: prod.split_asm sum.split_asm)
  have "unat (word_of_nat (length p) + 4 :: size_t) > 0"
    using peek_string_length[OF p] by (simp add: unat_word_ariths unat_of_nat take_bit_eq_mod)
  then show ?thesis using consume_len[OF c] by simp
qed

lemma froms_len:
  assumes "sshbuf_froms alc at buf = (Inr v, b)"
  shows "unat (sshbuf_len b) \<le> unat (sshbuf_len buf)"
proof -
  obtain len u b1 where c: "sshbuf_consume buf len = (Inr u, b1)"
    and b: "b = b1\<lparr>b_refcount := b_refcount b1 + 1\<rparr>" "sshbuf_check_sanity b1 = Inr ()"
    using assms by (auto simp: sshbuf_froms_def sshbuf_set_parent_def Let_def
        split: sum.split_asm option.split_asm prod.split_asm if_split_asm)
  have "unat (sshbuf_len b) \<le> unat (sshbuf_len b1)" using b by (simp add: sshbuf_len_def)
  then show ?thesis using consume_len[OF c] by simp
qed

lemma free_view_len: "unat (sshbuf_len (sshbuf_free_view v b)) \<le> unat (sshbuf_len b)"
  by (auto simp: sshbuf_free_view_def unref_def sshbuf_len_def)

lemma round_len:
  assumes "sshbuf_get_cstring alc c = (Inr name, c1)" "sshbuf_froms alc at c1 = (Inr data, c2)"
  shows "unat (sshbuf_len (sshbuf_free_view v c2)) < unat (sshbuf_len c)"
  using get_cstring_len[OF assms(1)] froms_len[OF assms(2)] free_view_len[of v c2] by linarith

function cert_options ::
    "(size_t \<Rightarrow> ptr) \<Rightarrow> numeric \<Rightarrow> ptr \<Rightarrow> nat \<Rightarrow> bool \<Rightarrow> sshbuf \<Rightarrow> sshauthopt \<Rightarrow> sshauthopt option" where
  "cert_options alc numeric at which crit c opts =
     (if sshbuf_len c = 0 then Some opts
      else case sshbuf_get_cstring alc c of
        (Inl _, _) \<Rightarrow> None
      | (Inr name, c1) \<Rightarrow>
        (case sshbuf_froms alc at c1 of
           (Inl _, _) \<Rightarrow> None
         | (Inr data, c2) \<Rightarrow>
           (case cert_option alc numeric which (cstr name) data opts of
              Cert_bad \<Rightarrow> None
            | Cert_unknown \<Rightarrow>
              if crit then None else cert_options alc numeric at which crit (sshbuf_free_view data c2) opts
            | Cert_found opts1 data1 \<Rightarrow>
              if sshbuf_len data1 \<noteq> 0 then None
              else cert_options alc numeric at which crit (sshbuf_free_view data1 c2) opts1)))"
  by pat_completeness auto

termination
  by (relation "measure (\<lambda>(alc, numeric, at, which, crit, c, opts). unat (sshbuf_len c))")
    (auto intro: round_len[OF sym sym])

declare cert_options.simps [simp del]

text \<open>\<open>at\<close> is the address of the view the function makes, \<open>oat\<close> that of the buffer.\<close>

definition cert_option_list ::
    "(size_t \<Rightarrow> ptr) \<Rightarrow> numeric \<Rightarrow> ptr \<Rightarrow> ptr \<Rightarrow> sshauthopt \<Rightarrow> sshbuf \<Rightarrow> nat \<Rightarrow> bool \<Rightarrow> sshauthopt option" where
  "cert_option_list alc numeric oat at opts oblob which crit =
     (case sshbuf_fromb alc oat oblob of
        (None, _) \<Rightarrow> None
      | (Some c, _) \<Rightarrow> cert_options alc numeric at which crit c opts)"

section \<open>A certificate\<close>

text \<open>The fields the decisions look at; a plain key is what a file or a signature carries, of any type.\<close>

record 'k sshkey_cert =
  ct_type :: u32
  ct_principals :: "string list"
  ct_valid_after :: u64
  ct_valid_before :: u64
  ct_critical :: sshbuf
  ct_extensions :: sshbuf
  ct_signature_key :: 'k

abbreviation SSH2_CERT_TYPE_USER :: u32 where "SSH2_CERT_TYPE_USER \<equiv> 1"
abbreviation SSH2_CERT_TYPE_HOST :: u32 where "SSH2_CERT_TYPE_HOST \<equiv> 2"

text \<open>The addresses of the certificate's buffers and of the views made of them.\<close>

record cert_places =
  cp_critical :: ptr
  cp_extensions :: ptr
  cp_view :: ptr

definition sshauthopt_from_cert ::
    "(size_t \<Rightarrow> ptr) \<Rightarrow> numeric \<Rightarrow> cert_places \<Rightarrow> 'k sshkey_cert option \<Rightarrow> sshauthopt option" where
  "sshauthopt_from_cert alc numeric pl cert =
     (case cert of
        None \<Rightarrow> None
      | Some ct \<Rightarrow>
        if ct_type ct \<noteq> SSH2_CERT_TYPE_USER then None
        else case cert_option_list alc numeric (cp_critical pl) (cp_view pl) sshauthopt_new (ct_critical ct) OPTIONS_CRITICAL True of
          None \<Rightarrow> None
        | Some ret \<Rightarrow>
          cert_option_list alc numeric (cp_extensions pl) (cp_view pl) ret (ct_extensions ct) OPTIONS_EXTENSIONS False)"

end
