(* ===== verification/AuthKeys.thy ===== *)
theory AuthKeys
  imports AuthCert
begin

text \<open>
  Which public keys may log a user in, and with which options: the lines and files of authorized keys
  and principals (\<open>auth2-pubkeyfile.c\<close>), certificates of trusted authorities and the order in which
  the sources are asked (\<open>auth2-pubkey.c\<close>), the names of the files (\<open>auth.c\<close>). Reading a key from
  text, comparing keys, fingerprints and revocation lists (\<open>sshkey.c\<close>, \<open>krl.c\<close>) are arguments.
\<close>

section \<open>Keys, users and what is asked of the system\<close>

datatype 'k sshkey = Plain 'k | Certified 'k "'k sshkey_cert"

fun cert_of :: "'k sshkey \<Rightarrow> 'k sshkey_cert option" where
  "cert_of (Plain k) = None"
| "cert_of (Certified k ct) = Some ct"

definition sshkey_is_cert :: "'k sshkey \<Rightarrow> bool" where
  "sshkey_is_cert key \<longleftrightarrow> cert_of key \<noteq> None"

record passwd =
  pw_name :: string
  pw_dir :: string
  pw_uid :: u32

record key_options =
  ko_trusted_user_ca_keys :: "string option"
  ko_authorized_principals_file :: "string option"
  ko_authorized_principals_command :: "string option"
  ko_authorized_principals_command_user :: "string option"
  ko_authorized_keys_files :: "string list"
  ko_authorized_keys_command :: "string option"
  ko_authorized_keys_command_user :: "string option"
  ko_revoked_keys_file :: "string option"

text \<open>
  \<open>u_read\<close> is \<open>sshkey_read\<close>: given the key whose type is wanted (none for any type) and a text, the key
  and the text behind it. \<open>u_file\<close> gives the lines of a file that can be opened and passes the checks of
  \<open>auth_openfile\<close>, \<open>u_command\<close> the lines a configured command prints and whether it exits cleanly, \<open>None\<close>
  when it cannot be run; \<open>u_listed\<close> whether an authority is in the file of trusted ones, \<open>u_revoked\<close>
  whether a check against a revocation file does not come out clean.
\<close>

record 'k auth_env =
  u_calls :: opt_calls
  u_numeric :: numeric
  u_alc :: "size_t \<Rightarrow> ptr"
  u_places :: "cert_places"
  u_now :: int
  u_read :: "'k sshkey option \<Rightarrow> string \<Rightarrow> ('k sshkey \<times> string) option"
  u_equal :: "'k sshkey \<Rightarrow> 'k sshkey \<Rightarrow> bool"
  u_equal_public :: "'k sshkey \<Rightarrow> 'k sshkey \<Rightarrow> bool"
  u_fingerprint :: "'k sshkey \<Rightarrow> bool"
  u_revoked :: "'k sshkey \<Rightarrow> string \<Rightarrow> bool"
  u_listed :: "'k \<Rightarrow> string \<Rightarrow> bool"
  u_file :: "string \<Rightarrow> string list option"
  u_command :: "string \<Rightarrow> string \<Rightarrow> 'k sshkey \<Rightarrow> (string list \<times> bool) option"

section \<open>Certificates\<close>

text \<open>\<open>name\<close> is the name that must be among the principals; the time comes from the clock.\<close>

definition sshkey_cert_check_authority ::
    "'k sshkey \<Rightarrow> bool \<Rightarrow> bool \<Rightarrow> bool \<Rightarrow> u64 \<Rightarrow> string option \<Rightarrow> bool" where
  "sshkey_cert_check_authority k want_host require_principal wildcard_pattern verify_time name =
     (case cert_of k of
        None \<Rightarrow> False
      | Some ct \<Rightarrow>
        if want_host \<and> ct_type ct \<noteq> SSH2_CERT_TYPE_HOST then False
        else if \<not> want_host \<and> ct_type ct \<noteq> SSH2_CERT_TYPE_USER then False
        else if verify_time < ct_valid_after ct then False
        else if verify_time \<ge> ct_valid_before ct then False
        else if ct_principals ct = [] then \<not> require_principal
        else (case name of
                None \<Rightarrow> True
              | Some n \<Rightarrow> list_ex (\<lambda>p. if wildcard_pattern then match_pattern p n else n = p) (ct_principals ct)))"

definition sshkey_cert_check_authority_now ::
    "int \<Rightarrow> 'k sshkey \<Rightarrow> bool \<Rightarrow> bool \<Rightarrow> bool \<Rightarrow> string option \<Rightarrow> bool" where
  "sshkey_cert_check_authority_now now k want_host require_principal wildcard_pattern name =
     (if now < 0 then False
      else sshkey_cert_check_authority k want_host require_principal wildcard_pattern (word_of_int now) name)"

section \<open>Lines of authorized principals\<close>

definition blank :: "char \<Rightarrow> bool" where
  "blank c \<longleftrightarrow> c = CHR '' '' \<or> c = CHR 0x09"

definition skip_space :: "string \<Rightarrow> string" where
  "skip_space cp = dropWhile blank cp"

text \<open>The text up to and behind the last of a character: \<open>strrchr\<close>, the rest beginning with it.\<close>

definition strrchr :: "char \<Rightarrow> string \<Rightarrow> string option" where
  "strrchr c s = (if c \<in> set s then Some (c # rev (takeWhile (\<lambda>d. d \<noteq> c) (rev s))) else None)"

definition trim_end :: "string \<Rightarrow> string" where
  "trim_end cp = (case cp of [] \<Rightarrow> [] | c # s \<Rightarrow> c # rev (dropWhile (\<lambda>d. blank d \<or> d = CHR 0x0A) (rev s)))"

definition auth_check_principals_line :: "opt_calls \<Rightarrow> string \<Rightarrow> string list \<Rightarrow> sshauthopt option" where
  "auth_check_principals_line k cp0 principals =
     (let cp = trim_end cp0;
          ep = (case strrchr (CHR '' '') cp of Some ep \<Rightarrow> Some ep | None \<Rightarrow> strrchr (CHR 0x09) cp);
          (line_opts, name) = (case ep of None \<Rightarrow> (None, cp) | Some ep \<Rightarrow> (Some cp, skip_space ep))
      in case sshauthopt_parse k line_opts of
           Inl reason \<Rightarrow> None
         | Inr opts \<Rightarrow> if list_ex (\<lambda>p. name = p) principals then Some opts else None)"

text \<open>The first line that names a principal wins; the file is read to its end all the same.\<close>

fun auth_process_principals :: "opt_calls \<Rightarrow> string list \<Rightarrow> string list \<Rightarrow> sshauthopt option" where
  "auth_process_principals k [] principals = None"
| "auth_process_principals k (line # rest) principals =
     (let cp = takeWhile (\<lambda>c. c \<noteq> CHR ''#'') (skip_space line) in
      if cp = [] \<or> hd cp = CHR 0x0A then auth_process_principals k rest principals
      else case auth_check_principals_line k cp principals of
        Some opts \<Rightarrow> Some opts
      | None \<Rightarrow> auth_process_principals k rest principals)"

section \<open>Lines of authorized keys\<close>

fun advance_options :: "bool \<Rightarrow> string \<Rightarrow> string option" where
  "advance_options inside [] = (if inside then None else Some [])"
| "advance_options inside (c # s) =
     (if \<not> inside \<and> blank c then Some (c # s)
      else if c = CHR 0x5C \<and> s \<noteq> [] \<and> hd s = CHR 0x22 then advance_options inside (tl s)
      else if c = CHR 0x22 then advance_options (\<not> inside) s
      else advance_options inside s)"

definition sshkey_advance_past_options :: "string \<Rightarrow> string option" where
  "sshkey_advance_past_options cp = advance_options False cp"

text \<open>The key on a line, and the text of its options.\<close>

definition line_key :: "'k auth_env \<Rightarrow> 'k sshkey option \<Rightarrow> string \<Rightarrow> ('k sshkey \<times> string option) option" where
  "line_key u want cp =
     (case u_read u want cp of
        Some (found, _) \<Rightarrow> Some (found, None)
      | None \<Rightarrow>
        (case sshkey_advance_past_options cp of
           None \<Rightarrow> None
         | Some cp1 \<Rightarrow>
           (case u_read u want (skip_space cp1) of
              None \<Rightarrow> None
            | Some (found, _) \<Rightarrow> Some (found, Some cp))))"

text \<open>What a certificate needs beside an authority that matches: the options of the certificate itself.\<close>

definition accept_cert ::
    "'k auth_env \<Rightarrow> passwd \<Rightarrow> 'k sshkey \<Rightarrow> sshauthopt \<Rightarrow> string \<Rightarrow> string \<Rightarrow> sshauthopt option" where
  "accept_cert u pw key keyopts remote_ip remote_host =
     (case sshauthopt_from_cert (u_alc u) (u_numeric u) (u_places u) (cert_of key) of
        None \<Rightarrow> None
      | Some certopts \<Rightarrow>
        if \<not> auth_authorise_keyopts (u_numeric u) (u_now u) certopts False remote_ip remote_host then None
        else case sshauthopt_merge keyopts certopts of
          Inl reason \<Rightarrow> None
        | Inr finalopts \<Rightarrow>
          if (case ao_cert_principals keyopts of None \<Rightarrow> False
              | Some list \<Rightarrow> \<not> match_principals_option list (case cert_of key of None \<Rightarrow> [] | Some ct \<Rightarrow> ct_principals ct))
          then None
          else if \<not> sshkey_cert_check_authority_now (u_now u) key False False False
                       (if ao_cert_principals keyopts = None then Some (pw_name pw) else None)
          then None
          else Some finalopts)"

text \<open>Does the key of the line stand for the key that is offered?\<close>

definition key_matches :: "'k auth_env \<Rightarrow> 'k sshkey \<Rightarrow> 'k sshkey \<Rightarrow> sshauthopt \<Rightarrow> bool" where
  "key_matches u found key keyopts =
     (case key of
        Certified k ct \<Rightarrow> u_equal u found (Plain (ct_signature_key ct)) \<and> ao_cert_authority keyopts \<noteq> 0
      | Plain k \<Rightarrow> u_equal u found key \<and> ao_cert_authority keyopts = 0)"

definition auth_check_authkey_line ::
    "'k auth_env \<Rightarrow> passwd \<Rightarrow> 'k sshkey \<Rightarrow> string \<Rightarrow> string \<Rightarrow> string \<Rightarrow> sshauthopt option run" where
  "auth_check_authkey_line u pw key cp remote_ip remote_host =
     (case line_key u (if sshkey_is_cert key then None else Some key) cp of
        None \<Rightarrow> Done None
      | Some (found, key_options) \<Rightarrow>
        (case sshauthopt_parse (u_calls u) key_options of
           Inl reason \<Rightarrow> Done None
         | Inr keyopts \<Rightarrow>
           if \<not> key_matches u found key keyopts then Done None
           else if \<not> u_fingerprint u found then Fatal
           else if \<not> auth_authorise_keyopts (u_numeric u) (u_now u) keyopts (sshkey_is_cert key) remote_ip remote_host
           then Done None
           else if \<not> sshkey_is_cert key then Done (Some keyopts)
           else Done (accept_cert u pw key keyopts remote_ip remote_host)))"

fun auth_check_authkeys_file ::
    "'k auth_env \<Rightarrow> passwd \<Rightarrow> string list \<Rightarrow> 'k sshkey \<Rightarrow> string \<Rightarrow> string \<Rightarrow> sshauthopt option run" where
  "auth_check_authkeys_file u pw [] key remote_ip remote_host = Done None"
| "auth_check_authkeys_file u pw (line # rest) key remote_ip remote_host =
     (let cp = skip_space line in
      if cp = [] \<or> hd cp = CHR 0x0A \<or> hd cp = CHR ''#''
      then auth_check_authkeys_file u pw rest key remote_ip remote_host
      else andThen (auth_check_authkey_line u pw key cp remote_ip remote_host)
             (\<lambda>r. case r of
                Some opts \<Rightarrow> Done (Some opts)
              | None \<Rightarrow> auth_check_authkeys_file u pw rest key remote_ip remote_host))"

section \<open>Names of files\<close>

text \<open>What \<open>printf\<close> makes of a number.\<close>

fun decimal :: "nat \<Rightarrow> string" where
  "decimal n = (if n < 10 then [char_of (48 + n)] else decimal (n div 10) @ [char_of (48 + n mod 10)])"

declare decimal.simps [simp del]

fun percent_expand :: "(string \<times> string) list \<Rightarrow> string \<Rightarrow> string option" where
  "percent_expand keys [] = Some []"
| "percent_expand keys (c # s) =
     (if c \<noteq> CHR ''%'' then map_option (\<lambda>r. c # r) (percent_expand keys s)
      else case s of
        [] \<Rightarrow> None
      | d # s1 \<Rightarrow>
        if d = CHR ''%'' then map_option (\<lambda>r. d # r) (percent_expand keys s1)
        else case find (\<lambda>kr. d \<in> set (fst kr)) keys of
          None \<Rightarrow> None
        | Some kr \<Rightarrow> map_option (\<lambda>r. snd kr @ r) (percent_expand keys s1))"

definition path_absolute :: "string \<Rightarrow> bool" where
  "path_absolute path \<longleftrightarrow> path \<noteq> [] \<and> hd path = CHR ''/''"

abbreviation PATH_MAX :: nat where "PATH_MAX \<equiv> 4096"

definition expand_authorized_keys :: "string \<Rightarrow> passwd \<Rightarrow> string run" where
  "expand_authorized_keys filename pw =
     (case percent_expand [(''h'', pw_dir pw), (''u'', pw_name pw), (''U'', decimal (unat (pw_uid pw)))] filename of
        None \<Rightarrow> Fatal
      | Some file \<Rightarrow>
        if path_absolute file then Done file
        else let ret = pw_dir pw @ ''/'' @ file in if length ret \<ge> PATH_MAX then Fatal else Done ret)"

definition authorized_principals_file :: "key_options \<Rightarrow> passwd \<Rightarrow> string option run" where
  "authorized_principals_file opts pw =
     (case ko_authorized_principals_file opts of
        None \<Rightarrow> Done None
      | Some f \<Rightarrow> andThen (expand_authorized_keys f pw) (\<lambda>file. Done (Some file)))"

section \<open>The sources in their order\<close>

definition auth_key_is_revoked :: "'k auth_env \<Rightarrow> key_options \<Rightarrow> 'k sshkey \<Rightarrow> bool" where
  "auth_key_is_revoked u opts key =
     (case ko_revoked_keys_file opts of
        None \<Rightarrow> False
      | Some f \<Rightarrow> if \<not> u_fingerprint u key then True else u_revoked u key f)"

definition user_key_allowed2 ::
    "'k auth_env \<Rightarrow> passwd \<Rightarrow> 'k sshkey \<Rightarrow> string \<Rightarrow> string \<Rightarrow> string \<Rightarrow> sshauthopt option run" where
  "user_key_allowed2 u pw key file remote_ip remote_host =
     (case u_file u file of
        None \<Rightarrow> Done None
      | Some lines \<Rightarrow> auth_check_authkeys_file u pw lines key remote_ip remote_host)"

text \<open>What a command printed counts only when it exits cleanly.\<close>

definition run_command ::
    "'k auth_env \<Rightarrow> passwd \<Rightarrow> string option \<Rightarrow> string option \<Rightarrow> 'k sshkey \<Rightarrow>
     (string list \<Rightarrow> sshauthopt option run) \<Rightarrow> sshauthopt option run" where
  "run_command u pw command user key f =
     (case (command, user) of
        (Some cmd, Some usr) \<Rightarrow>
          (case percent_expand [(''u'', pw_name pw)] usr of
             None \<Rightarrow> Fatal
           | Some username \<Rightarrow>
             (case u_command u cmd username key of
                None \<Rightarrow> Done None
              | Some (lines, clean) \<Rightarrow> andThen (f lines) (\<lambda>r. Done (if clean then r else None))))
      | _ \<Rightarrow> Done None)"

definition user_key_command_allowed2 ::
    "'k auth_env \<Rightarrow> key_options \<Rightarrow> passwd \<Rightarrow> 'k sshkey \<Rightarrow> string \<Rightarrow> string \<Rightarrow> sshauthopt option run" where
  "user_key_command_allowed2 u opts pw key remote_ip remote_host =
     run_command u pw (ko_authorized_keys_command opts) (ko_authorized_keys_command_user opts) key
       (\<lambda>lines. auth_check_authkeys_file u pw lines key remote_ip remote_host)"

definition match_principals_file :: "'k auth_env \<Rightarrow> string \<Rightarrow> 'k sshkey_cert \<Rightarrow> sshauthopt option" where
  "match_principals_file u file ct =
     (case u_file u file of
        None \<Rightarrow> None
      | Some lines \<Rightarrow> auth_process_principals (u_calls u) lines (ct_principals ct))"

definition match_principals_command ::
    "'k auth_env \<Rightarrow> key_options \<Rightarrow> passwd \<Rightarrow> 'k sshkey \<Rightarrow> 'k sshkey_cert \<Rightarrow> sshauthopt option run" where
  "match_principals_command u opts pw key ct =
     run_command u pw (ko_authorized_principals_command opts) (ko_authorized_principals_command_user opts) key
       (\<lambda>lines. Done (auth_process_principals (u_calls u) lines (ct_principals ct)))"

text \<open>The decision on a certificate of a trusted authority, once the principals have been looked up.\<close>

definition trusted_ca_decision ::
    "'k auth_env \<Rightarrow> passwd \<Rightarrow> 'k sshkey \<Rightarrow> bool \<Rightarrow> sshauthopt option \<Rightarrow> string \<Rightarrow> string \<Rightarrow> sshauthopt option" where
  "trusted_ca_decision u pw key use_authorized_principals principals_opts remote_ip remote_host =
     (if principals_opts = None \<and> use_authorized_principals then None
      else if \<not> sshkey_cert_check_authority_now (u_now u) key False True False
                   (if use_authorized_principals then None else Some (pw_name pw))
      then None
      else case sshauthopt_from_cert (u_alc u) (u_numeric u) (u_places u) (cert_of key) of
        None \<Rightarrow> None
      | Some cert_opts \<Rightarrow>
        if \<not> auth_authorise_keyopts (u_numeric u) (u_now u) cert_opts False remote_ip remote_host then None
        else case principals_opts of
          None \<Rightarrow> Some cert_opts
        | Some po \<Rightarrow>
          if \<not> auth_authorise_keyopts (u_numeric u) (u_now u) po False remote_ip remote_host then None
          else case sshauthopt_merge po cert_opts of Inl reason \<Rightarrow> None | Inr final_opts \<Rightarrow> Some final_opts)"

definition user_cert_trusted_ca ::
    "'k auth_env \<Rightarrow> key_options \<Rightarrow> passwd \<Rightarrow> 'k sshkey \<Rightarrow> string \<Rightarrow> string \<Rightarrow> sshauthopt option run" where
  "user_cert_trusted_ca u opts pw key remote_ip remote_host =
     (case (cert_of key, ko_trusted_user_ca_keys opts) of
        (Some ct, Some cas) \<Rightarrow>
          if \<not> u_fingerprint u (Plain (ct_signature_key ct)) then Done None
          else if \<not> u_listed u (ct_signature_key ct) cas then Done None
          else andThen (authorized_principals_file opts pw) (\<lambda>principals_file.
            let found = (case principals_file of None \<Rightarrow> None | Some f \<Rightarrow> match_principals_file u f ct) in
            andThen (if found = None then match_principals_command u opts pw key ct else Done found) (\<lambda>principals_opts.
              Done (trusted_ca_decision u pw key
                (principals_file \<noteq> None \<or> ko_authorized_principals_command opts \<noteq> None)
                principals_opts remote_ip remote_host)))
      | _ \<Rightarrow> Done None)"

fun allowed_by_files ::
    "'k auth_env \<Rightarrow> passwd \<Rightarrow> 'k sshkey \<Rightarrow> string list \<Rightarrow> string \<Rightarrow> string \<Rightarrow> sshauthopt option run" where
  "allowed_by_files u pw key [] remote_ip remote_host = Done None"
| "allowed_by_files u pw key (f # fs) remote_ip remote_host =
     (if lowercase f = ''none'' then allowed_by_files u pw key fs remote_ip remote_host
      else andThen (expand_authorized_keys f pw) (\<lambda>file.
        andThen (user_key_allowed2 u pw key file remote_ip remote_host) (\<lambda>r. case r of
            Some opts \<Rightarrow> Done (Some opts)
          | None \<Rightarrow> allowed_by_files u pw key fs remote_ip remote_host)))"

definition user_key_allowed ::
    "'k auth_env \<Rightarrow> key_options \<Rightarrow> passwd \<Rightarrow> 'k sshkey \<Rightarrow> string \<Rightarrow> string \<Rightarrow> sshauthopt option run" where
  "user_key_allowed u opts pw key remote_ip remote_host =
     (if auth_key_is_revoked u opts key then Done None
      else if (case cert_of key of None \<Rightarrow> False | Some ct \<Rightarrow> auth_key_is_revoked u opts (Plain (ct_signature_key ct)))
      then Done None
      else andThen (allowed_by_files u pw key (ko_authorized_keys_files opts) remote_ip remote_host) (\<lambda>r. case r of
          Some ao \<Rightarrow> Done (Some ao)
        | None \<Rightarrow>
          andThen (user_cert_trusted_ca u opts pw key remote_ip remote_host) (\<lambda>r. case r of
              Some ao \<Rightarrow> Done (Some ao)
            | None \<Rightarrow> user_key_command_allowed2 u opts pw key remote_ip remote_host)))"

end
