(* ===== verification/AuthReq.thy ===== *)
theory AuthReq
  imports AuthKeys
begin

text \<open>
  The state of an authentication and the lists of methods it has to go through (\<open>auth2.c\<close>).
  The server is built as the gateway's image builds it, without PAM, GSSAPI and Kerberos.
\<close>

section \<open>State\<close>

datatype reply =
    Service_accept string
  | Banner string
  | Userauth_success
  | Userauth_failure string bool
  | Userauth_pk_ok string "u8 list"
  | Info_request string string "(string \<times> bool) list"
  | Unimplemented

text \<open>The handler of a packet type: the one that reports an error, none, the one of the type, the one that ignores.\<close>

datatype disp = Protocol_error | No_handler | Handled | Ignored

text \<open>The answers of a keyboard-interactive dialogue that is under way.\<close>

record kbdint =
  kb_devices :: "string option"
  kb_ctxt :: bool
  kb_device :: "string option"
  kb_nreq :: u32
  kb_devices_done :: u32

text \<open>
  The context of an authentication, and the globals that live as long: \<open>auth_opts\<close>, \<open>none_enabled\<close>,
  \<open>options.auth_methods\<close>, whether the age of the password was looked at, the handlers registered for a
  request and for an answer to a challenge, and the packets sent.
\<close>

record 'k authctxt =
  au_success :: bool
  au_postponed :: bool
  au_valid :: bool
  au_attempt :: int
  au_failures :: int
  au_server_caused_failure :: bool
  au_force_pwchange :: bool
  au_user :: "string option"
  au_service :: "string option"
  au_style :: "string option"
  au_pw :: passwd
  au_auth_methods :: "string list"
  au_kbdint :: "kbdint option"
  au_prev_keys :: "'k sshkey list"
  au_method_key :: "'k sshkey option"
  au_method_info :: "string option"
  au_session_info :: "(string \<times> string option \<times> 'k sshkey option \<times> string option) list"
  au_opts :: "sshauthopt option"
  au_none_enabled :: bool
  au_config_methods :: "string list"
  au_expire_checked :: bool
  au_requests :: disp
  au_info_response :: disp
  au_replies :: "reply list"

definition send :: "reply \<Rightarrow> 'k authctxt \<Rightarrow> 'k authctxt" where
  "send r au = au\<lparr>au_replies := au_replies au @ [r]\<rparr>"

datatype root_login = PERMIT_NO | PERMIT_FORCED_ONLY | PERMIT_NO_PASSWD | PERMIT_YES

record auth2_options =
  w_keys :: key_options
  w_password_authentication :: bool
  w_pubkey_authentication :: bool
  w_kbd_interactive_authentication :: bool
  w_hostbased_authentication :: bool
  w_permit_empty_passwd :: bool
  w_max_authtries :: int
  w_permit_root_login :: root_login
  w_pubkey_accepted_algos :: string
  w_hostbased_accepted_algos :: string
  w_touch_required :: bool
  w_verify_required :: bool
  w_devices :: "string list"

section \<open>Methods\<close>

definition authmethods :: "(string \<times> string option) list" where
  "authmethods = [(''none'', None), (''publickey'', Some ''publickey-hostbound-v00@openssh.com''),
     (''password'', None), (''keyboard-interactive'', None), (''hostbased'', None)]"

definition method_enabled :: "auth2_options \<Rightarrow> 'k authctxt \<Rightarrow> string \<Rightarrow> bool" where
  "method_enabled w au name =
     (if name = ''none'' then au_none_enabled au
      else if name = ''publickey'' then w_pubkey_authentication w
      else if name = ''password'' then w_password_authentication w
      else if name = ''keyboard-interactive'' then w_kbd_interactive_authentication w
      else name = ''hostbased'' \<and> w_hostbased_authentication w)"

datatype list_match = MATCH_NONE | MATCH_METHOD | MATCH_BOTH | MATCH_PARTIAL

text \<open>Does a list of methods begin with this one?\<close>

definition at_comma :: "string \<Rightarrow> bool" where
  "at_comma p \<longleftrightarrow> p = [] \<or> hd p = CHR '',''"

definition list_starts_with :: "string \<Rightarrow> string \<Rightarrow> string option \<Rightarrow> list_match" where
  "list_starts_with methods method submethod =
     (if take (length method) methods \<noteq> method then MATCH_NONE
      else
        let p = drop (length method) methods in
        if p \<noteq> [] \<and> hd p = CHR '':''
        then (case submethod of
                None \<Rightarrow> MATCH_PARTIAL
              | Some sub \<Rightarrow>
                if take (length sub) (tl p) \<noteq> sub then MATCH_NONE
                else if at_comma (drop (length sub) (tl p)) then MATCH_BOTH else MATCH_NONE)
        else if at_comma p then MATCH_METHOD else MATCH_NONE)"

definition remove_method :: "string \<Rightarrow> string \<Rightarrow> string option \<Rightarrow> string option" where
  "remove_method methods method submethod =
     (let m = list_starts_with methods method submethod in
      if m \<noteq> MATCH_METHOD \<and> m \<noteq> MATCH_BOTH then None
      else
        let p = drop (length method) methods;
            p1 = (case submethod of Some sub \<Rightarrow> if m = MATCH_BOTH then drop (1 + length sub) p else p | None \<Rightarrow> p)
        in Some (if p1 \<noteq> [] \<and> hd p1 = CHR '','' then tl p1 else p1))"

text \<open>The lists after a success, whether one began with the method, and whether one is complete.\<close>

fun update_lists :: "string list \<Rightarrow> string \<Rightarrow> string option \<Rightarrow> string list \<times> bool \<times> bool" where
  "update_lists [] method submethod = ([], False, False)"
| "update_lists (m # ms) method submethod =
     (case remove_method m method submethod of
        None \<Rightarrow> (case update_lists ms method submethod of (ms1, found, complete) \<Rightarrow> (m # ms1, found, complete))
      | Some m1 \<Rightarrow>
        if m1 = [] then (m1 # ms, True, True)
        else (case update_lists ms method submethod of (ms1, found, complete) \<Rightarrow> (m1 # ms1, True, complete)))"

definition auth2_update_methods_lists ::
    "string \<Rightarrow> string option \<Rightarrow> 'k authctxt \<Rightarrow> (bool \<times> 'k authctxt) run" where
  "auth2_update_methods_lists method submethod au =
     (case update_lists (au_auth_methods au) method submethod of
        (ms, found, complete) \<Rightarrow>
          if complete then Done (True, au\<lparr>au_auth_methods := ms\<rparr>)
          else if \<not> found then Fatal
          else Done (False, au\<lparr>au_auth_methods := ms\<rparr>))"

definition auth2_method_allowed :: "'k authctxt \<Rightarrow> string \<Rightarrow> string option \<Rightarrow> bool" where
  "auth2_method_allowed au method submethod =
     (if au_config_methods au = [] then True
      else list_ex (\<lambda>m. list_starts_with m method submethod \<noteq> MATCH_NONE) (au_auth_methods au))"

definition authmethods_get :: "auth2_options \<Rightarrow> 'k authctxt \<Rightarrow> string" where
  "authmethods_get w au =
     dash_join '','' (filter (\<lambda>name. name \<noteq> ''none'' \<and> method_enabled w au name \<and> auth2_method_allowed au name None)
       (map fst authmethods))"

definition authmethod_byname :: "string \<Rightarrow> string option" where
  "authmethod_byname name = map_option fst (find (\<lambda>m. name = fst m \<or> snd m = Some name) authmethods)"

definition authmethod_lookup :: "auth2_options \<Rightarrow> 'k authctxt \<Rightarrow> string \<Rightarrow> string option" where
  "authmethod_lookup w au name =
     (case authmethod_byname name of
        None \<Rightarrow> None
      | Some m \<Rightarrow> if \<not> method_enabled w au m then None else if \<not> auth2_method_allowed au m None then None else Some m)"

definition auth2_methods_valid :: "auth2_options \<Rightarrow> 'k authctxt \<Rightarrow> string \<Rightarrow> bool \<Rightarrow> bool" where
  "auth2_methods_valid w au methods need_enable =
     (methods \<noteq> [] \<and>
      list_all (\<lambda>m. let name = takeWhile (\<lambda>c. c \<noteq> CHR '':'') m in
          name \<in> set (map fst authmethods) \<and> (need_enable \<longrightarrow> method_enabled w au name))
        (strsep_tokens methods))"

text \<open>Whether there is a list left; the pseudo-method \<open>any\<close> goes away.\<close>

definition auth2_setup_methods_lists :: "auth2_options \<Rightarrow> 'k authctxt \<Rightarrow> bool \<times> 'k authctxt" where
  "auth2_setup_methods_lists w au =
     (let au1 = (if au_config_methods au = [''any''] then au\<lparr>au_config_methods := []\<rparr> else au) in
      if au_config_methods au1 = [] then (True, au1)
      else
        let ms = filter (\<lambda>m. auth2_methods_valid w au1 m True) (au_config_methods au1)
        in (ms \<noteq> [], au1\<lparr>au_auth_methods := ms\<rparr>))"

section \<open>Records of what was used\<close>

definition auth2_authctxt_reset_info :: "'k authctxt \<Rightarrow> 'k authctxt" where
  "auth2_authctxt_reset_info au = au\<lparr>au_method_key := None, au_method_info := None\<rparr>"

definition auth2_record_key :: "bool \<Rightarrow> 'k sshkey \<Rightarrow> 'k authctxt \<Rightarrow> 'k authctxt run" where
  "auth2_record_key authenticated key au =
     (let au1 = au\<lparr>au_method_key := Some key\<rparr> in
      if \<not> authenticated then Done au1
      else if int (length (au_prev_keys au1)) \<ge> 0x7fffffff then Fatal
      else Done (au1\<lparr>au_prev_keys := au_prev_keys au1 @ [key]\<rparr>))"

definition auth2_key_already_used :: "'k auth_env \<Rightarrow> 'k authctxt \<Rightarrow> 'k sshkey \<Rightarrow> bool" where
  "auth2_key_already_used u au key = list_ex (\<lambda>k. u_equal_public u key k) (au_prev_keys au)"

text \<open>A line for the session: the method, its submethod, the key and the information.\<close>

definition auth2_update_session_info :: "string \<Rightarrow> string option \<Rightarrow> 'k authctxt \<Rightarrow> 'k authctxt run" where
  "auth2_update_session_info method submethod au =
     (if (case au_method_info au of None \<Rightarrow> False | Some i \<Rightarrow> CHR 0x0A \<in> set i) then Fatal
      else Done (au\<lparr>au_session_info := au_session_info au @ [(method, submethod, au_method_key au, au_method_info au)]\<rparr>))"

end
