(* ===== verification/AuthMeth.thy ===== *)
theory AuthMeth
  imports AuthReq
begin

text \<open>
  The methods: none and password (\<open>auth2-none.c\<close>, \<open>auth2-passwd.c\<close>, \<open>auth-passwd.c\<close>), public key
  (\<open>auth2-pubkey.c\<close>), host based (\<open>auth2-hostbased.c\<close>), keyboard-interactive (\<open>auth2-kbdint.c\<close>,
  \<open>auth2-chall.c\<close>). The result says whether the method succeeds.
\<close>

section \<open>What the methods ask\<close>

text \<open>
  Users and passwords, the parsing and verification of keys (\<open>sshkey.c\<close>), the session's identifier and
  the server's key of the key exchange, the client's address and name, whether a host's key is known, and
  the devices of a challenge: whether one starts, its next prompts, and what it says to the answers.
\<close>

record 'k auth_sys = "'k auth_env" +
  z_getpwnamallow :: "string \<Rightarrow> passwd option"
  z_fakepw :: passwd
  z_banner :: "string option"
  z_sys_auth_passwd :: "string \<Rightarrow> bool"
  z_pwexpired :: bool
  z_type_from_name :: "string \<Rightarrow> int option"
  z_type :: "'k sshkey \<Rightarrow> int"
  z_from_blob :: "u8 list \<Rightarrow> 'k sshkey option"
  z_put_key :: "'k sshkey \<Rightarrow> u8 list"
  z_sigtype_ok :: "'k sshkey \<Rightarrow> bool"
  z_rsa_length_ok :: "'k sshkey \<Rightarrow> bool"
  z_verify :: "'k sshkey \<Rightarrow> u8 list \<Rightarrow> u8 list \<Rightarrow> string option \<Rightarrow> (u32 \<times> u8) option option"
  z_session_id :: "u8 list"
  z_initial_hostkey :: "'k sshkey option"
  z_compat :: u32
  z_remote_ip :: string
  z_remote_host :: string
  z_hostbased_key_allowed :: "passwd \<Rightarrow> string \<Rightarrow> string \<Rightarrow> 'k sshkey \<Rightarrow> bool"
  z_dev_init :: "string \<Rightarrow> bool"
  z_dev_query :: "string \<Rightarrow> (string \<times> string \<times> (string \<times> bool) list) option"
  z_dev_respond :: "string \<Rightarrow> string list \<Rightarrow> int"

text \<open>A read whose failure is fatal, and the end of the packet.\<close>

definition must :: "(sshbuf \<Rightarrow> 'v res \<times> sshbuf) \<Rightarrow> sshbuf \<Rightarrow> ('v \<Rightarrow> sshbuf \<Rightarrow> 'a run) \<Rightarrow> 'a run" where
  "must get p k = (case get p of (Inl r, _) \<Rightarrow> Fatal | (Inr v, p1) \<Rightarrow> k v p1)"

definition must_end :: "sshbuf \<Rightarrow> 'a run \<Rightarrow> 'a run" where
  "must_end p m = (if sshbuf_len p > 0 then Fatal else m)"

text \<open>A new buffer, and puts that must all work.\<close>

definition with_new :: "(size_t \<Rightarrow> ptr) \<Rightarrow> (sshbuf \<Rightarrow> 'a run) \<Rightarrow> 'a run" where
  "with_new alc k = (case sshbuf_new alc of None \<Rightarrow> Fatal | Some b \<Rightarrow> k b)"

definition must_put :: "(sshbuf \<Rightarrow> unit res \<times> sshbuf) list \<Rightarrow> sshbuf \<Rightarrow> (sshbuf \<Rightarrow> 'a run) \<Rightarrow> 'a run" where
  "must_put fs b k = (case puts fs b of (Inl r, _) \<Rightarrow> Fatal | (Inr _, b1) \<Rightarrow> k b1)"

section \<open>Passwords\<close>

abbreviation MAX_PASSWORD_LEN :: nat where "MAX_PASSWORD_LEN \<equiv> 1024"

text \<open>An expired password restricts the session, right or wrong.\<close>

definition auth_password :: "'k auth_sys \<Rightarrow> auth2_options \<Rightarrow> string \<Rightarrow> 'k authctxt \<Rightarrow> (bool \<times> 'k authctxt) run" where
  "auth_password z w password au =
     (let ok = (au_valid au \<and> \<not> (pw_uid (au_pw au) = 0 \<and> w_permit_root_login w \<noteq> PERMIT_YES)) in
      if length password > MAX_PASSWORD_LEN then Done (False, au)
      else if password = [] \<and> \<not> w_permit_empty_passwd w then Done (False, au)
      else
        let au1 = (if au_expire_checked au then au
                   else au\<lparr>au_expire_checked := True,
                           au_force_pwchange := (if z_pwexpired z then True else au_force_pwchange au)\<rparr>);
            result = z_sys_auth_passwd z password
        in if au_force_pwchange au1
           then andThen (auth_restrict_session (au_opts au1)) (\<lambda>ao. Done (result \<and> ok, au1\<lparr>au_opts := ao\<rparr>))
           else Done (result \<and> ok, au1))"

definition userauth_none :: "'k auth_sys \<Rightarrow> auth2_options \<Rightarrow> sshbuf \<Rightarrow> 'k authctxt \<Rightarrow> (bool \<times> 'k authctxt) run" where
  "userauth_none z w p au =
     (let au1 = au\<lparr>au_none_enabled := False\<rparr> in
      must_end p (if w_permit_empty_passwd w \<and> w_password_authentication w then auth_password z w [] au1
                  else Done (False, au1)))"

definition userauth_passwd :: "'k auth_sys \<Rightarrow> auth2_options \<Rightarrow> sshbuf \<Rightarrow> 'k authctxt \<Rightarrow> (bool \<times> 'k authctxt) run" where
  "userauth_passwd z w p au =
     must sshbuf_get_u8 p (\<lambda>change p1.
     must (sshbuf_get_cstring (u_alc z)) p1 (\<lambda>password p2.
       let rest = (\<lambda>p3. must_end p3 (if change \<noteq> 0 then Done (False, au) else auth_password z w (cstr password) au))
       in if change \<noteq> 0 then must (sshbuf_get_cstring (u_alc z)) p2 (\<lambda>_ p3. rest p3) else rest p2))"

section \<open>Public keys\<close>

abbreviation SSH2_MSG_USERAUTH_REQUEST :: u8 where "SSH2_MSG_USERAUTH_REQUEST \<equiv> 50"
abbreviation SSH_BUG_SIGTYPE :: u32 where "SSH_BUG_SIGTYPE \<equiv> 0x2"
abbreviation SSH_OLD_SESSIONID :: u32 where "SSH_OLD_SESSIONID \<equiv> 0x10"
abbreviation SSH_SK_USER_PRESENCE_REQD :: u8 where "SSH_SK_USER_PRESENCE_REQD \<equiv> 0x01"
abbreviation SSH_SK_USER_VERIFICATION_REQD :: u8 where "SSH_SK_USER_VERIFICATION_REQD \<equiv> 0x04"

text \<open>What a security key reports must meet the server's and the key's requirements.\<close>

definition sk_requirements :: "auth2_options \<Rightarrow> sshauthopt \<Rightarrow> u8 \<Rightarrow> bool" where
  "sk_requirements w authopts flags \<longleftrightarrow>
     \<not> ((w_touch_required w \<or> ao_no_require_user_presence authopts = 0) \<and> flags AND SSH_SK_USER_PRESENCE_REQD = 0) \<and>
     \<not> ((w_verify_required w \<or> ao_require_verify authopts \<noteq> 0) \<and> flags AND SSH_SK_USER_VERIFICATION_REQD = 0)"

text \<open>The session's identifier and the fields of the request: what the signature is over.\<close>

definition put_session_id :: "'k auth_sys \<Rightarrow> sshbuf \<Rightarrow> unit res \<times> sshbuf" where
  "put_session_id z b =
     (if z_compat z AND SSH_OLD_SESSIONID \<noteq> 0 then sshbuf_put (u_alc z) b (z_session_id z)
      else sshbuf_put_string (u_alc z) b (z_session_id z))"

definition put_text :: "(size_t \<Rightarrow> ptr) \<Rightarrow> string \<Rightarrow> sshbuf \<Rightarrow> unit res \<times> sshbuf" where
  "put_text alc s b = sshbuf_put_cstring alc b (Some (bytes_of s))"

definition text_or_empty :: "string option \<Rightarrow> string" where
  "text_or_empty s = (case s of None \<Rightarrow> [] | Some t \<Rightarrow> t)"

definition request_fields ::
    "'k auth_sys \<Rightarrow> 'k authctxt \<Rightarrow> bool \<Rightarrow> string \<Rightarrow> u8 \<Rightarrow> string \<Rightarrow> u8 list \<Rightarrow> (sshbuf \<Rightarrow> unit res \<times> sshbuf) list" where
  "request_fields z au hostbound method have_sig pkalg pkblob =
     (let alc = u_alc z;
          userstyle = (case au_style au of
              None \<Rightarrow> text_or_empty (au_user au) | Some st \<Rightarrow> text_or_empty (au_user au) @ '':'' @ st)
      in [\<lambda>b. sshbuf_put_u8 alc b SSH2_MSG_USERAUTH_REQUEST, put_text alc userstyle,
          put_text alc (text_or_empty (au_service au)), put_text alc method, \<lambda>b. sshbuf_put_u8 alc b have_sig,
          put_text alc pkalg, \<lambda>b. sshbuf_put_string alc b pkblob] @
         (if hostbound then case z_initial_hostkey z of None \<Rightarrow> [] | Some k \<Rightarrow> [\<lambda>b. sshbuf_put_string alc b (z_put_key z k)]
          else []))"

text \<open>
  The end of the method: options become those of the session, and inconsistent ones undo the success.
\<close>

definition activate_on_success ::
    "bool \<Rightarrow> sshauthopt option \<Rightarrow> 'k authctxt \<Rightarrow> (bool \<times> 'k authctxt) run" where
  "activate_on_success authenticated authopts au =
     (case authopts of
        Some opts \<Rightarrow>
          if authenticated
          then andThen (auth_activate_options (au_opts au) opts) (\<lambda>(ok, ao). Done (ok, au\<lparr>au_opts := ao\<rparr>))
          else Done (False, au)
      | None \<Rightarrow> Done (False, au))"

text \<open>The verdict on a signature: whether it verified, and what a security key reported with it.\<close>

definition signature_verdict ::
    "auth2_options \<Rightarrow> 'k sshkey \<Rightarrow> sshauthopt option \<Rightarrow> (u32 \<times> u8) option option \<Rightarrow> 'k authctxt \<Rightarrow>
     (bool \<times> 'k authctxt) run" where
  "signature_verdict w key authopts verified au =
     (case (authopts, verified) of
        (Some opts, Some details) \<Rightarrow>
          (case details of
             None \<Rightarrow> andThen (auth2_record_key True key au) (activate_on_success True authopts)
           | Some (counter, flags) \<Rightarrow>
             let au1 = au\<lparr>au_method_info := Some (''signature count = '' @ decimal (unat counter))\<rparr> in
             if \<not> sk_requirements w opts flags then Done (False, au1)
             else andThen (auth2_record_key True key au1) (activate_on_success True authopts))
      | _ \<Rightarrow> andThen (auth2_record_key False key au) (\<lambda>au1. Done (False, au1)))"

text \<open>A request with a signature, once the key is acceptable.\<close>

definition try_signature ::
    "'k auth_sys \<Rightarrow> auth2_options \<Rightarrow> bool \<Rightarrow> string \<Rightarrow> u8 \<Rightarrow> string \<Rightarrow> u8 list \<Rightarrow> 'k sshkey \<Rightarrow> sshbuf \<Rightarrow> 'k authctxt \<Rightarrow>
     (bool \<times> 'k authctxt) run" where
  "try_signature z w hostbound method have_sig pkalg pkblob key p au =
     must (sshbuf_get_string (u_alc z)) p (\<lambda>sig p1.
     must_end p1 (with_new (u_alc z) (\<lambda>b. must_put [put_session_id z] b (\<lambda>b1.
       if \<not> au_valid au \<or> au_user au = None then Done (False, au)
       else must_put (request_fields z au hostbound method have_sig pkalg pkblob) b1 (\<lambda>b2.
         andThen (user_key_allowed (auth_env.truncate z) (w_keys w) (au_pw au) key (z_remote_ip z) (z_remote_host z))
          (\<lambda>authopts. signature_verdict w key authopts
            (z_verify z key sig (contents b2) (if z_compat z AND SSH_BUG_SIGTYPE = 0 then Some pkalg else None)) au))))))"

text \<open>A query whether a key would do: the answer is a packet, and the attempt is not over.\<close>

definition query_key ::
    "'k auth_sys \<Rightarrow> auth2_options \<Rightarrow> string \<Rightarrow> u8 list \<Rightarrow> 'k sshkey \<Rightarrow> sshbuf \<Rightarrow> 'k authctxt \<Rightarrow> (bool \<times> 'k authctxt) run" where
  "query_key z w pkalg pkblob key p au =
     must_end p
      (if \<not> au_valid au \<or> au_user au = None then Done (False, au)
       else andThen (user_key_allowed (auth_env.truncate z) (w_keys w) (au_pw au) key (z_remote_ip z) (z_remote_host z))
         (\<lambda>authopts. Done (False,
            if authopts = None then au else (send (Userauth_pk_ok pkalg pkblob) au)\<lparr>au_postponed := True\<rparr>)))"

text \<open>The key of a blob, when its algorithm is known and the key acceptable.\<close>

definition acceptable_key :: "'k auth_sys \<Rightarrow> string \<Rightarrow> string \<Rightarrow> u8 list \<Rightarrow> ('k sshkey \<Rightarrow> bool) \<Rightarrow> 'k sshkey option" where
  "acceptable_key z accepted_algos pkalg pkblob used =
     (case z_type_from_name z pkalg of
        None \<Rightarrow> None
      | Some pktype \<Rightarrow>
        (case z_from_blob z pkblob of
           None \<Rightarrow> None
         | Some key \<Rightarrow>
           if z_type z key \<noteq> pktype then None
           else if used key then None
           else if match_pattern_list pkalg accepted_algos False \<noteq> 1 then None
           else if \<not> z_sigtype_ok z key then None
           else if \<not> z_rsa_length_ok z key then None
           else Some key))"

text \<open>The host key a host-bound request carries must be the one of the key exchange.\<close>

definition bound_host :: "'k auth_sys \<Rightarrow> bool \<Rightarrow> sshbuf \<Rightarrow> (sshbuf \<Rightarrow> 'a run) \<Rightarrow> 'a run" where
  "bound_host z hostbound p k =
     (if \<not> hostbound then k p
      else must (sshbuf_get_string (u_alc z)) p (\<lambda>blob p1.
        case z_from_blob z blob of
          None \<Rightarrow> Fatal
        | Some hostkey \<Rightarrow>
          (case z_initial_hostkey z of
             None \<Rightarrow> Fatal
           | Some initial \<Rightarrow> if \<not> u_equal z hostkey initial then Fatal else k p1)))"

definition userauth_pubkey ::
    "'k auth_sys \<Rightarrow> auth2_options \<Rightarrow> string \<Rightarrow> sshbuf \<Rightarrow> 'k authctxt \<Rightarrow> (bool \<times> 'k authctxt) run" where
  "userauth_pubkey z w method p au =
     (let hostbound = (method = ''publickey-hostbound-v00@openssh.com'') in
      must sshbuf_get_u8 p (\<lambda>have_sig p1.
      must (sshbuf_get_cstring (u_alc z)) p1 (\<lambda>alg p2.
      must (sshbuf_get_string (u_alc z)) p2 (\<lambda>pkblob p3.
      bound_host z hostbound p3 (\<lambda>p4.
        case acceptable_key z (w_pubkey_accepted_algos w) (cstr alg) pkblob (auth2_key_already_used (auth_env.truncate z) au) of
          None \<Rightarrow> Done (False, au)
        | Some key \<Rightarrow>
          if have_sig \<noteq> 0 then try_signature z w hostbound method have_sig (cstr alg) pkblob key p4 au
          else query_key z w (cstr alg) pkblob key p4 au)))))"

section \<open>Hosts\<close>

text \<open>The information holds at most a hundred characters of each name.\<close>

definition hostbased_info :: "string \<Rightarrow> string \<Rightarrow> string" where
  "hostbased_info cuser chost =
     ''client user '' @ [CHR 0x22] @ take 100 cuser @ [CHR 0x22] @ '', client host '' @ [CHR 0x22] @ take 100 chost @ [CHR 0x22]"

definition userauth_hostbased ::
    "'k auth_sys \<Rightarrow> auth2_options \<Rightarrow> string \<Rightarrow> sshbuf \<Rightarrow> 'k authctxt \<Rightarrow> (bool \<times> 'k authctxt) run" where
  "userauth_hostbased z w method p au =
     (let alc = u_alc z in
      must (sshbuf_get_cstring alc) p (\<lambda>alg p1.
      must (sshbuf_get_string alc) p1 (\<lambda>pkblob p2.
      must (sshbuf_get_cstring alc) p2 (\<lambda>host p3.
      must (sshbuf_get_cstring alc) p3 (\<lambda>user p4.
      must (sshbuf_get_string alc) p4 (\<lambda>sig p5.
        let pkalg = cstr alg; chost = cstr host; cuser = cstr user in
        case acceptable_key z (w_hostbased_accepted_algos w) pkalg pkblob (\<lambda>_. False) of
          None \<Rightarrow> Done (False, au)
        | Some key \<Rightarrow>
          if \<not> au_valid au \<or> au_user au = None then Done (False, au)
          else with_new alc (\<lambda>b. must_put
              [\<lambda>b. sshbuf_put_string alc b (z_session_id z), \<lambda>b. sshbuf_put_u8 alc b SSH2_MSG_USERAUTH_REQUEST,
               put_text alc (text_or_empty (au_user au)), put_text alc (text_or_empty (au_service au)), put_text alc method,
               \<lambda>b. sshbuf_put_string alc b alg, \<lambda>b. sshbuf_put_string alc b pkblob,
               put_text alc chost, put_text alc cuser] b (\<lambda>b1.
            let au1 = au\<lparr>au_method_info := Some (hostbased_info cuser chost)\<rparr>;
                authenticated = (z_hostbased_key_allowed z (au_pw au) cuser chost key \<and>
                                 z_verify z key sig (contents b1) (Some pkalg) \<noteq> None)
            in andThen (auth2_record_key authenticated key au1) (\<lambda>au2. Done (authenticated, au2))))))))))"

section \<open>Challenges\<close>

definition kbdint_alloc :: "auth2_options \<Rightarrow> string \<Rightarrow> kbdint" where
  "kbdint_alloc w devs = \<lparr>kb_devices = Some (if devs = [] then dash_join '','' (w_devices w) else devs), kb_ctxt = False,
     kb_device = None, kb_nreq = 0, kb_devices_done = 0\<rparr>"

text \<open>The devices that fit the first \<open>len\<close> characters: the last one that is allowed and not done is taken.\<close>

fun pick_device :: "'k authctxt \<Rightarrow> string \<Rightarrow> nat \<Rightarrow> nat \<Rightarrow> string list \<Rightarrow> kbdint \<Rightarrow> kbdint" where
  "pick_device au devices len i [] kb = kb"
| "pick_device au devices len i (d # ds) kb =
     (if bit (kb_devices_done kb) i \<or> \<not> auth2_method_allowed au ''keyboard-interactive'' (Some d)
      then pick_device au devices len (i + 1) ds kb
      else if take len devices = take len d
      then pick_device au devices len (i + 1) ds
             (kb\<lparr>kb_device := Some d, kb_devices_done := kb_devices_done kb OR push_bit i 1\<rparr>)
      else pick_device au devices len (i + 1) ds kb)"

fun next_device :: "nat \<Rightarrow> auth2_options \<Rightarrow> 'k authctxt \<Rightarrow> kbdint \<Rightarrow> kbdint" where
  "next_device 0 w au kb = kb"
| "next_device (Suc n) w au kb =
     (case kb_devices kb of
        None \<Rightarrow> kb
      | Some t \<Rightarrow>
        let len = length (takeWhile (\<lambda>c. c \<noteq> CHR '','') t) in
        if len = 0 then kb
        else
          let kb1 = pick_device au t len 0 (w_devices w) kb;
              kb2 = kb1\<lparr>kb_devices := (if len < length t then Some (drop (len + 1) t) else None)\<rparr>
          in if kb_devices kb2 \<noteq> None \<and> kb_device kb2 = None then next_device n w au kb2 else kb2)"

text \<open>Every round drops a device from the list, so as many rounds as the list has characters are enough.\<close>

definition kbdint_next_device :: "auth2_options \<Rightarrow> 'k authctxt \<Rightarrow> kbdint \<Rightarrow> kbdint" where
  "kbdint_next_device w au kb =
     (let kb1 = (if kb_device kb \<noteq> None then kb\<lparr>kb_ctxt := False, kb_device := None\<rparr> else kb)
      in next_device (Suc (length (text_or_empty (kb_devices kb1)))) w au kb1)"

definition auth2_challenge_stop :: "'k authctxt \<Rightarrow> 'k authctxt" where
  "auth2_challenge_stop au = au\<lparr>au_info_response := No_handler, au_kbdint := None\<rparr>"

text \<open>Whether the request went out.\<close>

definition send_userauth_info_request :: "'k auth_sys \<Rightarrow> string \<Rightarrow> kbdint \<Rightarrow> 'k authctxt \<Rightarrow> bool \<times> 'k authctxt" where
  "send_userauth_info_request z device kb au =
     (case z_dev_query z device of
        None \<Rightarrow> (False, au)
      | Some (name, instr, prompts) \<Rightarrow>
        (True, (send (Info_request name instr prompts) au)\<lparr>au_kbdint := Some (kb\<lparr>kb_nreq := word_of_nat (length prompts)\<rparr>)\<rparr>))"

definition auth2_challenge_start :: "'k auth_sys \<Rightarrow> auth2_options \<Rightarrow> kbdint \<Rightarrow> 'k authctxt \<Rightarrow> 'k authctxt" where
  "auth2_challenge_start z w kb au =
     (let kb1 = kbdint_next_device w au kb in
      case kb_device kb1 of
        None \<Rightarrow> auth2_challenge_stop au
      | Some device \<Rightarrow>
        if \<not> z_dev_init z device then auth2_challenge_stop au
        else (case send_userauth_info_request z device (kb1\<lparr>kb_ctxt := True\<rparr>) au of
                (False, au1) \<Rightarrow> auth2_challenge_stop au1
              | (True, au1) \<Rightarrow> au1\<lparr>au_info_response := Handled, au_postponed := True\<rparr>))"

definition auth2_challenge :: "'k auth_sys \<Rightarrow> auth2_options \<Rightarrow> string \<Rightarrow> 'k authctxt \<Rightarrow> 'k authctxt" where
  "auth2_challenge z w devs au =
     (if au_user au = None then au
      else auth2_challenge_start z w (case au_kbdint au of None \<Rightarrow> kbdint_alloc w devs | Some kb \<Rightarrow> kb) au)"

definition userauth_kbdint :: "'k auth_sys \<Rightarrow> auth2_options \<Rightarrow> sshbuf \<Rightarrow> 'k authctxt \<Rightarrow> (bool \<times> 'k authctxt) run" where
  "userauth_kbdint z w p au =
     must (sshbuf_get_cstring (u_alc z)) p (\<lambda>lang p1.
     must (sshbuf_get_cstring (u_alc z)) p1 (\<lambda>devs p2.
       must_end p2 (Done (False, if w_kbd_interactive_authentication w then auth2_challenge z w (cstr devs) au else au))))"

text \<open>The answers to the prompts.\<close>

fun get_responses :: "(size_t \<Rightarrow> ptr) \<Rightarrow> nat \<Rightarrow> sshbuf \<Rightarrow> (string list \<Rightarrow> sshbuf \<Rightarrow> 'a run) \<Rightarrow> 'a run" where
  "get_responses alc 0 p k = k [] p"
| "get_responses alc (Suc n) p k =
     must (sshbuf_get_cstring alc) p (\<lambda>r p1. get_responses alc n p1 (\<lambda>rs p2. k (cstr r # rs) p2))"

text \<open>
  A response: whether the dialogue authenticates, the device, and the state; a failure starts the next device.
\<close>

definition info_response_result ::
    "'k auth_sys \<Rightarrow> auth2_options \<Rightarrow> kbdint \<Rightarrow> string \<Rightarrow> string list \<Rightarrow> 'k authctxt \<Rightarrow> bool \<times> 'k authctxt" where
  "info_response_result z w kb device responses au =
     (let res = z_dev_respond z device responses;
          authenticated = (res = 0 \<and> au_valid au);
          (sent, au1) = (if res = 1 then send_userauth_info_request z device kb au else (False, au));
          au2 = (if sent then au1\<lparr>au_postponed := True\<rparr> else au1)
      in if sent then (authenticated, au2)
         else if authenticated then (True, auth2_challenge_stop au2)
         else (False, auth2_challenge_start z w kb au2))"

definition read_info_response ::
    "'k auth_sys \<Rightarrow> auth2_options \<Rightarrow> sshbuf \<Rightarrow> 'k authctxt \<Rightarrow> (bool \<times> string \<times> 'k authctxt) run" where
  "read_info_response z w p au =
     (case au_kbdint au of
        None \<Rightarrow> Fatal
      | Some kb \<Rightarrow>
        if \<not> kb_ctxt kb then Fatal
        else (case kb_device kb of
          None \<Rightarrow> Fatal
        | Some device \<Rightarrow>
          must sshbuf_get_u32 p (\<lambda>nresp p1.
            if nresp \<noteq> kb_nreq kb then Fatal
            else if nresp > 100 then Fatal
            else get_responses (u_alc z) (unat nresp) p1 (\<lambda>rs p2.
              must_end p2
               (case info_response_result z w kb device rs (au\<lparr>au_postponed := False\<rparr>) of
                  (authenticated, au1) \<Rightarrow> Done (authenticated, device, au1))))))"

end
