(* ===== verification/Auth2.thy ===== *)
theory Auth2
  imports AuthMeth
begin

text \<open>
  The authentication of a client: the requests, what finishes an attempt, and the loop that ends with a
  success (\<open>auth2.c\<close>), and the right of root to log in (\<open>auth.c\<close>). Packets go out; what is logged
  is not modelled.
\<close>

section \<open>The end of an attempt\<close>

text \<open>A \<open>Fatal\<close> is the read of a null \<open>auth_opts\<close>.\<close>

definition auth_root_allowed :: "auth2_options \<Rightarrow> string \<Rightarrow> 'k authctxt \<Rightarrow> bool run" where
  "auth_root_allowed w method au =
     (case w_permit_root_login w of
        PERMIT_YES \<Rightarrow> Done True
      | PERMIT_NO_PASSWD \<Rightarrow> Done (method \<in> {''publickey'', ''hostbased'', ''gssapi-with-mic''})
      | PERMIT_FORCED_ONLY \<Rightarrow>
          (case au_opts au of None \<Rightarrow> Fatal | Some ao \<Rightarrow> Done (ao_force_command ao \<noteq> None))
      | PERMIT_NO \<Rightarrow> Done False)"

text \<open>The name of the method that succeeded; a success of a context that must not have one is an internal error.\<close>

definition finish_method :: "bool \<Rightarrow> string \<Rightarrow> 'k authctxt \<Rightarrow> string run" where
  "finish_method authenticated packet_method au =
     (if \<not> authenticated then Done packet_method
      else if \<not> au_valid au then Fatal
      else if au_postponed au then Fatal
      else case authmethod_byname packet_method of None \<Rightarrow> Fatal | Some m \<Rightarrow> Done m)"

definition root_check :: "auth2_options \<Rightarrow> bool \<Rightarrow> string \<Rightarrow> 'k authctxt \<Rightarrow> bool run" where
  "root_check w authenticated method au =
     (if authenticated \<and> pw_uid (au_pw au) = 0 then auth_root_allowed w method au else Done authenticated)"

text \<open>A success, whether it is partial, and the lists after it.\<close>

definition methods_check :: "bool \<Rightarrow> string \<Rightarrow> string option \<Rightarrow> 'k authctxt \<Rightarrow> (bool \<times> bool \<times> 'k authctxt) run" where
  "methods_check authenticated method submethod au =
     (if authenticated \<and> au_config_methods au \<noteq> []
      then andThen (auth2_update_methods_lists method submethod au) (\<lambda>(complete, au1). Done (complete, \<not> complete, au1))
      else Done (authenticated, False, au))"

definition finish_reply :: "auth2_options \<Rightarrow> bool \<Rightarrow> bool \<Rightarrow> string \<Rightarrow> 'k authctxt \<Rightarrow> 'k authctxt run" where
  "finish_reply w authenticated partial method au =
     (if au_postponed au then Done au
      else if authenticated then Done ((send Userauth_success (au\<lparr>au_requests := Ignored\<rparr>))\<lparr>au_success := True\<rparr>)
      else
        let au1 = (if \<not> partial \<and> \<not> au_server_caused_failure au \<and> (au_attempt au > 1 \<or> method \<noteq> ''none'')
                   then au\<lparr>au_failures := au_failures au + 1\<rparr> else au)
        in if au_failures au1 \<ge> w_max_authtries w then Disconnect
           else Done (send (Userauth_failure (authmethods_get w au1) partial) au1))"

definition userauth_finish ::
    "auth2_options \<Rightarrow> bool \<Rightarrow> string \<Rightarrow> string option \<Rightarrow> 'k authctxt \<Rightarrow> 'k authctxt run" where
  "userauth_finish w authenticated packet_method submethod au =
     andThen (finish_method authenticated packet_method au) (\<lambda>method.
     andThen (root_check w authenticated method au) (\<lambda>authenticated1.
     andThen (methods_check authenticated1 method submethod au) (\<lambda>(authenticated2, partial, au1).
     andThen (if authenticated2 \<or> partial then auth2_update_session_info method submethod au1 else Done au1) (\<lambda>au2.
       finish_reply w authenticated2 partial method au2))))"

section \<open>Requests\<close>

text \<open>A read whose failure ends the connection.\<close>

definition wants :: "(sshbuf \<Rightarrow> 'v res \<times> sshbuf) \<Rightarrow> sshbuf \<Rightarrow> ('v \<Rightarrow> sshbuf \<Rightarrow> 'a run) \<Rightarrow> 'a run" where
  "wants get p k = (case get p of (Inl r, _) \<Rightarrow> Disconnect | (Inr v, p1) \<Rightarrow> k v p1)"

definition wants_end :: "sshbuf \<Rightarrow> 'a run \<Rightarrow> 'a run" where
  "wants_end p m = (if sshbuf_len p > 0 then Disconnect else m)"

definition input_service_request :: "'k auth_sys \<Rightarrow> sshbuf \<Rightarrow> 'k authctxt \<Rightarrow> 'k authctxt run" where
  "input_service_request z p au =
     wants (sshbuf_get_cstring (u_alc z)) p (\<lambda>s p1. wants_end p1
       (if cstr s = ''ssh-userauth'' \<and> \<not> au_success au
        then Done (send (Service_accept (cstr s)) (au\<lparr>au_requests := Handled\<rparr>))
        else Disconnect))"

definition run_method ::
    "'k auth_sys \<Rightarrow> auth2_options \<Rightarrow> string \<Rightarrow> string \<Rightarrow> sshbuf \<Rightarrow> 'k authctxt \<Rightarrow> (bool \<times> 'k authctxt) run" where
  "run_method z w m method p au =
     (if m = ''none'' then userauth_none z w p au
      else if m = ''publickey'' then userauth_pubkey z w method p au
      else if m = ''password'' then userauth_passwd z w p au
      else if m = ''keyboard-interactive'' then userauth_kbdint z w p au
      else userauth_hostbased z w method p au)"

text \<open>The first request: who the client wants to be, and the methods that are asked for.\<close>

definition setup_context ::
    "'k auth_sys \<Rightarrow> auth2_options \<Rightarrow> string \<Rightarrow> string option \<Rightarrow> string \<Rightarrow> 'k authctxt \<Rightarrow> 'k authctxt run" where
  "setup_context z w user style service au =
     (let pw = z_getpwnamallow z user; valid = (pw \<noteq> None \<and> service = ''ssh-connection'');
          au1 = au\<lparr>au_user := Some user, au_valid := valid,
                   au_pw := (case pw of Some q \<Rightarrow> if valid then q else z_fakepw z | None \<Rightarrow> z_fakepw z),
                   au_service := Some service, au_style := style\<rparr>;
          au2 = (case z_banner z of None \<Rightarrow> au1 | Some b \<Rightarrow> send (Banner b) au1)
      in case auth2_setup_methods_lists w au2 of (ok, au3) \<Rightarrow> if ok then Done au3 else Disconnect)"

text \<open>The attempt proper, behind the checks of name and service.\<close>

definition attempt ::
    "'k auth_sys \<Rightarrow> auth2_options \<Rightarrow> string \<Rightarrow> sshbuf \<Rightarrow> 'k authctxt \<Rightarrow> 'k authctxt run" where
  "attempt z w method p au0 =
     (let au = (auth2_authctxt_reset_info (auth2_challenge_stop au0))\<lparr>au_postponed := False, au_server_caused_failure := False\<rparr>
      in andThen
          (case authmethod_lookup w au method of
             Some m \<Rightarrow> if au_failures au < w_max_authtries w then run_method z w m method p au else Done (False, au)
           | None \<Rightarrow> Done (False, au))
          (\<lambda>(authenticated, au1). userauth_finish w authenticated method None au1))"

definition input_userauth_request :: "'k auth_sys \<Rightarrow> auth2_options \<Rightarrow> sshbuf \<Rightarrow> 'k authctxt \<Rightarrow> 'k authctxt run" where
  "input_userauth_request z w p au =
     wants (sshbuf_get_cstring (u_alc z)) p (\<lambda>us p1.
     wants (sshbuf_get_cstring (u_alc z)) p1 (\<lambda>se p2.
     wants (sshbuf_get_cstring (u_alc z)) p2 (\<lambda>me p3.
       let whole = cstr us; service = cstr se;
           user = takeWhile (\<lambda>c. c \<noteq> CHR '':'') whole;
           style = (if CHR '':'' \<in> set whole then Some (tl (dropWhile (\<lambda>c. c \<noteq> CHR '':'') whole)) else None);
           au1 = au\<lparr>au_attempt := au_attempt au + 1\<rparr>
       in if au_attempt au \<ge> 1024 then Disconnect
          else if au_attempt au = 0
          then andThen (setup_context z w user style service au1) (attempt z w (cstr me) p3)
          else if Some user \<noteq> au_user au \<or> Some service \<noteq> au_service au then Disconnect
          else attempt z w (cstr me) p3 au1)))"

definition input_userauth_info_response :: "'k auth_sys \<Rightarrow> auth2_options \<Rightarrow> sshbuf \<Rightarrow> 'k authctxt \<Rightarrow> 'k authctxt run" where
  "input_userauth_info_response z w p au =
     andThen (read_info_response z w p au) (\<lambda>(authenticated, device, au1).
       userauth_finish w authenticated ''keyboard-interactive'' (Some device) au1)"

section \<open>The loop\<close>

datatype auth_packet = Service_request sshbuf | Userauth_request sshbuf | Userauth_info_response sshbuf

definition dispatched :: "disp \<Rightarrow> 'k authctxt run \<Rightarrow> 'k authctxt \<Rightarrow> 'k authctxt run" where
  "dispatched d m au =
     (case d of
        Protocol_error \<Rightarrow> Done (send Unimplemented au)
      | No_handler \<Rightarrow> Disconnect
      | Handled \<Rightarrow> m
      | Ignored \<Rightarrow> Done au)"

fun auth_dispatch :: "'k auth_sys \<Rightarrow> auth2_options \<Rightarrow> auth_packet \<Rightarrow> 'k authctxt \<Rightarrow> 'k authctxt run" where
  "auth_dispatch z w (Service_request p) au = input_service_request z p au"
| "auth_dispatch z w (Userauth_request p) au = dispatched (au_requests au) (input_userauth_request z w p au) au"
| "auth_dispatch z w (Userauth_info_response p) au =
     dispatched (au_info_response au) (input_userauth_info_response z w p au) au"

text \<open>The context a connection begins with.\<close>

definition auth_init :: "string list \<Rightarrow> passwd \<Rightarrow> 'k authctxt" where
  "auth_init config_methods pw0 = \<lparr>au_success = False, au_postponed = False, au_valid = False, au_attempt = 0,
     au_failures = 0, au_server_caused_failure = False, au_force_pwchange = False, au_user = None, au_service = None,
     au_style = None, au_pw = pw0, au_auth_methods = [], au_kbdint = None, au_prev_keys = [], au_method_key = None,
     au_method_info = None, au_session_info = [], au_opts = Some sshauthopt_new_with_keys_defaults,
     au_none_enabled = True, au_config_methods = config_methods, au_expire_checked = False,
     au_requests = Protocol_error, au_info_response = Protocol_error, au_replies = []\<rparr>"

text \<open>
  The packets of a client, each with what the system answers while it is handled; the loop stops with a success.
\<close>

fun do_authentication2 :: "auth2_options \<Rightarrow> ('k auth_sys \<times> auth_packet) list \<Rightarrow> 'k authctxt \<Rightarrow> 'k authctxt run" where
  "do_authentication2 w [] au = Done au"
| "do_authentication2 w ((z, e) # es) au =
     (if au_success au then Done au else andThen (auth_dispatch z w e au) (do_authentication2 w es))"

inductive auth_reachable :: "auth2_options \<Rightarrow> 'k authctxt \<Rightarrow> 'k authctxt \<Rightarrow> bool" for w au0 where
  auth_start: "auth_reachable w au0 au0"
| auth_step: "auth_reachable w au0 au \<Longrightarrow> \<not> au_success au \<Longrightarrow> auth_dispatch z w e au = Done au1 \<Longrightarrow>
    auth_reachable w au0 au1"

lemma loop_reaches:
  "do_authentication2 w es au = Done au1 \<Longrightarrow> auth_reachable w au0 au \<Longrightarrow> auth_reachable w au0 au1"
  by (induction w es au rule: do_authentication2.induct) (auto split: if_split_asm simp: andThen_Done intro: auth_step)

end
