(* ===== verification/AuthProps.thy ===== *)
theory AuthProps
  imports Demo AuthWire Auth2 FwdPolicy
begin

text \<open>
  Properties of the options of keys and certificates: what the parser makes, what a merge grants, the round
  trip between processes, and what a certificate's list of options means.
\<close>

section \<open>What the parser makes\<close>

lemma dequote_body_ok:
  "dequote_body s = Some (v, rest) \<Longrightarrow>
   set v \<subseteq> insert (CHR 0x22) (set s) \<and> set rest \<subseteq> set s \<and> length v + length rest < length s"
proof (induction s arbitrary: v rest rule: dequote_body.induct)
  case (2 c s)
  show ?case
  proof (cases "c = CHR 0x22")
    case True
    with 2(3) show ?thesis by auto
  next
    case q: False
    show ?thesis
    proof (cases "c = CHR 0x5C \<and> s \<noteq> [] \<and> hd s = CHR 0x22")
      case True
      with 2(3) q obtain v1 where "dequote_body (tl s) = Some (v1, rest)" "v = CHR 0x22 # v1" by auto
      with 2(1)[OF q True this(1)] True show ?thesis by (cases s) auto
    next
      case False
      with 2(3) q obtain v1 where "dequote_body s = Some (v1, rest)" "v = c # v1" by (auto split: if_split_asm)
      with 2(2)[OF q False this(1)] show ?thesis by auto
    qed
  qed
qed simp

text \<open>A value and the text behind it are made of the characters of the text, and of quotes.\<close>

definition part_of :: "string \<Rightarrow> string \<Rightarrow> bool" where
  "part_of v s \<longleftrightarrow> set v \<subseteq> insert (CHR 0x22) (set s) \<and> length v \<le> length s"

lemma part_ok: "part_of v s \<Longrightarrow> str_ok s \<Longrightarrow> str_ok v"
  by (auto simp: part_of_def str_ok_def)

lemma part_trans: "part_of a b \<Longrightarrow> part_of b c \<Longrightarrow> part_of a c"
  by (auto simp: part_of_def)

lemma dequote_parts:
  assumes "opt_dequote s = Inr (v, rest)"
  shows "part_of v s" "part_of rest s" "length v + 2 \<le> length s" "set v \<subseteq> insert (CHR 0x22) (set s)"
proof -
  from assms have d: "s \<noteq> []" "dequote_body (tl s) = Some (v, rest)"
    by (auto simp: opt_dequote_def split: if_split_asm option.split_asm)
  from dequote_body_ok[OF d(2)] d(1)
  show "part_of v s" "part_of rest s" "length v + 2 \<le> length s" "set v \<subseteq> insert (CHR 0x22) (set s)"
    by (cases s; auto simp: part_of_def)+
qed

lemma dequote_value: "opt_dequote s = Inr (v, rest) \<Longrightarrow> str_ok s \<Longrightarrow> str_ok v"
  using dequote_parts(1) part_ok by blast

lemma flag_val_01: "flag_val b = 0 \<or> flag_val b = 1"
  by (simp add: flag_val_def)

lemma flag_updates:
  assumes "authopt_ok ao" "f = 0 \<or> f = 1"
  shows "authopt_ok (ao\<lparr>ao_cert_authority := f\<rparr>)" "authopt_ok (ao\<lparr>ao_permit_port_forwarding_flag := f\<rparr>)"
    "authopt_ok (ao\<lparr>ao_permit_agent_forwarding_flag := f\<rparr>)" "authopt_ok (ao\<lparr>ao_permit_x11_forwarding_flag := f\<rparr>)"
    "authopt_ok (ao\<lparr>ao_no_require_user_presence := f\<rparr>)" "authopt_ok (ao\<lparr>ao_require_verify := f\<rparr>)"
    "authopt_ok (ao\<lparr>ao_permit_pty_flag := f\<rparr>)" "authopt_ok (ao\<lparr>ao_permit_user_rc := f\<rparr>)"
    "authopt_ok (ao\<lparr>ao_restricted := f\<rparr>)"
  using assms by (simp_all add: authopt_ok_def flag_fields_def text_fields_def)

lemma flag_options_ok:
  "list_all (\<lambda>f. \<forall>b ret. authopt_ok ret \<longrightarrow> authopt_ok (snd (snd f) b ret)) flag_options"
  unfolding flag_options_def list.pred_inject snd_conv
  by (intro conjI allI impI flag_updates) (simp_all add: flag_val_01 del: flag_val_one)

lemma flag_option_ok: "(name, neg, upd) \<in> set flag_options \<Longrightarrow> authopt_ok ret \<Longrightarrow> authopt_ok (upd b ret)"
  using flag_options_ok by (force simp: list_all_iff)

lemma part_drop: "part_of (drop n s) s"
  by (auto simp: part_of_def dest: in_set_dropD)

lemma opt_flag_part: "opt_flag name neg opts = Some (b, rest) \<Longrightarrow> part_of rest opts"
  by (auto simp: opt_flag_def Let_def part_drop split: if_split_asm)

lemma opt_match_part: "opt_match opts name = Some s \<Longrightarrow> part_of s opts"
  by (auto simp: opt_match_def part_drop split: if_split_asm)

lemma flag_keeps:
  "first_flag fs opts ret = Some (r, rest) \<Longrightarrow> set fs \<subseteq> set flag_options \<Longrightarrow> authopt_ok ret \<Longrightarrow>
   authopt_ok r \<and> part_of rest opts"
proof (induction fs)
  case (Cons f fs)
  obtain name neg upd where f: "f = (name, neg, upd)" by (cases f)
  show ?case
  proof (cases "opt_flag name neg opts")
    case None
    with Cons f show ?thesis by simp
  next
    case (Some p)
    then obtain b where p: "p = (b, rest)" "r = upd b ret" using Cons.prems f by (cases p) auto
    have "part_of rest opts" using Some p opt_flag_part[of name neg opts b rest] by simp
    moreover have "f \<in> set flag_options" using Cons.prems(2) by (simp only: list.set insert_subset)
    then have "authopt_ok (upd b ret)" using flag_option_ok Cons.prems(3) unfolding f by blast
    ultimately show ?thesis using p by simp
  qed
qed simp

lemma ok_text:
  "authopt_ok ao \<Longrightarrow> str_ok v \<Longrightarrow> flag_fields r = flag_fields ao \<Longrightarrow> ao_force_tun_device r = ao_force_tun_device ao \<Longrightarrow>
   text_fields r \<subseteq> insert v (text_fields ao) \<Longrightarrow> authopt_ok r"
  unfolding authopt_ok_def by auto

lemma value_updates:
  assumes "authopt_ok ao" "str_ok v"
  shows "authopt_ok (ao\<lparr>ao_force_command := Some v\<rparr>)" "authopt_ok (ao\<lparr>ao_cert_principals := Some v\<rparr>)"
    "authopt_ok (ao\<lparr>ao_required_from_host_keys := Some v\<rparr>)" "authopt_ok (ao\<lparr>ao_required_from_host_cert := Some v\<rparr>)"
    "authopt_ok (ao\<lparr>ao_valid_before := t\<rparr>)" "authopt_ok (ao\<lparr>ao_env := ao_env ao @ [v]\<rparr>)"
    "authopt_ok (ao\<lparr>ao_permitopen := ao_permitopen ao @ [v]\<rparr>)" "authopt_ok (ao\<lparr>ao_permitlisten := ao_permitlisten ao @ [v]\<rparr>)"
  by (rule ok_text[OF assms]; auto simp: flag_fields_def text_fields_def)+

lemma tun_update: "authopt_ok ao \<Longrightarrow> -1 \<le> d \<Longrightarrow> d \<le> 0x7fffffff \<Longrightarrow> authopt_ok (ao\<lparr>ao_force_tun_device := d\<rparr>)"
  by (simp add: authopt_ok_def flag_fields_def text_fields_def)

text \<open>An option function that keeps the options good, and goes on with a part of the text.\<close>

definition keeps_ok :: "(string \<Rightarrow> sshauthopt \<Rightarrow> parsed) \<Rightarrow> bool" where
  "keeps_ok f \<longleftrightarrow> (\<forall>opts ret r rest. f opts ret = Inr (r, rest) \<longrightarrow> str_ok opts \<longrightarrow> authopt_ok ret \<longrightarrow>
     authopt_ok r \<and> part_of rest opts)"

lemma keeps_okI:
  assumes "\<And>opts ret r rest. f opts ret = Inr (r, rest) \<Longrightarrow> authopt_ok ret \<Longrightarrow>
     \<exists>v. opt_dequote opts = Inr (v, rest) \<and> (str_ok v \<longrightarrow> authopt_ok r)"
  shows "keeps_ok f"
  unfolding keeps_ok_def
proof (intro allI impI)
  fix opts ret r rest assume "f opts ret = Inr (r, rest)" "str_ok opts" "authopt_ok ret"
  with assms obtain v where "opt_dequote opts = Inr (v, rest)" "str_ok v \<longrightarrow> authopt_ok r" by blast
  with \<open>str_ok opts\<close> show "authopt_ok r \<and> part_of rest opts" using dequote_value dequote_parts(2) by blast
qed

lemma once_ok:
  assumes "\<And>v ao. authopt_ok ao \<Longrightarrow> str_ok v \<Longrightarrow> authopt_ok (upd v ao)"
  shows "keeps_ok (once name get upd)"
  by (rule keeps_okI) (auto simp: once_def assms split: if_split_asm sum.split_asm)

lemma expiry_ok: "keeps_ok (expiry_option k)"
  by (rule keeps_okI)
    (auto simp: expiry_option_def value_updates(5)[OF _ str_ok_Nil] split: if_split_asm sum.split_asm option.split_asm)

lemma environment_ok: "keeps_ok environment_option"
  by (rule keeps_okI)
    (auto simp: environment_option_def Let_def value_updates split: if_split_asm sum.split_asm)

lemma a2tun_bounds: "a2tun s \<noteq> SSH_TUNID_ERR \<Longrightarrow> -1 \<le> a2tun s \<and> a2tun s \<le> 0x7fffffff"
  by (auto simp: a2tun_def strtonum_def Let_def split: if_split_asm option.split_asm option.split)

lemma tunnel_ok: "keeps_ok tunnel_option"
  by (rule keeps_okI)
    (auto simp: tunnel_option_def tun_update a2tun_bounds split: if_split_asm sum.split_asm)

lemma permit_ok: "keeps_ok (permit_option k listen)"
  unfolding keeps_ok_def
proof (intro allI impI)
  fix opts ret r rest assume p: "permit_option k listen opts ret = Inr (r, rest)" and s: "str_ok opts" and ok: "authopt_ok ret"
  obtain ps where h: "handle_permit (k_getservbyname k) opts listen (if listen then ao_permitlisten ret else ao_permitopen ret)
      = Inr (ps, rest)" and r: "r = (if listen then ret\<lparr>ao_permitlisten := ps\<rparr> else ret\<lparr>ao_permitopen := ps\<rparr>)"
    using p unfolding permit_option_def by (auto split: sum.split_asm)
  obtain v where d: "opt_dequote opts = Inr (v, rest)"
    and ps: "ps = (if listen then ao_permitlisten ret else ao_permitopen ret) @
        [if listen \<and> CHR '':'' \<notin> set v then ''*:'' @ v else v]"
    using h unfolding handle_permit_def by (auto simp: Let_def split: if_split_asm sum.split_asm)
  have "str_ok (if listen \<and> CHR '':'' \<notin> set v then ''*:'' @ v else v)"
    using dequote_parts(3,4)[OF d] s by (auto simp: str_ok_def)
  with ok ps r dequote_parts(2)[OF d] show "authopt_ok r \<and> part_of rest opts"
    by (cases listen) (simp_all only: value_updates if_True if_False simp_thms)
qed

lemma values_ok: "(name, f) \<in> set (value_options k) \<Longrightarrow> keeps_ok f"
  by (auto simp: value_options_def intro!: once_ok expiry_ok environment_ok permit_ok tunnel_ok value_updates)

lemma value_keeps:
  "first_value fs opts ret = Inr (r, rest) \<Longrightarrow> set fs \<subseteq> set (value_options k) \<Longrightarrow> str_ok opts \<Longrightarrow> authopt_ok ret \<Longrightarrow>
   authopt_ok r \<and> part_of rest opts"
proof (induction fs)
  case Nil
  then show ?case by (simp add: part_of_def subset_insertI)
next
  case (Cons nf fs)
  obtain name f where nf: "nf = (name, f)" by (cases nf)
  show ?case
  proof (cases "opt_match opts name")
    case None
    with Cons nf show ?thesis by simp
  next
    case (Some s)
    note s = opt_match_part[OF Some]
    have "keeps_ok f" using Cons.prems(2) nf values_ok[of name f k] by simp
    then have "authopt_ok r \<and> part_of rest s"
      using Cons.prems Some nf part_ok[OF s] unfolding keeps_ok_def by simp
    with part_trans[OF _ s] show ?thesis by blast
  qed
qed

lemma parse_option_keeps:
  "parse_option k opts ret = Inr (r, rest) \<Longrightarrow> str_ok opts \<Longrightarrow> authopt_ok ret \<Longrightarrow> authopt_ok r \<and> part_of rest opts"
  unfolding parse_option_def
  by (auto split: option.split_asm dest: flag_keeps value_keeps[OF _ subset_refl])

lemma parse_loop_keeps:
  "parse_loop k opts ret = Inr ao \<Longrightarrow> str_ok opts \<Longrightarrow> authopt_ok ret \<Longrightarrow> authopt_ok ao"
proof (induction k opts ret rule: parse_loop.induct)
  case (1 k opts ret)
  show ?case
  proof (cases "at_end opts")
    case True
    with 1(2,4) show ?thesis by (simp add: parse_loop.simps[of k opts])
  next
    case e: False
    with 1(2) obtain ret1 rest where p: "parse_option k opts ret = Inr (ret1, rest)"
      by (auto simp: parse_loop.simps[of k opts] split: sum.split_asm)
    note kp = parse_option_keeps[OF p 1(3,4)]
    show ?thesis
    proof (cases "at_end rest")
      case True
      with 1(2) e p kp show ?thesis by (simp add: parse_loop.simps[of k opts])
    next
      case False
      with 1(2) e p have r: "hd rest = CHR '',''" "tl rest \<noteq> []" "parse_loop k (tl rest) ret1 = Inr ao"
        by (simp_all add: parse_loop.simps[of k opts] split: if_split_asm)
      have "str_ok (tl rest)" using part_ok[OF conjunct2[OF kp] 1(3)] by (cases rest) (auto simp: str_ok_def)
      then show ?thesis using 1(1)[OF e p refl False _ r(2)] r kp by simp
    qed
  qed
qed


definition demo_calls :: opt_calls where
  "demo_calls = \<lparr>k_getservbyname = \<lambda>_. None, k_time = \<lambda>_ _ _. None\<rparr>"

definition demo_line :: string where
  "demo_line = ''restrict,pty,command='' @ [CHR 0x22] @ ''uptime'' @ [CHR 0x22] @ '',permitopen='' @ [CHR 0x22] @
     ''db:5432'' @ [CHR 0x22] @ '' ssh-rsa''"

definition demo_parsed :: sshauthopt where
  "demo_parsed = sshauthopt_new\<lparr>ao_restricted := 1, ao_permit_pty_flag := 1, ao_force_command := Some ''uptime'',
     ao_permitopen := [''db:5432'']\<rparr>"

lemma demo_line_parses: "sshauthopt_parse demo_calls (Some demo_line) = Inr demo_parsed"
  by code_simp


section \<open>What a merge grants\<close>



lemma restrict_parses: "sshauthopt_parse k (Some ''restrict'') = Inr (sshauthopt_new\<lparr>ao_restricted := 1\<rparr>)"
  by code_simp


definition demo_server :: server_options where
  "demo_server = \<lparr>o_allow_tcp_forwarding = 3, o_disable_forwarding = False, o_permitted_opens = [],
     o_permitted_listens = []\<rparr>"

definition demo_restricted :: sshauthopt where
  "demo_restricted = sshauthopt_new\<lparr>ao_restricted := 1\<rparr>"


section \<open>Between the processes\<close>

text \<open>
  C21: Options that are well typed go between the processes of the server and come back unchanged: into an
  empty buffer with room for them they are written without an error, and reading gives them back and
  leaves nothing. The allocator never fails here, and no block it gives runs past the end of memory. In
  the untrusted form the reader gets them with the command \<open>true\<close>, the principals \<open>yes\<close> and
  without hosts, environment and destinations.
\<close>

theorem options_survive_the_wire:
  assumes ok: "authopt_ok ao" and alc: "\<And>n. alc n \<noteq> NULL"
    and blocks: "\<And>n. n \<le> SSHBUF_SIZE_MAX \<Longrightarrow> unat (alc n) + unat n < 2 ^ 64"
    and m: "sshbuf_inv m" "writable m" "b_refcount m = 1" "contents m = []" "placed m"
    and room: "length (concat (authopt_bytes (shown untrusted ao))) \<le> unat (b_max_size m)"
  shows "\<exists>m1. sshauthopt_serialise alc ao untrusted m = (Inr (), m1) \<and>
    (\<exists>m2. sshauthopt_deserialise alc at m1 = (Inr (shown untrusted ao), m2) \<and> contents m2 = [])"
proof -
  let ?s = "shown untrusted ao"
  have "length (concat (authopt_bytes ?s)) \<le> 134217728" using room inv_bounds(4)[OF m(1)] by linarith
  then have fit: "arrays_fit ?s" by (rule bytes_fit)
  note s = shown_ok[OF ok, of untrusted]
  obtain m1 where m1: "sshauthopt_serialise alc ?s False m = (Inr (), m1)" "sshbuf_inv m1" "same_shape m m1"
      "contents m1 = concat (authopt_bytes ?s)"
    using works_serialise[where alc = alc, OF alc s fit] m room unfolding works_def
    by (metis append_Nil list.size(3) plus_nat.add_0)
  have "homed alc m m1" using homes_serialise[of alc] m1(1) unfolding homes_def by blast
  then have placed: "placed m1" by (rule homed_placed[OF _ m(5) m1(2) blocks])
  have "\<exists>m2. sshauthopt_deserialise alc at m1 = (Inr ?s, m2) \<and> contents m2 = []"
  proof (rule readsE[OF reads_deserialise[where alc = alc, OF s alc fit], of m1 "[]"])
    show "readable m1" using m1(2,3) m(3) placed by (simp add: readable_def same_shape_def)
    show "contents m1 = concat (authopt_bytes ?s) @ []" using m1(4) by simp
  qed auto
  with m1(1) show ?thesis using serialise_shown[of alc ao untrusted] by auto
qed

theorem options_survive_the_wire_witness:
  "\<exists>m1. sshauthopt_serialise (\<lambda>_. 4096) demo_parsed False (demo_buf []) = (Inr (), m1) \<and>
    (\<exists>m2. sshauthopt_deserialise (\<lambda>_. 4096) 8192 m1 = (Inr demo_parsed, m2) \<and> contents m2 = [])"
proof -
  have ok: "authopt_ok demo_parsed"
    by (simp add: authopt_ok_def flag_fields_def text_fields_def demo_parsed_def sshauthopt_new_def str_ok_def)
  have l: "length (concat (authopt_bytes (shown False demo_parsed))) \<le> 1000"
    by (simp add: shown_def demo_parsed_def sshauthopt_new_def authopt_bytes_def nullable_bytes_def array_bytes_def
        strings_bytes_def)
  have r: "b_refcount (demo_buf []) = 1" by (simp add: demo_buf_def)
  have sh: "shown False demo_parsed = demo_parsed" by (simp add: shown_def)
  have p: "placed (demo_buf [])" by (simp add: placed_def demo_buf_def)
  show ?thesis
    by (rule options_survive_the_wire[where untrusted = False and ao = demo_parsed, unfolded sh])
      (use ok r l p in \<open>simp_all add: sh word_le_nat_alt del: length_contents\<close>)
qed

section \<open>What a certificate's options mean\<close>

text \<open>The names and values of a list, read from its bytes.\<close>

function split_pairs :: "u8 list \<Rightarrow> (string \<times> u8 list) list option" where
  "split_pairs bs =
     (if bs = [] then Some []
      else case parse_string bs of
        Inl e \<Rightarrow> None
      | Inr name \<Rightarrow>
        if \<not> cstring_ok name then None
        else (case parse_string (drop (4 + length name) bs) of
          Inl e \<Rightarrow> None
        | Inr v \<Rightarrow>
          map_option (\<lambda>ps. (cstr name, v) # ps) (split_pairs (drop (4 + length v) (drop (4 + length name) bs)))))"
  by pat_completeness auto

termination
  by (relation "measure length") (auto simp: Suc_le_eq)

declare split_pairs.simps [simp del]

text \<open>A value that is one string and nothing behind it.\<close>

definition whole_string :: "u8 list \<Rightarrow> string option" where
  "whole_string v =
     (case parse_string v of
        Inl e \<Rightarrow> None
      | Inr s \<Rightarrow> if cstring_ok s \<and> length v = 4 + length s then Some (cstr s) else None)"

text \<open>Critical options: each known, each with the value it needs, a command and a list of addresses at most once.\<close>

definition critical_meaning :: "numeric \<Rightarrow> string \<times> u8 list \<Rightarrow> sshauthopt \<Rightarrow> sshauthopt option" where
  "critical_meaning numeric nv opts =
     (if fst nv = ''verify-required'' then if snd nv = [] then Some (opts\<lparr>ao_require_verify := 1\<rparr>) else None
      else if fst nv = ''force-command''
      then (case whole_string (snd nv) of
              None \<Rightarrow> None
            | Some c \<Rightarrow> if ao_force_command opts = None then Some (opts\<lparr>ao_force_command := Some c\<rparr>) else None)
      else if fst nv = ''source-address''
      then (case whole_string (snd nv) of
              None \<Rightarrow> None
            | Some l \<Rightarrow>
              if ao_required_from_host_cert opts = None \<and> addr_match_cidr_list numeric None l \<noteq> -1
              then Some (opts\<lparr>ao_required_from_host_cert := Some l\<rparr>) else None)
      else None)"

text \<open>Extensions: the known ones have no value and set their permission, the others are passed over.\<close>

definition extension_meaning :: "string \<times> u8 list \<Rightarrow> sshauthopt \<Rightarrow> sshauthopt option" where
  "extension_meaning nv opts =
     (case extension_option (fst nv) opts of
        None \<Rightarrow> Some opts
      | Some opts1 \<Rightarrow> if snd nv = [] then Some opts1 else None)"

fun all_of :: "('p \<Rightarrow> 's \<Rightarrow> 's option) \<Rightarrow> 'p list \<Rightarrow> 's \<Rightarrow> 's option" where
  "all_of f [] s = Some s"
| "all_of f (p # ps) s = (case f p s of None \<Rightarrow> None | Some s1 \<Rightarrow> all_of f ps s1)"

text \<open>One round of the loop does what the option means.\<close>

definition dropped_view :: "sshbuf \<Rightarrow> bool" where
  "dropped_view d \<longleftrightarrow> sshbuf_inv d \<and> b_refcount d = 1 \<and> b_parent d \<noteq> None"

definition round_means ::
    "(size_t \<Rightarrow> ptr) \<Rightarrow> numeric \<Rightarrow> ptr \<Rightarrow> nat \<Rightarrow> bool \<Rightarrow> (string \<times> u8 list \<Rightarrow> sshauthopt \<Rightarrow> sshauthopt option) \<Rightarrow> bool" where
  "round_means alc numeric at which crit f \<longleftrightarrow> (\<forall>name s v opts. view_of at s v \<longrightarrow>
     (case cert_option alc numeric which name v opts of
        Cert_bad \<Rightarrow> f (name, s) opts = None
      | Cert_unknown \<Rightarrow> f (name, s) opts = (if crit then None else Some opts)
      | Cert_found o1 d \<Rightarrow> dropped_view d \<and> f (name, s) opts = (if sshbuf_len d \<noteq> 0 then None else Some o1)))"

lemma view_dropped: "view_of at s v \<Longrightarrow> dropped_view v"
  by (simp add: view_of_def dropped_view_def)

lemma len_zero: "sshbuf_inv d \<Longrightarrow> sshbuf_len d = 0 \<longleftrightarrow> contents d = []"
  by (metis length_0_conv unat_0 unat_sshbuf_len unat_eq_0)

lemma view_empty: "view_of at s v \<Longrightarrow> sshbuf_len v = 0 \<longleftrightarrow> s = []"
  by (simp add: view_of_def len_zero)

lemma value_string:
  assumes v: "view_of at s v" and alc: "\<And>n. alc n \<noteq> NULL"
  shows "(\<exists>e b. sshbuf_get_cstring alc v = (Inl e, b) \<and> whole_string s = None) \<or>
    (\<exists>c b. sshbuf_get_cstring alc v = (Inr c, b) \<and> dropped_view b \<and>
       whole_string s = (if sshbuf_len b \<noteq> 0 then None else Some (cstr c)))"
proof -
  have inv: "sshbuf_inv v" "contents v = s" using v by (simp_all add: view_of_def)
  obtain r b where g: "sshbuf_get_cstring alc v = (r, b)" by fastforce
  note sp = get_cstring_spec[OF inv(1) g, unfolded inv(2)]
  show ?thesis
  proof (cases "parse_string s")
    case (Inl e)
    with sp g show ?thesis by (simp add: whole_string_def)
  next
    case (Inr c)
    show ?thesis
    proof (cases "cstring_ok c")
      case False
      with sp g Inr show ?thesis by (simp add: whole_string_def)
    next
      case True
      with sp Inr alc have b: "r = Inr c" "sshbuf_inv b" "same_shape v b" "contents b = drop (4 + length c) s" by auto
      have "dropped_view b" using b v by (simp add: dropped_view_def view_of_def same_shape_def)
      moreover have "contents b = [] \<longleftrightarrow> length s = 4 + length c"
        using b(4) parse_string_Inr[OF Inr] by auto
      ultimately show ?thesis using g b True Inr len_zero[OF b(2)] by (auto simp: whole_string_def)
    qed
  qed
qed

lemma critical_round:
  assumes "\<And>n. alc n \<noteq> NULL"
  shows "round_means alc numeric at OPTIONS_CRITICAL True (critical_meaning numeric)"
  unfolding round_means_def
proof (intro allI impI)
  fix name s v opts assume v: "view_of at s v"
  from value_string[where alc = alc, OF v assms]
  have vs: "(\<exists>e b. sshbuf_get_cstring alc v = (Inl e, b) \<and> whole_string s = None) \<or>
    (\<exists>c b. sshbuf_get_cstring alc v = (Inr c, b) \<and> dropped_view b \<and> sshbuf_len b \<noteq> 0 \<and> whole_string s = None) \<or>
    (\<exists>c b. sshbuf_get_cstring alc v = (Inr c, b) \<and> dropped_view b \<and> sshbuf_len b = 0 \<and> whole_string s = Some (cstr c))"
    by (auto split: if_split_asm)
  show "case cert_option alc numeric OPTIONS_CRITICAL name v opts of
        Cert_bad \<Rightarrow> critical_meaning numeric (name, s) opts = None
      | Cert_unknown \<Rightarrow> critical_meaning numeric (name, s) opts = (if True then None else Some opts)
      | Cert_found o1 d \<Rightarrow> dropped_view d \<and> critical_meaning numeric (name, s) opts = (if sshbuf_len d \<noteq> 0 then None else Some o1)"
    using vs view_dropped[OF v] view_empty[OF v]
    by (elim disjE exE conjE)
      (simp_all add: cert_option_def critical_option_def critical_meaning_def whole_string_def[of "[]"] parse_string_def[of "[]"])
qed

lemma extension_round: "round_means alc numeric at OPTIONS_EXTENSIONS False extension_meaning"
  unfolding round_means_def
proof (intro allI impI)
  fix name s v opts assume v: "view_of at s v"
  show "case cert_option alc numeric OPTIONS_EXTENSIONS name v opts of
        Cert_bad \<Rightarrow> extension_meaning (name, s) opts = None
      | Cert_unknown \<Rightarrow> extension_meaning (name, s) opts = (if False then None else Some opts)
      | Cert_found o1 d \<Rightarrow> dropped_view d \<and> extension_meaning (name, s) opts = (if sshbuf_len d \<noteq> 0 then None else Some o1)"
    using view_dropped[OF v] view_empty[OF v]
    by (cases "extension_option name opts") (simp_all add: cert_option_def extension_meaning_def)
qed

lemma free_dropped:
  assumes "dropped_view v" "sshbuf_inv b" "b_refcount b = 1"
  shows "sshbuf_free_view v (b\<lparr>b_refcount := b_refcount b + 1\<rparr>) = b"
  using assms by (simp add: dropped_view_def sshbuf_free_view_def unref_def inv_iff sane_iff word_le_nat_alt)

lemma cert_options_mean:
  assumes alc: "\<And>n. alc n \<noteq> NULL" and f: "round_means alc numeric at which crit f"
  shows "readable c \<Longrightarrow> cert_options alc numeric at which crit c opts =
    (case split_pairs (contents c) of None \<Rightarrow> None | Some ps \<Rightarrow> all_of f ps opts)"
proof (induction "length (contents c)" arbitrary: c opts rule: less_induct)
  case less
  then have inv: "sshbuf_inv c" "placed c" "b_refcount c = 1" by (simp_all add: readable_def)
  let ?bs = "contents c"
  show ?case
  proof (cases "?bs = []")
    case True
    then show ?thesis using len_zero[OF inv(1)] by (simp add: cert_options.simps[of alc] split_pairs.simps)
  next
    case ne: False
    then have l0: "sshbuf_len c \<noteq> 0" using len_zero[OF inv(1)] by simp
    obtain r1 c1 where g: "sshbuf_get_cstring alc c = (r1, c1)" by fastforce
    note sp = get_cstring_spec[OF inv(1) g]
    show ?thesis
    proof (cases "parse_string ?bs")
      case (Inl e)
      with sp g l0 ne show ?thesis by (simp add: cert_options.simps[of alc] split_pairs.simps[of ?bs])
    next
      case n: (Inr name)
      show ?thesis
      proof (cases "cstring_ok name")
        case False
        with sp g l0 ne n show ?thesis by (simp add: cert_options.simps[of alc] split_pairs.simps[of ?bs])
      next
        case True
        with sp n alc have c1: "r1 = Inr name" "sshbuf_inv c1" "same_shape c c1" "contents c1 = drop (4 + length name) ?bs"
          by auto
        have pl: "placed c1" using inv(2) cstring_unmoved[OF g] by (simp add: placed_def unmoved_def)
        have rc: "b_refcount c1 = 1" using c1(3) inv(3) by (simp add: same_shape_def)
        show ?thesis
        proof (cases "parse_string (contents c1)")
          case (Inl e)
          then have "sshbuf_froms alc at c1 = (Inl e, c1)" using c1(2) by (simp add: sshbuf_froms_def peek_string_spec)
          then show ?thesis using g l0 ne n True Inl c1
            by (simp add: cert_options.simps[of alc] split_pairs.simps[of ?bs])
        next
          case v: (Inr s)
          obtain d b where d: "sshbuf_froms alc at c1 = (Inr d, b\<lparr>b_refcount := b_refcount c1 + 1\<rparr>)" "view_of at s d"
              "sshbuf_inv b" "same_shape c1 b" "placed b" "contents b = drop (4 + length s) (contents c1)"
            using froms_view[where alc = alc, OF c1(2) pl alc v] by metis
          have rb: "b_refcount b = 1" "b_refcount c1 = b_refcount b" using d(4) rc by (simp_all add: same_shape_def)
          have rd: "readable b" using d rb by (simp add: readable_def)
          have sh: "length (contents b) < length ?bs"
            using parse_string_Inr[OF n] ne d(6) c1(4) by (simp del: length_contents)
          note IH = less.hyps[OF sh rd]
          have sp: "split_pairs ?bs = map_option (\<lambda>ps. (cstr name, s) # ps) (split_pairs (contents b))"
            using n True v c1(4) d(6) ne by (simp add: split_pairs.simps[of ?bs])
          note fr = free_dropped[OF _ d(3) rb(1)]
          have step: "cert_options alc numeric at which crit c opts =
              (case f (cstr name, s) opts of None \<Rightarrow> None | Some o1 \<Rightarrow> cert_options alc numeric at which crit b o1)"
            using f[unfolded round_means_def, rule_format, OF d(2), of "cstr name" opts] g l0 c1(1) d(1) rb
              fr[OF view_dropped[OF d(2)]] fr
            by (simp add: cert_options.simps[of alc _ _ _ _ c] split: cert_res.splits)
          show ?thesis unfolding step sp using IH by (cases "split_pairs (contents b)"; cases "f (cstr name, s) opts") simp_all
        qed
      qed
    qed
  qed
qed

text \<open>
  C11: What the server takes a user certificate's options for is decided by the bytes of its two lists alone:
  both must be lists of names and values; each critical option must be known and carry exactly the value it
  needs, a command and an address list at most once, the addresses well formed; of the extensions the known
  ones, which have no value, set their permission and the unknown are passed over. Nothing else is accepted,
  and a host certificate never is.
\<close>

theorem certificate_options_are_their_bytes:
  assumes alc: "\<And>n. alc n \<noteq> NULL"
    and c: "sshbuf_inv (ct_critical ct)" "placed (ct_critical ct)"
    and e: "sshbuf_inv (ct_extensions ct)" "placed (ct_extensions ct)"
  shows "sshauthopt_from_cert alc numeric pl (Some ct) =
    (if ct_type ct \<noteq> SSH2_CERT_TYPE_USER then None
     else case split_pairs (contents (ct_critical ct)) of
       None \<Rightarrow> None
     | Some cs \<Rightarrow>
       (case all_of (critical_meaning numeric) cs sshauthopt_new of
          None \<Rightarrow> None
        | Some ao \<Rightarrow>
          (case split_pairs (contents (ct_extensions ct)) of None \<Rightarrow> None | Some es \<Rightarrow> all_of extension_meaning es ao)))"
proof -
  have list: "cert_option_list alc numeric oat at opts buf which crit =
      (case split_pairs (contents buf) of None \<Rightarrow> None | Some ps \<Rightarrow> all_of f ps opts)"
    if b: "sshbuf_inv buf" "placed buf" and f: "round_means alc numeric at which crit f"
    for oat at opts buf which crit f
  proof -
    obtain v where v: "sshbuf_fromb alc oat buf = (Some v, buf\<lparr>b_refcount := b_refcount buf + 1\<rparr>)" "view_of oat (contents buf) v"
      using fromb_view[where alc = alc, OF b alc] by metis
    from v(2) have "readable v" "contents v = contents buf" by (simp_all add: view_of_def readable_def)
    with v(1) cert_options_mean[where alc = alc, OF alc f, of v] show ?thesis by (simp add: cert_option_list_def)
  qed
  show ?thesis
    using list[OF c critical_round[where alc = alc, OF alc]] list[OF e extension_round]
    by (simp add: sshauthopt_from_cert_def split: option.split)
qed

text \<open>A certificate that forces a command and permits a terminal.\<close>

definition demo_critical :: "u8 list" where
  "demo_critical = enc_string (bytes_of ''force-command'') @ enc_string (enc_string (bytes_of ''uptime''))"

definition demo_extensions :: "u8 list" where
  "demo_extensions = enc_string (bytes_of ''permit-pty'') @ enc_string [] @
     enc_string (bytes_of ''permit-everything'') @ enc_string [1]"

definition demo_cert :: "nat sshkey_cert" where
  "demo_cert = \<lparr>ct_type = 1, ct_principals = [''ann''], ct_valid_after = 0, ct_valid_before = 1000,
     ct_critical = demo_buf demo_critical, ct_extensions = demo_buf demo_extensions, ct_signature_key = 7\<rparr>"

lemma cstring_ok_text: "str_ok s \<Longrightarrow> cstring_ok (bytes_of s)"
  using bytes_of_0[of s] by (auto simp: cstring_ok_def str_ok_def dest: in_set_butlastD)

lemma split_pair:
  assumes "str_ok n" "length v \<le> 134217724"
  shows "split_pairs (enc_string (bytes_of n) @ enc_string v @ rest) = map_option (\<lambda>ps. (n, v) # ps) (split_pairs rest)"
proof -
  have "length (enc_string (bytes_of n)) \<noteq> 0" by simp
  then have "enc_string (bytes_of n) \<noteq> []" by blast
  with assms cstring_ok_text[OF assms(1)] show ?thesis
    by (subst split_pairs.simps) (simp add: str_ok_def)
qed

lemma whole_text: "str_ok s \<Longrightarrow> whole_string (enc_string (bytes_of s)) = Some s"
  using parse_enc_string[of "bytes_of s" "[]"] cstring_ok_text[of s] by (simp add: whole_string_def str_ok_def)

lemma split_nil: "split_pairs [] = Some []"
  by (simp add: split_pairs.simps)

lemma demo_lists:
  "split_pairs demo_critical = Some [(''force-command'', enc_string (bytes_of ''uptime''))]"
  "split_pairs demo_extensions = Some [(''permit-pty'', []), (''permit-everything'', [1])]"
  using split_pair[of "''force-command''" "enc_string (bytes_of ''uptime'')" "[]"]
    split_pair[of "''permit-pty''" "[]"] split_pair[of "''permit-everything''" "[1]" "[]"]
  by (simp_all add: demo_critical_def demo_extensions_def split_nil str_ok_def)

definition demo_places :: cert_places where
  "demo_places = \<lparr>cp_critical = 8192, cp_extensions = 12288, cp_view = 16384\<rparr>"

lemma demo_cert_meaning:
  "all_of (critical_meaning (\<lambda>_. None)) [(''force-command'', enc_string (bytes_of ''uptime''))] sshauthopt_new =
     Some (sshauthopt_new\<lparr>ao_force_command := Some ''uptime''\<rparr>)"
  "all_of extension_meaning [(''permit-pty'', []), (''permit-everything'', [1])] (sshauthopt_new\<lparr>ao_force_command := Some ''uptime''\<rparr>) =
     Some (sshauthopt_new\<lparr>ao_force_command := Some ''uptime'', ao_permit_pty_flag := 1\<rparr>)"
  using whole_text[of "''uptime''"]
  by (simp_all add: critical_meaning_def extension_meaning_def extension_option_def sshauthopt_new_def str_ok_def)

theorem certificate_options_are_their_bytes_witness:
  "sshauthopt_from_cert (\<lambda>_. 4096) (\<lambda>_. None) demo_places (Some demo_cert) =
     Some (sshauthopt_new\<lparr>ao_force_command := Some ''uptime'', ao_permit_pty_flag := 1\<rparr>)"
proof -
  have l: "length demo_critical \<le> 1000" "length demo_extensions \<le> 1000"
    by (simp_all add: demo_critical_def demo_extensions_def)
  then have p: "placed (demo_buf demo_critical)" "placed (demo_buf demo_extensions)"
    by (simp_all add: placed_def demo_buf_def unat_of_nat take_bit_eq_mod)
  have b: "ct_critical demo_cert = demo_buf demo_critical" "ct_extensions demo_cert = demo_buf demo_extensions"
    "ct_type demo_cert = 1"
    by (simp_all add: demo_cert_def)
  note t = certificate_options_are_their_bytes[of "\<lambda>_. 4096" demo_cert "\<lambda>_. None" demo_places, unfolded b]
  from t l p show ?thesis by (simp add: demo_lists demo_cert_meaning del: all_of.simps)
qed

end
