(* ===== verification/KeyProps.thy ===== *)
theory KeyProps
  imports AuthProps
begin

text \<open>Properties of the decision on public keys: which entry allows a key, and what a login with one has shown.\<close>

section \<open>Entries that allow a key\<close>

lemma authority_now:
  assumes "sshkey_cert_check_authority_now now key False rp False name"
  obtains ct where "cert_of key = Some ct" "ct_type ct = SSH2_CERT_TYPE_USER" "0 \<le> now"
    "ct_valid_after ct \<le> word_of_int now" "word_of_int now < ct_valid_before ct"
    "ct_principals ct = [] \<Longrightarrow> \<not> rp" "\<And>n. name = Some n \<Longrightarrow> ct_principals ct = [] \<or> n \<in> set (ct_principals ct)"
  using assms
  by (auto simp: sshkey_cert_check_authority_now_def sshkey_cert_check_authority_def list_ex_iff not_less not_le
      split: if_split_asm option.split_asm)

text \<open>The certificate is a user's and valid now, and the client meets the conditions in it.\<close>

definition cert_valid :: "'k auth_env \<Rightarrow> 'k sshkey_cert \<Rightarrow> string \<Rightarrow> string \<Rightarrow> sshauthopt \<Rightarrow> bool" where
  "cert_valid u ct ip host co \<longleftrightarrow>
     ct_type ct = SSH2_CERT_TYPE_USER \<and> 0 \<le> u_now u \<and> ct_valid_after ct \<le> word_of_int (u_now u) \<and>
     word_of_int (u_now u) < ct_valid_before ct \<and>
     sshauthopt_from_cert (u_alc u) (u_numeric u) (u_places u) (Some ct) = Some co \<and>
     auth_authorise_keyopts (u_numeric u) (u_now u) co False ip host"

text \<open>A line of a file of authorized keys, or of what the command for them printed before it exited cleanly.\<close>

definition listed_line :: "'k auth_env \<Rightarrow> key_options \<Rightarrow> passwd \<Rightarrow> 'k sshkey \<Rightarrow> string \<Rightarrow> bool" where
  "listed_line u opts pw key line \<longleftrightarrow>
     (\<exists>f file lines. f \<in> set (ko_authorized_keys_files opts) \<and> lowercase f \<noteq> ''none'' \<and>
        expand_authorized_keys f pw = Done file \<and> u_file u file = Some lines \<and> line \<in> set lines) \<or>
     (\<exists>cmd usr name lines. ko_authorized_keys_command opts = Some cmd \<and> ko_authorized_keys_command_user opts = Some usr \<and>
        percent_expand [(''u'', pw_name pw)] usr = Some name \<and> u_command u cmd name key = Some (lines, True) \<and>
        line \<in> set lines)"

text \<open>
  What a line grants. For a plain key the line holds this key and is not marked as an authority; for a
  certificate it is marked as one and holds the key the certificate is signed with, and the principals the
  line lists, or the user's name, are in the certificate. The client meets the conditions of the line.
\<close>

definition line_grants :: "'k auth_env \<Rightarrow> passwd \<Rightarrow> 'k sshkey \<Rightarrow> string \<Rightarrow> string \<Rightarrow> string \<Rightarrow> sshauthopt \<Rightarrow> bool" where
  "line_grants u pw key cp ip host ao \<longleftrightarrow>
     (\<exists>found given ko. line_key u (if sshkey_is_cert key then None else Some key) cp = Some (found, given) \<and>
        sshauthopt_parse (u_calls u) given = Inr ko \<and>
        auth_authorise_keyopts (u_numeric u) (u_now u) ko (sshkey_is_cert key) ip host \<and>
        (case key of
           Plain k \<Rightarrow> u_equal u found key \<and> ao_cert_authority ko = 0 \<and> ao = ko
         | Certified k ct \<Rightarrow>
             u_equal u found (Plain (ct_signature_key ct)) \<and> ao_cert_authority ko \<noteq> 0 \<and>
             (\<exists>co. cert_valid u ct ip host co \<and> sshauthopt_merge ko co = Inr ao) \<and>
             (case ao_cert_principals ko of
                None \<Rightarrow> ct_principals ct = [] \<or> pw_name pw \<in> set (ct_principals ct)
              | Some list \<Rightarrow> match_principals_option list (ct_principals ct))))"

text \<open>A line of the file of principals, or of what the command for them printed before it exited cleanly.\<close>

definition principals_line :: "'k auth_env \<Rightarrow> key_options \<Rightarrow> passwd \<Rightarrow> 'k sshkey \<Rightarrow> string \<Rightarrow> bool" where
  "principals_line u opts pw key line \<longleftrightarrow>
     (\<exists>file lines. authorized_principals_file opts pw = Done (Some file) \<and> u_file u file = Some lines \<and>
        line \<in> set lines) \<or>
     (\<exists>cmd usr name lines. ko_authorized_principals_command opts = Some cmd \<and>
        ko_authorized_principals_command_user opts = Some usr \<and> percent_expand [(''u'', pw_name pw)] usr = Some name \<and>
        u_command u cmd name key = Some (lines, True) \<and> line \<in> set lines)"

text \<open>
  A certificate of a trusted authority: it has principals, and the user's name is one of them, or, when a file
  or a command says who may log in, a line of theirs names one of them and the client meets its conditions.
\<close>

definition trusted_allows_cert ::
    "'k auth_env \<Rightarrow> key_options \<Rightarrow> passwd \<Rightarrow> 'k \<Rightarrow> 'k sshkey_cert \<Rightarrow> string \<Rightarrow> string \<Rightarrow> sshauthopt \<Rightarrow> bool" where
  "trusted_allows_cert u opts pw k ct ip host ao \<longleftrightarrow>
     (\<exists>cas co. ko_trusted_user_ca_keys opts = Some cas \<and> u_listed u (ct_signature_key ct) cas \<and>
        cert_valid u ct ip host co \<and> ct_principals ct \<noteq> [] \<and>
        ((ko_authorized_principals_file opts = None \<and> ko_authorized_principals_command opts = None \<and>
            pw_name pw \<in> set (ct_principals ct) \<and> ao = co) \<or>
         (\<exists>line po. principals_line u opts pw (Certified k ct) line \<and>
            auth_check_principals_line (u_calls u) (takeWhile (\<lambda>c. c \<noteq> CHR ''#'') (skip_space line)) (ct_principals ct) = Some po \<and>
            auth_authorise_keyopts (u_numeric u) (u_now u) po False ip host \<and> sshauthopt_merge po co = Inr ao)))"

definition key_allowed :: "'k auth_env \<Rightarrow> key_options \<Rightarrow> passwd \<Rightarrow> 'k sshkey \<Rightarrow> string \<Rightarrow> string \<Rightarrow> sshauthopt \<Rightarrow> bool" where
  "key_allowed u opts pw key ip host ao \<longleftrightarrow>
     (\<exists>line. listed_line u opts pw key line \<and> line_grants u pw key (skip_space line) ip host ao) \<or>
     (\<exists>k ct. key = Certified k ct \<and> trusted_allows_cert u opts pw k ct ip host ao)"

lemma accept_cert_valid:
  assumes "accept_cert u pw (Certified k ct) ko ip host = Some ao"
  obtains co where "cert_valid u ct ip host co" "sshauthopt_merge ko co = Inr ao"
    "case ao_cert_principals ko of None \<Rightarrow> ct_principals ct = [] \<or> pw_name pw \<in> set (ct_principals ct)
     | Some list \<Rightarrow> match_principals_option list (ct_principals ct)"
proof -
  from assms obtain co where cr: "sshauthopt_from_cert (u_alc u) (u_numeric u) (u_places u) (Some ct) = Some co"
      "auth_authorise_keyopts (u_numeric u) (u_now u) co False ip host" "sshauthopt_merge ko co = Inr ao"
    and pr: "case ao_cert_principals ko of None \<Rightarrow> True | Some list \<Rightarrow> match_principals_option list (ct_principals ct)"
    and now: "sshkey_cert_check_authority_now (u_now u) (Certified k ct) False False False
        (if ao_cert_principals ko = None then Some (pw_name pw) else None)"
    by (auto simp: accept_cert_def split: option.split_asm sum.split_asm if_split_asm)
  from now show thesis
  proof (rule authority_now)
    fix ct' assume c: "cert_of (Certified k ct) = Some ct'" "ct_type ct' = SSH2_CERT_TYPE_USER" "0 \<le> u_now u"
      "ct_valid_after ct' \<le> word_of_int (u_now u)" "word_of_int (u_now u) < ct_valid_before ct'"
      and n: "\<And>n. (if ao_cert_principals ko = None then Some (pw_name pw) else None) = Some n \<Longrightarrow>
        ct_principals ct' = [] \<or> n \<in> set (ct_principals ct')"
    from c have "cert_valid u ct ip host co" using cr by (simp add: cert_valid_def)
    with cr(3) pr n c(1) show thesis by (intro that) (auto split: option.splits)
  qed
qed

lemma line_allows:
  assumes "auth_check_authkey_line u pw key cp ip host = Done (Some ao)"
  shows "line_grants u pw key cp ip host ao"
proof -
  from assms obtain found given ko where
    p: "line_key u (if sshkey_is_cert key then None else Some key) cp = Some (found, given)"
      "sshauthopt_parse (u_calls u) given = Inr ko" and m: "key_matches u found key ko"
    and a: "auth_authorise_keyopts (u_numeric u) (u_now u) ko (sshkey_is_cert key) ip host"
    and r: "if sshkey_is_cert key then accept_cert u pw key ko ip host = Some ao else ko = ao"
    unfolding auth_check_authkey_line_def by (auto split: option.split_asm sum.split_asm prod.split_asm if_split_asm)
  show ?thesis
  proof (cases key)
    case (Plain k)
    with p m a r show ?thesis
      by (auto simp: line_grants_def sshkey_is_cert_def key_matches_def)
  next
    case (Certified k ct)
    with r obtain co where "cert_valid u ct ip host co" "sshauthopt_merge ko co = Inr ao"
      "case ao_cert_principals ko of None \<Rightarrow> ct_principals ct = [] \<or> pw_name pw \<in> set (ct_principals ct)
       | Some list \<Rightarrow> match_principals_option list (ct_principals ct)"
      by (auto simp: sshkey_is_cert_def elim: accept_cert_valid)
    with Certified p m a show ?thesis
      unfolding line_grants_def sshkey_is_cert_def key_matches_def by auto
  qed
qed

lemma file_allows:
  "auth_check_authkeys_file u pw lines key ip host = Done (Some ao) \<Longrightarrow>
   \<exists>line \<in> set lines. line_grants u pw key (skip_space line) ip host ao"
  by (induction lines)
    (auto simp: Let_def andThen_Done intro: line_allows split: if_split_asm option.split_asm)

lemma run_command_Some:
  "run_command u pw command user key f = Done (Some ao) \<Longrightarrow>
   \<exists>cmd usr name lines. command = Some cmd \<and> user = Some usr \<and> percent_expand [(''u'', pw_name pw)] usr = Some name \<and>
     u_command u cmd name key = Some (lines, True) \<and> f lines = Done (Some ao)"
  by (auto simp: run_command_def andThen_Done split: option.split_asm prod.split_asm if_split_asm)

lemma files_allow:
  "allowed_by_files u pw key fs ip host = Done (Some ao) \<Longrightarrow> set fs \<subseteq> set (ko_authorized_keys_files opts) \<Longrightarrow>
   key_allowed u opts pw key ip host ao"
proof (induction fs)
  case (Cons f fs)
  show ?case
  proof (cases "lowercase f = ''none''")
    case True
    with Cons show ?thesis by simp
  next
    case False
    with Cons.prems(1) obtain fl r where f: "expand_authorized_keys f pw = Done fl"
      and r: "user_key_allowed2 u pw key fl ip host = Done r"
        "(case r of None \<Rightarrow> allowed_by_files u pw key fs ip host | Some opts \<Rightarrow> Done (Some opts)) = Done (Some ao)"
      by (auto simp: andThen_Done)
    show ?thesis
    proof (cases r)
      case None
      with Cons r(2) show ?thesis by simp
    next
      case (Some x)
      with r obtain lines where "u_file u fl = Some lines" "auth_check_authkeys_file u pw lines key ip host = Done (Some ao)"
        by (auto simp: user_key_allowed2_def split: option.split_asm)
      with file_allows obtain line where "line \<in> set lines" "line_grants u pw key (skip_space line) ip host ao" by blast
      moreover have "f \<in> set (ko_authorized_keys_files opts)" using Cons.prems(2) by simp
      ultimately show ?thesis using f False \<open>u_file u fl = Some lines\<close>
        unfolding key_allowed_def listed_line_def by blast
    qed
  qed
qed simp

lemma principals_line_Some:
  "auth_process_principals k lines ps = Some po \<Longrightarrow>
   \<exists>line \<in> set lines. auth_check_principals_line k (takeWhile (\<lambda>c. c \<noteq> CHR ''#'') (skip_space line)) ps = Some po"
  by (induction lines) (auto simp: Let_def split: if_split_asm option.split_asm)

text \<open>A line of the principals that names one of the certificate's.\<close>

definition names_principal ::
    "'k auth_env \<Rightarrow> key_options \<Rightarrow> passwd \<Rightarrow> 'k sshkey \<Rightarrow> 'k sshkey_cert \<Rightarrow> sshauthopt \<Rightarrow> bool" where
  "names_principal u opts pw key ct po \<longleftrightarrow>
     (\<exists>line. principals_line u opts pw key line \<and>
        auth_check_principals_line (u_calls u) (takeWhile (\<lambda>c. c \<noteq> CHR ''#'') (skip_space line)) (ct_principals ct) = Some po)"

lemma principals_named:
  assumes "andThen (if (case f of None \<Rightarrow> None | Some g \<Rightarrow> match_principals_file u g ct) = None
      then match_principals_command u opts pw key ct else Done (case f of None \<Rightarrow> None | Some g \<Rightarrow> match_principals_file u g ct)) k
      = Done (Some ao)"
    and f: "authorized_principals_file opts pw = Done f"
  obtains r where "k r = Done (Some ao)" "\<And>po. r = Some po \<Longrightarrow> names_principal u opts pw key ct po"
proof -
  define found where "found = (case f of None \<Rightarrow> None | Some g \<Rightarrow> match_principals_file u g ct)"
  from assms(1) obtain r where r: "(if found = None then match_principals_command u opts pw key ct else Done found) = Done r"
      "k r = Done (Some ao)"
    by (auto simp only: andThen_Done simp flip: found_def)
  have "names_principal u opts pw key ct po" if "r = Some po" for po
  proof (cases "found = None")
    case True
    with r that show ?thesis
      by (fastforce simp: match_principals_command_def names_principal_def principals_line_def
          dest!: run_command_Some principals_line_Some)
  next
    case False
    with r that f show ?thesis
      by (fastforce simp: found_def match_principals_file_def names_principal_def principals_line_def
          dest!: principals_line_Some split: option.split_asm)
  qed
  then show thesis by (rule that[OF r(2)])
qed

lemma decision_allows:
  assumes "trusted_ca_decision u pw (Certified k ct) use po ip host = Some ao"
  obtains co where "cert_valid u ct ip host co" "ct_principals ct \<noteq> []"
    "po = None \<longrightarrow> \<not> use \<and> pw_name pw \<in> set (ct_principals ct) \<and> ao = co"
    "\<forall>p. po = Some p \<longrightarrow> auth_authorise_keyopts (u_numeric u) (u_now u) p False ip host \<and> sshauthopt_merge p co = Inr ao"
proof -
  from assms obtain co where cr: "sshauthopt_from_cert (u_alc u) (u_numeric u) (u_places u) (Some ct) = Some co"
      "auth_authorise_keyopts (u_numeric u) (u_now u) co False ip host"
    and now: "sshkey_cert_check_authority_now (u_now u) (Certified k ct) False True False (if use then None else Some (pw_name pw))"
    and po: "\<And>p. po = Some p \<Longrightarrow> auth_authorise_keyopts (u_numeric u) (u_now u) p False ip host \<and> sshauthopt_merge p co = Inr ao"
      "po = None \<longrightarrow> \<not> use \<and> ao = co"
    by (auto simp: trusted_ca_decision_def split: option.split_asm sum.split_asm if_split_asm)
  from now show thesis
  proof (rule authority_now)
    fix ct' assume c: "cert_of (Certified k ct) = Some ct'" "ct_type ct' = SSH2_CERT_TYPE_USER" "0 \<le> u_now u"
      "ct_valid_after ct' \<le> word_of_int (u_now u)" "word_of_int (u_now u) < ct_valid_before ct'"
      and ne: "ct_principals ct' = [] \<Longrightarrow> \<not> True"
      and n: "\<And>n. (if use then None else Some (pw_name pw)) = Some n \<Longrightarrow> ct_principals ct' = [] \<or> n \<in> set (ct_principals ct')"
    have "cert_valid u ct ip host co" using c cr by (simp add: cert_valid_def)
    with c ne n po show thesis by (intro that) auto
  qed
qed

lemma trusted_allows:
  assumes "user_cert_trusted_ca u opts pw key ip host = Done (Some ao)"
  shows "key_allowed u opts pw key ip host ao"
proof -
  from assms obtain k ct cas where key: "key = Certified k ct" and ca: "ko_trusted_user_ca_keys opts = Some cas"
    by (cases key) (auto simp: user_cert_trusted_ca_def split: option.split_asm)
  from assms have listed: "u_listed u (ct_signature_key ct) cas"
    and m: "andThen (authorized_principals_file opts pw) (\<lambda>f.
      let found = (case f of None \<Rightarrow> None | Some g \<Rightarrow> match_principals_file u g ct) in
      andThen (if found = None then match_principals_command u opts pw key ct else Done found)
      (\<lambda>r. Done (trusted_ca_decision u pw key (f \<noteq> None \<or> ko_authorized_principals_command opts \<noteq> None) r ip host)))
      = Done (Some ao)"
    by (simp_all only: user_cert_trusted_ca_def key ca cert_of.simps prod.case option.case run.inject option.distinct
        not_not split: if_split_asm)
  from iffD1[OF andThen_Done, OF m] obtain f where f: "authorized_principals_file opts pw = Done f"
    and found: "andThen (if (case f of None \<Rightarrow> None | Some g \<Rightarrow> match_principals_file u g ct) = None
        then match_principals_command u opts pw key ct
        else Done (case f of None \<Rightarrow> None | Some g \<Rightarrow> match_principals_file u g ct))
      (\<lambda>r. Done (trusted_ca_decision u pw key (f \<noteq> None \<or> ko_authorized_principals_command opts \<noteq> None) r ip host))
      = Done (Some ao)"
    by (auto simp only: Let_def)
  from found f obtain r where
      d: "trusted_ca_decision u pw key (f \<noteq> None \<or> ko_authorized_principals_command opts \<noteq> None) r ip host = Some ao"
    and r: "\<And>po. r = Some po \<Longrightarrow> names_principal u opts pw key ct po"
    by (rule principals_named) simp
  have fn: "f = None \<Longrightarrow> ko_authorized_principals_file opts = None"
    using f by (auto simp: authorized_principals_file_def andThen_Done split: option.split_asm)
  from d[unfolded key] obtain co where "cert_valid u ct ip host co" "ct_principals ct \<noteq> []"
      "r = None \<longrightarrow> \<not> (f \<noteq> None \<or> ko_authorized_principals_command opts \<noteq> None) \<and> pw_name pw \<in> set (ct_principals ct) \<and> ao = co"
      "\<forall>p. r = Some p \<longrightarrow> auth_authorise_keyopts (u_numeric u) (u_now u) p False ip host \<and> sshauthopt_merge p co = Inr ao"
    by (rule decision_allows)
  with ca listed fn r have "trusted_allows_cert u opts pw k ct ip host ao"
    unfolding trusted_allows_cert_def names_principal_def key by (cases r) auto
  with key show ?thesis by (simp add: key_allowed_def)
qed

lemma command_allows:
  "user_key_command_allowed2 u opts pw key ip host = Done (Some ao) \<Longrightarrow> key_allowed u opts pw key ip host ao"
  by (fastforce simp: user_key_command_allowed2_def key_allowed_def listed_line_def dest!: run_command_Some file_allows)

lemma sources_allow:
  "user_key_allowed u opts pw key ip host = Done (Some ao) \<Longrightarrow> key_allowed u opts pw key ip host ao"
  by (auto simp: user_key_allowed_def andThen_Done intro: files_allow[OF _ subset_refl] trusted_allows command_allows
      split: if_split_asm option.split_asm)


definition demo_users :: "nat auth_env" where
  "demo_users = \<lparr>u_calls = demo_calls, u_numeric = (\<lambda>_. None), u_alc = (\<lambda>_. 4096),
     u_places = \<lparr>cp_critical = 8192, cp_extensions = 12288, cp_view = 16384\<rparr>,
     u_now = 500, u_read = (\<lambda>_ s. if take 7 s = ''ssh-rsa'' then Some (Plain 7, drop 7 s) else None),
     u_equal = (=), u_equal_public = (=), u_fingerprint = (\<lambda>_. True), u_revoked = (\<lambda>k f. k \<noteq> Plain 7),
     u_listed = (\<lambda>k f. False), u_file = (\<lambda>f. if f = ''/home/ann/.ssh/authorized_keys'' then Some [''# keys'', demo_line] else None),
     u_command = (\<lambda>_ _ _. None)\<rparr>"

definition demo_key_options :: key_options where
  "demo_key_options = \<lparr>ko_trusted_user_ca_keys = None, ko_authorized_principals_file = None,
     ko_authorized_principals_command = None, ko_authorized_principals_command_user = None,
     ko_authorized_keys_files = [''none'', ''%h/.ssh/authorized_keys''], ko_authorized_keys_command = None,
     ko_authorized_keys_command_user = None, ko_revoked_keys_file = Some ''/etc/ssh/revoked''\<rparr>"

definition demo_passwd :: passwd where
  "demo_passwd = \<lparr>pw_name = ''ann'', pw_dir = ''/home/ann'', pw_uid = 1000\<rparr>"

lemma demo_allowed: "user_key_allowed demo_users demo_key_options demo_passwd (Plain 7) ip host = Done (Some demo_parsed)"
proof -
  have f: "expand_authorized_keys ''%h/.ssh/authorized_keys'' demo_passwd = Done ''/home/ann/.ssh/authorized_keys''"
    by (simp add: expand_authorized_keys_def demo_passwd_def path_absolute_def)
  have k: "line_key demo_users (Some (Plain 7)) demo_line = Some (Plain 7, Some demo_line)" by code_simp
  have a: "auth_authorise_keyopts (\<lambda>_. None) 500 demo_parsed False ip host"
    by (simp add: auth_authorise_keyopts_def entry_expired_def demo_parsed_def sshauthopt_new_def)
  have l: "auth_check_authkey_line demo_users demo_passwd (Plain 7) demo_line ip host = Done (Some demo_parsed)"
    using k a demo_line_parses
    by (simp add: auth_check_authkey_line_def sshkey_is_cert_def key_matches_def demo_users_def)
      (simp add: demo_parsed_def sshauthopt_new_def)
  have s: "skip_space ''# keys'' = ''# keys''" "skip_space demo_line = demo_line" "hd demo_line = CHR ''r''" "demo_line \<noteq> []"
    by (simp_all add: skip_space_def blank_def demo_line_def)
  have "auth_check_authkeys_file demo_users demo_passwd [''# keys'', demo_line] (Plain 7) ip host = Done (Some demo_parsed)"
    using l s by simp
  then have "user_key_allowed2 demo_users demo_passwd (Plain 7) ''/home/ann/.ssh/authorized_keys'' ip host = Done (Some demo_parsed)"
    by (simp add: user_key_allowed2_def demo_users_def)
  moreover have "lowercase ''none'' = ''none''" "lowercase ''%h/.ssh/authorized_keys'' \<noteq> ''none''" by code_simp+
  ultimately have "allowed_by_files demo_users demo_passwd (Plain 7) (ko_authorized_keys_files demo_key_options) ip host = Done (Some demo_parsed)"
    using f by (simp add: demo_key_options_def)
  moreover have "\<not> auth_key_is_revoked demo_users demo_key_options (Plain 7)"
    by (simp add: auth_key_is_revoked_def demo_users_def demo_key_options_def)
  ultimately show ?thesis by (simp add: user_key_allowed_def)
qed


section \<open>What a login with a key has shown\<close>

lemma high_bit: "bit (b :: u8) n \<Longrightarrow> n < 8"
  using bit_imp_le_length[of b n] by simp

lemma no_high: "\<not> bit (b :: u8) (8 + n)" "\<not> bit (b :: u8) (16 + n)" "\<not> bit (b :: u8) (24 + n)"
  by (auto dest: high_bit)

lemma POKE_PEEK_bytes:
  fixes a b c d :: u8
  shows "POKE_U32 (PEEK_U32 [a, b, c, d]) = [a, b, c, d]"
proof -
  have p: "PEEK_U32 [a, b, c, d] = push_bit 24 (ucast a) OR push_bit 16 (ucast b) OR push_bit 8 (ucast c) OR ucast d" (is "_ = ?w")
    by (simp add: PEEK_U32_def)
  have "(ucast (drop_bit 24 ?w AND mask 8) :: u8) = a"
    by (rule bit_word_eqI) (auto simp: bit_simps no_high)
  moreover have "(ucast (drop_bit 16 ?w AND mask 8) :: u8) = b"
    by (rule bit_word_eqI) (auto simp: bit_simps no_high)
  moreover have "(ucast (drop_bit 8 ?w AND mask 8) :: u8) = c"
    by (rule bit_word_eqI) (auto simp: bit_simps no_high)
  moreover have "(ucast (?w AND mask 8) :: u8) = d"
    by (rule bit_word_eqI) (auto simp: bit_simps no_high)
  ultimately show ?thesis unfolding POKE_U32_def p low_byte_eq_mask by simp
qed

lemma POKE_PEEK_U32: "length v = 4 \<Longrightarrow> POKE_U32 (PEEK_U32 v) = v"
  by (auto simp: numeral_eq_Suc length_Suc_conv POKE_PEEK_bytes)

lemma parsed_string:
  assumes "parse_string bs = Inr v"
  shows "bs = enc_string v @ drop (4 + length v) bs"
proof -
  note p = parse_string_Inr[OF assms]
  have "word_of_nat (unat (PEEK_U32 (take 4 bs))) = PEEK_U32 (take 4 bs)" by simp
  then have "word_of_nat (length v) = PEEK_U32 (take 4 bs)" using p by simp
  then have "POKE_U32 (word_of_nat (length v)) = take 4 bs" using p POKE_PEEK_U32[of "take 4 bs"] by simp
  then have "enc_string v = take 4 bs @ take (length v) (drop 4 bs)" using p by (simp add: enc_string_def)
  then have "enc_string v = take (4 + length v) bs" by (simp only: take_add)
  then show ?thesis by simp
qed

lemma took_string:
  assumes "parse_string (contents p) = Inr s" "contents p1 = drop (4 + length s) (contents p)"
  shows "contents p = enc_string s @ contents p1 \<and> length s \<le> 134217724"
  using parsed_string[OF assms(1)] parse_string_Inr[OF assms(1)] assms(2) by argo

lemma took:
  assumes "sshbuf_inv p"
  shows "sshbuf_get_u8 p = (Inr v, p1) \<Longrightarrow> sshbuf_inv p1 \<and> contents p = [v] @ contents p1"
    and "sshbuf_get_cstring alc p = (Inr s, p1) \<Longrightarrow> sshbuf_inv p1 \<and> contents p = enc_string s @ contents p1 \<and> length s \<le> 134217724"
    and "sshbuf_get_string alc p = (Inr s, p1) \<Longrightarrow> sshbuf_inv p1 \<and> contents p = enc_string s @ contents p1 \<and> length s \<le> 134217724"
proof -
  show "sshbuf_get_u8 p = (Inr v, p1) \<Longrightarrow> sshbuf_inv p1 \<and> contents p = [v] @ contents p1"
    using get_int_post(4)[OF assms] by (cases "contents p") (auto simp: get_post_def simp del: length_contents split: if_split_asm)
  show "sshbuf_inv p1 \<and> contents p = enc_string s @ contents p1 \<and> length s \<le> 134217724"
    if "sshbuf_get_cstring alc p = (Inr s, p1)"
  proof -
    have "parse_string (contents p) = Inr s" "sshbuf_inv p1" "contents p1 = drop (4 + length s) (contents p)"
      using get_cstring_spec[OF assms that]
      by (cases "parse_string (contents p)"; simp del: length_contents split: if_split_asm)+
    then show ?thesis using took_string by blast
  qed
  show "sshbuf_inv p1 \<and> contents p = enc_string s @ contents p1 \<and> length s \<le> 134217724"
    if "sshbuf_get_string alc p = (Inr s, p1)"
  proof -
    have "parse_string (contents p) = Inr s" "sshbuf_inv p1" "contents p1 = drop (4 + length s) (contents p)"
      using get_string_spec[OF assms that]
      by (cases "parse_string (contents p)"; simp del: length_contents)+
    then show ?thesis using took_string by blast
  qed
qed

lemma must_Done: "must get p k = Done x \<longleftrightarrow> (\<exists>v p1. get p = (Inr v, p1) \<and> k v p1 = Done x)"
  by (auto simp: must_def split: prod.split sum.split)

lemma must_end_Done: "must_end p m = Done x \<longleftrightarrow> sshbuf_len p = 0 \<and> m = Done x"
  by (simp add: must_end_def word_gt_0)

text \<open>A text as the bytes of a string: up to its first zero.\<close>

definition enc_text :: "string \<Rightarrow> u8 list" where
  "enc_text s = enc_string (takeWhile (\<lambda>x. x \<noteq> 0) (bytes_of s))"

text \<open>The bytes a signature of the method is over.\<close>

definition signed_bytes :: "'k auth_sys \<Rightarrow> 'k authctxt \<Rightarrow> bool \<Rightarrow> string \<Rightarrow> u8 \<Rightarrow> string \<Rightarrow> u8 list \<Rightarrow> u8 list" where
  "signed_bytes z au hostbound method have_sig pkalg pkblob =
     (if z_compat z AND SSH_OLD_SESSIONID \<noteq> 0 then z_session_id z else enc_string (z_session_id z)) @
     [SSH2_MSG_USERAUTH_REQUEST] @
     enc_text (text_or_empty (au_user au) @ (case au_style au of None \<Rightarrow> [] | Some st \<Rightarrow> '':'' @ st)) @
     enc_text (text_or_empty (au_service au)) @ enc_text method @ [have_sig] @ enc_text pkalg @ enc_string pkblob @
     (if hostbound then case z_initial_hostkey z of None \<Rightarrow> [] | Some k \<Rightarrow> enc_string (z_put_key z k) else [])"

text \<open>The texts are in memory.\<close>

definition lengths_ok :: "'k auth_sys \<Rightarrow> 'k authctxt \<Rightarrow> string \<Rightarrow> bool" where
  "lengths_ok z au method \<longleftrightarrow> length (z_session_id z) < 2 ^ 63 \<and> length (text_or_empty (au_user au)) < 2 ^ 62 \<and>
     length (text_or_empty (au_style au)) < 2 ^ 62 \<and> length (text_or_empty (au_service au)) < 2 ^ 63 \<and>
     length method < 2 ^ 63 \<and> (\<forall>k. z_initial_hostkey z = Some k \<longrightarrow> length (z_put_key z k) < 2 ^ 63)"

lemma puts_like_text: "length s < 2 ^ 64 \<Longrightarrow> puts_like (put_text alc s) (enc_text s)"
  using puts_like_rules(4)[of "bytes_of s" alc] by (simp add: put_text_def enc_text_def puts_like_def)

lemma puts_like_string: "length s < 2 ^ 64 \<Longrightarrow> puts_like (\<lambda>b. sshbuf_put_string alc b s) (enc_string s)"
  by (simp add: puts_like_def put_string_post)

lemma signed_contents:
  assumes n: "sshbuf_new (u_alc z) = Some b" and s: "puts [put_session_id z] b = (Inr u1, b1)"
    and r: "puts (request_fields z au hostbound method have_sig pkalg pkblob) b1 = (Inr u2, b2)"
    and l: "lengths_ok z au method" "length pkblob \<le> 134217724" "length pkalg \<le> 134217724"
  shows "contents b2 = signed_bytes z au hostbound method have_sig pkalg pkblob"
proof -
  have "puts_like (put_session_id z) (if z_compat z AND SSH_OLD_SESSIONID \<noteq> 0 then z_session_id z else enc_string (z_session_id z))"
    using l(1) puts_like_rules(3)[of "z_session_id z" "u_alc z"] puts_like_string[of "z_session_id z" "u_alc z"]
    by (simp add: put_session_id_def lengths_ok_def puts_like_def)
  then have i: "sshbuf_inv b1 \<and> contents b1 = contents b @
      concat [if z_compat z AND SSH_OLD_SESSIONID \<noteq> 0 then z_session_id z else enc_string (z_session_id z)]"
    using new_inv[OF n] by (intro puts_append[OF _ _ s]) simp_all
  have us: "length (text_or_empty (au_user au) @ (case au_style au of None \<Rightarrow> [] | Some st \<Rightarrow> '':'' @ st)) < 2 ^ 64"
    using l(1) by (auto simp: lengths_ok_def text_or_empty_def split: option.splits)
  have style: "(case au_style au of None \<Rightarrow> text_or_empty (au_user au) | Some st \<Rightarrow> text_or_empty (au_user au) @ '':'' @ st) =
      text_or_empty (au_user au) @ (case au_style au of None \<Rightarrow> [] | Some st \<Rightarrow> '':'' @ st)"
    by (simp split: option.split)
  have "list_all2 puts_like (request_fields z au hostbound method have_sig pkalg pkblob)
      ([[SSH2_MSG_USERAUTH_REQUEST], enc_text (text_or_empty (au_user au) @ (case au_style au of None \<Rightarrow> [] | Some st \<Rightarrow> '':'' @ st)),
        enc_text (text_or_empty (au_service au)), enc_text method, [have_sig], enc_text pkalg, enc_string pkblob] @
       (if hostbound then case z_initial_hostkey z of None \<Rightarrow> [] | Some k \<Rightarrow> [enc_string (z_put_key z k)] else []))"
    unfolding request_fields_def Let_def style
    using l us puts_like_rules(1) by (auto simp: lengths_ok_def intro!: puts_like_text puts_like_string split: option.split)
  from puts_append[OF this conjunct1[OF i] r] new_inv[OF n] i
  show ?thesis by (auto simp: signed_bytes_def split: option.split)
qed

lemma activated:
  assumes "activate_on_success True (Some opts) au = Done (True, au1)"
  obtains old m where "au_opts au = Some old" "sshauthopt_merge old opts = Inr m" "au1 = au\<lparr>au_opts := Some m\<rparr>"
  using assms
  by (auto simp: activate_on_success_def auth_activate_options_def andThen_Done split: option.split_asm sum.split_asm)

lemma recorded:
  "auth2_record_key True key au = Done au1 \<Longrightarrow> au1 = au\<lparr>au_method_key := Some key, au_prev_keys := au_prev_keys au @ [key]\<rparr>"
  by (auto simp: auth2_record_key_def Let_def split: if_split_asm)

text \<open>What has been shown when a request with a key is granted.\<close>

definition key_shown :: "'k auth_sys \<Rightarrow> auth2_options \<Rightarrow> 'k authctxt \<Rightarrow> string \<Rightarrow> u8 list \<Rightarrow> 'k sshkey \<Rightarrow> sshauthopt \<Rightarrow> bool" where
  "key_shown z w au pkalg pkblob key opts \<longleftrightarrow>
     au_valid au \<and> au_user au \<noteq> None \<and>
     z_from_blob z pkblob = Some key \<and> z_type_from_name z pkalg = Some (z_type z key) \<and>
     match_pattern_list pkalg (w_pubkey_accepted_algos w) False = 1 \<and> z_rsa_length_ok z key \<and>
     \<not> auth2_key_already_used (auth_env.truncate z) au key \<and>
     user_key_allowed (auth_env.truncate z) (w_keys w) (au_pw au) key (z_remote_ip z) (z_remote_host z) = Done (Some opts)"

lemma acceptable:
  "acceptable_key z accepted pkalg pkblob used = Some key \<Longrightarrow>
   z_from_blob z pkblob = Some key \<and> z_type_from_name z pkalg = Some (z_type z key) \<and> \<not> used key \<and>
   match_pattern_list pkalg accepted False = 1 \<and> z_rsa_length_ok z key"
  by (auto simp: acceptable_key_def split: option.split_asm if_split_asm)

lemma with_new_Done: "with_new alc k = Done x \<longleftrightarrow> (\<exists>b. sshbuf_new alc = Some b \<and> k b = Done x)"
  by (auto simp: with_new_def split: option.split)

lemma must_put_Done: "must_put fs b k = Done x \<longleftrightarrow> (\<exists>b1. puts fs b = (Inr (), b1) \<and> k b1 = Done x)"
  by (auto simp: must_put_def split: prod.split sum.split)

text \<open>The signature on a request, the security key's report, and the options the session has from then on.\<close>

definition signed_login ::
    "'k auth_sys \<Rightarrow> auth2_options \<Rightarrow> u8 list \<Rightarrow> u8 list \<Rightarrow> string \<Rightarrow> 'k sshkey \<Rightarrow> sshauthopt \<Rightarrow> 'k authctxt \<Rightarrow> 'k authctxt \<Rightarrow> bool" where
  "signed_login z w msg sig pkalg key opts au au1 \<longleftrightarrow>
     (\<exists>details. z_verify z key sig msg (if z_compat z AND SSH_BUG_SIGTYPE = 0 then Some pkalg else None) = Some details \<and>
        (\<forall>counter flags. details = Some (counter, flags) \<longrightarrow> sk_requirements w opts flags)) \<and>
     (\<exists>old m. au_opts au = Some old \<and> sshauthopt_merge old opts = Inr m \<and> au_opts au1 = Some m) \<and>
     au_prev_keys au1 = au_prev_keys au @ [key]"

lemma verdict_True:
  assumes "signature_verdict w key authopts verified au = Done (True, au1)"
  obtains opts details where "authopts = Some opts" "verified = Some details"
    "\<forall>counter flags. details = Some (counter, flags) \<longrightarrow> sk_requirements w opts flags"
    "\<exists>old m. au_opts au = Some old \<and> sshauthopt_merge old opts = Inr m \<and> au_opts au1 = Some m"
    "au_prev_keys au1 = au_prev_keys au @ [key]"
proof -
  have kept: "(\<exists>old m. au_opts au = Some old \<and> sshauthopt_merge old opts = Inr m \<and> au_opts au1 = Some m) \<and>
      au_prev_keys au1 = au_prev_keys au @ [key]"
    if "andThen (auth2_record_key True key au0) (activate_on_success True (Some opts)) = Done (True, au1)"
      "au_opts au0 = au_opts au" "au_prev_keys au0 = au_prev_keys au" for au0 opts
    using that by (auto simp: andThen_Done dest!: recorded elim!: activated)
  show thesis
  proof (cases authopts)
    case None
    with assms show ?thesis by (simp add: signature_verdict_def andThen_Done)
  next
    case (Some opts)
    show ?thesis
    proof (cases verified)
      case None
      with assms show ?thesis by (cases authopts) (simp_all add: signature_verdict_def andThen_Done)
    next
      case v: (Some details)
      show ?thesis
      proof (cases details)
        case None
        with assms Some v kept[of au opts] show ?thesis by (intro that[OF Some v]) (simp_all add: signature_verdict_def)
      next
        case d: (Some cf)
        obtain counter flags where cf: "cf = (counter, flags)" by (cases cf)
        with assms Some v d have sk: "sk_requirements w opts flags"
          and r: "andThen (auth2_record_key True key (au\<lparr>au_method_info := Some (''signature count = '' @ decimal (unat counter))\<rparr>))
            (activate_on_success True (Some opts)) = Done (True, au1)"
          by (simp_all add: signature_verdict_def Let_def split: if_split_asm)
        from kept[OF r] sk d cf show ?thesis by (intro that[OF Some v]) simp_all
      qed
    qed
  qed
qed

lemma signature_tried:
  assumes t: "try_signature z w hostbound method have_sig pkalg pkblob key p au = Done (True, au1)"
    and p: "sshbuf_inv p" and l: "lengths_ok z au method" "length pkblob \<le> 134217724" "length pkalg \<le> 134217724"
  obtains sig opts where "contents p = enc_string sig" "au_valid au" "au_user au \<noteq> None"
    "user_key_allowed (auth_env.truncate z) (w_keys w) (au_pw au) key (z_remote_ip z) (z_remote_host z) = Done (Some opts)"
    "signed_login z w (signed_bytes z au hostbound method have_sig pkalg pkblob) sig pkalg key opts au au1"
proof -
  define sent where "sent = (\<lambda>sig b1. must_put (request_fields z au hostbound method have_sig pkalg pkblob) b1 (\<lambda>b2.
         andThen (user_key_allowed (auth_env.truncate z) (w_keys w) (au_pw au) key (z_remote_ip z) (z_remote_host z))
          (\<lambda>authopts. signature_verdict w key authopts
            (z_verify z key sig (contents b2) (if z_compat z AND SSH_BUG_SIGTYPE = 0 then Some pkalg else None)) au)))"
  from t obtain sig p1 b b1 where g: "sshbuf_get_string (u_alc z) p = (Inr sig, p1)" "sshbuf_len p1 = 0"
    and b: "sshbuf_new (u_alc z) = Some b" "puts [put_session_id z] b = (Inr (), b1)"
    and st: "(if \<not> au_valid au \<or> au_user au = None then Done (False, au) else sent sig b1) = Done (True, au1)"
    unfolding try_signature_def must_Done must_end_Done with_new_Done must_put_Done[of "[put_session_id z]"] sent_def
    by blast
  from st have ok: "au_valid au" "au_user au \<noteq> None" and s1: "sent sig b1 = Done (True, au1)"
    by (simp_all split: if_split_asm)
  from s1 obtain b2 authopts where
    b2: "puts (request_fields z au hostbound method have_sig pkalg pkblob) b1 = (Inr (), b2)"
    and u: "user_key_allowed (auth_env.truncate z) (w_keys w) (au_pw au) key (z_remote_ip z) (z_remote_host z) = Done authopts"
    and v: "signature_verdict w key authopts
       (z_verify z key sig (contents b2) (if z_compat z AND SSH_BUG_SIGTYPE = 0 then Some pkalg else None)) au = Done (True, au1)"
    unfolding sent_def must_put_Done andThen_Done by blast
  have c: "contents p = enc_string sig" using took(3)[OF p g(1)] len_zero[of p1] g(2) by simp
  note ms = signed_contents[OF b b2 l]
  from v show thesis unfolding ms
  proof (rule verdict_True)
    fix opts details assume "authopts = Some opts"
      "z_verify z key sig (signed_bytes z au hostbound method have_sig pkalg pkblob)
         (if z_compat z AND SSH_BUG_SIGTYPE = 0 then Some pkalg else None) = Some details"
      "\<forall>counter flags. details = Some (counter, flags) \<longrightarrow> sk_requirements w opts flags"
      "\<exists>old m. au_opts au = Some old \<and> sshauthopt_merge old opts = Inr m \<and> au_opts au1 = Some m"
      "au_prev_keys au1 = au_prev_keys au @ [key]"
    with u show thesis by (intro that[OF c ok, of opts]) (simp_all add: signed_login_def)
  qed
qed

lemma bound_host_Done:
  assumes "bound_host z hostbound p k = Done x" "sshbuf_inv p"
  obtains p1 hostkey where "k p1 = Done x" "sshbuf_inv p1" "contents p = hostkey @ contents p1"
    "if hostbound then \<exists>blob k0 k1. hostkey = enc_string blob \<and> z_from_blob z blob = Some k0 \<and>
       z_initial_hostkey z = Some k1 \<and> u_equal z k0 k1 else hostkey = []"
proof (cases hostbound)
  case False
  with assms that[of p "[]"] show thesis by (simp add: bound_host_def)
next
  case True
  with assms(1) obtain blob p1 where g: "sshbuf_get_string (u_alc z) p = (Inr blob, p1)"
    and c: "(case z_from_blob z blob of
          None \<Rightarrow> Fatal
        | Some hostkey \<Rightarrow>
          (case z_initial_hostkey z of
             None \<Rightarrow> Fatal
           | Some initial \<Rightarrow> if \<not> u_equal z hostkey initial then Fatal else k p1)) = Done x"
    by (simp only: bound_host_def if_False simp_thms not_True_eq_False must_Done) blast
  from c obtain k0 k1 where h: "z_from_blob z blob = Some k0" "z_initial_hostkey z = Some k1" "u_equal z k0 k1" "k p1 = Done x"
    by (cases "z_from_blob z blob"; cases "z_initial_hostkey z") (auto split: if_split_asm)
  from took(3)[OF assms(2) g] h True show thesis by (intro that[of p1 "enc_string blob"]) auto
qed


text \<open>A server whose one user signs with the identifier of the session.\<close>

definition demo_sys :: "nat auth_sys" where
  "demo_sys = auth_env.extend demo_users \<lparr>z_getpwnamallow = (\<lambda>u. if u = ''ann'' then Some demo_passwd else None),
     z_fakepw = demo_passwd, z_banner = None, z_sys_auth_passwd = (\<lambda>s. s = ''secret''), z_pwexpired = False,
     z_type_from_name = (\<lambda>s. if s = ''ssh-rsa'' then Some 1 else None), z_type = (\<lambda>_. 1),
     z_from_blob = (\<lambda>b. if b = [7] then Some (Plain 7) else None), z_put_key = (\<lambda>_. [7]), z_sigtype_ok = (\<lambda>_. True),
     z_rsa_length_ok = (\<lambda>_. True),
     z_verify = (\<lambda>k sig msg alg. if k = Plain 7 \<and> sig = take 2 (drop 4 msg) then Some None else None),
     z_session_id = [11, 12], z_initial_hostkey = Some (Plain 3), z_compat = 0, z_remote_ip = ''192.0.2.1'',
     z_remote_host = ''client'', z_hostbased_key_allowed = (\<lambda>_ _ _ _. False), z_dev_init = (\<lambda>_. True),
     z_dev_query = (\<lambda>_. None), z_dev_respond = (\<lambda>_ _. -1)\<rparr>"

lemma demo_sys_simps [simp]:
  "auth_env.truncate demo_sys = demo_users" "u_alc demo_sys = (\<lambda>_. 4096)" "z_session_id demo_sys = [11, 12]"
  "z_compat demo_sys = 0" "z_remote_ip demo_sys = ''192.0.2.1''" "z_remote_host demo_sys = ''client''"
  "z_banner demo_sys = None" "z_pwexpired demo_sys = False" "z_type demo_sys k = 1" "z_sigtype_ok demo_sys k" "z_rsa_length_ok demo_sys k"
  "z_from_blob demo_sys bs = (if bs = [7] then Some (Plain 7) else None)"
  "z_type_from_name demo_sys nm = (if nm = ''ssh-rsa'' then Some 1 else None)"
  "z_verify demo_sys k sig msg alg = (if k = Plain 7 \<and> sig = take 2 (drop 4 msg) then Some None else None)"
  by (simp_all add: demo_sys_def auth_env.defs demo_users_def)

definition demo_auth_options :: auth2_options where
  "demo_auth_options = \<lparr>w_keys = demo_key_options, w_password_authentication = True, w_pubkey_authentication = True,
     w_kbd_interactive_authentication = False, w_hostbased_authentication = False, w_permit_empty_passwd = False,
     w_max_authtries = 6, w_permit_root_login = PERMIT_NO_PASSWD, w_pubkey_accepted_algos = ''ssh-*'',
     w_hostbased_accepted_algos = [], w_touch_required = False, w_verify_required = False, w_devices = []\<rparr>"

definition demo_authctxt :: "nat authctxt" where
  "demo_authctxt = (auth_init [] demo_passwd)\<lparr>au_valid := True, au_user := Some ''ann'', au_service := Some ''ssh-connection''\<rparr>"

lemma demo_authctxt_simps [simp]:
  "au_valid demo_authctxt" "au_user demo_authctxt = Some ''ann''" "au_style demo_authctxt = None" "au_pw demo_authctxt = demo_passwd"
  "au_service demo_authctxt = Some ''ssh-connection''" "au_opts demo_authctxt = Some sshauthopt_new_with_keys_defaults"
  "au_prev_keys demo_authctxt = []"
  by (simp_all add: demo_authctxt_def auth_init_def)

definition demo_request :: "u8 list" where
  "demo_request = [1] @ enc_string (bytes_of ''ssh-rsa'') @ enc_string [7] @ enc_string [11, 12]"

definition demo_merged :: sshauthopt where
  "demo_merged = (case sshauthopt_merge sshauthopt_new_with_keys_defaults demo_parsed of Inr m \<Rightarrow> m | Inl _ \<Rightarrow> sshauthopt_new)"

lemma demo_merge: "sshauthopt_merge sshauthopt_new_with_keys_defaults demo_parsed = Inr demo_merged"
proof -
  have "\<not> isl (sshauthopt_merge sshauthopt_new_with_keys_defaults demo_parsed)" by code_simp
  then show ?thesis by (auto simp: demo_merged_def split: sum.split)
qed

lemma strings_read:
  assumes "sshbuf_inv p" "contents p = enc_string s @ rest" "length s \<le> 134217724"
  shows "\<exists>p1. sshbuf_get_string (\<lambda>_. 4096) p = (Inr s, p1) \<and> sshbuf_inv p1 \<and> contents p1 = rest"
    and "cstring_ok s \<Longrightarrow> \<exists>p1. sshbuf_get_cstring (\<lambda>_. 4096) p = (Inr s, p1) \<and> sshbuf_inv p1 \<and> contents p1 = rest"
proof -
  have ps: "parse_string (contents p) = Inr s" using assms(2,3) by simp
  obtain r p1 where g: "sshbuf_get_string (\<lambda>_. 4096) p = (r, p1)" by fastforce
  from get_string_spec[OF assms(1) g] ps assms(2)
  show "\<exists>p1. sshbuf_get_string (\<lambda>_. 4096) p = (Inr s, p1) \<and> sshbuf_inv p1 \<and> contents p1 = rest"
    using g by simp
  obtain r2 p2 where g2: "sshbuf_get_cstring (\<lambda>_. 4096) p = (r2, p2)" by fastforce
  from get_cstring_spec[OF assms(1) g2] ps assms(2)
  show "cstring_ok s \<Longrightarrow> \<exists>p1. sshbuf_get_cstring (\<lambda>_. 4096) p = (Inr s, p1) \<and> sshbuf_inv p1 \<and> contents p1 = rest"
    using g2 by simp
qed

lemma demo_lengths: "lengths_ok demo_sys demo_authctxt ''publickey''"
  by (simp add: lengths_ok_def text_or_empty_def) (simp add: demo_sys_def auth_env.defs)

lemma demo_signed:
  "\<exists>b b1 b2. sshbuf_new (\<lambda>_. 4096) = Some b \<and> puts [put_session_id demo_sys] b = (Inr (), b1) \<and>
     puts (request_fields demo_sys demo_authctxt False ''publickey'' 1 ''ssh-rsa'' [7]) b1 = (Inr (), b2) \<and>
     take 2 (drop 4 (contents b2)) = [11, 12]"
proof -
  obtain b where b: "sshbuf_new (\<lambda>_. 4096) = Some b" "sshbuf_inv b" "contents b = []" "writable b" "unat (b_max_size b) = 134217728"
    using new_works[of "\<lambda>_. 4096"] by auto
  have "works (puts [put_session_id demo_sys]) (concat [enc_string [11, 12]])"
    by (rule works_puts) (simp add: works_def put_session_id_def works_string[of "\<lambda>_. 4096" "[11, 12]", unfolded works_def, simplified])
  then obtain b1 where b1: "puts [put_session_id demo_sys] b = (Inr (), b1)" "sshbuf_inv b1" "same_shape b b1"
      "contents b1 = enc_string [11, 12]"
    using b unfolding works_def by fastforce
  have wt: "works (put_text (\<lambda>_. 4096) s) (enc_string (bytes_of s))" if "str_ok s" for s
    using works_text[of "\<lambda>_. 4096" s] that by (simp add: put_text_def works_def)
  have "works (puts (request_fields demo_sys demo_authctxt False ''publickey'' 1 ''ssh-rsa'' [7]))
      (concat [[SSH2_MSG_USERAUTH_REQUEST], enc_string (bytes_of ''ann''), enc_string (bytes_of ''ssh-connection''),
        enc_string (bytes_of ''publickey''), [1], enc_string (bytes_of ''ssh-rsa''), enc_string [7]])"
    unfolding request_fields_def Let_def
    by (rule works_puts) (simp add: text_or_empty_def works_int[of "\<lambda>_. 4096"] works_string[of "\<lambda>_. 4096"] wt str_ok_def)
  then obtain b2 where b2: "puts (request_fields demo_sys demo_authctxt False ''publickey'' 1 ''ssh-rsa'' [7]) b1 = (Inr (), b2)"
    using b1 b same_shape_writable[OF b1(3)] unfolding works_def same_shape_def by fastforce
  have "contents b2 = signed_bytes demo_sys demo_authctxt False ''publickey'' 1 ''ssh-rsa'' [7]"
    by (rule signed_contents[of demo_sys b _ b1, OF _ b1(1) b2 demo_lengths]) (simp_all add: b)
  then have "take 2 (drop 4 (contents b2)) = [11, 12]" by (simp add: signed_bytes_def enc_string_def)
  with b b1 b2 show ?thesis by blast
qed

lemma demo_login: "\<exists>au1. userauth_pubkey demo_sys demo_auth_options ''publickey'' (demo_buf demo_request) demo_authctxt = Done (True, au1)"
proof -
  have l: "length demo_request \<le> 1000" by (simp add: demo_request_def)
  have p: "sshbuf_inv (demo_buf demo_request)" "contents (demo_buf demo_request) = demo_request" using l by simp_all
  obtain p1 where p1: "sshbuf_get_u8 (demo_buf demo_request) = (Inr 1, p1)" "sshbuf_inv p1"
      "contents p1 = enc_string (bytes_of ''ssh-rsa'') @ enc_string [7] @ enc_string [11, 12]"
    using cod_u8.get_law[OF p(1) TrueI, of 1] p(2) unfolding demo_request_def by fastforce
  have "cstring_ok (bytes_of ''ssh-rsa'')" by (rule cstring_ok_text) (simp add: str_ok_def)
  then obtain p2 where p2: "sshbuf_get_cstring (\<lambda>_. 4096) p1 = (Inr (bytes_of ''ssh-rsa''), p2)" "sshbuf_inv p2"
      "contents p2 = enc_string [7] @ enc_string [11, 12]"
    using strings_read(2)[OF p1(2,3)] by auto
  obtain p3 where p3: "sshbuf_get_string (\<lambda>_. 4096) p2 = (Inr [7], p3)" "sshbuf_inv p3" "contents p3 = enc_string [11, 12] @ []"
    using strings_read(1)[OF p2(2,3)] by auto
  obtain p4 where p4: "sshbuf_get_string (\<lambda>_. 4096) p3 = (Inr [11, 12], p4)" "sshbuf_inv p4" "contents p4 = []"
    using strings_read(1)[OF p3(2,3)] by auto
  have e: "sshbuf_len p4 = 0" using len_zero[OF p4(2)] p4(3) by simp
  obtain b b1 b2 where b: "sshbuf_new (\<lambda>_. 4096) = Some b" "puts [put_session_id demo_sys] b = (Inr (), b1)"
      "puts (request_fields demo_sys demo_authctxt False ''publickey'' 1 ''ssh-rsa'' [7]) b1 = (Inr (), b2)"
      "take 2 (drop 4 (contents b2)) = [11, 12]"
    using demo_signed by blast
  have v: "z_verify demo_sys (Plain 7) [11, 12] (contents b2) (Some ''ssh-rsa'') = Some None"
    using b(4) by simp
  have u: "user_key_allowed demo_users (w_keys demo_auth_options) demo_passwd (Plain 7) ''192.0.2.1'' ''client'' = Done (Some demo_parsed)"
    using demo_allowed by (simp add: demo_auth_options_def)
  have alg: "cstr (bytes_of ''ssh-rsa'') = ''ssh-rsa''" by simp
  have "match_pattern_list ''ssh-rsa'' ''ssh-*'' False = 1" by code_simp
  then have a: "acceptable_key demo_sys (w_pubkey_accepted_algos demo_auth_options) ''ssh-rsa'' [7] (auth2_key_already_used demo_users demo_authctxt)
      = Some (Plain 7)"
    by (simp add: acceptable_key_def auth2_key_already_used_def demo_auth_options_def)
  have "\<exists>au1. signature_verdict demo_auth_options (Plain 7) (Some demo_parsed) (Some None) demo_authctxt = Done (True, au1)"
    by (simp add: signature_verdict_def auth2_record_key_def Let_def activate_on_success_def auth_activate_options_def demo_merge)
  then have "\<exists>au1. try_signature demo_sys demo_auth_options False ''publickey'' 1 ''ssh-rsa'' [7] (Plain 7) p3 demo_authctxt = Done (True, au1)"
    using p4(1) e b v u by (simp add: try_signature_def must_def must_end_def with_new_def must_put_def del: puts.simps)
  then show ?thesis using p1(1) p2(1) p3(1) alg a
    by (simp add: userauth_pubkey_def must_def bound_host_def)
qed


section \<open>Options that cannot be merged\<close>

text \<open>
  C38: Two sources of options that cannot be put together undo the success of the method, but they also
  lose the options of the session: the record is left without any, and whatever reads it next ends the process.
  The next success of a key, the restriction for an expired password and the question whether root may log in
  with a forced command all read a null pointer.
\<close>

theorem lost_options_end_the_server:
  assumes "au_opts au = Some old" "sshauthopt_merge old opts = Inl e"
  shows "\<exists>lost. activate_on_success True (Some opts) au = Done (False, lost) \<and> au_opts lost = None \<and>
    activate_on_success True (Some opts2) lost = Fatal \<and> auth_restrict_session (au_opts lost) = Fatal \<and>
    (w_permit_root_login w = PERMIT_FORCED_ONLY \<longrightarrow> auth_root_allowed w method lost = Fatal)"
  using assms
  by (simp add: activate_on_success_def auth_activate_options_def auth_restrict_session_def auth_root_allowed_def)

theorem lost_options_end_the_server_witness:
  "\<exists>lost. activate_on_success True (Some demo_parsed)
      (demo_authctxt\<lparr>au_opts := Some (sshauthopt_new\<lparr>ao_force_command := Some ''backup''\<rparr>)\<rparr>) = Done (False, lost) \<and>
    activate_on_success True (Some demo_parsed) lost = Fatal"
proof -
  have m: "sshauthopt_merge (sshauthopt_new\<lparr>ao_force_command := Some ''backup''\<rparr>) demo_parsed =
      Inl ''forced command options do not match''"
    by code_simp
  show ?thesis
    using lost_options_end_the_server[OF _ m, of "demo_authctxt\<lparr>au_opts := Some (sshauthopt_new\<lparr>ao_force_command := Some ''backup''\<rparr>)\<rparr>"
      demo_parsed demo_auth_options] by auto
qed

end
