(* ===== verification/Auth2Props.thy ===== *)
theory Auth2Props
  imports KeyProps "HOL-Library.Sublist"
begin

text \<open>Properties of an authentication as a whole: what a success has gone through, and how often a client may try.\<close>

section \<open>What the methods leave alone\<close>

definition frame where
  "frame au = (au_auth_methods au, au_config_methods au, au_session_info au, au_success au, au_valid au, au_attempt au,
     au_failures au, au_requests au)"

lemma frame_updates [simp]:
  "frame (au\<lparr>au_postponed := b\<rparr>) = frame au" "frame (au\<lparr>au_server_caused_failure := b\<rparr>) = frame au"
  "frame (au\<lparr>au_expire_checked := b\<rparr>) = frame au" "frame (au\<lparr>au_force_pwchange := b\<rparr>) = frame au"
  "frame (au\<lparr>au_none_enabled := b\<rparr>) = frame au" "frame (au\<lparr>au_kbdint := kb\<rparr>) = frame au"
  "frame (au\<lparr>au_prev_keys := ks\<rparr>) = frame au" "frame (au\<lparr>au_method_key := k\<rparr>) = frame au"
  "frame (au\<lparr>au_method_info := i\<rparr>) = frame au" "frame (au\<lparr>au_opts := ao\<rparr>) = frame au"
  "frame (au\<lparr>au_info_response := d\<rparr>) = frame au" "frame (send r au) = frame au"
  by (simp_all add: frame_def send_def)

text \<open>A computation whose result, when it has one, has the same frame.\<close>

definition framed :: "'k authctxt \<Rightarrow> (bool \<times> 'k authctxt) run \<Rightarrow> bool" where
  "framed au m \<longleftrightarrow> (\<forall>b au1. m = Done (b, au1) \<longrightarrow> frame au1 = frame au)"

lemma framed_Done [simp]: "framed au (Done (b, au1)) \<longleftrightarrow> frame au1 = frame au"
  by (simp add: framed_def)

lemma framed_Fatal [simp]: "framed au Fatal" "framed au Disconnect"
  by (simp_all add: framed_def)

lemma framed_must: "(\<And>v p1. framed au (k v p1)) \<Longrightarrow> framed au (must get p k)"
  by (auto simp: framed_def must_Done)

lemma framed_end: "framed au m \<Longrightarrow> framed au (must_end p m)"
  by (simp add: must_end_def)

lemma framed_new: "(\<And>b. framed au (k b)) \<Longrightarrow> framed au (with_new alc k)"
  by (auto simp: with_new_def split: option.split)

lemma framed_put: "(\<And>b. framed au (k b)) \<Longrightarrow> framed au (must_put fs b k)"
  by (auto simp: must_put_def split: prod.split sum.split)

lemma framed_then: "(\<And>x. m = Done x \<Longrightarrow> framed au (k x)) \<Longrightarrow> framed au (andThen m k)"
  by (cases m) auto

lemma record_frame: "auth2_record_key b key au = Done au1 \<Longrightarrow> frame au1 = frame au"
  by (auto simp: auth2_record_key_def Let_def split: if_split_asm)

lemma framed_other: "framed au1 m \<Longrightarrow> frame au1 = frame au \<Longrightarrow> framed au m"
  by (simp add: framed_def)

lemma framed_activate: "framed au (activate_on_success b ao au)"
  by (auto simp: activate_on_success_def split: option.split intro!: framed_then)

lemma framed_verdict: "framed au (signature_verdict w key authopts verified au)"
proof -
  have k: "framed au (andThen (auth2_record_key True key au0) (activate_on_success True ao))" if "frame au0 = frame au" for au0 ao
    by (intro framed_then framed_other[OF framed_activate]) (simp add: record_frame that)
  show ?thesis
    by (auto simp: signature_verdict_def Let_def record_frame intro!: framed_then k split: option.split prod.split)
qed

lemma framed_password: "framed au (auth_password z w password au)"
  by (auto simp: auth_password_def Let_def intro!: framed_then)

lemma framed_pubkey: "framed au (userauth_pubkey z w mth p au)"
proof -
  have "framed au (try_signature z w hb mth hs pkalg pkblob key p4 au)" for hb hs pkalg pkblob key p4
    unfolding try_signature_def
    by (intro framed_must framed_end framed_new framed_put) (auto intro!: framed_put framed_then framed_verdict)
  moreover have "framed au (query_key z w pkalg pkblob key p4 au)" for pkalg pkblob key p4
    unfolding query_key_def by (intro framed_end) (auto intro!: framed_then)
  ultimately show ?thesis
    unfolding userauth_pubkey_def Let_def bound_host_def
    by (auto intro!: framed_must split: option.split)
qed

lemma framed_hostbased: "framed au (userauth_hostbased z w mth p au)"
  unfolding userauth_hostbased_def Let_def
  by (auto intro!: framed_must framed_new framed_put framed_then split: option.split) (auto dest: record_frame)

lemma challenge_frame:
  "frame (auth2_challenge_stop au) = frame au" "frame (snd (send_userauth_info_request z d kb au)) = frame au"
  by (simp_all add: auth2_challenge_stop_def send_userauth_info_request_def split: option.split)

lemma challenge_start_frame: "frame (auth2_challenge_start z w kb au) = frame au"
proof -
  have "frame au1 = frame au" if "send_userauth_info_request z d kb1 au = (b, au1)" for d kb1 b au1
    using challenge_frame(2)[of z d kb1 au] that by simp
  then show ?thesis
    by (auto simp: auth2_challenge_start_def Let_def challenge_frame(1) split: option.split prod.split bool.split)
qed

lemma framed_none: "framed au (userauth_none z w p au)"
  by (auto simp: userauth_none_def Let_def intro!: framed_end framed_other[OF framed_password])

lemma framed_passwd: "framed au (userauth_passwd z w p au)"
  unfolding userauth_passwd_def Let_def by (auto intro!: framed_must framed_end framed_password)

lemma framed_kbdint: "framed au (userauth_kbdint z w p au)"
  unfolding userauth_kbdint_def
  by (intro framed_must framed_end) (simp add: auth2_challenge_def challenge_start_frame)

lemma framed_run: "framed au (run_method z w m mth p au)"
  by (simp add: run_method_def framed_none framed_pubkey framed_passwd framed_kbdint framed_hostbased)

lemma response_frame: "read_info_response z w p au = Done (b, d, au1) \<Longrightarrow> frame au1 = frame au"
proof -
  have g: "\<exists>rs p1. k rs p1 = Done x" if "get_responses alc n p k = Done x" for alc n p k and x :: "bool \<times> string \<times> 'a authctxt"
    using that by (induction alc n p k rule: get_responses.induct) (simp only: get_responses.simps must_Done; blast)+
  have i: "frame au1 = frame au0" if "info_response_result z w kb d rs au0 = (b, au1)" for kb d rs au0 b and au1 :: "'a authctxt"
    using that challenge_frame(2)[of z d kb au0]
    by (auto simp: info_response_result_def Let_def challenge_start_frame challenge_frame(1) split: prod.split_asm if_split_asm)
  assume "read_info_response z w p au = Done (b, d, au1)"
  then show ?thesis
    by (auto simp: read_info_response_def must_Done must_end_Done split: option.split_asm if_split_asm prod.split_asm
        dest!: g i)
qed

section \<open>A success has gone through a whole list\<close>

text \<open>What is left of a list of methods after some of them succeeded, one after the other.\<close>

fun after_methods :: "string \<Rightarrow> (string \<times> string option) list \<Rightarrow> string option" where
  "after_methods m [] = Some m"
| "after_methods m ((mth, submethod) # ms) =
     (case remove_method m mth submethod of None \<Rightarrow> None | Some m1 \<Rightarrow> after_methods m1 ms)"

lemma after_methods_append:
  "after_methods m (xs @ [(me, sub)]) = (case after_methods m xs of None \<Rightarrow> None | Some m1 \<Rightarrow> remove_method m1 me sub)"
  by (induction m xs rule: after_methods.induct) (auto split: option.split)

definition succeeded :: "'k authctxt \<Rightarrow> (string \<times> string option) list" where
  "succeeded au = map (\<lambda>(mth, submethod, k, i). (mth, submethod)) (au_session_info au)"

text \<open>A rest that methods that succeeded, in this order, leave of a configured list.\<close>

definition rest_of :: "string list \<Rightarrow> 'k authctxt \<Rightarrow> string \<Rightarrow> bool" where
  "rest_of cfg au r \<longleftrightarrow> (\<exists>m ms. m \<in> set cfg \<and> m \<noteq> [] \<and> subseq ms (succeeded au) \<and> after_methods m ms = Some r)"

definition on_course :: "string list \<Rightarrow> 'k authctxt \<Rightarrow> bool" where
  "on_course cfg au \<longleftrightarrow> au_config_methods au = cfg \<and> (\<forall>r \<in> set (au_auth_methods au). rest_of cfg au r) \<and>
     (au_success au \<longrightarrow> au_valid au \<and> rest_of cfg au [])"

lemma on_course_frame: "frame au1 = frame au \<Longrightarrow> on_course cfg au1 \<longleftrightarrow> on_course cfg au"
  by (simp add: frame_def on_course_def rest_of_def succeeded_def)

lemma rest_grows:
  assumes "succeeded au1 = succeeded au @ [(me, sub)]" "rest_of cfg au r"
  shows "rest_of cfg au1 r" "remove_method r me sub = Some r1 \<Longrightarrow> rest_of cfg au1 r1"
proof -
  from assms(2) obtain m ms where m: "m \<in> set cfg" "m \<noteq> []" "subseq ms (succeeded au)" "after_methods m ms = Some r"
    by (auto simp: rest_of_def)
  have "subseq ms (succeeded au1)" using list_emb_append_mono[OF m(3) list_emb_Nil, of "[(me, sub)]"] assms(1) by simp
  with m show "rest_of cfg au1 r" by (auto simp: rest_of_def)
  assume "remove_method r me sub = Some r1"
  then have "after_methods m (ms @ [(me, sub)]) = Some r1" using m(4) by (simp add: after_methods_append)
  moreover have "subseq (ms @ [(me, sub)]) (succeeded au1)" using m(3) assms(1) by simp
  ultimately show "rest_of cfg au1 r1" using m(1,2) by (auto simp: rest_of_def)
qed

lemma update_lists_rests:
  "update_lists ms me sub = (ms1, found, complete) \<Longrightarrow>
   (\<forall>r \<in> set ms1. r \<in> set ms \<or> (\<exists>m \<in> set ms. remove_method m me sub = Some r)) \<and>
   (complete \<longrightarrow> (\<exists>m \<in> set ms. remove_method m me sub = Some []))"
proof (induction ms arbitrary: ms1 found complete)
  case (Cons m ms)
  show ?case
  proof (cases "remove_method m me sub = Some []")
    case True
    with Cons.prems show ?thesis by auto
  next
    case False
    obtain ms2 f c where u: "update_lists ms me sub = (ms2, f, c)" by (cases "update_lists ms me sub")
    note IH = Cons.IH[OF u]
    show ?thesis
    proof (cases "remove_method m me sub")
      case None
      with Cons.prems u have "ms1 = m # ms2" "complete = c" by simp_all
      with IH show ?thesis by auto
    next
      case (Some m1)
      with False Cons.prems u have "ms1 = m1 # ms2" "complete = c" by auto
      with IH Some show ?thesis by auto
    qed
  qed
qed simp

lemma reply_keeps:
  assumes "finish_reply w a part mth au = Done au1"
  shows "au_auth_methods au1 = au_auth_methods au" "au_config_methods au1 = au_config_methods au"
    "au_session_info au1 = au_session_info au" "au_valid au1 = au_valid au" "au_attempt au1 = au_attempt au"
    "au_success au1 \<longrightarrow> au_success au \<or> a"
    "au_failures au1 = au_failures au \<or> au_failures au1 = au_failures au + 1 \<and> au_failures au1 < w_max_authtries w"
  using assms by (auto simp: finish_reply_def Let_def send_def split: if_split_asm)

text \<open>An attempt that was recorded, and what it did to the lists.\<close>

lemma finish_steps:
  assumes "userauth_finish w a pm sub au = Done au3"
  obtains mth a1 a2 part au1 au2 where "finish_method a pm au = Done mth" "root_check w a mth au = Done a1"
    "methods_check a1 mth sub au = Done (a2, part, au1)"
    "(if a2 \<or> part then auth2_update_session_info mth sub au1 else Done au1) = Done au2"
    "finish_reply w a2 part mth au2 = Done au3"
  using assms by (auto simp: userauth_finish_def andThen_Done split: prod.split_asm)

lemma root_check_implies: "root_check w a mth au = Done a1 \<Longrightarrow> a1 \<Longrightarrow> a"
  by (auto simp: root_check_def split: if_split_asm)

lemma finish_method_valid: "finish_method True pm au = Done mth \<Longrightarrow> au_valid au"
  by (auto simp: finish_method_def split: if_split_asm)

lemma finish_on_course:
  assumes f: "userauth_finish w a pm sub au = Done au3" and c: "on_course cfg au" and cfg: "cfg \<noteq> []"
    and s: "\<not> au_success au"
  shows "on_course cfg au3"
proof -
  from f obtain mth a1 a2 part au1 au2 where m: "finish_method a pm au = Done mth" "root_check w a mth au = Done a1"
    and mc: "methods_check a1 mth sub au = Done (a2, part, au1)"
    and up: "(if a2 \<or> part then auth2_update_session_info mth sub au1 else Done au1) = Done au2"
    and fr: "finish_reply w a2 part mth au2 = Done au3"
    by (rule finish_steps)
  note k = reply_keeps[OF fr]
  have cf: "au_config_methods au = cfg" using c by (simp add: on_course_def)
  show ?thesis
  proof (cases a1)
    case False
    with mc cfg cf have "\<not> a2" "\<not> part" "au1 = au" by (simp_all add: methods_check_def)
    with up k s c show ?thesis by (simp add: on_course_def rest_of_def succeeded_def)
  next
    case True
    have v: "au_valid au" using True root_check_implies[OF m(2)] finish_method_valid m(1) by simp
    obtain ms found complete where u: "update_lists (au_auth_methods au) mth sub = (ms, found, complete)"
      by (cases "update_lists (au_auth_methods au) mth sub")
    with mc True cfg cf have d: "a2 = complete" "part = (\<not> complete)" "au1 = au\<lparr>au_auth_methods := ms\<rparr>"
      by (auto simp: methods_check_def auth2_update_methods_lists_def andThen_Done split: if_split_asm)
    then have i: "au_session_info au2 = au_session_info au @ [(mth, sub, au_method_key au1, au_method_info au1)]"
      "au_auth_methods au2 = ms" "au_config_methods au2 = cfg" "au_valid au2 = au_valid au" "au_success au2 = au_success au"
      using up cf by (auto simp: auth2_update_session_info_def split: if_split_asm)
    have g: "succeeded au3 = succeeded au @ [(mth, sub)]" using i k by (simp add: succeeded_def)
    have r: "\<forall>r \<in> set (au_auth_methods au). rest_of cfg au r" using c by (simp add: on_course_def)
    have ul: "(\<forall>r \<in> set ms. r \<in> set (au_auth_methods au) \<or> (\<exists>m \<in> set (au_auth_methods au). remove_method m mth sub = Some r))"
      "complete \<longrightarrow> (\<exists>m \<in> set (au_auth_methods au). remove_method m mth sub = Some [])"
      using update_lists_rests[OF u] by blast+
    have "\<forall>r \<in> set ms. rest_of cfg au3 r" using ul(1) r rest_grows[OF g] by blast
    moreover have "complete \<longrightarrow> rest_of cfg au3 []" using ul(2) r rest_grows(2)[OF g] by blast
    moreover have "au_success au3 \<longrightarrow> complete" using k(6) i(5) s d(1) by simp
    ultimately show ?thesis using k i v by (simp add: on_course_def)
  qed
qed

lemma finish_keeps:
  assumes "userauth_finish w a pm sub au = Done au3"
  shows "au_attempt au3 = au_attempt au" "au_valid au3 = au_valid au"
    "au_failures au3 = au_failures au \<or> au_failures au3 = au_failures au + 1 \<and> au_failures au3 < w_max_authtries w"
proof -
  from assms obtain mth a1 a2 part au1 au2 where
    mc: "methods_check a1 mth sub au = Done (a2, part, au1)"
    and up: "(if a2 \<or> part then auth2_update_session_info mth sub au1 else Done au1) = Done au2"
    and fr: "finish_reply w a2 part mth au2 = Done au3"
    by (rule finish_steps)
  have 1: "au_attempt au1 = au_attempt au \<and> au_valid au1 = au_valid au \<and> au_failures au1 = au_failures au"
    using mc by (auto simp: methods_check_def auth2_update_methods_lists_def andThen_Done split: if_split_asm prod.split_asm)
  have 2: "au_attempt au2 = au_attempt au1 \<and> au_valid au2 = au_valid au1 \<and> au_failures au2 = au_failures au1"
    using up by (auto simp: auth2_update_session_info_def split: if_split_asm)
  show "au_attempt au3 = au_attempt au" "au_valid au3 = au_valid au"
    "au_failures au3 = au_failures au \<or> au_failures au3 = au_failures au + 1 \<and> au_failures au3 < w_max_authtries w"
    using 1 2 reply_keeps[OF fr] by simp_all
qed

text \<open>An attempt is a method's run, or none, and its end.\<close>

lemma attempt_steps:
  assumes "attempt z w mth p au0 = Done au1"
  obtains b au2 where "frame au2 = frame au0" "userauth_finish w b mth None au2 = Done au1"
proof -
  define au where "au = (auth2_authctxt_reset_info (auth2_challenge_stop au0))\<lparr>au_postponed := False, au_server_caused_failure := False\<rparr>"
  have fr: "frame au = frame au0" by (simp add: au_def auth2_authctxt_reset_info_def challenge_frame(1))
  have "andThen
      (case authmethod_lookup w au mth of
         Some m \<Rightarrow> if au_failures au < w_max_authtries w then run_method z w m mth p au else Done (False, au)
       | None \<Rightarrow> Done (False, au))
      (\<lambda>(authenticated, au1). userauth_finish w authenticated mth None au1) = Done au1"
    using assms by (simp only: attempt_def Let_def au_def)
  then obtain b au2 where r: "(case authmethod_lookup w au mth of
         Some m \<Rightarrow> if au_failures au < w_max_authtries w then run_method z w m mth p au else Done (False, au)
       | None \<Rightarrow> Done (False, au)) = Done (b, au2)"
    and f: "userauth_finish w b mth None au2 = Done au1"
    unfolding andThen_Done by auto
  have "frame au2 = frame au"
    using r framed_run[unfolded framed_def, rule_format] by (auto split: option.split_asm if_split_asm)
  with fr that f show thesis by simp
qed

lemma attempt_on_course:
  assumes a: "attempt z w mth p au0 = Done au1" and c: "on_course cfg au0" and cfg: "cfg \<noteq> []" and s: "\<not> au_success au0"
  shows "on_course cfg au1"
  using a
proof (rule attempt_steps)
  fix b au2 assume fr: "frame au2 = frame au0" and f: "userauth_finish w b mth None au2 = Done au1"
  have "on_course cfg au2" "\<not> au_success au2" using on_course_frame[OF fr] fr c s by (simp_all add: frame_def)
  then show ?thesis by (rule finish_on_course[OF f _ cfg])
qed

lemma setup_course:
  assumes st: "setup_context z w user style service au = Done au1" and c: "on_course cfg au" "cfg \<noteq> []" "cfg \<noteq> [''any'']"
    and s: "\<not> au_success au"
  shows "on_course cfg au1 \<and> \<not> au_success au1 \<and> au_attempt au1 = au_attempt au"
proof -
  have cf: "au_config_methods au = cfg" using c by (simp add: on_course_def)
  obtain au2 where a2: "auth2_setup_methods_lists w au2 = (True, au1)"
    and e: "au_config_methods au2 = au_config_methods au" "au_success au2 = au_success au" "au_attempt au2 = au_attempt au"
    using st unfolding setup_context_def Let_def
    by (auto simp: send_def split: prod.split_asm if_split_asm option.split_asm)
  from a2 e cf c have "au1 = au2\<lparr>au_auth_methods := filter (\<lambda>m. auth2_methods_valid w au2 m True) cfg\<rparr>"
    by (auto simp: auth2_setup_methods_lists_def Let_def split: if_split_asm)
  moreover have "rest_of cfg au3 m" if "m \<in> set cfg" "m \<noteq> []" for m and au3 :: "'a authctxt"
    unfolding rest_of_def using that by (intro exI[of _ m] exI[of _ "[]"]) simp
  ultimately show ?thesis using e s cf c by (auto simp: on_course_def auth2_methods_valid_def)
qed

lemma wants_Done: "wants get p k = Done x \<longleftrightarrow> (\<exists>v p1. get p = (Inr v, p1) \<and> k v p1 = Done x)"
  by (auto simp: wants_def split: prod.split sum.split)

lemma wants_end_Done: "wants_end p m = Done x \<longleftrightarrow> sshbuf_len p = 0 \<and> m = Done x"
  by (simp add: wants_end_def word_gt_0)

lemma on_course_counted [simp]: "on_course cfg (au\<lparr>au_attempt := n\<rparr>) \<longleftrightarrow> on_course cfg au"
  by (simp add: on_course_def rest_of_def succeeded_def)

lemma on_course_sent [simp]: "on_course cfg (send r au) \<longleftrightarrow> on_course cfg au" "on_course cfg (au\<lparr>au_requests := d\<rparr>) \<longleftrightarrow> on_course cfg au"
  by (simp_all add: on_course_def rest_of_def succeeded_def send_def)

text \<open>What a request comes to, past the checks of its fields.\<close>

lemma request_cases:
  assumes "input_userauth_request z w p au = Done au1"
  obtains (first) user style service mth p3 au2 where "au_attempt au = 0"
      "setup_context z w user style service (au\<lparr>au_attempt := 1\<rparr>) = Done au2" "attempt z w mth p3 au2 = Done au1"
    | (later) mth p3 where "au_attempt au < 1024" "au_attempt au \<noteq> 0"
      "attempt z w mth p3 (au\<lparr>au_attempt := au_attempt au + 1\<rparr>) = Done au1"
proof (cases "au_attempt au = 0")
  case True
  with assms first show thesis by (auto simp: input_userauth_request_def wants_Done Let_def andThen_Done)
next
  case False
  with assms later show thesis
    by (auto simp: input_userauth_request_def wants_Done Let_def not_le split: if_split_asm)
qed

lemma dispatch_on_course:
  assumes d: "auth_dispatch z w e au = Done au1" and c: "on_course cfg au" "cfg \<noteq> []" "cfg \<noteq> [''any'']"
    and s: "\<not> au_success au"
  shows "on_course cfg au1"
proof (cases e)
  case (Service_request p)
  with d c show ?thesis
    by (auto simp: input_service_request_def wants_Done wants_end_Done split: if_split_asm)
next
  case (Userauth_request p)
  show ?thesis
  proof (cases "au_requests au")
    case Handled
    with d Userauth_request have "input_userauth_request z w p au = Done au1" by (simp add: dispatched_def)
    then show ?thesis
    proof (cases rule: request_cases)
      case (first user style service mth p3 au2)
      with setup_course[OF first(2)] c s have "on_course cfg au2" "\<not> au_success au2" by simp_all
      with attempt_on_course[OF first(3)] c show ?thesis by simp
    next
      case (later mth p3)
      with attempt_on_course[OF later(3)] c s show ?thesis by simp
    qed
  qed (use d Userauth_request c in \<open>auto simp: dispatched_def\<close>)
next
  case (Userauth_info_response p)
  show ?thesis
  proof (cases "au_info_response au")
    case Handled
    with d Userauth_info_response obtain b dev au2 where "read_info_response z w p au = Done (b, dev, au2)"
      and f: "userauth_finish w b ''keyboard-interactive'' (Some dev) au2 = Done au1"
      by (auto simp: dispatched_def input_userauth_info_response_def andThen_Done)
    then have fr: "frame au2 = frame au" using response_frame by blast
    then have "\<not> au_success au2" using s by (simp add: frame_def)
    with finish_on_course[OF f _ c(2)] on_course_frame[OF fr] c(1) show ?thesis by simp
  qed (use d Userauth_info_response c in \<open>auto simp: dispatched_def\<close>)
qed

text \<open>
  C4: With lists of methods configured, an authentication succeeds only for a valid user and only when one of
  the lists has been worked off: methods that succeeded in this connection, in the order they did, take it away
  from its front element by element until nothing is left. Whatever the client sends, and in whichever order,
  it cannot succeed with part of a list.
\<close>

theorem success_completes_a_list:
  assumes "auth_reachable w (auth_init cfg pw) au" "au_success au" "cfg \<noteq> []" "cfg \<noteq> [''any'']"
  shows "au_valid au \<and> (\<exists>m ms. m \<in> set cfg \<and> m \<noteq> [] \<and> subseq ms (succeeded au) \<and> after_methods m ms = Some [])"
proof -
  have "on_course cfg au"
    using assms(1)
  proof (induction rule: auth_reachable.induct)
    case auth_start
    show ?case by (simp add: on_course_def auth_init_def)
  next
    case (auth_step au z e au1)
    then have "on_course cfg au" "\<not> au_success au" by simp_all
    with dispatch_on_course[OF auth_step(3)] assms(3,4) show ?case by simp
  qed
  with assms(2) show ?thesis by (simp add: on_course_def rest_of_def)
qed

text \<open>A client that asks for the service and sends the password.\<close>

lemma demo_sys_users:
  "z_getpwnamallow demo_sys u = (if u = ''ann'' then Some demo_passwd else None)" "z_sys_auth_passwd demo_sys s = (s = ''secret'')"
  by (simp_all add: demo_sys_def auth_env.defs)

definition demo_begin :: "nat authctxt" where
  "demo_begin = auth_init [''password''] demo_passwd"

definition demo_service :: "u8 list" where
  "demo_service = enc_string (bytes_of ''ssh-userauth'')"

definition demo_attempt :: "u8 list" where
  "demo_attempt = enc_string (bytes_of ''ann'') @ enc_string (bytes_of ''ssh-connection'') @ enc_string (bytes_of ''password'') @
     [0] @ enc_string (bytes_of ''secret'')"

lemma text_read:
  assumes "sshbuf_inv p" "contents p = enc_string (bytes_of s) @ rest" "str_ok s"
  obtains p1 where "sshbuf_get_cstring (\<lambda>_. 4096) p = (Inr (bytes_of s), p1)" "sshbuf_inv p1" "contents p1 = rest"
  using strings_read(2)[OF assms(1,2)] cstring_ok_text[OF assms(3)] assms(3) by (auto simp: str_ok_def)

lemma demo_accepted: "input_service_request demo_sys (demo_buf demo_service) demo_begin =
  Done (send (Service_accept ''ssh-userauth'') (demo_begin\<lparr>au_requests := Handled\<rparr>))"
proof -
  have p: "sshbuf_inv (demo_buf demo_service)" "contents (demo_buf demo_service) = enc_string (bytes_of ''ssh-userauth'') @ []"
    by (simp_all add: demo_service_def)
  have "str_ok ''ssh-userauth''" by (simp add: str_ok_def)
  with p obtain p1 where p1: "sshbuf_get_cstring (\<lambda>_. 4096) (demo_buf demo_service) = (Inr (bytes_of ''ssh-userauth''), p1)"
      "sshbuf_inv p1" "contents p1 = []"
    by (rule text_read)
  have "\<not> au_success demo_begin" by (simp add: demo_begin_def auth_init_def)
  with p1 len_zero[OF p1(2)] show ?thesis by (simp add: input_service_request_def wants_def wants_end_def)
qed

lemma demo_granted:
  fixes au :: "nat authctxt"
  defines "au \<equiv> send (Service_accept ''ssh-userauth'') (demo_begin\<lparr>au_requests := Handled\<rparr>)"
  shows "\<exists>au1. input_userauth_request demo_sys demo_auth_options (demo_buf demo_attempt) au = Done au1 \<and> au_success au1"
proof -
  have p: "sshbuf_inv (demo_buf demo_attempt)" "contents (demo_buf demo_attempt) = demo_attempt"
    by (simp_all add: demo_attempt_def)
  have ok: "str_ok ''ann''" "str_ok ''ssh-connection''" "str_ok ''password''" "str_ok ''secret''" by (simp_all add: str_ok_def)
  obtain p1 where p1: "sshbuf_get_cstring (\<lambda>_. 4096) (demo_buf demo_attempt) = (Inr (bytes_of ''ann''), p1)" "sshbuf_inv p1"
      "contents p1 = enc_string (bytes_of ''ssh-connection'') @ enc_string (bytes_of ''password'') @ [0] @ enc_string (bytes_of ''secret'')"
    using text_read[OF p(1) _ ok(1)] p(2) unfolding demo_attempt_def by blast
  obtain p2 where p2: "sshbuf_get_cstring (\<lambda>_. 4096) p1 = (Inr (bytes_of ''ssh-connection''), p2)" "sshbuf_inv p2"
      "contents p2 = enc_string (bytes_of ''password'') @ [0] @ enc_string (bytes_of ''secret'')"
    using text_read[OF p1(2,3) ok(2)] by blast
  obtain p3 where p3: "sshbuf_get_cstring (\<lambda>_. 4096) p2 = (Inr (bytes_of ''password''), p3)" "sshbuf_inv p3"
      "contents p3 = [0] @ enc_string (bytes_of ''secret'')"
    using text_read[OF p2(2,3) ok(3)] by blast
  obtain p4 where p4: "sshbuf_get_u8 p3 = (Inr 0, p4)" "sshbuf_inv p4" "contents p4 = enc_string (bytes_of ''secret'') @ []"
    using cod_u8.get_law[OF p3(2) TrueI p3(3)] by auto
  obtain p5 where p5: "sshbuf_get_cstring (\<lambda>_. 4096) p4 = (Inr (bytes_of ''secret''), p5)" "sshbuf_inv p5" "contents p5 = []"
    using text_read[OF p4(2,3) ok(4)] by blast
  have e: "sshbuf_len p5 = 0" using len_zero[OF p5(2)] p5(3) by simp
  have d: "au_success au = False" "au_attempt au = 0" "au_config_methods au = [''password'']" "au_failures au = 0"
      "au_force_pwchange au = False" "au_expire_checked au = False" "au_none_enabled au"
    by (simp_all add: au_def demo_begin_def auth_init_def send_def)
  have t: "strsep_tokens ''password'' = [''password'']" by code_simp
  have "auth2_methods_valid demo_auth_options x ''password'' True" for x :: "nat authctxt"
    by (simp add: auth2_methods_valid_def t authmethods_def method_enabled_def demo_auth_options_def)
  then obtain au2 where st: "setup_context demo_sys demo_auth_options ''ann'' None ''ssh-connection'' (au\<lparr>au_attempt := 1\<rparr>) = Done au2"
    and a2: "au_valid au2" "au_pw au2 = demo_passwd" "au_auth_methods au2 = [''password'']" "au_config_methods au2 = [''password'']"
      "au_failures au2 = 0" "au_force_pwchange au2 = False"
    by (simp add: setup_context_def auth2_setup_methods_lists_def Let_def d demo_sys_users)
  let ?au = "(auth2_authctxt_reset_info (auth2_challenge_stop au2))\<lparr>au_postponed := False, au_server_caused_failure := False\<rparr>"
  have a3: "au_valid ?au" "au_pw ?au = demo_passwd" "au_auth_methods ?au = [''password'']" "au_config_methods ?au = [''password'']"
      "au_failures ?au = 0" "au_force_pwchange ?au = False" "au_postponed ?au = False" "au_method_info ?au = None"
    using a2 by (simp_all add: auth2_authctxt_reset_info_def auth2_challenge_stop_def)
  have lk: "authmethod_lookup demo_auth_options ?au ''password'' = Some ''password''"
    unfolding authmethod_lookup_def auth2_method_allowed_def a3
    by (simp add: authmethod_byname_def authmethods_def method_enabled_def demo_auth_options_def list_starts_with_def at_comma_def)
  obtain au3 where r: "userauth_passwd demo_sys demo_auth_options p3 ?au = Done (True, au3)"
    and a4: "au_valid au3" "au_pw au3 = demo_passwd" "au_auth_methods au3 = [''password'']" "au_config_methods au3 = [''password'']"
      "au_postponed au3 = False" "au_method_info au3 = None"
  proof -
    have "\<exists>au3. auth_password demo_sys demo_auth_options ''secret'' ?au = Done (True, au3) \<and> au_valid au3 \<and> au_pw au3 = demo_passwd \<and>
      au_auth_methods au3 = [''password''] \<and> au_config_methods au3 = [''password''] \<and> au_postponed au3 = False \<and> au_method_info au3 = None"
      using a3 by (simp add: auth_password_def Let_def demo_sys_users demo_passwd_def)
    with p4 p5 e that show thesis by (auto simp: userauth_passwd_def must_def must_end_def)
  qed
  have u: "update_lists [''password''] ''password'' None = ([[]], True, True)" by code_simp
  have "\<exists>au1. userauth_finish demo_auth_options True ''password'' None au3 = Done au1 \<and> au_success au1"
    using a4 u by (simp add: userauth_finish_def finish_method_def root_check_def methods_check_def auth2_update_methods_lists_def
        auth2_update_session_info_def finish_reply_def authmethod_byname_def authmethods_def demo_passwd_def)
  then have "\<exists>au1. attempt demo_sys demo_auth_options ''password'' p3 au2 = Done au1 \<and> au_success au1"
    using lk r a3(5) by (simp add: attempt_def Let_def run_method_def demo_auth_options_def)
  with p1(1) p2(1) p3(1) st d show ?thesis by (simp add: input_userauth_request_def wants_def Let_def)
qed

theorem success_completes_a_list_witness:
  "\<exists>au m ms. auth_reachable demo_auth_options demo_begin au \<and> au_success au \<and> m \<in> set [''password''] \<and>
     subseq ms (succeeded au) \<and> after_methods m ms = Some []"
proof -
  obtain au1 where g: "input_userauth_request demo_sys demo_auth_options (demo_buf demo_attempt)
      (send (Service_accept ''ssh-userauth'') (demo_begin\<lparr>au_requests := Handled\<rparr>)) = Done au1" "au_success au1"
    using demo_granted by blast
  have n: "\<not> au_success demo_begin" by (simp add: demo_begin_def auth_init_def)
  have "auth_reachable demo_auth_options demo_begin (send (Service_accept ''ssh-userauth'') (demo_begin\<lparr>au_requests := Handled\<rparr>))"
    using auth_step[OF auth_start n, of demo_sys demo_auth_options "Service_request (demo_buf demo_service)"] demo_accepted by simp
  then have r: "auth_reachable demo_auth_options demo_begin au1"
    by (rule auth_step[where e = "Userauth_request (demo_buf demo_attempt)" and z = demo_sys])
      (use g n in \<open>simp_all add: dispatched_def send_def\<close>)
  from success_completes_a_list[OF r[unfolded demo_begin_def] g(2)] r g(2) show ?thesis by auto
qed

section \<open>How often a client may try\<close>

definition counted :: "auth2_options \<Rightarrow> 'k authctxt \<Rightarrow> bool" where
  "counted w au \<longleftrightarrow> 0 \<le> au_failures au \<and> au_failures au < w_max_authtries w \<and> 0 \<le> au_attempt au \<and> au_attempt au \<le> 1024"

lemma finish_counted: "userauth_finish w a pm sub au = Done au1 \<Longrightarrow> counted w au \<Longrightarrow> counted w au1"
  using finish_keeps[of w a pm sub au au1] by (auto simp: counted_def)

lemma counted_frame: "frame au1 = frame au \<Longrightarrow> counted w au1 \<longleftrightarrow> counted w au"
  by (simp add: frame_def counted_def)

lemma attempt_counted: "attempt z w mth p au = Done au1 \<Longrightarrow> counted w au \<Longrightarrow> counted w au1"
  by (erule attempt_steps) (use finish_counted counted_frame in blast)

lemma setup_counted: "setup_context z w user style service au = Done au1 \<Longrightarrow> counted w au \<Longrightarrow> counted w au1"
  by (auto simp: setup_context_def auth2_setup_methods_lists_def Let_def send_def counted_def
      split: prod.split_asm if_split_asm option.split_asm)

lemma dispatch_counted:
  assumes d: "auth_dispatch z w e au = Done au1" and c: "counted w au"
  shows "counted w au1"
proof (cases e)
  case (Service_request p)
  with d c show ?thesis
    by (auto simp: input_service_request_def wants_Done wants_end_Done counted_def send_def split: if_split_asm)
next
  case (Userauth_request p)
  show ?thesis
  proof (cases "au_requests au")
    case Handled
    with d Userauth_request have "input_userauth_request z w p au = Done au1" by (simp add: dispatched_def)
    then show ?thesis
    proof (cases rule: request_cases)
      case (first user style service mth p3 au2)
      have "counted w (au\<lparr>au_attempt := 1\<rparr>)" using c by (simp add: counted_def)
      with setup_counted[OF first(2)] attempt_counted[OF first(3)] show ?thesis by blast
    next
      case (later mth p3)
      have "counted w (au\<lparr>au_attempt := au_attempt au + 1\<rparr>)" using c later by (simp add: counted_def)
      with attempt_counted[OF later(3)] show ?thesis .
    qed
  qed (use d Userauth_request c in \<open>auto simp: dispatched_def counted_def send_def\<close>)
next
  case (Userauth_info_response p)
  show ?thesis
  proof (cases "au_info_response au")
    case Handled
    with d Userauth_info_response obtain b dev au2 where "read_info_response z w p au = Done (b, dev, au2)"
      and f: "userauth_finish w b ''keyboard-interactive'' (Some dev) au2 = Done au1"
      by (auto simp: dispatched_def input_userauth_info_response_def andThen_Done)
    then show ?thesis using response_frame counted_frame finish_counted c by blast
  qed (use d Userauth_info_response c in \<open>auto simp: dispatched_def counted_def send_def\<close>)
qed



end
