(* ===== verification/Spec2Isabelle.thy ===== *)
theory Spec2Isabelle
  imports CloseProps PermProps FlowProps WireProps MatchProps TableProps MuxProps ServerProps
    SocksProps PostProps PollProps AddrProps AuthProps KeyProps Auth2Props
begin

text \<open>
  Authentication, sessions, channels and forwardings of OpenSSH 9.2p1's server, as CMXSafe runs it.

  CMXSafe gives a pod of a Kubernetes cluster and an IoT endpoint a private address each, and connects
  them through OpenSSH forwardings that a gateway permits or refuses. The repository is the OpenSSH
  sources (two copies, of the cluster's gateway and of the endpoint, the same byte for byte; the paths
  below are those of src/cluster/cmxsafe-gw/openssh/openssh-portable-V_9_2_P1) and scripts and container
  files that configure them. Who may log in to the gateway is decided by auth2.c and its methods, with which
  options by auth2-pubkey.c and auth-options.c; what the gateway lets through by the permission lists of
  channels.c, filled by session.c from the options of the server and of the key; what
  a client asks for is taken apart by serverloop.c and session.c; what reaches the other side is carried
  by the channels; all rest on the buffers of sshbuf.c. These are modelled here.

  Parts, from the bottom up, with the theory and the source files of each:

  \<^item> Prelude: machine integers at their width, bytes, option-valued memory access.
  \<^item> SshBuf (sshbuf.c, sshbuf.h): a buffer is the record \<open>sshbuf\<close>, its data a list of bytes \<open>b_mem\<close>
    with offset, size, allocation and limit as 64-bit words; every call returns the error or the result
    together with the new buffer. \<open>sshbuf_inv\<close> is what sshbuf_check_sanity and the memory require;
    \<open>contents\<close> is the abstract value, the bytes between offset and end.
  \<^item> SshBufGetPut, SshBufWire (sshbuf-getput-basic.c): the wire format. SshBufWire proves what each get
    and put does to the contents, errors included. WireMsg: messages as lists of typed fields.
  \<^item> Match (match.c): patterns, pattern lists, negotiation, filters.
  \<^item> Channel (channels.h, channels.c): the records \<open>channel\<close>, \<open>ssh\<close>, \<open>permission\<close>; \<open>run\<close> is the result of
    a function that may call fatal or disconnect; what a function sends, and what it does to descriptors
    and callbacks, is appended to a list of \<open>eff\<close>. Opening and closing of descriptors.
  \<^item> ChanTable: creation, release, lookups, open requests, callbacks, timeouts. ChanPass: passes over the
    table, as the locale \<open>channel_sweep\<close> and its interpretations.
  \<^item> Nchan (nchan.c): the two half-close state machines of a channel.
  \<^item> ChanPerm (channels.c, misc.c, strtonum.c): permission lists, their matching, ports, bind addresses.
  \<^item> ChanFwd (channels.c): listeners, connections, remote forwards.
  \<^item> ChanMux (channels.c): the proxy between a multiplexing client and the server.
  \<^item> ChanIn (channels.c): the handlers of the peer's messages.
  \<^item> ChanOut (channels.c): what is sent, read from and written to descriptors, window adjustments,
    garbage collection, the pass over the table. ChanWindow: the accounting of the windows. ChanStream: the order of the bytes.
  \<^item> SockName (canohost.c, inet_ntop.c): the addresses and ports of the ends of a socket, and their text.
  \<^item> ChanSocks (channels.c): the SOCKS header of a dynamic forward, the open message for a connection.
  \<^item> ChanPost (channels.c): what is done when a descriptor is ready: listeners accept, connections complete,
    X11's first packet is checked, clients of a multiplexing master are read; the tables of handlers.
  \<^item> ChanPoll (channels.c): the array for \<open>poll\<close> and what is made of its answer.
  \<^item> HostPort (misc.c, auth-options.c): values host:port and the permit directives of keys.
  \<^item> FwdPolicy (servconf.c, session.c): from the configuration and the key's options to the lists.
  \<^item> SessionTab (session.c, session.h): the record \<open>session\<close> and the state \<open>server\<close> of a server process:
    its slots, the head \<open>v_first_unused\<close> of the list of free slots (linked by \<open>ss_next_unused\<close>), and the
    channels \<open>v_ssh\<close>. Opening, lookup, a child's exit, closing, destroying. \<open>sessions_ok\<close> is its invariant.
  \<^item> SessionReq (session.c, ttymodes.c, x11_create_display_inet of channels.c): the requests of a session,
    from the bytes of the message to the command that is run. Running a child is the effect \<open>Run_child\<close>,
    which carries the command (\<open>None\<close> is a login shell). SessionKeeps: what they keep.
  \<^item> ServerLoop (serverloop.c): the handlers of the server loop and its dispatch table: opening of
    channels, global requests, requests on channels.
  \<^item> ServerKeeps: the relation \<open>server_step\<close>: a message of any type and content, the exit of a child, a closed
    channel, the end of all sessions; its invariant \<open>server_ok\<close>. ServerSteady: which effects and permission
    lists a handler can change. ServerTrace: what a sequence of steps leaves behind.
  \<^item> Addr (addr.c, addrmatch.c, match.c): addresses as words, masks, networks, lists of networks and patterns.
  \<^item> SshBufView (sshbuf.c): a view of a part of a buffer, which counts as a reference of its parent.
  \<^item> AuthOpts (auth-options.c, misc.c): the record \<open>sshauthopt\<close> of the options of a key, and their parser.
    AuthMerge (auth-options.c, auth.c, auth2-pubkeyfile.c): the merge of options, those of a session, and
    whether a client may use an entry. AuthCert (auth-options.c): the options in a certificate. AuthWire
    (auth-options.c): their bytes between the processes of the server.
  \<^item> AuthKeys (auth2-pubkeyfile.c, auth2-pubkey.c, auth.c, sshkey.c): lines and files of authorized keys and
    principals, certificates of trusted authorities, revocation; \<open>user_key_allowed\<close> is the decision.
  \<^item> AuthReq (auth2.c, auth.h): the record \<open>authctxt\<close>, which also holds what lives in globals (\<open>auth_opts\<close>, the
    handlers of the two packet types, the configured lists of methods), and the lists of methods.
    AuthMeth (auth2-none.c, auth2-passwd.c, auth-passwd.c, auth2-pubkey.c, auth2-hostbased.c, auth2-kbdint.c,
    auth2-chall.c): the methods. Auth2 (auth2.c, dispatch.c): the end of an attempt, requests, the loop
    \<open>do_authentication2\<close> over a client's packets, and \<open>auth_reachable\<close>, the states it can come to.
  \<^item> TableSteps, TableInput: step relations over the table, the invariants of every reachable table.
  \<^item> Demo: the concrete inputs of the witnesses.

  How they interact: a request to authenticate (Auth2) runs a method (AuthMeth), which reads its fields from
  the packet's buffer and asks AuthKeys about a key; the options of the line and of the certificate (AuthOpts,
  AuthCert) are checked with Addr and merged into those of the session (AuthMerge), where FwdPolicy and
  SessionReq find them through \<open>session_view\<close>. Once the loop has ended, a packet handler (ChanIn) finds its channel by number (ChanTable), hands a proxy's
  message to ChanMux, or appends to the channel's buffers (SshBuf) and moves the close machines (Nchan);
  the wait (ChanPoll) runs the handlers of the two tables (ChanPost), of which those of open channels (ChanOut)
  move bytes between descriptors, buffers and packets, and those of listeners make channels; ChanFwd makes
  channels and listeners when ChanPerm allows the address, and ChanPerm's lists come from FwdPolicy. The
  server loop (ServerLoop) calls ChanFwd to connect and to listen, and the sessions (SessionTab, SessionReq)
  to run commands; a session holds the number of its channel, and a channel's callback names it.

  What the properties show, by theory:

  \<^item> ServerProps: of every server that can arise from messages, exits and closed channels in any order:
    the limit on sessions and the list of free slots, the forced command, the end of new sessions, where
    a client can connect to and listen on; each open is answered once; what exec runs.
  \<^item> PermProps: which addresses the lists of a session allow, stated over the configuration's words; that
    connections and listeners are made for those only; bind addresses under GatewayPorts; remote
    forwards from their request to their cancel; the cases where the code departs from its comments.
  \<^item> CloseProps: the messages of a close happen in order and once, states never go back, a close is
    answered, a channel is freed only after both.
  \<^item> FlowProps: the window granted bounds the memory, bytes are relayed in order, none lost or made up,
    datagrams are whole.
  \<^item> TableProps, MuxProps: the invariants of the table, numbers, descriptors, the windows of the peer, the
    translation of numbers, and what a dead multiplexing client leaves behind.
  \<^item> SocksProps: the bytes of a SOCKS request, whatever surrounds them, become the open message for the same
    destination. PostProps: an accepted connection asks for the listener's destination, a connection in
    progress is answered once, an X11 connection needs the cookie. PollProps: a flag is ready exactly when
    it is wanted and \<open>poll\<close> reports its descriptor.
  \<^item> AddrProps: a list of networks decides by the networks its text denotes, bit by bit; a list with negations
    and patterns by its entries. AuthProps: what the parser makes is well typed, what a merge grants, that a
    restricted key forwards nothing from the text of its options to the lists of the channels, the round
    trip of the options, and the options of a certificate as a function of its bytes. KeyProps: a key that
    may log in is granted by a line or by a trusted authority and is not revoked; a login with a key has
    shown a signature over this session and this request; options that cannot be merged are lost. Auth2Props: a
    success has worked off a whole list of methods, and the tries of a client are bounded.
  \<^item> WireProps: round trip of messages, errors, limits of buffers. MatchProps: patterns against a
    reference matcher, negotiation, filters.

  Parameters. What the sources call and do not contain is an argument: the record \<open>env\<close> has the
  allocator (\<open>e_alc\<close>, the address it returns for a size, NULL when it fails), whether a packet can be sent, the clock,
  properties of descriptors, random numbers and the channel filters; \<open>net\<close> has the resolver and the
  socket calls; \<open>sys\<close> has what the session code asks of the system (ptys, pipes, fork, signals, the tunnel
  device, the agent's directory), and \<open>srv_context\<close> holds the three with the options of the server and of the
  key. The record \<open>auth_env\<close> has what AuthKeys asks (reading and comparing keys, fingerprints, revocation files,
  the lines of files and of configured commands), \<open>auth_sys\<close> beside it what the methods ask (users, passwords, signatures,
  the identifier of the session, known hosts, the devices of a challenge), \<open>opt_calls\<close> services by name and the
  reading of times, \<open>numeric\<close> the addresses of numeric texts. Each step of an authentication may have another
  such record: the theorems hold whatever the system answers. What a read or a write of a descriptor returns is an argument of the handlers. The
  theorems hold for all of them, but for the documented behaviour that a read returns at most what was
  asked for and a write takes at most what was given, a hypothesis where it is used.

  Bounds. Integers are words of the width of the C type (\<open>u32\<close>, \<open>size_t\<close> of 64 bits), so wrap-around is
  in the model; \<open>int\<close> stands for C's int where the code compares with bounds far inside its range. Loops are
  structural over a list or a table, or end by a measure: the text that is left to parse, the bytes left in
  a view. The one fuel is that of \<open>next_device\<close>, which drops a device's name from a list in each round
  and gets the length of the list, so it never runs out. The event loops are step relations.

  Not modelled: the cipher, key exchange and packet layers and the key formats, which rest on libcrypto;
  privilege separation, which repeats the checks in a second process, PAM, GSSAPI and Kerberos, which the
  gateway is built without, the user database, allow and deny lists, the files of host based authentication and
  the process of a configured command; delays of an attempt; parsing of configuration
  files other than the forwarding directives; SFTP, scp, the agent and the tools; the X11 client's side of channels.c; the loop server_loop2 around the handlers, its alive
  messages, and server_input_hostkeys_prove, which signs with the host keys and is the parameter
  \<open>y_prove\<close>; the child process after fork (do_child), and the terminal attributes that the modes of a pty
  request set (that they parse, and how far, is modelled); the texts of log messages; the scripts.
\<close>

end
